(* ===== verification/Prelude.thy ===== *)
theory Prelude
  imports Main "HOL-Library.Char_ord" "HOL-Library.List_Lexorder" "HOL-Library.Word"
begin

text \<open>
  Shared vocabulary of the development.

  \<^item> JavaScript values as they arrive in a request body (\<open>json\<close>), with property access,
    truthiness and the \<open>typeof\<close> tests the validators use.
  \<^item> JavaScript string operations on \<open>string\<close>. A \<open>char\<close> stands for a UTF-16 code unit
    below 256; on those the operations here agree with ECMAScript (lower-casing, white space,
    slicing, splitting, padding).
  \<^item> \<open>Array.prototype.sort\<close> with a comparator (stable), as insertion sort.
  \<^item> SQL tables as lists of rows with a key, and the two contracts the components share: a table
    behaves as a finite map (\<open>row_map\<close>), and a step function that keeps an invariant keeps it
    along every run (\<open>step_system\<close>).
\<close>

named_theorems js_defs \<open>definitions of the JavaScript string operations\<close>
named_theorems sql_defs \<open>definitions of the SQL table operations\<close>

subsection \<open>Values of a parsed request body\<close>

text \<open>
  A number is an integer, or any other number carried by its text (\<open>1.5\<close>, \<open>Infinity\<close>): the
  validators only ask whether a number is an integer before they compare it.
\<close>

datatype json =
    JUndefined
  | JNull
  | JBool bool
  | JInt int
  | JFloat string
  | JStr string
  | JArr "json list"
  | JObj "(string \<times> json) list"

fun field :: "json \<Rightarrow> string \<Rightarrow> json" where
  "field (JObj kvs) k = (case map_of kvs k of None \<Rightarrow> JUndefined | Some v \<Rightarrow> v)"
| "field _ k = JUndefined"

fun truthy :: "json \<Rightarrow> bool" where
  "truthy JUndefined = False"
| "truthy JNull = False"
| "truthy (JBool b) = b"
| "truthy (JInt i) = (i \<noteq> 0)"
| "truthy (JFloat s) = (s \<noteq> ''NaN'')"
| "truthy (JStr s) = (s \<noteq> [])"
| "truthy (JArr xs) = True"
| "truthy (JObj kvs) = True"

text \<open>\<open>x && typeof x === "object"\<close>: objects and arrays, not \<open>null\<close>.\<close>

fun is_object :: "json \<Rightarrow> bool" where
  "is_object (JObj _) = True"
| "is_object (JArr _) = True"
| "is_object _ = False"

fun is_array :: "json \<Rightarrow> bool" where
  "is_array (JArr _) = True"
| "is_array _ = False"

subsection \<open>Strings\<close>

text \<open>A nullable text as a condition (\<open>if (s)\<close>) and as \<open>s || ""\<close>.\<close>

definition truthy_text :: "string option \<Rightarrow> bool" where
  "truthy_text v = (case v of None \<Rightarrow> False | Some s \<Rightarrow> s \<noteq> [])"

definition text_of :: "string option \<Rightarrow> string" where
  "text_of v = (case v of None \<Rightarrow> [] | Some s \<Rightarrow> s)"

abbreviation code :: "char \<Rightarrow> nat" where
  "code c \<equiv> of_char c"

text \<open>\<open>toLowerCase\<close> on code units below 256: the ASCII letters and U+00C0 to U+00DE but U+00D7.\<close>

definition lower_char :: "char \<Rightarrow> char" where
  "lower_char c =
     (if (65 \<le> code c \<and> code c \<le> 90) \<or> (192 \<le> code c \<and> code c \<le> 222 \<and> code c \<noteq> 215)
      then char_of (code c + 32) else c)"

definition toLowerCase :: "string \<Rightarrow> string" where
  [js_defs]: "toLowerCase s = map lower_char s"

text \<open>White space of \<open>trim\<close> and of \<open>\s\<close>: tab to carriage return, space, no-break space.\<close>

definition is_space :: "char \<Rightarrow> bool" where
  "is_space c = ((9 \<le> code c \<and> code c \<le> 13) \<or> code c = 32 \<or> code c = 160)"

definition trim :: "string \<Rightarrow> string" where
  [js_defs]: "trim s = rev (dropWhile is_space (rev (dropWhile is_space s)))"

definition is_digit :: "char \<Rightarrow> bool" where
  "is_digit c = (48 \<le> code c \<and> code c \<le> 57)"

definition is_lower :: "char \<Rightarrow> bool" where
  "is_lower c = (97 \<le> code c \<and> code c \<le> 122)"

definition is_upper :: "char \<Rightarrow> bool" where
  "is_upper c = (65 \<le> code c \<and> code c \<le> 90)"

definition is_lower_hex :: "char \<Rightarrow> bool" where
  "is_lower_hex c = (is_digit c \<or> (97 \<le> code c \<and> code c \<le> 102))"

definition startsWith :: "string \<Rightarrow> string \<Rightarrow> bool" where
  [js_defs]: "startsWith s p = (take (length p) s = p)"

definition endsWith :: "string \<Rightarrow> string \<Rightarrow> bool" where
  [js_defs]: "endsWith s p = (length p \<le> length s \<and> drop (length s - length p) s = p)"

text \<open>\<open>s.slice(0, -n)\<close> for \<open>n > 0\<close>, and \<open>s.slice(a, b)\<close> for \<open>0 \<le> a \<le> b\<close>.\<close>

definition drop_end :: "nat \<Rightarrow> string \<Rightarrow> string" where
  [js_defs]: "drop_end n s = take (length s - n) s"

definition slice :: "nat \<Rightarrow> nat \<Rightarrow> 'a list \<Rightarrow> 'a list" where
  "slice a b xs = take (b - a) (drop a xs)"

text \<open>\<open>s.split(c)\<close> for a one-character separator: never empty.\<close>

fun split_on :: "char \<Rightarrow> string \<Rightarrow> string list" where
  "split_on c [] = [[]]"
| "split_on c (x # xs) =
     (if x = c then [] # split_on c xs
      else case split_on c xs of [] \<Rightarrow> [[x]] | y # ys \<Rightarrow> (x # y) # ys)"

fun join :: "string \<Rightarrow> string list \<Rightarrow> string" where
  "join sep [] = []"
| "join sep [x] = x"
| "join sep (x # y # ys) = x @ sep @ join sep (y # ys)"

definition digit_char :: "nat \<Rightarrow> char" where
  "digit_char d = char_of (48 + d)"

definition digit_value :: "char \<Rightarrow> nat" where
  "digit_value c = code c - 48"

text \<open>\<open>String(n)\<close> for a natural number, and \<open>Number(s)\<close> for a non-empty run of digits.\<close>

fun show_nat :: "nat \<Rightarrow> string" where
  "show_nat n = (if n < 10 then [digit_char n] else show_nat (n div 10) @ [digit_char (n mod 10)])"

declare show_nat.simps [simp del]

definition read_nat :: "string \<Rightarrow> nat" where
  "read_nat s = foldl (\<lambda>acc c. 10 * acc + digit_value c) 0 s"

definition padStart :: "nat \<Rightarrow> char \<Rightarrow> string \<Rightarrow> string" where
  "padStart n c s = replicate (n - length s) c @ s"

text \<open>\<open>s.replace(/^\./, "")\<close>.\<close>

definition strip_leading_dot :: "string \<Rightarrow> string" where
  "strip_leading_dot s = (if s \<noteq> [] \<and> hd s = CHR ''.'' then tl s else s)"

definition show_int :: "int \<Rightarrow> string" where
  "show_int i = (if i < 0 then ''-'' @ show_nat (nat (- i)) else show_nat (nat i))"

text \<open>\<open>String(v)\<close>, of integers below \<open>10\<^sup>2\<^sup>1\<close>, which print without an exponent.\<close>

fun js_string :: "json \<Rightarrow> string" where
  "js_string JUndefined = ''undefined''"
| "js_string JNull = ''null''"
| "js_string (JBool b) = (if b then ''true'' else ''false'')"
| "js_string (JInt i) = show_int i"
| "js_string (JFloat t) = t"
| "js_string (JStr s) = s"
| "js_string (JArr xs) = join '','' (map (\<lambda>x. if x = JNull \<or> x = JUndefined then [] else js_string x) xs)"
| "js_string (JObj kvs) = ''[object Object]''"

text \<open>\<open>String(v || "")\<close> and \<open>String(v ?? "")\<close>\<close>

definition string_or :: "json \<Rightarrow> string" where
  "string_or v = (if truthy v then js_string v else [])"

definition string_nullish :: "json \<Rightarrow> string" where
  "string_nullish v = (if v = JNull \<or> v = JUndefined then [] else js_string v)"

text \<open>Position of the first occurrence; \<open>None\<close> is \<open>indexOf\<close>'s \<open>-1\<close>.\<close>

fun index_of :: "'a \<Rightarrow> 'a list \<Rightarrow> nat option" where
  "index_of c [] = None"
| "index_of c (x # xs) = (if x = c then Some 0 else map_option Suc (index_of c xs))"

lemma split_on_not_Nil [simp]: "split_on c xs \<noteq> []"
  by (induction xs) (auto split: list.splits)

lemma join_split_on: "join [c] (split_on c xs) = xs"
proof (induction xs)
  case (Cons x xs)
  obtain y ys where "split_on c xs = y # ys" by (cases "split_on c xs") auto
  with Cons show ?case by (cases ys) auto
qed simp

lemma split_on_no_sep: "c \<notin> set xs \<Longrightarrow> split_on c xs = [xs]"
  by (induction xs) auto

lemma split_on_append: "c \<notin> set xs \<Longrightarrow> split_on c (xs @ c # ys) = xs # split_on c ys"
  by (induction xs) auto

lemma split_on_parts: "p \<in> set (split_on c xs) \<Longrightarrow> c \<notin> set p"
  by (induction xs arbitrary: p) (fastforce split: list.splits if_splits)+

lemma code_digit_char: "d < 10 \<Longrightarrow> code (digit_char d) = 48 + d"
  by (simp add: digit_char_def)

lemma digit_value_char [simp]: "d < 10 \<Longrightarrow> digit_value (digit_char d) = d"
  by (simp add: digit_value_def code_digit_char)

lemma is_digit_digit_char [simp]: "d < 10 \<Longrightarrow> is_digit (digit_char d)"
  by (simp add: is_digit_def code_digit_char)

lemma digit_char_value: "is_digit c \<Longrightarrow> digit_char (digit_value c) = c"
  by (simp add: is_digit_def digit_char_def digit_value_def)

lemma digit_value_less: "is_digit c \<Longrightarrow> digit_value c < 10"
  unfolding is_digit_def digit_value_def by linarith

lemma read_show_nat: "read_nat (show_nat n) = n"
proof (induction n rule: show_nat.induct)
  case (1 n)
  then show ?case
    by (subst show_nat.simps) (simp add: read_nat_def)
qed

lemma show_nat_small: "n < 10 \<Longrightarrow> show_nat n = [digit_char n]"
  by (simp add: show_nat.simps)

lemma show_nat_two: "10 \<le> n \<Longrightarrow> n < 100 \<Longrightarrow> show_nat n = [digit_char (n div 10), digit_char (n mod 10)]"
  by (subst show_nat.simps) (simp add: show_nat_small)

lemma digit_char_0: "digit_char 0 = CHR ''0''"
  by code_simp

lemma padStart_two:
  assumes "n < 100"
  shows "padStart 2 CHR ''0'' (show_nat n) = [digit_char (n div 10), digit_char (n mod 10)]"
proof (cases "n < 10")
  case True
  then show ?thesis
    by (simp add: padStart_def show_nat_small digit_char_0 numeral_2_eq_2)
next
  case False
  with assms show ?thesis by (simp add: padStart_def show_nat_two)
qed

lemma endsWith_append: "endsWith (xs @ p) p"
  by (simp add: endsWith_def)

lemma endsWithE: "endsWith s p \<Longrightarrow> s = drop_end (length p) s @ p"
  unfolding endsWith_def drop_end_def by (metis append_take_drop_id)

lemma drop_end_append [simp]: "drop_end (length p) (xs @ p) = xs"
  by (simp add: drop_end_def)

lemma endsWith_iff: "endsWith s p \<longleftrightarrow> (\<exists>xs. s = xs @ p)"
  by (metis endsWithE endsWith_append)

lemma startsWith_iff: "startsWith s p \<longleftrightarrow> (\<exists>xs. s = p @ xs)"
  unfolding startsWith_def by (metis append_eq_conv_conj append_take_drop_id)

lemma lower_char_idem: "lower_char (lower_char c) = lower_char c"
  by (simp add: lower_char_def)

lemma toLowerCase_idem [simp]: "toLowerCase (toLowerCase s) = toLowerCase s"
  by (simp add: toLowerCase_def lower_char_idem)

lemma split_on_append_sep: "split_on c (xs @ c # ys) = split_on c xs @ split_on c ys"
  by (induction xs) (auto split: list.split)

lemma join_append: "xs \<noteq> [] \<Longrightarrow> ys \<noteq> [] \<Longrightarrow> join d (xs @ ys) = join d xs @ d @ join d ys"
  by (induction d xs rule: join.induct) (auto simp: neq_Nil_conv)

lemma under_iff_labels:
  "h = b \<or> endsWith h (c # b) \<longleftrightarrow> (\<exists>pre. split_on c h = pre @ split_on c b)"
proof
  assume "h = b \<or> endsWith h (c # b)"
  then show "\<exists>pre. split_on c h = pre @ split_on c b"
    by (auto simp: endsWith_iff split_on_append_sep)
next
  assume "\<exists>pre. split_on c h = pre @ split_on c b"
  then obtain pre where pre: "split_on c h = pre @ split_on c b" ..
  have "h = join [c] (pre @ split_on c b)" by (simp flip: pre add: join_split_on)
  then show "h = b \<or> endsWith h (c # b)"
    by (cases "pre = []") (auto simp: join_append join_split_on endsWith_iff)
qed

lemma index_of_nth: "distinct xs \<Longrightarrow> i < length xs \<Longrightarrow> index_of (xs ! i) xs = Some i"
  by (induction xs arbitrary: i) (auto simp: nth_Cons split: nat.splits)

lemma index_of_Some: "index_of c xs = Some i \<Longrightarrow> i < length xs \<and> xs ! i = c"
  by (induction xs arbitrary: i) (auto split: if_splits)

lemma index_of_None: "index_of c xs = None \<longleftrightarrow> c \<notin> set xs"
  by (induction xs) auto

subsection \<open>Sorting with a comparator\<close>

fun insort_by :: "('a \<Rightarrow> 'a \<Rightarrow> int) \<Rightarrow> 'a \<Rightarrow> 'a list \<Rightarrow> 'a list" where
  "insort_by cmp x [] = [x]"
| "insort_by cmp x (y # ys) = (if cmp x y \<le> 0 then x # y # ys else y # insort_by cmp x ys)"

fun sort_by :: "('a \<Rightarrow> 'a \<Rightarrow> int) \<Rightarrow> 'a list \<Rightarrow> 'a list" where
  "sort_by cmp [] = []"
| "sort_by cmp (x # xs) = insort_by cmp x (sort_by cmp xs)"

text \<open>\<open>a || b\<close> on comparator results: the first that is not zero.\<close>

definition or_else :: "int \<Rightarrow> int \<Rightarrow> int" where
  "or_else a b = (if a \<noteq> 0 then a else b)"

lemma set_insort_by [simp]: "set (insort_by cmp x xs) = insert x (set xs)"
  by (induction xs) auto

lemma set_sort_by [simp]: "set (sort_by cmp xs) = set xs"
  by (induction xs) auto

lemma length_insort_by [simp]: "length (insort_by cmp x xs) = Suc (length xs)"
  by (induction xs) auto

lemma length_sort_by [simp]: "length (sort_by cmp xs) = length xs"
  by (induction xs) auto

lemma distinct_insort_by [simp]: "distinct (insort_by cmp x xs) \<longleftrightarrow> x \<notin> set xs \<and> distinct xs"
  by (induction xs) auto

lemma distinct_sort_by [simp]: "distinct (sort_by cmp xs) \<longleftrightarrow> distinct xs"
  by (induction xs) auto

lemma distinct_map_insort_by:
  "distinct (map f (insort_by cmp x xs)) \<longleftrightarrow> f x \<notin> f ` set xs \<and> distinct (map f xs)"
  by (induction xs) auto

lemma distinct_map_sort_by [simp]: "distinct (map f (sort_by cmp xs)) \<longleftrightarrow> distinct (map f xs)"
  by (induction xs) (auto simp: distinct_map_insort_by)

text \<open>
  A comparator that never contradicts an order on a key sorts by that key, whatever it does on
  elements with equal keys.
\<close>

lemma sorted_wrt_insort_by:
  fixes k :: "'a \<Rightarrow> 'b::linorder"
  assumes "\<And>a b. cmp a b \<le> 0 \<Longrightarrow> k a \<le> k b" and "\<And>a b. \<not> cmp a b \<le> 0 \<Longrightarrow> k b \<le> k a"
    and "sorted_wrt (\<lambda>a b. k a \<le> k b) xs"
  shows "sorted_wrt (\<lambda>a b. k a \<le> k b) (insort_by cmp x xs)"
  using assms(3)
proof (induction xs)
  case (Cons y ys)
  then show ?case using assms(1,2) by (fastforce dest: order_trans)
qed simp

lemma sorted_wrt_sort_by:
  fixes k :: "'a \<Rightarrow> 'b::linorder"
  assumes "\<And>a b. cmp a b \<le> 0 \<Longrightarrow> k a \<le> k b" and "\<And>a b. \<not> cmp a b \<le> 0 \<Longrightarrow> k b \<le> k a"
  shows "sorted_wrt (\<lambda>a b. k a \<le> k b) (sort_by cmp xs)"
proof (induction xs)
  case (Cons x xs)
  have "sorted_wrt (\<lambda>a b. k a \<le> k b) (insort_by cmp x (sort_by cmp xs))"
    by (rule sorted_wrt_insort_by [of cmp k, OF assms(1,2) Cons.IH])
  then show ?case by simp
qed simp

lemma sorted_wrt_take_drop:
  assumes "sorted_wrt R xs" and "a \<in> set (take n xs)" and "b \<in> set (drop n xs)"
  shows "R a b"
  using assms by (metis append_take_drop_id sorted_wrt_append)

lemma distinct_take_drop_disjoint: "distinct xs \<Longrightarrow> set (take n xs) \<inter> set (drop n xs) = {}"
  by (metis append_take_drop_id distinct_append)

lemma find_Some_iff_mem: "find P xs = Some x \<Longrightarrow> x \<in> set xs \<and> P x"
  by (induction xs) (auto split: if_splits)

lemma find_None_iff_all: "find P xs = None \<longleftrightarrow> (\<forall>x\<in>set xs. \<not> P x)"
  by (induction xs) auto

subsection \<open>SQL tables\<close>

text \<open>
  A table is the list of its rows in \<open>rowid\<close> order; \<open>key\<close> reads a row's primary key. An upsert
  (\<open>ON CONFLICT DO UPDATE\<close>) rewrites the row in place or appends it; \<open>INSERT OR IGNORE\<close> leaves an
  existing row alone.
\<close>

definition tbl_lookup :: "('r \<Rightarrow> 'k) \<Rightarrow> 'k \<Rightarrow> 'r list \<Rightarrow> 'r option" where
  [sql_defs]: "tbl_lookup key k t = find (\<lambda>r. key r = k) t"

definition tbl_upsert :: "('r \<Rightarrow> 'k) \<Rightarrow> 'r \<Rightarrow> 'r list \<Rightarrow> 'r list" where
  [sql_defs]: "tbl_upsert key r t =
     (if tbl_lookup key (key r) t = None then t @ [r]
      else map (\<lambda>q. if key q = key r then r else q) t)"

definition tbl_insert_or_ignore :: "('r \<Rightarrow> 'k) \<Rightarrow> 'r \<Rightarrow> 'r list \<Rightarrow> 'r list" where
  [sql_defs]: "tbl_insert_or_ignore key r t =
     (if tbl_lookup key (key r) t = None then t @ [r] else t)"

definition tbl_delete :: "('r \<Rightarrow> 'k) \<Rightarrow> 'k \<Rightarrow> 'r list \<Rightarrow> 'r list" where
  [sql_defs]: "tbl_delete key k t = filter (\<lambda>r. key r \<noteq> k) t"

text \<open>\<open>UPDATE ... WHERE p\<close>, with the number of rows changed (\<open>meta.changes\<close>).\<close>

definition tbl_update :: "('r \<Rightarrow> bool) \<Rightarrow> ('r \<Rightarrow> 'r) \<Rightarrow> 'r list \<Rightarrow> 'r list" where
  [sql_defs]: "tbl_update p f t = map (\<lambda>r. if p r then f r else r) t"

definition tbl_changes :: "('r \<Rightarrow> bool) \<Rightarrow> 'r list \<Rightarrow> nat" where
  [sql_defs]: "tbl_changes p t = length (filter p t)"

abbreviation distinct_keys :: "('r \<Rightarrow> 'k) \<Rightarrow> 'r list \<Rightarrow> bool" where
  "distinct_keys key t \<equiv> distinct (map key t)"

lemma tbl_lookup_mem: "tbl_lookup key k t = Some r \<Longrightarrow> r \<in> set t \<and> key r = k"
  unfolding tbl_lookup_def by (drule find_Some_iff_mem) simp

lemma tbl_lookup_None: "tbl_lookup key k t = None \<longleftrightarrow> k \<notin> key ` set t"
  by (auto simp: tbl_lookup_def find_None_iff_all)

lemma tbl_lookup_eq: "distinct_keys key t \<Longrightarrow> r \<in> set t \<Longrightarrow> tbl_lookup key (key r) t = Some r"
  unfolding tbl_lookup_def
proof (induction t)
  case (Cons q t)
  then show ?case by (cases "r = q") (auto simp: image_iff)
qed simp

lemma tbl_lookup_append:
  "tbl_lookup key k (t @ u) = (case tbl_lookup key k t of None \<Rightarrow> tbl_lookup key k u | Some r \<Rightarrow> Some r)"
  unfolding tbl_lookup_def by (induction t) auto

lemma map_key_update: "(\<And>q. key (f q) = key q) \<Longrightarrow> map key (tbl_update p f t) = map key t"
  by (simp add: tbl_update_def)

lemma tbl_lookup_upsert:
  "tbl_lookup key k (tbl_upsert key r t) = (if k = key r then Some r else tbl_lookup key k t)"
proof (cases "tbl_lookup key (key r) t")
  case None
  then show ?thesis
    by (auto simp: tbl_upsert_def tbl_lookup_append split: option.split) (simp_all add: tbl_lookup_def)
next
  case (Some q)
  have other: "find (\<lambda>q'. key q' = k) (map (\<lambda>q. if key q = key r then r else q) u)
      = find (\<lambda>q'. key q' = k) u" if "k \<noteq> key r" for u
    using that by (induction u) auto
  have same: "find (\<lambda>q'. key q' = key r) (map (\<lambda>q. if key q = key r then r else q) t) = Some r"
    using Some unfolding tbl_lookup_def by (induction t) (auto split: if_splits)
  from Some other same show ?thesis by (auto simp: tbl_upsert_def tbl_lookup_def)
qed

lemma tbl_lookup_delete:
  "tbl_lookup key k (tbl_delete key k' t) = (if k = k' then None else tbl_lookup key k t)"
  unfolding tbl_lookup_def tbl_delete_def by (induction t) auto

lemma tbl_lookup_insert_or_ignore:
  "tbl_lookup key k (tbl_insert_or_ignore key r t) =
     (if k = key r \<and> tbl_lookup key k t = None then Some r else tbl_lookup key k t)"
  by (auto simp: tbl_insert_or_ignore_def tbl_lookup_append split: option.split)
    (simp_all add: tbl_lookup_def)

lemma distinct_keys_upsert: "distinct_keys key t \<Longrightarrow> distinct_keys key (tbl_upsert key r t)"
proof -
  assume d: "distinct_keys key t"
  have "map key (map (\<lambda>q. if key q = key r then r else q) t) = map key t" by simp
  then have "distinct_keys key (map (\<lambda>q. if key q = key r then r else q) t)" using d by (simp only:)
  with d show ?thesis by (simp add: tbl_upsert_def tbl_lookup_None del: map_map)
qed

lemma distinct_keys_insert_or_ignore:
  "distinct_keys key t \<Longrightarrow> distinct_keys key (tbl_insert_or_ignore key r t)"
  by (auto simp: tbl_insert_or_ignore_def tbl_lookup_None)

lemma distinct_keys_delete: "distinct_keys key t \<Longrightarrow> distinct_keys key (tbl_delete key k t)"
  unfolding tbl_delete_def by (rule distinct_map_filter)

lemma set_tbl_insert_or_ignore:
  "set (tbl_insert_or_ignore key r t) = (if key r \<in> key ` set t then set t else insert r (set t))"
  by (simp add: tbl_insert_or_ignore_def tbl_lookup_None)

lemma set_tbl_delete: "set (tbl_delete key k t) = {r \<in> set t. key r \<noteq> k}"
  by (auto simp: tbl_delete_def)

text \<open>
  The contract a keyed table gives its users: lookups after a write, whatever the representation.
\<close>

locale row_map =
  fixes lookup :: "'k \<Rightarrow> 't \<Rightarrow> 'r option"
    and put :: "'r \<Rightarrow> 't \<Rightarrow> 't"
    and remove :: "'k \<Rightarrow> 't \<Rightarrow> 't"
    and row_key :: "'r \<Rightarrow> 'k"
  assumes lookup_put: "lookup k (put r t) = (if k = row_key r then Some r else lookup k t)"
    and lookup_remove: "lookup k (remove k' t) = (if k = k' then None else lookup k t)"
begin

lemma lookup_put_same [simp]: "lookup (row_key r) (put r t) = Some r"
  by (simp add: lookup_put)

lemma lookup_put_other: "k \<noteq> row_key r \<Longrightarrow> lookup k (put r t) = lookup k t"
  by (simp add: lookup_put)

lemma put_put: "row_key q = row_key r \<Longrightarrow> lookup k (put r (put q t)) = lookup k (put r t)"
  by (simp add: lookup_put)

lemma remove_put: "lookup k (remove (row_key r) (put r t)) = lookup k (remove (row_key r) t)"
  by (simp add: lookup_put lookup_remove)

end

subsection \<open>Runs of a step function\<close>

fun run_steps :: "('e \<Rightarrow> 's \<Rightarrow> 's) \<Rightarrow> 'e list \<Rightarrow> 's \<Rightarrow> 's" where
  "run_steps step [] s = s"
| "run_steps step (e # es) s = run_steps step es (step e s)"

lemma run_steps_append: "run_steps step (es @ fs) s = run_steps step fs (run_steps step es s)"
  by (induction es arbitrary: s) auto

text \<open>
  A step function with an invariant that holds at the start and is kept by every step: the
  invariant holds after every run.
\<close>

locale step_system =
  fixes step :: "'e \<Rightarrow> 's \<Rightarrow> 's"
    and invar :: "'s \<Rightarrow> bool"
  assumes step_invar: "invar s \<Longrightarrow> invar (step e s)"
begin

lemma run_invar: "invar s \<Longrightarrow> invar (run_steps step es s)"
  by (induction es arbitrary: s) (auto intro: step_invar)

end

end
