(* ===== verification/Web_Text.thy ===== *)
theory Web_Text
  imports Prelude
begin

text \<open>
  Output escaping and input normalisation: \<open>src/cloudflare-control/src/escape.ts\<close>, and
  \<open>normalizeDomain\<close> of \<open>db.ts\<close>. \<open>new URL(text)\<close> is the parameter \<open>parse_url\<close> (\<open>None\<close> where the
  constructor throws): every result here holds for any URL parser.
\<close>

record url =
  protocol :: string
  username :: string
  password :: string
  hostname_of :: string
  origin_of :: string
  href :: string

type_synonym url_parser = "string \<Rightarrow> url option"

subsection \<open>escapeHtml and escapeJson\<close>

definition HTML_ENTITIES :: "char \<Rightarrow> string option" where
  "HTML_ENTITIES ch =
     (if ch = CHR ''&'' then Some ''&amp;''
      else if ch = CHR ''<'' then Some ''&lt;''
      else if ch = CHR ''>'' then Some ''&gt;''
      else if ch = CHR 0x22 then Some ''&quot;''
      else if ch = CHR 0x27 then Some ''&#39;''
      else None)"

text \<open>\<open>None\<close> is \<open>null\<close> or \<open>undefined\<close>; otherwise the value's string form.\<close>

definition escapeHtml :: "string option \<Rightarrow> string" where
  "escapeHtml value =
     (case value of None \<Rightarrow> []
      | Some s \<Rightarrow> concat (map (\<lambda>ch. case HTML_ENTITIES ch of Some e \<Rightarrow> e | None \<Rightarrow> [ch]) s))"

text \<open>
  \<open>text\<close> is what \<open>JSON.stringify\<close> gave; U+2028 and U+2029 are outside the modelled code units, so
  the last replacement of the source has nothing to do.
\<close>

definition escapeJson :: "string \<Rightarrow> string" where
  "escapeJson text =
     concat (map (\<lambda>ch. if ch = CHR ''<'' then [CHR 0x5C] @ ''u003c''
                       else if ch = CHR ''>'' then [CHR 0x5C] @ ''u003e''
                       else if ch = CHR ''&'' then [CHR 0x5C] @ ''u0026'' else [ch]) text)"

text \<open>What a browser reads back from the five character references.\<close>

fun unescape_html :: "string \<Rightarrow> string" where
  "unescape_html [] = []"
| "unescape_html (c # cs) =
     (if c \<noteq> CHR ''&'' then c # unescape_html cs
      else if take 4 cs = ''amp;'' then CHR ''&'' # unescape_html (drop 4 cs)
      else if take 3 cs = ''lt;'' then CHR ''<'' # unescape_html (drop 3 cs)
      else if take 3 cs = ''gt;'' then CHR ''>'' # unescape_html (drop 3 cs)
      else if take 5 cs = ''quot;'' then CHR 0x22 # unescape_html (drop 5 cs)
      else if take 4 cs = ''#39;'' then CHR 0x27 # unescape_html (drop 4 cs)
      else c # unescape_html cs)"

lemma unescape_escape_char:
  "unescape_html ((case HTML_ENTITIES ch of Some e \<Rightarrow> e | None \<Rightarrow> [ch]) @ rest) = ch # unescape_html rest"
  by (auto simp: HTML_ENTITIES_def numeral_eq_Suc)

lemma unescape_escapeHtml: "unescape_html (escapeHtml (Some s)) = s"
proof (induction s)
  case (Cons c s)
  then show ?case by (simp add: escapeHtml_def unescape_escape_char)
qed (simp add: escapeHtml_def)

text \<open>
  C35. Text put through \<open>escapeHtml\<close> holds no character that could open a tag or close a quoted
  attribute, and nothing is lost: decoding the five references gives the text back, so two
  different texts never render the same.
\<close>

theorem escapeHtml_safe:
  "set (escapeHtml (Some s)) \<inter> {CHR ''<'', CHR ''>'', CHR 0x22, CHR 0x27} = {}
   \<and> unescape_html (escapeHtml (Some s)) = s"
proof
  show "set (escapeHtml (Some s)) \<inter> {CHR ''<'', CHR ''>'', CHR 0x22, CHR 0x27} = {}"
    by (auto simp: escapeHtml_def HTML_ENTITIES_def split: if_splits option.splits)
qed (rule unescape_escapeHtml)

lemma escapeJson_no_markup: "set (escapeJson t) \<inter> {CHR ''<'', CHR ''>'', CHR ''&''} = {}"
  by (auto simp: escapeJson_def split: if_splits)

subsection \<open>cleanSubdomain and host names\<close>

definition is_slug_char :: "char \<Rightarrow> bool" where
  "is_slug_char c = (is_lower c \<or> is_digit c \<or> c = CHR ''-'')"

definition cleanSubdomain :: "string option \<Rightarrow> string" where
  "cleanSubdomain raw =
     filter is_slug_char (trim (toLowerCase (case raw of None \<Rightarrow> [] | Some s \<Rightarrow> s)))"

text \<open>\<open>[a-z0-9]([a-z0-9-]{0,61}[a-z0-9])?\<close>\<close>

definition is_label :: "string \<Rightarrow> bool" where
  "is_label l = (l \<noteq> [] \<and> length l \<le> 63 \<and> list_all is_slug_char l
     \<and> hd l \<noteq> CHR ''-'' \<and> last l \<noteq> CHR ''-'')"

text \<open>\<open>^(?=.{1,253}$)(?:label\.)+[a-z]{2,63}$\<close>: \<open>HOST_PATTERN\<close> and \<open>BLOCKLIST_DOMAIN_PATTERN\<close>.\<close>

definition HOST_PATTERN :: "string \<Rightarrow> bool" where
  "HOST_PATTERN s =
     (1 \<le> length s \<and> length s \<le> 253 \<and>
      (let ls = split_on CHR ''.'' s in
        2 \<le> length ls \<and> list_all is_label (butlast ls)
        \<and> list_all is_lower (last ls) \<and> 2 \<le> length (last ls) \<and> length (last ls) \<le> 63))"

text \<open>\<open>^label(\.label)+$\<close>: the pattern of \<open>cleanCustomDomain\<close>.\<close>

definition domainPattern :: "string \<Rightarrow> bool" where
  "domainPattern s = (let ls = split_on CHR ''.'' s in 2 \<le> length ls \<and> list_all is_label ls)"

definition MAX_DOMAIN_INPUT_LENGTH :: nat where
  "MAX_DOMAIN_INPUT_LENGTH = 2048"

text \<open>\<open>replace(/^https?:\/\//, "")\<close>\<close>

definition strip_http_scheme :: "string \<Rightarrow> string" where
  "strip_http_scheme s =
     (if startsWith s ''https://'' then drop 8 s else if startsWith s ''http://'' then drop 7 s else s)"

text \<open>\<open>replace(/:\d+$/, "")\<close>: a colon and a non-empty run of digits at the end.\<close>

definition strip_port :: "string \<Rightarrow> string" where
  "strip_port s =
     (let ds = takeWhile is_digit (rev s); rest = dropWhile is_digit (rev s)
      in if ds \<noteq> [] \<and> rest \<noteq> [] \<and> hd rest = CHR '':'' then rev (tl rest) else s)"

definition cleanCustomDomain :: "string option \<Rightarrow> string option" where
  "cleanCustomDomain raw =
     (let input = toLowerCase (trim (case raw of None \<Rightarrow> [] | Some s \<Rightarrow> s)) in
      if length input > MAX_DOMAIN_INPUT_LENGTH then None
      else let withoutScheme = strip_http_scheme input;
               str = strip_port (takeWhile (\<lambda>c. c \<noteq> CHR ''/'') withoutScheme)
           in if str = [] \<or> length str > 253 then None
              else if \<not> domainPattern str then None
              else Some str)"

subsection \<open>safeHttpUrl\<close>

definition is_letter :: "char \<Rightarrow> bool" where
  "is_letter c = (is_lower c \<or> is_upper c)"

definition before_colon :: "string \<Rightarrow> string" where
  "before_colon s = takeWhile (\<lambda>c. c \<noteq> CHR '':'') s"

definition after_colon :: "string \<Rightarrow> string" where
  "after_colon s = tl (dropWhile (\<lambda>c. c \<noteq> CHR '':'') s)"

text \<open>\<open>/^[a-zA-Z0-9.-]+:\d{1,5}(\/|\?|#|$)/\<close>\<close>

definition looksLikeHostPort :: "string \<Rightarrow> bool" where
  "looksLikeHostPort s =
     (CHR '':'' \<in> set s \<and> before_colon s \<noteq> []
      \<and> list_all (\<lambda>c. is_letter c \<or> is_digit c \<or> c = CHR ''.'' \<or> c = CHR ''-'') (before_colon s)
      \<and> (let ds = takeWhile is_digit (after_colon s); rest = dropWhile is_digit (after_colon s)
         in 1 \<le> length ds \<and> length ds \<le> 5
            \<and> (rest = [] \<or> hd rest \<in> {CHR ''/'', CHR ''?'', CHR ''#''})))"

text \<open>\<open>/^[a-zA-Z][a-zA-Z0-9+.-]*:/\<close>\<close>

definition hasSchemePrefix :: "string \<Rightarrow> bool" where
  "hasSchemePrefix s =
     (CHR '':'' \<in> set s \<and> before_colon s \<noteq> [] \<and> is_letter (hd (before_colon s))
      \<and> list_all (\<lambda>c. is_letter c \<or> is_digit c \<or> c \<in> {CHR ''+'', CHR ''.'', CHR ''-''}) (before_colon s))"

definition safeHttpUrl :: "url_parser \<Rightarrow> string option \<Rightarrow> string option" where
  "safeHttpUrl parse_url raw =
     (let candidate = trim (case raw of None \<Rightarrow> [] | Some s \<Rightarrow> s) in
      if candidate = [] then None
      else let hasScheme = (\<not> looksLikeHostPort candidate \<and> hasSchemePrefix candidate);
               toParse = (if hasScheme then candidate else ''https://'' @ candidate)
           in case parse_url toParse of
                None \<Rightarrow> None
              | Some parsed \<Rightarrow>
                  if protocol parsed \<noteq> ''http:'' \<and> protocol parsed \<noteq> ''https:'' then None
                  else if hostname_of parsed = [] then None
                  else Some (href parsed))"

lemma safeHttpUrl_Some:
  "safeHttpUrl parse_url raw = Some u \<Longrightarrow>
   \<exists>t p. parse_url t = Some p \<and> protocol p \<in> {''http:'', ''https:''} \<and> hostname_of p \<noteq> [] \<and> u = href p"
  by (auto simp: safeHttpUrl_def Let_def split: option.splits if_splits)

subsection \<open>normalizeDomain (db.ts)\<close>

text \<open>\<open>replace(/^[a-z][a-z0-9+.-]*:\/\//, "")\<close>\<close>

definition strip_scheme :: "string \<Rightarrow> string" where
  "strip_scheme s =
     (let b = before_colon s in
      if CHR '':'' \<in> set s \<and> b \<noteq> [] \<and> is_lower (hd b)
         \<and> list_all (\<lambda>c. is_lower c \<or> is_digit c \<or> c \<in> {CHR ''+'', CHR ''.'', CHR ''-''}) b
         \<and> startsWith (after_colon s) ''//''
      then drop 2 (after_colon s) else s)"

text \<open>\<open>replace(/^[^@/]*@/, "")\<close>\<close>

definition strip_credentials :: "string \<Rightarrow> string" where
  "strip_credentials s =
     (let rest = dropWhile (\<lambda>c. c \<noteq> CHR ''@'' \<and> c \<noteq> CHR ''/'') s
      in if rest \<noteq> [] \<and> hd rest = CHR ''@'' then tl rest else s)"

definition is_domain_char :: "char \<Rightarrow> bool" where
  "is_domain_char c = (is_lower c \<or> is_digit c \<or> c = CHR ''.'' \<or> c = CHR ''-'')"

definition normalizeDomain :: "string \<Rightarrow> string" where
  "normalizeDomain raw =
     (let s = strip_credentials (strip_scheme (trim (toLowerCase raw)));
          s = takeWhile (\<lambda>c. c \<noteq> CHR ''/'') s;
          s = takeWhile (\<lambda>c. c \<noteq> CHR '':'') s
      in filter is_domain_char s)"

subsection \<open>Facts about the normalised forms\<close>

lemma lower_char_id: "\<not> is_upper c \<Longrightarrow> code c < 192 \<Longrightarrow> lower_char c = c"
  by (auto simp: lower_char_def is_upper_def)

lemma slug_char_lower: "is_slug_char c \<Longrightarrow> lower_char c = c"
  by (rule lower_char_id) (auto simp: is_slug_char_def is_lower_def is_digit_def is_upper_def)

lemma domain_char_lower: "is_domain_char c \<Longrightarrow> lower_char c = c"
  by (rule lower_char_id) (auto simp: is_domain_char_def is_lower_def is_digit_def is_upper_def)

lemma slug_char_not_space: "is_slug_char c \<Longrightarrow> \<not> is_space c"
  by (auto simp: is_slug_char_def is_lower_def is_digit_def is_space_def)

lemma domain_char_not_space: "is_domain_char c \<Longrightarrow> \<not> is_space c"
  by (auto simp: is_domain_char_def is_lower_def is_digit_def is_space_def)

lemma dropWhile_none: "list_all (\<lambda>c. \<not> P c) xs \<Longrightarrow> dropWhile P xs = xs"
  by (cases xs) auto

lemma trim_id: "list_all (\<lambda>c. \<not> is_space c) s \<Longrightarrow> trim s = s"
  by (simp add: trim_def dropWhile_none list_all_iff)

lemma toLowerCase_id: "list_all (\<lambda>c. lower_char c = c) s \<Longrightarrow> toLowerCase s = s"
  by (simp add: toLowerCase_def list_all_iff map_idI)

lemma cleanSubdomain_chars: "list_all is_slug_char (cleanSubdomain raw)"
  by (simp add: cleanSubdomain_def list_all_iff)

lemma slug_fixed: "list_all is_slug_char s \<Longrightarrow> cleanSubdomain (Some s) = s"
  by (simp add: cleanSubdomain_def toLowerCase_id trim_id slug_char_lower slug_char_not_space
      list_all_iff filter_id_conv)

lemma normalizeDomain_chars: "list_all is_domain_char (normalizeDomain raw)"
  by (simp add: normalizeDomain_def Let_def list_all_iff)

lemma takeWhile_all: "list_all P xs \<Longrightarrow> takeWhile P xs = xs"
  by (simp add: list_all_iff)

lemma normalizeDomain_fixed:
  assumes "list_all is_domain_char s"
  shows "normalizeDomain s = s"
proof -
  have c: "c \<noteq> CHR '':'' \<and> c \<noteq> CHR ''@'' \<and> c \<noteq> CHR ''/''" if "c \<in> set s" for c
    using assms that by (auto simp: list_all_iff is_domain_char_def is_lower_def is_digit_def)
  have lower: "toLowerCase s = s" and trimmed: "trim s = s"
    using assms by (auto intro!: toLowerCase_id trim_id simp: list_all_iff domain_char_lower domain_char_not_space)
  have scheme: "strip_scheme s = s" using c by (auto simp: strip_scheme_def Let_def)
  have "dropWhile (\<lambda>c. c \<noteq> CHR ''@'' \<and> c \<noteq> CHR ''/'') s = []" using c by (auto simp: dropWhile_eq_Nil_conv)
  then have "strip_credentials s = s" by (simp add: strip_credentials_def Let_def)
  moreover have slash: "takeWhile (\<lambda>c. c \<noteq> CHR ''/'') s = s" and colon: "takeWhile (\<lambda>c. c \<noteq> CHR '':'') s = s"
    using c by (auto intro!: takeWhile_all simp: list_all_iff)
  moreover have "filter is_domain_char s = s"
    using assms by (simp add: filter_id_conv list_all_iff)
  ultimately show ?thesis
    by (simp only: normalizeDomain_def Let_def lower trimmed scheme)
qed

text \<open>
  The two normal forms are fixed points of their normaliser: a slug or a domain that was
  cleaned once is unchanged by cleaning it again, and holds only the characters the form allows.
\<close>

theorem normal_forms_idempotent:
  "cleanSubdomain (Some (cleanSubdomain raw)) = cleanSubdomain raw
   \<and> list_all is_slug_char (cleanSubdomain raw)
   \<and> normalizeDomain (normalizeDomain d) = normalizeDomain d
   \<and> list_all is_domain_char (normalizeDomain d)"
  using cleanSubdomain_chars normalizeDomain_chars by (simp add: slug_fixed normalizeDomain_fixed)

text \<open>
  \<open>normalizeDomain\<close> cuts a path and a port but not a query or a fragment: their characters are
  glued to the host, so an allowlist entry typed with a query names another site.
\<close>

theorem normalizeDomain_keeps_query:
  "normalizeDomain ''https://example.com/?q=1'' = ''example.com''
   \<and> normalizeDomain ''https://example.com?q=1'' = ''example.comq1''
   \<and> normalizeDomain ''example.com#faq'' = ''example.comfaq''"
  by code_simp

lemma domainPattern_chars: "domainPattern s \<Longrightarrow> list_all is_label (split_on CHR ''.'' s)"
  by (simp add: domainPattern_def Let_def)

text \<open>
  A custom domain that is accepted is at most 253 characters and made of at least two labels
  of 1 to 63 letters, digits and hyphens that neither start nor end with a hyphen: no scheme,
  port, path, credentials or wildcard survives.
\<close>

theorem cleanCustomDomain_valid:
  assumes "cleanCustomDomain raw = Some d"
  shows "length d \<le> 253 \<and> 2 \<le> length (split_on CHR ''.'' d)
    \<and> list_all is_label (split_on CHR ''.'' d) \<and> join ''.'' (split_on CHR ''.'' d) = d"
  using assms
  by (auto simp: cleanCustomDomain_def domainPattern_def Let_def join_split_on split: if_splits)

theorem cleanCustomDomain_valid_witness:
  "cleanCustomDomain (Some ''https://Kiosk.Example.com:8080/x'') = Some ''kiosk.example.com''
   \<and> length ''kiosk.example.com'' \<le> 253"
proof -
  have h: "cleanCustomDomain (Some ''https://Kiosk.Example.com:8080/x'') = Some ''kiosk.example.com''"
    by code_simp
  from h cleanCustomDomain_valid [OF h] show ?thesis by simp
qed

end
