(* ===== verification/Auth.thy ===== *)
theory Auth
  imports Web_Text
begin

text \<open>
  Credentials: \<open>src/cloudflare-control/src/auth.ts\<close>. Bytes are \<open>8 word\<close>. The Web Crypto digests are
  parameters: \<open>pbkdf2 password salt\<close> and \<open>hmac key message\<close> give bytes; random bytes are an argument
  of the operation that draws them.
\<close>

unbundle bit_operations_syntax

type_synonym byte = "8 word"

subsection \<open>Hexadecimal\<close>

definition hex_digit :: "nat \<Rightarrow> char" where
  "hex_digit d = (if d < 10 then char_of (48 + d) else char_of (87 + d))"

definition hex_value :: "char \<Rightarrow> nat option" where
  "hex_value c =
     (if is_digit c then Some (code c - 48)
      else if 97 \<le> code c \<and> code c \<le> 102 then Some (code c - 87)
      else if 65 \<le> code c \<and> code c \<le> 70 then Some (code c - 55)
      else None)"

text \<open>\<open>b.toString(16).padStart(2, "0")\<close> for a byte, then the bytes joined.\<close>

definition byte_hex :: "byte \<Rightarrow> string" where
  "byte_hex b = [hex_digit (unat b div 16), hex_digit (unat b mod 16)]"

definition bufferToHex :: "byte list \<Rightarrow> string" where
  "bufferToHex bytes = concat (map byte_hex bytes)"

text \<open>
  \<open>parseInt\<close> of two characters in base 16, stored in a \<open>Uint8Array\<close>: a digit prefix counts, a sign
  or a leading white space is taken, and \<open>NaN\<close> is stored as 0.
\<close>

definition hex_digit_byte :: "char \<Rightarrow> byte" where
  "hex_digit_byte c = (case hex_value c of None \<Rightarrow> 0 | Some v \<Rightarrow> of_nat v)"

definition parse_hex_pair :: "char \<Rightarrow> char \<Rightarrow> byte" where
  "parse_hex_pair a b =
     (case hex_value a of
        Some va \<Rightarrow> (case hex_value b of Some vb \<Rightarrow> of_nat (16 * va + vb) | None \<Rightarrow> of_nat va)
      | None \<Rightarrow> if is_space a \<or> a = CHR ''+'' then hex_digit_byte b
                else if a = CHR ''-'' then - hex_digit_byte b else 0)"

fun hexToBuffer :: "string \<Rightarrow> byte list" where
  "hexToBuffer (a # b # rest) = parse_hex_pair a b # hexToBuffer rest"
| "hexToBuffer _ = []"

lemma hex_value_digit: "d < 16 \<Longrightarrow> hex_value (hex_digit d) = Some d"
  by (auto simp: hex_value_def hex_digit_def is_digit_def)

lemma hex_digit_value: "is_lower_hex c \<Longrightarrow> \<exists>d < 16. hex_value c = Some d \<and> hex_digit d = c"
  by (auto simp: is_lower_hex_def is_digit_def hex_value_def hex_digit_def)

lemma unat_byte_less: "unat (b :: byte) < 256"
  using unsigned_less [of b, where 'a = nat] by simp

lemma parse_byte_hex: "parse_hex_pair (hex_digit (unat b div 16)) (hex_digit (unat b mod 16)) = b"
  using unat_byte_less [of b] by (simp add: parse_hex_pair_def hex_value_digit)

lemma hexToBuffer_bufferToHex: "hexToBuffer (bufferToHex bs) = bs"
  by (induction bs) (simp_all add: bufferToHex_def byte_hex_def parse_byte_hex)

lemma byte_hex_parse:
  assumes "is_lower_hex a" and "is_lower_hex b"
  shows "byte_hex (parse_hex_pair a b) = [a, b]"
proof -
  obtain va vb where v: "va < 16" "hex_value a = Some va" "hex_digit va = a"
      "vb < 16" "hex_value b = Some vb" "hex_digit vb = b"
    using hex_digit_value [OF assms(1)] hex_digit_value [OF assms(2)] by blast
  then have "unat (of_nat (16 * va + vb) :: byte) = 16 * va + vb"
    by (simp add: unat_of_nat del: of_nat_add of_nat_mult)
  with v show ?thesis by (simp add: parse_hex_pair_def byte_hex_def del: of_nat_add of_nat_mult)
qed

lemma bufferToHex_hexToBuffer:
  "even (length s) \<Longrightarrow> list_all is_lower_hex s \<Longrightarrow> bufferToHex (hexToBuffer s) = s"
  by (induction s rule: hexToBuffer.induct) (auto simp: bufferToHex_def byte_hex_parse)

lemma bufferToHex_inject [simp]: "bufferToHex xs = bufferToHex ys \<longleftrightarrow> xs = ys"
  by (metis hexToBuffer_bufferToHex)

lemma is_lower_hex_digit: "d < 16 \<Longrightarrow> is_lower_hex (hex_digit d)"
  by (auto simp: is_lower_hex_def is_digit_def hex_digit_def)

lemma lower_hex_bufferToHex: "list_all is_lower_hex (bufferToHex bs)"
proof -
  have "unat b div 16 < 16" for b :: byte using unat_byte_less [of b] by linarith
  then show ?thesis by (induction bs) (simp_all add: bufferToHex_def byte_hex_def is_lower_hex_digit)
qed

lemma length_bufferToHex: "length (bufferToHex bs) = 2 * length bs"
  by (induction bs) (simp_all add: bufferToHex_def byte_hex_def)

text \<open>
  Hexadecimal is a faithful encoding in both directions: decoding what was encoded gives the
  bytes, and encoding what was decoded gives an even-length lower-case hexadecimal text back.
\<close>

theorem hex_roundtrip:
  assumes "even (length s)" and "list_all is_lower_hex s"
  shows "hexToBuffer (bufferToHex bs) = bs \<and> bufferToHex (hexToBuffer s) = s"
  using assms by (simp add: hexToBuffer_bufferToHex bufferToHex_hexToBuffer)

theorem hex_roundtrip_witness:
  "hexToBuffer (bufferToHex [255, 0]) = [255, 0] \<and> bufferToHex (hexToBuffer ''0fa9'') = ''0fa9''"
  by (rule hex_roundtrip) code_simp+

subsection \<open>Password hashes\<close>

definition PEPPERED_HASH_PREFIX :: string where
  "PEPPERED_HASH_PREFIX = ''p1$''"

definition MIN_PEPPER_LENGTH :: nat where
  "MIN_PEPPER_LENGTH = 32"

definition LOCAL_DEVELOPMENT_PEPPER :: string where
  "LOCAL_DEVELOPMENT_PEPPER = ''labkiosk-local-development-pepper-not-for-production''"

text \<open>\<open>None\<close> is the thrown error of a deployment without its secret.\<close>

definition passwordPepper :: "string option \<Rightarrow> string option \<Rightarrow> string option" where
  "passwordPepper PASSWORD_PEPPER ALLOW_LOCAL_DB =
     (let pepper = (case PASSWORD_PEPPER of None \<Rightarrow> [] | Some p \<Rightarrow> p) in
      if length pepper \<ge> MIN_PEPPER_LENGTH then Some pepper
      else if pepper = [] \<and> ALLOW_LOCAL_DB = Some ''1'' then Some LOCAL_DEVELOPMENT_PEPPER
      else None)"

text \<open>The loop of \<open>timingSafeEqual\<close>: every pair is looked at, whatever came before.\<close>

fun diff_loop :: "nat \<Rightarrow> string \<Rightarrow> string \<Rightarrow> nat" where
  "diff_loop diff (a # as) (b # bs) = diff_loop (diff OR (code a XOR code b)) as bs"
| "diff_loop diff _ _ = diff"

definition timingSafeEqual :: "string \<Rightarrow> string \<Rightarrow> bool" where
  "timingSafeEqual a b = (if length a \<noteq> length b then False else diff_loop 0 a b = 0)"

type_synonym hmac_fun = "string \<Rightarrow> byte list \<Rightarrow> byte list"
type_synonym pbkdf2_fun = "string \<Rightarrow> byte list \<Rightarrow> byte list"

definition pepperBytes :: "hmac_fun \<Rightarrow> string \<Rightarrow> byte list \<Rightarrow> string" where
  "pepperBytes hmac pepper bytes = PEPPERED_HASH_PREFIX @ bufferToHex (hmac pepper bytes)"

text \<open>\<open>fresh\<close> is the random salt drawn when none is given (an empty one counts as none).\<close>

definition hashPassword ::
  "pbkdf2_fun \<Rightarrow> hmac_fun \<Rightarrow> string \<Rightarrow> string \<Rightarrow> string option \<Rightarrow> byte list \<Rightarrow> string \<times> string" where
  "hashPassword pbkdf2 hmac pw pepper saltHex fresh =
     (let salt = (case saltHex of Some h \<Rightarrow> if h = [] then fresh else hexToBuffer h | None \<Rightarrow> fresh)
      in (pepperBytes hmac pepper (pbkdf2 pw salt), bufferToHex salt))"

definition verifyPassword ::
  "pbkdf2_fun \<Rightarrow> hmac_fun \<Rightarrow> string \<Rightarrow> string \<Rightarrow> string \<Rightarrow> string \<Rightarrow> bool" where
  "verifyPassword pbkdf2 hmac pw storedHashHex storedSaltHex pepper =
     (let derived = pbkdf2 pw (hexToBuffer storedSaltHex) in
      if startsWith storedHashHex PEPPERED_HASH_PREFIX
      then timingSafeEqual (pepperBytes hmac pepper derived) storedHashHex
      else timingSafeEqual (bufferToHex derived) storedHashHex)"

definition pepperLegacyHash :: "hmac_fun \<Rightarrow> string \<Rightarrow> string \<Rightarrow> string option" where
  "pepperLegacyHash hmac storedHashHex pepper =
     (if startsWith storedHashHex PEPPERED_HASH_PREFIX
         \<or> \<not> (length storedHashHex = 64 \<and> list_all is_lower_hex storedHashHex)
      then None else Some (pepperBytes hmac pepper (hexToBuffer storedHashHex)))"

lemma or_eq_0_nat: "(a OR b = 0) \<longleftrightarrow> a = 0 \<and> b = (0 :: nat)"
  by (auto simp: bit_eq_iff bit_simps)

lemma xor_eq_0_nat: "(a XOR b = 0) \<longleftrightarrow> a = (b :: nat)"
  by (auto simp: bit_eq_iff bit_simps)

lemma diff_loop_eq_0:
  "length a = length b \<Longrightarrow> diff_loop d a b = 0 \<longleftrightarrow> d = 0 \<and> a = b"
  by (induction d a b rule: diff_loop.induct) (auto simp: or_eq_0_nat xor_eq_0_nat)

text \<open>
  The constant-time comparison decides equality of strings.
\<close>

theorem timingSafeEqual_iff: "timingSafeEqual a b \<longleftrightarrow> a = b"
  by (auto simp: timingSafeEqual_def diff_loop_eq_0)

lemma timing_eq: "timingSafeEqual a b = (a = b)"
  by (auto simp: timingSafeEqual_def diff_loop_eq_0)

lemma prefix_not_hex: "list_all is_lower_hex h \<Longrightarrow> \<not> startsWith h PEPPERED_HASH_PREFIX"
  by (auto simp: startsWith_iff PEPPERED_HASH_PREFIX_def is_lower_hex_def is_digit_def)

lemma peppered_startsWith: "startsWith (pepperBytes hmac pepper bs) PEPPERED_HASH_PREFIX"
  by (auto simp: startsWith_iff pepperBytes_def)

lemma pepperBytes_inject [simp]: "pepperBytes hmac p xs = pepperBytes hmac p ys \<longleftrightarrow> hmac p xs = hmac p ys"
  by (simp add: pepperBytes_def)

text \<open>
  A fresh hash verifies, and wrapping an old bare hash in the pepper keeps who it lets in: the
  password it verified before still verifies, and any password the wrapped hash accepts has a
  derived key with the same HMAC as the stored one, so with an HMAC that does not collide on that
  hash no other password becomes acceptable.
\<close>

theorem password_hash_and_wrap:
  assumes "pepperLegacyHash hmac h pepper = Some h'"
  shows "verifyPassword pbkdf2 hmac pw (fst (hashPassword pbkdf2 hmac pw pepper None fresh))
           (snd (hashPassword pbkdf2 hmac pw pepper None fresh)) pepper
    \<and> (verifyPassword pbkdf2 hmac pw h salt pepper \<longrightarrow> verifyPassword pbkdf2 hmac pw h' salt pepper)
    \<and> (verifyPassword pbkdf2 hmac pw h' salt pepper
         \<longleftrightarrow> hmac pepper (pbkdf2 pw (hexToBuffer salt)) = hmac pepper (hexToBuffer h))"
proof -
  from assms have bare: "length h = 64" "list_all is_lower_hex h"
    and h': "h' = pepperBytes hmac pepper (hexToBuffer h)"
    by (auto simp: pepperLegacyHash_def split: if_splits)
  have old: "verifyPassword pbkdf2 hmac pw h salt pepper \<longleftrightarrow> bufferToHex (pbkdf2 pw (hexToBuffer salt)) = h"
    by (simp add: verifyPassword_def Let_def timing_eq prefix_not_hex [OF bare(2)])
  have new: "verifyPassword pbkdf2 hmac pw h' salt pepper
      \<longleftrightarrow> hmac pepper (pbkdf2 pw (hexToBuffer salt)) = hmac pepper (hexToBuffer h)"
    by (simp add: verifyPassword_def Let_def timing_eq h' peppered_startsWith)
  have fresh: "verifyPassword pbkdf2 hmac pw (fst (hashPassword pbkdf2 hmac pw pepper None fresh))
           (snd (hashPassword pbkdf2 hmac pw pepper None fresh)) pepper"
    by (simp add: verifyPassword_def hashPassword_def Let_def timing_eq peppered_startsWith
        hexToBuffer_bufferToHex)
  from old new have "verifyPassword pbkdf2 hmac pw h salt pepper \<longrightarrow> verifyPassword pbkdf2 hmac pw h' salt pepper"
    by (metis hexToBuffer_bufferToHex)
  with fresh new show ?thesis by blast
qed

theorem password_hash_and_wrap_witness:
  "pepperLegacyHash (\<lambda>_ bs. rev bs) (bufferToHex (replicate 32 170)) ''k'' = Some (''p1$'' @ bufferToHex (replicate 32 170))
   \<and> verifyPassword (\<lambda>_ _. replicate 32 170) (\<lambda>_ bs. rev bs) ''pw'' (''p1$'' @ bufferToHex (replicate 32 170)) [] ''k''"
proof -
  have h: "pepperLegacyHash (\<lambda>_ bs. rev bs) (bufferToHex (replicate 32 170)) ''k''
      = Some (''p1$'' @ bufferToHex (replicate 32 170))"
    by (simp add: pepperLegacyHash_def prefix_not_hex lower_hex_bufferToHex length_bufferToHex hexToBuffer_bufferToHex)
      (simp add: pepperBytes_def PEPPERED_HASH_PREFIX_def)
  from h password_hash_and_wrap [OF h, of "\<lambda>_ _. replicate 32 170" "''pw''" "[]" "[]"] show ?thesis
    by (simp add: hexToBuffer_bufferToHex)
qed

end
