(* ===== verification/Enrollment_Key.thy ===== *)
theory Enrollment_Key
  imports Auth
begin

text \<open>
  The key an operator types at a workstation: \<open>enrollmentKeyCheckCharacter\<close>, \<open>isEnrollmentKey\<close> and
  \<open>generateEnrollmentKey\<close> of \<open>src/cloudflare-control/src/auth.ts\<close>, the password and e-mail checks of
  the same file, and what the check character catches.
\<close>

definition ENROLLMENT_KEY_ALPHABET :: string where
  "ENROLLMENT_KEY_ALPHABET = ''ABCDEFGHJKMNPQRSTVWXYZ23456789''"

definition ENROLLMENT_KEY_LENGTH :: nat where
  "ENROLLMENT_KEY_LENGTH = 20"

text \<open>The loop over the payload from its last character; \<open>None\<close> is the thrown error.\<close>

fun check_loop :: "nat \<Rightarrow> nat \<Rightarrow> nat \<Rightarrow> string \<Rightarrow> nat option" where
  "check_loop n factor acc [] = Some acc"
| "check_loop n factor acc (c # cs) =
     (case index_of c ENROLLMENT_KEY_ALPHABET of
        None \<Rightarrow> None
      | Some v \<Rightarrow>
          let addend = factor * v
          in check_loop n (if factor = 2 then 1 else 2) (acc + (addend div n + addend mod n)) cs)"

definition enrollmentKeyCheckCharacter :: "string \<Rightarrow> char option" where
  "enrollmentKeyCheckCharacter payload =
     (let n = length ENROLLMENT_KEY_ALPHABET in
      case check_loop n 2 0 (rev payload) of
        None \<Rightarrow> None
      | Some acc \<Rightarrow> Some (ENROLLMENT_KEY_ALPHABET ! ((n - acc mod n) mod n)))"

definition isEnrollmentKey :: "string \<Rightarrow> bool" where
  "isEnrollmentKey key =
     (let chars = split_on CHR ''-'' key in
      if length chars \<noteq> 4 \<or> list_ex (\<lambda>group. length group \<noteq> 5) chars then False
      else let flat = concat chars in
           if list_ex (\<lambda>ch. ch \<notin> set ENROLLMENT_KEY_ALPHABET) flat then False
           else enrollmentKeyCheckCharacter (butlast flat) = Some (last flat))"

text \<open>\<open>bytes\<close> are the random bytes drawn, one per payload character.\<close>

definition key_payload :: "byte list \<Rightarrow> string" where
  "key_payload bytes =
     map (\<lambda>b. ENROLLMENT_KEY_ALPHABET ! (unat b mod length ENROLLMENT_KEY_ALPHABET)) bytes"

definition generateEnrollmentKey :: "byte list \<Rightarrow> string option" where
  "generateEnrollmentKey bytes =
     (case enrollmentKeyCheckCharacter (key_payload bytes) of
        None \<Rightarrow> None
      | Some check \<Rightarrow>
          let chars = key_payload bytes @ [check]
          in Some (join ''-'' (map (\<lambda>i. slice i (i + 5) chars) [0, 5, 10, 15])))"

definition validatePasswordStrength :: "string \<Rightarrow> string option" where
  "validatePasswordStrength pw =
     (if length pw < 12 then Some ''Password must be at least 12 characters long''
      else if length pw > 200 then Some ''Password must be 200 characters or fewer''
      else if \<not> list_ex is_letter pw \<or> \<not> list_ex is_digit pw
      then Some ''Password must contain both letters and numbers''
      else None)"

text \<open>\<open>/^[^\s@]+@[^\s@]+\.[^\s@]{2,}$/\<close>: the part after the last dot of the host has two characters or more.\<close>

definition isPlausibleEmail :: "string option \<Rightarrow> bool" where
  "isPlausibleEmail value =
     (let email = trim (case value of None \<Rightarrow> [] | Some s \<Rightarrow> s) in
      length email \<le> 254 \<and> list_all (\<lambda>c. \<not> is_space c) email \<and>
      (case split_on CHR ''@'' email of
         [user, host] \<Rightarrow>
           user \<noteq> [] \<and>
           list_ex (\<lambda>i. 1 \<le> i \<and> host ! i = CHR ''.'' \<and> 2 \<le> length host - Suc i) [0..<length host]
       | _ \<Rightarrow> False))"

subsection \<open>The check as a weighted acc\<close>

lemma alphabet_length [simp]: "length ENROLLMENT_KEY_ALPHABET = 30"
  by (simp add: ENROLLMENT_KEY_ALPHABET_def)

lemma alphabet_distinct: "distinct ENROLLMENT_KEY_ALPHABET"
  by code_simp

definition letter_value :: "char \<Rightarrow> nat" where
  "letter_value c = the (index_of c ENROLLMENT_KEY_ALPHABET)"

lemma letter_value_nth: "i < 30 \<Longrightarrow> letter_value (ENROLLMENT_KEY_ALPHABET ! i) = i"
  by (simp add: letter_value_def index_of_nth alphabet_distinct)

lemma letter_valueE:
  assumes "c \<in> set ENROLLMENT_KEY_ALPHABET"
  shows "index_of c ENROLLMENT_KEY_ALPHABET = Some (letter_value c)"
    and "letter_value c < 30" and "ENROLLMENT_KEY_ALPHABET ! letter_value c = c"
proof -
  from assms obtain v where v: "index_of c ENROLLMENT_KEY_ALPHABET = Some v"
    by (metis index_of_None option.exhaust)
  then show "index_of c ENROLLMENT_KEY_ALPHABET = Some (letter_value c)" by (simp add: letter_value_def)
  with index_of_Some show "letter_value c < 30" "ENROLLMENT_KEY_ALPHABET ! letter_value c = c" by fastforce+
qed

lemma letter_value_inject:
  "a \<in> set ENROLLMENT_KEY_ALPHABET \<Longrightarrow> b \<in> set ENROLLMENT_KEY_ALPHABET \<Longrightarrow>
   letter_value a = letter_value b \<longleftrightarrow> a = b"
  by (metis letter_valueE(3))

text \<open>The contribution of a character at an odd (\<open>True\<close>) or even place, and the acc of a reversed text.\<close>

definition weight :: "bool \<Rightarrow> nat \<Rightarrow> nat" where
  "weight double v = (if double then (2 * v) div 30 + (2 * v) mod 30 else v)"

fun luhn :: "bool \<Rightarrow> nat list \<Rightarrow> nat" where
  "luhn d [] = 0"
| "luhn d (v # vs) = weight d v + luhn (\<not> d) vs"

lemma check_loop_luhn:
  assumes "set cs \<subseteq> set ENROLLMENT_KEY_ALPHABET"
  shows "check_loop 30 (if d then 2 else 1) acc cs = Some (acc + luhn d (map letter_value cs))"
  using assms
proof (induction cs arbitrary: d acc)
  case (Cons c cs)
  then have v: "index_of c ENROLLMENT_KEY_ALPHABET = Some (letter_value c)" "letter_value c < 30"
    by (auto intro: letter_valueE)
  have next_factor: "(if (if d then 2 else 1) = (2::nat) then 1 else 2) = (if \<not> d then 2 else (1::nat))" by simp
  show ?case
    using Cons.IH [of "\<not> d"] Cons.prems v by (cases d) (simp_all add: weight_def Let_def add.assoc)
qed simp

lemma check_character_luhn:
  assumes "set payload \<subseteq> set ENROLLMENT_KEY_ALPHABET"
  shows "enrollmentKeyCheckCharacter payload
    = Some (ENROLLMENT_KEY_ALPHABET ! ((30 - luhn True (map letter_value (rev payload)) mod 30) mod 30))"
  using check_loop_luhn [of "rev payload" True 0] assms
  by (simp add: enrollmentKeyCheckCharacter_def Let_def)

lemma mod_complement: "(v :: nat) < 30 \<Longrightarrow> v = (30 - s mod 30) mod 30 \<longleftrightarrow> (v + s) mod 30 = 0"
proof -
  assume v: "v < 30"
  define r where "r = s mod 30"
  have r: "r < 30" by (simp add: r_def)
  have "(v + s) mod 30 = (v + r) mod 30" by (simp add: r_def mod_add_right_eq)
  also have "\<dots> = (if v + r < 30 then v + r else v + r - 30)"
    using v r by (simp add: mod_if)
  finally have "(v + s) mod 30 = 0 \<longleftrightarrow> v + r = 0 \<or> v + r = 30" using v r by auto
  moreover have "(30 - r) mod 30 = (if r = 0 then 0 else 30 - r)" using r by simp
  ultimately show ?thesis using v r unfolding r_def [symmetric] by auto
qed

lemma check_character_iff:
  assumes "set payload \<subseteq> set ENROLLMENT_KEY_ALPHABET" and c: "c \<in> set ENROLLMENT_KEY_ALPHABET"
  shows "enrollmentKeyCheckCharacter payload = Some c
    \<longleftrightarrow> luhn False (map letter_value (rev (payload @ [c]))) mod 30 = 0"
proof -
  let ?s = "luhn True (map letter_value (rev payload))"
  have "enrollmentKeyCheckCharacter payload = Some c \<longleftrightarrow> letter_value c = (30 - ?s mod 30) mod 30"
    using letter_valueE [OF c] letter_value_nth by (auto simp: check_character_luhn assms(1))
  also have "\<dots> \<longleftrightarrow> (letter_value c + ?s) mod 30 = 0"
    using letter_valueE(2) [OF c] by (rule mod_complement)
  finally show ?thesis by (simp add: weight_def)
qed

subsection \<open>The shape of a key\<close>

definition key_chars :: "string \<Rightarrow> bool" where
  "key_chars flat = (set flat \<subseteq> set ENROLLMENT_KEY_ALPHABET
     \<and> luhn False (map letter_value (rev flat)) mod 30 = 0)"

lemma hyphen_not_in_alphabet: "CHR ''-'' \<notin> set ENROLLMENT_KEY_ALPHABET"
  by code_simp

lemma isEnrollmentKey_iff:
  "isEnrollmentKey k \<longleftrightarrow>
   (\<exists>g1 g2 g3 g4. split_on CHR ''-'' k = [g1, g2, g3, g4] \<and> length g1 = 5 \<and> length g2 = 5
      \<and> length g3 = 5 \<and> length g4 = 5 \<and> key_chars (g1 @ g2 @ g3 @ g4))"
proof -
  have flat: "(enrollmentKeyCheckCharacter (butlast f) = Some (last f)) = key_chars f"
    if "f \<noteq> []" "set f \<subseteq> set ENROLLMENT_KEY_ALPHABET" for f
  proof -
    have "last f \<in> set ENROLLMENT_KEY_ALPHABET" "set (butlast f) \<subseteq> set ENROLLMENT_KEY_ALPHABET"
      using that by (auto dest: in_set_butlastD)
    with check_character_iff [of "butlast f" "last f"] that show ?thesis by (simp add: key_chars_def)
  qed
  have four: "length xs = 4 \<longleftrightarrow> (\<exists>a b c d. xs = [a, b, c, d])" for xs :: "string list"
    by (auto simp: numeral_eq_Suc length_Suc_conv)
  show ?thesis
  proof
    assume k: "isEnrollmentKey k"
    then have "length (split_on CHR ''-'' k) = 4" by (auto simp: isEnrollmentKey_def Let_def split: if_splits)
    then obtain a b c d where s: "split_on CHR ''-'' k = [a, b, c, d]" using four by blast
    with k have l: "length a = 5" "length b = 5" "length c = 5" "length d = 5"
      and sub: "set (a @ b @ c @ d) \<subseteq> set ENROLLMENT_KEY_ALPHABET"
      and e: "enrollmentKeyCheckCharacter (butlast (a @ b @ c @ d)) = Some (last (a @ b @ c @ d))"
      by (auto simp: isEnrollmentKey_def Let_def list_ex_iff split: if_splits)
    moreover have "a @ b @ c @ d \<noteq> []" using l(4) by auto
    ultimately have "key_chars (a @ b @ c @ d)" using flat [of "a @ b @ c @ d"] by simp
    with s l show "\<exists>g1 g2 g3 g4. split_on CHR ''-'' k = [g1, g2, g3, g4] \<and> length g1 = 5 \<and> length g2 = 5
      \<and> length g3 = 5 \<and> length g4 = 5 \<and> key_chars (g1 @ g2 @ g3 @ g4)" by blast
  next
    assume "\<exists>g1 g2 g3 g4. split_on CHR ''-'' k = [g1, g2, g3, g4] \<and> length g1 = 5 \<and> length g2 = 5
      \<and> length g3 = 5 \<and> length g4 = 5 \<and> key_chars (g1 @ g2 @ g3 @ g4)"
    then obtain a b c d where s: "split_on CHR ''-'' k = [a, b, c, d]" "length a = 5" "length b = 5"
        "length c = 5" "length d = 5" and kc: "key_chars (a @ b @ c @ d)" by blast
    moreover from s have "a @ b @ c @ d \<noteq> []" by auto
    ultimately have "enrollmentKeyCheckCharacter (butlast (a @ b @ c @ d)) = Some (last (a @ b @ c @ d))"
      using flat [of "a @ b @ c @ d"] by (simp add: key_chars_def)
    with s kc show "isEnrollmentKey k"
      by (auto simp: isEnrollmentKey_def Let_def list_ex_iff key_chars_def)
  qed
qed

lemma hyphen_place:
  assumes "CHR ''-'' \<notin> set p" and "i < length (p @ CHR ''-'' # q)"
  shows "(p @ CHR ''-'' # q) ! i = CHR ''-'' \<longleftrightarrow>
    i = length p \<or> (length p < i \<and> q ! (i - Suc (length p)) = CHR ''-'')"
  using assms by (auto simp: nth_append nth_Cons' dest: nth_mem)

text \<open>In a key, the hyphens are exactly at places 5, 11 and 17, and the rest is the checked text.\<close>

lemma key_structure:
  assumes "isEnrollmentKey k"
  shows "length k = 23" and "\<And>i. i < 23 \<Longrightarrow> k ! i = CHR ''-'' \<longleftrightarrow> i \<in> {5, 11, 17}"
    and "key_chars (filter (\<lambda>c. c \<noteq> CHR ''-'') k)"
proof -
  obtain a b c d where s: "split_on CHR ''-'' k = [a, b, c, d]" and l: "length a = 5" "length b = 5"
      "length c = 5" "length d = 5" and kc: "key_chars (a @ b @ c @ d)"
    using assms isEnrollmentKey_iff by blast
  have k: "k = a @ ''-'' @ b @ ''-'' @ c @ ''-'' @ d"
    using join_split_on [of "CHR ''-''" k] s by simp
  have nh: "\<And>p. p \<in> set [a, b, c, d] \<Longrightarrow> CHR ''-'' \<notin> set p"
    using split_on_parts [of _ "CHR ''-''" k] s by simp
  show "length k = 23" using k l by simp
  show "key_chars (filter (\<lambda>c. c \<noteq> CHR ''-'') k)"
  proof -
    have "filter (\<lambda>c. c \<noteq> CHR ''-'') p = p" if "p \<in> set [a, b, c, d]" for p
      using nh [OF that] by (auto simp: filter_id_conv)
    then have "filter (\<lambda>c. c \<noteq> CHR ''-'') k = a @ b @ c @ d" unfolding k by simp
    with kc show ?thesis by simp
  qed
  show "k ! i = CHR ''-'' \<longleftrightarrow> i \<in> {5, 11, 17}" if i: "i < 23" for i
  proof -
    have d: "j < 5 \<Longrightarrow> d ! j \<noteq> CHR ''-''" for j using nh [of d] l(4) by (metis list.set_intros nth_mem)
    have c': "(c @ CHR ''-'' # d) ! j = CHR ''-'' \<longleftrightarrow> j = 5" if "j < 11" for j
      using hyphen_place [of c j d] nh [of c] l that d [of "j - 6"] by auto
    have b': "(b @ CHR ''-'' # c @ CHR ''-'' # d) ! j = CHR ''-'' \<longleftrightarrow> j \<in> {5, 11}" if "j < 17" for j
      using hyphen_place [of b j "c @ CHR ''-'' # d"] nh [of b] l that c' [of "j - 6"] by auto
    have "(a @ CHR ''-'' # b @ CHR ''-'' # c @ CHR ''-'' # d) ! i = CHR ''-'' \<longleftrightarrow> i \<in> {5, 11, 17}"
      using hyphen_place [of a i "b @ CHR ''-'' # c @ CHR ''-'' # d"] nh [of a] l i b' [of "i - 6"] by auto
    then show ?thesis by (simp add: k)
  qed
qed

subsection \<open>What the check character catches\<close>

lemma weight_double: "x < 30 \<Longrightarrow> weight True x = (if x < 15 then 2 * x else 2 * x - 29)"
proof -
  assume x: "x < 30"
  show ?thesis
  proof (cases "x < 15")
    case False
    with x have "(2 * x) div 30 = 1" "(2 * x) mod 30 = 2 * x - 30" by (auto simp: div_if mod_if)
    with False show ?thesis by (simp add: weight_def)
  qed (simp add: weight_def)
qed

lemma weight_less: "v < 30 \<Longrightarrow> weight d v < 30"
  by (cases d) (auto simp: weight_double, simp add: weight_def)

lemma weight_inject: "v < 30 \<Longrightarrow> w < 30 \<Longrightarrow> weight d v = weight d w \<longleftrightarrow> v = w"
  by (cases d) (auto simp: weight_double split: if_splits, simp_all add: weight_def, presburger+)

lemma luhn_append: "luhn d (xs @ ys) = luhn d xs + luhn (if even (length xs) then d else \<not> d) ys"
  by (induction xs arbitrary: d) auto

lemma mod_30_cancel:
  assumes "(x + a) mod 30 = 0" and "(x + b) mod 30 = 0" and "a < b + 30" and "b < a + 30"
  shows "a = (b :: nat)"
proof -
  from assms(1,2) obtain k m where k: "x + a = 30 * k" and m: "x + b = 30 * m"
    by (auto simp: mod_eq_0_iff_dvd dvd_def)
  consider "k = m" | "k + 1 \<le> m" | "m + 1 \<le> k" by linarith
  then show ?thesis using k m assms(3,4) by cases linarith+
qed

lemma weight_swap:
  assumes "a < 30" and "b < 30"
    and "(x + (weight d a + weight (\<not> d) b)) mod 30 = 0" and "(x + (weight d b + weight (\<not> d) a)) mod 30 = 0"
  shows "a = b \<or> {a, b} = {0, 29}"
proof -
  have single: "weight False v = v" for v by (simp add: weight_def)
  have bound: "weight d v < 30" if "v < 30" for d v using that by (rule weight_less)
  consider "weight d a + weight (\<not> d) b = weight d b + weight (\<not> d) a"
    | "weight d a + weight (\<not> d) b = weight d b + weight (\<not> d) a + 30"
    | "weight d b + weight (\<not> d) a = weight d a + weight (\<not> d) b + 30"
  proof -
    let ?p = "weight d a + weight (\<not> d) b" and ?q = "weight d b + weight (\<not> d) a"
    note b = bound [OF assms(1), of d] bound [OF assms(1), of "\<not> d"]
      bound [OF assms(2), of d] bound [OF assms(2), of "\<not> d"]
    from assms(3,4) obtain k m where km: "x + ?p = 30 * k" "x + ?q = 30 * m"
      by (auto simp: mod_eq_0_iff_dvd dvd_def)
    consider "k = m" | "k = m + 1" | "m = k + 1" | "k \<ge> m + 2" | "m \<ge> k + 2" by linarith
    then show ?thesis using that km b by cases linarith+
  qed
  then show ?thesis
    using assms(1,2) by cases (cases d; auto simp: weight_double single split: if_splits)+
qed

text \<open>The sum of a key splits at any place of its text.\<close>

lemma luhn_rev_split:
  "luhn False (map letter_value (rev (A @ B @ C)))
   = luhn False (map letter_value (rev C))
     + luhn (odd (length C)) (map letter_value (rev B))
     + luhn (odd (length B + length C)) (map letter_value (rev A))"
  by (simp add: luhn_append add.assoc)

lemma filter_update:
  assumes "i < length k" and "c \<noteq> h"
  shows "filter (\<lambda>c. c \<noteq> h) (k[i := c]) = filter (\<lambda>c. c \<noteq> h) (take i k) @ [c] @ filter (\<lambda>c. c \<noteq> h) (drop (Suc i) k)"
  using assms by (simp add: upd_conv_take_nth_drop)

text \<open>
  One wrong character is always caught: changing any one character of a valid key, to any
  character at all and at any place (the hyphens included), gives a text that is not a key.
\<close>

theorem key_catches_one_wrong_character:
  assumes "isEnrollmentKey k" and "i < length k" and "c \<noteq> k ! i"
  shows "\<not> isEnrollmentKey (k[i := c])"
proof
  assume k': "isEnrollmentKey (k[i := c])"
  have i: "i < 23" using assms(1,2) key_structure(1) by simp
  have "k ! i = CHR ''-'' \<longleftrightarrow> c = CHR ''-''"
    using key_structure(2) [OF assms(1) i] key_structure(2) [OF k' i] assms(2) by simp
  with assms(3) have nh: "k ! i \<noteq> CHR ''-''" "c \<noteq> CHR ''-''" by auto
  let ?A = "filter (\<lambda>c. c \<noteq> CHR ''-'') (take i k)" and ?C = "filter (\<lambda>c. c \<noteq> CHR ''-'') (drop (Suc i) k)"
  have old: "key_chars (?A @ [k ! i] @ ?C)"
    using key_structure(3) [OF assms(1)] filter_update [OF assms(2) nh(1)] by (simp only: list_update_id)
  have new: "key_chars (?A @ [c] @ ?C)"
    using key_structure(3) [OF k'] filter_update [OF assms(2) nh(2)] by simp
  define x where "x = luhn False (map letter_value (rev ?C)) + luhn (odd (Suc (length ?C))) (map letter_value (rev ?A))"
  have sums: "(x + weight (odd (length ?C)) (letter_value (k ! i))) mod 30 = 0"
      "(x + weight (odd (length ?C)) (letter_value c)) mod 30 = 0"
    using old new by (simp_all only: key_chars_def luhn_rev_split) (simp_all add: x_def ac_simps)
  have mem: "k ! i \<in> set ENROLLMENT_KEY_ALPHABET" "c \<in> set ENROLLMENT_KEY_ALPHABET"
    using old new by (auto simp: key_chars_def)
  note less = letter_valueE(2) [OF mem(1)] letter_valueE(2) [OF mem(2)]
  from mod_30_cancel [OF sums] weight_less less
  have "weight (odd (length ?C)) (letter_value (k ! i)) = weight (odd (length ?C)) (letter_value c)"
    by (simp add: trans_less_add2)
  then have "k ! i = c" using weight_inject [OF less] letter_value_inject [OF mem] by simp
  with assms(3) show False by simp
qed

theorem key_catches_one_wrong_character_witness:
  "isEnrollmentKey ''ABCDE-FGHJK-MNPQR-STVWH'' \<and> \<not> isEnrollmentKey ''ABCDE-FGHJK-MNPQR-STVWX''"
proof -
  have h: "isEnrollmentKey ''ABCDE-FGHJK-MNPQR-STVWH''" by code_simp
  have "\<not> isEnrollmentKey (''ABCDE-FGHJK-MNPQR-STVWH''[22 := CHR ''X''])"
    by (rule key_catches_one_wrong_character [OF h]) simp_all
  with h show ?thesis by simp
qed

text \<open>Two neighbours of a text exchanged.\<close>

definition swap_at :: "nat \<Rightarrow> string \<Rightarrow> string" where
  "swap_at i k = k[i := k ! Suc i, Suc i := k ! i]"

lemma split_at_two: "Suc i < length k \<Longrightarrow> k = take i k @ [k ! i, k ! Suc i] @ drop (Suc (Suc i)) k"
  by (metis Cons_nth_drop_Suc Suc_lessD append_Cons append_Nil append_take_drop_id)

lemma swap_at_split:
  assumes "Suc i < length k"
  shows "swap_at i k = take i k @ [k ! Suc i, k ! i] @ drop (Suc (Suc i)) k"
  using assms by (simp add: swap_at_def upd_conv_take_nth_drop take_Suc_conv_app_nth nth_append
      flip: Cons_nth_drop_Suc)

lemma swapped_not_hyphens:
  assumes "isEnrollmentKey k" and "Suc i < length k" and "k ! i \<noteq> k ! Suc i" and "isEnrollmentKey (swap_at i k)"
  shows "k ! i \<noteq> CHR ''-'' \<and> k ! Suc i \<noteq> CHR ''-''"
proof -
  have i: "Suc i < 23" "i < 23" using assms(1,2) key_structure(1) by auto
  have "swap_at i k ! i = k ! Suc i" "swap_at i k ! Suc i = k ! i"
    using assms(2) by (simp_all add: swap_at_def)
  then show ?thesis
    using key_structure(2) [OF assms(1) i(1)] key_structure(2) [OF assms(1) i(2)]
      key_structure(2) [OF assms(4) i(1)] key_structure(2) [OF assms(4) i(2)] assms(3) by auto
qed

text \<open>
  Two neighbours swapped are caught, with one exception: a swap that gives another valid key
  can only have exchanged the first and the last letter of the alphabet, \<open>A\<close> and \<open>9\<close>.
\<close>

theorem key_catches_swapped_neighbours:
  assumes "isEnrollmentKey k" and "Suc i < length k" and "k ! i \<noteq> k ! Suc i"
    and "isEnrollmentKey (swap_at i k)"
  shows "{k ! i, k ! Suc i} = {CHR ''A'', CHR ''9''}"
proof -
  let ?x = "k ! i" and ?y = "k ! Suc i"
  let ?A = "filter (\<lambda>c. c \<noteq> CHR ''-'') (take i k)" and ?C = "filter (\<lambda>c. c \<noteq> CHR ''-'') (drop (Suc (Suc i)) k)"
  have nh: "?x \<noteq> CHR ''-''" "?y \<noteq> CHR ''-''" using swapped_not_hyphens [OF assms] by auto
  have "filter (\<lambda>c. c \<noteq> CHR ''-'') k = ?A @ [?x, ?y] @ ?C"
    by (subst split_at_two [OF assms(2)]) (simp add: nh)
  then have old: "key_chars (?A @ [?x, ?y] @ ?C)" using key_structure(3) [OF assms(1)] by simp
  have new: "key_chars (?A @ [?y, ?x] @ ?C)"
    using key_structure(3) [OF assms(4)] nh by (simp add: swap_at_split [OF assms(2)])
  define u where "u = luhn False (map letter_value (rev ?C)) + luhn (odd (length [?x, ?y] + length ?C)) (map letter_value (rev ?A))"
  have two: "luhn d (map letter_value (rev [a, b])) = weight d (letter_value b) + weight (\<not> d) (letter_value a)" for d a b
    by simp
  have sums: "(u + (weight (odd (length ?C)) (letter_value ?y) + weight (\<not> odd (length ?C)) (letter_value ?x))) mod 30 = 0"
      "(u + (weight (odd (length ?C)) (letter_value ?x) + weight (\<not> odd (length ?C)) (letter_value ?y))) mod 30 = 0"
    using old new by (simp_all only: key_chars_def luhn_rev_split two) (simp_all add: u_def ac_simps)
  have mem: "?x \<in> set ENROLLMENT_KEY_ALPHABET" "?y \<in> set ENROLLMENT_KEY_ALPHABET"
    using old by (auto simp: key_chars_def)
  have "letter_value ?x \<noteq> letter_value ?y" using letter_value_inject [OF mem] assms(3) by simp
  with weight_swap [OF letter_valueE(2) [OF mem(2)] letter_valueE(2) [OF mem(1)] sums]
  have "{letter_value ?y, letter_value ?x} = {0, 29}" by auto
  then have "{?y, ?x} = {ENROLLMENT_KEY_ALPHABET ! 0, ENROLLMENT_KEY_ALPHABET ! 29}"
    using letter_valueE(3) [OF mem(1)] letter_valueE(3) [OF mem(2)] by (auto simp: doubleton_eq_iff)
  then show ?thesis by (simp add: ENROLLMENT_KEY_ALPHABET_def insert_commute)
qed

theorem key_catches_swapped_neighbours_witness:
  "isEnrollmentKey ''A9BCD-EFGHJ-KMNPQ-RSTVF'' \<and> isEnrollmentKey (swap_at 0 ''A9BCD-EFGHJ-KMNPQ-RSTVF'')
   \<and> {''A9BCD-EFGHJ-KMNPQ-RSTVF'' ! 0, ''A9BCD-EFGHJ-KMNPQ-RSTVF'' ! Suc 0} = {CHR ''A'', CHR ''9''}"
proof -
  have h: "isEnrollmentKey ''A9BCD-EFGHJ-KMNPQ-RSTVF''" by code_simp
  have s: "isEnrollmentKey (swap_at 0 ''A9BCD-EFGHJ-KMNPQ-RSTVF'')" by code_simp
  show ?thesis using h s key_catches_swapped_neighbours [OF h _ _ s] by simp
qed

text \<open>
  The exception is real: \<open>A9\<close> and \<open>9A\<close> at the start of this key pass the same check, so the
  comment that two swapped neighbours are always caught does not hold of the code.
\<close>

theorem key_swap_exception:
  "isEnrollmentKey ''A9BCD-EFGHJ-KMNPQ-RSTVF''
   \<and> isEnrollmentKey (swap_at 0 ''A9BCD-EFGHJ-KMNPQ-RSTVF'')
   \<and> swap_at 0 ''A9BCD-EFGHJ-KMNPQ-RSTVF'' \<noteq> ''A9BCD-EFGHJ-KMNPQ-RSTVF''"
  by code_simp

subsection \<open>A generated key is a key\<close>

lemma alphabet_nth_mem: "i < 30 \<Longrightarrow> ENROLLMENT_KEY_ALPHABET ! i \<in> set ENROLLMENT_KEY_ALPHABET"
  by (simp add: nth_mem)

lemma key_payload_alphabet: "set (key_payload bytes) \<subseteq> set ENROLLMENT_KEY_ALPHABET"
  by (auto simp: key_payload_def intro: alphabet_nth_mem)

lemma key_of_chars:
  assumes "length chars = 20" and "key_chars chars"
  shows "isEnrollmentKey (join ''-'' (map (\<lambda>i. slice i (i + 5) chars) [0, 5, 10, 15]))"
proof -
  let ?g = "\<lambda>i. slice i (i + 5) chars"
  have nh: "CHR ''-'' \<notin> set (?g i)" for i
    using assms(2) hyphen_not_in_alphabet
    by (auto simp: key_chars_def slice_def dest: in_set_takeD in_set_dropD)
  have groups: "chars = ?g 0 @ ?g 5 @ ?g 10 @ ?g 15"
  proof -
    have "?g 15 = drop 15 chars" using assms(1) by (simp add: slice_def)
    moreover have "take 5 (drop n chars) @ drop (n + 5) chars = drop n chars" for n
      by (metis add.commute append_take_drop_id drop_drop)
    from this [of 0] this [of 5] this [of 10] have "take 5 chars @ take 5 (drop 5 chars) @ take 5 (drop 10 chars) @ drop 15 chars = chars"
      by simp
    ultimately show ?thesis by (simp add: slice_def)
  qed
  have "split_on CHR ''-'' (?g 0 @ CHR ''-'' # ?g 5 @ CHR ''-'' # ?g 10 @ CHR ''-'' # ?g 15)
      = [?g 0, ?g 5, ?g 10, ?g 15]"
    by (simp only: split_on_append [OF nh] split_on_no_sep [OF nh])
  moreover have "length (?g 0) = 5" "length (?g 5) = 5" "length (?g 10) = 5" "length (?g 15) = 5"
    using assms(1) by (simp_all add: slice_def)
  moreover have "key_chars (?g 0 @ ?g 5 @ ?g 10 @ ?g 15)" using assms(2) groups by simp
  moreover have "join ''-'' (map ?g [0, 5, 10, 15]) = ?g 0 @ CHR ''-'' # ?g 5 @ CHR ''-'' # ?g 10 @ CHR ''-'' # ?g 15"
    by simp
  ultimately show ?thesis unfolding isEnrollmentKey_iff by auto
qed

text \<open>
  Whatever nineteen random bytes are drawn, a key is generated, and it passes the check the
  workstation makes on it.
\<close>

theorem generateEnrollmentKey_valid:
  assumes "length bytes = ENROLLMENT_KEY_LENGTH - 1"
  shows "\<exists>k. generateEnrollmentKey bytes = Some k \<and> isEnrollmentKey k"
proof -
  let ?p = "key_payload bytes"
  obtain c where c: "enrollmentKeyCheckCharacter ?p = Some c" and mem: "c \<in> set ENROLLMENT_KEY_ALPHABET"
    using check_character_luhn [OF key_payload_alphabet, of bytes] alphabet_nth_mem by force
  have "key_chars (?p @ [c])"
    using check_character_iff [OF key_payload_alphabet mem] c key_payload_alphabet mem
    by (auto simp: key_chars_def)
  moreover have "length (?p @ [c]) = 20" using assms by (simp add: key_payload_def ENROLLMENT_KEY_LENGTH_def)
  ultimately have "isEnrollmentKey (join ''-'' (map (\<lambda>i. slice i (i + 5) (?p @ [c])) [0, 5, 10, 15]))"
    by (rule key_of_chars [rotated])
  with c show ?thesis by (simp add: generateEnrollmentKey_def Let_def)
qed

theorem generateEnrollmentKey_valid_witness:
  "\<exists>k. generateEnrollmentKey (replicate 19 7) = Some k \<and> isEnrollmentKey k"
  by (rule generateEnrollmentKey_valid) (simp add: ENROLLMENT_KEY_LENGTH_def)

end
