(* ===== verification/Store.thy ===== *)
theory Store
  imports Auth
begin

text \<open>
  The control plane's database (\<open>src/cloudflare-control/src/db.ts\<close>, row types of \<open>types.ts\<close>): each
  table is the list of its rows in insertion order, and each function is the statement it runs. The
  clock (\<open>now\<close>, seconds), generated identifiers, random tokens and \<open>sha256Hex\<close> are arguments.
\<close>

named_theorems store_defs \<open>definitions of the database operations\<close>

subsection \<open>Rows\<close>

datatype user_role = Super_admin | Org_admin

datatype tenant_status = Active | Pending | Rejected | Suspended

datatype kiosk_mode = Portal | Single_url

text \<open>The columns of \<open>tenants\<close> the modelled code reads or writes; 0/1 columns are integers, as stored.\<close>

record tenant =
  tn_id :: string
  tn_user_id :: string
  tn_name :: string
  tn_subdomain :: string
  tn_requested_subdomain :: "string option"
  tn_chosen_subdomain :: "string option"
  tn_status :: tenant_status
  tn_mode :: kiosk_mode
  tn_default_url :: string
  tn_enrollment_key :: string
  tn_custom_domain :: "string option"
  tn_broadcast_url :: "string option"
  tn_broadcast_epoch :: int
  tn_home_route :: "string option"
  tn_lan_sharing :: int
  tn_usage_sites :: int
  tn_printing_enabled :: int
  tn_home_reset :: int
  tn_address_generated :: int
  tn_feature_tip_dismissed_at :: "int option"
  tn_remote_control_status :: "string option"
  tn_remote_control_seats :: int
  tn_workstation_limit :: int
  tn_license_plan :: "string option"
  tn_license_expires_at :: "int option"
  tn_trial_started_at :: "int option"
  tn_updated_at :: int

record tenant_user =
  tu_tenant_id :: string
  tu_user_id :: string
  tu_role :: string
  tu_permissions :: "string list option"

record session =
  se_token :: string
  se_user_id :: string
  se_tenant_id :: "string option"
  se_role :: user_role
  se_expires_at :: int

record session_row = session +
  se_hashed :: bool

record attempt =
  la_identifier :: string
  la_failed_count :: nat
  la_last_failed_at :: int
  la_locked_until :: int

record device_token =
  dt_id :: string
  dt_token_hash :: string
  dt_tenant_id :: string
  dt_client_id :: string
  dt_created_at :: int
  dt_last_used_at :: int
  dt_revoked :: bool

record client_device =
  cd_tenant_id :: string
  cd_client_id :: string
  cd_last_seen :: int
  cd_group_name :: "string option"
  cd_broadcast_url :: "string option"
  cd_broadcast_epoch :: int

record workstation_group =
  wg_id :: string
  wg_tenant_id :: string
  wg_name :: string

record unlicensed =
  ul_tenant_id :: string
  ul_client_id :: string
  ul_since :: int

datatype billing_period = Month | Year

datatype payment_status = Created | Paid

record payment =
  pm_id :: string
  pm_tenant_id :: string
  pm_link_id :: "string option"
  pm_short_url :: "string option"
  pm_period :: billing_period
  pm_extra_workstations :: int
  pm_subtotal_paise :: int
  pm_gst_paise :: int
  pm_total_paise :: int
  pm_status :: payment_status
  pm_razorpay_payment_id :: "string option"
  pm_created_by :: "string option"
  pm_created_at :: int
  pm_paid_at :: "int option"
  pm_period_ends_at :: "int option"

record power_row =
  ps_id :: string
  ps_tenant_id :: string
  ps_group_id :: "string option"
  ps_days :: "32 word"
  ps_off_minute :: nat
  ps_on_minute :: "nat option"
  ps_created_at :: int
  ps_updated_at :: int

record exam_row =
  ex_id :: string
  ex_tenant_id :: string
  ex_title :: string
  ex_group_name :: "string option"
  ex_exam_url :: string
  ex_allowed_hosts :: "json option"
  ex_starts_at :: int
  ex_ends_at :: int
  ex_ended_at :: "int option"
  ex_finalized_at :: "int option"
  ex_created_by :: "string option"
  ex_ended_by :: "string option"
  ex_created_at :: int

datatype exam_event = Start_online | Start_offline | Connect | Disconnect

record exam_event_row =
  ev_exam_id :: string
  ev_client_id :: string
  ev_event :: exam_event
  ev_at :: int

record notification =
  nt_id :: string
  nt_tenant_id :: "string option"
  nt_kind :: string
  nt_title :: string
  nt_body :: string
  nt_created_at :: int
  nt_created_by :: "string option"

record d1 =
  tenants :: "tenant list"
  tenant_users :: "tenant_user list"
  sessions :: "session_row list"
  login_attempts :: "attempt list"
  device_tokens :: "device_token list"
  client_devices :: "client_device list"
  workstation_groups :: "workstation_group list"
  unlicensed_workstations :: "unlicensed list"
  payments :: "payment list"
  power_schedules :: "power_row list"
  exam_sessions :: "exam_row list"
  exam_events :: "exam_event_row list"
  notifications :: "notification list"

definition empty_db :: d1 where
  "empty_db = \<lparr>tenants = [], tenant_users = [], sessions = [], login_attempts = [], device_tokens = [],
     client_devices = [], workstation_groups = [], unlicensed_workstations = [], payments = [],
     power_schedules = [], exam_sessions = [], exam_events = [], notifications = []\<rparr>"

text \<open>An organization on no plan, for concrete examples.\<close>

definition plain_tenant :: "string \<Rightarrow> string \<Rightarrow> string \<Rightarrow> tenant" where
  "plain_tenant i owner slug = \<lparr>tn_id = i, tn_user_id = owner, tn_name = ''Lab'', tn_subdomain = slug,
     tn_requested_subdomain = None, tn_chosen_subdomain = None, tn_status = Active, tn_mode = Portal,
     tn_default_url = [], tn_enrollment_key = [], tn_custom_domain = None, tn_broadcast_url = None,
     tn_broadcast_epoch = 0, tn_home_route = None, tn_lan_sharing = 0, tn_usage_sites = 0,
     tn_printing_enabled = 0, tn_home_reset = 0, tn_address_generated = 0, tn_feature_tip_dismissed_at = None,
     tn_remote_control_status = None, tn_remote_control_seats = 1, tn_workstation_limit = 5, tn_license_plan = None,
     tn_license_expires_at = None, tn_trial_started_at = None, tn_updated_at = 0\<rparr>"

subsection \<open>Tenants\<close>

definition findTenantBySubdomain :: "d1 \<Rightarrow> string \<Rightarrow> tenant option" where
  [store_defs]: "findTenantBySubdomain db subdomain =
     find (\<lambda>t. tn_subdomain t = toLowerCase subdomain \<or> tn_chosen_subdomain t = Some (toLowerCase subdomain))
       (tenants db)"

definition findTenantByCustomDomain :: "d1 \<Rightarrow> string \<Rightarrow> tenant option" where
  [store_defs]: "findTenantByCustomDomain db domain =
     (if domain = [] then None
      else find (\<lambda>t. tn_custom_domain t = Some (toLowerCase domain)) (tenants db))"

definition findTenantById :: "d1 \<Rightarrow> string \<Rightarrow> tenant option" where
  [store_defs]: "findTenantById db i = find (\<lambda>t. tn_id t = i) (tenants db)"

definition MUTABLE_TENANT_COLUMNS :: "string list" where
  "MUTABLE_TENANT_COLUMNS =
     [''name'', ''update_channel'', ''security_updates'', ''lan_sharing'', ''usage_sites'', ''home_reset'',
      ''subdomain'', ''requested_subdomain'', ''chosen_subdomain'', ''feature_tip_dismissed_at'',
      ''summary_dismissed_month'', ''status'', ''mode'', ''default_url'', ''admin_pin'', ''enrollment_key'',
      ''custom_domain'', ''requested_custom_domain'', ''custom_domain_status'', ''custom_hostname_id'',
      ''custom_hostname_status'', ''default_lock_message'', ''portal_title'', ''portal_subtitle'',
      ''portal_description'', ''portal_footer'', ''broadcast_url'', ''broadcast_epoch'', ''home_route'',
      ''homepage_headline'', ''homepage_intro'', ''homepage_blocks'', ''remote_control_status'',
      ''workstation_limit'', ''remote_control_seats'', ''homepage_takedown_at'',
      ''homepage_takedown_reason'', ''license_plan'', ''license_expires_at'',
      ''remote_control_revoked_at'', ''trial_started_at'']"

text \<open>
  \<open>updates\<close> lists the columns with the change each makes; \<open>None\<close> is the error thrown for a column
  outside the list, before any statement runs.
\<close>

definition updateTenant :: "d1 \<Rightarrow> string \<Rightarrow> (string \<times> (tenant \<Rightarrow> tenant)) list \<Rightarrow> int \<Rightarrow> d1 option" where
  [store_defs]: "updateTenant db i updates now =
     (if list_ex (\<lambda>u. fst u \<notin> set MUTABLE_TENANT_COLUMNS) updates then None
      else if updates = [] then Some db
      else Some (db\<lparr>tenants := tbl_update (\<lambda>t. tn_id t = i)
             (\<lambda>t. (fold snd updates t)\<lparr>tn_updated_at := now\<rparr>) (tenants db)\<rparr>))"

definition getTenantUserPermissions :: "d1 \<Rightarrow> string \<Rightarrow> string \<Rightarrow> string list" where
  [store_defs]: "getTenantUserPermissions db tenantId userId =
     (if (case findTenantById db tenantId of Some t \<Rightarrow> tn_user_id t = userId | None \<Rightarrow> False) then [''*'']
      else case find (\<lambda>u. tu_tenant_id u = tenantId \<and> tu_user_id u = userId) (tenant_users db) of
             None \<Rightarrow> []
           | Some u \<Rightarrow> if tu_role u = ''org_admin'' then [''*'']
                      else case tu_permissions u of None \<Rightarrow> [] | Some ps \<Rightarrow> ps)"

subsection \<open>Workstation registry: broadcasts and groups\<close>

definition setClientsBroadcast :: "d1 \<Rightarrow> string \<Rightarrow> string list \<Rightarrow> string option \<Rightarrow> int \<Rightarrow> d1" where
  [store_defs]: "setClientsBroadcast db tenantId clientIds url epoch =
     (if clientIds = [] then db
      else db\<lparr>client_devices := tbl_update (\<lambda>c. cd_tenant_id c = tenantId \<and> cd_client_id c \<in> set clientIds)
             (\<lambda>c. c\<lparr>cd_broadcast_url := url, cd_broadcast_epoch := epoch\<rparr>) (client_devices db)\<rparr>)"

text \<open>The map of recorded per-workstation broadcasts; a later row of the same workstation wins.\<close>

definition listDeviceBroadcasts :: "d1 \<Rightarrow> string \<Rightarrow> (string \<rightharpoonup> string option \<times> int)" where
  [store_defs]: "listDeviceBroadcasts db tenantId =
     map_of (rev (map (\<lambda>c. (cd_client_id c, (cd_broadcast_url c, cd_broadcast_epoch c)))
       (filter (\<lambda>c. cd_tenant_id c = tenantId \<and> cd_broadcast_epoch c > 0) (client_devices db))))"

definition deleteClientDevice :: "d1 \<Rightarrow> string \<Rightarrow> string \<Rightarrow> d1" where
  [store_defs]: "deleteClientDevice db tenantId clientId =
     db\<lparr>client_devices := filter (\<lambda>c. \<not> (cd_tenant_id c = tenantId \<and> cd_client_id c = clientId)) (client_devices db)\<rparr>"

definition createWorkstationGroup :: "d1 \<Rightarrow> string \<Rightarrow> string \<Rightarrow> string \<Rightarrow> d1 \<times> workstation_group" where
  [store_defs]: "createWorkstationGroup db tenantId name new_id =
     (let g = \<lparr>wg_id = new_id, wg_tenant_id = tenantId, wg_name = name\<rparr>
      in (db\<lparr>workstation_groups := workstation_groups db @ [g]\<rparr>, g))"

definition deleteWorkstationGroup :: "d1 \<Rightarrow> string \<Rightarrow> string \<Rightarrow> bool \<times> d1" where
  [store_defs]: "deleteWorkstationGroup db tenantId groupId =
     (case find (\<lambda>g. wg_id g = groupId \<and> wg_tenant_id g = tenantId) (workstation_groups db) of
        None \<Rightarrow> (False, db)
      | Some g \<Rightarrow>
          (True, db\<lparr>client_devices := tbl_update (\<lambda>c. cd_tenant_id c = tenantId \<and> cd_group_name c = Some (wg_name g))
                      (\<lambda>c. c\<lparr>cd_group_name := None\<rparr>) (client_devices db),
                    workstation_groups := filter (\<lambda>h. \<not> (wg_id h = groupId \<and> wg_tenant_id h = tenantId))
                      (workstation_groups db)\<rparr>))"

definition assignClientsToGroup :: "d1 \<Rightarrow> string \<Rightarrow> string list \<Rightarrow> string option \<Rightarrow> d1" where
  [store_defs]: "assignClientsToGroup db tenantId clientIds groupName =
     (if clientIds = [] then db
      else db\<lparr>client_devices := tbl_update (\<lambda>c. cd_tenant_id c = tenantId \<and> cd_client_id c \<in> set clientIds)
             (\<lambda>c. c\<lparr>cd_group_name := groupName\<rparr>) (client_devices db)\<rparr>)"

definition NOTIFICATION_TITLE_LIMIT :: nat where
  "NOTIFICATION_TITLE_LIMIT = 120"

definition NOTIFICATION_BODY_LIMIT :: nat where
  "NOTIFICATION_BODY_LIMIT = 2000"

text \<open>\<open>n\<close> carries the texts as given; \<open>None\<close> is the error for one that is empty once trimmed.\<close>

definition createNotification :: "d1 \<Rightarrow> notification \<Rightarrow> d1 option" where
  [store_defs]: "createNotification db n =
     (let title = take NOTIFICATION_TITLE_LIMIT (trim (nt_title n));
          body = take NOTIFICATION_BODY_LIMIT (trim (nt_body n))
      in if title = [] \<or> body = [] then None
         else Some (db\<lparr>notifications := notifications db @ [n\<lparr>nt_title := title, nt_body := body\<rparr>]\<rparr>))"

subsection \<open>Effects outside the database\<close>

text \<open>
  What a request handler does beyond its database writes, in order: an entry for the audit log
  (action and details, \<open>writeAuditLog\<close>), a message to the organization's hub
  (\<open>notifyConfigChanged\<close> or another path).
\<close>

datatype effect = Audit string string | Config_changed | Hub_call string

text \<open>A refusal of a request: the message and the HTTP status (\<open>jsonError\<close>).\<close>

type_synonym refusal = "string \<times> nat"

definition listWorkstationGroups :: "d1 \<Rightarrow> string \<Rightarrow> workstation_group list" where
  [store_defs]: "listWorkstationGroups db tenantId =
     sort_by (\<lambda>a b. if wg_name a \<le> wg_name b then (if wg_name a = wg_name b then 0 else - 1) else 1)
       (filter (\<lambda>g. wg_tenant_id g = tenantId) (workstation_groups db))"

end
