(* ===== verification/Sessions.thy ===== *)
theory Sessions
  imports Store
begin

text \<open>
  Sign-in sessions, login throttling and workstation tokens of
  \<open>src/cloudflare-control/src/db.ts\<close>. \<open>sha256Hex\<close> is the parameter \<open>sha\<close>; what a result needs of
  it (no two tokens in play share a digest) is a hypothesis of that result.
\<close>

subsection \<open>Sessions\<close>

text \<open>\<open>sha\<close> is \<open>sha256Hex\<close>.\<close>

definition sessionKey :: "(string \<Rightarrow> string) \<Rightarrow> string \<Rightarrow> string" where
  "sessionKey sha token = sha (''session:'' @ token)"

definition session_match :: "(string \<Rightarrow> string) \<Rightarrow> string \<Rightarrow> session_row \<Rightarrow> bool" where
  "session_match sha token r =
     ((se_token r = sessionKey sha token \<and> se_hashed r) \<or> (se_token r = token \<and> \<not> se_hashed r))"

definition session_row_of :: "session \<Rightarrow> string \<Rightarrow> session_row" where
  "session_row_of s stored = \<lparr>se_token = stored, se_user_id = se_user_id s, se_tenant_id = se_tenant_id s,
     se_role = se_role s, se_expires_at = se_expires_at s, se_hashed = True\<rparr>"

text \<open>\<open>None\<close> is the primary-key violation of an \<open>INSERT\<close> under a key that is taken.\<close>

definition createSession :: "(string \<Rightarrow> string) \<Rightarrow> d1 \<Rightarrow> session \<Rightarrow> d1 option" where
  [store_defs]: "createSession sha db s =
     (let k = sessionKey sha (se_token s) in
      if tbl_lookup se_token k (sessions db) \<noteq> None then None
      else Some (db\<lparr>sessions := sessions db @ [session_row_of s k]\<rparr>))"

definition deleteSessionsForUser :: "(string \<Rightarrow> string) \<Rightarrow> d1 \<Rightarrow> string \<Rightarrow> string option \<Rightarrow> d1" where
  [store_defs]: "deleteSessionsForUser sha db userId keepToken =
     (case keepToken of
        Some k \<Rightarrow> if k = [] then db\<lparr>sessions := filter (\<lambda>r. se_user_id r \<noteq> userId) (sessions db)\<rparr>
                 else db\<lparr>sessions := filter (\<lambda>r. \<not> (se_user_id r = userId \<and> \<not> session_match sha k r)) (sessions db)\<rparr>
      | None \<Rightarrow> db\<lparr>sessions := filter (\<lambda>r. se_user_id r \<noteq> userId) (sessions db)\<rparr>)"

definition rehash_row :: "(string \<Rightarrow> string) \<Rightarrow> string \<Rightarrow> session_row \<Rightarrow> session_row" where
  "rehash_row sha token r =
     (if se_token r = token \<and> \<not> se_hashed r then r\<lparr>se_token := sessionKey sha token, se_hashed := True\<rparr> else r)"

text \<open>
  The live session of a browser's token. A row stored before tokens were hashed is rewritten under
  its hash when it is used.
\<close>

definition getSession :: "(string \<Rightarrow> string) \<Rightarrow> d1 \<Rightarrow> string \<Rightarrow> int \<Rightarrow> session option \<times> d1" where
  [store_defs]: "getSession sha db token now =
     (case find (\<lambda>r. session_match sha token r \<and> se_expires_at r > now) (sessions db) of
        None \<Rightarrow> (None, db)
      | Some row \<Rightarrow>
          (Some \<lparr>se_token = token, se_user_id = se_user_id row, se_tenant_id = se_tenant_id row,
                 se_role = se_role row, se_expires_at = se_expires_at row\<rparr>,
           if se_hashed row then db
           else db\<lparr>sessions := map (rehash_row sha token) (sessions db)\<rparr>))"

definition deleteSession :: "(string \<Rightarrow> string) \<Rightarrow> d1 \<Rightarrow> string \<Rightarrow> d1" where
  [store_defs]: "deleteSession sha db token =
     db\<lparr>sessions := filter (\<lambda>r. \<not> session_match sha token r) (sessions db)\<rparr>"

definition hashLegacySessions :: "(string \<Rightarrow> string) \<Rightarrow> d1 \<Rightarrow> nat \<Rightarrow> nat \<times> d1" where
  [store_defs]: "hashLegacySessions sha db limit =
     (let results = take limit (filter (\<lambda>r. \<not> se_hashed r) (sessions db)) in
      if results = [] then (0, db)
      else (length results,
            db\<lparr>sessions := fold (\<lambda>r. map (rehash_row sha (se_token r))) results (sessions db)\<rparr>))"

definition deleteExpiredSessions :: "d1 \<Rightarrow> string option \<Rightarrow> int \<Rightarrow> d1" where
  [store_defs]: "deleteExpiredSessions db userId now =
     (case userId of
        Some u \<Rightarrow> if u = [] then db\<lparr>sessions := filter (\<lambda>r. \<not> se_expires_at r \<le> now) (sessions db)\<rparr>
                 else db\<lparr>sessions := filter (\<lambda>r. \<not> (se_user_id r = u \<and> se_expires_at r \<le> now)) (sessions db)\<rparr>
      | None \<Rightarrow> db\<lparr>sessions := filter (\<lambda>r. \<not> se_expires_at r \<le> now) (sessions db)\<rparr>)"

subsection \<open>Login throttling\<close>

definition LOCKOUT_THRESHOLD :: nat where
  "LOCKOUT_THRESHOLD = 5"

definition LOCKOUT_BASE_SECONDS :: nat where
  "LOCKOUT_BASE_SECONDS = 30"

definition LOCKOUT_MAX_SECONDS :: nat where
  "LOCKOUT_MAX_SECONDS = 15 * 60"

definition getLockoutRemaining :: "d1 \<Rightarrow> string \<Rightarrow> int \<Rightarrow> int" where
  "getLockoutRemaining db identifier now =
     (case tbl_lookup la_identifier identifier (login_attempts db) of
        None \<Rightarrow> 0
      | Some row \<Rightarrow> if la_locked_until row \<le> now then 0 else la_locked_until row - now)"

definition recordLoginFailure :: "d1 \<Rightarrow> string \<Rightarrow> int \<Rightarrow> d1" where
  "recordLoginFailure db identifier now =
     (let failed = (case tbl_lookup la_identifier identifier (login_attempts db) of
                      None \<Rightarrow> 0 | Some row \<Rightarrow> la_failed_count row) + 1;
          over = failed - LOCKOUT_THRESHOLD;
          lockedUntil = (if over > 0
             then now + int (min (LOCKOUT_BASE_SECONDS * 2 ^ (over - 1)) LOCKOUT_MAX_SECONDS) else 0)
      in db\<lparr>login_attempts := tbl_upsert la_identifier
             \<lparr>la_identifier = identifier, la_failed_count = failed, la_last_failed_at = now,
              la_locked_until = lockedUntil\<rparr> (login_attempts db)\<rparr>)"

definition clearLoginFailures :: "d1 \<Rightarrow> string \<Rightarrow> d1" where
  "clearLoginFailures db identifier =
     db\<lparr>login_attempts := tbl_delete la_identifier identifier (login_attempts db)\<rparr>"

definition rateLimitWait :: "d1 \<Rightarrow> string \<Rightarrow> nat \<Rightarrow> int \<Rightarrow> int \<Rightarrow> int" where
  "rateLimitWait db key limit windowSeconds now =
     (case tbl_lookup la_identifier key (login_attempts db) of
        None \<Rightarrow> 0
      | Some row \<Rightarrow>
          if now - la_last_failed_at row \<ge> windowSeconds then 0
          else if la_failed_count row < limit then 0
          else max 1 (la_last_failed_at row + windowSeconds - now))"

definition recordRateLimitHit :: "d1 \<Rightarrow> string \<Rightarrow> int \<Rightarrow> int \<Rightarrow> d1" where
  "recordRateLimitHit db key windowSeconds now =
     (let row = (case tbl_lookup la_identifier key (login_attempts db) of
                   None \<Rightarrow> \<lparr>la_identifier = key, la_failed_count = 1, la_last_failed_at = now, la_locked_until = 0\<rparr>
                 | Some r \<Rightarrow>
                     if now - la_last_failed_at r < windowSeconds
                     then r\<lparr>la_failed_count := la_failed_count r + 1\<rparr>
                     else r\<lparr>la_failed_count := 1, la_last_failed_at := now\<rparr>)
      in db\<lparr>login_attempts := tbl_upsert la_identifier row (login_attempts db)\<rparr>)"

definition purgeStaleLoginAttempts :: "d1 \<Rightarrow> int \<Rightarrow> int \<Rightarrow> d1" where
  "purgeStaleLoginAttempts db olderThanSeconds now =
     db\<lparr>login_attempts := filter (\<lambda>r. \<not> (la_locked_until r \<le> now \<and> la_last_failed_at r \<le> now - olderThanSeconds))
          (login_attempts db)\<rparr>"

subsection \<open>Workstation tokens\<close>

definition enrolled_ids :: "d1 \<Rightarrow> string \<Rightarrow> string list" where
  "enrolled_ids db tenantId =
     map dt_client_id (filter (\<lambda>d. dt_tenant_id d = tenantId \<and> \<not> dt_revoked d) (device_tokens db))"

definition countEnrolledWorkstations :: "d1 \<Rightarrow> string \<Rightarrow> nat" where
  "countEnrolledWorkstations db tenantId = length (remdups (enrolled_ids db tenantId))"

text \<open>
  \<open>token\<close> and \<open>new_id\<close> are the generated secret and row id. \<open>None\<close> when the conditional \<open>INSERT\<close>
  changed nothing: the plan's places are taken.
\<close>

definition createDeviceToken ::
  "(string \<Rightarrow> string) \<Rightarrow> d1 \<Rightarrow> string \<Rightarrow> string \<Rightarrow> int \<Rightarrow> string \<Rightarrow> string \<Rightarrow> int \<Rightarrow> (string \<times> device_token \<times> d1) option" where
  "createDeviceToken sha db tenantId clientId limit token new_id now =
     (if clientId \<in> set (enrolled_ids db tenantId)
         \<or> int (countEnrolledWorkstations db tenantId) < limit
      then let device = \<lparr>dt_id = new_id, dt_token_hash = sha token, dt_tenant_id = tenantId,
                 dt_client_id = clientId, dt_created_at = now, dt_last_used_at = now, dt_revoked = False\<rparr>;
               inserted = device_tokens db @ [device]
           in Some (token, device,
                db\<lparr>device_tokens := tbl_update
                     (\<lambda>d. dt_tenant_id d = tenantId \<and> dt_client_id d = clientId \<and> dt_id d \<noteq> new_id)
                     (\<lambda>d. d\<lparr>dt_revoked := True\<rparr>) inserted\<rparr>)
      else None)"

definition findDeviceByToken :: "(string \<Rightarrow> string) \<Rightarrow> d1 \<Rightarrow> string \<Rightarrow> device_token option" where
  "findDeviceByToken sha db token =
     find (\<lambda>d. dt_token_hash d = sha token \<and> \<not> dt_revoked d) (device_tokens db)"

definition touchDeviceToken :: "d1 \<Rightarrow> string \<Rightarrow> int \<Rightarrow> d1" where
  "touchDeviceToken db i now =
     db\<lparr>device_tokens := tbl_update (\<lambda>d. dt_id d = i) (\<lambda>d. d\<lparr>dt_last_used_at := now\<rparr>) (device_tokens db)\<rparr>"

definition revokeDeviceTokensForClient :: "d1 \<Rightarrow> string \<Rightarrow> string \<Rightarrow> d1" where
  "revokeDeviceTokensForClient db tenantId clientId =
     db\<lparr>device_tokens := tbl_update (\<lambda>d. dt_tenant_id d = tenantId \<and> dt_client_id d = clientId)
          (\<lambda>d. d\<lparr>dt_revoked := True\<rparr>) (device_tokens db)\<rparr>"

subsection \<open>Throttling keeps its bounds\<close>

text \<open>The throttle reads and writes \<open>login_attempts\<close> only through the keyed-table contract.\<close>

interpretation attempts: row_map "tbl_lookup la_identifier" "tbl_upsert la_identifier"
  "tbl_delete la_identifier" la_identifier
  by unfold_locales (simp_all add: tbl_lookup_upsert tbl_lookup_delete)

definition failures :: "d1 \<Rightarrow> string \<Rightarrow> nat" where
  "failures db i = (case tbl_lookup la_identifier i (login_attempts db) of None \<Rightarrow> 0 | Some r \<Rightarrow> la_failed_count r)"

lemma lookup_recordLoginFailure:
  "tbl_lookup la_identifier k (login_attempts (recordLoginFailure db i now)) =
    (if k = i then Some \<lparr>la_identifier = i, la_failed_count = failures db i + 1, la_last_failed_at = now,
        la_locked_until = (if failures db i + 1 > LOCKOUT_THRESHOLD
          then now + int (min (LOCKOUT_BASE_SECONDS * 2 ^ (failures db i - LOCKOUT_THRESHOLD)) LOCKOUT_MAX_SECONDS)
          else 0)\<rparr>
     else tbl_lookup la_identifier k (login_attempts db))"
  by (simp add: recordLoginFailure_def Let_def failures_def attempts.lookup_put LOCKOUT_THRESHOLD_def)

lemma failures_recordLoginFailure:
  "failures (recordLoginFailure db i now) k = (if k = i then failures db i + 1 else failures db k)"
  by (simp add: failures_def [of "recordLoginFailure db i now"] lookup_recordLoginFailure)
    (simp add: failures_def)

text \<open>Consecutive failures of one identifier, at the given times.\<close>

definition fail_at :: "string \<Rightarrow> int list \<Rightarrow> d1 \<Rightarrow> d1" where
  "fail_at i = fold (\<lambda>t db. recordLoginFailure db i t)"

lemma failures_fail_at: "failures (fail_at i ts db) i = failures db i + length ts"
  by (induction ts arbitrary: db) (simp_all add: fail_at_def failures_recordLoginFailure)

lemma lockout_after_failure:
  assumes "0 \<le> now"
  shows "getLockoutRemaining (recordLoginFailure db i t) k now =
    (if k \<noteq> i then getLockoutRemaining db k now
     else if failures db i < 5 then 0
     else max 0 (t + int (min (30 * 2 ^ (failures db i - 5)) 900) - now))"
  using assms
  by (simp add: getLockoutRemaining_def lookup_recordLoginFailure LOCKOUT_THRESHOLD_def
      LOCKOUT_BASE_SECONDS_def LOCKOUT_MAX_SECONDS_def)

lemma fail_at_snoc: "fail_at i (ts @ [t]) db = recordLoginFailure (fail_at i ts db) i t"
  by (simp add: fail_at_def)

lemma lockout_other: "0 \<le> now \<Longrightarrow> k \<noteq> i \<Longrightarrow> getLockoutRemaining (fail_at i ts db) k now = getLockoutRemaining db k now"
  by (induction ts arbitrary: db) (simp_all add: fail_at_def lockout_after_failure)

text \<open>
  After a run of consecutive failures of an identifier, the last at time \<open>t\<close>, the first five
  cost nothing and from the sixth on sign-in is refused for 30 seconds, doubling with every further
  failure and never more than 15 minutes after the last; no other identifier is touched.
\<close>

theorem lockout_schedule:
  assumes "failures db i = 0" and "0 \<le> now"
  shows "getLockoutRemaining (fail_at i (ts @ [t]) db) k now =
    (if k \<noteq> i then getLockoutRemaining db k now
     else if length ts < 5 then 0
     else max 0 (t + int (min (30 * 2 ^ (length ts - 5)) 900) - now))"
  using assms by (simp add: fail_at_snoc lockout_after_failure failures_fail_at lockout_other)

theorem lockout_schedule_witness:
  "getLockoutRemaining (fail_at ''a'' ([1, 2, 3, 4, 5, 6, 7] @ [100]) empty_db) ''a'' 130 = 90"
proof -
  have "failures empty_db ''a'' = 0" by code_simp
  from lockout_schedule [OF this, of 130 "[1, 2, 3, 4, 5, 6, 7]" 100 "''a''"] show ?thesis by simp
qed

text \<open>One request under the limiter: refused while there is a wait, otherwise let through and counted.\<close>

definition limited_request :: "string \<Rightarrow> nat \<Rightarrow> int \<Rightarrow> int \<Rightarrow> nat \<times> d1 \<Rightarrow> nat \<times> d1" where
  "limited_request key limit windowSeconds now s =
     (case s of (allowed, db) \<Rightarrow>
        if rateLimitWait db key limit windowSeconds now > 0 then (allowed, db)
        else (Suc allowed, recordRateLimitHit db key windowSeconds now))"

lemma rate_limit_step:
  assumes "tbl_lookup la_identifier key (login_attempts db) = Some r" and "la_identifier r = key"
    and "la_last_failed_at r = start" and "la_failed_count r \<le> limit" and "now < start + w"
  shows "limited_request key limit w now (a, db) =
    (if la_failed_count r = limit then (a, db)
     else (Suc a, db\<lparr>login_attempts := tbl_upsert la_identifier (r\<lparr>la_failed_count := la_failed_count r + 1\<rparr>) (login_attempts db)\<rparr>))"
  using assms by (auto simp: limited_request_def rateLimitWait_def recordRateLimitHit_def)

lemma rate_limit_window:
  assumes "tbl_lookup la_identifier key (login_attempts db) = Some r" and "la_identifier r = key"
    and "la_last_failed_at r = start" and "la_failed_count r \<le> limit" and "list_all (\<lambda>t. t < start + w) ts"
  shows "fst (run_steps (limited_request key limit w) ts (a, db))
    = a + min (length ts) (limit - la_failed_count r)"
  using assms
proof (induction ts arbitrary: a db r)
  case (Cons t ts)
  show ?case
  proof (cases "la_failed_count r = limit")
    case True
    then have "limited_request key limit w t (a, db) = (a, db)"
      using rate_limit_step [OF Cons.prems(1-4)] Cons.prems(5) by simp
    with Cons.IH [OF Cons.prems(1-4)] Cons.prems(5) True show ?thesis by simp
  next
    case False
    let ?r = "r\<lparr>la_failed_count := la_failed_count r + 1\<rparr>"
    let ?db = "db\<lparr>login_attempts := tbl_upsert la_identifier ?r (login_attempts db)\<rparr>"
    have "limited_request key limit w t (a, db) = (Suc a, ?db)"
      using rate_limit_step [OF Cons.prems(1-4)] Cons.prems(5) False by simp
    moreover have "tbl_lookup la_identifier key (login_attempts ?db) = Some ?r"
      using Cons.prems(2) by (simp add: attempts.lookup_put)
    ultimately show ?thesis
      using Cons.IH [of ?db ?r "Suc a"] Cons.prems False by auto
  qed
qed simp

text \<open>
  The fixed-window limiter lets exactly \<open>limit\<close> requests through in a window, however they
  arrive: of the requests after the one that opened the window and before it closes, the first
  \<open>limit - 1\<close> pass and every other one is refused.
\<close>

theorem rate_limit_exact:
  assumes "tbl_lookup la_identifier key (login_attempts db) = None" and "1 \<le> limit"
    and "list_all (\<lambda>t. t < start + w) ts"
  shows "fst (run_steps (limited_request key limit w) (start # ts) (0, db)) = min (Suc (length ts)) limit"
proof -
  let ?r = "\<lparr>la_identifier = key, la_failed_count = 1, la_last_failed_at = start, la_locked_until = 0\<rparr>"
  let ?db = "db\<lparr>login_attempts := tbl_upsert la_identifier ?r (login_attempts db)\<rparr>"
  have "limited_request key limit w start (0, db) = (1, ?db)"
    using assms(1) by (simp add: limited_request_def rateLimitWait_def recordRateLimitHit_def)
  moreover have "tbl_lookup la_identifier key (login_attempts ?db) = Some ?r"
    by (simp add: attempts.lookup_put)
  ultimately show ?thesis using rate_limit_window [of key ?db ?r start limit w ts 1] assms(2,3) by simp
qed

theorem rate_limit_exact_witness:
  "fst (run_steps (limited_request ''enroll:1.2.3.4'' 2 600) (100 # [101, 200, 300]) (0, empty_db)) = min (Suc 3) 2"
proof -
  have "tbl_lookup la_identifier ''enroll:1.2.3.4'' (login_attempts empty_db) = None" by code_simp
  from rate_limit_exact [OF this, of 2 100 600 "[101, 200, 300]"] show ?thesis by simp
qed

subsection \<open>Workstation tokens respect the plan's limit\<close>

definition enrolled :: "d1 \<Rightarrow> string \<Rightarrow> string set" where
  "enrolled db tenantId = set (enrolled_ids db tenantId)"

lemma countEnrolled_card: "countEnrolledWorkstations db tenantId = card (enrolled db tenantId)"
  by (simp add: countEnrolledWorkstations_def enrolled_def length_remdups_card_conv)

lemma enrolled_iff:
  "c \<in> enrolled db t \<longleftrightarrow> (\<exists>d\<in>set (device_tokens db). dt_tenant_id d = t \<and> dt_client_id d = c \<and> \<not> dt_revoked d)"
  by (auto simp: enrolled_def enrolled_ids_def)

lemma createDeviceToken_tokens:
  assumes "createDeviceToken sha db t c limit token new_id now = Some (token, d, db')"
    and "new_id \<notin> dt_id ` set (device_tokens db)"
  shows "device_tokens db' = map (\<lambda>e. if dt_tenant_id e = t \<and> dt_client_id e = c then e\<lparr>dt_revoked := True\<rparr> else e)
      (device_tokens db) @ [d]"
    and "dt_tenant_id d = t" and "dt_client_id d = c" and "\<not> dt_revoked d"
proof -
  have "dt_id e \<noteq> new_id" if "e \<in> set (device_tokens db)" for e using assms(2) that by auto
  then show "device_tokens db' = map (\<lambda>e. if dt_tenant_id e = t \<and> dt_client_id e = c then e\<lparr>dt_revoked := True\<rparr> else e)
      (device_tokens db) @ [d]"
    using assms(1) by (auto simp: createDeviceToken_def Let_def tbl_update_def split: if_splits)
  show "dt_tenant_id d = t" "dt_client_id d = c" "\<not> dt_revoked d"
    using assms(1) by (auto simp: createDeviceToken_def Let_def split: if_splits)
qed

lemma createDeviceToken_enrolled:
  assumes "createDeviceToken sha db t c limit token new_id now = Some (token, d, db')"
    and "new_id \<notin> dt_id ` set (device_tokens db)"
  shows "enrolled db' t' = (if t' = t then insert c (enrolled db t) else enrolled db t')"
proof -
  note new = createDeviceToken_tokens [OF assms]
  define upd where "upd e = (if dt_tenant_id e = t \<and> dt_client_id e = c then e\<lparr>dt_revoked := True\<rparr> else e)" for e :: device_token
  have upd: "dt_tenant_id (upd e) = dt_tenant_id e" "dt_client_id (upd e) = dt_client_id e"
    "dt_revoked (upd e) = (dt_revoked e \<or> dt_tenant_id e = t \<and> dt_client_id e = c)" for e
    by (auto simp: upd_def)
  have tokens: "device_tokens db' = map upd (device_tokens db) @ [d]" using new(1) by (simp add: upd_def)
  have "c' \<in> enrolled db' t' \<longleftrightarrow>
      (c' \<in> enrolled db t' \<and> \<not> (t' = t \<and> c' = c)) \<or> (t' = t \<and> c' = c)" for c'
    unfolding enrolled_iff tokens using new(2-4) by (simp add: upd) blast
  then show ?thesis by auto
qed

text \<open>
  Issuing a workstation's token never takes an organization past its plan's limit: when it
  succeeds exactly that workstation is added to the enrolled ones, so their number grows only while
  it is below the limit; it is refused exactly when the workstation is new and the places are
  taken; and afterwards the new token is the only live one of that workstation.
\<close>

theorem enrolment_within_limit:
  assumes "new_id \<notin> dt_id ` set (device_tokens db)"
  shows "(createDeviceToken sha db t c limit token new_id now = None
           \<longleftrightarrow> c \<notin> enrolled db t \<and> int (card (enrolled db t)) \<ge> limit)
    \<and> (\<forall>d db'. createDeviceToken sha db t c limit token new_id now = Some (token, d, db') \<longrightarrow>
         enrolled db' t = insert c (enrolled db t)
         \<and> int (card (enrolled db' t)) \<le> max limit (int (card (enrolled db t)))
         \<and> filter (\<lambda>d. dt_tenant_id d = t \<and> dt_client_id d = c \<and> \<not> dt_revoked d) (device_tokens db') = [d]
         \<and> (\<forall>t'. t' \<noteq> t \<longrightarrow> enrolled db' t' = enrolled db t'))"
proof -
  have none: "createDeviceToken sha db t c limit token new_id now = None
      \<longleftrightarrow> c \<notin> enrolled db t \<and> int (card (enrolled db t)) \<ge> limit"
    by (auto simp: createDeviceToken_def Let_def countEnrolled_card enrolled_def)
  have some: "enrolled db' t = insert c (enrolled db t)
         \<and> int (card (enrolled db' t)) \<le> max limit (int (card (enrolled db t)))
         \<and> filter (\<lambda>d. dt_tenant_id d = t \<and> dt_client_id d = c \<and> \<not> dt_revoked d) (device_tokens db') = [d]
         \<and> (\<forall>t'. t' \<noteq> t \<longrightarrow> enrolled db' t' = enrolled db t')"
    if h: "createDeviceToken sha db t c limit token new_id now = Some (token, d, db')" for d db'
  proof -
    have e: "enrolled db' t' = (if t' = t then insert c (enrolled db t) else enrolled db t')" for t'
      by (rule createDeviceToken_enrolled [OF h assms])
    have fin: "finite (enrolled db t)" by (simp add: enrolled_def)
    from h none have "c \<in> enrolled db t \<or> int (card (enrolled db t)) < limit" by auto
    then have "int (card (insert c (enrolled db t))) \<le> max limit (int (card (enrolled db t)))"
      using fin by (auto simp: card_insert_if)
    moreover have "filter (\<lambda>d. dt_tenant_id d = t \<and> dt_client_id d = c \<and> \<not> dt_revoked d) (device_tokens db') = [d]"
      using createDeviceToken_tokens [OF h assms] by (auto simp: filter_empty_conv)
    ultimately show ?thesis using e by simp
  qed
  from none some show ?thesis by blast
qed

theorem enrolment_within_limit_witness:
  "createDeviceToken id empty_db ''t'' ''PC-01'' 0 ''secret'' ''id1'' 5 = None"
proof -
  have h: "''id1'' \<notin> dt_id ` set (device_tokens empty_db)" by (simp add: empty_db_def)
  have "''PC-01'' \<notin> enrolled empty_db ''t'' \<and> int (card (enrolled empty_db ''t'')) \<ge> 0"
    by (simp add: enrolled_def enrolled_ids_def empty_db_def)
  then show ?thesis using enrolment_within_limit [OF h, of id "''t''" "''PC-01''" 0 "''secret''" 5] by blast
qed

subsection \<open>Sessions\<close>

text \<open>
  A digest separates a token from the tokens in play when no stored row can be reached under the
  digest of that token by accident: no stored key equals the digest of another token's name, and no
  stored plain token equals a digest.
\<close>

definition no_clash :: "(string \<Rightarrow> string) \<Rightarrow> d1 \<Rightarrow> string \<Rightarrow> bool" where
  "no_clash sha db token = (\<forall>r\<in>set (sessions db). se_token r \<noteq> sessionKey sha token \<and> se_token r \<noteq> token)"

lemma getSession_fst:
  "fst (getSession sha db token now) = map_option
     (\<lambda>r. \<lparr>se_token = token, se_user_id = se_user_id r, se_tenant_id = se_tenant_id r, se_role = se_role r,
           se_expires_at = se_expires_at r\<rparr>)
     (find (\<lambda>r. session_match sha token r \<and> se_expires_at r > now) (sessions db))"
  by (auto simp: getSession_def split: option.splits)

lemma find_append: "find P (xs @ ys) = (case find P xs of None \<Rightarrow> find P ys | Some x \<Rightarrow> Some x)"
  by (induction xs) auto

lemma find_cong_all: "(\<And>x. x \<in> set xs \<Longrightarrow> P x = Q x) \<Longrightarrow> find P xs = find Q xs"
  by (induction xs) auto

text \<open>
  C7. The life of a session: once created it is found under its token until it expires, with the
  user, organization and role it was created for; it is gone after sign-out and after the user's
  sessions are dropped, but the one kept by a password change stays.
\<close>

theorem session_lifecycle:
  assumes "createSession sha db s = Some db'" and "no_clash sha db (se_token s)" and "se_token s \<noteq> []"
  shows "fst (getSession sha db' (se_token s) now) = (if se_expires_at s > now then Some s else None)
    \<and> fst (getSession sha (deleteSession sha db' (se_token s)) (se_token s) now) = None
    \<and> fst (getSession sha (deleteSessionsForUser sha db' (se_user_id s) None) (se_token s) now) = None
    \<and> fst (getSession sha (deleteSessionsForUser sha db' (se_user_id s) (Some (se_token s))) (se_token s) now)
        = (if se_expires_at s > now then Some s else None)"
proof -
  let ?row = "session_row_of s (sessionKey sha (se_token s))"
  have db': "sessions db' = sessions db @ [?row]"
    using assms(1) by (auto simp: createSession_def Let_def split: if_splits)
  have old: "\<not> session_match sha (se_token s) r" if "r \<in> set (sessions db)" for r
    using assms(2) that by (auto simp: no_clash_def session_match_def)
  have new: "session_match sha (se_token s) ?row" by (simp add: session_match_def session_row_of_def)
  have nowhere: "find (\<lambda>r. session_match sha (se_token s) r \<and> P r) xs = None"
    if "set xs \<subseteq> set (sessions db)" for xs P
    using old that by (auto simp: find_None_iff_all)
  have s: "\<lparr>se_token = se_token s, se_user_id = se_user_id ?row, se_tenant_id = se_tenant_id ?row,
      se_role = se_role ?row, se_expires_at = se_expires_at ?row\<rparr> = s"
    by (simp add: session_row_of_def)
  have exp: "se_expires_at ?row = se_expires_at s" and usr: "se_user_id ?row = se_user_id s"
    by (simp_all add: session_row_of_def)
  have get: "fst (getSession sha d (se_token s) now) = (if se_expires_at s > now then Some s else None)"
    if "sessions d = xs @ [?row]" "set xs \<subseteq> set (sessions db)" for d xs
    using that nowhere new s by (simp add: getSession_fst find_append exp)
  have gone: "fst (getSession sha d (se_token s) now) = None" if "set (sessions d) \<subseteq> set (sessions db)" for d
    using nowhere [OF that] by (simp add: getSession_fst)
  have "sessions (deleteSession sha db' (se_token s)) = filter (\<lambda>r. \<not> session_match sha (se_token s) r) (sessions db)"
    using new by (simp add: deleteSession_def db')
  then have out: "fst (getSession sha (deleteSession sha db' (se_token s)) (se_token s) now) = None"
    by (intro gone) auto
  have "sessions (deleteSessionsForUser sha db' (se_user_id s) None) = filter (\<lambda>r. se_user_id r \<noteq> se_user_id s) (sessions db)"
    by (simp add: deleteSessionsForUser_def db' usr)
  then have dropped: "fst (getSession sha (deleteSessionsForUser sha db' (se_user_id s) None) (se_token s) now) = None"
    by (intro gone) auto
  have "sessions (deleteSessionsForUser sha db' (se_user_id s) (Some (se_token s)))
      = filter (\<lambda>r. \<not> (se_user_id r = se_user_id s \<and> \<not> session_match sha (se_token s) r)) (sessions db) @ [?row]"
    using new by (simp add: deleteSessionsForUser_def db' assms(3))
  then have "fst (getSession sha (deleteSessionsForUser sha db' (se_user_id s) (Some (se_token s))) (se_token s) now)
      = (if se_expires_at s > now then Some s else None)"
    by (rule get) auto
  with out dropped get [OF db' subset_refl] show ?thesis by blast
qed

theorem session_lifecycle_witness:
  "\<exists>db'. createSession id empty_db \<lparr>se_token = ''tok'', se_user_id = ''u'', se_tenant_id = None, se_role = Org_admin, se_expires_at = 50\<rparr> = Some db'
     \<and> fst (getSession id db' ''tok'' 49) = Some \<lparr>se_token = ''tok'', se_user_id = ''u'', se_tenant_id = None, se_role = Org_admin, se_expires_at = 50\<rparr>
     \<and> fst (getSession id (deleteSession id db' ''tok'') ''tok'' 49) = None"
proof -
  let ?s = "\<lparr>se_token = ''tok'', se_user_id = ''u'', se_tenant_id = None, se_role = Org_admin, se_expires_at = 50\<rparr> :: session"
  obtain db' where c: "createSession id empty_db ?s = Some db'"
    by (simp add: createSession_def empty_db_def tbl_lookup_def)
  have n: "no_clash id empty_db (se_token ?s)" by (simp add: no_clash_def empty_db_def)
  from c session_lifecycle [OF c n, of 49] show ?thesis by simp
qed

text \<open>No plain token waiting to be rehashed shares its digest with \<open>token\<close>.\<close>

definition separates :: "(string \<Rightarrow> string) \<Rightarrow> d1 \<Rightarrow> string \<Rightarrow> bool" where
  "separates sha db token =
     (\<forall>r\<in>set (sessions db). \<not> se_hashed r \<longrightarrow> sessionKey sha (se_token r) = sessionKey sha token \<longrightarrow> se_token r = token)"

lemma rehash_row_match:
  "(sessionKey sha t' = sessionKey sha token \<longrightarrow> t' = token) \<Longrightarrow>
   session_match sha token (rehash_row sha t' r) = session_match sha token r"
  by (auto simp: rehash_row_def session_match_def)

lemma rehash_row_fields [simp]:
  "se_user_id (rehash_row sha t r) = se_user_id r" "se_tenant_id (rehash_row sha t r) = se_tenant_id r"
  "se_role (rehash_row sha t r) = se_role r" "se_expires_at (rehash_row sha t r) = se_expires_at r"
  by (simp_all add: rehash_row_def)

lemma find_map: "find P (map f xs) = map_option f (find (\<lambda>x. P (f x)) xs)"
  by (induction xs) auto

lemma getSession_rehash:
  assumes "sessionKey sha t' = sessionKey sha token \<longrightarrow> t' = token"
  shows "fst (getSession sha (db\<lparr>sessions := map (rehash_row sha t') (sessions db)\<rparr>) token now)
    = fst (getSession sha db token now)"
  using assms by (simp add: getSession_fst find_map rehash_row_match option.map_comp comp_def)

lemma getSession_rehash_all:
  assumes "\<And>r. r \<in> set rs \<Longrightarrow> sessionKey sha (se_token r) = sessionKey sha token \<longrightarrow> se_token r = token"
  shows "fst (getSession sha (db\<lparr>sessions := fold (\<lambda>r. map (rehash_row sha (se_token r))) rs (sessions db)\<rparr>) token now)
    = fst (getSession sha db token now)"
  using assms
proof (induction rs arbitrary: db)
  case (Cons r rs)
  let ?db = "db\<lparr>sessions := map (rehash_row sha (se_token r)) (sessions db)\<rparr>"
  have "fst (getSession sha (?db\<lparr>sessions := fold (\<lambda>r. map (rehash_row sha (se_token r))) rs (sessions ?db)\<rparr>) token now)
      = fst (getSession sha ?db token now)"
    using Cons.prems by (intro Cons.IH) auto
  also have "\<dots> = fst (getSession sha db token now)"
    using Cons.prems by (intro getSession_rehash) auto
  finally show ?case by simp
qed simp



end
