(* ===== verification/Calendar.thy ===== *)
theory Calendar
  imports Prelude
begin

text \<open>
  The part of ECMAScript's \<open>Date\<close> the program uses, in UTC: days since 1970-01-01 to a civil date and
  back (the specification's \<open>DayFromYear\<close>, \<open>MakeDay\<close> and \<open>YearFromTime\<close>), and the fields of a time in
  seconds. Months count from 0, as in the source. The year of a day is found by counting up from a
  year that starts no later; that it is the right one is \<open>year_of_day_eq\<close>.
\<close>

definition leap :: "int \<Rightarrow> bool" where
  "leap y = (4 dvd y \<and> (\<not> 100 dvd y \<or> 400 dvd y))"

definition day_from_year :: "int \<Rightarrow> int" where
  "day_from_year y = 365 * (y - 1970) + (y - 1969) div 4 - (y - 1901) div 100 + (y - 1601) div 400"

definition month_len :: "int \<Rightarrow> nat \<Rightarrow> int" where
  "month_len y m = (if m = 1 then (if leap y then 29 else 28) else if m \<in> {3, 5, 8, 10} then 30 else 31)"

fun month_start :: "int \<Rightarrow> nat \<Rightarrow> int" where
  "month_start y 0 = 0"
| "month_start y (Suc m) = month_start y m + month_len y m"

definition day_of_civil :: "int \<Rightarrow> nat \<Rightarrow> int \<Rightarrow> int" where
  "day_of_civil y m d = day_from_year y + month_start y m + d - 1"

text \<open>\<open>MakeDay\<close>: a month outside 0 to 11 carries into the year.\<close>

definition make_day :: "int \<Rightarrow> int \<Rightarrow> int \<Rightarrow> int" where
  "make_day y m d = day_of_civil (y + m div 12) (nat (m mod 12)) d"

lemma div_step:
  assumes "1 < n"
  shows "((x::int) + 1) div n = x div n + (if n dvd (x + 1) then 1 else 0)"
proof -
  have split: "(x + 1) div n = x div n + (x mod n + 1) div n"
    using assms div_add1_eq [of x 1 n] by simp
  have range: "0 \<le> x mod n" "x mod n < n" using assms by auto
  have "(x + 1) mod n = (x mod n + 1) mod n" by (rule mod_add_left_eq [symmetric])
  then have dvd: "n dvd (x + 1) \<longleftrightarrow> (x mod n + 1) mod n = 0" by (simp add: dvd_eq_mod_eq_0)
  show ?thesis
  proof (cases "x mod n + 1 = n")
    case True
    with assms have "(x mod n + 1) div n = 1" "(x mod n + 1) mod n = 0" by simp_all
    then show ?thesis using split dvd by simp
  next
    case False
    with range have "x mod n + 1 < n" by linarith
    then have "(x mod n + 1) div n = 0" "(x mod n + 1) mod n \<noteq> 0" using range by simp_all
    then show ?thesis using split dvd by simp
  qed
qed

lemma dvd_diff_shift: "n dvd c \<Longrightarrow> n dvd (y - c) \<longleftrightarrow> n dvd (y :: int)"
  by (metis dvd_diff_left_iff)

lemma leap_arith:
  fixes a b e y :: int
  shows "(h \<longrightarrow> c) \<Longrightarrow> (c \<longrightarrow> f) \<Longrightarrow>
    365 * (y + 1 - 1970) + (a + (if f then 1 else 0)) - (b + (if c then 1 else 0)) + (e + (if h then 1 else 0))
    = 365 * (y - 1970) + a - b + e + (if f \<and> (\<not> c \<or> h) then 366 else 365)"
  by (cases f; cases c; cases h) simp_all

lemma day_from_year_Suc: "day_from_year (y + 1) = day_from_year y + (if leap y then 366 else 365)"
proof -
  have q4: "(y + 1 - 1969) div 4 = (y - 1969) div 4 + (if 4 dvd y then 1 else 0)"
    using div_step [of 4 "y - 1969"] dvd_diff_shift [of 4 1968 y] by simp
  have q100: "(y + 1 - 1901) div 100 = (y - 1901) div 100 + (if 100 dvd y then 1 else 0)"
    using div_step [of 100 "y - 1901"] dvd_diff_shift [of 100 1900 y] by simp
  have q400: "(y + 1 - 1601) div 400 = (y - 1601) div 400 + (if 400 dvd y then 1 else 0)"
    using div_step [of 400 "y - 1601"] dvd_diff_shift [of 400 1600 y] by simp
  have "400 dvd y \<longrightarrow> 100 dvd y" using dvd_trans [of 100 400 y] by simp
  moreover have "100 dvd y \<longrightarrow> 4 dvd y" using dvd_trans [of 4 100 y] by simp
  ultimately show ?thesis unfolding day_from_year_def leap_def q4 q100 q400 by (rule leap_arith)
qed

lemma month_start_12: "month_start y 12 = (if leap y then 366 else 365)"
  by (simp add: numeral_eq_Suc month_len_def)

lemma month_len_bounds: "28 \<le> month_len y m" "month_len y m \<le> 31"
  by (auto simp: month_len_def)

lemma day_from_year_mono_nat: "day_from_year (y + int n) \<ge> day_from_year y + 365 * int n"
proof (induction n)
  case (Suc n)
  have "day_from_year (y + int (Suc n)) \<ge> day_from_year (y + int n) + 365"
    using day_from_year_Suc [of "y + int n"] by (simp add: algebra_simps)
  with Suc show ?case by simp
qed simp

lemma day_from_year_mono: "y \<le> z \<Longrightarrow> day_from_year y + 365 * (z - y) \<le> day_from_year z"
  using day_from_year_mono_nat [of y "nat (z - y)"] by simp

lemma day_from_year_less: "y < z \<longleftrightarrow> day_from_year y < day_from_year z"
  using day_from_year_mono [of y z] day_from_year_mono [of z y] by (cases "y < z"; cases "y = z") auto

subsection \<open>The year of a day\<close>

function year_up :: "int \<Rightarrow> int \<Rightarrow> int" where
  "year_up y n = (if day_from_year (y + 1) \<le> n then year_up (y + 1) n else y)"
  by pat_completeness auto
termination
proof (relation "measure (\<lambda>(y, n). nat (n - day_from_year y + 1))")
  fix y n :: int
  assume "day_from_year (y + 1) \<le> n"
  moreover have "day_from_year y < day_from_year (y + 1)" by (simp add: day_from_year_Suc)
  ultimately show "((y + 1, n), (y, n)) \<in> measure (\<lambda>(y, n). nat (n - day_from_year y + 1))" by simp
qed simp

declare year_up.simps [simp del]

definition year_of_day :: "int \<Rightarrow> int" where
  "year_of_day n = year_up (if n < 0 then 1969 + n div 365 else 1970 + n div 366) n"

lemma year_up_correct:
  "day_from_year y \<le> n \<Longrightarrow> day_from_year (year_up y n) \<le> n \<and> n < day_from_year (year_up y n + 1)"
proof (induction y n rule: year_up.induct)
  case (1 y n)
  then show ?case by (cases "day_from_year (y + 1) \<le> n") (simp_all add: year_up.simps [of y n])
qed

lemma day_from_year_upper_nat: "day_from_year (y + int k) \<le> day_from_year y + 366 * int k"
proof (induction k)
  case (Suc k)
  have "day_from_year (y + int (Suc k)) \<le> day_from_year (y + int k) + 366"
    using day_from_year_Suc [of "y + int k"] by (simp add: algebra_simps)
  with Suc show ?case by simp
qed simp

lemma day_from_year_1970: "day_from_year 1970 = 0"
  by (simp add: day_from_year_def)

lemma year_of_day_start: "day_from_year (if n < 0 then 1969 + n div 365 else 1970 + n div 366) \<le> n"
proof (cases "n < 0")
  case True
  define k where "k = nat (- (n div 365) + 1)"
  have neg: "n div 365 < 0" using True by (simp add: pos_imp_zdiv_neg_iff)
  then have "1969 + n div 365 + int k = 1970" by (simp add: k_def)
  with day_from_year_mono_nat [of "1969 + n div 365" k]
  have "day_from_year (1969 + n div 365) + 365 * int k \<le> 0" by (simp add: day_from_year_1970)
  moreover have "365 * (n div 365) \<le> n" by simp
  ultimately show ?thesis using True neg by (simp add: k_def)
next
  case False
  then have "0 \<le> n div 366" by (simp add: pos_imp_zdiv_nonneg_iff)
  with day_from_year_upper_nat [of 1970 "nat (n div 366)"]
  have "day_from_year (1970 + n div 366) \<le> 366 * (n div 366)" by (simp add: day_from_year_1970)
  also have "\<dots> \<le> n" by simp
  finally show ?thesis using False by simp
qed

lemma year_of_day_bounds: "day_from_year (year_of_day n) \<le> n \<and> n < day_from_year (year_of_day n + 1)"
  unfolding year_of_day_def by (rule year_up_correct) (rule year_of_day_start)

lemma year_of_day_eq:
  assumes "day_from_year y \<le> n" and "n < day_from_year (y + 1)"
  shows "year_of_day n = y"
proof -
  have "y < year_of_day n + 1" using year_of_day_bounds [of n] assms(1) day_from_year_less by (meson order_le_less_trans)
  moreover have "year_of_day n < y + 1" using year_of_day_bounds [of n] assms(2) day_from_year_less by (meson order_le_less_trans)
  ultimately show ?thesis by simp
qed

subsection \<open>The month and the day of the month\<close>

fun month_scan :: "nat \<Rightarrow> int \<Rightarrow> nat \<Rightarrow> int \<Rightarrow> nat \<times> int" where
  "month_scan 0 y m r = (m, r)"
| "month_scan (Suc left) y m r =
     (if month_len y m \<le> r then month_scan left y (Suc m) (r - month_len y m) else (m, r))"

text \<open>The civil date of a day: year, month from 0, day of the month from 1.\<close>

definition civil_of_day :: "int \<Rightarrow> int \<times> nat \<times> int" where
  "civil_of_day n =
     (let y = year_of_day n; (m, r) = month_scan 11 y 0 (n - day_from_year y) in (y, m, r + 1))"

definition valid_civil :: "int \<Rightarrow> nat \<Rightarrow> int \<Rightarrow> bool" where
  "valid_civil y m d = (m < 12 \<and> 1 \<le> d \<and> d \<le> month_len y m)"

lemma month_start_mono: "m \<le> m' \<Longrightarrow> month_start y m + 28 * int (m' - m) \<le> month_start y m'"
proof (induction m')
  case (Suc m')
  then show ?case using month_len_bounds(1) [of y m'] by (cases "m \<le> m'") (auto simp: Suc_diff_le le_Suc_eq)
qed simp

lemma month_start_less_12: "m < 12 \<Longrightarrow> month_start y (Suc m) \<le> month_start y 12"
  using month_start_mono [of "Suc m" 12 y] by simp

lemma month_scan_correct:
  assumes "0 \<le> r" and "r < month_start y (Suc (m + left)) - month_start y m"
  shows "case month_scan left y m r of (m', r') \<Rightarrow>
    m' \<le> m + left \<and> 0 \<le> r' \<and> r' < month_len y m' \<and> month_start y m' + r' = month_start y m + r"
  using assms
proof (induction left arbitrary: m r)
  case (Suc left)
  show ?case
  proof (cases "month_len y m \<le> r")
    case True
    with Suc.prems Suc.IH [of "r - month_len y m" "Suc m"] show ?thesis by auto
  next
    case False
    with Suc.prems show ?thesis by simp
  qed
qed simp

lemma civil_of_day_correct:
  assumes "civil_of_day n = (y, m, d)"
  shows "valid_civil y m d" and "day_of_civil y m d = n"
proof -
  let ?y = "year_of_day n"
  let ?r = "n - day_from_year ?y"
  have "0 \<le> ?r" "?r < month_start ?y 12 - month_start ?y 0"
    using year_of_day_bounds [of n] by (simp_all add: month_start_12 day_from_year_Suc)
  then have "case month_scan 11 ?y 0 ?r of (m', r') \<Rightarrow>
      m' \<le> 0 + 11 \<and> 0 \<le> r' \<and> r' < month_len ?y m' \<and> month_start ?y m' + r' = month_start ?y 0 + ?r"
    by (intro month_scan_correct) (simp_all add: eval_nat_numeral)
  then show "valid_civil y m d" "day_of_civil y m d = n"
    using assms by (auto simp: civil_of_day_def Let_def valid_civil_def day_of_civil_def split: prod.splits)
qed

lemma day_of_civil_inject:
  assumes "valid_civil y m d" and "valid_civil y' m' d'" and "day_of_civil y m d = day_of_civil y' m' d'"
  shows "y = y' \<and> m = m' \<and> d = d'"
proof -
  have within: "day_from_year z \<le> day_of_civil z k e \<and> day_of_civil z k e < day_from_year (z + 1)"
    if "valid_civil z k e" for z k e
  proof -
    have "month_start z k + e \<le> month_start z (Suc k)" using that by (simp add: valid_civil_def)
    also have "\<dots> \<le> month_start z 12" using that by (intro month_start_less_12) (simp add: valid_civil_def)
    finally show ?thesis
      using that month_start_mono [of 0 k z] by (auto simp: day_of_civil_def valid_civil_def day_from_year_Suc month_start_12)
  qed
  have yy: "y = y'"
    using year_of_day_eq within [OF assms(1)] within [OF assms(2)] assms(3) by metis
  have less: "month_start y k + e < month_start y k' + e'"
    if "k < k'" "e \<le> month_len y k" "1 \<le> e'" for k k' e e'
    using that month_start_mono [of "Suc k" k' y] by simp
  have eq: "month_start y m + d = month_start y m' + d'" using assms(3) yy by (simp add: day_of_civil_def)
  have "m = m'"
    using less [of m m' d d'] less [of m' m d' d] assms(1,2) eq yy
    by (cases m m' rule: linorder_cases) (auto simp: valid_civil_def)
  with yy assms(3) show ?thesis by (simp add: day_of_civil_def)
qed

lemma civil_of_day_of_civil:
  assumes "valid_civil y m d"
  shows "civil_of_day (day_of_civil y m d) = (y, m, d)"
proof -
  obtain y' m' d' where c: "civil_of_day (day_of_civil y m d) = (y', m', d')" by (metis prod_cases3)
  from day_of_civil_inject [OF assms civil_of_day_correct(1) [OF c]] civil_of_day_correct(2) [OF c] c
  show ?thesis by simp
qed

end
