(* ===== verification/License.thy ===== *)
theory License
  imports Calendar Store
begin

text \<open>
  The licence an organization runs under (\<open>src/cloudflare-control/src/license.ts\<close>) and what its plan
  entitles it to (the first half of \<open>plans.ts\<close>): plan and end date, entitlement, trial, price.
  Times are Unix seconds. The default \<open>now = Math.floor(Date.now() / 1000)\<close> is the argument \<open>now\<close>.
\<close>

datatype license_plan = Education | Evaluation | Subscriber | Commercial

definition LICENSE_PLANS :: "(string \<times> license_plan \<times> string) list" where
  "LICENSE_PLANS =
     [(''education'', Education, ''Education''), (''evaluation'', Evaluation, ''Trial''),
      (''subscriber'', Subscriber, ''Subscription''), (''commercial'', Commercial, ''Custom'')]"

definition LICENSE_REMINDER_DAYS :: int where
  "LICENSE_REMINDER_DAYS = 30"

definition DAY :: int where
  "DAY = 86400"

text \<open>The stored text read as a plan; \<open>None\<close> where \<open>isLicensePlan\<close> is false.\<close>

definition isLicensePlan :: "string option \<Rightarrow> license_plan option" where
  "isLicensePlan v = (case v of None \<Rightarrow> None | Some s \<Rightarrow> map_option fst (map_of LICENSE_PLANS s))"

definition licensePlanLabel :: "license_plan option \<Rightarrow> string" where
  "licensePlanLabel plan =
     (case plan of None \<Rightarrow> ''Free''
      | Some p \<Rightarrow> (case find (\<lambda>(i, q, l). q = p) LICENSE_PLANS of None \<Rightarrow> ''Free'' | Some (i, q, l) \<Rightarrow> l))"

subsection \<open>Dates\<close>

text \<open>\<open>Date.UTC\<close> reads the years 0 to 99 as 1900 to 1999.\<close>

definition utc_year :: "int \<Rightarrow> int" where
  "utc_year y = (if 0 \<le> y \<and> y \<le> 99 then 1900 + y else y)"

definition date_shape :: "string \<Rightarrow> bool" where
  "date_shape s = (length s = 10 \<and> s ! 4 = CHR ''-'' \<and> s ! 7 = CHR ''-''
     \<and> list_all is_digit (take 4 s) \<and> list_all is_digit (slice 5 7 s) \<and> list_all is_digit (drop 8 s))"

definition parseLicenseDate :: "string \<Rightarrow> int option" where
  "parseLicenseDate s =
     (if \<not> date_shape s then None
      else let year = int (read_nat (take 4 s)); month = int (read_nat (slice 5 7 s)); day = int (read_nat (drop 8 s));
               n = make_day (utc_year year) (month - 1) day;
               (y, m, d) = civil_of_day n
           in if y \<noteq> year \<or> int m \<noteq> month - 1 \<or> d \<noteq> day then None else Some (n * DAY))"

text \<open>The year of \<open>toISOString\<close>: four digits, or a sign and six outside 0 to 9999.\<close>

definition iso_year :: "int \<Rightarrow> string" where
  "iso_year y =
     (if 0 \<le> y \<and> y \<le> 9999 then padStart 4 CHR ''0'' (show_nat (nat y))
      else (if y < 0 then ''-'' else ''+'') @ padStart 6 CHR ''0'' (show_nat (nat \<bar>y\<bar>)))"

definition two_digits :: "nat \<Rightarrow> string" where
  "two_digits n = padStart 2 CHR ''0'' (show_nat n)"

definition licenseDate :: "int \<Rightarrow> string" where
  "licenseDate seconds =
     (case civil_of_day (seconds div DAY) of (y, m, d) \<Rightarrow>
        take 10 (iso_year y @ ''-'' @ two_digits (m + 1) @ ''-'' @ two_digits (nat d) @ ''T''))"

subsection \<open>The state of a licence\<close>

record license_state =
  ls_plan :: "license_plan option"
  ls_expiresAt :: "int option"
  ls_expired :: bool
  ls_endingSoon :: bool

definition licenseState :: "tenant \<Rightarrow> int \<Rightarrow> license_state" where
  "licenseState t now =
     (let expiresAt = tn_license_expires_at t;
          expired = (case expiresAt of None \<Rightarrow> False | Some e \<Rightarrow> e \<le> now);
          endingSoon = (case expiresAt of None \<Rightarrow> False
            | Some e \<Rightarrow> \<not> expired \<and> e - now \<le> LICENSE_REMINDER_DAYS * DAY)
      in \<lparr>ls_plan = isLicensePlan (tn_license_plan t), ls_expiresAt = expiresAt, ls_expired = expired,
          ls_endingSoon = endingSoon\<rparr>)"

definition licenseExpiredMessage :: "tenant \<Rightarrow> int \<Rightarrow> string option" where
  "licenseExpiredMessage t now =
     (let st = licenseState t now in
      if \<not> ls_expired st then None
      else case ls_expiresAt st of None \<Rightarrow> None
        | Some e \<Rightarrow> Some (''The '' @ licensePlanLabel (ls_plan st) @ '' plan of '' @ tn_name t @ '' ended on ''
            @ licenseDate e @ '', and it is on the Free plan now. Renew it under Plan in the console to use Remote Control again.''))"

subsection \<open>Prices and entitlement (plans.ts)\<close>

record pricing =
  pr_monthly :: int
  pr_yearly :: int
  pr_extraMonthly :: int
  pr_extraYearly :: int
  pr_gstPercent :: int
  pr_includedWorkstations :: int
  pr_salesAbove :: int
  pr_freeWorkstations :: int
  pr_trialDays :: int
  pr_educationWorkstations :: int
  pr_educationDays :: int

definition PRICING :: pricing where
  "PRICING = \<lparr>pr_monthly = 1999, pr_yearly = 19990, pr_extraMonthly = 39, pr_extraYearly = 390,
     pr_gstPercent = 18, pr_includedWorkstations = 45, pr_salesAbove = 200, pr_freeWorkstations = 5,
     pr_trialDays = 15, pr_educationWorkstations = 45, pr_educationDays = 365\<rparr>"

datatype plan_kind = Free | Trial | Subscription | Education_plan | Custom

definition KIND_OF :: "license_plan \<Rightarrow> plan_kind" where
  "KIND_OF p = (case p of Evaluation \<Rightarrow> Trial | Subscriber \<Rightarrow> Subscription | Education \<Rightarrow> Education_plan
     | Commercial \<Rightarrow> Custom)"

definition PLAN_LABELS :: "plan_kind \<Rightarrow> string" where
  "PLAN_LABELS k = (case k of Free \<Rightarrow> ''Free'' | Trial \<Rightarrow> ''Trial'' | Subscription \<Rightarrow> ''Subscription''
     | Education_plan \<Rightarrow> ''Education'' | Custom \<Rightarrow> ''Custom'')"

record entitlement =
  en_kind :: plan_kind
  en_label :: string
  en_limit :: int
  en_expiresAt :: "int option"
  en_lapsed :: bool
  en_lapsedFrom :: "plan_kind option"
  en_endingSoon :: bool

definition entitlement :: "tenant \<Rightarrow> int \<Rightarrow> entitlement" where
  "entitlement t now =
     (let st = licenseState t now;
          stored = (if tn_workstation_limit t \<noteq> 0 then tn_workstation_limit t else pr_freeWorkstations PRICING)
      in case ls_plan st of
           None \<Rightarrow> \<lparr>en_kind = Free, en_label = PLAN_LABELS Free, en_limit = stored, en_expiresAt = None,
             en_lapsed = False, en_lapsedFrom = None, en_endingSoon = False\<rparr>
         | Some p \<Rightarrow>
             if ls_expired st
             then \<lparr>en_kind = Free, en_label = PLAN_LABELS Free, en_limit = min stored (pr_freeWorkstations PRICING),
               en_expiresAt = ls_expiresAt st, en_lapsed = True, en_lapsedFrom = Some (KIND_OF p),
               en_endingSoon = False\<rparr>
             else \<lparr>en_kind = KIND_OF p, en_label = PLAN_LABELS (KIND_OF p), en_limit = stored,
               en_expiresAt = ls_expiresAt st, en_lapsed = False, en_lapsedFrom = None,
               en_endingSoon = ls_endingSoon st\<rparr>)"

definition trialRefusal :: "tenant \<Rightarrow> int \<Rightarrow> string option" where
  "trialRefusal t now =
     (if (case tn_trial_started_at t of None \<Rightarrow> False | Some s \<Rightarrow> s \<noteq> 0)
      then Some ''This organization has already had its free trial''
      else if en_kind (entitlement t now) \<noteq> Free
      then Some ''The trial is for organizations on the Free plan'' else None)"

record quote =
  qt_period :: billing_period
  qt_extraWorkstations :: int
  qt_workstations :: int
  qt_base :: int
  qt_extras :: int
  qt_subtotal :: int
  qt_gst :: int
  qt_total :: int

definition MAX_ONLINE_EXTRA :: int where
  "MAX_ONLINE_EXTRA = pr_salesAbove PRICING - pr_includedWorkstations PRICING"

text \<open>\<open>Math.round(x / 100)\<close> rounds half up.\<close>

definition quote :: "billing_period \<Rightarrow> int \<Rightarrow> quote" where
  "quote period extraWorkstations =
     (let base = (if period = Month then pr_monthly PRICING else pr_yearly PRICING) * 100;
          extras = extraWorkstations * (if period = Month then pr_extraMonthly PRICING else pr_extraYearly PRICING) * 100;
          subtotal = base + extras;
          gst = (subtotal * pr_gstPercent PRICING + 50) div 100
      in \<lparr>qt_period = period, qt_extraWorkstations = extraWorkstations,
          qt_workstations = pr_includedWorkstations PRICING + extraWorkstations,
          qt_base = base, qt_extras = extras, qt_subtotal = subtotal, qt_gst = gst, qt_total = subtotal + gst\<rparr>)"

definition parseQuoteInput :: "json \<Rightarrow> string + quote" where
  "parseQuoteInput body =
     (if field body ''period'' \<noteq> JStr ''month'' \<and> field body ''period'' \<noteq> JStr ''year''
      then Inl ''Choose monthly or yearly''
      else let extra = (if field body ''extraWorkstations'' = JUndefined then JInt 0 else field body ''extraWorkstations'')
           in case extra of
                JInt n \<Rightarrow>
                  if n < 0 then Inl ''Extra workstations must be a whole number, 0 or more''
                  else if n > MAX_ONLINE_EXTRA then Inl ''For more than 200 workstations, contact sales''
                  else Inr (quote (if field body ''period'' = JStr ''month'' then Month else Year) n)
              | _ \<Rightarrow> Inl ''Extra workstations must be a whole number, 0 or more'')"

lemmas license_defs = LICENSE_PLANS_def LICENSE_REMINDER_DAYS_def DAY_def PRICING_def

subsection \<open>Decimal texts of a fixed width\<close>

lemma read_nat_snoc: "read_nat (s @ [c]) = 10 * read_nat s + digit_value c"
  by (simp add: read_nat_def)

lemma digits_show_nat: "list_all is_digit (show_nat n)"
  by (induction n rule: show_nat.induct) (subst show_nat.simps, simp)

lemma length_show_nat: "n < 10 ^ Suc k \<Longrightarrow> length (show_nat n) \<le> Suc k"
proof (induction k arbitrary: n)
  case 0
  then show ?case by (simp add: show_nat_small)
next
  case (Suc k)
  then have "n div 10 < 10 ^ Suc k" by (simp add: less_mult_imp_div_less)
  from Suc.IH [OF this] show ?case by (subst show_nat.simps) simp
qed

lemma read_nat_padStart: "read_nat (padStart k CHR ''0'' s) = read_nat s"
proof -
  have "read_nat (replicate j CHR ''0'' @ s) = read_nat s" for j
    by (induction j) (simp_all add: read_nat_def digit_value_def)
  then show ?thesis by (simp add: padStart_def)
qed

lemma length_padStart: "length s \<le> k \<Longrightarrow> length (padStart k c s) = k"
  by (simp add: padStart_def)

lemma digits_padStart: "list_all is_digit s \<Longrightarrow> list_all is_digit (padStart k CHR ''0'' s)"
  by (auto simp: padStart_def list_all_iff is_digit_def)

lemma read_nat_less: "list_all is_digit s \<Longrightarrow> read_nat s < 10 ^ length s"
proof (induction s rule: rev_induct)
  case (snoc c t)
  then show ?case using digit_value_less [of c] by (simp add: read_nat_snoc)
qed (simp add: read_nat_def)

text \<open>A run of digits is the padded text of its number.\<close>

lemma padStart_read_nat:
  "list_all is_digit s \<Longrightarrow> s \<noteq> [] \<Longrightarrow> padStart (length s) CHR ''0'' (show_nat (read_nat s)) = s"
proof (induction s rule: rev_induct)
  case (snoc c t)
  then have c: "is_digit c" and t: "list_all is_digit t" by auto
  have v: "digit_value c < 10" "digit_char (digit_value c) = c"
    using c by (simp_all add: digit_value_less digit_char_value)
  show ?case
  proof (cases "read_nat t = 0")
    case True
    have "t = replicate (length t) CHR ''0''"
    proof (cases "t = []")
      case False
      with snoc.IH t True have "t = replicate (length t - 1) CHR ''0'' @ [CHR ''0'']"
        by (simp add: padStart_def show_nat_small digit_char_0)
      with False show ?thesis by (metis One_nat_def Suc_diff_1 length_greater_0_conv replicate_append_same replicate_Suc)
    qed simp
    moreover have "show_nat (read_nat (t @ [c])) = [c]"
      using v True by (simp add: read_nat_snoc show_nat_small)
    ultimately show ?thesis by (simp add: padStart_def)
  next
    case False
    then have "show_nat (read_nat (t @ [c])) = show_nat (read_nat t) @ [c]"
      using v by (subst show_nat.simps) (simp add: read_nat_snoc)
    moreover have "t \<noteq> []" using False by (auto simp: read_nat_def)
    ultimately show ?thesis using snoc.IH t by (simp add: padStart_def)
  qed
qed simp

lemma two_digits_facts:
  assumes "n < 100"
  shows "length (two_digits n) = 2" "list_all is_digit (two_digits n)" "read_nat (two_digits n) = n"
  using length_show_nat [of n 1] assms
  by (simp_all add: two_digits_def length_padStart digits_padStart digits_show_nat read_nat_padStart read_show_nat)

lemma iso_year_facts:
  assumes "0 \<le> y" "y \<le> 9999"
  shows "length (iso_year y) = 4" "list_all is_digit (iso_year y)" "read_nat (iso_year y) = nat y"
  using length_show_nat [of "nat y" 3] assms
  by (simp_all add: iso_year_def length_padStart digits_padStart digits_show_nat read_nat_padStart read_show_nat)

lemma date_pieces: "date_shape s \<Longrightarrow> s = take 4 s @ ''-'' @ slice 5 7 s @ ''-'' @ drop 8 s"
proof -
  assume a: "date_shape s"
  then have "length s = 10" by (simp add: date_shape_def)
  then obtain c0 c1 c2 c3 c4 c5 c6 c7 c8 c9 where "s = [c0, c1, c2, c3, c4, c5, c6, c7, c8, c9]"
    by (auto simp: length_Suc_conv eval_nat_numeral)
  with a show ?thesis by (simp add: date_shape_def slice_def)
qed

lemma date_text:
  assumes "length y = 4" "length m = 2" "length d = 2" "list_all is_digit y" "list_all is_digit m" "list_all is_digit d"
    and s: "s = y @ ''-'' @ m @ ''-'' @ d"
  shows "date_shape s" "take 4 s = y" "slice 5 7 s = m" "drop 8 s = d"
  using assms by (simp_all add: date_shape_def slice_def nth_append)

lemma licenseDate_civil:
  assumes "valid_civil y m d" "0 \<le> y" "y \<le> 9999" "0 \<le> r" "r < 86400"
  shows "licenseDate (day_of_civil y m d * 86400 + r) = iso_year y @ ''-'' @ two_digits (m + 1) @ ''-'' @ two_digits (nat d)"
proof -
  have "(day_of_civil y m d * 86400 + r) div DAY = day_of_civil y m d" using assms by (simp add: DAY_def)
  moreover have "nat d < 100" "m + 1 < 100"
    using assms(1) month_len_bounds(2) [of y m] by (auto simp: valid_civil_def)
  ultimately show ?thesis
    using civil_of_day_of_civil [OF assms(1)] iso_year_facts(1) [OF assms(2,3)] two_digits_facts(1)
    by (simp add: licenseDate_def)
qed

lemma day_of_civil_far: "valid_civil y m d \<Longrightarrow> day_of_civil (1900 + y) m d \<noteq> day_of_civil y m d"
  using day_from_year_mono [of y "1900 + y"] month_start_mono [of 0 m "1900 + y"] month_start_mono [of m 12 y]
  by (auto simp: day_of_civil_def valid_civil_def month_start_12 split: if_splits)

lemma parseLicenseDate_sound:
  assumes "parseLicenseDate s = Some t"
  shows "\<exists>y m d. valid_civil y m d \<and> 100 \<le> y \<and> y \<le> 9999 \<and> t = day_of_civil y m d * 86400
    \<and> s = iso_year y @ ''-'' @ two_digits (m + 1) @ ''-'' @ two_digits (nat d)"
proof -
  define year month day where "year = read_nat (take 4 s)" and "month = read_nat (slice 5 7 s)"
    and "day = read_nat (drop 8 s)"
  define n where "n = make_day (utc_year (int year)) (int month - 1) (int day)"
  obtain y m d where c: "civil_of_day n = (y, m, d)" by (metis prod_cases3)
  have shape: "date_shape s" and eqs: "y = int year" "int m = int month - 1" "d = int day" and t: "t = n * 86400"
    using assms c by (auto simp: parseLicenseDate_def Let_def year_def month_def day_def n_def DAY_def split: if_splits)
  have valid: "valid_civil y m d" and n: "day_of_civil y m d = n" by (rule civil_of_day_correct [OF c])+
  have "n = day_of_civil (utc_year y) m d"
    using valid eqs by (simp add: n_def make_day_def valid_civil_def flip: eqs(2))
  then have "utc_year y \<noteq> 1900 + y" using n day_of_civil_far [OF valid] by auto
  then have "100 \<le> y" using eqs by (simp add: utc_year_def split: if_splits)
  have parts: "length (take 4 s) = 4" "length (slice 5 7 s) = 2" "length (drop 8 s) = 2"
    "list_all is_digit (take 4 s)" "list_all is_digit (slice 5 7 s)" "list_all is_digit (drop 8 s)"
    using shape by (simp_all add: date_shape_def slice_def)
  have pad: "padStart (length p) CHR ''0'' (show_nat (read_nat p)) = p" if "list_all is_digit p" "0 < length p" for p
    using that padStart_read_nat by auto
  have "s \<noteq> []" using shape by (auto simp: date_shape_def)
  with parts have "padStart 4 CHR ''0'' (show_nat year) = take 4 s"
    "padStart 2 CHR ''0'' (show_nat month) = slice 5 7 s" "padStart 2 CHR ''0'' (show_nat day) = drop 8 s"
    using pad [of "take 4 s"] pad [of "slice 5 7 s"] pad [of "drop 8 s"]
    by (simp_all add: year_def month_def day_def)
  moreover have mm: "month = Suc m" using eqs by linarith
  moreover have "year < 10 ^ length (take 4 s)" unfolding year_def by (rule read_nat_less) (rule parts)
  then have "year \<le> 9999" using parts(1) by simp
  ultimately have "s = iso_year y @ ''-'' @ two_digits (m + 1) @ ''-'' @ two_digits (nat d)"
    using date_pieces [OF shape] eqs mm by (simp add: iso_year_def two_digits_def)
  moreover have "y \<le> 9999" using \<open>year \<le> 9999\<close> eqs by simp
  ultimately show ?thesis using valid \<open>100 \<le> y\<close> n t by blast
qed

lemma parseLicenseDate_complete:
  assumes "valid_civil y m d" "100 \<le> y" "y \<le> 9999"
  shows "parseLicenseDate (iso_year y @ ''-'' @ two_digits (m + 1) @ ''-'' @ two_digits (nat d)) = Some (day_of_civil y m d * 86400)"
proof -
  let ?s = "iso_year y @ ''-'' @ two_digits (m + 1) @ ''-'' @ two_digits (nat d)"
  have r: "nat d < 100" "m + 1 < 100" "0 \<le> y" "1 \<le> d" "m < 12"
    using assms month_len_bounds(2) [of y m] by (auto simp: valid_civil_def)
  have facts: "date_shape ?s" "take 4 ?s = iso_year y" "slice 5 7 ?s = two_digits (m + 1)" "drop 8 ?s = two_digits (nat d)"
    using r iso_year_facts [OF r(3) assms(3)] two_digits_facts [OF r(1)] two_digits_facts [OF r(2)]
    by (intro date_text [of "iso_year y" "two_digits (m + 1)" "two_digits (nat d)"]; simp)+
  have nums: "int (read_nat (iso_year y)) = y" "int (read_nat (two_digits (m + 1))) - 1 = int m"
      "int (read_nat (two_digits (nat d))) = d"
    using r iso_year_facts(3) [OF r(3) assms(3)] two_digits_facts(3) [OF r(1)] two_digits_facts(3) [OF r(2)] by simp_all
  have "make_day (utc_year y) (int m) d = day_of_civil y m d"
    using assms r by (simp add: utc_year_def make_day_def)
  then show ?thesis
    unfolding parseLicenseDate_def facts nums Let_def
    using facts(1) civil_of_day_of_civil [OF assms(1)] by (simp add: DAY_def)
qed

text \<open>
  The date texts of a licence. A text is accepted exactly when it is how a real calendar date of
  the years 100 to 9999 is written, its value is midnight UTC of that date, and any second of that
  day is written back as the same text.
\<close>

theorem license_date_roundtrip:
  "parseLicenseDate s = Some t \<longleftrightarrow>
    (\<exists>y m d. valid_civil y m d \<and> 100 \<le> y \<and> y \<le> 9999 \<and> t = day_of_civil y m d * 86400
       \<and> (\<forall>r. 0 \<le> r \<and> r < 86400 \<longrightarrow> licenseDate (t + r) = s))"
proof
  assume "parseLicenseDate s = Some t"
  from parseLicenseDate_sound [OF this] show "\<exists>y m d. valid_civil y m d \<and> 100 \<le> y \<and> y \<le> 9999
      \<and> t = day_of_civil y m d * 86400 \<and> (\<forall>r. 0 \<le> r \<and> r < 86400 \<longrightarrow> licenseDate (t + r) = s)"
  proof (elim exE conjE)
    fix y m d
    assume v: "valid_civil y m d" "100 \<le> y" "y \<le> 9999" "t = day_of_civil y m d * 86400"
      and s: "s = iso_year y @ ''-'' @ two_digits (m + 1) @ ''-'' @ two_digits (nat d)"
    have "0 \<le> y" using v(2) by simp
    from licenseDate_civil [OF v(1) this v(3)] v(4) s
    have "\<forall>r. 0 \<le> r \<and> r < 86400 \<longrightarrow> licenseDate (t + r) = s" by simp
    with v show ?thesis by blast
  qed
next
  assume "\<exists>y m d. valid_civil y m d \<and> 100 \<le> y \<and> y \<le> 9999 \<and> t = day_of_civil y m d * 86400
    \<and> (\<forall>r. 0 \<le> r \<and> r < 86400 \<longrightarrow> licenseDate (t + r) = s)"
  then obtain y m d where v: "valid_civil y m d" "100 \<le> y" "y \<le> 9999" "t = day_of_civil y m d * 86400"
    and w: "licenseDate (t + 0) = s" by fastforce
  then show "parseLicenseDate s = Some t"
    using parseLicenseDate_complete [OF v(1-3)] licenseDate_civil [of y m d 0] by simp
qed

theorem license_date_roundtrip_witness:
  "parseLicenseDate ''2028-02-29'' = Some 1835395200
   \<and> (\<exists>y m d. valid_civil y m d \<and> 1835395200 = day_of_civil y m d * 86400)
   \<and> parseLicenseDate ''2027-02-29'' = None"
proof -
  have p: "parseLicenseDate ''2028-02-29'' = Some 1835395200" by code_simp
  have "parseLicenseDate ''2027-02-29'' = None" by code_simp
  with p license_date_roundtrip [of "''2028-02-29''" 1835395200] show ?thesis by blast
qed

subsection \<open>Entitlement and price\<close>

text \<open>
  What a plan entitles to: while a recorded plan is in force the stored limit applies (5 where
  none is stored); from the second it ends, or with no plan, the organization is on Free, and a
  lapsed plan never keeps more than 5 workstations; a reminder shows exactly in the last 30 days.
\<close>

theorem entitlement_cases:
  "(let e = entitlement t now;
        stored = (if tn_workstation_limit t = 0 then 5 else tn_workstation_limit t);
        over = (\<exists>x. tn_license_expires_at t = Some x \<and> x \<le> now)
    in (en_kind e = Free \<longleftrightarrow> isLicensePlan (tn_license_plan t) = None \<or> over)
       \<and> (en_lapsed e \<longleftrightarrow> isLicensePlan (tn_license_plan t) \<noteq> None \<and> over)
       \<and> en_limit e = (if en_lapsed e then min stored 5 else stored)
       \<and> (en_endingSoon e \<longleftrightarrow> en_kind e \<noteq> Free
            \<and> (\<exists>x. tn_license_expires_at t = Some x \<and> now < x \<and> x \<le> now + 30 * 86400)))"
  by (cases "isLicensePlan (tn_license_plan t)"; cases "tn_license_expires_at t")
    (auto simp: entitlement_def licenseState_def Let_def license_defs KIND_OF_def split: license_plan.splits)

text \<open>
  An accepted online order is for 45 to 200 workstations and is charged exactly 18 percent tax
  on its subtotal: rounding never adds or drops a paisa.
\<close>

theorem quote_exact:
  assumes "parseQuoteInput body = Inr q"
  shows "45 \<le> qt_workstations q \<and> qt_workstations q \<le> 200
    \<and> 100 * qt_gst q = 18 * qt_subtotal q \<and> 100 * qt_total q = 118 * qt_subtotal q
    \<and> qt_subtotal q = (if qt_period q = Month then 199900 + 3900 * (qt_workstations q - 45)
                       else 1999000 + 39000 * (qt_workstations q - 45))"
proof -
  obtain p n where q: "q = quote p n" and n: "0 \<le> n" "n \<le> 155"
    using assms by (auto simp: parseQuoteInput_def MAX_ONLINE_EXTRA_def PRICING_def Let_def
        split: if_splits json.splits)
  have round: "(1800 * a + 50) div 100 = 18 * a" for a :: int
  proof -
    have "(1800 * a + 50) div 100 = (50 + (18 * a) * 100) div 100" by (simp add: mult.commute)
    also have "\<dots> = 18 * a" by (subst div_mult_self1) simp_all
    finally show ?thesis .
  qed
  define a where "a = (if p = Month then 1999 + 39 * n else 19990 + 390 * n)"
  have sub: "qt_subtotal q = 100 * a" by (cases p) (simp_all add: q a_def quote_def PRICING_def Let_def)
  have "qt_gst q = (qt_subtotal q * 18 + 50) div 100" by (simp add: q quote_def PRICING_def Let_def)
  also have "\<dots> = (1800 * a + 50) div 100" by (simp add: sub)
  finally have gst: "qt_gst q = 18 * a" by (simp only: round)
  have tot: "qt_total q = qt_subtotal q + qt_gst q" by (simp add: q quote_def Let_def)
  have "qt_period q = p" "qt_workstations q = 45 + n" by (simp_all add: q quote_def PRICING_def Let_def)
  with n gst sub tot show ?thesis by (simp add: a_def)
qed

theorem quote_exact_witness:
  "\<exists>q. parseQuoteInput (JObj [(''period'', JStr ''year''), (''extraWorkstations'', JInt 10)]) = Inr q
     \<and> qt_workstations q \<le> 200 \<and> 100 * qt_gst q = 18 * qt_subtotal q"
proof -
  obtain q where q: "parseQuoteInput (JObj [(''period'', JStr ''year''), (''extraWorkstations'', JInt 10)]) = Inr q"
    by (simp add: parseQuoteInput_def MAX_ONLINE_EXTRA_def PRICING_def Let_def)
  with quote_exact [OF q] show ?thesis by blast
qed

end
