(* ===== verification/Licensing.thy ===== *)
theory Licensing
  imports License Sessions
begin

text \<open>
  Which enrolled workstations a plan's limit covers: the second half of
  \<open>src/cloudflare-control/src/plans.ts\<close> and \<open>plan_sync.ts\<close>. \<open>lc\<close> is \<open>String.prototype.localeCompare\<close>,
  which only breaks ties. That the hub was told to reload its configuration
  (\<open>notifyConfigChanged\<close>, which never fails) is a flag of the result.
\<close>

subsection \<open>Licensed slots (plans.ts)\<close>

record enrolled_workstation =
  ew_clientId :: string
  ew_lastSeen :: int
  ew_licensed :: bool
  ew_since :: "int option"

text \<open>\<open>COALESCE(MAX(c.last_seen), 0)\<close> over the workstation's registry rows.\<close>

definition last_seen_of :: "d1 \<Rightarrow> string \<Rightarrow> string \<Rightarrow> int" where
  "last_seen_of db tenantId clientId =
     (let seen = map cd_last_seen (filter (\<lambda>c. cd_tenant_id c = tenantId \<and> cd_client_id c = clientId) (client_devices db))
      in if seen = [] then 0 else Max (set seen))"

definition since_values :: "d1 \<Rightarrow> string \<Rightarrow> string \<Rightarrow> int list" where
  "since_values db tenantId clientId =
     remdups (map ul_since (filter (\<lambda>u. ul_tenant_id u = tenantId \<and> ul_client_id u = clientId) (unlicensed_workstations db)))"

text \<open>One row per live workstation and distinct \<open>since\<close>, \<open>NULL\<close> where the left join finds none.\<close>

definition listEnrolledWorkstations :: "d1 \<Rightarrow> string \<Rightarrow> enrolled_workstation list" where
  "listEnrolledWorkstations db tenantId =
     concat (map (\<lambda>c.
       let sinces = since_values db tenantId c;
           column = (if sinces = [] then [None] else map Some sinces)
       in map (\<lambda>s. \<lparr>ew_clientId = c, ew_lastSeen = last_seen_of db tenantId c, ew_licensed = (s = None), ew_since = s\<rparr>) column)
       (remdups (enrolled_ids db tenantId)))"

definition listUnlicensed :: "d1 \<Rightarrow> string \<Rightarrow> (string \<rightharpoonup> int)" where
  "listUnlicensed db tenantId =
     map_of (rev (map (\<lambda>u. (ul_client_id u, ul_since u))
       (filter (\<lambda>u. ul_tenant_id u = tenantId) (unlicensed_workstations db))))"

record rebalance =
  rb_unlicensed :: "string list"
  rb_relicensed :: "string list"

abbreviation ul_key :: "unlicensed \<Rightarrow> string \<times> string" where
  "ul_key u \<equiv> (ul_tenant_id u, ul_client_id u)"

definition oldest_first :: "(string \<Rightarrow> string \<Rightarrow> int) \<Rightarrow> enrolled_workstation \<Rightarrow> enrolled_workstation \<Rightarrow> int" where
  "oldest_first lc a b = or_else (ew_lastSeen a - ew_lastSeen b) (lc (ew_clientId a) (ew_clientId b))"

definition newest_first :: "(string \<Rightarrow> string \<Rightarrow> int) \<Rightarrow> enrolled_workstation \<Rightarrow> enrolled_workstation \<Rightarrow> int" where
  "newest_first lc a b = or_else (ew_lastSeen b - ew_lastSeen a) (lc (ew_clientId a) (ew_clientId b))"

definition take_licence :: "string \<Rightarrow> int \<Rightarrow> string \<Rightarrow> unlicensed list \<Rightarrow> unlicensed list" where
  "take_licence tenantId now c = tbl_insert_or_ignore ul_key \<lparr>ul_tenant_id = tenantId, ul_client_id = c, ul_since = now\<rparr>"

definition give_licence :: "string \<Rightarrow> string \<Rightarrow> unlicensed list \<Rightarrow> unlicensed list" where
  "give_licence tenantId c = tbl_delete ul_key (tenantId, c)"

definition rebalanceLicences ::
  "(string \<Rightarrow> string \<Rightarrow> int) \<Rightarrow> d1 \<Rightarrow> string \<Rightarrow> int \<Rightarrow> int \<Rightarrow> rebalance \<times> d1" where
  "rebalanceLicences lc db tenantId limit nowSeconds =
     (let db = db\<lparr>unlicensed_workstations := filter
            (\<lambda>u. \<not> (ul_tenant_id u = tenantId \<and> ul_client_id u \<notin> set (enrolled_ids db tenantId)))
            (unlicensed_workstations db)\<rparr>;
          all = listEnrolledWorkstations db tenantId;
          licensed = sort_by (oldest_first lc) (filter ew_licensed all);
          waiting = sort_by (newest_first lc) (filter (\<lambda>w. \<not> ew_licensed w) all);
          count = int (length licensed);
          result = (if count > limit
                    then \<lparr>rb_unlicensed = map ew_clientId (take (nat (count - limit)) licensed), rb_relicensed = []\<rparr>
                    else if count < limit \<and> waiting \<noteq> []
                    then \<lparr>rb_unlicensed = [], rb_relicensed = map ew_clientId (take (nat (limit - count)) waiting)\<rparr>
                    else \<lparr>rb_unlicensed = [], rb_relicensed = []\<rparr>)
      in (result,
          db\<lparr>unlicensed_workstations :=
               fold (give_licence tenantId) (rb_relicensed result)
                 (fold (take_licence tenantId nowSeconds) (rb_unlicensed result) (unlicensed_workstations db))\<rparr>))"

text \<open>\<open>Inl\<close> is the refusal with its status; \<open>Inr\<close> the workstation that lost its licence, if one did.\<close>

definition moveLicenceTo ::
  "(string \<Rightarrow> string \<Rightarrow> int) \<Rightarrow> d1 \<Rightarrow> string \<Rightarrow> string \<Rightarrow> int \<Rightarrow> int \<Rightarrow> (string \<times> nat) + (string option \<times> d1)" where
  "moveLicenceTo lc db tenantId clientId limit nowSeconds =
     (let all = listEnrolledWorkstations db tenantId in
      case find (\<lambda>w. ew_clientId w = clientId) all of
        None \<Rightarrow> Inl (''That workstation is not enrolled'', 404)
      | Some target \<Rightarrow>
          if ew_licensed target then Inl (''That workstation is already licensed'', 409)
          else
            let licensed = sort_by (oldest_first lc) (filter ew_licensed all);
                given = db\<lparr>unlicensed_workstations := give_licence tenantId clientId (unlicensed_workstations db)\<rparr>
            in if int (length licensed) \<ge> limit
               then (case licensed of
                       [] \<Rightarrow> Inl (''The plan licenses no workstation'', 409)
                     | w # ws \<Rightarrow>
                         Inr (Some (ew_clientId w),
                              given\<lparr>unlicensed_workstations :=
                                take_licence tenantId nowSeconds (ew_clientId w) (unlicensed_workstations given)\<rparr>))
               else Inr (None, given))"

subsection \<open>Applying a plan (plan\_sync.ts)\<close>

definition releaseNotice :: "d1 \<Rightarrow> string \<Rightarrow> string list \<Rightarrow> int \<Rightarrow> d1" where
  "releaseNotice db tenantId clientIds nowMs = setClientsBroadcast db tenantId clientIds None nowMs"

definition over_limit_body :: "string \<Rightarrow> string \<Rightarrow> int \<Rightarrow> nat \<Rightarrow> string" where
  "over_limit_body name label limit n =
     name @ '' is on the '' @ label @ '' plan, which covers '' @ show_int limit @ '' workstation''
       @ (if limit = 1 then [] else ''s'') @ ''. '' @ show_nat n @ '' ''
       @ (if n = 1 then ''workstation'' else ''workstations'') @ '' seen least recently now ''
       @ (if n = 1 then ''shows'' else ''show'') @ '' a licence notice instead of your portal. ''
       @ ''Choose which workstations keep their licence, or change the plan, under Plan.''"

text \<open>
  The result is the rebalance, the database and whether the hub was told. \<open>new_id\<close> is the
  notification's generated id and \<open>clock\<close> the time of its row; \<open>None\<close> is the error \<open>createNotification\<close> may throw.
\<close>

definition syncLicences ::
  "(string \<Rightarrow> string \<Rightarrow> int) \<Rightarrow> d1 \<Rightarrow> string \<Rightarrow> int \<Rightarrow> string \<Rightarrow> int \<Rightarrow> (rebalance \<times> d1 \<times> bool) option" where
  "syncLicences lc db tenantId nowMs new_id clock =
     (case findTenantById db tenantId of
        None \<Rightarrow> Some (\<lparr>rb_unlicensed = [], rb_relicensed = []\<rparr>, db, False)
      | Some t \<Rightarrow>
          let plan = entitlement t (nowMs div 1000);
              (result, db) = rebalanceLicences lc db tenantId (en_limit plan) (nowMs div 1000)
          in if rb_unlicensed result = [] \<and> rb_relicensed result = [] then Some (result, db, False)
             else
               let db = releaseNotice db tenantId (rb_relicensed result) nowMs
               in if rb_unlicensed result = [] then Some (result, db, True)
                  else map_option (\<lambda>db. (result, db, True))
                    (createNotification db
                      \<lparr>nt_id = new_id, nt_tenant_id = Some tenantId, nt_kind = ''license'',
                       nt_title = ''Workstations over the plan's limit'',
                       nt_body = over_limit_body (tn_name t) (en_label plan) (en_limit plan) (length (rb_unlicensed result)),
                       nt_created_at = clock, nt_created_by = None\<rparr>))"

definition moveLicence ::
  "(string \<Rightarrow> string \<Rightarrow> int) \<Rightarrow> d1 \<Rightarrow> string \<Rightarrow> string \<Rightarrow> int \<Rightarrow> (string \<times> nat) + (string option \<times> d1)" where
  "moveLicence lc db tenantId clientId nowMs =
     (case findTenantById db tenantId of
        None \<Rightarrow> Inl (''Organization not found'', 404)
      | Some t \<Rightarrow>
          (case moveLicenceTo lc db tenantId clientId (en_limit (entitlement t (nowMs div 1000))) (nowMs div 1000) of
             Inl e \<Rightarrow> Inl e
           | Inr (displaced, db) \<Rightarrow> Inr (displaced, releaseNotice db tenantId [clientId] nowMs)))"

subsection \<open>The licensed workstations as a set\<close>

definition unlicensed_set :: "d1 \<Rightarrow> string \<Rightarrow> string set" where
  "unlicensed_set db t = {c. (t, c) \<in> ul_key ` set (unlicensed_workstations db)}"

definition licensed_set :: "d1 \<Rightarrow> string \<Rightarrow> string set" where
  "licensed_set db t = enrolled db t - unlicensed_set db t"

abbreviation ul_ok :: "d1 \<Rightarrow> bool" where
  "ul_ok db \<equiv> distinct_keys ul_key (unlicensed_workstations db)"

lemma finite_enrolled [simp]: "finite (enrolled db t)"
  by (simp add: enrolled_def)

lemma finite_licensed [simp]: "finite (licensed_set db t)"
  by (simp add: licensed_set_def)

lemma since_values_cases:
  assumes "ul_ok db"
  shows "c \<notin> unlicensed_set db t \<Longrightarrow> since_values db t c = []"
    and "c \<in> unlicensed_set db t \<Longrightarrow> \<exists>s. since_values db t c = [s]"
proof -
  show "c \<notin> unlicensed_set db t \<Longrightarrow> since_values db t c = []"
    by (auto simp: unlicensed_set_def since_values_def filter_empty_conv image_iff)
  assume "c \<in> unlicensed_set db t"
  then obtain u where u: "u \<in> set (unlicensed_workstations db)" "ul_key u = (t, c)"
    by (auto simp: unlicensed_set_def image_iff)
  have "filter (\<lambda>u. ul_tenant_id u = t \<and> ul_client_id u = c) (unlicensed_workstations db) = [u]"
    using assms u
  proof (induction "unlicensed_workstations db" arbitrary: db)
    case (Cons v vs)
    have ih: "distinct_keys ul_key vs \<Longrightarrow> u \<in> set vs \<Longrightarrow>
        filter (\<lambda>u. ul_tenant_id u = t \<and> ul_client_id u = c) vs = [u]"
      using Cons.hyps(1) [of "db\<lparr>unlicensed_workstations := vs\<rparr>"] u(2) by simp
    show ?case
    proof (cases "u = v")
      case True
      with Cons.prems Cons.hyps(2) [symmetric] show ?thesis by (auto simp: filter_empty_conv image_iff)
    next
      case False
      with Cons.prems Cons.hyps(2) [symmetric] ih show ?thesis by (auto simp: image_iff)
    qed
  qed simp
  then show "\<exists>s. since_values db t c = [s]" by (simp add: since_values_def)
qed

text \<open>The rows of \<open>listEnrolledWorkstations\<close>: one per enrolled workstation, licensed where it is.\<close>

lemma listEnrolled_eq:
  assumes "ul_ok db"
  shows "\<exists>f. listEnrolledWorkstations db t = map f (remdups (enrolled_ids db t))
    \<and> (\<forall>c. ew_clientId (f c) = c \<and> ew_lastSeen (f c) = last_seen_of db t c \<and> (ew_licensed (f c) \<longleftrightarrow> c \<notin> unlicensed_set db t))"
proof -
  define f where "f c = (let s = (case since_values db t c of [] \<Rightarrow> None | s # _ \<Rightarrow> Some s) in
      \<lparr>ew_clientId = c, ew_lastSeen = last_seen_of db t c, ew_licensed = (s = None), ew_since = s\<rparr>)" for c
  have "(let sinces = since_values db t c; column = (if sinces = [] then [None] else map Some sinces) in
      map (\<lambda>s. \<lparr>ew_clientId = c, ew_lastSeen = last_seen_of db t c, ew_licensed = (s = None), ew_since = s\<rparr>) column) = [f c]" for c
    using since_values_cases [OF assms, of c t] by (cases "c \<in> unlicensed_set db t") (auto simp: f_def Let_def)
  then have "listEnrolledWorkstations db t = map f (remdups (enrolled_ids db t))"
    by (simp add: listEnrolledWorkstations_def concat_map_singleton)
  moreover have "ew_licensed (f c) \<longleftrightarrow> c \<notin> unlicensed_set db t" for c
    using since_values_cases [OF assms, of c t] by (cases "c \<in> unlicensed_set db t") (auto simp: f_def Let_def)
  ultimately show ?thesis by (intro exI [of _ f]) (simp add: f_def Let_def)
qed

definition licensed_rows :: "d1 \<Rightarrow> string \<Rightarrow> enrolled_workstation list" where
  "licensed_rows db t = filter ew_licensed (listEnrolledWorkstations db t)"

definition waiting_rows :: "d1 \<Rightarrow> string \<Rightarrow> enrolled_workstation list" where
  "waiting_rows db t = filter (\<lambda>w. \<not> ew_licensed w) (listEnrolledWorkstations db t)"

lemma rows_facts:
  assumes "ul_ok db"
  shows "distinct (map ew_clientId (licensed_rows db t))" and "distinct (map ew_clientId (waiting_rows db t))"
    and "ew_clientId ` set (licensed_rows db t) = licensed_set db t"
    and "ew_clientId ` set (waiting_rows db t) = enrolled db t \<inter> unlicensed_set db t"
    and "\<And>w. w \<in> set (listEnrolledWorkstations db t) \<Longrightarrow> ew_lastSeen w = last_seen_of db t (ew_clientId w)"
proof -
  obtain f where f: "listEnrolledWorkstations db t = map f (remdups (enrolled_ids db t))"
    and fc: "\<And>c. ew_clientId (f c) = c" "\<And>c. ew_lastSeen (f c) = last_seen_of db t c"
      "\<And>c. ew_licensed (f c) \<longleftrightarrow> c \<notin> unlicensed_set db t"
    using listEnrolled_eq [OF assms, of t] by metis
  have "map ew_clientId (listEnrolledWorkstations db t) = remdups (enrolled_ids db t)"
    by (simp add: f comp_def fc)
  then have "distinct (map ew_clientId (listEnrolledWorkstations db t))" by simp
  then show "distinct (map ew_clientId (licensed_rows db t))" "distinct (map ew_clientId (waiting_rows db t))"
    by (simp_all add: licensed_rows_def waiting_rows_def distinct_map_filter)
  show "ew_clientId ` set (licensed_rows db t) = licensed_set db t"
    by (auto simp: licensed_rows_def f licensed_set_def enrolled_def fc image_iff) (metis fc)
  show "ew_clientId ` set (waiting_rows db t) = enrolled db t \<inter> unlicensed_set db t"
    by (auto simp: waiting_rows_def f enrolled_def fc image_iff) (metis fc)
  show "\<And>w. w \<in> set (listEnrolledWorkstations db t) \<Longrightarrow> ew_lastSeen w = last_seen_of db t (ew_clientId w)"
    by (auto simp: f fc)
qed

lemma rows_card:
  assumes "ul_ok db"
  shows "length (licensed_rows db t) = card (licensed_set db t)"
    and "length (waiting_rows db t) = card (enrolled db t \<inter> unlicensed_set db t)"
  using rows_facts [OF assms, where t = t] by (metis distinct_card length_map set_map)+

lemma card_licensed_split: "card (licensed_set db t) + card (enrolled db t \<inter> unlicensed_set db t) = card (enrolled db t)"
  unfolding licensed_set_def by (metis card_Int_Diff finite_enrolled add.commute)

lemma sorted_oldest: "sorted_wrt (\<lambda>a b. ew_lastSeen a \<le> ew_lastSeen b) (sort_by (oldest_first lc) ws)"
  by (rule sorted_wrt_sort_by) (auto simp: oldest_first_def or_else_def split: if_splits)

lemma sorted_newest: "sorted_wrt (\<lambda>a b. ew_lastSeen b \<le> ew_lastSeen a) (sort_by (newest_first lc) ws)"
proof -
  have "sorted_wrt (\<lambda>a b. - ew_lastSeen a \<le> - ew_lastSeen b) (sort_by (newest_first lc) ws)"
    by (rule sorted_wrt_sort_by) (auto simp: newest_first_def or_else_def split: if_splits)
  then show ?thesis by simp
qed

lemma keys_take_fold:
  "ul_key ` set (fold (take_licence t now) cs rows) = ul_key ` set rows \<union> {(t, c) |c. c \<in> set cs}"
proof (induction cs arbitrary: rows)
  case (Cons c cs)
  have "ul_key ` set (take_licence t now c rows) = insert (t, c) (ul_key ` set rows)"
    by (auto simp: take_licence_def set_tbl_insert_or_ignore)
  with Cons show ?case by auto
qed simp

lemma keys_give_fold:
  "ul_key ` set (fold (give_licence t) cs rows) = ul_key ` set rows - {(t, c) |c. c \<in> set cs}"
proof (induction cs arbitrary: rows)
  case (Cons c cs)
  have "ul_key ` set (give_licence t c rows) = ul_key ` set rows - {(t, c)}"
    by (auto simp: give_licence_def set_tbl_delete image_iff)
  with Cons show ?case by auto
qed simp

lemma other_take_fold:
  "t' \<noteq> t \<Longrightarrow> filter (\<lambda>u. ul_tenant_id u = t') (fold (take_licence t now) cs rows) = filter (\<lambda>u. ul_tenant_id u = t') rows"
  by (induction cs arbitrary: rows) (auto simp: take_licence_def tbl_insert_or_ignore_def)

lemma other_give_fold:
  "t' \<noteq> t \<Longrightarrow> filter (\<lambda>u. ul_tenant_id u = t') (fold (give_licence t) cs rows) = filter (\<lambda>u. ul_tenant_id u = t') rows"
proof (induction cs arbitrary: rows)
  case (Cons c cs)
  have "filter (\<lambda>u. ul_tenant_id u = t') (give_licence t c rows) = filter (\<lambda>u. ul_tenant_id u = t') rows"
    using Cons.prems by (auto simp: give_licence_def tbl_delete_def intro!: filter_cong)
  with Cons show ?case by simp
qed simp

lemma ul_ok_fold: "distinct_keys ul_key rows \<Longrightarrow>
    distinct_keys ul_key (fold (give_licence t) ds (fold (take_licence t now) cs rows))"
proof -
  have "distinct_keys ul_key (fold (take_licence t now) cs rows)" if "distinct_keys ul_key rows" for rows
    using that by (induction cs arbitrary: rows) (auto simp: take_licence_def intro!: distinct_keys_insert_or_ignore)
  moreover have "distinct_keys ul_key (fold (give_licence t) ds rows)" if "distinct_keys ul_key rows" for rows
    using that by (induction ds arbitrary: rows) (auto simp: give_licence_def intro!: distinct_keys_delete)
  moreover assume "distinct_keys ul_key rows"
  ultimately show ?thesis by simp
qed

subsection \<open>Rebalancing\<close>

definition forget_removed :: "d1 \<Rightarrow> string \<Rightarrow> d1" where
  "forget_removed db t = db\<lparr>unlicensed_workstations := filter
     (\<lambda>u. \<not> (ul_tenant_id u = t \<and> ul_client_id u \<notin> set (enrolled_ids db t))) (unlicensed_workstations db)\<rparr>"

lemma forget_removed_facts:
  "enrolled (forget_removed db t) t' = enrolled db t'"
  "last_seen_of (forget_removed db t) t' c = last_seen_of db t' c"
  "unlicensed_set (forget_removed db t) t = unlicensed_set db t \<inter> enrolled db t"
  "licensed_set (forget_removed db t) t = licensed_set db t"
  "ul_ok db \<Longrightarrow> ul_ok (forget_removed db t)"
proof -
  show e: "enrolled (forget_removed db t) t' = enrolled db t'" for t'
    by (simp add: enrolled_def enrolled_ids_def forget_removed_def)
  show "last_seen_of (forget_removed db t) t' c = last_seen_of db t' c"
    by (simp add: last_seen_of_def forget_removed_def)
  show u: "unlicensed_set (forget_removed db t) t = unlicensed_set db t \<inter> enrolled db t"
    by (auto simp: unlicensed_set_def enrolled_def forget_removed_def image_iff)
  show "licensed_set (forget_removed db t) t = licensed_set db t" by (auto simp: licensed_set_def e u)
  show "ul_ok db \<Longrightarrow> ul_ok (forget_removed db t)" by (simp add: forget_removed_def distinct_map_filter)
qed

definition apply_change :: "string \<Rightarrow> int \<Rightarrow> string list \<Rightarrow> string list \<Rightarrow> d1 \<Rightarrow> d1" where
  "apply_change t now lost regained db = db\<lparr>unlicensed_workstations :=
     fold (give_licence t) regained (fold (take_licence t now) lost (unlicensed_workstations db))\<rparr>"

lemma apply_change_facts:
  "enrolled (apply_change t now lost regained db) t' = enrolled db t'"
  "last_seen_of (apply_change t now lost regained db) t' c = last_seen_of db t' c"
  "unlicensed_set (apply_change t now lost regained db) t = (unlicensed_set db t \<union> set lost) - set regained"
  "ul_ok db \<Longrightarrow> ul_ok (apply_change t now lost regained db)"
  "t' \<noteq> t \<Longrightarrow> filter (\<lambda>u. ul_tenant_id u = t') (unlicensed_workstations (apply_change t now lost regained db))
     = filter (\<lambda>u. ul_tenant_id u = t') (unlicensed_workstations db)"
  by (auto simp: apply_change_def enrolled_def enrolled_ids_def last_seen_of_def unlicensed_set_def
      keys_take_fold keys_give_fold ul_ok_fold other_take_fold other_give_fold)

lemma rebalance_eq:
  "rebalanceLicences lc db t limit now =
     (let db0 = forget_removed db t; licensed = sort_by (oldest_first lc) (licensed_rows db0 t);
          waiting = sort_by (newest_first lc) (waiting_rows db0 t); count = int (length (licensed_rows db0 t));
          lost = map ew_clientId (take (nat (count - limit)) licensed);
          regained = map ew_clientId (take (nat (limit - count)) waiting)
      in (\<lparr>rb_unlicensed = lost, rb_relicensed = regained\<rparr>, apply_change t now lost regained db0))"
  unfolding rebalanceLicences_def forget_removed_def [symmetric] licensed_rows_def [symmetric]
    waiting_rows_def [symmetric] apply_change_def Let_def
  by auto

lemma set_take_map_subset: "set (map f (take k xs)) \<subseteq> f ` set xs"
  by (auto dest: in_set_takeD)

lemma card_take_map: "distinct (map f xs) \<Longrightarrow> card (set (map f (take k xs))) = min k (length xs)"
  by (metis distinct_card distinct_take length_map length_take min.commute take_map)

text \<open>What is left out of a prefix of a list sorted by \<open>R\<close> comes after it.\<close>

lemma take_beats_rest:
  assumes "sorted_wrt R xs" and "a \<in> set (map f (take k xs))" and "b \<in> f ` set xs" and "b \<notin> set (map f (take k xs))"
  shows "\<exists>x y. x \<in> set xs \<and> y \<in> set xs \<and> f x = a \<and> f y = b \<and> R x y"
proof -
  obtain x where x: "x \<in> set (take k xs)" "f x = a" using assms(2) by auto
  obtain y where y: "y \<in> set xs" "f y = b" using assms(3) by auto
  then have "y \<in> set (drop k xs)" using assms(4) by (metis Un_iff append_take_drop_id image_eqI set_append set_map)
  from sorted_wrt_take_drop [OF assms(1) x(1) this] x y show ?thesis by (blast dest: in_set_takeD)
qed

text \<open>The facts of one rebalance, with the chosen workstations.\<close>

lemma rebalance_facts:
  assumes ok: "ul_ok db" and run: "rebalanceLicences lc db t limit now = (r, db')" and "0 \<le> limit"
  defines "L \<equiv> licensed_set db t" and "W \<equiv> enrolled db t \<inter> unlicensed_set db t" and "E \<equiv> enrolled db t"
    and "lost \<equiv> set (rb_unlicensed r)" and "regained \<equiv> set (rb_relicensed r)"
  shows "lost \<subseteq> L" "regained \<subseteq> W"
    and "card lost = nat (int (card L) - limit)" "card regained = min (nat (limit - int (card L))) (card W)"
    and "\<And>a b. a \<in> lost \<Longrightarrow> b \<in> L - lost \<Longrightarrow> last_seen_of db t a \<le> last_seen_of db t b"
    and "\<And>a b. a \<in> regained \<Longrightarrow> b \<in> W - regained \<Longrightarrow> last_seen_of db t b \<le> last_seen_of db t a"
    and "db' = apply_change t now (rb_unlicensed r) (rb_relicensed r) (forget_removed db t)"
proof -
  let ?db = "forget_removed db t"
  let ?ls = "sort_by (oldest_first lc) (licensed_rows ?db t)"
  let ?ws = "sort_by (newest_first lc) (waiting_rows ?db t)"
  let ?n = "nat (int (length (licensed_rows ?db t)) - limit)"
  let ?m = "nat (limit - int (length (licensed_rows ?db t)))"
  note fr = forget_removed_facts [of db t]
  note ok' = fr(5) [OF ok]
  note rf = rows_facts [OF ok', where t = t]
  have l: "ew_clientId ` set ?ls = L" and w: "ew_clientId ` set ?ws = W"
    using rf(3,4) fr(3,4) by (auto simp: L_def W_def fr(1))
  have twice: "enrolled db t \<inter> (unlicensed_set db t \<inter> enrolled db t) = W" by (auto simp: W_def)
  have n: "length ?ls = card L" "length ?ws = card W" "length (licensed_rows ?db t) = card L"
    using rows_card [OF ok', where t = t] fr(1,3,4) twice by (simp_all add: L_def)
  have r: "lost = set (map ew_clientId (take ?n ?ls))" "regained = set (map ew_clientId (take ?m ?ws))"
    and db': "db' = apply_change t now (rb_unlicensed r) (rb_relicensed r) ?db"
    using run by (auto simp: rebalance_eq Let_def lost_def regained_def)
  show "lost \<subseteq> L" "regained \<subseteq> W" using l w r set_take_map_subset by metis+
  show "card lost = nat (int (card L) - limit)"
    using card_take_map [of ew_clientId ?ls ?n] rf(1) \<open>0 \<le> limit\<close> n r(1) by simp
  show "card regained = min (nat (limit - int (card L))) (card W)"
    using card_take_map [of ew_clientId ?ws ?m] rf(2) n r(2) by simp
  have seen: "ew_lastSeen x = last_seen_of db t (ew_clientId x)" if "x \<in> set ?ls \<or> x \<in> set ?ws" for x
    using that rf(5) [of x] fr(2) by (auto simp: licensed_rows_def waiting_rows_def)
  show "last_seen_of db t a \<le> last_seen_of db t b" if "a \<in> lost" "b \<in> L - lost" for a b
    using take_beats_rest [OF sorted_oldest, of a ew_clientId ?n lc "licensed_rows ?db t" b] that r(1) l seen by auto
  show "last_seen_of db t b \<le> last_seen_of db t a" if "a \<in> regained" "b \<in> W - regained" for a b
    using take_beats_rest [OF sorted_newest, of a ew_clientId ?m lc "waiting_rows ?db t" b] that r(2) w seen by auto
  show "db' = apply_change t now (rb_unlicensed r) (rb_relicensed r) ?db" by (rule db')
qed

lemma rebalance_sets:
  assumes ok: "ul_ok db" and run: "rebalanceLicences lc db t limit now = (r, db')" and lim: "0 \<le> limit"
  shows "enrolled db' t' = enrolled db t'" and "ul_ok db'" and "unlicensed_set db' t \<subseteq> enrolled db t"
    and "licensed_set db' t = (licensed_set db t - set (rb_unlicensed r)) \<union> set (rb_relicensed r)"
    and "enrolled db t - licensed_set db' t = unlicensed_set db' t"
    and "unlicensed_set db' t = (unlicensed_set db t \<inter> enrolled db t \<union> set (rb_unlicensed r)) - set (rb_relicensed r)"
proof -
  note f = rebalance_facts [OF ok run lim]
  have db': "db' = apply_change t now (rb_unlicensed r) (rb_relicensed r) (forget_removed db t)" by (rule f(7))
  show e: "enrolled db' t' = enrolled db t'" for t' by (simp add: db' apply_change_facts(1) forget_removed_facts(1))
  show "ul_ok db'" using ok unfolding db' by (intro apply_change_facts(4) forget_removed_facts(5))
  show u: "unlicensed_set db' t = (unlicensed_set db t \<inter> enrolled db t \<union> set (rb_unlicensed r)) - set (rb_relicensed r)"
    by (simp add: db' apply_change_facts(3) forget_removed_facts(3))
  with f(1) show sub: "unlicensed_set db' t \<subseteq> enrolled db t" by (auto simp: licensed_set_def)
  show "licensed_set db' t = (licensed_set db t - set (rb_unlicensed r)) \<union> set (rb_relicensed r)"
    using f(1,2) u by (auto simp: licensed_set_def [of db' t] e) (auto simp: licensed_set_def)
  show "enrolled db t - licensed_set db' t = unlicensed_set db' t" using sub by (auto simp: licensed_set_def e)
qed

lemma rebalance_count:
  assumes ok: "ul_ok db" and run: "rebalanceLicences lc db t limit now = (r, db')" and lim: "0 \<le> limit"
  shows "int (card (licensed_set db' t)) = min limit (int (card (enrolled db t)))"
    and "rb_unlicensed r = [] \<or> rb_relicensed r = []"
proof -
  note f = rebalance_facts [OF ok run lim]
  let ?L = "licensed_set db t" and ?W = "enrolled db t \<inter> unlicensed_set db t"
  let ?lost = "set (rb_unlicensed r)" and ?re = "set (rb_relicensed r)"
  have "?W \<inter> ?L = {}" by (auto simp: licensed_set_def)
  then have "card ((?L - ?lost) \<union> ?re) = card (?L - ?lost) + card ?re"
    using f(2) by (intro card_Un_disjoint) auto
  also have "card (?L - ?lost) = card ?L - card ?lost" using f(1) by (intro card_Diff_subset) auto
  finally have "card (licensed_set db' t) = card ?L - card ?lost + card ?re"
    using rebalance_sets(4) [OF ok run lim] by simp
  then show "int (card (licensed_set db' t)) = min limit (int (card (enrolled db t)))"
    using f(3,4) lim card_licensed_split [of db t] by arith
  show "rb_unlicensed r = [] \<or> rb_relicensed r = []"
    using f(3,4) by (cases "int (card ?L) \<le> limit") auto
qed

text \<open>
  C2. Rebalancing makes the licensed workstations fit the plan: afterwards exactly as many are
  licensed as the limit allows and are enrolled; those that lose the licence were seen no later than
  any that keeps it, those that regain it no earlier than any still waiting; it never takes and
  gives in the same call; and no other organization's rows change.
\<close>

theorem rebalance_fits_limit:
  assumes "ul_ok db" and "0 \<le> limit" and "rebalanceLicences lc db t limit now = (r, db')"
  shows "enrolled db' t = enrolled db t
    \<and> int (card (licensed_set db' t)) = min limit (int (card (enrolled db t)))
    \<and> licensed_set db' t = (licensed_set db t - set (rb_unlicensed r)) \<union> set (rb_relicensed r)
    \<and> (rb_unlicensed r = [] \<or> rb_relicensed r = [])
    \<and> (\<forall>a\<in>set (rb_unlicensed r). \<forall>b\<in>licensed_set db' t. last_seen_of db t a \<le> last_seen_of db t b)
    \<and> (\<forall>a\<in>set (rb_relicensed r). \<forall>b\<in>enrolled db t - licensed_set db' t. last_seen_of db t b \<le> last_seen_of db t a)
    \<and> (\<forall>t'. t' \<noteq> t \<longrightarrow> filter (\<lambda>u. ul_tenant_id u = t') (unlicensed_workstations db')
          = filter (\<lambda>u. ul_tenant_id u = t') (unlicensed_workstations db))"
proof -
  note f = rebalance_facts [OF assms(1,3,2)]
  note s = rebalance_sets [OF assms(1,3,2)]
  note c = rebalance_count [OF assms(1,3,2)]
  have lose: "\<forall>a\<in>set (rb_unlicensed r). \<forall>b\<in>licensed_set db' t. last_seen_of db t a \<le> last_seen_of db t b"
    using c(2) f(5) s(4) by auto
  have gain: "\<forall>a\<in>set (rb_relicensed r). \<forall>b\<in>enrolled db t - licensed_set db' t. last_seen_of db t b \<le> last_seen_of db t a"
    using c(2) f(6) s(5,6) by auto
  have others: "filter (\<lambda>u. ul_tenant_id u = t') (unlicensed_workstations db')
      = filter (\<lambda>u. ul_tenant_id u = t') (unlicensed_workstations db)" if "t' \<noteq> t" for t'
    using that apply_change_facts(5) [OF that] unfolding f(7)
    by (simp add: forget_removed_def) (auto intro!: filter_cong)
  from s(1,4) c lose gain others show ?thesis by blast
qed

definition lab_db :: d1 where
  "lab_db = (let dev = (\<lambda>n seen. \<lparr>cd_tenant_id = ''t'', cd_client_id = n, cd_last_seen = seen, cd_group_name = None,
                 cd_broadcast_url = None, cd_broadcast_epoch = 0\<rparr>);
                 tok = (\<lambda>n. \<lparr>dt_id = n, dt_token_hash = n, dt_tenant_id = ''t'', dt_client_id = n, dt_created_at = 0,
                 dt_last_used_at = 0, dt_revoked = False\<rparr>)
     in empty_db\<lparr>device_tokens := [tok ''a'', tok ''b'', tok ''c''],
          client_devices := [dev ''a'' 10, dev ''b'' 30, dev ''c'' 20]\<rparr>)"

theorem rebalance_fits_limit_witness:
  "ul_ok lab_db \<and> fst (rebalanceLicences (\<lambda>a b. 0) lab_db ''t'' 2 100) = \<lparr>rb_unlicensed = [''a''], rb_relicensed = []\<rparr>
   \<and> card (licensed_set (snd (rebalanceLicences (\<lambda>a b. 0) lab_db ''t'' 2 100)) ''t'') = 2"
proof -
  have ok: "ul_ok lab_db" by code_simp
  have e: "enrolled lab_db ''t'' = {''a'', ''b'', ''c''}" by (auto simp: enrolled_def enrolled_ids_def lab_db_def Let_def)
  have "fst (rebalanceLicences (\<lambda>a b. 0) lab_db ''t'' 2 100) = \<lparr>rb_unlicensed = [''a''], rb_relicensed = []\<rparr>" by code_simp
  moreover obtain r db' where run: "rebalanceLicences (\<lambda>a b. 0) lab_db ''t'' 2 100 = (r, db')" by fastforce
  have "int (card (licensed_set db' ''t'')) = min 2 (int (card (enrolled lab_db ''t'')))"
    using rebalance_fits_limit [OF ok zero_le_numeral run] by blast
  ultimately show ?thesis using ok run e by simp
qed

text \<open>
  Rebalancing is sticky: run again with the same limit, whatever the order in which names
  compare and however the clock moved, it changes nothing.
\<close>

theorem rebalance_again:
  assumes "ul_ok db" and "0 \<le> limit" and run: "rebalanceLicences lc db t limit now = (r, db')"
  shows "rebalanceLicences lc' db' t limit now' = (\<lparr>rb_unlicensed = [], rb_relicensed = []\<rparr>, db')"
proof -
  note s = rebalance_sets [OF assms(1,3,2)]
  have same: "forget_removed db' t = db'"
  proof -
    have "ul_client_id u \<in> set (enrolled_ids db' t)" if "u \<in> set (unlicensed_workstations db')" "ul_tenant_id u = t" for u
      using that s(3) s(1) by (auto simp: unlicensed_set_def enrolled_def image_iff)
    then have "filter (\<lambda>u. \<not> (ul_tenant_id u = t \<and> ul_client_id u \<notin> set (enrolled_ids db' t))) (unlicensed_workstations db')
        = unlicensed_workstations db'" by (auto simp: filter_id_conv)
    then show ?thesis by (simp add: forget_removed_def)
  qed
  obtain r2 db2 where run2: "rebalanceLicences lc' db' t limit now' = (r2, db2)" by fastforce
  note f2 = rebalance_facts [OF s(2) run2 assms(2)]
  have c: "int (card (licensed_set db' t)) = min limit (int (card (enrolled db t)))"
    by (rule rebalance_count(1) [OF assms(1,3,2)])
  then have "card (set (rb_unlicensed r2)) = 0" using f2(3) by simp
  moreover have "card (set (rb_relicensed r2)) = 0"
    using f2(4) c card_licensed_split [of db' t] s(1) [of t] by (auto simp: min_def split: if_splits)
  ultimately have "rb_unlicensed r2 = []" "rb_relicensed r2 = []" by simp_all
  moreover have "db2 = apply_change t now' (rb_unlicensed r2) (rb_relicensed r2) db'" using f2(7) same by simp
  ultimately show ?thesis using run2 by (cases r2) (simp add: apply_change_def)
qed

theorem rebalance_again_witness:
  "let db' = snd (rebalanceLicences (\<lambda>a b. 0) lab_db ''t'' 2 100)
   in rebalanceLicences (\<lambda>a b. 1) db' ''t'' 2 200 = (\<lparr>rb_unlicensed = [], rb_relicensed = []\<rparr>, db')"
proof -
  have ok: "ul_ok lab_db" by code_simp
  obtain r db' where run: "rebalanceLicences (\<lambda>a b. 0) lab_db ''t'' 2 100 = (r, db')" by fastforce
  from rebalance_again [OF ok _ run, of "\<lambda>a b. 1" 200] run show ?thesis by simp
qed

subsection \<open>Moving a licence\<close>

lemma find_enrolled_row:
  assumes "ul_ok db"
  shows "(find (\<lambda>w. ew_clientId w = c) (listEnrolledWorkstations db t) = None \<longleftrightarrow> c \<notin> enrolled db t)"
    and "find (\<lambda>w. ew_clientId w = c) (listEnrolledWorkstations db t) = Some w \<Longrightarrow>
      c \<in> enrolled db t \<and> (ew_licensed w \<longleftrightarrow> c \<in> licensed_set db t)"
proof -
  obtain f where f: "listEnrolledWorkstations db t = map f (remdups (enrolled_ids db t))"
    and fc: "\<And>c. ew_clientId (f c) = c" "\<And>c. ew_licensed (f c) \<longleftrightarrow> c \<notin> unlicensed_set db t"
    using listEnrolled_eq [OF assms, of t] by metis
  show "find (\<lambda>w. ew_clientId w = c) (listEnrolledWorkstations db t) = None \<longleftrightarrow> c \<notin> enrolled db t"
    by (auto simp: find_None_iff_all f fc enrolled_def)
  assume "find (\<lambda>w. ew_clientId w = c) (listEnrolledWorkstations db t) = Some w"
  from find_Some_iff_mem [OF this] show "c \<in> enrolled db t \<and> (ew_licensed w \<longleftrightarrow> c \<in> licensed_set db t)"
    by (auto simp: f fc enrolled_def licensed_set_def)
qed

lemma licensed_after_give:
  "licensed_set (db\<lparr>unlicensed_workstations := give_licence t c (unlicensed_workstations db)\<rparr>) t
     = licensed_set db t \<union> (enrolled db t \<inter> {c})"
  using apply_change_facts(1,3) [of t 0 "[]" "[c]" db]
  by (auto simp: apply_change_def licensed_set_def)

lemma licensed_after_swap:
  assumes "c \<noteq> d"
  shows "licensed_set (db\<lparr>unlicensed_workstations := take_licence t now d (give_licence t c (unlicensed_workstations db))\<rparr>) t
     = (licensed_set db t \<union> (enrolled db t \<inter> {c})) - {d}"
proof -
  let ?db = "db\<lparr>unlicensed_workstations := give_licence t c (unlicensed_workstations db)\<rparr>"
  have "licensed_set (apply_change t now [d] [] ?db) t = licensed_set ?db t - {d}"
    by (auto simp: licensed_set_def apply_change_facts(1,3))
  then show ?thesis by (simp add: apply_change_def licensed_after_give)
qed

lemma moveLicenceTo_facts:
  assumes ok: "ul_ok db" and "0 \<le> limit"
  shows "(\<exists>e. moveLicenceTo lc db t c limit now = Inl e) \<longleftrightarrow>
      c \<notin> enrolled db t \<or> c \<in> licensed_set db t \<or> (limit = 0 \<and> licensed_set db t = {})"
    and "moveLicenceTo lc db t c limit now = Inr (displaced, db') \<Longrightarrow>
      (if int (card (licensed_set db t)) < limit
       then displaced = None \<and> licensed_set db' t = insert c (licensed_set db t)
       else \<exists>d. displaced = Some d \<and> d \<in> licensed_set db t \<and> licensed_set db' t = insert c (licensed_set db t) - {d}
              \<and> (\<forall>b\<in>licensed_set db t. last_seen_of db t d \<le> last_seen_of db t b)
              \<and> card (licensed_set db' t) = card (licensed_set db t))"
proof -
  let ?all = "listEnrolledWorkstations db t"
  let ?ls = "sort_by (oldest_first lc) (licensed_rows db t)"
  note rf = rows_facts [OF ok, where t = t]
  note card = rows_card(1) [OF ok, of t]
  have ids: "ew_clientId ` set ?ls = licensed_set db t" using rf(3) by simp
  have empty: "?ls = [] \<longleftrightarrow> licensed_set db t = {}" using ids by (metis image_is_empty set_empty)
  note finds = find_enrolled_row [OF ok, of c t]
  show "(\<exists>e. moveLicenceTo lc db t c limit now = Inl e) \<longleftrightarrow>
      c \<notin> enrolled db t \<or> c \<in> licensed_set db t \<or> (limit = 0 \<and> licensed_set db t = {})"
  proof (cases "find (\<lambda>w. ew_clientId w = c) ?all")
    case None
    then show ?thesis using finds(1) by (auto simp: moveLicenceTo_def)
  next
    case (Some w)
    then show ?thesis
      using finds(2) [OF Some] empty card \<open>0 \<le> limit\<close>
      by (auto simp: moveLicenceTo_def Let_def licensed_rows_def [symmetric] split: list.split)
  qed
  assume run: "moveLicenceTo lc db t c limit now = Inr (displaced, db')"
  then obtain w where w: "find (\<lambda>w. ew_clientId w = c) ?all = Some w" and un: "\<not> ew_licensed w"
    by (auto simp: moveLicenceTo_def Let_def split: option.splits if_splits)
  have c: "c \<in> enrolled db t" "c \<notin> licensed_set db t" using finds(2) [OF w] un by auto
  show "if int (card (licensed_set db t)) < limit
       then displaced = None \<and> licensed_set db' t = insert c (licensed_set db t)
       else \<exists>d. displaced = Some d \<and> d \<in> licensed_set db t \<and> licensed_set db' t = insert c (licensed_set db t) - {d}
              \<and> (\<forall>b\<in>licensed_set db t. last_seen_of db t d \<le> last_seen_of db t b)
              \<and> card (licensed_set db' t) = card (licensed_set db t)"
  proof (cases "int (card (licensed_set db t)) < limit")
    case True
    then have "displaced = None" and
      db': "db' = db\<lparr>unlicensed_workstations := give_licence t c (unlicensed_workstations db)\<rparr>"
      using run w un card by (auto simp: moveLicenceTo_def Let_def licensed_rows_def [symmetric])
    moreover have "licensed_set db' t = insert c (licensed_set db t)" using c by (simp add: db' licensed_after_give)
    ultimately show ?thesis using True by simp
  next
    case False
    then obtain x xs where x: "?ls = x # xs" "displaced = Some (ew_clientId x)" and
      db': "db' = db\<lparr>unlicensed_workstations := take_licence t now (ew_clientId x) (give_licence t c (unlicensed_workstations db))\<rparr>"
      using run w un card
      by (auto simp: moveLicenceTo_def Let_def licensed_rows_def [symmetric] split: list.splits)
    let ?d = "ew_clientId x"
    have d: "?d \<in> licensed_set db t" using ids x(1) by auto
    with c have lic: "licensed_set db' t = insert c (licensed_set db t) - {?d}"
      unfolding db' by (subst licensed_after_swap) auto
    moreover have "card (insert c (licensed_set db t) - {?d}) = card (licensed_set db t)" using c d by simp
    moreover have "last_seen_of db t ?d \<le> last_seen_of db t b" if b: "b \<in> licensed_set db t" for b
    proof -
      obtain y where y: "y \<in> set ?ls" "ew_clientId y = b" using b ids by (metis imageE)
      have "sorted_wrt (\<lambda>a b. ew_lastSeen a \<le> ew_lastSeen b) ?ls" by (rule sorted_oldest)
      with x(1) y(1) have "ew_lastSeen x \<le> ew_lastSeen y" by auto
      moreover have "set ?ls \<subseteq> set ?all" by (auto simp: licensed_rows_def)
      then have "x \<in> set ?all" "y \<in> set ?all" using x(1) y(1) by auto
      ultimately show ?thesis using rf(5) y(2) by simp
    qed
    ultimately show ?thesis using False x(2) d by auto
  qed
qed

text \<open>
  Moving a licence to a workstation: refused exactly when the workstation is not enrolled or is
  already licensed, or the plan's places are none; otherwise that workstation is licensed
  afterwards. With a free place nothing else changes; without one exactly one workstation loses its
  licence, one that no licensed workstation was seen before, so the number licensed stays the same.
\<close>

theorem moveLicenceTo_correct:
  assumes "ul_ok db" and "0 \<le> limit"
  shows "((\<exists>e. moveLicenceTo lc db t c limit now = Inl e) \<longleftrightarrow>
      c \<notin> enrolled db t \<or> c \<in> licensed_set db t \<or> (limit = 0 \<and> licensed_set db t = {}))
    \<and> (\<forall>displaced db'. moveLicenceTo lc db t c limit now = Inr (displaced, db') \<longrightarrow>
      (if int (card (licensed_set db t)) < limit
       then displaced = None \<and> licensed_set db' t = insert c (licensed_set db t)
       else \<exists>d. displaced = Some d \<and> d \<in> licensed_set db t \<and> licensed_set db' t = insert c (licensed_set db t) - {d}
              \<and> (\<forall>b\<in>licensed_set db t. last_seen_of db t d \<le> last_seen_of db t b)
              \<and> card (licensed_set db' t) = card (licensed_set db t)))"
  using moveLicenceTo_facts [OF assms, of lc t c now] by blast

definition full_lab_db :: d1 where
  "full_lab_db = lab_db\<lparr>unlicensed_workstations := [\<lparr>ul_tenant_id = ''t'', ul_client_id = ''a'', ul_since = 100\<rparr>]\<rparr>"

theorem moveLicenceTo_correct_witness:
  "\<exists>db'. moveLicenceTo (\<lambda>a b. 0) full_lab_db ''t'' ''a'' 2 200 = Inr (Some ''c'', db')
     \<and> ''a'' \<in> licensed_set db' ''t'' \<and> ''c'' \<notin> licensed_set db' ''t''"
proof -
  have ok: "ul_ok full_lab_db" by code_simp
  obtain db' where run: "moveLicenceTo (\<lambda>a b. 0) full_lab_db ''t'' ''a'' 2 200 = Inr (Some ''c'', db')"
  proof -
    have "(case moveLicenceTo (\<lambda>a b. 0) full_lab_db ''t'' ''a'' 2 200 of Inl _ \<Rightarrow> False | Inr (d, _) \<Rightarrow> d = Some ''c'')"
      by code_simp
    then show ?thesis using that by (auto split: sum.splits)
  qed
  moreover have "licensed_set db' ''t'' = insert ''a'' (licensed_set full_lab_db ''t'') - {''c''}"
    using moveLicenceTo_correct [OF ok, of 2 "\<lambda>a b. 0" "''t''" "''a''" 200] run
    by (auto split: if_splits)
  ultimately show ?thesis by auto
qed

end
