(* ===== verification/Billing.thy ===== *)
theory Billing
  imports Licensing
begin

text \<open>
  Online payment (\<open>src/cloudflare-control/src/billing.ts\<close>): signatures, the paid period, the payment
  link and the one recording of a payment. The HMAC is the parameter \<open>hmac\<close>; the network is the
  parameter \<open>net\<close>, which gives the answer to the n-th request of a call (\<open>None\<close> where \<open>fetch\<close> throws).
\<close>

definition RAZORPAY_ORIGIN :: string where
  "RAZORPAY_ORIGIN = ''https://api.razorpay.com''"

definition LINK_HOURS :: int where
  "LINK_HOURS = 24"

record billing_env =
  RAZORPAY_KEY_ID :: "string option"
  RAZORPAY_KEY_SECRET :: "string option"
  RAZORPAY_RELAY_URL :: "string option"
  RAZORPAY_RELAY_SECRET :: "string option"

text \<open>\<open>value || ""\<close> on a setting that may be missing.\<close>

definition or_empty :: "string option \<Rightarrow> string" where
  "or_empty v = (case v of None \<Rightarrow> [] | Some s \<Rightarrow> s)"

definition billingEnabled :: "billing_env \<Rightarrow> bool" where
  "billingEnabled env = (or_empty (RAZORPAY_KEY_ID env) \<noteq> [] \<and> or_empty (RAZORPAY_KEY_SECRET env) \<noteq> [])"

subsection \<open>Signatures\<close>

type_synonym text_hmac = "string \<Rightarrow> string \<Rightarrow> byte list"

definition hmacHex :: "text_hmac \<Rightarrow> string \<Rightarrow> string \<Rightarrow> string" where
  "hmacHex hmac secret message = bufferToHex (hmac secret message)"

definition verifyReturnSignature ::
  "text_hmac \<Rightarrow> string \<Rightarrow> string \<Rightarrow> string \<Rightarrow> string \<Rightarrow> string \<Rightarrow> string \<Rightarrow> bool" where
  "verifyReturnSignature hmac secret linkId referenceId status paymentId signature =
     (if signature = [] then False
      else timingSafeEqual
        (hmacHex hmac secret (linkId @ ''|'' @ referenceId @ ''|'' @ status @ ''|'' @ paymentId))
        (toLowerCase signature))"

definition verifyWebhookSignature :: "text_hmac \<Rightarrow> string \<Rightarrow> string \<Rightarrow> string \<Rightarrow> bool" where
  "verifyWebhookSignature hmac secret body signature =
     (if signature = [] then False
      else timingSafeEqual (hmacHex hmac secret body) (toLowerCase signature))"

subsection \<open>The paid period\<close>

definition periodEnd :: "int \<Rightarrow> billing_period \<Rightarrow> int" where
  "periodEnd from period =
     (let (y, m, d) = civil_of_day (from div DAY);
          months = (if period = Month then 1 else 12);
          target = make_day (utc_year y) (int m + months) 1;
          (ty, tm, td) = civil_of_day target;
          (ly, lm, lastDay) = civil_of_day (make_day (utc_year ty) (int tm + 1) 0)
      in make_day ty (int tm) (min d lastDay) * DAY + from mod DAY)"

subsection \<open>Reaching Razorpay\<close>

definition NEVER_REACHED_ORIGIN :: "nat set" where
  "NEVER_REACHED_ORIGIN = {522, 525, 526}"

datatype route = Direct | Relay string string

fun drop_trailing :: "char \<Rightarrow> string \<Rightarrow> string" where
  "drop_trailing c s = rev (dropWhile (\<lambda>x. x = c) (rev s))"

text \<open>\<open>/^https:\/\/[^/?#]+(\/[^?#]*)?$/\<close>.\<close>

definition relay_shape :: "string \<Rightarrow> bool" where
  "relay_shape url =
     (startsWith url ''https://'' \<and>
      (let rest = drop 8 url; host = takeWhile (\<lambda>c. c \<notin> set ''/?#'') rest; path = drop (length host) rest
       in host \<noteq> [] \<and> (path = [] \<or> hd path = CHR ''/'' \<and> CHR ''?'' \<notin> set path \<and> CHR ''#'' \<notin> set path)))"

definition razorpayRoute :: "billing_env \<Rightarrow> string + route" where
  "razorpayRoute env =
     (let url = drop_trailing CHR ''/'' (trim (or_empty (RAZORPAY_RELAY_URL env)));
          secret = trim (or_empty (RAZORPAY_RELAY_SECRET env))
      in if url = [] \<and> secret = [] then Inr Direct
         else if url = [] \<or> secret = [] then Inl ''Set both RAZORPAY_RELAY_URL and RAZORPAY_RELAY_SECRET, or neither''
         else if \<not> relay_shape url then Inl ''RAZORPAY_RELAY_URL must be an https address with no query''
         else if length secret < 32 then Inl ''RAZORPAY_RELAY_SECRET must be at least 32 characters''
         else Inr (Relay url secret))"

record http_request =
  rq_url :: string
  rq_method :: string
  rq_headers :: "(string \<times> string) list"
  rq_body :: string

record http_response =
  rs_status :: nat
  rs_server :: "string option"
  rs_ray :: "string option"
  rs_json :: "json option"

type_synonym network = "nat \<Rightarrow> http_request \<Rightarrow> http_response option"

text \<open>\<open>path\<close> is the request's address within Razorpay; \<open>clock\<close> the time of the n-th request.\<close>

definition sendToRazorpay ::
  "text_hmac \<Rightarrow> network \<Rightarrow> (nat \<Rightarrow> nat) \<Rightarrow> nat \<Rightarrow> billing_env \<Rightarrow> string \<Rightarrow> http_request \<Rightarrow> http_response option" where
  "sendToRazorpay hmac net clock n env path init =
     (case razorpayRoute env of
        Inl _ \<Rightarrow> None
      | Inr Direct \<Rightarrow> net n (init\<lparr>rq_url := RAZORPAY_ORIGIN @ path\<rparr>)
      | Inr (Relay url secret) \<Rightarrow>
          let timestamp = show_nat (clock n);
              signature = hmacHex hmac secret (timestamp @ [CHR 0x0A] @ rq_method init @ [CHR 0x0A] @ path @ [CHR 0x0A] @ rq_body init)
          in net n (init\<lparr>rq_url := url @ path,
               rq_headers := rq_headers init @ [(''X-Relay-Timestamp'', timestamp), (''X-Relay-Signature'', signature)]\<rparr>))"

definition fetchRazorpay ::
  "text_hmac \<Rightarrow> network \<Rightarrow> (nat \<Rightarrow> nat) \<Rightarrow> billing_env \<Rightarrow> string \<Rightarrow> http_request \<Rightarrow> http_response option" where
  "fetchRazorpay hmac net clock env path init =
     (case sendToRazorpay hmac net clock 0 env path init of
        None \<Rightarrow> None
      | Some first \<Rightarrow>
          if rs_status first \<notin> NEVER_REACHED_ORIGIN then Some first
          else sendToRazorpay hmac net clock 1 env path init)"

definition describeHttpFailure :: "http_response \<Rightarrow> string" where
  "describeHttpFailure res =
     (let named = (\<lambda>label v. if or_empty v = [] then [] else [label @ or_empty v]);
          details = named ''server '' (rs_server res) @ named ''ray '' (rs_ray res)
      in ''HTTP '' @ show_nat (rs_status res) @ (if details = [] then [] else '' ('' @ join '', '' details @ '')''))"

subsection \<open>JSON and base64 texts of the request\<close>

definition json_char :: "char \<Rightarrow> string" where
  "json_char c =
     (if c = CHR 0x22 \<or> c = CHR 0x5C then [CHR 0x5C, c]
      else if code c = 8 then [CHR 0x5C, CHR ''b''] else if code c = 9 then [CHR 0x5C, CHR ''t'']
      else if code c = 10 then [CHR 0x5C, CHR ''n''] else if code c = 12 then [CHR 0x5C, CHR ''f'']
      else if code c = 13 then [CHR 0x5C, CHR ''r'']
      else if code c < 32 then [CHR 0x5C, CHR ''u'', CHR ''0'', CHR ''0'', hex_digit (code c div 16), hex_digit (code c mod 16)]
      else [c])"

definition json_text :: "string \<Rightarrow> string" where
  "json_text s = [CHR 0x22] @ concat (map json_char s) @ [CHR 0x22]"

text \<open>\<open>JSON.stringify\<close>: an undefined member is left out of an object and is \<open>null\<close> in an array.\<close>

fun stringify :: "json \<Rightarrow> string" where
  "stringify JUndefined = ''null''"
| "stringify JNull = ''null''"
| "stringify (JBool b) = (if b then ''true'' else ''false'')"
| "stringify (JInt i) = show_int i"
| "stringify (JFloat s) = (if s = ''NaN'' \<or> s = ''Infinity'' \<or> s = ''-Infinity'' then ''null'' else s)"
| "stringify (JStr s) = json_text s"
| "stringify (JArr xs) = ''['' @ join '','' (map stringify xs) @ '']''"
| "stringify (JObj kvs) = ''{'' @ join '',''
     (concat (map (\<lambda>(k, v). if v = JUndefined then [] else [json_text k @ '':'' @ stringify v]) kvs)) @ ''}''"

definition base64_char :: "nat \<Rightarrow> char" where
  "base64_char n = ''ABCDEFGHIJKLMNOPQRSTUVWXYZabcdefghijklmnopqrstuvwxyz0123456789+/'' ! (n mod 64)"

fun btoa :: "string \<Rightarrow> string" where
  "btoa [] = []"
| "btoa [a] = [base64_char (code a div 4), base64_char (code a * 16), CHR ''='', CHR ''='']"
| "btoa [a, b] = [base64_char (code a div 4), base64_char (code a * 16 + code b div 16), base64_char (code b * 4), CHR ''='']"
| "btoa (a # b # c # rest) = [base64_char (code a div 4), base64_char (code a * 16 + code b div 16),
     base64_char (code b * 4 + code c div 64), base64_char (code c)] @ btoa rest"

subsection \<open>Payment links\<close>

definition findPayment :: "d1 \<Rightarrow> string \<Rightarrow> payment option" where
  "findPayment db i = tbl_lookup pm_id i (payments db)"

text \<open>\<open>ORDER BY paid_at DESC, rowid DESC LIMIT 50\<close>: the sort is stable, so the rows are reversed first.\<close>

definition listPayments :: "d1 \<Rightarrow> string \<Rightarrow> payment list" where
  "listPayments db tenantId =
     take 50 (sort_by (\<lambda>a b. (case pm_paid_at b of None \<Rightarrow> 0 | Some s \<Rightarrow> s) - (case pm_paid_at a of None \<Rightarrow> 0 | Some s \<Rightarrow> s))
       (rev (filter (\<lambda>p. pm_tenant_id p = tenantId \<and> pm_status p = Paid) (payments db))))"

record link_input =
  li_tenantId :: string
  li_organization :: string
  li_userId :: string
  li_email :: string
  li_name :: string
  li_quote :: quote
  li_callbackUrl :: string
  li_nowSeconds :: int

definition period_text :: "billing_period \<Rightarrow> string" where
  "period_text p = (case p of Month \<Rightarrow> ''month'' | Year \<Rightarrow> ''year'')"

definition link_description :: "link_input \<Rightarrow> string" where
  "link_description input =
     take 2048 (''Lab Kiosk subscription, '' @ (if qt_period (li_quote input) = Month then ''1 month'' else ''1 year'')
       @ '', '' @ show_int (qt_workstations (li_quote input)) @ '' workstations, for '' @ li_organization input)"

definition link_request :: "billing_env \<Rightarrow> link_input \<Rightarrow> string \<Rightarrow> http_request" where
  "link_request env input i =
     (let q = li_quote input in
      \<lparr>rq_url = [], rq_method = ''POST'',
       rq_headers = [(''Authorization'', ''Basic '' @ btoa (or_empty (RAZORPAY_KEY_ID env) @ '':'' @ or_empty (RAZORPAY_KEY_SECRET env))),
                     (''Content-Type'', ''application/json'')],
       rq_body = stringify (JObj
         [(''amount'', JInt (qt_total q)), (''currency'', JStr ''INR''), (''reference_id'', JStr i),
          (''description'', JStr (link_description input)),
          (''customer'', JObj [(''name'', JStr (take 100 (li_name input))), (''email'', JStr (li_email input))]),
          (''notify'', JObj [(''sms'', JBool False), (''email'', JBool False)]),
          (''reminder_enable'', JBool False), (''expire_by'', JInt (li_nowSeconds input + LINK_HOURS * 3600)),
          (''callback_url'', JStr (li_callbackUrl input)), (''callback_method'', JStr ''get''),
          (''notes'', JObj [(''tenant_id'', JStr (li_tenantId input)), (''period'', JStr (period_text (qt_period q))),
             (''workstations'', JStr (show_int (qt_workstations q)))])])\<rparr>)"

definition new_payment :: "link_input \<Rightarrow> string \<Rightarrow> payment" where
  "new_payment input i =
     (let q = li_quote input in
      \<lparr>pm_id = i, pm_tenant_id = li_tenantId input, pm_link_id = None, pm_short_url = None, pm_period = qt_period q,
       pm_extra_workstations = qt_extraWorkstations q, pm_subtotal_paise = qt_subtotal q, pm_gst_paise = qt_gst q,
       pm_total_paise = qt_total q, pm_status = Created, pm_razorpay_payment_id = None,
       pm_created_by = Some (li_userId input), pm_created_at = li_nowSeconds input, pm_paid_at = None,
       pm_period_ends_at = None\<rparr>)"

definition drop_created :: "string \<Rightarrow> d1 \<Rightarrow> d1" where
  "drop_created i db = db\<lparr>payments := filter (\<lambda>p. \<not> (pm_id p = i \<and> pm_status p = Created)) (payments db)\<rparr>"

text \<open>
  \<open>i\<close> is the generated reference. The result is the error thrown or the payment, and the database
  as left behind; a clash of the primary key is an error too, and so is reading a member of an answer
  whose whole body is \<open>null\<close>.
\<close>

definition createPaymentLink ::
  "text_hmac \<Rightarrow> network \<Rightarrow> (nat \<Rightarrow> nat) \<Rightarrow> billing_env \<Rightarrow> d1 \<Rightarrow> link_input \<Rightarrow> string \<Rightarrow> (string + payment) \<times> d1" where
  "createPaymentLink hmac net clock env db input i =
     (if \<not> billingEnabled env then (Inl ''Online payment is not set up'', db)
      else case razorpayRoute env of
        Inl e \<Rightarrow> (Inl e, db)
      | Inr _ \<Rightarrow>
          if findPayment db i \<noteq> None then (Inl ''UNIQUE constraint failed: payments.id'', db)
          else
            let inserted = db\<lparr>payments := payments db @ [new_payment input i]\<rparr>
            in case fetchRazorpay hmac net clock env ''/v1/payment_links'' (link_request env input i) of
                 None \<Rightarrow> (Inl ''Razorpay could not be reached. Try again in a few minutes.'', drop_created i inserted)
               | Some res \<Rightarrow>
                   let data = (case rs_json res of None \<Rightarrow> JObj [] | Some j \<Rightarrow> j);
                       failed = (let why = (case field (field data ''error'') ''description'' of JStr s \<Rightarrow> s | _ \<Rightarrow> describeHttpFailure res)
                                 in (Inl (''Razorpay did not create the payment link: '' @ why), drop_created i inserted))
                   in if data = JNull then (Inl ''Cannot read properties of null'', inserted)
                      else if \<not> (200 \<le> rs_status res \<and> rs_status res \<le> 299) then failed
                      else (case (field data ''id'', field data ''short_url'') of
                              (JStr link, JStr short) \<Rightarrow>
                                let updated = inserted\<lparr>payments := tbl_update (\<lambda>p. pm_id p = i)
                                      (\<lambda>p. p\<lparr>pm_link_id := Some link, pm_short_url := Some short\<rparr>) (payments inserted)\<rparr>
                                in (case findPayment updated i of Some p \<Rightarrow> (Inr p, updated) | None \<Rightarrow> (Inl [], updated))
                            | _ \<Rightarrow> failed))"

subsection \<open>Recording a payment\<close>

record payment_ref =
  pr_referenceId :: string
  pr_linkId :: string
  pr_paymentId :: string

text \<open>\<open>None\<close> is the error of \<open>updateTenant\<close>; otherwise the recorded payment, if this call recorded it.\<close>

definition recordPayment :: "d1 \<Rightarrow> payment_ref \<Rightarrow> int \<Rightarrow> (payment option \<times> d1) option" where
  "recordPayment db ref nowSeconds =
     (case findPayment db (pr_referenceId ref) of
        None \<Rightarrow> Some (None, db)
      | Some payment \<Rightarrow>
          if pm_link_id payment \<noteq> Some (pr_linkId ref) then Some (None, db)
          else
            let open_row = (\<lambda>p. pm_id p = pm_id payment \<and> pm_status p = Created);
                claimed = db\<lparr>payments := tbl_update open_row
                  (\<lambda>p. p\<lparr>pm_status := Paid, pm_razorpay_payment_id := Some (take 64 (pr_paymentId ref)),
                         pm_paid_at := Some nowSeconds\<rparr>) (payments db)\<rparr>
            in if tbl_changes open_row (payments db) = 0 then Some (None, claimed)
               else case findTenantById claimed (pm_tenant_id payment) of
                 None \<Rightarrow> Some (None, claimed)
               | Some t \<Rightarrow>
                   let plan = entitlement t nowSeconds;
                       start = (case en_expiresAt plan of
                                  Some e \<Rightarrow> if en_kind plan = Subscription \<and> e > nowSeconds then e else nowSeconds
                                | None \<Rightarrow> nowSeconds);
                       ends = periodEnd start (pm_period payment)
                   in case updateTenant claimed (tn_id t)
                        [(''license_plan'', \<lambda>u. u\<lparr>tn_license_plan := Some ''subscriber''\<rparr>),
                         (''license_expires_at'', \<lambda>u. u\<lparr>tn_license_expires_at := Some ends\<rparr>),
                         (''workstation_limit'', \<lambda>u. u\<lparr>tn_workstation_limit :=
                            pr_includedWorkstations PRICING + pm_extra_workstations payment\<rparr>)] nowSeconds of
                        None \<Rightarrow> None
                      | Some db2 \<Rightarrow>
                          let db3 = db2\<lparr>payments := tbl_update (\<lambda>p. pm_id p = pm_id payment)
                                (\<lambda>p. p\<lparr>pm_period_ends_at := Some ends\<rparr>) (payments db2)\<rparr>
                          in Some (findPayment db3 (pm_id payment), db3))"

text \<open>The parts of a \<open>payment_link.paid\<close> webhook, or \<open>None\<close> for any other event.\<close>

definition paidLinkFromWebhook :: "json \<Rightarrow> payment_ref option" where
  "paidLinkFromWebhook body =
     (if \<not> is_object body then None
      else if field body ''event'' \<noteq> JStr ''payment_link.paid'' then None
      else
        let link = field (field (field body ''payload'') ''payment_link'') ''entity'';
            payment = field (field (field body ''payload'') ''payment'') ''entity''
        in case (field link ''id'', field link ''reference_id'') of
             (JStr linkId, JStr referenceId) \<Rightarrow>
               if \<not> truthy link \<or> field link ''status'' \<noteq> JStr ''paid'' then None
               else Some \<lparr>pr_referenceId = referenceId, pr_linkId = linkId,
                          pr_paymentId = (case field payment ''id'' of JStr s \<Rightarrow> s | _ \<Rightarrow> [])\<rparr>
           | _ \<Rightarrow> None)"

subsection \<open>A paid period is a calendar month or year\<close>

text \<open>The month \<open>months\<close> later.\<close>

definition later_month :: "billing_period \<Rightarrow> int \<Rightarrow> nat \<Rightarrow> int \<times> nat" where
  "later_month period y m =
     (if period = Year then (y + 1, m) else if m = 11 then (y + 1, 0) else (y, m + 1))"

lemma make_day_later:
  assumes "m < 12" and "later_month period y m = (y', m')"
  shows "make_day y (int m + (if period = Month then 1 else 12)) d = day_of_civil y' m' d" and "m' < 12"
proof -
  show "m' < 12" using assms by (auto simp: later_month_def split: if_splits)
  have "int m + 12 = int m + 1 * 12" by simp
  then have "(int m + 12) div 12 = 1" "(int m + 12) mod 12 = int m"
    using assms(1) by (simp_all only: div_mult_self1 mod_mult_self1) simp_all
  moreover have "m \<noteq> 11 \<Longrightarrow> (int m + 1) div 12 = 0 \<and> nat ((int m + 1) mod 12) = m + 1" using assms(1) by auto
  ultimately show "make_day y (int m + (if period = Month then 1 else 12)) d = day_of_civil y' m' d"
    using assms by (cases period; cases "m = 11") (auto simp: make_day_def later_month_def)
qed

lemma last_day_of_month: "m < 12 \<Longrightarrow> make_day y (int m + 1) 0 = day_of_civil y m (month_len y m)"
proof (cases "m = 11")
  case True
  then show ?thesis
    using month_start_12 [of y] by (simp add: make_day_def day_of_civil_def day_from_year_Suc eval_nat_numeral)
next
  case False
  assume "m < 12"
  with False have e: "(int m + 1) div 12 = 0" "nat ((int m + 1) mod 12) = Suc m" by auto
  show ?thesis unfolding make_day_def day_of_civil_def e by simp
qed

lemma year_after_epoch: "0 \<le> n \<Longrightarrow> civil_of_day n = (y, m, d) \<Longrightarrow> 1970 \<le> y"
proof -
  assume n: "0 \<le> n" and c: "civil_of_day n = (y, m, d)"
  then have "y = year_of_day n" by (auto simp: civil_of_day_def Let_def split: prod.splits)
  then have "n < day_from_year (y + 1)" using year_of_day_bounds [of n] by simp
  then have "day_from_year 1970 < day_from_year (y + 1)" using n by (simp add: day_from_year_1970)
  then show ?thesis using day_from_year_less [of 1970 "y + 1"] by simp
qed

lemma periodEnd_civil:
  assumes "0 \<le> from" and c: "civil_of_day (from div 86400) = (y, m, d)" and l: "later_month period y m = (y', m')"
  shows "periodEnd from period = day_of_civil y' m' (min d (month_len y' m')) * 86400 + from mod 86400"
    and "valid_civil y' m' (min d (month_len y' m'))" and "valid_civil y m d" and "day_of_civil y m d = from div 86400"
proof -
  show v: "valid_civil y m d" and "day_of_civil y m d = from div 86400" by (rule civil_of_day_correct [OF c])+
  have y: "1970 \<le> y" using assms(1) by (intro year_after_epoch [OF _ c]) (simp add: pos_imp_zdiv_nonneg_iff)
  then have y': "1970 \<le> y'" using l by (auto simp: later_month_def split: if_splits)
  have u: "utc_year y = y" "utc_year y' = y'" using y y' by (simp_all add: utc_year_def)
  have m: "m < 12" using v by (simp add: valid_civil_def)
  note later = make_day_later [OF m l]
  have len: "1 \<le> month_len y' m'" using month_len_bounds(1) [of y' m'] by simp
  have v1: "valid_civil y' m' 1" "valid_civil y' m' (month_len y' m')" using later(2) len by (simp_all add: valid_civil_def)
  show "valid_civil y' m' (min d (month_len y' m'))" using v later(2) len by (simp add: valid_civil_def)
  have "make_day y' (int m') e = day_of_civil y' m' e" for e using later(2) by (simp add: make_day_def)
  then show "periodEnd from period = day_of_civil y' m' (min d (month_len y' m')) * 86400 + from mod 86400"
    using c civil_of_day_of_civil [OF v1(1)] civil_of_day_of_civil [OF v1(2)]
    by (simp only: periodEnd_def DAY_def Let_def prod.case u later(1) last_day_of_month [OF later(2)])
qed

lemma month_start_leap:
  "2 \<le> m \<Longrightarrow> month_start y m = month_start 1 m + (if leap y then 1 else 0)"
proof (induction m rule: nat_induct_at_least)
  case base
  have "\<not> leap 1" by (simp add: leap_def)
  then show ?case by (simp add: numeral_2_eq_2 month_len_def)
next
  case (Suc m)
  then have "month_len y m = month_len 1 m" by (simp add: month_len_def)
  with Suc show ?case by simp
qed

lemma month_start_early: "m < 2 \<Longrightarrow> month_start y m = month_start z m"
  by (auto simp: less_2_cases_iff month_len_def)

lemma later_day_bounds:
  assumes v: "valid_civil y m d" and l: "later_month period y m = (y', m')"
  shows "(if period = Month then 28 else 365) \<le> day_of_civil y' m' (min d (month_len y' m')) - day_of_civil y m d"
    and "day_of_civil y' m' (min d (month_len y' m')) - day_of_civil y m d \<le> (if period = Month then 31 else 366)"
proof -
  have d: "1 \<le> d" "d \<le> month_len y m" using v by (simp_all add: valid_civil_def)
  note len = month_len_bounds [of y m] month_len_bounds [of y' m']
  have month: "day_of_civil y' m' e = day_of_civil y m 1 + month_len y m + e - 1" if "period = Month" for e
    using l that month_start_12 [of y]
    by (auto simp: later_month_def day_of_civil_def day_from_year_Suc eval_nat_numeral split: if_splits)
  have year: "day_of_civil y' m' e = day_of_civil y m 1 + 365 + (if m < 2 then if leap y then 1 else 0 else if leap y' then 1 else 0) + e - 1"
    if "period = Year" for e
    using l that month_start_leap [of m y] month_start_leap [of m y'] month_start_early [of m y y']
    by (auto simp: later_month_def day_of_civil_def day_from_year_Suc)
  have base: "day_of_civil y m d = day_of_civil y m 1 + d - 1" by (simp add: day_of_civil_def)
  have same: "period = Year \<Longrightarrow> m \<noteq> 1 \<Longrightarrow> month_len y' m' = month_len y m"
    using l by (auto simp: later_month_def month_len_def)
  have feb: "period = Year \<Longrightarrow> m = 1 \<Longrightarrow> month_len y' m' = (if leap y' then 29 else 28)"
    "m = 1 \<Longrightarrow> month_len y m = (if leap y then 29 else 28)"
    using l by (auto simp: later_month_def month_len_def)
  show "(if period = Month then 28 else 365) \<le> day_of_civil y' m' (min d (month_len y' m')) - day_of_civil y m d"
    using month year base len d same feb by (cases period; cases "m = 1") (auto simp: min_def split: if_splits)
  show "day_of_civil y' m' (min d (month_len y' m')) - day_of_civil y m d \<le> (if period = Month then 31 else 366)"
    using month year base len d same feb by (cases period; cases "m = 1") (auto simp: min_def split: if_splits)
qed

text \<open>
  A paid period ends on the same day of the month one calendar month or one year later, or on
  that month's last day when it has no such day, at the same time of day: 28 to 31 days after its
  start for a month and 365 or 366 for a year.
\<close>

theorem periodEnd_calendar:
  assumes "0 \<le> from" and "civil_of_day (from div 86400) = (y, m, d)"
  shows "let ends = periodEnd from period; (y', m') = later_month period y m
    in civil_of_day (ends div 86400) = (y', m', min d (month_len y' m'))
       \<and> ends mod 86400 = from mod 86400
       \<and> from + (if period = Month then 28 else 365) * 86400 \<le> ends
       \<and> ends \<le> from + (if period = Month then 31 else 366) * 86400"
proof -
  obtain y' m' where l: "later_month period y m = (y', m')" by fastforce
  note p = periodEnd_civil [OF assms l]
  let ?e = "day_of_civil y' m' (min d (month_len y' m'))"
  have parts: "periodEnd from period div 86400 = ?e" "periodEnd from period mod 86400 = from mod 86400"
    by (simp_all add: p(1))
  have "civil_of_day ?e = (y', m', min d (month_len y' m'))" by (rule civil_of_day_of_civil [OF p(2)])
  moreover have "from = day_of_civil y m d * 86400 + from mod 86400" using p(4) by simp
  ultimately show ?thesis
    using parts p(1) later_day_bounds [OF p(3) l] by (auto simp: l Let_def split: if_splits)
qed

theorem periodEnd_calendar_witness:
  "civil_of_day (1706659200 div 86400) = (2024, 0, 31) \<and> civil_of_day (periodEnd 1706659200 Month div 86400) = (2024, 1, 29)"
proof -
  have c: "civil_of_day (1706659200 div 86400) = (2024, 0, 31)" by code_simp
  have "later_month Month 2024 0 = (2024, 1)" "month_len 2024 1 = 29" by code_simp+
  with periodEnd_calendar [OF _ c, of Month] c show ?thesis by (simp add: Let_def)
qed

subsection \<open>A payment counts once\<close>

text \<open>Where the paid time starts: at the end of a subscription still in force, otherwise now.\<close>

definition extension_start :: "tenant \<Rightarrow> int \<Rightarrow> int" where
  "extension_start t now =
     (case tn_license_expires_at t of
        Some e \<Rightarrow> if isLicensePlan (tn_license_plan t) = Some Subscriber \<and> e > now then e else now
      | None \<Rightarrow> now)"

lemma find_update:
  assumes "\<And>r. P (f r) = P r"
  shows "find P (tbl_update q f xs) = map_option (\<lambda>r. if q r then f r else r) (find P xs)"
  using assms by (induction xs) (auto simp: tbl_update_def)

lemma findPayment_update:
  "(\<And>r. pm_id (f r) = pm_id r) \<Longrightarrow>
    findPayment (db\<lparr>payments := tbl_update q f ps\<rparr>) i = map_option (\<lambda>r. if q r then f r else r) (find (\<lambda>p. pm_id p = i) ps)"
  by (simp add: findPayment_def tbl_lookup_def find_update)

definition subscribe :: "int \<Rightarrow> int \<Rightarrow> int \<Rightarrow> tenant \<Rightarrow> tenant" where
  "subscribe ends extra now u = u\<lparr>tn_license_plan := Some ''subscriber'', tn_license_expires_at := Some ends,
     tn_workstation_limit := 45 + extra, tn_updated_at := now\<rparr>"

lemma isLicensePlan_values:
  "isLicensePlan (Some ''subscriber'') = Some Subscriber"
  by (simp add: isLicensePlan_def LICENSE_PLANS_def)

lemma extension_start_plan:
  "(case en_expiresAt (entitlement t now) of
      Some e \<Rightarrow> if en_kind (entitlement t now) = Subscription \<and> e > now then e else now
    | None \<Rightarrow> now) = extension_start t now"
  by (auto simp: entitlement_def licenseState_def extension_start_def Let_def KIND_OF_def
      split: option.splits license_plan.splits)

text \<open>Recording, with the tenant present: the three rewrites it makes.\<close>

lemma recordPayment_created:
  assumes "findPayment db (pr_referenceId ref) = Some p" and "pm_link_id p = Some (pr_linkId ref)"
    and "pm_status p = Created" and "findTenantById db (pm_tenant_id p) = Some t"
  shows "\<exists>p' db'. recordPayment db ref now = Some (Some p', db') \<and> findPayment db' (pr_referenceId ref) = Some p'
    \<and> map pm_id (payments db') = map pm_id (payments db)
    \<and> pm_status p' = Paid \<and> pm_period_ends_at p' = Some (periodEnd (extension_start t now) (pm_period p))
    \<and> tenants db' = tbl_update (\<lambda>u. tn_id u = pm_tenant_id p)
         (subscribe (periodEnd (extension_start t now) (pm_period p)) (pm_extra_workstations p) now) (tenants db)"
proof -
  let ?i = "pr_referenceId ref"
  let ?open = "\<lambda>q. pm_id q = pm_id p \<and> pm_status q = Created"
  have mem: "p \<in> set (payments db)" "pm_id p = ?i"
    using assms(1) tbl_lookup_mem [of pm_id ?i "payments db" p] by (simp_all add: findPayment_def)
  have fnd: "find (\<lambda>q. pm_id q = ?i) (payments db) = Some p"
    using assms(1) by (simp add: findPayment_def tbl_lookup_def)
  have some: "tbl_changes ?open (payments db) \<noteq> 0"
    using mem assms(3) by (auto simp: tbl_changes_def filter_empty_conv)
  have tid: "tn_id t = pm_tenant_id p"
    using find_Some_iff_mem [OF assms(4) [unfolded findTenantById_def]] by simp
  have cols: "''license_plan'' \<in> set MUTABLE_TENANT_COLUMNS" "''license_expires_at'' \<in> set MUTABLE_TENANT_COLUMNS"
    "''workstation_limit'' \<in> set MUTABLE_TENANT_COLUMNS" by (simp_all add: MUTABLE_TENANT_COLUMNS_def)
  note calc = recordPayment_def assms(1,2) some extension_start_plan updateTenant_def findTenantById_def cols
  show ?thesis
    using assms(3,4) mem(2) tid fnd some
    by (simp add: calc Let_def findPayment_update find_update subscribe_def [abs_def] PRICING_def map_key_update)
qed

lemma no_open_row: "tbl_changes q ps = 0 \<Longrightarrow> tbl_update q f ps = ps"
  by (induction ps) (auto simp: tbl_changes_def tbl_update_def split: if_splits)

lemma recordPayment_closed:
  assumes "distinct_keys pm_id (payments db)" and "findPayment db (pr_referenceId ref) = Some p" and "pm_status p = Paid"
  shows "recordPayment db ref now = Some (None, db)"
proof -
  let ?open = "\<lambda>q. pm_id q = pm_id p \<and> pm_status q = Created"
  have mem: "p \<in> set (payments db)"
    using assms(2) tbl_lookup_mem [of pm_id _ "payments db" p] by (simp add: findPayment_def)
  have "q = p" if "q \<in> set (payments db)" "pm_id q = pm_id p" for q
    using assms(1) mem that by (auto simp: distinct_map inj_on_def)
  then have "\<forall>q\<in>set (payments db). \<not> ?open q" using assms(3) by (metis payment_status.distinct(1))
  then have "tbl_changes ?open (payments db) = 0" by (auto simp: tbl_changes_def filter_empty_conv)
  then show ?thesis using assms(2) by (simp add: recordPayment_def Let_def no_open_row)
qed

lemma recordPayment_other:
  assumes "findPayment db (pr_referenceId ref) = None \<or> (\<exists>p. findPayment db (pr_referenceId ref) = Some p \<and> pm_link_id p \<noteq> Some (pr_linkId ref))"
  shows "recordPayment db ref now = Some (None, db)"
  using assms by (auto simp: recordPayment_def)

text \<open>
  C6. A payment that Razorpay reports, under the reference and the link it was opened with, is
  recorded: the plan becomes a subscription for 45 workstations and the extra ones paid for, its end
  is one period after now or after the end of the subscription still in force, and every later
  report of the same reference, whatever it carries, changes nothing.
\<close>

theorem recordPayment_once:
  assumes "distinct_keys pm_id (payments db)"
    and "findPayment db (pr_referenceId ref) = Some p" and "pm_link_id p = Some (pr_linkId ref)"
    and "pm_status p = Created" and "findTenantById db (pm_tenant_id p) = Some t" and "0 \<le> now"
    and "0 \<le> pm_extra_workstations p"
  shows "\<exists>p' db' t'. recordPayment db ref now = Some (Some p', db')
    \<and> findTenantById db' (pm_tenant_id p) = Some t'
    \<and> en_kind (entitlement t' now) = Subscription
    \<and> en_limit (entitlement t' now) = 45 + pm_extra_workstations p
    \<and> en_expiresAt (entitlement t' now) = Some (periodEnd (extension_start t now) (pm_period p))
    \<and> (\<forall>ref' now'. pr_referenceId ref' = pr_referenceId ref \<longrightarrow> recordPayment db' ref' now' = Some (None, db'))"
proof -
  let ?ends = "periodEnd (extension_start t now) (pm_period p)"
  obtain p' db' where run: "recordPayment db ref now = Some (Some p', db')"
    and ids: "map pm_id (payments db') = map pm_id (payments db)"
    and p': "findPayment db' (pr_referenceId ref) = Some p'" "pm_status p' = Paid"
    and tdb: "tenants db' = tbl_update (\<lambda>u. tn_id u = pm_tenant_id p) (subscribe ?ends (pm_extra_workstations p) now) (tenants db)"
    using recordPayment_created [OF assms(2-5), of now] by metis
  have t': "findTenantById db' (pm_tenant_id p) = Some (subscribe ?ends (pm_extra_workstations p) now t)"
    using assms(5) find_Some_iff_mem [OF assms(5) [unfolded findTenantById_def]]
    by (simp add: findTenantById_def tdb find_update subscribe_def)
  have start: "now \<le> extension_start t now" by (auto simp: extension_start_def split: option.splits)
  obtain y m d where c: "civil_of_day (extension_start t now div 86400) = (y, m, d)" by (metis prod_cases3)
  obtain y' m' where l: "later_month (pm_period p) y m = (y', m')" by fastforce
  have "0 \<le> extension_start t now" using start assms(6) by simp
  note pe = periodEnd_civil [OF this c l]
  have "extension_start t now = day_of_civil y m d * 86400 + extension_start t now mod 86400" using pe(4) by simp
  then have "now < ?ends" using pe(1) later_day_bounds(1) [OF pe(3) l] start by (auto split: if_splits)
  with assms(7) have ent: "en_kind (entitlement (subscribe ?ends (pm_extra_workstations p) now t) now) = Subscription"
    "en_limit (entitlement (subscribe ?ends (pm_extra_workstations p) now t) now)
       = 45 + pm_extra_workstations p"
    "en_expiresAt (entitlement (subscribe ?ends (pm_extra_workstations p) now t) now) = Some ?ends"
    by (auto simp: entitlement_def licenseState_def Let_def subscribe_def isLicensePlan_values KIND_OF_def PRICING_def)
  have again: "recordPayment db' ref' now' = Some (None, db')" if "pr_referenceId ref' = pr_referenceId ref" for ref' now'
    using recordPayment_closed [of db' ref' p' now'] assms(1) ids p' that by simp
  from run t' ent again show ?thesis by blast
qed

definition shop_db :: d1 where
  "shop_db = empty_db\<lparr>tenants := [plain_tenant ''t'' ''u'' ''lab''],
     payments := [\<lparr>pm_id = ''lk1'', pm_tenant_id = ''t'', pm_link_id = Some ''plink'', pm_short_url = None,
       pm_period = Month, pm_extra_workstations = 10, pm_subtotal_paise = 0, pm_gst_paise = 0, pm_total_paise = 0,
       pm_status = Created, pm_razorpay_payment_id = None, pm_created_by = None, pm_created_at = 0,
       pm_paid_at = None, pm_period_ends_at = None\<rparr>]\<rparr>"

theorem recordPayment_once_witness:
  "\<exists>p' db' t'. recordPayment shop_db \<lparr>pr_referenceId = ''lk1'', pr_linkId = ''plink'', pr_paymentId = ''pay''\<rparr> 100 = Some (Some p', db')
     \<and> findTenantById db' ''t'' = Some t' \<and> en_limit (entitlement t' 100) = 55"
proof -
  let ?ref = "\<lparr>pr_referenceId = ''lk1'', pr_linkId = ''plink'', pr_paymentId = ''pay''\<rparr>"
  obtain p where p: "findPayment shop_db (pr_referenceId ?ref) = Some p" "pm_link_id p = Some (pr_linkId ?ref)"
    "pm_status p = Created" "pm_tenant_id p = ''t''" "pm_extra_workstations p = 10"
    by (simp add: findPayment_def tbl_lookup_def shop_db_def)
  obtain t where t: "findTenantById shop_db (pm_tenant_id p) = Some t"
    using p(4) by (simp add: findTenantById_def shop_db_def plain_tenant_def)
  have "distinct_keys pm_id (payments shop_db)" by (simp add: shop_db_def)
  from recordPayment_once [OF this p(1-3) t, of 100] p(4,5) show ?thesis by auto
qed

subsection \<open>Payment links leave no half-made row\<close>

lemma drop_created_fresh:
  "findPayment db i = None \<Longrightarrow> drop_created i (db\<lparr>payments := payments db @ [new_payment input i]\<rparr>) = db"
proof -
  assume "findPayment db i = None"
  then have "filter (\<lambda>p. \<not> (pm_id p = i \<and> pm_status p = Created)) (payments db) = payments db"
    by (auto simp: findPayment_def tbl_lookup_None filter_id_conv)
  then show ?thesis by (simp add: drop_created_def new_payment_def Let_def)
qed

text \<open>
  Asking for a payment link either fails and leaves the database as it was, or adds exactly one
  open payment for the quoted price that carries Razorpay's link; the one answer that leaves the new
  row behind is a body that is the JSON value \<open>null\<close>.
\<close>

theorem createPaymentLink_effect:
  assumes "findPayment db i = None"
  shows "case createPaymentLink hmac net clock env db input i of
      (Inr p, db') \<Rightarrow> db' = db\<lparr>payments := payments db @ [p]\<rparr> \<and> pm_id p = i \<and> pm_status p = Created
        \<and> pm_tenant_id p = li_tenantId input \<and> pm_total_paise p = qt_total (li_quote input) \<and> pm_link_id p \<noteq> None
        \<and> billingEnabled env
    | (Inl e, db') \<Rightarrow> db' = db \<or> e = ''Cannot read properties of null''"
proof -
  let ?p = "new_payment input i"
  have new: "pm_id ?p = i" "pm_status ?p = Created" "pm_tenant_id ?p = li_tenantId input"
    "pm_total_paise ?p = qt_total (li_quote input)" by (simp_all add: new_payment_def Let_def)
  have upd: "tbl_update (\<lambda>p. pm_id p = i) f (payments db @ [?p]) = payments db @ [f ?p]" for f
    using assms new(1) by (auto simp: findPayment_def tbl_lookup_None tbl_update_def intro!: map_idI)
  have fnd: "findPayment (db\<lparr>payments := payments db @ [q]\<rparr>) i = Some q" if "pm_id q = i" for q
    using assms that by (simp add: findPayment_def tbl_lookup_append) (simp add: tbl_lookup_def)
  show ?thesis
    using assms by (auto simp: createPaymentLink_def Let_def drop_created_fresh upd fnd new
        split: sum.split option.split json.split)
qed

theorem createPaymentLink_effect_witness:
  "fst (createPaymentLink (\<lambda>k m. []) (\<lambda>n r. None) (\<lambda>n. 0)
     \<lparr>RAZORPAY_KEY_ID = Some ''k'', RAZORPAY_KEY_SECRET = Some ''s'', RAZORPAY_RELAY_URL = None, RAZORPAY_RELAY_SECRET = None\<rparr>
     empty_db \<lparr>li_tenantId = ''t'', li_organization = ''Lab'', li_userId = ''u'', li_email = ''e'', li_name = ''n'',
       li_quote = quote Month 0, li_callbackUrl = ''c'', li_nowSeconds = 5\<rparr> ''lk1'')
   = Inl ''Razorpay could not be reached. Try again in a few minutes.''
   \<and> snd (createPaymentLink (\<lambda>k m. []) (\<lambda>n r. None) (\<lambda>n. 0)
     \<lparr>RAZORPAY_KEY_ID = Some ''k'', RAZORPAY_KEY_SECRET = Some ''s'', RAZORPAY_RELAY_URL = None, RAZORPAY_RELAY_SECRET = None\<rparr>
     empty_db \<lparr>li_tenantId = ''t'', li_organization = ''Lab'', li_userId = ''u'', li_email = ''e'', li_name = ''n'',
       li_quote = quote Month 0, li_callbackUrl = ''c'', li_nowSeconds = 5\<rparr> ''lk1'') = empty_db"
proof -
  let ?env = "\<lparr>RAZORPAY_KEY_ID = Some ''k'', RAZORPAY_KEY_SECRET = Some ''s'', RAZORPAY_RELAY_URL = None, RAZORPAY_RELAY_SECRET = None\<rparr>"
  let ?in = "\<lparr>li_tenantId = ''t'', li_organization = ''Lab'', li_userId = ''u'', li_email = ''e'', li_name = ''n'',
       li_quote = quote Month 0, li_callbackUrl = ''c'', li_nowSeconds = 5\<rparr>"
  let ?run = "createPaymentLink (\<lambda>k m. []) (\<lambda>n r. None) (\<lambda>n. 0) ?env empty_db ?in ''lk1''"
  have "findPayment empty_db ''lk1'' = None" by code_simp
  from createPaymentLink_effect [OF this, where hmac = "\<lambda>k m. []" and net = "\<lambda>n r. None" and clock = "\<lambda>n. 0" and env = ?env and input = ?in]
  have "snd ?run = empty_db \<or> fst ?run \<noteq> Inl ''Razorpay could not be reached. Try again in a few minutes.''"
    by (cases ?run) (auto split: sum.splits simp del: list.inject char.inject)
  moreover have "fst ?run = Inl ''Razorpay could not be reached. Try again in a few minutes.''"
    by (simp add: createPaymentLink_def billingEnabled_def razorpayRoute_def or_empty_def trim_def findPayment_def
        tbl_lookup_def empty_db_def fetchRazorpay_def sendToRazorpay_def Let_def)
  ultimately show ?thesis by simp
qed

end
