(* ===== verification/Releases.thy ===== *)
theory Releases
  imports Store "HOL-Library.Product_Lexorder"
begin

text \<open>
  Over-the-air releases (\<open>src/cloudflare-control/src/releases.ts\<close>): the version order, the record of
  releases and majors, what an organization is offered, and what one workstation may be moved to.
  A throw is \<open>None\<close> (or \<open>Inl\<close> with its message). The release tables are a record beside the rest of
  the database; the releases bucket and \<open>JSON.parse\<close> are parameters of the operations that read them.
\<close>

subsection \<open>Versions\<close>

text \<open>
  \<open>Number(digits)\<close>: exact below \<open>2^53\<close>, above it the nearest multiple of the spacing of doubles of
  that size, ties to even.
\<close>

fun bit_count :: "nat \<Rightarrow> nat" where
  "bit_count n = (if n = 0 then 0 else Suc (bit_count (n div 2)))"

declare bit_count.simps [simp del]

definition js_number :: "nat \<Rightarrow> nat" where
  "js_number n =
     (if int n < 2 ^ 53 then n
      else let u = 2 ^ (bit_count n - 53); q = n div u; r = n mod u
           in (if 2 * r > u \<or> (2 * r = u \<and> odd q) then q + 1 else q) * u)"

text \<open>\<open>RELEASE_VERSION_PATTERN\<close>: three numbers of 1 to 4 digits, and optionally a hyphen and 1 to 32 letters, digits and dots.\<close>

definition is_pre_char :: "char \<Rightarrow> bool" where
  "is_pre_char c = (is_digit c \<or> is_upper c \<or> is_lower c \<or> c = CHR ''.'')"

definition core_text :: "string \<Rightarrow> string" where
  "core_text v = takeWhile (\<lambda>c. c \<noteq> CHR ''-'') v"

definition pre_text :: "string \<Rightarrow> string option" where
  "pre_text v = (case dropWhile (\<lambda>c. c \<noteq> CHR ''-'') v of [] \<Rightarrow> None | d # p \<Rightarrow> Some p)"

definition RELEASE_VERSION_PATTERN :: "string \<Rightarrow> bool" where
  "RELEASE_VERSION_PATTERN v =
     (let parts = split_on CHR ''.'' (core_text v) in
      length parts = 3 \<and> list_all (\<lambda>p. 1 \<le> length p \<and> length p \<le> 4 \<and> list_all is_digit p) parts
      \<and> (case pre_text v of None \<Rightarrow> True
         | Some p \<Rightarrow> 1 \<le> length p \<and> length p \<le> 32 \<and> list_all is_pre_char p))"

record version_key =
  vk_core :: "nat list"
  vk_pre :: "(nat \<times> nat \<times> string) list option"

definition pre_part :: "string \<Rightarrow> nat \<times> nat \<times> string" where
  "pre_part p = (if list_all is_digit p then (0, js_number (read_nat p), []) else (1, 0, p))"

definition versionKey :: "string \<Rightarrow> version_key option" where
  "versionKey v =
     (if \<not> RELEASE_VERSION_PATTERN v then None
      else let core = map read_nat (split_on CHR ''.'' (core_text v)) in
           case pre_text v of
             None \<Rightarrow> Some \<lparr>vk_core = core, vk_pre = None\<rparr>
           | Some p \<Rightarrow>
               let parts = split_on CHR ''.'' p in
               if list_ex (\<lambda>q. q = []) parts then None
               else Some \<lparr>vk_core = core, vk_pre = Some (map pre_part parts)\<rparr>)"

definition three_way :: "'a::linorder \<Rightarrow> 'a \<Rightarrow> int" where
  "three_way a b = (if a = b then 0 else if a < b then -1 else 1)"

text \<open>The loop over the three numbers, and the one over the pre-release parts.\<close>

fun compare_cores :: "nat list \<Rightarrow> nat list \<Rightarrow> int" where
  "compare_cores (a # as) (b # bs) = (if a \<noteq> b then if a < b then -1 else 1 else compare_cores as bs)"
| "compare_cores _ _ = 0"

fun compare_parts :: "(nat \<times> nat \<times> string) list \<Rightarrow> (nat \<times> nat \<times> string) list \<Rightarrow> int" where
  "compare_parts ((ta, na, sa) # as) ((tb, nb, sb) # bs) =
     (if ta \<noteq> tb then if ta < tb then -1 else 1
      else if na \<noteq> nb then if na < nb then -1 else 1
      else if sa \<noteq> sb then if sa < sb then -1 else 1
      else compare_parts as bs)"
| "compare_parts [] [] = 0"
| "compare_parts [] (b # bs) = -1"
| "compare_parts (a # as) [] = 1"

definition compare_keys :: "version_key \<Rightarrow> version_key \<Rightarrow> int" where
  "compare_keys ka kb =
     (let c = compare_cores (vk_core ka) (vk_core kb) in
      if c \<noteq> 0 then c
      else case (vk_pre ka, vk_pre kb) of
        (None, None) \<Rightarrow> 0
      | (Some _, None) \<Rightarrow> -1
      | (None, Some _) \<Rightarrow> 1
      | (Some pa, Some pb) \<Rightarrow> compare_parts pa pb)"

definition compareVersions :: "string \<Rightarrow> string \<Rightarrow> int option" where
  "compareVersions a b =
     (case (versionKey a, versionKey b) of (Some ka, Some kb) \<Rightarrow> Some (compare_keys ka kb) | _ \<Rightarrow> None)"

definition isReleaseVersion :: "string \<Rightarrow> bool" where
  "isReleaseVersion v = (versionKey v \<noteq> None)"

definition is_release_version :: "json \<Rightarrow> string option" where
  "is_release_version v = (case v of JStr s \<Rightarrow> if isReleaseVersion s then Some s else None | _ \<Rightarrow> None)"

definition releaseLine :: "string \<Rightarrow> string option" where
  "releaseLine v = map_option (\<lambda>k. show_nat (vk_core k ! 0) @ ''.'' @ show_nat (vk_core k ! 1)) (versionKey v)"

definition releaseMajor :: "string \<Rightarrow> nat option" where
  "releaseMajor v = map_option (\<lambda>k. vk_core k ! 0) (versionKey v)"

subsection \<open>The version order is the one of Semantic Versioning\<close>

text \<open>
  The reference order: the three numbers first, a release above its pre-releases, then the parts in
  order, numbers below words, a shorter list first. On lists and pairs this is the library's
  lexicographic order.
\<close>

definition precedence :: "version_key \<Rightarrow> nat list \<times> bool \<times> (nat \<times> nat \<times> string) list" where
  "precedence k = (vk_core k, vk_pre k = None, case vk_pre k of None \<Rightarrow> [] | Some p \<Rightarrow> p)"

lemma compare_cores_order: "length a = length b \<Longrightarrow> compare_cores a b = three_way a b"
  by (induction a b rule: compare_cores.induct) (auto simp: three_way_def)

lemma compare_parts_order: "compare_parts a b = three_way a b"
  by (induction a b rule: compare_parts.induct) (auto simp: three_way_def)

lemma versionKey_core_length: "versionKey v = Some k \<Longrightarrow> length (vk_core k) = 3"
  by (auto simp: versionKey_def RELEASE_VERSION_PATTERN_def Let_def split: if_splits option.splits)

lemma compare_keys_order:
  assumes "length (vk_core ka) = length (vk_core kb)"
  shows "compare_keys ka kb = three_way (precedence ka) (precedence kb)"
  using compare_cores_order [OF assms]
  by (auto simp: compare_keys_def precedence_def compare_parts_order three_way_def Let_def split: option.splits)

lemma compareVersions_order:
  assumes "versionKey a = Some ka" and "versionKey b = Some kb"
  shows "compareVersions a b = Some (three_way (precedence ka) (precedence kb))"
  using assms compare_keys_order [of ka kb] versionKey_core_length by (simp add: compareVersions_def)

subsection \<open>Releases, majors and grants\<close>

datatype update_channel = Stable | Beta

datatype release_kind = Feature | Security

datatype support_status = Supported | Security_only | End_of_life

record release_row =
  rl_version :: string
  rl_channel :: "update_channel option"
  rl_kind :: release_kind
  rl_base_version :: "string option"
  rl_security_floor :: string
  rl_size_bytes :: int
  rl_built_at :: string
  rl_manifest :: string
  rl_found_at :: int
  rl_classified_at :: "int option"
  rl_classified_by :: "string option"
  rl_revoked_at :: "int option"
  rl_architectures :: string

record major_support =
  ms_major :: nat
  ms_status :: support_status
  ms_end_of_life_at :: "int option"
  ms_note :: "string option"
  ms_updated_at :: int
  ms_updated_by :: "string option"
  ms_eol_reminder_days :: "int option"

record major_row =
  mj_major :: nat
  mj_open :: bool
  mj_updated_at :: int
  mj_updated_by :: "string option"

record major_grant =
  mg_tenant_id :: string
  mg_major :: nat
  mg_granted_by :: "string option"
  mg_granted_at :: "int option"
  mg_confirmed_by :: "string option"
  mg_confirmed_at :: "int option"
  mg_requested_by :: "string option"
  mg_requested_at :: "int option"
  mg_pilot_group :: "string option"
  mg_pilot_by :: "string option"
  mg_pilot_at :: "int option"

text \<open>The tables \<open>releases\<close>, \<open>release_support\<close>, \<open>release_majors\<close> and \<open>major_upgrade_grants\<close>.\<close>

record release_db =
  releases :: "release_row list"
  release_support :: "major_support list"
  release_majors :: "major_row list"
  major_upgrade_grants :: "major_grant list"

record release_offer =
  ro_version :: string
  ro_kind :: release_kind
  ro_sizeBytes :: int
  ro_classifiedAt :: int
  ro_support :: "support_status option"
  ro_gated :: bool
  ro_pilotGroup :: "string option"
  ro_lineOnly :: bool
  ro_approved :: bool

definition MAX_RELEASE_MAJOR :: nat where
  "MAX_RELEASE_MAJOR = 9999"

definition isReleaseMajor :: "json \<Rightarrow> bool" where
  "isReleaseMajor v = (case v of JInt i \<Rightarrow> 0 \<le> i \<and> i \<le> int MAX_RELEASE_MAJOR | _ \<Rightarrow> False)"

text \<open>A number that is there and not 0: \<open>if (x)\<close> on a nullable column.\<close>

definition truthy_int :: "int option \<Rightarrow> bool" where
  "truthy_int x = (case x of None \<Rightarrow> False | Some i \<Rightarrow> i \<noteq> 0)"

definition effectiveSupportStatus :: "major_support option \<Rightarrow> int \<Rightarrow> support_status" where
  "effectiveSupportStatus row now =
     (case row of
        None \<Rightarrow> Supported
      | Some r \<Rightarrow>
          (case ms_end_of_life_at r of
             Some t \<Rightarrow> if t \<noteq> 0 \<and> t \<le> now then End_of_life else ms_status r
           | None \<Rightarrow> ms_status r))"

definition listMajorSupport :: "release_db \<Rightarrow> nat \<Rightarrow> major_support option" where
  "listMajorSupport db major = tbl_lookup ms_major major (release_support db)"

text \<open>\<open>None\<close> where the major is none (\<open>setMajorSupport\<close> throws).\<close>

definition setMajorSupport ::
  "release_db \<Rightarrow> nat \<Rightarrow> support_status \<Rightarrow> int option \<Rightarrow> string option \<Rightarrow> string \<Rightarrow> int \<Rightarrow> release_db option" where
  "setMajorSupport db major status endOfLifeAt note userId now =
     (if major > MAX_RELEASE_MAJOR then None
      else let kept = (case listMajorSupport db major of
                         Some r \<Rightarrow> if ms_end_of_life_at r = endOfLifeAt then ms_eol_reminder_days r else None
                       | None \<Rightarrow> None);
               row = \<lparr>ms_major = major, ms_status = status, ms_end_of_life_at = endOfLifeAt, ms_note = note,
                      ms_updated_at = now, ms_updated_by = Some userId, ms_eol_reminder_days = kept\<rparr>
           in Some (db\<lparr>release_support := tbl_upsert ms_major row (release_support db)\<rparr>))"

definition listReleaseMajors :: "release_db \<Rightarrow> nat \<Rightarrow> bool option" where
  "listReleaseMajors db major = map_option mj_open (tbl_lookup mj_major major (release_majors db))"

definition setReleaseMajorOpen :: "release_db \<Rightarrow> nat \<Rightarrow> bool \<Rightarrow> string \<Rightarrow> int \<Rightarrow> release_db" where
  "setReleaseMajorOpen db major opened userId now =
     db\<lparr>release_majors := tbl_upsert mj_major
          \<lparr>mj_major = major, mj_open = opened, mj_updated_at = now, mj_updated_by = Some userId\<rparr> (release_majors db)\<rparr>"

definition grant_key :: "major_grant \<Rightarrow> string \<times> nat" where
  "grant_key g = (mg_tenant_id g, mg_major g)"

definition listMajorGrants :: "release_db \<Rightarrow> string \<Rightarrow> nat \<Rightarrow> major_grant option" where
  "listMajorGrants db tenantId major = tbl_lookup grant_key (tenantId, major) (major_upgrade_grants db)"

definition no_grant :: "string \<Rightarrow> nat \<Rightarrow> major_grant" where
  "no_grant tenantId major = \<lparr>mg_tenant_id = tenantId, mg_major = major, mg_granted_by = None, mg_granted_at = None,
     mg_confirmed_by = None, mg_confirmed_at = None, mg_requested_by = None, mg_requested_at = None,
     mg_pilot_group = None, mg_pilot_by = None, mg_pilot_at = None\<rparr>"

text \<open>\<open>INSERT ... ON CONFLICT(tenant_id, major) DO UPDATE SET\<close> the columns the statement names.\<close>

definition upsert_grant :: "release_db \<Rightarrow> string \<Rightarrow> nat \<Rightarrow> (major_grant \<Rightarrow> major_grant) \<Rightarrow> release_db" where
  "upsert_grant db tenantId major change =
     db\<lparr>major_upgrade_grants := tbl_upsert grant_key
          (change (case listMajorGrants db tenantId major of None \<Rightarrow> no_grant tenantId major | Some g \<Rightarrow> g))
          (major_upgrade_grants db)\<rparr>"

definition setMajorGrant :: "release_db \<Rightarrow> string \<Rightarrow> nat \<Rightarrow> bool \<Rightarrow> string \<Rightarrow> int \<Rightarrow> release_db" where
  "setMajorGrant db tenantId major granted userId now =
     (if granted then upsert_grant db tenantId major (\<lambda>g. g\<lparr>mg_granted_by := Some userId, mg_granted_at := Some now\<rparr>)
      else db\<lparr>major_upgrade_grants := tbl_delete grant_key (tenantId, major) (major_upgrade_grants db)\<rparr>)"

definition confirmMajor :: "release_db \<Rightarrow> string \<Rightarrow> nat \<Rightarrow> string \<Rightarrow> int \<Rightarrow> release_db" where
  "confirmMajor db tenantId major userId now =
     upsert_grant db tenantId major (\<lambda>g. g\<lparr>mg_confirmed_by := Some userId, mg_confirmed_at := Some now\<rparr>)"

definition requestMajor :: "release_db \<Rightarrow> string \<Rightarrow> nat \<Rightarrow> string \<Rightarrow> int \<Rightarrow> release_db" where
  "requestMajor db tenantId major userId now =
     upsert_grant db tenantId major (\<lambda>g. g\<lparr>mg_requested_by := Some userId, mg_requested_at := Some now\<rparr>)"

definition declinable :: "string \<Rightarrow> nat \<Rightarrow> major_grant \<Rightarrow> bool" where
  "declinable tenantId major g = (mg_tenant_id g = tenantId \<and> mg_major g = major \<and> mg_requested_at g \<noteq> None
     \<and> mg_granted_at g = None \<and> mg_confirmed_at g = None)"

definition declineMajorRequest :: "release_db \<Rightarrow> string \<Rightarrow> nat \<Rightarrow> bool \<times> release_db" where
  "declineMajorRequest db tenantId major =
     (list_ex (declinable tenantId major) (major_upgrade_grants db),
      db\<lparr>major_upgrade_grants := filter (\<lambda>g. \<not> declinable tenantId major g) (major_upgrade_grants db)\<rparr>)"

definition setMajorPilot :: "release_db \<Rightarrow> string \<Rightarrow> nat \<Rightarrow> string option \<Rightarrow> string \<Rightarrow> int \<Rightarrow> release_db" where
  "setMajorPilot db tenantId major pilot userId now =
     upsert_grant db tenantId major (\<lambda>g. g\<lparr>mg_pilot_group := pilot,
       mg_pilot_by := (if pilot = None then None else Some userId),
       mg_pilot_at := (if pilot = None then None else Some now)\<rparr>)"

definition hasMajorPilot :: "release_db \<Rightarrow> string \<Rightarrow> bool" where
  "hasMajorPilot db tenantId =
     list_ex (\<lambda>g. mg_tenant_id g = tenantId \<and> mg_pilot_group g \<noteq> None \<and> mg_confirmed_at g = None) (major_upgrade_grants db)"

definition orphaned_pilot :: "d1 \<Rightarrow> string \<Rightarrow> major_grant \<Rightarrow> bool" where
  "orphaned_pilot d tenantId g = (mg_tenant_id g = tenantId
     \<and> (case mg_pilot_group g of None \<Rightarrow> False
        | Some p \<Rightarrow> \<not> list_ex (\<lambda>w. wg_tenant_id w = tenantId \<and> wg_name w = p) (workstation_groups d)))"

definition endOrphanedMajorPilots :: "d1 \<Rightarrow> release_db \<Rightarrow> string \<Rightarrow> nat \<times> release_db" where
  "endOrphanedMajorPilots d db tenantId =
     (tbl_changes (orphaned_pilot d tenantId) (major_upgrade_grants db),
      db\<lparr>major_upgrade_grants := tbl_update (orphaned_pilot d tenantId)
           (\<lambda>g. g\<lparr>mg_pilot_group := None, mg_pilot_by := None, mg_pilot_at := None\<rparr>) (major_upgrade_grants db)\<rparr>)"

definition workstationGroupsIn :: "d1 \<Rightarrow> string \<Rightarrow> string list \<Rightarrow> (string \<times> string) list" where
  "workstationGroupsIn d tenantId groups =
     (if groups = [] then []
      else rev (concat (map (\<lambda>c. case cd_group_name c of Some g \<Rightarrow> [(cd_client_id c, g)] | None \<Rightarrow> [])
             (filter (\<lambda>c. cd_tenant_id c = tenantId
                \<and> (case cd_group_name c of None \<Rightarrow> False | Some g \<Rightarrow> g \<in> set groups)) (client_devices d)))))"

subsection \<open>What an organization is offered\<close>

datatype major_access = Free_major | Closed | Requested | Available | Pilot | Confirmed

definition majorAccess :: "bool option \<Rightarrow> major_grant option \<Rightarrow> major_access" where
  "majorAccess opened grant =
     (let col = (\<lambda>f. case grant of None \<Rightarrow> False | Some g \<Rightarrow> truthy_int (f g)) in
      case opened of
        None \<Rightarrow> Free_major
      | Some is_open \<Rightarrow>
          if \<not> is_open \<and> \<not> col mg_granted_at then if col mg_requested_at then Requested else Closed
          else if col mg_confirmed_at then Confirmed
          else if (case grant of None \<Rightarrow> False | Some g \<Rightarrow> truthy_text (mg_pilot_group g)) then Pilot else Available)"

definition majorGated :: "major_access \<Rightarrow> bool" where
  "majorGated access = (access \<noteq> Free_major \<and> access \<noteq> Confirmed)"

definition DEFAULT_ARCHITECTURE :: string where
  "DEFAULT_ARCHITECTURE = ''amd64''"

definition ARCHITECTURE_PATTERN :: "string \<Rightarrow> bool" where
  "ARCHITECTURE_PATTERN a = (2 \<le> length a \<and> length a \<le> 16 \<and> list_all (\<lambda>c. is_lower c \<or> is_digit c) a)"

definition releaseArchitectures :: "string option \<Rightarrow> string list" where
  "releaseArchitectures column =
     (let listed = filter ARCHITECTURE_PATTERN (map trim (split_on CHR '','' (text_of column)))
      in DEFAULT_ARCHITECTURE # sort (remdups (filter (\<lambda>a. a \<noteq> DEFAULT_ARCHITECTURE) listed)))"

text \<open>
  The line, the major and the order of a version already checked: where the source would throw on a
  text that is no version these give a default, and every result about offers assumes \<open>offers_ok\<close>,
  which \<open>offeredReleases\<close> ensures.
\<close>

definition line_of :: "string \<Rightarrow> string" where
  "line_of v = (case releaseLine v of Some l \<Rightarrow> l | None \<Rightarrow> [])"

definition major_of :: "string \<Rightarrow> nat" where
  "major_of v = (case releaseMajor v of Some m \<Rightarrow> m | None \<Rightarrow> 0)"

definition version_cmp :: "string \<Rightarrow> string \<Rightarrow> int" where
  "version_cmp a b = (case compareVersions a b of Some c \<Rightarrow> c | None \<Rightarrow> 0)"

definition offers_ok :: "release_offer list \<Rightarrow> bool" where
  "offers_ok rs = list_all (\<lambda>r. isReleaseVersion (ro_version r)) rs"

definition channels_of :: "update_channel option \<Rightarrow> update_channel list" where
  "channels_of channel = (if channel = Some Beta then [Stable, Beta] else [Stable])"

definition in_channels :: "update_channel list \<Rightarrow> release_row \<Rightarrow> bool" where
  "in_channels channels row = (case rl_channel row of None \<Rightarrow> False | Some c \<Rightarrow> c \<in> set channels)"

definition offer_of :: "release_db \<Rightarrow> string option \<Rightarrow> string list \<Rightarrow> int \<Rightarrow> release_row \<Rightarrow> release_offer" where
  "offer_of db tenantId ls now row =
     (let major = major_of (rl_version row);
          grant = (if truthy_text tenantId then listMajorGrants db (text_of tenantId) major else None);
          access = majorAccess (listReleaseMajors db major) grant;
          status = effectiveSupportStatus (listMajorSupport db major) now
      in \<lparr>ro_version = rl_version row, ro_kind = rl_kind row, ro_sizeBytes = rl_size_bytes row,
          ro_classifiedAt = (if rl_kind row = Security then rl_found_at row
                             else case rl_classified_at row of None \<Rightarrow> 0 | Some t \<Rightarrow> t),
          ro_support = (if status \<noteq> Supported then Some status else None),
          ro_gated = majorGated access,
          ro_pilotGroup = (if access = Pilot then case grant of None \<Rightarrow> None | Some g \<Rightarrow> mg_pilot_group g else None),
          ro_lineOnly = (rl_kind row = Security \<and> line_of (rl_version row) \<notin> set ls),
          ro_approved = (access = Confirmed \<or> access = Pilot)\<rparr>)"

definition offeredReleases ::
  "release_db \<Rightarrow> update_channel option \<Rightarrow> string option \<Rightarrow> int \<Rightarrow> string \<Rightarrow> release_offer list" where
  "offeredReleases db channel tenantId now architecture =
     (let channels = channels_of channel;
          rows = filter (\<lambda>row. isReleaseVersion (rl_version row)
                     \<and> architecture \<in> set (releaseArchitectures (Some (rl_architectures row))))
                   (filter (\<lambda>row. rl_revoked_at row = None \<and> (rl_kind row = Security \<or> in_channels channels row)) (releases db));
          ls = map (\<lambda>row. line_of (rl_version row)) (filter (\<lambda>row. rl_kind row \<noteq> Security \<and> in_channels channels row) rows)
      in sort_by (\<lambda>a b. version_cmp (ro_version b) (ro_version a)) (map (offer_of db tenantId ls now) rows))"

subsection \<open>What one workstation may be moved to\<close>

definition known_version :: "string option \<Rightarrow> bool" where
  "known_version running = (case running of None \<Rightarrow> False | Some v \<Rightarrow> isReleaseVersion v)"

text \<open>The two filters of \<open>eligibleReleases\<close>.\<close>

definition supported_for :: "string option \<Rightarrow> release_offer \<Rightarrow> bool" where
  "supported_for running r =
     (let known = known_version running;
          major = (if known then int (major_of (text_of running)) else -1)
      in \<not> ro_support r = Some End_of_life
       \<and> \<not> (ro_lineOnly r \<and> \<not> (known \<and> line_of (ro_version r) = line_of (text_of running)))
       \<and> \<not> (ro_support r = Some Security_only \<and> (ro_kind r \<noteq> Security \<or> int (major_of (ro_version r)) \<noteq> major)))"

definition allowed_for :: "string option \<Rightarrow> string option \<Rightarrow> release_offer \<Rightarrow> bool" where
  "allowed_for running grp r =
     (let major = (if known_version running then int (major_of (text_of running)) else -1)
      in \<not> (ro_gated r \<and> int (major_of (ro_version r)) > major
            \<and> \<not> (truthy_text (ro_pilotGroup r) \<and> grp \<noteq> None \<and> ro_pilotGroup r = grp)))"

definition eligibleReleases :: "release_offer list \<Rightarrow> string option \<Rightarrow> string option \<Rightarrow> release_offer list" where
  "eligibleReleases rs running grp =
     (let supported = filter (supported_for running) rs;
          allowed = filter (allowed_for running grp) supported
      in if \<not> known_version running then allowed
         else let v = text_of running; major = major_of v;
                  newerInMajor = list_ex (\<lambda>r. major_of (ro_version r) = major \<and> version_cmp (ro_version r) v > 0) allowed;
                  higher = filter (\<lambda>m. m > major) (map (\<lambda>r. major_of (ro_version r)) supported);
                  nextMajor = (if newerInMajor \<or> higher = [] then major else Min (set higher))
              in filter (\<lambda>r. major_of (ro_version r) \<le> nextMajor) allowed)"

definition first_of :: "'a list \<Rightarrow> 'a option" where
  "first_of xs = (case xs of [] \<Rightarrow> None | x # _ \<Rightarrow> Some x)"

definition newestOffered :: "release_offer list \<Rightarrow> string option \<Rightarrow> release_offer option" where
  "newestOffered rs grp = first_of (eligibleReleases rs None grp)"

definition releaseOfMajorOffered :: "release_db \<Rightarrow> update_channel option \<Rightarrow> nat \<Rightarrow> int \<Rightarrow> bool" where
  "releaseOfMajorOffered db channel major now =
     list_ex (\<lambda>r. major_of (ro_version r) = major) (offeredReleases db channel None now DEFAULT_ARCHITECTURE)"

definition offeredRelease :: "release_db \<Rightarrow> update_channel option \<Rightarrow> string \<Rightarrow> int \<Rightarrow> release_offer option" where
  "offeredRelease db channel tenantId now = newestOffered (offeredReleases db channel (Some tenantId) now DEFAULT_ARCHITECTURE) None"

definition securityReleaseFor :: "release_offer list \<Rightarrow> string option \<Rightarrow> string option \<Rightarrow> release_offer option" where
  "securityReleaseFor rs running grp =
     (if \<not> known_version running then None
      else let v = text_of running in
           find (\<lambda>r. ro_kind r = Security \<and> line_of (ro_version r) = line_of v \<and> version_cmp (ro_version r) v > 0)
             (eligibleReleases rs running grp))"

definition installsByItself :: "release_offer \<Rightarrow> string option \<Rightarrow> bool" where
  "installsByItself release running =
     (if \<not> known_version running \<or> version_cmp (ro_version release) (text_of running) \<le> 0 then False
      else let v = text_of running; major = major_of (ro_version release) in
           if ro_kind release = Security then line_of (ro_version release) = line_of v
           else if major = major_of v then True
           else major > major_of v \<and> ro_approved release)"

definition workstationOffer ::
  "release_offer list \<Rightarrow> string option \<Rightarrow> string option \<Rightarrow> release_offer option \<times> release_offer option" where
  "workstationOffer rs running grp = (first_of (eligibleReleases rs running grp), securityReleaseFor rs running grp)"

definition updateTargetFor :: "release_offer list \<Rightarrow> string option \<Rightarrow> string option \<Rightarrow> release_offer option" where
  "updateTargetFor rs running grp =
     (if \<not> known_version running then None
      else let (release, security) = workstationOffer rs running grp;
               target = (case security of Some r \<Rightarrow> Some r | None \<Rightarrow> release)
           in case target of
                None \<Rightarrow> None
              | Some t \<Rightarrow> if version_cmp (ro_version t) (text_of running) > 0 then Some t else None)"

subsection \<open>The target of an update\<close>

definition rank :: "string \<Rightarrow> nat list \<times> bool \<times> (nat \<times> nat \<times> string) list" where
  "rank v = (case versionKey v of Some k \<Rightarrow> precedence k | None \<Rightarrow> ([], False, []))"

lemma version_cmp_rank:
  assumes "isReleaseVersion a" and "isReleaseVersion b"
  shows "version_cmp a b = three_way (rank a) (rank b)"
  using assms compareVersions_order by (auto simp: version_cmp_def isReleaseVersion_def rank_def)

lemma three_way_signs:
  "three_way a b > 0 \<longleftrightarrow> b < a" "three_way a b \<le> 0 \<longleftrightarrow> a \<le> b" "three_way a b < 0 \<longleftrightarrow> a < b"
  by (auto simp: three_way_def)

abbreviation newest_first :: "release_offer list \<Rightarrow> bool" where
  "newest_first rs \<equiv> sorted_wrt (\<lambda>a b. rank (ro_version b) \<le> rank (ro_version a)) rs"

lemma eligible_mem:
  assumes "r \<in> set (eligibleReleases rs running grp)"
  shows "r \<in> set rs \<and> supported_for running r \<and> allowed_for running grp r"
  using assms by (auto simp: eligibleReleases_def Let_def split: if_splits)

lemma eligible_sorted: "sorted_wrt R rs \<Longrightarrow> sorted_wrt R (eligibleReleases rs running grp)"
  by (simp add: eligibleReleases_def Let_def sorted_wrt_filter)

lemma first_of_iff: "first_of xs = Some x \<longleftrightarrow> (\<exists>ys. xs = x # ys)"
  by (cases xs) (auto simp: first_of_def)

lemma find_sorted:
  assumes "sorted_wrt R xs" and "find P xs = Some x" and "y \<in> set xs" and "P y"
  shows "y = x \<or> R x y"
  using assms by (induction xs) (auto split: if_splits)

definition line_fix :: "string \<Rightarrow> release_offer \<Rightarrow> bool" where
  "line_fix v r = (ro_kind r = Security \<and> line_of (ro_version r) = line_of v \<and> rank v < rank (ro_version r))"

lemma eligible_valid: "offers_ok rs \<Longrightarrow> r \<in> set (eligibleReleases rs running grp) \<Longrightarrow> isReleaseVersion (ro_version r)"
  using eligible_mem by (fastforce simp: offers_ok_def list_all_iff)

lemma find_cong_set: "(\<And>x. x \<in> set xs \<Longrightarrow> P x = Q x) \<Longrightarrow> find P xs = find Q xs"
  by (induction xs) auto

lemma securityReleaseFor_find:
  assumes "offers_ok rs" and "isReleaseVersion v"
  shows "securityReleaseFor rs (Some v) grp = find (line_fix v) (eligibleReleases rs (Some v) grp)"
proof -
  have "find (\<lambda>r. ro_kind r = Security \<and> line_of (ro_version r) = line_of v \<and> version_cmp (ro_version r) v > 0)
      (eligibleReleases rs (Some v) grp) = find (line_fix v) (eligibleReleases rs (Some v) grp)"
    using eligible_valid [OF assms(1)] assms(2)
    by (intro find_cong_set) (auto simp: line_fix_def version_cmp_rank three_way_signs)
  then show ?thesis using assms(2) by (simp add: securityReleaseFor_def known_version_def text_of_def Let_def)
qed

text \<open>
  What a workstation fetches next, of the releases it may take: the newest security fix for its
  line where there is one above what it runs, otherwise the newest release above what it runs; and
  nothing exactly when no release it may take is newer than what it runs.
\<close>

theorem update_target_exact:
  assumes "offers_ok rs" and "newest_first rs" and "isReleaseVersion v"
  shows "case updateTargetFor rs (Some v) grp of
      None \<Rightarrow> \<forall>r\<in>set (eligibleReleases rs (Some v) grp). rank (ro_version r) \<le> rank v
    | Some t \<Rightarrow> t \<in> set (eligibleReleases rs (Some v) grp) \<and> rank v < rank (ro_version t)
        \<and> (if \<exists>r\<in>set (eligibleReleases rs (Some v) grp). line_fix v r
           then line_fix v t \<and> (\<forall>r\<in>set (eligibleReleases rs (Some v) grp). line_fix v r \<longrightarrow> rank (ro_version r) \<le> rank (ro_version t))
           else \<forall>r\<in>set (eligibleReleases rs (Some v) grp). rank (ro_version r) \<le> rank (ro_version t))"
proof -
  let ?E = "eligibleReleases rs (Some v) grp"
  have sorted: "newest_first ?E" by (rule eligible_sorted [OF assms(2)])
  have cmp: "version_cmp (ro_version r) v > 0 \<longleftrightarrow> rank v < rank (ro_version r)" if "r \<in> set ?E" for r
    using eligible_valid [OF assms(1) that] assms(3) by (simp add: version_cmp_rank three_way_signs)
  show ?thesis
  proof (cases "find (line_fix v) ?E")
    case (Some t)
    have t: "t \<in> set ?E" "line_fix v t" using find_Some_iff_mem [OF Some] by auto
    have "updateTargetFor rs (Some v) grp = Some t"
      using t cmp [OF t(1)] Some assms(1,3)
      by (simp add: updateTargetFor_def workstationOffer_def known_version_def text_of_def securityReleaseFor_find line_fix_def)
    moreover have "rank (ro_version r) \<le> rank (ro_version t)" if "r \<in> set ?E" "line_fix v r" for r
      using find_sorted [OF sorted Some that] by auto
    ultimately show ?thesis using t by (auto simp: line_fix_def)
  next
    case None
    then have none: "\<not> (\<exists>r\<in>set ?E. line_fix v r)" by (simp add: find_None_iff_all)
    have target: "updateTargetFor rs (Some v) grp = (case ?E of [] \<Rightarrow> None
        | t # _ \<Rightarrow> if version_cmp (ro_version t) v > 0 then Some t else None)"
      using None assms(1,3)
      by (simp add: updateTargetFor_def workstationOffer_def known_version_def text_of_def securityReleaseFor_find first_of_def
          split: list.split)
    show ?thesis
    proof (cases ?E)
      case (Cons t es)
      then have "t \<in> set ?E" and top: "\<forall>r\<in>set ?E. rank (ro_version r) \<le> rank (ro_version t)" using sorted by auto
      with target cmp [of t] none Cons show ?thesis by (auto intro: order_trans simp: not_less)
    qed (simp add: target)
  qed
qed

subsection \<open>Which majors it may reach\<close>

lemma offered_facts:
  assumes "r \<in> set (offeredReleases db channel tenantId now arch)"
  obtains row ls where "row \<in> set (releases db)" "r = offer_of db tenantId ls now row" "isReleaseVersion (rl_version row)"
    "rl_revoked_at row = None" "rl_kind row = Security \<or> in_channels (channels_of channel) row"
    "arch \<in> set (releaseArchitectures (Some (rl_architectures row)))"
    "ls = map (\<lambda>row. line_of (rl_version row)) (filter (\<lambda>row. rl_kind row \<noteq> Security \<and> in_channels (channels_of channel) row)
       (filter (\<lambda>row. isReleaseVersion (rl_version row) \<and> arch \<in> set (releaseArchitectures (Some (rl_architectures row))))
         (filter (\<lambda>row. rl_revoked_at row = None \<and> (rl_kind row = Security \<or> in_channels (channels_of channel) row)) (releases db))))"
  using assms that unfolding offeredReleases_def Let_def set_sort_by by auto

lemma offer_of_version [simp]: "ro_version (offer_of db tenantId ls now row) = rl_version row"
  by (simp add: offer_of_def Let_def)

lemma offered_ok: "offers_ok (offeredReleases db channel tenantId now arch)"
  unfolding offers_ok_def list_all_iff by (auto elim: offered_facts)

lemma offered_newest_first: "newest_first (offeredReleases db channel tenantId now arch)"
proof -
  let ?cmp = "\<lambda>a b. version_cmp (ro_version b) (ro_version a)"
  have gen: "newest_first (sort_by ?cmp rs)" if "offers_ok rs" for rs
    using that
  proof (induction rs)
    case (Cons x xs)
    have ins: "newest_first (insort_by ?cmp x ys)" if "newest_first ys" "offers_ok (x # ys)" for ys
      using that
    proof (induction ys)
      case (Cons y ys)
      then show ?case
        by (auto simp: offers_ok_def version_cmp_rank three_way_signs intro: order_trans)
    qed simp
    have "offers_ok (x # sort_by ?cmp xs)" using Cons.prems by (simp add: offers_ok_def list_all_iff)
    with ins Cons show ?case by (simp add: offers_ok_def)
  qed simp
  show ?thesis unfolding offeredReleases_def Let_def by (rule gen) (auto simp: offers_ok_def list_all_iff)
qed

lemma eligible_major:
  assumes "r \<in> set (eligibleReleases rs (Some v) grp)" and "isReleaseVersion v" and "major_of v < major_of (ro_version r)"
  shows "(\<forall>q\<in>set rs. supported_for (Some v) q \<and> allowed_for (Some v) grp q \<and> major_of (ro_version q) = major_of v
            \<longrightarrow> version_cmp (ro_version q) v \<le> 0)
    \<and> (\<forall>q\<in>set rs. supported_for (Some v) q \<and> major_of v < major_of (ro_version q) \<longrightarrow> major_of (ro_version r) \<le> major_of (ro_version q))"
proof -
  let ?sup = "filter (supported_for (Some v)) rs"
  let ?all = "filter (allowed_for (Some v) grp) ?sup"
  let ?newer = "list_ex (\<lambda>r. major_of (ro_version r) = major_of v \<and> version_cmp (ro_version r) v > 0) ?all"
  let ?higher = "filter (\<lambda>m. m > major_of v) (map (\<lambda>r. major_of (ro_version r)) ?sup)"
  let ?next = "if ?newer \<or> ?higher = [] then major_of v else Min (set ?higher)"
  have "major_of (ro_version r) \<le> ?next"
    using assms(1,2) by (simp add: eligibleReleases_def known_version_def text_of_def Let_def)
  with assms(3) have n: "\<not> ?newer" "?higher \<noteq> []" "major_of (ro_version r) \<le> Min (set ?higher)"
    by (auto split: if_splits simp del: filter_filter)
  have least: "Min (set ?higher) \<le> major_of (ro_version q)"
    if "q \<in> set rs" "supported_for (Some v) q" "major_of v < major_of (ro_version q)" for q
    using that by (intro Min_le) auto
  have own: "version_cmp (ro_version q) v \<le> 0"
    if "q \<in> set rs" "supported_for (Some v) q" "allowed_for (Some v) grp q" "major_of (ro_version q) = major_of v" for q
    using n(1) that by (simp add: list_ex_iff not_less)
  show ?thesis using own le_trans [OF n(3) least] by blast
qed

text \<open>
  C4. A workstation is never moved to a major release without consent. When the release an
  organization's workstation is told to fetch is of a higher major than it runs and that major is
  administered by the platform, the platform opened it or granted it to the organization, and the
  organization's administrator confirmed it or is trying it on this workstation's group. No major is
  skipped, the newest release of its own major comes first, and an end-of-life major is never
  offered, a security-only one only for a security fix within it.
\<close>

theorem major_upgrade_consent:
  assumes "rs = offeredReleases db channel (Some t) now arch" and "t \<noteq> []" and "isReleaseVersion v"
    and "updateTargetFor rs (Some v) grp = Some r"
  shows "effectiveSupportStatus (listMajorSupport db (major_of (ro_version r))) now \<noteq> End_of_life
    \<and> (effectiveSupportStatus (listMajorSupport db (major_of (ro_version r))) now = Security_only
        \<longrightarrow> ro_kind r = Security \<and> major_of (ro_version r) = major_of v)
    \<and> (major_of v < major_of (ro_version r) \<longrightarrow>
        (\<forall>opened. listReleaseMajors db (major_of (ro_version r)) = Some opened \<longrightarrow>
          (\<exists>g. listMajorGrants db t (major_of (ro_version r)) = Some g \<and> (opened \<or> truthy_int (mg_granted_at g))
             \<and> (truthy_int (mg_confirmed_at g) \<or> truthy_text (mg_pilot_group g) \<and> mg_pilot_group g = grp)))
        \<and> (\<forall>q\<in>set rs. supported_for (Some v) q \<longrightarrow>
             (major_of (ro_version q) = major_of v \<and> allowed_for (Some v) grp q \<longrightarrow> rank (ro_version q) \<le> rank v)
             \<and> (major_of v < major_of (ro_version q) \<longrightarrow> major_of (ro_version r) \<le> major_of (ro_version q))))"
proof -
  let ?m = "major_of (ro_version r)"
  have ok: "offers_ok rs" and nf: "newest_first rs" unfolding assms(1) by (rule offered_ok offered_newest_first)+
  have E: "r \<in> set (eligibleReleases rs (Some v) grp)"
    using update_target_exact [OF ok nf assms(3), of grp] assms(4) by simp
  then have mem: "r \<in> set rs" "supported_for (Some v) r" "allowed_for (Some v) grp r" using eligible_mem by blast+
  obtain row ls where row: "r = offer_of db (Some t) ls now row"
    using offered_facts [of r] mem(1) unfolding assms(1) by metis
  let ?status = "effectiveSupportStatus (listMajorSupport db ?m) now"
  let ?g = "listMajorGrants db t ?m"
  have sup: "ro_support r = (if ?status \<noteq> Supported then Some ?status else None)"
    by (simp add: row offer_of_def Let_def)
  have gated: "ro_gated r = majorGated (majorAccess (listReleaseMajors db ?m) ?g)"
    and pilot: "ro_pilotGroup r = (if majorAccess (listReleaseMajors db ?m) ?g = Pilot
       then case ?g of None \<Rightarrow> None | Some g \<Rightarrow> mg_pilot_group g else None)"
    using assms(2) by (simp_all add: row offer_of_def Let_def truthy_text_def text_of_def)
  have eol: "?status \<noteq> End_of_life" and sec: "?status = Security_only \<longrightarrow> ro_kind r = Security \<and> ?m = major_of v"
    using mem(2) assms(3) by (auto simp: supported_for_def sup known_version_def text_of_def Let_def)
  have consent: "\<exists>g. ?g = Some g \<and> (opened \<or> truthy_int (mg_granted_at g))
      \<and> (truthy_int (mg_confirmed_at g) \<or> truthy_text (mg_pilot_group g) \<and> mg_pilot_group g = grp)"
    if "major_of v < ?m" "listReleaseMajors db ?m = Some opened" for opened
    using mem(3) that assms(3)
    by (auto simp: allowed_for_def gated pilot known_version_def text_of_def Let_def majorAccess_def majorGated_def
        split: option.splits if_splits)
  have cmp: "version_cmp (ro_version q) v \<le> 0 \<longleftrightarrow> rank (ro_version q) \<le> rank v" if "q \<in> set rs" for q
    using ok that assms(3) by (simp add: offers_ok_def list_all_iff version_cmp_rank three_way_signs)
  show ?thesis using eol sec consent eligible_major [OF E assms(3)] cmp by blast
qed

subsection \<open>Updates settle\<close>

text \<open>A workstation that installs whatever it is told to fetch, \<open>n\<close> times.\<close>

fun update_run :: "nat \<Rightarrow> release_offer list \<Rightarrow> string option \<Rightarrow> string \<Rightarrow> string" where
  "update_run 0 rs grp v = v"
| "update_run (Suc n) rs grp v =
     (case updateTargetFor rs (Some v) grp of None \<Rightarrow> v | Some r \<Rightarrow> update_run n rs grp (ro_version r))"

definition ahead :: "release_offer list \<Rightarrow> string \<Rightarrow> release_offer list" where
  "ahead rs v = filter (\<lambda>r. rank v < rank (ro_version r)) rs"

lemma length_filter_strict:
  assumes "\<And>x. P x \<Longrightarrow> Q x" and "y \<in> set xs" and "Q y" and "\<not> P y"
  shows "length (filter P xs) < length (filter Q xs)"
  using assms(2)
proof (induction xs)
  case (Cons x xs)
  have "length (filter P xs) \<le> length (filter Q xs)" for xs
    using assms(1) by (induction xs) auto
  with Cons assms show ?case by (auto simp: less_Suc_eq_le)
qed simp

lemma target_facts:
  assumes "offers_ok rs" and "newest_first rs" and "isReleaseVersion v" and "updateTargetFor rs (Some v) grp = Some r"
  shows "r \<in> set rs" and "isReleaseVersion (ro_version r)" and "rank v < rank (ro_version r)"
    and "length (ahead rs (ro_version r)) < length (ahead rs v)"
proof -
  show up: "rank v < rank (ro_version r)" and r: "r \<in> set rs"
    using update_target_exact [OF assms(1-3), of grp] assms(4) eligible_mem by auto
  then show "isReleaseVersion (ro_version r)" using assms(1) by (simp add: offers_ok_def list_all_iff)
  show "length (ahead rs (ro_version r)) < length (ahead rs v)"
    unfolding ahead_def using up r by (intro length_filter_strict [of _ _ r]) (auto intro: less_trans)
qed

lemma update_run_settles:
  assumes "offers_ok rs" and "newest_first rs" and "isReleaseVersion v" and "length (ahead rs v) \<le> n"
  shows "updateTargetFor rs (Some (update_run n rs grp v)) grp = None \<and> rank v \<le> rank (update_run n rs grp v)"
  using assms(3,4)
proof (induction n arbitrary: v)
  case 0
  show ?case
  proof (cases "updateTargetFor rs (Some v) grp")
    case (Some r)
    from target_facts(4) [OF assms(1,2) 0(1) Some] 0(2) show ?thesis by simp
  qed simp
next
  case (Suc n)
  show ?case
  proof (cases "updateTargetFor rs (Some v) grp")
    case (Some r)
    note t = target_facts [OF assms(1,2) Suc.prems(1) Some]
    have "updateTargetFor rs (Some (update_run n rs grp (ro_version r))) grp = None
        \<and> rank (ro_version r) \<le> rank (update_run n rs grp (ro_version r))"
      using Suc.IH [OF t(2)] t(4) Suc.prems(2) by simp
    with Some t(3) show ?thesis by auto
  qed simp
qed


text \<open>Two stable releases; major 2 is open and confirmed by the organization.\<close>

definition sample_release :: "string \<Rightarrow> release_kind \<Rightarrow> release_row" where
  "sample_release v k = \<lparr>rl_version = v, rl_channel = Some Stable, rl_kind = k, rl_base_version = None, rl_security_floor = v,
     rl_size_bytes = 1, rl_built_at = [], rl_manifest = [], rl_found_at = 1, rl_classified_at = Some 1,
     rl_classified_by = None, rl_revoked_at = None, rl_architectures = ''amd64''\<rparr>"

definition release_shelf :: release_db where
  "release_shelf = \<lparr>releases = [sample_release ''1.4.0'' Feature, sample_release ''2.0.0'' Feature],
     release_support = [], release_majors = [\<lparr>mj_major = 2, mj_open = True, mj_updated_at = 0, mj_updated_by = None\<rparr>],
     major_upgrade_grants = [(no_grant ''t'' 2)\<lparr>mg_confirmed_at := Some 5\<rparr>]\<rparr>"

lemma sample_versions:
  "versionKey ''1.4.0'' = Some \<lparr>vk_core = [1, 4, 0], vk_pre = None\<rparr>"
  "versionKey ''2.0.0'' = Some \<lparr>vk_core = [2, 0, 0], vk_pre = None\<rparr>"
  "releaseArchitectures (Some ''amd64'') = [''amd64'']"
  by code_simp+

lemmas shelf_simps = offeredReleases_def release_shelf_def sample_release_def sample_versions offer_of_def major_of_def
  releaseMajor_def line_of_def releaseLine_def isReleaseVersion_def version_cmp_def compareVersions_def compare_keys_def
  channels_of_def in_channels_def majorAccess_def majorGated_def listReleaseMajors_def listMajorGrants_def
  listMajorSupport_def effectiveSupportStatus_def tbl_lookup_def grant_key_def no_grant_def truthy_int_def
  truthy_text_def text_of_def show_nat_small Let_def

lemma shelf_offer:
  "offeredReleases release_shelf None (Some ''t'') 9 ''amd64'' =
     [\<lparr>ro_version = ''2.0.0'', ro_kind = Feature, ro_sizeBytes = 1, ro_classifiedAt = 1, ro_support = None, ro_gated = False,
       ro_pilotGroup = None, ro_lineOnly = False, ro_approved = True\<rparr>,
      \<lparr>ro_version = ''1.4.0'', ro_kind = Feature, ro_sizeBytes = 1, ro_classifiedAt = 1, ro_support = None, ro_gated = False,
       ro_pilotGroup = None, ro_lineOnly = False, ro_approved = False\<rparr>]"
  by (simp add: shelf_simps)

lemma shelf_target:
  "map_option ro_version (updateTargetFor (offeredReleases release_shelf None (Some ''t'') 9 ''amd64'') (Some ''1.4.0'') None) = Some ''2.0.0''"
  unfolding shelf_offer
  by (simp add: updateTargetFor_def workstationOffer_def securityReleaseFor_def eligibleReleases_def supported_for_def
      allowed_for_def known_version_def first_of_def shelf_simps)

theorem update_target_exact_witness:
  "\<exists>t. updateTargetFor (offeredReleases release_shelf None (Some ''t'') 9 ''amd64'') (Some ''1.4.0'') None = Some t
     \<and> ro_version t = ''2.0.0'' \<and> rank ''1.4.0'' < rank (ro_version t)"
proof -
  let ?rs = "offeredReleases release_shelf None (Some ''t'') 9 ''amd64''"
  obtain t where t: "updateTargetFor ?rs (Some ''1.4.0'') None = Some t" "ro_version t = ''2.0.0''"
    using shelf_target by auto
  have "isReleaseVersion ''1.4.0''" by (simp add: isReleaseVersion_def sample_versions)
  from update_target_exact [OF offered_ok offered_newest_first this, of release_shelf None "Some ''t''" 9 "''amd64''" None] t
  show ?thesis by auto
qed

theorem major_upgrade_consent_witness:
  "\<exists>g. listMajorGrants release_shelf ''t'' 2 = Some g
     \<and> (truthy_int (mg_confirmed_at g) \<or> truthy_text (mg_pilot_group g) \<and> mg_pilot_group g = None)"
proof -
  let ?rs = "offeredReleases release_shelf None (Some ''t'') 9 ''amd64''"
  obtain t where t: "updateTargetFor ?rs (Some ''1.4.0'') None = Some t" "ro_version t = ''2.0.0''"
    using shelf_target by auto
  have v: "isReleaseVersion ''1.4.0''" "''t'' \<noteq> []" by (simp_all add: isReleaseVersion_def sample_versions)
  have m: "major_of ''1.4.0'' = 1" "major_of ''2.0.0'' = 2" "listReleaseMajors release_shelf 2 = Some True"
    by (simp_all add: shelf_simps)
  from major_upgrade_consent [OF refl v(2,1) t(1)] m show ?thesis by (auto simp: t(2))
qed


text \<open>
  The order of versions is the one of Semantic Versioning: \<open>compareVersions\<close> compares the three
  numbers, puts a release above its pre-releases, and compares pre-release parts in turn, numbers
  below words and a shorter list first; so it is a linear order on what it compares and the two
  directions of a comparison agree.
\<close>

theorem version_order:
  assumes "isReleaseVersion a" and "isReleaseVersion b"
  shows "compareVersions a b = Some (if rank a < rank b then -1 else if rank a = rank b then 0 else 1)
    \<and> map_option uminus (compareVersions b a) = compareVersions a b"
proof -
  obtain ka kb where k: "versionKey a = Some ka" "versionKey b = Some kb"
    using assms by (auto simp: isReleaseVersion_def)
  show ?thesis
    using compareVersions_order [OF k] compareVersions_order [OF k(2,1)] k
    by (auto simp: rank_def three_way_def)
qed

theorem version_order_witness:
  "isReleaseVersion ''2.6.0-rc.1'' \<and> isReleaseVersion ''2.6.0'' \<and> rank ''2.6.0-rc.1'' < rank ''2.6.0''
   \<and> compareVersions ''2.6.0-rc.1'' ''2.6.0'' = Some (-1)"
proof -
  have k: "versionKey ''2.6.0-rc.1'' = Some \<lparr>vk_core = [2, 6, 0], vk_pre = Some [(1, 0, ''rc''), (0, 1, [])]\<rparr>"
    "versionKey ''2.6.0'' = Some \<lparr>vk_core = [2, 6, 0], vk_pre = None\<rparr>" by code_simp+
  then have v: "isReleaseVersion ''2.6.0-rc.1''" "isReleaseVersion ''2.6.0''" by (simp_all add: isReleaseVersion_def)
  have "rank ''2.6.0-rc.1'' < rank ''2.6.0''" by (simp add: rank_def k precedence_def)
  with version_order [OF v] v show ?thesis by simp
qed

text \<open>
  Two versions the workstation's updater orders by whole numbers are equal here: beyond \<open>2^53\<close> a
  numeric pre-release part is the nearest double.
\<close>

lemma version_ties: "compareVersions ''1.0.0-9007199254740993'' ''1.0.0-9007199254740992'' = Some 0"
proof -
  have bits: "bit_count 9007199254740993 = 54" "bit_count 9007199254740992 = 54"
    by (simp_all add: bit_count.simps)
  have n: "js_number 9007199254740993 = 9007199254740992" "js_number 9007199254740992 = 9007199254740992"
    by (simp_all add: js_number_def bits Let_def)
  have r: "read_nat ''9007199254740993'' = 9007199254740993" "read_nat ''9007199254740992'' = 9007199254740992"
    by (simp_all add: read_nat_def digit_value_def)
  have d: "list_all is_digit ''9007199254740993''" "list_all is_digit ''9007199254740992''" by code_simp+
  have p: "pre_part ''9007199254740993'' = (0, 9007199254740992, [])" "pre_part ''9007199254740992'' = (0, 9007199254740992, [])"
    unfolding pre_part_def r n using d by simp_all
  have shape: "RELEASE_VERSION_PATTERN ''1.0.0-9007199254740993''" "RELEASE_VERSION_PATTERN ''1.0.0-9007199254740992''"
    "core_text ''1.0.0-9007199254740993'' = ''1.0.0''" "core_text ''1.0.0-9007199254740992'' = ''1.0.0''"
    "pre_text ''1.0.0-9007199254740993'' = Some ''9007199254740993''" "pre_text ''1.0.0-9007199254740992'' = Some ''9007199254740992''"
    "split_on CHR ''.'' ''9007199254740993'' = [''9007199254740993'']" "split_on CHR ''.'' ''9007199254740992'' = [''9007199254740992'']"
    by code_simp+
  obtain c where k: "versionKey ''1.0.0-9007199254740993'' = Some \<lparr>vk_core = c, vk_pre = Some [(0, 9007199254740992, [])]\<rparr>"
    "versionKey ''1.0.0-9007199254740992'' = Some \<lparr>vk_core = c, vk_pre = Some [(0, 9007199254740992, [])]\<rparr>"
    unfolding versionKey_def using shape p by (simp add: Let_def)
  show ?thesis
    using compareVersions_order [OF k] by (simp add: three_way_def)
qed

end
