(* ===== verification/Release_Ops.thy ===== *)
theory Release_Ops
  imports Releases License
begin

text \<open>
  The rest of \<open>src/cloudflare-control/src/releases.ts\<close>: manifests, the recording of releases found in
  the bucket, classification and revocation, workstation update reports, notices and reminders.
  \<open>parse_json\<close> is \<open>JSON.parse\<close> (\<open>Inl\<close> its message); \<open>num\<close> is \<open>Number(v)\<close> where that is an integer and
  \<open>flr\<close> is \<open>Math.floor(Number(v))\<close> where that is finite. The bucket is a parameter: the folders and
  files it lists and holds. The arrow in two messages is written \<open>->\<close>.
\<close>

subsection \<open>Manifests\<close>

record manifest =
  mf_architecture :: string
  mf_version :: string
  mf_kind :: release_kind
  mf_baseVersion :: "string option"
  mf_securityFloor :: string
  mf_sizeBytes :: int
  mf_builtAt :: string

text \<open>\<open>/^[0-9]{4}-[0-9]{2}-[0-9]{2}T[0-9]{2}:[0-9]{2}:[0-9]{2}Z$/\<close>\<close>

definition built_at_shape :: "string \<Rightarrow> bool" where
  "built_at_shape s =
     (length s = 20 \<and> s ! 4 = CHR ''-'' \<and> s ! 7 = CHR ''-'' \<and> s ! 10 = CHR ''T'' \<and> s ! 13 = CHR '':'' \<and> s ! 16 = CHR '':''
      \<and> s ! 19 = CHR ''Z'' \<and> list_all (\<lambda>i. is_digit (s ! i)) [0, 1, 2, 3, 5, 6, 8, 9, 11, 12, 14, 15, 17, 18])"

definition MAX_SAFE_INTEGER :: int where
  "MAX_SAFE_INTEGER = 9007199254740991"

text \<open>The loop over \<open>files\<close>: the names seen and the bytes so far.\<close>

fun manifest_files :: "(json \<Rightarrow> int option) \<Rightarrow> json list \<Rightarrow> string list \<Rightarrow> int \<Rightarrow> string + string list \<times> int" where
  "manifest_files num [] names bytes = Inr (names, bytes)"
| "manifest_files num (entry # rest) names bytes =
     (let name = (case field entry ''name'' of JStr n \<Rightarrow> n | _ \<Rightarrow> []);
          size = (if truthy entry then num (field entry ''size'') else None)
      in if name \<notin> {''vmlinuz'', ''initrd.img'', ''filesystem.squashfs''} \<or> name \<in> set names
         then Inl ''manifest.json lists an unexpected file''
         else case size of
           None \<Rightarrow> Inl (''manifest.json gives '' @ name @ '' no valid size'')
         | Some n \<Rightarrow>
             if n > MAX_SAFE_INTEGER \<or> n \<le> 0 then Inl (''manifest.json gives '' @ name @ '' no valid size'')
             else manifest_files num rest (names @ [name]) (bytes + n))"

definition manifest_kind :: "json \<Rightarrow> release_kind option" where
  "manifest_kind v = (if v = JStr ''feature'' then Some Feature else if v = JStr ''security'' then Some Security else None)"

definition manifest_architecture :: "json \<Rightarrow> string option" where
  "manifest_architecture v =
     (case v of JUndefined \<Rightarrow> Some DEFAULT_ARCHITECTURE
      | JStr a \<Rightarrow> if ARCHITECTURE_PATTERN a \<and> a \<noteq> DEFAULT_ARCHITECTURE then Some a else None
      | _ \<Rightarrow> None)"

definition parseManifest :: "(string \<Rightarrow> string + json) \<Rightarrow> (json \<Rightarrow> int option) \<Rightarrow> string \<Rightarrow> string + manifest" where
  "parseManifest parse_json num text =
     (case parse_json text of
        Inl err \<Rightarrow> Inl (''manifest.json is not JSON: '' @ err)
      | Inr raw \<Rightarrow>
          if \<not> is_object raw \<or> is_array raw then Inl ''manifest.json is not an object''
          else case is_release_version (field raw ''version'') of
            None \<Rightarrow> Inl ''manifest.json has no valid version''
          | Some version \<Rightarrow>
          (case manifest_kind (field raw ''kind'') of
            None \<Rightarrow> Inl ''manifest.json has no valid kind''
          | Some kind \<Rightarrow>
          (case is_release_version (field raw ''securityFloor'') of
            None \<Rightarrow> Inl ''manifest.json has no valid securityFloor''
          | Some securityFloor \<Rightarrow>
          let base = field raw ''baseVersion''; baseVersion = is_release_version base in
          if base \<noteq> JNull \<and> base \<noteq> JUndefined \<and> baseVersion = None then Inl ''manifest.json has an invalid baseVersion''
          else case field raw ''builtAt'' of
            JStr builtAt \<Rightarrow>
              if \<not> built_at_shape builtAt then Inl ''manifest.json has no valid builtAt''
              else (case field raw ''files'' of
                JArr files \<Rightarrow>
                  if files = [] then Inl ''manifest.json lists no files''
                  else (case manifest_files num files [] 0 of
                    Inl e \<Rightarrow> Inl e
                  | Inr (names, sizeBytes) \<Rightarrow>
                      if length names \<noteq> 3 then Inl ''manifest.json does not list the three image files''
                      else (case manifest_architecture (field raw ''architecture'') of
                        None \<Rightarrow> Inl ''manifest.json has an invalid architecture''
                      | Some architecture \<Rightarrow>
                          Inr \<lparr>mf_architecture = architecture, mf_version = version, mf_kind = kind,
                               mf_baseVersion = baseVersion, mf_securityFloor = securityFloor,
                               mf_sizeBytes = sizeBytes, mf_builtAt = builtAt\<rparr>))
              | _ \<Rightarrow> Inl ''manifest.json lists no files'')
          | _ \<Rightarrow> Inl ''manifest.json has no valid builtAt'')))"

subsection \<open>The record of releases\<close>

record release_summary =
  rsm_version :: string
  rsm_channel :: "update_channel option"
  rsm_kind :: release_kind
  rsm_baseVersion :: "string option"
  rsm_securityFloor :: string
  rsm_sizeBytes :: int
  rsm_builtAt :: string
  rsm_foundAt :: int
  rsm_classifiedAt :: "int option"
  rsm_revokedAt :: "int option"
  rsm_architectures :: "string list"

definition summarize :: "release_row \<Rightarrow> release_summary" where
  "summarize row =
     \<lparr>rsm_version = rl_version row, rsm_channel = rl_channel row, rsm_kind = rl_kind row,
      rsm_baseVersion = rl_base_version row, rsm_securityFloor = rl_security_floor row,
      rsm_sizeBytes = rl_size_bytes row, rsm_builtAt = rl_built_at row, rsm_foundAt = rl_found_at row,
      rsm_classifiedAt = rl_classified_at row, rsm_revokedAt = rl_revoked_at row,
      rsm_architectures = releaseArchitectures (Some (rl_architectures row))\<rparr>"

definition listReleases :: "release_db \<Rightarrow> release_summary list" where
  "listReleases db =
     map summarize (sort_by (\<lambda>a b. version_cmp (rl_version b) (rl_version a))
       (filter (\<lambda>row. isReleaseVersion (rl_version row)) (releases db)))"

definition findRelease :: "release_db \<Rightarrow> string \<Rightarrow> release_row option" where
  "findRelease db version = tbl_lookup rl_version version (releases db)"

definition classifyRelease :: "release_db \<Rightarrow> string \<Rightarrow> update_channel option \<Rightarrow> string \<Rightarrow> int \<Rightarrow> bool \<times> release_db" where
  "classifyRelease db version channel userId now =
     (let p = (\<lambda>r. rl_version r = version \<and> rl_revoked_at r = None) in
      (tbl_changes p (releases db) > 0,
       db\<lparr>releases := tbl_update p
            (\<lambda>r. r\<lparr>rl_channel := channel,
                   rl_classified_at := (if channel = None then None else Some now),
                   rl_classified_by := (if channel = None then None else Some userId)\<rparr>) (releases db)\<rparr>))"

definition stableFeatureReleases :: "release_db \<Rightarrow> string list" where
  "stableFeatureReleases db =
     sort_by version_cmp (filter isReleaseVersion (map rl_version
       (filter (\<lambda>r. rl_revoked_at r = None \<and> rl_channel r = Some Stable \<and> rl_kind r = Feature) (releases db))))"

definition revokeRelease :: "release_db \<Rightarrow> string \<Rightarrow> int \<Rightarrow> bool \<times> release_db" where
  "revokeRelease db version now =
     (let p = (\<lambda>r. rl_version r = version \<and> rl_revoked_at r = None) in
      (tbl_changes p (releases db) > 0,
       db\<lparr>releases := tbl_update p (\<lambda>r. r\<lparr>rl_channel := None, rl_revoked_at := Some now\<rparr>) (releases db)\<rparr>))"

subsection \<open>Recording what is in the bucket\<close>

text \<open>
  \<open>bk_list\<close> gives the folders under a prefix, every page of the listing one after the other;
  \<open>bk_get\<close> a file's size and text; \<open>bk_head\<close> whether a file is there.
\<close>

record bucket =
  bk_list :: "string \<Rightarrow> string list"
  bk_get :: "string \<Rightarrow> (nat \<times> string) option"
  bk_head :: "string \<Rightarrow> bool"

definition RELEASE_PREFIX :: string where
  "RELEASE_PREFIX = ''releases/''"

definition MAX_MANIFEST_BYTES :: nat where
  "MAX_MANIFEST_BYTES = 1024 * 1024"

definition MAX_NEW_PER_SYNC :: nat where
  "MAX_NEW_PER_SYNC = 50"

text \<open>\<open>s.replace(/\/$/, "")\<close>\<close>

definition drop_slash :: "string \<Rightarrow> string" where
  "drop_slash s = (if endsWith s ''/'' then drop_end 1 s else s)"

definition other_architecture ::
  "(string \<Rightarrow> string + json) \<Rightarrow> (json \<Rightarrow> int option) \<Rightarrow> bucket \<Rightarrow> string \<Rightarrow> string \<Rightarrow> string + string" where
  "other_architecture parse_json num bucket version prefix =
     (let folder = RELEASE_PREFIX @ version @ ''/'';
          architecture = drop_slash (drop (length folder) prefix)
      in if \<not> ARCHITECTURE_PATTERN architecture \<or> architecture = DEFAULT_ARCHITECTURE
         then Inl (prefix @ '' is not the folder of an architecture's build'')
         else case bk_get bucket (prefix @ ''manifest.json'') of
           None \<Rightarrow> Inl (''the '' @ architecture @ '' build has no manifest.json'')
         | Some (len, text) \<Rightarrow>
             if len > MAX_MANIFEST_BYTES then Inl (''the '' @ architecture @ '' build's manifest.json is too large'')
             else case parseManifest parse_json num text of
               Inl e \<Rightarrow> Inl e
             | Inr parsed \<Rightarrow>
                 if mf_version parsed \<noteq> version \<or> mf_architecture parsed \<noteq> architecture
                 then Inl (''the '' @ architecture @ '' folder holds the '' @ mf_architecture parsed @ '' manifest of '' @ mf_version parsed)
                 else if \<not> bk_head bucket (prefix @ ''manifest.json.sig'')
                 then Inl (''the '' @ architecture @ '' build's manifest.json.sig is missing'')
                 else Inr architecture)"

fun collect_results :: "('a \<Rightarrow> 'e + 'b) \<Rightarrow> 'a list \<Rightarrow> 'e + 'b list" where
  "collect_results f [] = Inr []"
| "collect_results f (x # xs) =
     (case f x of Inl e \<Rightarrow> Inl e
      | Inr y \<Rightarrow> (case collect_results f xs of Inl e \<Rightarrow> Inl e | Inr ys \<Rightarrow> Inr (y # ys)))"

definition otherArchitectures ::
  "(string \<Rightarrow> string + json) \<Rightarrow> (json \<Rightarrow> int option) \<Rightarrow> bucket \<Rightarrow> string \<Rightarrow> string + string list" where
  "otherArchitectures parse_json num bucket version =
     (case collect_results (other_architecture parse_json num bucket version) (bk_list bucket (RELEASE_PREFIX @ version @ ''/'')) of
        Inl e \<Rightarrow> Inl e
      | Inr found \<Rightarrow> Inr (sort found))"

text \<open>One folder: nothing yet (still uploading), a problem, or the row to record.\<close>

definition read_release ::
  "(string \<Rightarrow> string + json) \<Rightarrow> (json \<Rightarrow> int option) \<Rightarrow> bucket \<Rightarrow> int \<Rightarrow> string \<Rightarrow> string + release_row option" where
  "read_release parse_json num bucket now version =
     (case bk_get bucket (RELEASE_PREFIX @ version @ ''/manifest.json'') of
        None \<Rightarrow> Inr None
      | Some (len, text) \<Rightarrow>
          if len > MAX_MANIFEST_BYTES then Inl ''manifest.json is too large''
          else case parseManifest parse_json num text of
            Inl e \<Rightarrow> Inl e
          | Inr parsed \<Rightarrow>
              if mf_version parsed \<noteq> version then Inl (''the folder '' @ version @ '' holds the manifest of '' @ mf_version parsed)
              else if mf_architecture parsed \<noteq> DEFAULT_ARCHITECTURE
              then Inl (''the folder '' @ version @ '' holds a '' @ mf_architecture parsed @ '' manifest, not amd64's'')
              else if \<not> bk_head bucket (RELEASE_PREFIX @ version @ ''/manifest.json.sig'') then Inl ''manifest.json.sig is missing''
              else case otherArchitectures parse_json num bucket version of
                Inl e \<Rightarrow> Inl e
              | Inr others \<Rightarrow>
                  Inr (Some \<lparr>rl_version = version, rl_channel = None, rl_kind = mf_kind parsed,
                    rl_base_version = mf_baseVersion parsed, rl_security_floor = mf_securityFloor parsed,
                    rl_size_bytes = mf_sizeBytes parsed, rl_built_at = mf_builtAt parsed, rl_manifest = text,
                    rl_found_at = now, rl_classified_at = None, rl_classified_by = None, rl_revoked_at = None,
                    rl_architectures = join '','' (DEFAULT_ARCHITECTURE # others)\<rparr>))"

record sync_result =
  sy_added :: "string list"
  sy_security :: "string list"
  sy_problems :: "(string \<times> string) list"

text \<open>
  Recording one release: the row, and, for the first release of a major above every one recorded,
  that major closed.
\<close>

definition record_release :: "int \<Rightarrow> nat list \<Rightarrow> release_row \<Rightarrow> release_db \<Rightarrow> release_db" where
  "record_release now majors row db =
     (let db1 = db\<lparr>releases := tbl_insert_or_ignore rl_version row (releases db)\<rparr>;
          major = major_of (rl_version row)
      in if majors \<noteq> [] \<and> major > Max (set majors)
         then db1\<lparr>release_majors := tbl_insert_or_ignore mj_major
                \<lparr>mj_major = major, mj_open = False, mj_updated_at = now, mj_updated_by = None\<rparr> (release_majors db1)\<rparr>
         else db1)"

text \<open>The loop over the new folders, with the majors recorded so far.\<close>

fun record_releases ::
  "(string \<Rightarrow> string + release_row option) \<Rightarrow> int \<Rightarrow> string list \<Rightarrow> nat list \<Rightarrow> release_db \<Rightarrow> sync_result \<Rightarrow> release_db \<times> sync_result" where
  "record_releases read now [] majors db res = (db, res)"
| "record_releases read now (version # vs) majors db res =
     (case read version of
        Inl problem \<Rightarrow> record_releases read now vs majors db (res\<lparr>sy_problems := sy_problems res @ [(version, problem)]\<rparr>)
      | Inr None \<Rightarrow> record_releases read now vs majors db res
      | Inr (Some row) \<Rightarrow>
          record_releases read now vs (major_of version # majors) (record_release now majors row db)
            (res\<lparr>sy_added := sy_added res @ [version],
                 sy_security := sy_security res @ (if rl_kind row = Security then [version] else [])\<rparr>))"

definition syncReleases ::
  "(string \<Rightarrow> string + json) \<Rightarrow> (json \<Rightarrow> int option) \<Rightarrow> bucket \<Rightarrow> release_db \<Rightarrow> int \<Rightarrow> release_db \<times> sync_result" where
  "syncReleases parse_json num bucket db now =
     (let known = map rl_version (releases db);
          folders = filter (\<lambda>v. isReleaseVersion v \<and> v \<notin> set known)
                      (map (\<lambda>p. drop_slash (drop (length RELEASE_PREFIX) p)) (bk_list bucket RELEASE_PREFIX));
          majors = map major_of (filter isReleaseVersion known)
      in record_releases (read_release parse_json num bucket now) now (take MAX_NEW_PER_SYNC (sort_by version_cmp folders))
           majors db \<lparr>sy_added = [], sy_security = [], sy_problems = []\<rparr>)"

subsection \<open>Update reports of a workstation\<close>

datatype update_phase = Live | Idle | Checking | Downloading | Ready | Staged | Installing | Up_to_date | Update_error

definition UPDATE_PHASES :: "(string \<times> update_phase) list" where
  "UPDATE_PHASES = [(''live'', Live), (''idle'', Idle), (''checking'', Checking), (''downloading'', Downloading), (''ready'', Ready),
     (''staged'', Staged), (''installing'', Installing), (''up-to-date'', Up_to_date), (''error'', Update_error)]"

record update_report =
  up_phase :: update_phase
  up_version :: "string option"
  up_progress :: "int option"
  up_detail :: "string option"
  up_kind :: "release_kind option"
  up_since :: "int option"

definition normalizeUpdateReport :: "(json \<Rightarrow> int option) \<Rightarrow> json \<Rightarrow> update_report option" where
  "normalizeUpdateReport flr raw =
     (if \<not> is_object raw \<or> is_array raw then None
      else case (case field raw ''phase'' of JStr p \<Rightarrow> map_of UPDATE_PHASES p | _ \<Rightarrow> None) of
        None \<Rightarrow> None
      | Some phase \<Rightarrow>
          Some \<lparr>up_phase = phase, up_version = is_release_version (field raw ''version''),
            up_progress = (let p = field raw ''progress'' in
                           if p = JUndefined \<or> p = JNull then None else map_option (\<lambda>n. max 0 (min 100 n)) (flr p)),
            up_detail = (case field raw ''detail'' of JStr d \<Rightarrow> if trim d = [] then None else Some (take 300 (trim d)) | _ \<Rightarrow> None),
            up_kind = manifest_kind (field raw ''kind''),
            up_since = (case field raw ''since'' of JInt n \<Rightarrow> if n > 0 \<and> n \<le> MAX_SAFE_INTEGER then Some n else None | _ \<Rightarrow> None)\<rparr>)"

definition sameUpdateReport :: "update_report option \<Rightarrow> update_report option \<Rightarrow> bool" where
  "sameUpdateReport a b =
     (case (a, b) of
        (Some x, Some y) \<Rightarrow> up_phase x = up_phase y \<and> up_version x = up_version y \<and> up_progress x = up_progress y
          \<and> up_detail x = up_detail y \<and> up_kind x = up_kind y \<and> up_since x = up_since y
      | _ \<Rightarrow> a = b)"

subsection \<open>What the consoles are told\<close>

record pending_security =
  pn_version :: string
  pn_offeredAt :: int
  pn_workstations :: nat

text \<open>Each workstation is its image and its group.\<close>

fun count_pending :: "release_offer list \<Rightarrow> (string option \<times> string option) list \<Rightarrow> pending_security list \<Rightarrow> pending_security list" where
  "count_pending rs [] pending = pending"
| "count_pending rs ((img, grp) # ds) pending =
     (case securityReleaseFor rs img grp of
        None \<Rightarrow> count_pending rs ds pending
      | Some sec \<Rightarrow>
          let entry = (case tbl_lookup pn_version (ro_version sec) pending of Some e \<Rightarrow> e
                       | None \<Rightarrow> \<lparr>pn_version = ro_version sec, pn_offeredAt = ro_classifiedAt sec, pn_workstations = 0\<rparr>)
          in count_pending rs ds (tbl_upsert pn_version (entry\<lparr>pn_workstations := pn_workstations entry + 1\<rparr>) pending))"

definition securityReleasesPending :: "release_offer list \<Rightarrow> (string option \<times> string option) list \<Rightarrow> pending_security list" where
  "securityReleasesPending rs devices =
     sort_by (\<lambda>a b. version_cmp (pn_version b) (pn_version a)) (count_pending rs devices [])"

record support_notice =
  sn_major :: nat
  sn_status :: support_status
  sn_endOfLifeAt :: "int option"
  sn_note :: "string option"
  sn_workstations :: nat

record major_notice =
  mn_major :: nat
  mn_access :: major_access
  mn_newest :: string
  mn_confirmedAt :: "int option"
  mn_requestedAt :: "int option"
  mn_pilotGroup :: "string option"

definition device_majors :: "string option list \<Rightarrow> nat list" where
  "device_majors images = map (\<lambda>v. major_of (text_of v)) (filter known_version images)"

definition support_notices :: "release_db \<Rightarrow> string option list \<Rightarrow> int \<Rightarrow> support_notice list" where
  "support_notices db images now =
     concat (map (\<lambda>major.
       let row = listMajorSupport db major; status = effectiveSupportStatus row now;
           ends = (case row of None \<Rightarrow> None | Some r \<Rightarrow> ms_end_of_life_at r)
       in if status = Supported \<and> \<not> truthy_int ends then []
          else [\<lparr>sn_major = major, sn_status = status, sn_endOfLifeAt = ends,
                 sn_note = (case row of None \<Rightarrow> None | Some r \<Rightarrow> ms_note r),
                 sn_workstations = length (filter (\<lambda>m. m = major) (device_majors images))\<rparr>])
       (sort (remdups (device_majors images))))"

fun major_notices :: "release_db \<Rightarrow> string \<Rightarrow> nat list \<Rightarrow> release_offer list \<Rightarrow> major_notice list \<Rightarrow> major_notice list" where
  "major_notices db tenantId running [] notices = notices"
| "major_notices db tenantId running (release # rs) notices =
     (let major = major_of (ro_version release);
          grant = listMajorGrants db tenantId major;
          access = majorAccess (listReleaseMajors db major) grant
      in if (running \<noteq> [] \<and> major \<le> Min (set running)) \<or> list_ex (\<lambda>n. mn_major n = major) notices \<or> access = Free_major
            \<or> ro_support release = Some End_of_life \<or> ro_support release = Some Security_only
         then major_notices db tenantId running rs notices
         else major_notices db tenantId running rs (notices @
           [\<lparr>mn_major = major, mn_access = access, mn_newest = ro_version release,
             mn_confirmedAt = (case grant of None \<Rightarrow> None | Some g \<Rightarrow> mg_confirmed_at g),
             mn_requestedAt = (case grant of None \<Rightarrow> None | Some g \<Rightarrow> mg_requested_at g),
             mn_pilotGroup = (if access = Pilot then case grant of None \<Rightarrow> None | Some g \<Rightarrow> mg_pilot_group g else None)\<rparr>]))"

definition organizationReleaseNotices ::
  "release_db \<Rightarrow> string \<Rightarrow> release_offer list \<Rightarrow> string option list \<Rightarrow> int \<Rightarrow> support_notice list \<times> major_notice list" where
  "organizationReleaseNotices db tenantId rs images now =
     (support_notices db images now, major_notices db tenantId (device_majors images) rs [])"

subsection \<open>End-of-life reminders\<close>

definition END_OF_LIFE_REMINDER_DAYS :: "int list" where
  "END_OF_LIFE_REMINDER_DAYS = [60, 30, 7]"

definition endOfLifeReminderStage :: "int \<Rightarrow> int \<Rightarrow> int option" where
  "endOfLifeReminderStage endOfLifeAt now =
     (if endOfLifeAt \<le> now then Some 0
      else let daysLeft = - ((now - endOfLifeAt) div 86400);
               due = filter (\<lambda>days. daysLeft \<le> days) END_OF_LIFE_REMINDER_DAYS
           in if due = [] then None else Some (Min (set due)))"

definition majorSupportNotice ::
  "nat \<Rightarrow> support_status \<Rightarrow> int option \<Rightarrow> string option \<Rightarrow> bool \<Rightarrow> int \<Rightarrow> string \<times> string" where
  "majorSupportNotice major status endOfLifeAt note reminder now =
     (let name = ''Lab Kiosk '' @ show_nat major;
          (title, body) =
            (if status = End_of_life \<or> (case endOfLifeAt of None \<Rightarrow> False | Some t \<Rightarrow> t \<le> now)
             then (name @ '' has reached end of life'',
                   name @ '' has reached end of life. Workstations on it receive no further updates, security fixes included. ''
                   @ ''Install the newest supported release from Workstations -> Updates to keep receiving them.'')
             else case endOfLifeAt of
               Some t \<Rightarrow>
                 ((if reminder then ''Reminder: '' else []) @ name @ '' reaches end of life on '' @ licenseDate t,
                  name @ '' reaches end of life on '' @ licenseDate t
                  @ ''. After that date workstations on it receive no further updates, security fixes included.''
                  @ (if status = Security_only then '' Until then it receives security fixes only.'' else [])
                  @ '' Move your workstations to a newer release before then from Workstations -> Updates.'')
             | None \<Rightarrow>
                 (name @ '' now receives security fixes only'',
                  name @ '' now receives security fixes only: no workstation is moved onto it, and workstations on it get only its security releases. ''
                  @ ''Move your workstations to a newer release from Workstations -> Updates.''))
      in (title, if truthy_text note then body @ [CHR 0x0A, CHR 0x0A] @ text_of note else body))"

definition setEndOfLifeReminderStage :: "release_db \<Rightarrow> nat \<Rightarrow> int option \<Rightarrow> release_db" where
  "setEndOfLifeReminderStage db major stage =
     db\<lparr>release_support := tbl_update (\<lambda>r. ms_major r = major) (\<lambda>r. r\<lparr>ms_eol_reminder_days := stage\<rparr>) (release_support db)\<rparr>"

text \<open>The reminder one row calls for, if any: its stage.\<close>

definition reminder_due :: "major_support \<Rightarrow> int \<Rightarrow> int option" where
  "reminder_due row now =
     (case ms_end_of_life_at row of
        None \<Rightarrow> None
      | Some endOfLifeAt \<Rightarrow>
          if ms_status row = End_of_life then None
          else case endOfLifeReminderStage endOfLifeAt now of
            None \<Rightarrow> None
          | Some stage \<Rightarrow>
              (case ms_eol_reminder_days row of
                 None \<Rightarrow> Some stage
               | Some prev \<Rightarrow> if stage \<ge> prev then None else Some stage))"

text \<open>
  The cron's loop over the rows as they were read: the reminders written, and the e-mails handed to
  the mailer (title and text, to every owner). A note that leaves no message would throw out of the
  loop (\<open>None\<close>). \<open>fresh\<close> names the notifications.
\<close>

fun send_reminders ::
  "(nat \<Rightarrow> string) \<Rightarrow> int \<Rightarrow> major_support list \<Rightarrow> release_db \<Rightarrow> d1 \<Rightarrow> (nat \<times> string \<times> string) list \<Rightarrow> (release_db \<times> d1 \<times> (nat \<times> string \<times> string) list) option" where
  "send_reminders fresh now [] db d sent = Some (db, d, sent)"
| "send_reminders fresh now (row # rows) db d sent =
     (case reminder_due row now of
        None \<Rightarrow> send_reminders fresh now rows db d sent
      | Some stage \<Rightarrow>
          let (title, body) = majorSupportNotice (ms_major row) (ms_status row) (ms_end_of_life_at row) (ms_note row) (stage > 0) now
          in case createNotification d \<lparr>nt_id = fresh (ms_major row), nt_tenant_id = None, nt_kind = ''release'', nt_title = title,
                    nt_body = body, nt_created_at = now, nt_created_by = None\<rparr> of
               None \<Rightarrow> None
             | Some d' \<Rightarrow> send_reminders fresh now rows (setEndOfLifeReminderStage db (ms_major row) (Some stage)) d'
                            (sent @ [(ms_major row, title, body)]))"

definition sendEndOfLifeReminders ::
  "(nat \<Rightarrow> string) \<Rightarrow> release_db \<Rightarrow> d1 \<Rightarrow> int \<Rightarrow> (release_db \<times> d1 \<times> (nat \<times> string \<times> string) list) option" where
  "sendEndOfLifeReminders fresh db d now = send_reminders fresh now (release_support db) db d []"

subsection \<open>Where a release is fetched from\<close>

definition isLocalAddress :: "string \<Rightarrow> bool" where
  "isLocalAddress host =
     (host \<in> {''localhost'', ''127.0.0.1'', ''host.docker.internal'', ''host.containers.internal''}
      \<or> startsWith host ''10.'' \<or> startsWith host ''192.168.''
      \<or> (startsWith host ''172.'' \<and> length host \<ge> 7 \<and> host ! 6 = CHR ''.'' \<and> is_digit (host ! 4) \<and> is_digit (host ! 5)
         \<and> 16 \<le> read_nat [host ! 4, host ! 5] \<and> read_nat [host ! 4, host ! 5] \<le> 31))"

text \<open>\<open>url_search\<close> and \<open>url_hash\<close> are the parsed address's query and fragment.\<close>

definition releaseFolderUrl ::
  "url_parser \<Rightarrow> (string \<Rightarrow> string) \<Rightarrow> (string \<Rightarrow> string) \<Rightarrow> string option \<Rightarrow> string \<Rightarrow> string \<Rightarrow> string option" where
  "releaseFolderUrl parse_url url_search url_hash RELEASES_BASE_URL version architecture =
     (let base = trim (text_of RELEASES_BASE_URL) in
      if base = [] \<or> \<not> isReleaseVersion version \<or> \<not> ARCHITECTURE_PATTERN architecture then None
      else case safeHttpUrl parse_url (Some base) of
        None \<Rightarrow> None
      | Some validated \<Rightarrow>
          (case parse_url validated of
             None \<Rightarrow> None
           | Some parsed \<Rightarrow>
               if url_search validated \<noteq> [] \<or> url_hash validated \<noteq> [] \<or> username parsed \<noteq> [] \<or> password parsed \<noteq> [] then None
               else if protocol parsed \<noteq> ''https:'' \<and> \<not> isLocalAddress (hostname_of parsed) then None
               else let folder = rev (dropWhile (\<lambda>c. c = CHR ''/'') (rev validated)) @ ''/'' @ RELEASE_PREFIX @ version
                    in Some (if architecture = DEFAULT_ARCHITECTURE then folder else folder @ ''/'' @ architecture)))"

definition releaseAddressIsDevelopmentOnly :: "url_parser \<Rightarrow> string option \<Rightarrow> bool" where
  "releaseAddressIsDevelopmentOnly parse_url RELEASES_BASE_URL =
     (case safeHttpUrl parse_url (Some (trim (text_of RELEASES_BASE_URL))) of
        None \<Rightarrow> False
      | Some validated \<Rightarrow>
          (case parse_url validated of
             None \<Rightarrow> False
           | Some u \<Rightarrow> let host = toLowerCase (hostname_of u) in host = ''r2.dev'' \<or> endsWith host ''.r2.dev''))"

subsection \<open>A withdrawn release is never offered again\<close>

datatype release_op =
    Classify string "update_channel option" string int
  | Revoke string int
  | Sync "string \<Rightarrow> string + json" "json \<Rightarrow> int option" bucket int
  | Set_support nat support_status "int option" "string option" string int
  | Set_open nat bool string int
  | Set_grant string nat bool string int
  | Confirm string nat string int
  | Request string nat string int
  | Decline string nat
  | Set_pilot string nat "string option" string int

fun release_step :: "release_op \<Rightarrow> release_db \<Rightarrow> release_db" where
  "release_step (Classify v c u now) db = snd (classifyRelease db v c u now)"
| "release_step (Revoke v now) db = snd (revokeRelease db v now)"
| "release_step (Sync pj num b now) db = fst (syncReleases pj num b db now)"
| "release_step (Set_support m st eol note u now) db = (case setMajorSupport db m st eol note u now of None \<Rightarrow> db | Some db' \<Rightarrow> db')"
| "release_step (Set_open m on u now) db = setReleaseMajorOpen db m on u now"
| "release_step (Set_grant t m on u now) db = setMajorGrant db t m on u now"
| "release_step (Confirm t m u now) db = confirmMajor db t m u now"
| "release_step (Request t m u now) db = requestMajor db t m u now"
| "release_step (Decline t m) db = snd (declineMajorRequest db t m)"
| "release_step (Set_pilot t m p u now) db = setMajorPilot db t m p u now"

definition withdrawn :: "string \<Rightarrow> release_db \<Rightarrow> bool" where
  "withdrawn v db = (v \<in> rl_version ` set (releases db)
     \<and> (\<forall>r\<in>set (releases db). rl_version r = v \<longrightarrow> rl_revoked_at r \<noteq> None))"

lemma withdrawn_update:
  assumes "withdrawn v db" and "\<And>r. rl_version (f r) = rl_version r"
    and "\<And>r. rl_revoked_at r \<noteq> None \<Longrightarrow> rl_revoked_at (f r) \<noteq> None"
  shows "withdrawn v (db\<lparr>releases := tbl_update p f (releases db)\<rparr>)"
proof -
  have "rl_version ` set (tbl_update p f (releases db)) = rl_version ` set (releases db)"
    using map_key_update [of rl_version f p "releases db"] assms(2) by (metis list.set_map)
  moreover have "rl_revoked_at r \<noteq> None" if "r \<in> set (tbl_update p f (releases db))" "rl_version r = v" for r
  proof -
    from that(1) obtain q where "q \<in> set (releases db)" "r = f q \<or> r = q" by (auto simp: tbl_update_def)
    with assms that(2) show ?thesis by (auto simp: withdrawn_def)
  qed
  ultimately show ?thesis using assms(1) by (simp add: withdrawn_def)
qed

lemma withdrawn_record_release: "withdrawn v db \<Longrightarrow> withdrawn v (record_release now majors row db)"
  by (auto simp: record_release_def withdrawn_def set_tbl_insert_or_ignore Let_def)

lemma withdrawn_record: "withdrawn v db \<Longrightarrow> withdrawn v (fst (record_releases rd now vs majors db res))"
  by (induction rd now vs majors db res rule: record_releases.induct)
    (auto simp: withdrawn_record_release split: sum.split option.split)

interpretation withdrawal: step_system release_step "withdrawn v" for v
proof
  fix db e
  assume w: "withdrawn v db"
  have keep: "releases db' = releases db \<Longrightarrow> withdrawn v db'" for db' using w by (simp add: withdrawn_def)
  show "withdrawn v (release_step e db)"
  proof (cases e)
    case (Classify a c u now)
    then show ?thesis using w by (auto simp: classifyRelease_def Let_def intro!: withdrawn_update)
  next
    case (Revoke a now)
    then show ?thesis using w by (auto simp: revokeRelease_def Let_def intro!: withdrawn_update)
  next
    case (Sync pj num b now)
    then show ?thesis using w by (simp add: syncReleases_def Let_def withdrawn_record)
  qed (auto intro!: keep simp: setMajorSupport_def setReleaseMajorOpen_def setMajorGrant_def confirmMajor_def requestMajor_def
      declineMajorRequest_def setMajorPilot_def upsert_grant_def Let_def split: option.splits)
qed

lemma withdrawn_revoke:
  assumes "findRelease db v \<noteq> None"
  shows "withdrawn v (snd (revokeRelease db v t0))"
proof -
  define f where "f r = (if rl_version r = v \<and> rl_revoked_at r = None then r\<lparr>rl_channel := None, rl_revoked_at := Some t0\<rparr> else r)" for r :: release_row
  have rows: "releases (snd (revokeRelease db v t0)) = map f (releases db)"
    by (simp add: revokeRelease_def tbl_update_def f_def Let_def)
  have f: "rl_version (f r) = rl_version r" "rl_version r = v \<Longrightarrow> rl_revoked_at (f r) \<noteq> None" for r
    by (auto simp: f_def)
  have "v \<in> rl_version ` set (releases db)" using assms by (simp add: findRelease_def tbl_lookup_None)
  then show ?thesis using f by (auto simp: withdrawn_def rows image_image)
qed

lemma withdrawn_not_offered: "withdrawn v db \<Longrightarrow> v \<notin> ro_version ` set (offeredReleases db channel tenantId now arch)"
  by (auto simp: withdrawn_def elim!: offered_facts)

text \<open>
  A release once withdrawn is offered to no organization on any channel, for any architecture,
  at any later time, whatever is classified, recorded from the bucket again, opened, granted,
  confirmed or tried afterwards.
\<close>

theorem withdrawn_for_good:
  assumes "findRelease db v \<noteq> None"
  shows "v \<notin> ro_version ` set (offeredReleases (run_steps release_step ops (snd (revokeRelease db v t0))) channel tenantId now arch)"
proof -
  have "withdrawn v (snd (revokeRelease db v t0))"
    using assms by (rule withdrawn_revoke)
  then have "withdrawn v (run_steps release_step ops (snd (revokeRelease db v t0)))" by (rule withdrawal.run_invar)
  then show ?thesis by (rule withdrawn_not_offered)
qed

theorem withdrawn_for_good_witness:
  "''2.0.0'' \<in> ro_version ` set (offeredReleases release_shelf None (Some ''t'') 9 ''amd64'')
   \<and> ''2.0.0'' \<notin> ro_version ` set (offeredReleases (run_steps release_step [Classify ''2.0.0'' (Some Stable) ''u'' 11]
        (snd (revokeRelease release_shelf ''2.0.0'' 10))) None (Some ''t'') 12 ''amd64'')"
proof -
  have "findRelease release_shelf ''2.0.0'' \<noteq> None"
    by (simp add: findRelease_def tbl_lookup_def release_shelf_def sample_release_def)
  from withdrawn_for_good [OF this] have "''2.0.0'' \<notin> ro_version ` set (offeredReleases (run_steps release_step [Classify ''2.0.0'' (Some Stable) ''u'' 11]
        (snd (revokeRelease release_shelf ''2.0.0'' 10))) None (Some ''t'') 12 ''amd64'')" .
  then show ?thesis unfolding shelf_offer by simp
qed

subsection \<open>What recording a release takes\<close>

lemma read_release_facts:
  assumes "read_release pj num b now x = Inr (Some row)"
  shows "rl_version row = x \<and> rl_channel row = None \<and> rl_revoked_at row = None
    \<and> bk_head b (RELEASE_PREFIX @ x @ ''/manifest.json.sig'')
    \<and> (\<exists>n m. bk_get b (RELEASE_PREFIX @ x @ ''/manifest.json'') = Some (n, rl_manifest row) \<and> n \<le> MAX_MANIFEST_BYTES
         \<and> parseManifest pj num (rl_manifest row) = Inr m \<and> mf_version m = x \<and> mf_architecture m = DEFAULT_ARCHITECTURE
         \<and> rl_kind row = mf_kind m \<and> rl_size_bytes row = mf_sizeBytes m)"
  using assms by (auto simp: read_release_def split: option.splits if_splits sum.splits)

lemma read_release_version: "read_release pj num b now x = Inr (Some row) \<Longrightarrow> rl_version row = x"
  using read_release_facts by blast

lemma record_releases_added:
  "sy_added (snd (record_releases rd now vs majors db res))
     = sy_added res @ filter (\<lambda>x. case rd x of Inr (Some row) \<Rightarrow> True | _ \<Rightarrow> False) vs"
  by (induction rd now vs majors db res rule: record_releases.induct) (auto split: sum.split option.split)

lemma record_release_keeps_major:
  "listReleaseMajors db m \<noteq> None \<Longrightarrow> listReleaseMajors (record_release now majors row db) m = listReleaseMajors db m"
  by (auto simp: record_release_def listReleaseMajors_def tbl_lookup_insert_or_ignore Let_def)

lemma record_releases_keep_major:
  "listReleaseMajors db m \<noteq> None \<Longrightarrow> listReleaseMajors (fst (record_releases rd now vs majors db res)) m = listReleaseMajors db m"
  by (induction rd now vs majors db res rule: record_releases.induct)
    (auto simp: record_release_keeps_major split: sum.split option.split)

lemma record_release_closes:
  assumes "majors \<noteq> []" and "Max (set majors) < major_of (rl_version row)"
  shows "listReleaseMajors (record_release now majors row db) (major_of (rl_version row)) =
    (case listReleaseMajors db (major_of (rl_version row)) of None \<Rightarrow> Some False | Some on \<Rightarrow> Some on)"
  using assms by (auto simp: record_release_def listReleaseMajors_def tbl_lookup_insert_or_ignore Let_def split: option.split)

lemma record_release_other_major:
  assumes "m \<noteq> major_of (rl_version row)"
  shows "listReleaseMajors (record_release now majors row db) m = listReleaseMajors db m"
  using assms by (auto simp: record_release_def listReleaseMajors_def tbl_lookup_insert_or_ignore Let_def)

lemma record_releases_close:
  assumes "x \<in> set vs" and "rd x = Inr (Some row)" and "majors \<noteq> []" and "Max (set majors) < major_of x"
    and "\<And>x row. rd x = Inr (Some row) \<Longrightarrow> rl_version row = x"
    and "sorted_wrt (\<lambda>a b. major_of a \<le> major_of b) vs" and "listReleaseMajors db (major_of x) = None"
  shows "listReleaseMajors (fst (record_releases rd now vs majors db res)) (major_of x) = Some False"
  using assms
proof (induction rd now vs majors db res rule: record_releases.induct)
  case (2 rd now y vs majors db res)
  show ?case
  proof (cases "\<exists>row. rd y = Inr (Some row)")
    case True
    then obtain r where r: "rd y = Inr (Some r)" by blast
    have y: "rl_version r = y" using "2.prems"(5) [OF r] .
    show ?thesis
    proof (cases "major_of y = major_of x")
      case True
      with record_release_closes [of majors r now db] "2.prems"(3,4,7) y
      have "listReleaseMajors (record_release now majors r db) (major_of x) = Some False" by simp
      then show ?thesis by (simp add: r record_releases_keep_major)
    next
      case False
      with "2.prems"(1) have x: "x \<in> set vs" by auto
      with "2.prems"(6) False have "major_of y < major_of x" by (auto simp: order.strict_iff_order)
      with "2.prems"(3,4) have "Max (set (major_of y # majors)) < major_of x" by (simp add: Max_insert)
      moreover have "listReleaseMajors (record_release now majors r db) (major_of x) = None"
        using record_release_other_major [of "major_of x" r now majors db] False y "2.prems"(7) by simp
      ultimately show ?thesis
        using "2.IH"(3) [OF r refl x "2.prems"(2)] "2.prems"(5,6) by (simp add: r)
    qed
  next
    case False
    with "2.prems"(1,2) have x: "x \<in> set vs" by auto
    show ?thesis
    proof (cases "rd y")
      case (Inl e)
      then show ?thesis using "2.IH"(1) [OF Inl x "2.prems"(2-5)] "2.prems"(6,7) by simp
    next
      case (Inr m)
      with False have "m = None" by (cases m) auto
      with Inr show ?thesis using "2.IH"(2) [OF _ _ x "2.prems"(2-5)] "2.prems"(6,7) by simp
    qed
  qed
qed simp

lemma rank_major:
  assumes "isReleaseVersion a" and "isReleaseVersion b" and "rank a \<le> rank b"
  shows "major_of a \<le> major_of b"
proof -
  obtain ka kb where k: "versionKey a = Some ka" "versionKey b = Some kb"
    using assms(1,2) by (auto simp: isReleaseVersion_def)
  obtain x xs y ys where c: "vk_core ka = x # xs" "vk_core kb = y # ys"
    using versionKey_core_length [OF k(1)] versionKey_core_length [OF k(2)] by (cases "vk_core ka"; cases "vk_core kb") auto
  have "vk_core ka \<le> vk_core kb" using assms(3) k by (auto simp: rank_def precedence_def)
  then have "x \<le> y" using c by auto
  then show ?thesis using k c by (simp add: major_of_def releaseMajor_def)
qed

lemma sorted_versions:
  assumes "\<forall>v\<in>set vs. isReleaseVersion v"
  shows "sorted_wrt (\<lambda>a b. rank a \<le> rank b) (sort_by version_cmp vs)"
  using assms
proof (induction vs)
  case (Cons x xs)
  have "sorted_wrt (\<lambda>a b. rank a \<le> rank b) (insort_by version_cmp x ys)"
    if "sorted_wrt (\<lambda>a b. rank a \<le> rank b) ys" "\<forall>v\<in>set ys. isReleaseVersion v" for ys
    using that
  proof (induction ys)
    case (Cons y ys)
    have "isReleaseVersion x" using \<open>\<forall>v\<in>set (x # xs). isReleaseVersion v\<close> by simp
    with Cons show ?case by (auto simp: version_cmp_rank three_way_signs intro: order_trans)
  qed simp
  with Cons show ?case by simp
qed simp

text \<open>
  Recording what is in the bucket: a release is added only when it was not recorded, its folder
  holds a signature and a manifest of its own version for amd64 that passes every check, and it
  starts in no channel, unrevoked. Where some release was recorded before, the first release of a
  major above all of them leaves that major closed, so no workstation is moved to it until the
  platform opens or grants it.
\<close>

theorem sync_records:
  assumes "syncReleases parse_json num b db now = (db', res)" and "x \<in> set (sy_added res)"
  shows "x \<notin> rl_version ` set (releases db) \<and> isReleaseVersion x
    \<and> bk_head b (''releases/'' @ x @ ''/manifest.json.sig'')
    \<and> (\<exists>n text m. bk_get b (''releases/'' @ x @ ''/manifest.json'') = Some (n, text) \<and> parseManifest parse_json num text = Inr m
         \<and> mf_version m = x \<and> mf_architecture m = ''amd64'')
    \<and> ((\<exists>v\<in>rl_version ` set (releases db). isReleaseVersion v)
       \<and> (\<forall>v\<in>rl_version ` set (releases db). isReleaseVersion v \<longrightarrow> major_of v < major_of x)
       \<and> listReleaseMajors db (major_of x) = None
       \<longrightarrow> listReleaseMajors db' (major_of x) = Some False)"
proof -
  let ?rd = "read_release parse_json num b now"
  let ?folders = "filter (\<lambda>v. isReleaseVersion v \<and> v \<notin> set (map rl_version (releases db)))
      (map (\<lambda>p. drop_slash (drop (length RELEASE_PREFIX) p)) (bk_list b RELEASE_PREFIX))"
  let ?vs = "take MAX_NEW_PER_SYNC (sort_by version_cmp ?folders)"
  let ?majors = "map major_of (filter isReleaseVersion (map rl_version (releases db)))"
  let ?res = "\<lparr>sy_added = [], sy_security = [], sy_problems = []\<rparr>"
  have run: "record_releases ?rd now ?vs ?majors db ?res = (db', res)"
    using assms(1) by (simp only: syncReleases_def Let_def)
  have "x \<in> set (filter (\<lambda>x. case ?rd x of Inr (Some row) \<Rightarrow> True | _ \<Rightarrow> False) ?vs)"
    using assms(2) record_releases_added [of ?rd now ?vs ?majors db ?res] unfolding run by simp
  then obtain row where x: "x \<in> set ?vs" "?rd x = Inr (Some row)" by (auto split: sum.splits option.splits)
  have valid: "\<forall>v\<in>set ?folders. isReleaseVersion v" by simp
  have mem: "x \<in> set ?folders" using x(1) by (metis in_set_takeD set_sort_by)
  have "sorted_wrt (\<lambda>a b. rank a \<le> rank b) ?vs" using sorted_versions [OF valid] by (rule sorted_wrt_take)
  then have sorted: "sorted_wrt (\<lambda>a b. major_of a \<le> major_of b) ?vs"
    by (rule sorted_wrt_mono_rel [rotated]) (use rank_major valid in \<open>metis in_set_takeD set_sort_by\<close>)
  have closed: "listReleaseMajors db' (major_of x) = Some False"
    if "\<exists>v\<in>rl_version ` set (releases db). isReleaseVersion v"
      "\<forall>v\<in>rl_version ` set (releases db). isReleaseVersion v \<longrightarrow> major_of v < major_of x" "listReleaseMajors db (major_of x) = None"
  proof -
    have "?majors \<noteq> []" "Max (set ?majors) < major_of x" using that(1,2) by (auto simp: filter_empty_conv)
    then have "listReleaseMajors (fst (record_releases ?rd now ?vs ?majors db ?res)) (major_of x) = Some False"
      using record_releases_close [of x ?vs ?rd row ?majors db now ?res] x read_release_version sorted that(3) by blast
    then show ?thesis by (simp only: run fst_conv)
  qed
  show ?thesis
    using read_release_facts [OF x(2)] mem closed by (auto simp: RELEASE_PREFIX_def DEFAULT_ARCHITECTURE_def)
qed
text \<open>A bucket with one release, of a new major, beside a database that knows 1.4.0.\<close>

definition ci_manifest :: json where
  "ci_manifest = JObj [(''version'', JStr ''2.0.0''), (''kind'', JStr ''feature''), (''securityFloor'', JStr ''1.4.0''),
     (''builtAt'', JStr ''2026-01-02T03:04:05Z''),
     (''files'', JArr [JObj [(''name'', JStr ''vmlinuz''), (''size'', JInt 1)], JObj [(''name'', JStr ''initrd.img''), (''size'', JInt 2)],
        JObj [(''name'', JStr ''filesystem.squashfs''), (''size'', JInt 3)]])]"

definition ci_bucket :: bucket where
  "ci_bucket = \<lparr>bk_list = (\<lambda>p. if p = ''releases/'' then [''releases/2.0.0/''] else []),
     bk_get = (\<lambda>k. if k = ''releases/2.0.0/manifest.json'' then Some (9, ''{}'') else None),
     bk_head = (\<lambda>k. k = ''releases/2.0.0/manifest.json.sig'')\<rparr>"

definition old_shelf :: release_db where
  "old_shelf = \<lparr>releases = [sample_release ''1.4.0'' Feature], release_support = [], release_majors = [], major_upgrade_grants = []\<rparr>"

definition json_int :: "json \<Rightarrow> int option" where
  "json_int v = (case v of JInt i \<Rightarrow> Some i | _ \<Rightarrow> None)"

lemma ci_parsed: "\<exists>m. parseManifest (\<lambda>s. Inr ci_manifest) json_int ''{}'' = Inr m \<and> mf_version m = ''2.0.0'' \<and> mf_architecture m = ''amd64''"
proof -
  have shape: "built_at_shape ''2026-01-02T03:04:05Z''" by code_simp
  show ?thesis
    by (simp add: parseManifest_def ci_manifest_def is_release_version_def isReleaseVersion_def sample_versions manifest_kind_def
        shape json_int_def MAX_SAFE_INTEGER_def manifest_architecture_def DEFAULT_ARCHITECTURE_def Let_def)
qed

theorem sync_records_witness:
  "sy_added (snd (syncReleases (\<lambda>s. Inr ci_manifest) json_int ci_bucket old_shelf 7)) = [''2.0.0'']
   \<and> listReleaseMajors (fst (syncReleases (\<lambda>s. Inr ci_manifest) json_int ci_bucket old_shelf 7)) 2 = Some False"
proof -
  let ?sync = "syncReleases (\<lambda>s. Inr ci_manifest) json_int ci_bucket old_shelf 7"
  obtain m where m: "parseManifest (\<lambda>s. Inr ci_manifest) json_int ''{}'' = Inr m" "mf_version m = ''2.0.0''" "mf_architecture m = ''amd64''"
    using ci_parsed by blast
  have maj: "major_of ''2.0.0'' = 2" "major_of ''1.4.0'' = 1" "isReleaseVersion ''2.0.0''" "isReleaseVersion ''1.4.0''"
    by (simp_all add: shelf_simps)
  have slash: "drop_slash ''2.0.0/'' = ''2.0.0''" by code_simp
  obtain row where row: "read_release (\<lambda>s. Inr ci_manifest) json_int ci_bucket 7 ''2.0.0'' = Inr (Some row)"
    using m by (simp add: read_release_def ci_bucket_def RELEASE_PREFIX_def MAX_MANIFEST_BYTES_def otherArchitectures_def DEFAULT_ARCHITECTURE_def)
  have added: "sy_added (snd ?sync) = [''2.0.0'']"
    using row maj slash
    by (simp add: syncReleases_def record_releases_added Let_def)
      (simp add: ci_bucket_def RELEASE_PREFIX_def old_shelf_def sample_release_def MAX_NEW_PER_SYNC_def)
  have "listReleaseMajors (fst ?sync) (major_of ''2.0.0'') = Some False"
    using sync_records [of "\<lambda>s. Inr ci_manifest" json_int ci_bucket old_shelf 7 "fst ?sync" "snd ?sync" "''2.0.0''"] added maj
    by (simp add: old_shelf_def sample_release_def listReleaseMajors_def tbl_lookup_def)
  with added maj show ?thesis by simp
qed

subsection \<open>Reminders are few\<close>

lemma trim_nonblank: "c \<in> set s \<Longrightarrow> \<not> is_space c \<Longrightarrow> trim s \<noteq> []"
  by (auto simp: trim_def dropWhile_eq_Nil_conv dest: set_dropWhileD)
    (metis (mono_tags) Un_iff set_append set_takeWhileD takeWhile_dropWhile_id)

lemma notice_nonblank:
  "trim (fst (majorSupportNotice m st eol note rem now)) \<noteq> [] \<and> trim (snd (majorSupportNotice m st eol note rem now)) \<noteq> []"
proof -
  have sp: "\<not> is_space CHR ''L''" by code_simp
  have "CHR ''L'' \<in> set (fst (majorSupportNotice m st eol note rem now))"
    "CHR ''L'' \<in> set (snd (majorSupportNotice m st eol note rem now))"
    by (auto simp: majorSupportNotice_def Let_def split: option.split)
  with trim_nonblank sp show ?thesis by blast
qed

definition reminded :: "int \<Rightarrow> major_support \<Rightarrow> major_support" where
  "reminded now row = (case reminder_due row now of None \<Rightarrow> row | Some stage \<Rightarrow> row\<lparr>ms_eol_reminder_days := Some stage\<rparr>)"

lemma reminded_major [simp]: "ms_major (reminded now row) = ms_major row"
  by (simp add: reminded_def split: option.split)

lemma set_stage_row:
  assumes "release_support db = xs @ row # ys" and "distinct_keys ms_major (release_support db)"
  shows "release_support (setEndOfLifeReminderStage db (ms_major row) st) = xs @ row\<lparr>ms_eol_reminder_days := st\<rparr> # ys"
proof -
  have same: "map (\<lambda>r. if ms_major r = ms_major row then r\<lparr>ms_eol_reminder_days := st\<rparr> else r) zs = zs"
    if "ms_major row \<notin> ms_major ` set zs" for zs
    using that by (intro map_idI) force
  have "ms_major row \<notin> ms_major ` set xs" "ms_major row \<notin> ms_major ` set ys" using assms by simp_all
  from same [OF this(1)] same [OF this(2)] assms(1) show ?thesis
    by (simp add: setEndOfLifeReminderStage_def tbl_update_def)
qed

lemma send_reminders_rows:
  assumes "release_support db = xs @ rows" and "distinct_keys ms_major (release_support db)"
  shows "\<exists>db' d' out. send_reminders fresh now rows db d sent = Some (db', d', sent @ out)
    \<and> release_support db' = xs @ map (reminded now) rows
    \<and> map fst out = map ms_major (filter (\<lambda>r. reminder_due r now \<noteq> None) rows)
    \<and> length (notifications d') = length (notifications d) + length out"
  using assms
proof (induction rows arbitrary: db d xs sent)
  case (Cons row rows)
  show ?case
  proof (cases "reminder_due row now")
    case None
    with Cons.IH [of db "xs @ [row]" d sent] Cons.prems show ?thesis by (simp add: reminded_def)
  next
    case (Some stage)
    obtain title body where n: "majorSupportNotice (ms_major row) (ms_status row) (ms_end_of_life_at row) (ms_note row) (stage > 0) now = (title, body)"
      by fastforce
    then have blank: "trim title \<noteq> []" "trim body \<noteq> []"
      using notice_nonblank [of "ms_major row" "ms_status row" "ms_end_of_life_at row" "ms_note row" "stage > 0" now] by simp_all
    obtain d1 where d1: "createNotification d \<lparr>nt_id = fresh (ms_major row), nt_tenant_id = None, nt_kind = ''release'', nt_title = title,
        nt_body = body, nt_created_at = now, nt_created_by = None\<rparr> = Some d1" "length (notifications d1) = Suc (length (notifications d))"
      using blank by (simp add: createNotification_def NOTIFICATION_TITLE_LIMIT_def NOTIFICATION_BODY_LIMIT_def Let_def)
    let ?db = "setEndOfLifeReminderStage db (ms_major row) (Some stage)"
    have sup: "release_support ?db = (xs @ [reminded now row]) @ rows"
      using set_stage_row [OF Cons.prems] Some by (simp add: reminded_def)
    moreover have "distinct_keys ms_major (release_support ?db)"
      using Cons.prems by (simp add: sup)
    ultimately obtain db' d' out where ih: "send_reminders fresh now rows ?db d1 (sent @ [(ms_major row, title, body)])
        = Some (db', d', (sent @ [(ms_major row, title, body)]) @ out)"
      "release_support db' = (xs @ [reminded now row]) @ map (reminded now) rows"
      "map fst out = map ms_major (filter (\<lambda>r. reminder_due r now \<noteq> None) rows)"
      "length (notifications d') = length (notifications d1) + length out"
      using Cons.IH [of ?db "xs @ [reminded now row]" d1 "sent @ [(ms_major row, title, body)]"] by blast
    show ?thesis
      by (rule exI [of _ db'], rule exI [of _ d'], rule exI [of _ "(ms_major row, title, body) # out"])
        (use ih d1 Some n in simp)
  qed
qed simp

text \<open>How many reminders a row can still call for: the stages below the last one sent.\<close>

definition stages_left :: "major_support \<Rightarrow> nat" where
  "stages_left row = (case ms_eol_reminder_days row of None \<Rightarrow> 4 | Some k \<Rightarrow> length (filter (\<lambda>s. s < k) [60, 30, 7, 0]))"

lemma stage_values: "endOfLifeReminderStage t now = Some s \<Longrightarrow> s \<in> {60, 30, 7, 0}"
  by (auto simp: endOfLifeReminderStage_def END_OF_LIFE_REMINDER_DAYS_def Let_def split: if_splits)

lemma reminded_uses_stage: "reminder_due row now \<noteq> None \<Longrightarrow> Suc (stages_left (reminded now row)) \<le> stages_left row"
proof -
  assume "reminder_due row now \<noteq> None"
  then obtain t s where due: "reminder_due row now = Some s" and "endOfLifeReminderStage t now = Some s"
    and last: "ms_eol_reminder_days row = None \<or> (\<exists>k. ms_eol_reminder_days row = Some k \<and> s < k)"
    by (auto simp: reminder_due_def split: option.splits if_splits)
  then have "s \<in> {60, 30, 7, 0}" using stage_values by blast
  with due last show ?thesis by (auto simp: reminded_def stages_left_def)
qed

lemma reminded_keeps_stage: "stages_left (reminded now row) \<le> stages_left row"
  using reminded_uses_stage [of row now] by (cases "reminder_due row now") (auto simp: reminded_def)

fun reminder_run ::
  "(nat \<Rightarrow> string) \<Rightarrow> int list \<Rightarrow> release_db \<Rightarrow> d1 \<Rightarrow> (release_db \<times> d1 \<times> (nat \<times> string \<times> string) list) option" where
  "reminder_run fresh [] db d = Some (db, d, [])"
| "reminder_run fresh (now # ts) db d =
     (case sendEndOfLifeReminders fresh db d now of
        None \<Rightarrow> None
      | Some (db1, d1, sent) \<Rightarrow>
          (case reminder_run fresh ts db1 d1 of None \<Rightarrow> None | Some (db2, d2, later) \<Rightarrow> Some (db2, d2, sent @ later)))"

abbreviation sent_for :: "nat \<Rightarrow> (nat \<times> string \<times> string) list \<Rightarrow> nat" where
  "sent_for m sent \<equiv> length (filter (\<lambda>k. k = m) (map fst sent))"

definition budget :: "nat \<Rightarrow> release_db \<Rightarrow> nat" where
  "budget m db = (case tbl_lookup ms_major m (release_support db) of None \<Rightarrow> 0 | Some r \<Rightarrow> stages_left r)"

lemma lookup_reminded: "tbl_lookup ms_major m (map (reminded now) rows) = map_option (reminded now) (tbl_lookup ms_major m rows)"
  by (induction rows) (auto simp: tbl_lookup_def)

lemma sent_once:
  assumes "distinct_keys ms_major rows"
  shows "length (filter (\<lambda>k. k = m) (map ms_major (filter P rows)))
    = (case tbl_lookup ms_major m rows of None \<Rightarrow> 0 | Some r \<Rightarrow> if P r then 1 else 0)"
  using assms
proof (induction rows)
  case (Cons r rows)
  have "m \<notin> ms_major ` set rows \<Longrightarrow> filter (\<lambda>k. k = m) (map ms_major (filter P rows)) = []"
    by (auto simp: filter_empty_conv)
  moreover have "m \<notin> ms_major ` set rows \<Longrightarrow> tbl_lookup ms_major m rows = None" by (simp add: tbl_lookup_None)
  ultimately show ?case using Cons by (auto simp: tbl_lookup_def)
qed (simp add: tbl_lookup_def)

lemma reminder_run_budget:
  assumes "distinct_keys ms_major (release_support db)"
  shows "\<exists>db' d' sent. reminder_run fresh ts db d = Some (db', d', sent) \<and> (\<forall>m. sent_for m sent \<le> budget m db)
    \<and> length (notifications d') = length (notifications d) + length sent"
  using assms
proof (induction ts arbitrary: db d)
  case (Cons now ts)
  obtain db1 d1 out where one: "sendEndOfLifeReminders fresh db d now = Some (db1, d1, out)"
    "release_support db1 = map (reminded now) (release_support db)"
    "map fst out = map ms_major (filter (\<lambda>r. reminder_due r now \<noteq> None) (release_support db))"
    "length (notifications d1) = length (notifications d) + length out"
    using send_reminders_rows [of db "[]" "release_support db" fresh now d "[]"] Cons.prems
    by (auto simp: sendEndOfLifeReminders_def)
  have "distinct_keys ms_major (release_support db1)" using Cons.prems by (simp add: one(2) comp_def)
  from Cons.IH [OF this] obtain db2 d2 later where two: "reminder_run fresh ts db1 d1 = Some (db2, d2, later)"
    "\<forall>m. sent_for m later \<le> budget m db1" "length (notifications d2) = length (notifications d1) + length later" by blast
  have "sent_for m out + budget m db1 \<le> budget m db" for m
    unfolding one(3) sent_once [OF Cons.prems] budget_def one(2) lookup_reminded
    using reminded_uses_stage reminded_keeps_stage by (auto split: option.split)
  then have "sent_for m (out @ later) \<le> budget m db" for m
    using two(2) [rule_format, of m] by (simp add: order_trans [OF add_left_mono])
  then show ?case using one(1,4) two(1,3) by auto
qed simp


definition eol_shelf :: release_db where
  "eol_shelf = \<lparr>releases = [], release_support = [\<lparr>ms_major = 1, ms_status = Supported, ms_end_of_life_at = Some 100000000,
     ms_note = None, ms_updated_at = 0, ms_updated_by = None, ms_eol_reminder_days = None\<rparr>], release_majors = [], major_upgrade_grants = []\<rparr>"


end
