(* ===== verification/Lan_Sharing.thy ===== *)
theory Lan_Sharing
  imports Release_Ops
begin

text \<open>
  Sharing a release on the local network: \<open>src/cloudflare-control/src/lan_sharing.ts\<close>. An IPv4
  address is a \<open>32 word\<close>, as JavaScript's bit operators compute it. Times are milliseconds; the
  random order of \<open>lanPeers\<close> is an argument.
\<close>

unbundle bit_operations_syntax

definition LAN_SEEDS_PER_SITE :: nat where
  "LAN_SEEDS_PER_SITE = 2"

definition LAN_SEED_START_MS :: int where
  "LAN_SEED_START_MS = 5 * 60000"

definition LAN_HOLD_MAX_MS :: int where
  "LAN_HOLD_MAX_MS = 60 * 60000"

definition LAN_SHARE_SECONDS :: int where
  "LAN_SHARE_SECONDS = 48 * 60 * 60"

definition MAX_LAN_PEERS :: nat where
  "MAX_LAN_PEERS = 8"

definition MIN_PREFIX :: int where
  "MIN_PREFIX = 16"

definition MAX_PREFIX :: int where
  "MAX_PREFIX = 30"

record lan_report =
  ln_address :: string
  ln_prefix :: nat

record site_member =
  sm_clientId :: string
  sm_ip :: string
  sm_lan :: "lan_report option"
  sm_update :: "update_report option"
  sm_nudgedAt :: "int option"
  sm_nudgedVersion :: "string option"

subsection \<open>Addresses\<close>

definition octet_value :: "string \<Rightarrow> nat option" where
  "octet_value p =
     (if 1 \<le> length p \<and> length p \<le> 3 \<and> list_all is_digit p \<and> read_nat p \<le> 255 \<and> show_nat (read_nat p) = p
      then Some (read_nat p) else None)"

definition ipv4Number :: "string \<Rightarrow> 32 word option" where
  "ipv4Number address =
     (case map octet_value (split_on CHR ''.'' address) of
        [Some a, Some b, Some c, Some d] \<Rightarrow>
          Some (push_bit 24 (of_nat a) + push_bit 16 (of_nat b) + push_bit 8 (of_nat c) + of_nat d)
      | _ \<Rightarrow> None)"

definition ipv4Text :: "32 word \<Rightarrow> string" where
  "ipv4Text v = join ''.''
     (map (\<lambda>n. show_nat (unat n)) [drop_bit 24 v, drop_bit 16 v AND 255, drop_bit 8 v AND 255, v AND 255])"

definition prefix_mask :: "nat \<Rightarrow> 32 word" where
  "prefix_mask prefix = (if prefix = 0 then 0 else push_bit (32 - prefix) (- 1))"

definition isPrivateIpv4 :: "32 word \<Rightarrow> bool" where
  "isPrivateIpv4 v = (drop_bit 24 v = 10 \<or> drop_bit 20 v = 0xac1 \<or> drop_bit 16 v = 0xc0a8)"

definition normalizeLanReport :: "json \<Rightarrow> lan_report option" where
  "normalizeLanReport raw =
     (if \<not> is_object raw \<or> is_array raw then None
      else let address = (case field raw ''address'' of JStr a \<Rightarrow> a | _ \<Rightarrow> []) in
           case ipv4Number address of
             None \<Rightarrow> None
           | Some v \<Rightarrow>
               if \<not> isPrivateIpv4 v then None
               else case field raw ''prefix'' of
                 JInt p \<Rightarrow>
                   if p < MIN_PREFIX \<or> p > MAX_PREFIX then None
                   else let m = NOT (prefix_mask (nat p)); host = v AND m in
                        if host = 0 \<or> host = m then None
                        else Some \<lparr>ln_address = address, ln_prefix = nat p\<rparr>
               | _ \<Rightarrow> None)"

definition sameLanReport :: "lan_report option \<Rightarrow> lan_report option \<Rightarrow> bool" where
  "sameLanReport a b =
     (case (a, b) of
        (Some x, Some y) \<Rightarrow> ln_address x = ln_address y \<and> ln_prefix x = ln_prefix y
      | _ \<Rightarrow> a = b)"

text \<open>\<open>s.split("::")\<close>, and \<open>g.replace(/^0+(?=.)/, "")\<close>.\<close>

fun split_colons :: "string \<Rightarrow> string list" where
  "split_colons (a # b # r) =
     (if a = CHR '':'' \<and> b = CHR '':'' then [] # split_colons r
      else case split_colons (b # r) of [] \<Rightarrow> [[a]] | y # ys \<Rightarrow> (a # y) # ys)"
| "split_colons r = [r]"

definition strip_zeros :: "string \<Rightarrow> string" where
  "strip_zeros g = (let d = dropWhile (\<lambda>c. c = CHR ''0'') g in if d = [] \<and> g \<noteq> [] then ''0'' else d)"

definition is_hex :: "char \<Rightarrow> bool" where
  "is_hex c = (is_lower_hex c \<or> (65 \<le> code c \<and> code c \<le> 70))"

text \<open>The eight groups of an IPv6 address, lower case, where it is one.\<close>

definition good_groups :: "string list \<Rightarrow> bool" where
  "good_groups groups =
     (length groups = 8 \<and> list_all (\<lambda>g. 1 \<le> length g \<and> length g \<le> 4 \<and> list_all is_lower_hex g) groups)"

definition expand_groups :: "string list \<Rightarrow> string list option" where
  "expand_groups halves =
     (let head = (if halves ! 0 \<noteq> [] then split_on CHR '':'' (halves ! 0) else []);
          tail = (if length halves = 2 \<and> halves ! 1 \<noteq> [] then split_on CHR '':'' (halves ! 1) else []);
          missing = 8 - int (length head) - int (length tail);
          groups = head @ (if length halves = 2 then replicate (nat missing) ''0'' else []) @ tail
      in if (if length halves = 1 then missing \<noteq> 0 else missing < 1) then None
         else if good_groups groups then Some groups else None)"

definition ipv6_groups :: "string \<Rightarrow> string list option" where
  "ipv6_groups ip =
     (if \<not> (2 \<le> length ip \<and> length ip \<le> 39 \<and> list_all (\<lambda>c. is_hex c \<or> c = CHR '':'') ip) \<or> CHR '':'' \<notin> set ip then None
      else let halves = split_colons (toLowerCase ip) in
           if length halves > 2 then None else expand_groups halves)"

definition egressKey :: "string \<Rightarrow> string option" where
  "egressKey ip =
     (if ipv4Number ip \<noteq> None then Some ip
      else case ipv6_groups ip of
        None \<Rightarrow> None
      | Some groups \<Rightarrow> Some (join '':'' (map strip_zeros (take 4 groups)) @ ''::/64''))"

definition siteKey :: "string \<Rightarrow> lan_report option \<Rightarrow> string option" where
  "siteKey ip lan =
     (case lan of
        None \<Rightarrow> None
      | Some l \<Rightarrow>
          (case (egressKey ip, ipv4Number (ln_address l)) of
             (Some egress, Some v) \<Rightarrow>
               Some (egress @ ''|'' @ ipv4Text (v AND prefix_mask (ln_prefix l)) @ ''/'' @ show_nat (ln_prefix l))
           | _ \<Rightarrow> None))"

subsection \<open>Who fetches, who waits\<close>

definition holds :: "site_member \<Rightarrow> string \<Rightarrow> int \<Rightarrow> bool" where
  "holds member version nowMs =
     (case sm_update member of
        None \<Rightarrow> False
      | Some u \<Rightarrow>
          (up_phase u = Ready \<or> up_phase u = Staged) \<and> up_version u = Some version
          \<and> (case up_since u of None \<Rightarrow> True | Some since \<Rightarrow> nowMs < (since + LAN_SHARE_SECONDS) * 1000))"

definition seeding :: "site_member \<Rightarrow> string \<Rightarrow> int \<Rightarrow> bool" where
  "seeding member version nowMs =
     (let phase = map_option up_phase (sm_update member) in
      if phase = Some Downloading then (case sm_update member of Some u \<Rightarrow> up_version u = Some version | None \<Rightarrow> False)
      else if phase = Some Update_error \<or> holds member version nowMs then False
      else sm_nudgedVersion member = Some version
         \<and> (case sm_nudgedAt member of None \<Rightarrow> False | Some t \<Rightarrow> nowMs - t < LAN_SEED_START_MS))"

datatype lan_choice = Go | Hold

definition neighbours :: "site_member \<Rightarrow> string \<Rightarrow> site_member list \<Rightarrow> site_member list" where
  "neighbours member site others =
     filter (\<lambda>m. sm_clientId m \<noteq> sm_clientId member \<and> siteKey (sm_ip m) (sm_lan m) = Some site) others"

definition lanDecision :: "site_member \<Rightarrow> string \<Rightarrow> site_member list \<Rightarrow> int option \<Rightarrow> int \<Rightarrow> lan_choice" where
  "lanDecision member version others heldSince nowMs =
     (case siteKey (sm_ip member) (sm_lan member) of
        None \<Rightarrow> Go
      | Some site \<Rightarrow>
          let near = neighbours member site others in
          if list_ex (\<lambda>m. holds m version nowMs) near then Go
          else if length (filter (\<lambda>m. seeding m version nowMs) near) < LAN_SEEDS_PER_SITE then Go
          else if (case heldSince of None \<Rightarrow> False | Some t \<Rightarrow> nowMs - t \<ge> LAN_HOLD_MAX_MS) then Go
          else Hold)"

definition lanPeers :: "site_member \<Rightarrow> string \<Rightarrow> site_member list \<Rightarrow> int \<Rightarrow> int list \<Rightarrow> string list" where
  "lanPeers member version others nowMs order =
     (case siteKey (sm_ip member) (sm_lan member) of
        None \<Rightarrow> []
      | Some site \<Rightarrow>
          let peers = map (\<lambda>m. case sm_lan m of Some l \<Rightarrow> ln_address l | None \<Rightarrow> [])
                (filter (\<lambda>m. holds m version nowMs) (neighbours member site others))
          in map fst (take MAX_LAN_PEERS (sort_by (\<lambda>a b. snd a - snd b) (zip peers order))))"

subsection \<open>Addresses round trip\<close>

lemma split_on_join:
  assumes "ps \<noteq> []" and "\<forall>p\<in>set ps. c \<notin> set p"
  shows "split_on c (join [c] ps) = ps"
  using assms
proof (induction ps)
  case (Cons p ps)
  then show ?case by (cases ps) (auto simp: split_on_no_sep split_on_append)
qed simp

lemma show_nat_digits: "list_all is_digit (show_nat n)"
proof (induction n rule: show_nat.induct)
  case (1 n)
  then show ?case by (subst show_nat.simps) (auto simp: is_digit_digit_char)
qed

lemma show_nat_length: "n < 10 \<Longrightarrow> length (show_nat n) = 1" "10 \<le> n \<Longrightarrow> n < 100 \<Longrightarrow> length (show_nat n) = 2"
  "100 \<le> n \<Longrightarrow> n < 1000 \<Longrightarrow> length (show_nat n) = 3"
  by (simp add: show_nat_small, simp add: show_nat_two, subst show_nat.simps, simp add: show_nat_two)

lemma show_nat_inj: "show_nat a = show_nat b \<Longrightarrow> a = b"
  by (metis read_show_nat)

lemma octet_value_show: "n < 256 \<Longrightarrow> octet_value (show_nat n) = Some n"
  using show_nat_length [of n] by (cases "n < 10"; cases "n < 100") (auto simp: octet_value_def show_nat_digits read_show_nat)

lemma octet_value_Some: "octet_value p = Some n \<Longrightarrow> n < 256 \<and> p = show_nat n"
  by (auto simp: octet_value_def split: if_splits)

lemma show_nat_no_dot: "\<not> is_digit c \<Longrightarrow> c \<notin> set (show_nat n)"
  using show_nat_digits [of n] by (auto simp: list_all_iff)

definition dotted :: "nat \<Rightarrow> nat \<Rightarrow> nat \<Rightarrow> nat \<Rightarrow> string" where
  "dotted a b c d = join ''.'' (map show_nat [a, b, c, d])"

lemma dot_not_digit: "\<not> is_digit CHR ''.''" "\<not> is_digit CHR ''/''" "\<not> is_digit CHR ''|''"
  by code_simp+

lemma split_dotted: "split_on CHR ''.'' (dotted a b c d) = map show_nat [a, b, c, d]"
  unfolding dotted_def by (rule split_on_join) (auto simp: show_nat_no_dot dot_not_digit)

definition packed :: "nat \<Rightarrow> nat \<Rightarrow> nat \<Rightarrow> nat \<Rightarrow> nat" where
  "packed a b c d = a * 2 ^ 24 + b * 2 ^ 16 + c * 2 ^ 8 + d"

lemma ipv4Number_dotted:
  assumes "a < 256" "b < 256" "c < 256" "d < 256"
  shows "ipv4Number (dotted a b c d) = Some (of_nat (packed a b c d))"
  using assms by (simp add: ipv4Number_def split_dotted octet_value_show packed_def push_bit_eq_mult)

lemma ipv4Number_Some:
  assumes "ipv4Number s = Some v"
  obtains a b c d where "a < 256" "b < 256" "c < 256" "d < 256" "s = dotted a b c d" "v = of_nat (packed a b c d)"
proof -
  obtain p q r t a b c d where parts: "split_on CHR ''.'' s = [p, q, r, t]" "octet_value p = Some a" "octet_value q = Some b"
    "octet_value r = Some c" "octet_value t = Some d"
    using assms by (auto simp: ipv4Number_def split: list.splits option.splits)
  note o = parts(2-5) [THEN octet_value_Some]
  have "s = dotted a b c d" using join_split_on [of "CHR ''.''" s] o by (simp add: parts(1) dotted_def)
  then show ?thesis using o assms ipv4Number_dotted [of a b c d] by (intro that [of a b c d]) simp_all
qed

lemma ipv4Text_unat:
  "ipv4Text v = dotted (unat v div 2 ^ 24) (unat v div 2 ^ 16 mod 256) (unat v div 2 ^ 8 mod 256) (unat v mod 256)"
proof -
  have m: "(x :: 32 word) AND 255 = take_bit 8 x" for x by (simp add: take_bit_eq_mask mask_eq_exp_minus_1)
  show ?thesis
    unfolding ipv4Text_def dotted_def m list.map unat_drop_bit_eq unsigned_take_bit_eq
    by (simp add: drop_bit_eq_div take_bit_eq_mod)
qed

lemma packed_less: "a < 256 \<Longrightarrow> b < 256 \<Longrightarrow> c < 256 \<Longrightarrow> d < 256 \<Longrightarrow> packed a b c d < 2 ^ 32"
  by (simp add: packed_def)

lemma packed_digits:
  assumes "a < 256" "b < 256" "c < 256" "d < 256"
  shows "packed a b c d div 2 ^ 24 = a" "packed a b c d div 2 ^ 16 mod 256 = b"
    "packed a b c d div 2 ^ 8 mod 256 = c" "packed a b c d mod 256 = d"
proof -
  have p: "packed a b c d = d + 256 * (c + 256 * (b + 256 * a))" by (simp add: packed_def)
  have pow: "n div 2 ^ 16 = n div 256 div 256" "n div 2 ^ 24 = n div 256 div 256 div 256" "n div 2 ^ 8 = n div 256" for n :: nat
    by (simp_all add: div_mult2_eq [symmetric])
  have step: "(x + 256 * y) div 256 = y" "(x + 256 * y) mod 256 = x" if "x < 256" for x y :: nat
    using that by simp_all
  note steps = step [OF assms(4)] step [OF assms(3)] step [OF assms(2)]
  show "packed a b c d div 2 ^ 24 = a" "packed a b c d div 2 ^ 16 mod 256 = b"
    "packed a b c d div 2 ^ 8 mod 256 = c" "packed a b c d mod 256 = d"
    unfolding p pow steps by (rule refl)+
qed

lemma ipv4Text_packed:
  assumes "a < 256" "b < 256" "c < 256" "d < 256"
  shows "ipv4Text (of_nat (packed a b c d)) = dotted a b c d"
proof -
  have "unat (of_nat (packed a b c d) :: 32 word) = packed a b c d"
    using packed_less [OF assms] by (simp add: unat_of_nat take_bit_nat_eq_self)
  then show ?thesis unfolding ipv4Text_unat by (simp only: packed_digits [OF assms])
qed

lemma unpacked: "packed (n div 2 ^ 24) (n div 2 ^ 16 mod 256) (n div 2 ^ 8 mod 256) (n mod 256) = n"
proof -
  have d: "n div 2 ^ 16 = n div 256 div 256" "n div 2 ^ 24 = n div 256 div 256 div 256"
    by (simp_all add: div_mult2_eq [symmetric])
  have p: "packed a b c d = ((a * 256 + b) * 256 + c) * 256 + d" for a b c d by (simp add: packed_def)
  show ?thesis unfolding p d by (simp only: power_one_right div_mult_mod_eq) (simp add: div_mult_mod_eq)
qed

lemma ipv4Text_dotted:
  obtains a b c d where "a < 256" "b < 256" "c < 256" "d < 256" "ipv4Text v = dotted a b c d" "v = of_nat (packed a b c d)"
proof -
  let ?n = "unat v"
  have "?n < 2 ^ 32" using unsigned_less [of v] by simp
  then have "?n div 2 ^ 24 < 256" by (simp add: less_mult_imp_div_less)
  moreover have "v = of_nat (packed (?n div 2 ^ 24) (?n div 2 ^ 16 mod 256) (?n div 2 ^ 8 mod 256) (?n mod 256))"
    unfolding unpacked by simp
  ultimately show ?thesis using that [OF _ _ _ _ ipv4Text_unat] by simp
qed

lemma ipv4Text_inj: "ipv4Text v = ipv4Text w \<Longrightarrow> v = w"
proof -
  assume "ipv4Text v = ipv4Text w"
  moreover have "ipv4Number (ipv4Text x) = Some x" for x
    by (rule ipv4Text_dotted [of x]) (simp add: ipv4Number_dotted)
  ultimately show "v = w" by (metis option.inject)
qed

subsection \<open>A site is one network behind one address\<close>

lemma dotted_chars: "\<not> is_digit c \<Longrightarrow> c \<noteq> CHR ''.'' \<Longrightarrow> c \<notin> set (dotted a b c' d)"
  by (simp add: dotted_def show_nat_no_dot)

lemma ipv4Text_chars: "\<not> is_digit c \<Longrightarrow> c \<noteq> CHR ''.'' \<Longrightarrow> c \<notin> set (ipv4Text v)"
  by (rule ipv4Text_dotted [of v]) (simp add: dotted_chars)

lemma join_chars: "x \<in> set (join d ps) \<Longrightarrow> x \<in> set d \<or> (\<exists>p\<in>set ps. x \<in> set p)"
  by (induction d ps rule: join.induct) auto

lemma expand_groups_good: "expand_groups halves = Some groups \<Longrightarrow> good_groups groups"
  unfolding expand_groups_def Let_def by (metis option.distinct(1) option.inject)

lemma ipv6_groups_good: "ipv6_groups ip = Some groups \<Longrightarrow> good_groups groups"
  unfolding ipv6_groups_def Let_def by (metis option.distinct(1) expand_groups_good)

lemma ipv6_groups_hex: "ipv6_groups ip = Some groups \<Longrightarrow> \<forall>g\<in>set groups. list_all is_lower_hex g"
  using ipv6_groups_good [of ip groups] by (simp add: good_groups_def list_all_iff)

lemma egressKey_no_bar: "egressKey ip = Some e \<Longrightarrow> CHR ''|'' \<notin> set e"
proof
  assume e: "egressKey ip = Some e" and bar: "CHR ''|'' \<in> set e"
  have hex: "\<not> is_lower_hex CHR ''|''" by code_simp
  show False
  proof (cases "ipv4Number ip")
    case (Some v)
    with e have "e = ip" by (simp add: egressKey_def)
    with Some bar show False
      by (auto elim!: ipv4Number_Some simp: dotted_chars dot_not_digit)
  next
    case None
    with e obtain groups where g: "e = join '':'' (map strip_zeros (take 4 groups)) @ ''::/64''"
      "\<forall>g\<in>set groups. list_all is_lower_hex g"
      using ipv6_groups_hex by (auto simp: egressKey_def split: option.splits)
    then obtain p where "p \<in> set groups" "CHR ''|'' \<in> set (strip_zeros p)"
      using bar by (auto dest!: join_chars in_set_takeD)
    then have "CHR ''|'' \<in> set p"
      by (auto simp: strip_zeros_def Let_def split: if_splits dest: set_dropWhileD)
    with g(2) \<open>p \<in> set groups\<close> hex show False by (auto simp: list_all_iff)
  qed
qed

lemma append_sep_eq:
  assumes "c \<notin> set xs" and "c \<notin> set ys" and "xs @ c # as = ys @ c # bs"
  shows "xs = ys \<and> as = bs"
  using assms
proof (induction xs arbitrary: ys)
  case Nil
  then show ?case by (cases ys) auto
next
  case (Cons x xs)
  then show ?case by (cases ys) auto
qed

text \<open>
  Two workstations are taken to be at the same site exactly when they reach the platform from
  the same public address (or the same IPv6 /64) and their private addresses lie in the same
  network: equal prefix length and equal address bits under the mask. The text of the key loses
  nothing, and an address and its text determine each other.
\<close>

theorem same_site_exact:
  assumes "siteKey ip (Some l) = Some site" and "ipv4Number (ln_address l) = Some v" and "ipv4Number (ln_address l') = Some v'"
  shows "(siteKey ip' (Some l') = Some site \<longleftrightarrow>
      egressKey ip' = egressKey ip \<and> ln_prefix l' = ln_prefix l
      \<and> v' AND prefix_mask (ln_prefix l') = v AND prefix_mask (ln_prefix l))
    \<and> ipv4Text v = ln_address l \<and> ipv4Number (ipv4Text w) = Some w"
proof (intro conjI iffI)
  obtain e where e: "egressKey ip = Some e"
    "site = e @ CHR ''|'' # ipv4Text (v AND prefix_mask (ln_prefix l)) @ CHR ''/'' # show_nat (ln_prefix l)"
    using assms(1,2) by (auto simp: siteKey_def split: option.splits)
  {
    assume "siteKey ip' (Some l') = Some site"
    then obtain e' where e': "egressKey ip' = Some e'"
      "site = e' @ CHR ''|'' # ipv4Text (v' AND prefix_mask (ln_prefix l')) @ CHR ''/'' # show_nat (ln_prefix l')"
      using assms(3) by (auto simp: siteKey_def split: option.splits)
    have bars: "CHR ''|'' \<notin> set e'" "CHR ''|'' \<notin> set e" using egressKey_no_bar e(1) e'(1) by blast+
    have one: "e' = e \<and> ipv4Text (v' AND prefix_mask (ln_prefix l')) @ CHR ''/'' # show_nat (ln_prefix l')
        = ipv4Text (v AND prefix_mask (ln_prefix l)) @ CHR ''/'' # show_nat (ln_prefix l)"
      using append_sep_eq [OF bars] e(2) e'(2) by metis
    have slash: "CHR ''/'' \<notin> set (ipv4Text x)" for x by (simp add: ipv4Text_chars dot_not_digit)
    have two: "ipv4Text (v' AND prefix_mask (ln_prefix l')) = ipv4Text (v AND prefix_mask (ln_prefix l))
        \<and> show_nat (ln_prefix l') = show_nat (ln_prefix l)"
      using append_sep_eq [OF slash slash] one by blast
    show "egressKey ip' = egressKey ip" using one e(1) e'(1) by simp
    show "ln_prefix l' = ln_prefix l" using two show_nat_inj by blast
    show "v' AND prefix_mask (ln_prefix l') = v AND prefix_mask (ln_prefix l)" using two ipv4Text_inj by blast
  }
  assume "egressKey ip' = egressKey ip \<and> ln_prefix l' = ln_prefix l \<and> v' AND prefix_mask (ln_prefix l') = v AND prefix_mask (ln_prefix l)"
  then have same: "egressKey ip' = Some e" "ln_prefix l' = ln_prefix l"
    "v' AND prefix_mask (ln_prefix l) = v AND prefix_mask (ln_prefix l)" using e(1) by auto
  show "siteKey ip' (Some l') = Some site" using assms(3) by (simp add: siteKey_def same e(2))
next
  show "ipv4Text v = ln_address l" using assms(2) by (auto elim!: ipv4Number_Some simp: ipv4Text_packed)
next
  show "ipv4Number (ipv4Text w) = Some w" by (rule ipv4Text_dotted [of w]) (simp add: ipv4Number_dotted)
qed

theorem same_site_exact_witness:
  "siteKey ''203.0.113.9'' (Some \<lparr>ln_address = ''192.168.1.20'', ln_prefix = 24\<rparr>) = Some ''203.0.113.9|192.168.1.0/24''
   \<and> siteKey ''203.0.113.9'' (Some \<lparr>ln_address = ''192.168.2.20'', ln_prefix = 24\<rparr>) \<noteq> Some ''203.0.113.9|192.168.1.0/24''"
proof -
  have k: "siteKey ''203.0.113.9'' (Some \<lparr>ln_address = ''192.168.1.20'', ln_prefix = 24\<rparr>) = Some ''203.0.113.9|192.168.1.0/24''" by code_simp
  have v: "ipv4Number ''192.168.1.20'' = Some 3232235796" "ipv4Number ''192.168.2.20'' = Some 3232236052" by code_simp+
  have m: "(3232236052 :: 32 word) AND prefix_mask 24 \<noteq> 3232235796 AND prefix_mask 24" by code_simp
  show ?thesis
    using same_site_exact [of "''203.0.113.9''" "\<lparr>ln_address = ''192.168.1.20'', ln_prefix = 24\<rparr>" _ 3232235796
        "\<lparr>ln_address = ''192.168.2.20'', ln_prefix = 24\<rparr>" 3232236052 "''203.0.113.9''" 0] k v m by simp
qed

end
