(* ===== verification/Guard.thy ===== *)
theory Guard
  imports Sessions
begin

text \<open>
  Who is asking, and about which organization: \<open>src/cloudflare-control/src/guard.ts\<close> and
  \<open>demo.ts\<close>. A request is the headers and the parts of its address these functions read. An answer
  of \<open>jsonError\<close> is its message and status; \<open>None\<close> is the \<open>null\<close> that lets the request go on.
\<close>

record web_request =
  rq_host :: "string option"
  rq_url_hostname :: "string option"
  rq_http_method :: string
  rq_origin :: "string option"
  rq_authorization :: "string option"
  rq_x_tenant :: "string option"
  rq_tenant_param :: "string option"

subsection \<open>Demo organizations (demo.ts)\<close>

definition DEMO_SLUGS :: "string list" where
  "DEMO_SLUGS = [''web-demo'', ''local-demo'', ''docker-demo'']"

definition defaultDemoSlug :: "bool \<Rightarrow> string" where
  "defaultDemoSlug onDevHost = (if onDevHost then ''local-demo'' else ''web-demo'')"

definition isDemoSlug :: "string option \<Rightarrow> bool" where
  "isDemoSlug slug = (case slug of None \<Rightarrow> False | Some s \<Rightarrow> s \<in> set DEMO_SLUGS)"

definition isDemoTenant :: "tenant option \<Rightarrow> string \<Rightarrow> bool" where
  "isDemoTenant t superAdminId =
     (case t of None \<Rightarrow> False | Some t \<Rightarrow> isDemoSlug (Some (tn_subdomain t)) \<and> tn_user_id t = superAdminId)"

subsection \<open>Hosts\<close>

definition DEV_HOSTS :: "string list" where
  "DEV_HOSTS = [''localhost'', ''127.0.0.1'', ''0.0.0.0'', ''[::1]'', ''host.docker.internal'', ''host.containers.internal'']"

text \<open>The host the request was addressed to; \<open>rq_url_hostname\<close> is \<open>None\<close> where its URL does not parse.\<close>

definition hostname :: "web_request \<Rightarrow> string" where
  "hostname r =
     (if truthy_text (rq_host r)
      then let header = text_of (rq_host r) in
           if startsWith header ''['' \<and> CHR '']'' \<in> set header
           then toLowerCase (takeWhile (\<lambda>c. c \<noteq> CHR '']'') header @ '']'')
           else toLowerCase (hd (split_on CHR '':'' header))
      else case rq_url_hostname r of Some h \<Rightarrow> toLowerCase h | None \<Rightarrow> ''localhost'')"

text \<open>\<open>\d{1,3}\<close>\<close>

definition is_octet :: "string \<Rightarrow> bool" where
  "is_octet s = (1 \<le> length s \<and> length s \<le> 3 \<and> list_all is_digit s)"

definition isDevHost :: "web_request \<Rightarrow> bool" where
  "isDevHost r =
     (let host = hostname r; parts = split_on CHR ''.'' host in
      host \<in> set DEV_HOSTS
      \<or> (length parts = 4 \<and> hd parts = ''127'' \<and> list_all is_octet (tl parts))
      \<or> (length parts = 4 \<and> take 2 parts = [''192'', ''168''] \<and> list_all is_octet (drop 2 parts))
      \<or> (length parts = 4 \<and> hd parts = ''10'' \<and> list_all is_octet (tl parts))
      \<or> (length parts = 4 \<and> hd parts = ''172'' \<and> length (parts ! 1) = 2 \<and> list_all is_digit (parts ! 1)
          \<and> 16 \<le> read_nat (parts ! 1) \<and> read_nat (parts ! 1) \<le> 31 \<and> list_all is_octet (drop 2 parts)))"

definition isIpLiteral :: "string \<Rightarrow> bool" where
  "isIpLiteral host =
     ((let parts = split_on CHR ''.'' host in length parts = 4 \<and> list_all is_octet parts)
      \<or> CHR '':'' \<in> set host \<or> startsWith host ''['')"

definition RESERVED_SLUGS :: "string list" where
  "RESERVED_SLUGS =
     [''www'', ''super'', ''labkiosk'', ''api'', ''admin'', ''portal'', ''status'', ''mail'', ''app'', ''kiosk'', ''root'',
      ''releases'', ''release'', ''updates'', ''update'', ''ota'', ''download'', ''downloads'', ''mirror'',
      ''cdn'', ''static'', ''assets'', ''media'', ''files'', ''images'', ''img'',
      ''docs'', ''wiki'', ''blog'', ''help'', ''support'', ''billing'',
      ''dashboard'', ''console'', ''platform'', ''system'', ''internal'',
      ''dev'', ''staging'', ''stage'', ''test'', ''testing'', ''beta'', ''preview'',
      ''account'', ''accounts'', ''login'', ''signin'', ''signup'', ''register'', ''auth'', ''sso'', ''oauth'',
      ''security'', ''official'', ''team'', ''staff'',
      ''abuse'', ''postmaster'', ''hostmaster'', ''webmaster'', ''noreply'', ''no-reply'',
      ''smtp'', ''imap'', ''pop'', ''pop3'', ''webmail'', ''ns1'', ''ns2'', ''autodiscover'', ''autoconfig'', ''mta-sts'',
      ''git'', ''vpn'', ''ftp'']"

definition PLATFORM_SLUGS :: "string list" where
  "PLATFORM_SLUGS = ''demo'' # DEMO_SLUGS"

definition isReservedSlug :: "string \<Rightarrow> bool" where
  "isReservedSlug slug = (slug \<in> set RESERVED_SLUGS \<or> slug \<in> set PLATFORM_SLUGS)"

definition isHostUnder :: "string \<Rightarrow> string option \<Rightarrow> bool" where
  "isHostUnder host base =
     (if \<not> truthy_text base then False
      else let cleanHost = toLowerCase host; cleanBase = toLowerCase (strip_leading_dot (text_of base))
           in cleanHost = cleanBase \<or> endsWith cleanHost (''.'' @ cleanBase))"

definition superAdminHost :: "string option \<Rightarrow> string option \<Rightarrow> string + string option" where
  "superAdminHost SUPER_ADMIN_HOST DEFAULT_DOMAIN =
     (let host = toLowerCase (trim (text_of SUPER_ADMIN_HOST));
          base = toLowerCase (strip_leading_dot (text_of DEFAULT_DOMAIN))
      in if host = [] then Inr None
         else if base = [] \<or> host = base \<or> \<not> endsWith host (''.'' @ base)
                 \<or> CHR ''.'' \<in> set (drop_end (length base + 1) host)
         then Inl (''SUPER_ADMIN_HOST must be one name directly under DEFAULT_DOMAIN (e.g. super.''
                @ (if base = [] then ''labkiosk.org'' else base) @ ''), not \"'' @ host @ ''\"'')
         else Inr (Some host))"

definition hostSubdomain :: "web_request \<Rightarrow> string option \<Rightarrow> string option" where
  "hostSubdomain r baseDomain =
     (let host = hostname r in
      if isIpLiteral host then None
      else
        let slug = (if truthy_text baseDomain
                    then let suffix = ''.'' @ toLowerCase (strip_leading_dot (text_of baseDomain));
                             prefix = drop_end (length suffix) host
                         in if \<not> endsWith host suffix then None
                            else if prefix = [] \<or> CHR ''.'' \<in> set prefix then None
                            else Some (cleanSubdomain (Some prefix))
                    else let parts = split_on CHR ''.'' host
                         in if length parts \<le> 2 then None else Some (cleanSubdomain (Some (hd parts))))
        in case slug of None \<Rightarrow> None
           | Some s \<Rightarrow> if s = [] \<or> s \<in> set RESERVED_SLUGS then None else Some s)"

subsection \<open>Which organization\<close>

record resolution =
  rs_tenant :: "tenant option"
  rs_denied :: bool

definition resolveTenant ::
  "d1 \<Rightarrow> web_request \<Rightarrow> session option \<Rightarrow> bool \<Rightarrow> string option \<Rightarrow> resolution" where
  "resolveTenant db r session allowAnonymousOverride baseDomain =
     (case hostSubdomain r baseDomain of
        Some slug \<Rightarrow> \<lparr>rs_tenant = findTenantBySubdomain db slug, rs_denied = False\<rparr>
      | None \<Rightarrow>
          let host = hostname r;
              custom = (if \<not> isDevHost r \<and> (\<not> truthy_text baseDomain
                            \<or> (host \<noteq> text_of baseDomain \<and> \<not> endsWith host (''.'' @ text_of baseDomain)))
                        then findTenantByCustomDomain db host else None)
          in case custom of
               Some t \<Rightarrow> \<lparr>rs_tenant = Some t, rs_denied = False\<rparr>
             | None \<Rightarrow>
                 let requested = cleanSubdomain (case rq_tenant_param r of Some p \<Rightarrow> Some p | None \<Rightarrow> rq_x_tenant r)
                 in if requested \<noteq> []
                    then (case findTenantBySubdomain db requested of
                            None \<Rightarrow> \<lparr>rs_tenant = None, rs_denied = False\<rparr>
                          | Some candidate \<Rightarrow>
                              let mayOverride = (isDevHost r \<or> allowAnonymousOverride
                                    \<or> (case session of None \<Rightarrow> False
                                       | Some s \<Rightarrow> se_role s = Super_admin \<or> se_tenant_id s = Some (tn_id candidate)))
                              in if mayOverride then \<lparr>rs_tenant = Some candidate, rs_denied = False\<rparr>
                                 else \<lparr>rs_tenant = None, rs_denied = True\<rparr>)
                    else (case session of
                            Some s \<Rightarrow> if truthy_text (se_tenant_id s)
                                      then \<lparr>rs_tenant = findTenantById db (text_of (se_tenant_id s)), rs_denied = False\<rparr>
                                      else \<lparr>rs_tenant = None, rs_denied = False\<rparr>
                          | None \<Rightarrow> \<lparr>rs_tenant = None, rs_denied = False\<rparr>))"

subsection \<open>Cross-site requests\<close>

definition same_site :: "url_parser \<Rightarrow> web_request \<Rightarrow> string option \<Rightarrow> string \<Rightarrow> bool" where
  "same_site parse_url r baseDomain origin =
     (case parse_url origin of
        None \<Rightarrow> False
      | Some u \<Rightarrow>
          let originHost = toLowerCase (hostname_of u)
          in originHost = hostname r \<or> (originHost \<in> set DEV_HOSTS \<and> isDevHost r) \<or> isHostUnder originHost baseDomain)"

definition cross_site :: refusal where
  "cross_site = (''Cross-site requests are not accepted'', 403)"

definition rejectCrossSiteMutation ::
  "url_parser \<Rightarrow> web_request \<Rightarrow> bool \<Rightarrow> string option \<Rightarrow> refusal option" where
  "rejectCrossSiteMutation parse_url r usedCookie baseDomain =
     (if \<not> usedCookie then None
      else if rq_http_method r \<noteq> ''POST'' \<and> rq_http_method r \<noteq> ''DELETE'' then None
      else if \<not> truthy_text (rq_origin r) then None
      else if rq_origin r = Some ''null'' then Some cross_site
      else if same_site parse_url r baseDomain (text_of (rq_origin r)) then None else Some cross_site)"

definition rejectCrossSiteSocket :: "url_parser \<Rightarrow> web_request \<Rightarrow> string option \<Rightarrow> refusal option" where
  "rejectCrossSiteSocket parse_url r baseDomain =
     (if \<not> truthy_text (rq_origin r) \<or> rq_origin r = Some ''null'' then Some cross_site
      else if same_site parse_url r baseDomain (text_of (rq_origin r)) then None else Some cross_site)"

subsection \<open>Permissions\<close>

definition requireSuperAdmin :: "session option \<Rightarrow> refusal option" where
  "requireSuperAdmin session =
     (case session of
        None \<Rightarrow> Some (''Authentication required'', 401)
      | Some s \<Rightarrow> if se_role s \<noteq> Super_admin then Some (''Super administrator access required'', 403) else None)"

definition requireTenantAdmin :: "session option \<Rightarrow> tenant option \<Rightarrow> refusal option" where
  "requireTenantAdmin session t =
     (case session of
        None \<Rightarrow> Some (''Authentication required'', 401)
      | Some s \<Rightarrow>
          (case t of
             None \<Rightarrow> Some (''No organization selected for this request'', 400)
           | Some tenant \<Rightarrow>
               if se_role s = Super_admin
               then if isDemoTenant (Some tenant) (se_user_id s) then None
                    else Some (''Platform administrators cannot access individual organization consoles for privacy and security'', 403)
               else if se_tenant_id s \<noteq> Some (tn_id tenant) then Some (''You do not have access to this organization'', 403)
               else if tn_status tenant = Pending \<or> tn_status tenant = Rejected
               then Some (''This organization has not been approved yet'', 403)
               else None))"

definition requireTenantPermission :: "d1 \<Rightarrow> session option \<Rightarrow> tenant option \<Rightarrow> string \<Rightarrow> refusal option" where
  "requireTenantPermission db session t permission =
     (case requireTenantAdmin session t of
        Some e \<Rightarrow> Some e
      | None \<Rightarrow>
          (case (session, t) of
             (Some s, Some tenant) \<Rightarrow>
               if se_role s = Super_admin then None
               else if tn_user_id tenant = se_user_id s then None
               else let perms = getTenantUserPermissions db (tn_id tenant) (se_user_id s)
                    in if permission \<notin> set perms \<and> ''*'' \<notin> set perms
                       then Some (''You do not have permission to access '' @ permission, 403) else None
           | _ \<Rightarrow> None))"

subsection \<open>Device tokens\<close>

definition DEVICE_TOKEN_CACHE_MS :: int where
  "DEVICE_TOKEN_CACHE_MS = 60000"

definition DEVICE_TOKEN_CACHE_LIMIT :: nat where
  "DEVICE_TOKEN_CACHE_LIMIT = 20000"

definition DEVICE_TOKEN_TOUCH_SECONDS :: int where
  "DEVICE_TOKEN_TOUCH_SECONDS = 3600"

text \<open>
  The cache of one isolate: tokens in insertion order with the device and the millisecond until
  which it is trusted. \<open>Map.set\<close> on a key that is there keeps its place.
\<close>

type_synonym token_cache = "(string \<times> device_token \<times> int) list"

definition forgetDeviceToken :: "token_cache \<Rightarrow> string \<Rightarrow> string \<Rightarrow> token_cache" where
  "forgetDeviceToken cache tenantId clientId =
     filter (\<lambda>(token, d, until). \<not> (dt_tenant_id d = tenantId \<and> dt_client_id d = clientId)) cache"

definition bearer_token :: "web_request \<Rightarrow> string" where
  "bearer_token r =
     (let auth = text_of (rq_authorization r) in if startsWith auth ''Bearer '' then trim (drop 7 auth) else [])"

text \<open>What the cache says of a token at \<open>now\<close> (milliseconds).\<close>

definition trusted_device :: "token_cache \<Rightarrow> string \<Rightarrow> int \<Rightarrow> device_token option" where
  "trusted_device cache token now =
     (case map_of cache token of Some (d, until) \<Rightarrow> if until > now then Some d else None | None \<Rightarrow> None)"

text \<open>A full cache drops the token put in first.\<close>

definition make_room :: "token_cache \<Rightarrow> token_cache" where
  "make_room cache = (if length cache \<ge> DEVICE_TOKEN_CACHE_LIMIT then tl cache else cache)"

definition requireDevice ::
  "(string \<Rightarrow> string) \<Rightarrow> web_request \<Rightarrow> int \<Rightarrow> d1 \<times> token_cache \<Rightarrow> (refusal + device_token) \<times> d1 \<times> token_cache" where
  "requireDevice sha r now st =
     (let (db, cache) = st; token = bearer_token r in
      if token = [] then (Inl (''Device token required'', 401), db, cache)
      else case trusted_device cache token now of
        Some d \<Rightarrow> (Inr d, db, cache)
      | None \<Rightarrow>
          (case findDeviceByToken sha db token of
             None \<Rightarrow> (Inl (''Invalid or revoked device token'', 401), db, tbl_delete fst token cache)
           | Some device \<Rightarrow>
               (Inr device,
                if now div 1000 - dt_last_used_at device > DEVICE_TOKEN_TOUCH_SECONDS
                then touchDeviceToken db (dt_id device) (now div 1000) else db,
                tbl_upsert fst (token, device, now + DEVICE_TOKEN_CACHE_MS)
                  (make_room cache))))"

subsection \<open>A request reaches only the organization it may\<close>

text \<open>The organization a request names by its host: its address on the platform, or its own domain.\<close>

definition host_tenant :: "d1 \<Rightarrow> web_request \<Rightarrow> string option \<Rightarrow> tenant \<Rightarrow> bool" where
  "host_tenant db r baseDomain t =
     (t \<in> set (tenants db)
      \<and> ((case hostSubdomain r baseDomain of None \<Rightarrow> False
           | Some slug \<Rightarrow> tn_subdomain t = slug \<or> tn_chosen_subdomain t = Some slug)
         \<or> (hostSubdomain r baseDomain = None \<and> tn_custom_domain t = Some (hostname r))))"

lemma toLowerCase_hostname: "toLowerCase (hostname r) = hostname r"
proof -
  have "toLowerCase ''localhost'' = ''localhost''" by code_simp
  then show ?thesis by (simp add: hostname_def Let_def split: option.split)
qed

lemma hostSubdomain_clean:
  assumes "hostSubdomain r base = Some slug"
  shows "slug \<noteq> [] \<and> list_all is_slug_char slug \<and> slug \<notin> set RESERVED_SLUGS"
  using assms cleanSubdomain_chars
  by (auto simp: hostSubdomain_def Let_def split: if_splits option.splits)

lemma slug_lower: "list_all is_slug_char s \<Longrightarrow> toLowerCase s = s"
  by (rule toLowerCase_id) (auto simp: list_all_iff slug_char_lower)

lemma findTenantBySubdomain_slug:
  assumes "list_all is_slug_char slug" and "findTenantBySubdomain db slug = Some t"
  shows "t \<in> set (tenants db) \<and> (tn_subdomain t = slug \<or> tn_chosen_subdomain t = Some slug)"
  using find_Some_iff_mem [OF assms(2) [unfolded findTenantBySubdomain_def]] slug_lower [OF assms(1)] by simp

lemma findTenantById_mem: "findTenantById db i = Some t \<Longrightarrow> t \<in> set (tenants db) \<and> tn_id t = i"
  unfolding findTenantById_def by (rule find_Some_iff_mem)

lemma findTenantByCustomDomain_host:
  assumes "findTenantByCustomDomain db (hostname r) = Some t"
  shows "t \<in> set (tenants db) \<and> tn_custom_domain t = Some (hostname r)"
  using assms by (auto simp: findTenantByCustomDomain_def toLowerCase_hostname dest: find_Some_iff_mem split: if_splits)

lemmas resolve_facts = findTenantBySubdomain_slug [OF cleanSubdomain_chars] findTenantById_mem findTenantByCustomDomain_host

lemma resolved_mem:
  assumes "rs_tenant (resolveTenant db r session allow base) = Some t"
  shows "t \<in> set (tenants db)"
  using assms hostSubdomain_clean [of r base]
  by (auto simp: resolveTenant_def Let_def dest: resolve_facts findTenantBySubdomain_slug
      split: option.splits if_splits)

text \<open>
  C30. Where a request that is not on a development host acts: on the organization its host names,
  on one the route lets anyone name, or on one its caller may name, the caller's own or any for the
  platform administrator. A request refused for naming another organization's address gets no
  organization at all, and its caller neither belongs to that organization nor is the platform
  administrator.
\<close>

theorem request_reaches:
  assumes "\<not> isDevHost r"
  shows "(case rs_tenant (resolveTenant db r session allow base) of
      None \<Rightarrow> True
    | Some t \<Rightarrow> host_tenant db r base t \<or> allow \<and> hostSubdomain r base = None
        \<or> (\<exists>s. session = Some s \<and> (se_role s = Super_admin \<or> se_tenant_id s = Some (tn_id t))))
   \<and> (rs_denied (resolveTenant db r session allow base) \<longrightarrow>
        rs_tenant (resolveTenant db r session allow base) = None \<and> \<not> allow
        \<and> (\<exists>t\<in>set (tenants db). \<forall>s. session = Some s \<longrightarrow> se_role s \<noteq> Super_admin \<and> se_tenant_id s \<noteq> Some (tn_id t)))"
proof (cases "hostSubdomain r base")
  case None
  let ?custom = "if \<not> truthy_text base \<or> hostname r \<noteq> text_of base \<and> \<not> endsWith (hostname r) (''.'' @ text_of base)
                 then findTenantByCustomDomain db (hostname r) else None"
  let ?q = "cleanSubdomain (case rq_tenant_param r of Some p \<Rightarrow> Some p | None \<Rightarrow> rq_x_tenant r)"
  show ?thesis
  proof (cases ?custom)
    case custom: None
    consider (named) "?q \<noteq> []" | (own) "?q = []" by blast
    then show ?thesis
    proof cases
      case named
      show ?thesis
      proof (cases "findTenantBySubdomain db ?q")
        case None
        with \<open>hostSubdomain r base = None\<close> custom assms named show ?thesis by (simp add: resolveTenant_def)
      next
        case (Some c)
        define may where "may = (allow \<or> (case session of None \<Rightarrow> False
            | Some s \<Rightarrow> se_role s = Super_admin \<or> se_tenant_id s = Some (tn_id c)))"
        have res: "resolveTenant db r session allow base
            = (if may then \<lparr>rs_tenant = Some c, rs_denied = False\<rparr> else \<lparr>rs_tenant = None, rs_denied = True\<rparr>)"
          using Some \<open>hostSubdomain r base = None\<close> custom assms named by (simp add: resolveTenant_def may_def)
        have "c \<in> set (tenants db)" using resolve_facts(1) [OF Some] by simp
        then show ?thesis
          using \<open>hostSubdomain r base = None\<close> by (auto simp: res may_def split: option.splits)
      qed
    next
      case own
      then show ?thesis
        using None custom assms
        by (cases session) (auto simp: resolveTenant_def Let_def truthy_text_def text_of_def
            dest: findTenantById_mem split: option.splits)
    qed
  next
    case (Some t)
    then have "findTenantByCustomDomain db (hostname r) = Some t" by (auto split: if_splits)
    from findTenantByCustomDomain_host [OF this] Some None assms show ?thesis
      by (simp add: resolveTenant_def host_tenant_def)
  qed
next
  case (Some slug)
  then show ?thesis
    using findTenantBySubdomain_slug [of slug db] hostSubdomain_clean [OF Some]
    by (simp add: resolveTenant_def host_tenant_def split: option.splits)
qed

text \<open>The staff row that lets a user of an organization do something.\<close>

definition staff_may :: "tenant_user \<Rightarrow> string \<Rightarrow> bool" where
  "staff_may u p =
     (tu_role u = ''org_admin''
      \<or> (case tu_permissions u of None \<Rightarrow> False | Some ps \<Rightarrow> p \<in> set ps \<or> ''*'' \<in> set ps))"

definition tenants_ok :: "d1 \<Rightarrow> bool" where
  "tenants_ok db = (distinct_keys tn_id (tenants db)
     \<and> distinct_keys (\<lambda>u. (tu_tenant_id u, tu_user_id u)) (tenant_users db))"

lemma staff_permissions:
  assumes "tenants_ok db" and "t \<in> set (tenants db)" and "tn_user_id t \<noteq> uid"
  shows "(p \<in> set (getTenantUserPermissions db (tn_id t) uid) \<or> ''*'' \<in> set (getTenantUserPermissions db (tn_id t) uid))
    \<longleftrightarrow> (\<exists>u\<in>set (tenant_users db). tu_tenant_id u = tn_id t \<and> tu_user_id u = uid \<and> staff_may u p)"
proof -
  let ?key = "\<lambda>u. (tu_tenant_id u, tu_user_id u)"
  have t: "findTenantById db (tn_id t) = Some t"
    using assms(1,2) tbl_lookup_eq [of tn_id "tenants db" t] by (simp add: tenants_ok_def tbl_lookup_def findTenantById_def)
  have row: "find (\<lambda>u. tu_tenant_id u = tn_id t \<and> tu_user_id u = uid) (tenant_users db) = tbl_lookup ?key (tn_id t, uid) (tenant_users db)"
    by (simp add: tbl_lookup_def)
  show ?thesis
  proof (cases "tbl_lookup ?key (tn_id t, uid) (tenant_users db)")
    case None
    then have "getTenantUserPermissions db (tn_id t) uid = []"
      using assms(3) t by (simp add: getTenantUserPermissions_def row)
    then show ?thesis using None by (auto simp: tbl_lookup_None image_iff)
  next
    case (Some u)
    have "v = u" if "v \<in> set (tenant_users db)" "tu_tenant_id v = tn_id t" "tu_user_id v = uid" for v
      using tbl_lookup_eq [of ?key "tenant_users db" v] assms(1) that Some by (simp add: tenants_ok_def)
    moreover have "u \<in> set (tenant_users db) \<and> tu_tenant_id u = tn_id t \<and> tu_user_id u = uid"
      using tbl_lookup_mem [OF Some] by simp
    ultimately have "(\<exists>u\<in>set (tenant_users db). tu_tenant_id u = tn_id t \<and> tu_user_id u = uid \<and> staff_may u p) \<longleftrightarrow> staff_may u p"
      by blast
    then show ?thesis
      using assms(3) t row Some by (auto simp: getTenantUserPermissions_def staff_may_def split: option.splits)
  qed
qed

text \<open>
  C1. Whatever organization a request resolves to, it may act there exactly when its session belongs
  to that organization, the organization is approved, and the user owns it or has a staff row with
  the permission; the platform administrator may act only in the demo organizations it owns.
\<close>

theorem only_own_organization:
  assumes "tenants_ok db" and "rs_tenant (resolveTenant db r session allow base) = Some t"
  shows "requireTenantPermission db session (Some t) p = None \<longleftrightarrow>
    (\<exists>s. session = Some s \<and>
      (if se_role s = Super_admin then tn_subdomain t \<in> set DEMO_SLUGS \<and> tn_user_id t = se_user_id s
       else se_tenant_id s = Some (tn_id t) \<and> tn_status t \<notin> {Pending, Rejected}
         \<and> (tn_user_id t = se_user_id s
            \<or> (\<exists>u\<in>set (tenant_users db). tu_tenant_id u = tn_id t \<and> tu_user_id u = se_user_id s \<and> staff_may u p))))"
proof (cases session)
  case (Some s)
  show ?thesis
  proof (cases "se_role s = Super_admin \<or> tn_user_id t = se_user_id s")
    case True
    with Some show ?thesis
      by (auto simp: requireTenantPermission_def requireTenantAdmin_def isDemoTenant_def isDemoSlug_def)
  next
    case False
    with staff_permissions [OF assms(1) resolved_mem [OF assms(2)], of "se_user_id s" p] Some show ?thesis
      by (auto simp: requireTenantPermission_def requireTenantAdmin_def Let_def)
  qed
qed (simp add: requireTenantPermission_def requireTenantAdmin_def)

subsection \<open>No other site acts with a signed-in browser\<close>

lemma isHostUnder_labels:
  "isHostUnder host base \<longleftrightarrow> truthy_text base
     \<and> (\<exists>pre. split_on CHR ''.'' (toLowerCase host) = pre @ split_on CHR ''.'' (toLowerCase (strip_leading_dot (text_of base))))"
  using under_iff_labels [of "toLowerCase host" "toLowerCase (strip_leading_dot (text_of base))" "CHR ''.''"]
  by (auto simp: isHostUnder_def Let_def)

text \<open>
  A change made with the session cookie from a page, and every console socket, is accepted exactly
  when the page's origin is the host the request goes to, a host whose last labels are those of the
  platform's domain (so never one that merely ends in the same letters), or, on a development host
  only, a local one. An opaque origin and one that does not parse are refused.
\<close>

theorem cross_site_refused:
  assumes "rq_origin r = Some origin" and "origin \<noteq> []" and "rq_http_method r = ''POST'' \<or> rq_http_method r = ''DELETE''"
  shows "rejectCrossSiteMutation parse_url r True base = rejectCrossSiteSocket parse_url r base
    \<and> (rejectCrossSiteSocket parse_url r base = None \<longleftrightarrow>
        origin \<noteq> ''null'' \<and> (\<exists>u. parse_url origin = Some u
          \<and> (toLowerCase (hostname_of u) = hostname r
             \<or> toLowerCase (hostname_of u) \<in> set DEV_HOSTS \<and> isDevHost r
             \<or> truthy_text base \<and> (\<exists>pre. split_on CHR ''.'' (toLowerCase (hostname_of u))
                  = pre @ split_on CHR ''.'' (toLowerCase (strip_leading_dot (text_of base)))))))"
  using assms
  by (auto simp: rejectCrossSiteMutation_def rejectCrossSiteSocket_def same_site_def isHostUnder_labels truthy_text_def
      text_of_def [of "Some origin"] Let_def split: option.splits)

subsection \<open>A removed workstation is refused\<close>

text \<open>Requests an isolate serves, each with the millisecond it arrives at.\<close>

definition serve :: "(string \<Rightarrow> string) \<Rightarrow> web_request \<times> int \<Rightarrow> d1 \<times> token_cache \<Rightarrow> d1 \<times> token_cache" where
  "serve sha = (\<lambda>(r, now) st. snd (requireDevice sha r now st))"

text \<open>What the cache keeps to, whatever is asked; and how long it may still trust one workstation.\<close>

definition cache_ok :: "d1 \<times> token_cache \<Rightarrow> bool" where
  "cache_ok st = (distinct_keys fst (snd st) \<and> length (snd st) \<le> DEVICE_TOKEN_CACHE_LIMIT)"

definition trusted_until :: "int \<Rightarrow> (device_token \<Rightarrow> bool) \<Rightarrow> token_cache \<Rightarrow> bool" where
  "trusted_until u who cache = (\<forall>e\<in>set cache. who (fst (snd e)) \<longrightarrow> snd (snd e) \<le> u)"

abbreviation device_of :: "string \<Rightarrow> string \<Rightarrow> device_token \<Rightarrow> bool" where
  "device_of t c d \<equiv> dt_tenant_id d = t \<and> dt_client_id d = c"

definition removed :: "int \<Rightarrow> string \<Rightarrow> string \<Rightarrow> d1 \<times> token_cache \<Rightarrow> bool" where
  "removed u t c st = ((\<forall>d\<in>set (device_tokens (fst st)). device_of t c d \<longrightarrow> dt_revoked d)
     \<and> trusted_until u (device_of t c) (snd st))"

lemma set_upsert: "set (tbl_upsert key r xs) \<subseteq> insert r (set xs)"
  by (auto simp: tbl_upsert_def)

lemma length_upsert: "length (tbl_upsert key r xs) \<le> Suc (length xs)"
  by (simp add: tbl_upsert_def)

lemma trusted_until_subset: "trusted_until u P xs \<Longrightarrow> set ys \<subseteq> set xs \<Longrightarrow> trusted_until u P ys"
  by (auto simp: trusted_until_def)

lemma trusted_until_upsert:
  "trusted_until u P xs \<Longrightarrow> P d \<longrightarrow> v \<le> u \<Longrightarrow> trusted_until u P (tbl_upsert fst (k, d, v) xs)"
  using set_upsert [of fst "(k, d, v)" xs] by (fastforce simp: trusted_until_def)

lemma findDeviceByToken_mem:
  "findDeviceByToken sha db token = Some d \<Longrightarrow> d \<in> set (device_tokens db) \<and> \<not> dt_revoked d"
  unfolding findDeviceByToken_def by (drule find_Some_iff_mem) simp

text \<open>The four ways through \<open>requireDevice\<close>.\<close>

lemma requireDevice_cases:
  obtains (none) "bearer_token r = []" "requireDevice sha r now (db, cache) = (Inl (''Device token required'', 401), db, cache)"
  | (trusted) d where "trusted_device cache (bearer_token r) now = Some d" "requireDevice sha r now (db, cache) = (Inr d, db, cache)"
  | (refused) "findDeviceByToken sha db (bearer_token r) = None"
      "requireDevice sha r now (db, cache) = (Inl (''Invalid or revoked device token'', 401), db, tbl_delete fst (bearer_token r) cache)"
  | (fresh) d db' cache' where "findDeviceByToken sha db (bearer_token r) = Some d"
      "db' = db \<or> db' = touchDeviceToken db (dt_id d) (now div 1000)"
      "cache' = tbl_upsert fst (bearer_token r, d, now + DEVICE_TOKEN_CACHE_MS)
         (make_room cache)"
      "requireDevice sha r now (db, cache) = (Inr d, db', cache')"
proof -
  let ?req = "requireDevice sha r now (db, cache)"
  consider "bearer_token r = []" | d where "bearer_token r \<noteq> []" "trusted_device cache (bearer_token r) now = Some d"
    | "bearer_token r \<noteq> []" "trusted_device cache (bearer_token r) now = None" by fastforce
  then show thesis
  proof cases
    case 3
    show thesis
    proof (cases "findDeviceByToken sha db (bearer_token r)")
      case None
      with 3 show thesis by (intro refused) (simp_all add: requireDevice_def)
    next
      case (Some d)
      with 3 show thesis
        by (intro fresh [of d "fst (snd ?req)" "snd (snd ?req)"]) (simp_all add: requireDevice_def)
    qed
  qed (use none trusted in \<open>simp_all add: requireDevice_def\<close>)
qed

lemma touch_keeps:
  "\<forall>d\<in>set (device_tokens db). device_of t c d \<longrightarrow> dt_revoked d
   \<Longrightarrow> \<forall>d\<in>set (device_tokens (touchDeviceToken db i n)). device_of t c d \<longrightarrow> dt_revoked d"
  by (auto simp: touchDeviceToken_def tbl_update_def)

lemma make_room_subset: "set (make_room cache) \<subseteq> set cache"
  by (cases cache) (auto simp: make_room_def)

lemma make_room_ok:
  assumes "cache_ok (db, cache)"
  shows "distinct_keys fst (make_room cache) \<and> Suc (length (make_room cache)) \<le> DEVICE_TOKEN_CACHE_LIMIT"
  using assms by (auto simp: cache_ok_def make_room_def DEVICE_TOKEN_CACHE_LIMIT_def map_tl distinct_tl)

lemma cache_after_fresh:
  "trusted_until u P cache \<Longrightarrow> P d \<longrightarrow> v \<le> u \<Longrightarrow> trusted_until u P (tbl_upsert fst (k, d, v) (make_room cache))"
  by (rule trusted_until_upsert [OF trusted_until_subset [OF _ make_room_subset]])

interpretation isolate: step_system "serve sha" cache_ok for sha
proof
  fix st :: "d1 \<times> token_cache" and e :: "web_request \<times> int"
  assume ok: "cache_ok st"
  obtain db cache r now where [simp]: "st = (db, cache)" "e = (r, now)" by (cases st; cases e) auto
  show "cache_ok (serve sha e st)"
  proof (cases rule: requireDevice_cases [of r sha now db cache])
    case (fresh d db' cache')
    have "distinct_keys fst cache'" "length cache' \<le> DEVICE_TOKEN_CACHE_LIMIT"
      unfolding fresh(3)
      using make_room_ok [of db cache] ok length_upsert [of fst "(bearer_token r, d, now + DEVICE_TOKEN_CACHE_MS)" "make_room cache"]
      by (simp_all add: distinct_keys_upsert)
    with fresh(4) show ?thesis by (simp add: serve_def cache_ok_def)
  next
    case refused
    then show ?thesis
      using ok distinct_keys_delete [of fst cache] le_trans [OF length_filter_le [of "\<lambda>e. fst e \<noteq> bearer_token r" cache]]
      by (simp add: serve_def cache_ok_def tbl_delete_def)
  qed (use ok in \<open>simp_all add: serve_def\<close>)
qed

interpretation removal: step_system "serve sha" "removed u t c" for sha u t c
proof
  fix st :: "d1 \<times> token_cache" and e :: "web_request \<times> int"
  assume ok: "removed u t c st"
  obtain db cache r now where [simp]: "st = (db, cache)" "e = (r, now)" by (cases st; cases e) auto
  show "removed u t c (serve sha e st)"
  proof (cases rule: requireDevice_cases [of r sha now db cache])
    case (fresh d db' cache')
    have "\<not> device_of t c d" using findDeviceByToken_mem [OF fresh(1)] ok by (auto simp: removed_def)
    then have "trusted_until u (device_of t c) cache'"
      unfolding fresh(3) using ok by (intro cache_after_fresh) (auto simp: removed_def)
    then show ?thesis using ok fresh(2,4) by (auto simp: removed_def serve_def dest: touch_keeps)
  next
    case refused
    then show ?thesis using ok trusted_until_subset [of u "device_of t c" cache "tbl_delete fst (bearer_token r) cache"]
      by (simp add: removed_def serve_def tbl_delete_def)
  qed (use ok in \<open>simp_all add: serve_def\<close>)
qed

lemma served_before:
  assumes "list_all (\<lambda>(r, at). at \<le> T) reqs" and "trusted_until (T + DEVICE_TOKEN_CACHE_MS) (\<lambda>d. True) (snd st)"
  shows "trusted_until (T + DEVICE_TOKEN_CACHE_MS) (\<lambda>d. True) (snd (run_steps (serve sha) reqs st))"
  using assms
proof (induction reqs arbitrary: st)
  case (Cons e reqs)
  obtain db cache r now where [simp]: "st = (db, cache)" "e = (r, now)" by (cases st; cases e) auto
  have "trusted_until (T + DEVICE_TOKEN_CACHE_MS) (\<lambda>d. True) (snd (serve sha e st))"
  proof (cases rule: requireDevice_cases [of r sha now db cache])
    case (fresh d db' cache')
    with Cons.prems show ?thesis by (auto simp: serve_def intro!: cache_after_fresh)
  next
    case refused
    with Cons.prems trusted_until_subset [of _ _ cache "tbl_delete fst (bearer_token r) cache"] show ?thesis
      by (simp add: serve_def tbl_delete_def)
  qed (use Cons.prems in \<open>simp_all add: serve_def\<close>)
  with Cons show ?case by simp
qed simp

lemma removed_refused:
  assumes "removed u t c st" and "u \<le> now" and "fst (requireDevice sha r now st) = Inr d"
  shows "\<not> device_of t c d"
proof -
  obtain db cache where [simp]: "st = (db, cache)" by (cases st)
  show ?thesis
  proof (cases rule: requireDevice_cases [of r sha now db cache])
    case (trusted d')
    then obtain until where "(bearer_token r, d', until) \<in> set cache" "now < until"
      by (auto simp: trusted_device_def split: option.splits if_splits dest: map_of_SomeD)
    with assms trusted show ?thesis by (fastforce simp: removed_def trusted_until_def)
  next
    case (fresh d' db' cache')
    with assms findDeviceByToken_mem [OF fresh(1)] show ?thesis by (auto simp: removed_def)
  qed (use assms in simp_all)
qed

lemma forget_ok:
  assumes "cache_ok (db, cache)"
  shows "cache_ok (db', forgetDeviceToken cache t c)"
proof -
  obtain P where f: "forgetDeviceToken cache t c = filter P cache" by (simp add: forgetDeviceToken_def)
  show ?thesis
    using assms le_trans [OF length_filter_le [of P cache]] distinct_map_filter [of fst cache P] by (simp add: cache_ok_def f)
qed

lemma revoked_tokens: "\<forall>d\<in>set (device_tokens (revokeDeviceTokensForClient db t c)). device_of t c d \<longrightarrow> dt_revoked d"
proof
  fix d
  assume "d \<in> set (device_tokens (revokeDeviceTokensForClient db t c))"
  then obtain e where "e \<in> set (device_tokens db)" and d: "d = (if device_of t c e then e\<lparr>dt_revoked := True\<rparr> else e)"
    by (auto simp: revokeDeviceTokensForClient_def tbl_update_def)
  then show "device_of t c d \<longrightarrow> dt_revoked d" by (auto split: if_splits)
qed

text \<open>
  C8. A removed workstation loses access. Whatever an isolate served up to the moment \<open>T\<close> its token
  was revoked and whatever it serves afterwards, its cache never holds more than 20,000 tokens, and
  the workstation's token is refused: at once in the isolate that also forgot it, and everywhere
  from a minute after \<open>T\<close>, since a cached token is never trusted longer than that.
\<close>

theorem removed_workstation_refused:
  assumes "list_all (\<lambda>(r, at). at \<le> T) before"
    and "run_steps (serve sha) before (db0, []) = (db, cache)"
    and "later = run_steps (serve sha) after
           (revokeDeviceTokensForClient db t c, if here then forgetDeviceToken cache t c else cache)"
    and "here \<or> T + 60000 \<le> now"
  shows "length (snd later) \<le> 20000
    \<and> (\<forall>r d. fst (requireDevice sha r now later) = Inr d \<longrightarrow> \<not> (dt_tenant_id d = t \<and> dt_client_id d = c))"
proof
  let ?cache = "if here then forgetDeviceToken cache t c else cache"
  let ?st = "(revokeDeviceTokensForClient db t c, ?cache)"
  let ?u = "if here then now else T + 60000"
  have "cache_ok (db, cache)"
    using isolate.run_invar [of "(db0, [])" sha before] assms(2) by (simp add: cache_ok_def)
  then have "cache_ok ?st" using forget_ok by (simp add: cache_ok_def)
  from isolate.run_invar [OF this, of sha after] show "length (snd later) \<le> 20000"
    by (simp add: assms(3) cache_ok_def DEVICE_TOKEN_CACHE_LIMIT_def)
  have "trusted_until (T + DEVICE_TOKEN_CACHE_MS) (\<lambda>d. True) cache"
    using served_before [OF assms(1), of "(db0, [])" sha] assms(2) by (simp add: trusted_until_def)
  then have "trusted_until ?u (device_of t c) ?cache"
    by (auto simp: trusted_until_def forgetDeviceToken_def DEVICE_TOKEN_CACHE_MS_def)
  then have "removed ?u t c ?st"
    unfolding removed_def fst_conv snd_conv using revoked_tokens by blast
  then have "removed ?u t c later" unfolding assms(3) by (rule removal.run_invar)
  moreover have "?u \<le> now" using assms(4) by auto
  ultimately show "\<forall>r d. fst (requireDevice sha r now later) = Inr d \<longrightarrow> \<not> device_of t c d"
    using removed_refused by blast
qed

text \<open>A workstation's request, and an organization with one owner, one member of staff and one workstation.\<close>

definition pc_request :: web_request where
  "pc_request = \<lparr>rq_host = Some ''lab.labkiosk.org'', rq_url_hostname = None, rq_http_method = ''POST'',
     rq_origin = Some ''https://evil.example'', rq_authorization = Some ''Bearer secret'', rq_x_tenant = None,
     rq_tenant_param = None\<rparr>"

definition office_db :: d1 where
  "office_db = empty_db\<lparr>tenants := [plain_tenant ''t'' ''owner'' ''lab''],
     tenant_users := [\<lparr>tu_tenant_id = ''t'', tu_user_id = ''u'', tu_role = ''staff'', tu_permissions = Some [''apps'']\<rparr>],
     device_tokens := [\<lparr>dt_id = ''d1'', dt_token_hash = ''secret'', dt_tenant_id = ''t'', dt_client_id = ''PC-01'',
       dt_created_at = 0, dt_last_used_at = 0, dt_revoked = False\<rparr>]\<rparr>"

definition staff_session :: session where
  "staff_session = \<lparr>se_token = ''s'', se_user_id = ''u'', se_tenant_id = Some ''t'', se_role = Org_admin, se_expires_at = 0\<rparr>"

theorem request_reaches_witness:
  "\<not> isDevHost pc_request
   \<and> rs_tenant (resolveTenant office_db pc_request None False (Some ''labkiosk.org'')) = Some (plain_tenant ''t'' ''owner'' ''lab'')
   \<and> host_tenant office_db pc_request (Some ''labkiosk.org'') (plain_tenant ''t'' ''owner'' ''lab'')"
proof -
  have dev: "\<not> isDevHost pc_request" by code_simp
  have res: "rs_tenant (resolveTenant office_db pc_request None False (Some ''labkiosk.org'')) = Some (plain_tenant ''t'' ''owner'' ''lab'')"
    by code_simp
  show ?thesis
    using request_reaches [OF dev, where db = office_db and session = None and allow = False and base = "Some ''labkiosk.org''"] dev res
    by simp
qed

theorem only_own_organization_witness:
  "requireTenantPermission office_db (Some staff_session) (Some (plain_tenant ''t'' ''owner'' ''lab'')) ''apps'' = None
   \<and> requireTenantPermission office_db (Some staff_session) (Some (plain_tenant ''t'' ''owner'' ''lab'')) ''settings'' \<noteq> None"
proof -
  have ok: "tenants_ok office_db" by code_simp
  have res: "rs_tenant (resolveTenant office_db pc_request (Some staff_session) False (Some ''labkiosk.org'')) = Some (plain_tenant ''t'' ''owner'' ''lab'')"
    by code_simp
  show ?thesis
    using only_own_organization [OF ok res, of "''apps''"] only_own_organization [OF ok res, of "''settings''"]
    by (simp add: staff_session_def plain_tenant_def office_db_def staff_may_def)
qed

theorem cross_site_refused_witness:
  "rejectCrossSiteMutation (\<lambda>s. Some \<lparr>protocol = ''https:'', username = [], password = [], hostname_of = ''evillabkiosk.org'',
     origin_of = s, href = s\<rparr>) pc_request True (Some ''labkiosk.org'') = Some cross_site"
proof -
  let ?p = "\<lambda>s. Some \<lparr>protocol = ''https:'', username = [], password = [], hostname_of = ''evillabkiosk.org'', origin_of = s, href = s\<rparr>"
  have h: "rq_origin pc_request = Some ''https://evil.example''" "''https://evil.example'' \<noteq> []"
    "rq_http_method pc_request = ''POST'' \<or> rq_http_method pc_request = ''DELETE''" by (simp_all add: pc_request_def)
  have "rejectCrossSiteSocket ?p pc_request (Some ''labkiosk.org'') = Some cross_site" by code_simp
  then show ?thesis using cross_site_refused [OF h, of ?p "Some ''labkiosk.org''"] by simp
qed

theorem removed_workstation_refused_witness:
  "fst (requireDevice id pc_request 5 (office_db, [])) = Inr (hd (device_tokens office_db))
   \<and> fst (requireDevice id pc_request 9 (run_steps (serve id) [(pc_request, 7)]
        (revokeDeviceTokensForClient office_db ''t'' ''PC-01'', forgetDeviceToken (snd (snd (requireDevice id pc_request 5 (office_db, [])))) ''t'' ''PC-01'')))
     \<noteq> Inr (hd (device_tokens office_db))"
proof -
  let ?cache = "snd (snd (requireDevice id pc_request 5 (office_db, [])))"
  have pc1: "dt_tenant_id (hd (device_tokens office_db)) = ''t''" "dt_client_id (hd (device_tokens office_db)) = ''PC-01''"
    by (simp_all add: office_db_def)
  have "list_all (\<lambda>(r, at). at \<le> (5::int)) [(pc_request, 5)]" by simp
  moreover have "run_steps (serve id) [(pc_request, 5)] (office_db, []) = (office_db, ?cache)"
    by (simp add: serve_def) code_simp
  ultimately have refused: "\<forall>r d. fst (requireDevice id r 9 (run_steps (serve id) [(pc_request, 7)]
      (revokeDeviceTokensForClient office_db ''t'' ''PC-01'', if True then forgetDeviceToken ?cache ''t'' ''PC-01'' else ?cache))) = Inr d
      \<longrightarrow> \<not> (dt_tenant_id d = ''t'' \<and> dt_client_id d = ''PC-01'')"
    by (intro removed_workstation_refused [THEN conjunct2, of 5 "[(pc_request, 5)]" id office_db office_db ?cache _ "[(pc_request, 7)]" _ _ True]) simp_all
  have "fst (requireDevice id pc_request 9 (run_steps (serve id) [(pc_request, 7)]
      (revokeDeviceTokensForClient office_db ''t'' ''PC-01'', forgetDeviceToken ?cache ''t'' ''PC-01''))) \<noteq> Inr (hd (device_tokens office_db))"
    using refused [rule_format, of pc_request "hd (device_tokens office_db)"] pc1 unfolding if_True by blast
  moreover have "fst (requireDevice id pc_request 5 (office_db, [])) = Inr (hd (device_tokens office_db))" by code_simp
  ultimately show ?thesis by simp
qed

end
