(* ===== verification/Printing.thy ===== *)
theory Printing
  imports Lan_Sharing Guard
begin

text \<open>
  Network printers of an organization: \<open>src/cloudflare-control/src/printing.ts\<close>. \<open>new URL\<close> is the
  parameter \<open>parse_url\<close>; \<open>fresh i\<close> is the random id drawn for the printer at position \<open>i\<close>.
\<close>

definition MAX_PRINTERS :: nat where
  "MAX_PRINTERS = 20"

definition MAX_PRINTER_NAME_LENGTH :: nat where
  "MAX_PRINTER_NAME_LENGTH = 64"

definition MAX_PRINTER_URI_LENGTH :: nat where
  "MAX_PRINTER_URI_LENGTH = 255"

definition PRINTER_ID_PATTERN :: "string \<Rightarrow> bool" where
  "PRINTER_ID_PATTERN s = (length s = 16 \<and> list_all is_lower_hex s)"

record printer =
  pr_id :: string
  pr_name :: string
  pr_uri :: string
  pr_groupName :: "string option"

record workstation_printing =
  wp_enabled :: bool
  wp_printers :: "(string \<times> string \<times> string) list"

record printer_row =
  prr_id :: string
  prr_tenant_id :: string
  prr_name :: string
  prr_uri :: string
  prr_group_name :: "string option"
  prr_position :: nat
  prr_created_at :: int

subsection \<open>Addresses\<close>

text \<open>
  \<open>URI_SHAPE\<close>: the scheme, host, port and path of a text that matches. Every part ends at a
  character its own class excludes, so taking each as long as possible is the only match.
\<close>

definition is_host_char :: "char \<Rightarrow> bool" where
  "is_host_char c = (is_letter c \<or> is_digit c \<or> c = CHR ''.'' \<or> c = CHR ''-'')"

fun path_chars :: "string \<Rightarrow> bool" where
  "path_chars [] = True"
| "path_chars (c # r) =
     (if c = CHR ''%'' then (case r of a # b # r' \<Rightarrow> is_hex a \<and> is_hex b \<and> path_chars r' | _ \<Rightarrow> False)
      else (is_host_char c \<or> c \<in> {CHR ''_'', CHR ''~'', CHR ''/''}) \<and> path_chars r)"

definition path_shape :: "string \<Rightarrow> bool" where
  "path_shape s = (s = [] \<or> (hd s = CHR ''/'' \<and> path_chars (tl s)))"

text \<open>What may follow the host: a port of one to five digits, and a path.\<close>

definition after_host :: "string \<Rightarrow> string option option" where
  "after_host rest =
     (if rest \<noteq> [] \<and> hd rest = CHR '':''
      then let ds = takeWhile is_digit (tl rest); p = dropWhile is_digit (tl rest)
           in if 1 \<le> length ds \<and> length ds \<le> 5 \<and> path_shape p then Some (Some ds) else None
      else if path_shape rest then Some None else None)"

definition host_part :: "string \<Rightarrow> (string \<times> string) option" where
  "host_part s =
     (if s \<noteq> [] \<and> hd s = CHR ''[''
      then let a = takeWhile (\<lambda>c. is_hex c \<or> c = CHR '':'') (tl s);
               r = dropWhile (\<lambda>c. is_hex c \<or> c = CHR '':'') (tl s)
           in if a \<noteq> [] \<and> r \<noteq> [] \<and> hd r = CHR '']'' then Some (''['' @ a @ '']'', tl r) else None
      else let a = takeWhile is_host_char s in if a \<noteq> [] then Some (a, dropWhile is_host_char s) else None)"

definition URI_SHAPE :: "string \<Rightarrow> (string \<times> string option) option" where
  "URI_SHAPE uri =
     (let scheme = map lower_char (before_colon uri) in
      if \<not> (list_all is_letter (before_colon uri) \<and> scheme \<in> {''ipp'', ''ipps''} \<and> startsWith (after_colon uri) ''//'' \<and> CHR '':'' \<in> set uri)
      then None
      else case host_part (drop 2 (after_colon uri)) of
             None \<Rightarrow> None
           | Some (host, rest) \<Rightarrow> (case after_host rest of None \<Rightarrow> None | Some port \<Rightarrow> Some (host, port)))"

definition IPV4_SHAPE :: "string \<Rightarrow> bool" where
  "IPV4_SHAPE s = (let ps = split_on CHR ''.'' s in length ps = 4 \<and> list_all (\<lambda>p. p \<noteq> [] \<and> list_all is_digit p) ps)"

definition CONTROL_CHARACTERS :: "char \<Rightarrow> bool" where
  "CONTROL_CHARACTERS c = (code c \<le> 31 \<or> (127 \<le> code c \<and> code c \<le> 159))"

definition printerPrivateIpv4 :: "string \<Rightarrow> bool option" where
  "printerPrivateIpv4 host =
     (case map octet_value (split_on CHR ''.'' host) of
        [Some a, Some b, Some c, Some d] \<Rightarrow>
          Some (a = 10 \<or> (a = 172 \<and> b \<ge> 16 \<and> b \<le> 31) \<or> (a = 192 \<and> b = 168) \<or> (a = 169 \<and> b = 254))
      | _ \<Rightarrow> None)"

definition isUniqueLocalIpv6 :: "url_parser \<Rightarrow> string \<Rightarrow> bool" where
  "isUniqueLocalIpv6 parse_url bracketed =
     (let address = toLowerCase (drop_end 1 (tl bracketed));
          groups = split_on CHR '':'' address; g = hd groups in
      if \<not> (2 \<le> length groups \<and> 2 \<le> length g \<and> length g \<le> 4 \<and> hd g = CHR ''f'' \<and> g ! 1 \<in> {CHR ''c'', CHR ''d''}
            \<and> list_all (\<lambda>c. is_lower_hex c \<or> c = CHR '':'') address) then False
      else case parse_url (''http://['' @ address @ '']/'') of
             None \<Rightarrow> False
           | Some u \<Rightarrow> startsWith (hostname_of u) ''[f'')"

definition name_problem :: "string \<Rightarrow> string option" where
  "name_problem host =
     (let nm = (if endsWith host ''.'' then drop_end 1 host else host) in
      if length nm > 253 \<or> \<not> list_all is_label (split_on CHR ''.'' nm) then Some ''That is not a host name''
      else if \<not> list_ex is_lower nm then Some ''That is not a host name''
      else if nm = ''localhost'' \<or> endsWith nm ''.localhost'' then Some ''A printer cannot be on the workstation itself''
      else None)"

definition host_problem :: "url_parser \<Rightarrow> string \<Rightarrow> string option" where
  "host_problem parse_url host =
     (if startsWith host ''[''
      then (if isUniqueLocalIpv6 parse_url host then None
            else Some ''An IPv6 printer address must be a unique local address (fc00::/7)'')
      else if IPV4_SHAPE host
      then (case printerPrivateIpv4 host of
              None \<Rightarrow> Some ''That is not an IPv4 address''
            | Some private \<Rightarrow>
                if private then None
                else Some ''A printer's IP address must be on a private network (10.x, 172.16-31.x, 192.168.x or 169.254.x)'')
      else name_problem host)"

definition printerUriProblem :: "url_parser \<Rightarrow> json \<Rightarrow> string option" where
  "printerUriProblem parse_url raw =
     (case raw of
        JStr text \<Rightarrow>
          let uri = trim text in
          if uri = [] then Some ''Every printer needs an address''
          else if length uri > MAX_PRINTER_URI_LENGTH
          then Some (''A printer address is at most '' @ show_nat MAX_PRINTER_URI_LENGTH @ '' characters'')
          else (case URI_SHAPE uri of
                  None \<Rightarrow> Some (''A printer address is ipp:// or ipps:// followed by the printer's host name or private address ''
                     @ ''and an optional port and path, such as ipp://printer.example.org/ipp/print'')
                | Some (host, port) \<Rightarrow>
                    if (case port of None \<Rightarrow> False | Some p \<Rightarrow> \<not> (1 \<le> read_nat p \<and> read_nat p \<le> 65535))
                    then Some ''A printer's port is from 1 to 65535''
                    else host_problem parse_url (toLowerCase host))
      | _ \<Rightarrow> Some ''Every printer needs an address'')"

definition normalizePrinterUri :: "string \<Rightarrow> string" where
  "normalizePrinterUri uri = (let t = trim uri in toLowerCase (before_colon t) @ dropWhile (\<lambda>c. c \<noteq> CHR '':'') t)"

definition printerNameProblem :: "json \<Rightarrow> string option" where
  "printerNameProblem raw =
     (case raw of
        JStr text \<Rightarrow>
          let nm = trim text in
          if nm = [] then Some ''Every printer needs a name''
          else if length nm > MAX_PRINTER_NAME_LENGTH
          then Some (''A printer's name is at most '' @ show_nat MAX_PRINTER_NAME_LENGTH @ '' characters'')
          else if list_ex CONTROL_CHARACTERS nm then Some ''A printer's name cannot contain control characters''
          else None
      | _ \<Rightarrow> Some ''Every printer needs a name'')"

subsection \<open>Settings\<close>

definition printer_text :: "json \<Rightarrow> string" where
  "printer_text j = (case j of JStr s \<Rightarrow> s | _ \<Rightarrow> [])"

definition printer_group :: "json \<Rightarrow> string list \<Rightarrow> refusal + string option" where
  "printer_group g groups =
     (case g of
        JUndefined \<Rightarrow> Inr None
      | JNull \<Rightarrow> Inr None
      | JStr s \<Rightarrow> if s = [] then Inr None
                 else if s \<in> set groups then Inr (Some s) else Inl (''workstation group not found'', 404)
      | _ \<Rightarrow> Inl (''groupName is a group's name or null'', 400))"

definition printer_id :: "json \<Rightarrow> string list \<Rightarrow> string list \<Rightarrow> string \<Rightarrow> string" where
  "printer_id i existing used new_id =
     (case i of
        JStr s \<Rightarrow> if PRINTER_ID_PATTERN s \<and> s \<in> set existing \<and> s \<notin> set used then s else new_id
      | _ \<Rightarrow> new_id)"

text \<open>One entry of the list: its printer, or what is wrong with it (without the position it is at).\<close>

definition parse_printer ::
  "url_parser \<Rightarrow> string list \<Rightarrow> string list \<Rightarrow> printer list \<Rightarrow> string \<Rightarrow> json \<Rightarrow> refusal + printer" where
  "parse_printer parse_url groups existing before new_id item =
     (if \<not> is_object item then Inl (''not an object'', 400)
      else case printerNameProblem (field item ''name'') of
        Some p \<Rightarrow> Inl (p, 400)
      | None \<Rightarrow>
          (case printerUriProblem parse_url (field item ''uri'') of
             Some p \<Rightarrow> Inl (p, 400)
           | None \<Rightarrow>
               let nm = trim (printer_text (field item ''name'')) in
               if toLowerCase nm \<in> set (map (\<lambda>p. toLowerCase (pr_name p)) before)
               then Inl (''another printer already has the name '' @ nm, 400)
               else (case printer_group (field item ''groupName'') groups of
                       Inl e \<Rightarrow> Inl e
                     | Inr g \<Rightarrow> Inr \<lparr>pr_id = printer_id (field item ''id'') existing (map pr_id before) new_id,
                         pr_name = nm, pr_uri = normalizePrinterUri (printer_text (field item ''uri'')), pr_groupName = g\<rparr>)))"

fun parse_printers ::
  "url_parser \<Rightarrow> string list \<Rightarrow> string list \<Rightarrow> (nat \<Rightarrow> string) \<Rightarrow> printer list \<Rightarrow> json list \<Rightarrow> refusal + printer list" where
  "parse_printers parse_url groups existing fresh before [] = Inr before"
| "parse_printers parse_url groups existing fresh before (item # items) =
     (case parse_printer parse_url groups existing before (fresh (length before)) item of
        Inl (message, status) \<Rightarrow> Inl (''Printer '' @ show_nat (length before + 1) @ '': '' @ message, status)
      | Inr p \<Rightarrow> parse_printers parse_url groups existing fresh (before @ [p]) items)"

definition parsePrintingSettings ::
  "url_parser \<Rightarrow> json \<Rightarrow> string list \<Rightarrow> string list \<Rightarrow> (nat \<Rightarrow> string) \<Rightarrow> refusal + (bool \<times> printer list)" where
  "parsePrintingSettings parse_url body groups existing fresh =
     (if \<not> is_object body then Inl (''The request body must be an object'', 400)
      else case field body ''enabled'' of
        JBool enabled \<Rightarrow>
          (case field body ''printers'' of
             JArr items \<Rightarrow>
               if length items > MAX_PRINTERS then Inl (''At most '' @ show_nat MAX_PRINTERS @ '' printers'', 400)
               else map_sum id (Pair enabled) (parse_printers parse_url groups existing fresh [] items)
           | _ \<Rightarrow> Inl (''printers is a list'', 400))
      | _ \<Rightarrow> Inl (''enabled is true or false'', 400))"

subsection \<open>Storage\<close>

definition printer_order :: "printer_row \<Rightarrow> printer_row \<Rightarrow> int" where
  "printer_order a b = or_else (int (prr_position a) - int (prr_position b)) (prr_created_at a - prr_created_at b)"

definition listPrinters :: "printer_row list \<Rightarrow> string \<Rightarrow> printer list" where
  "listPrinters rows tenantId =
     map (\<lambda>r. \<lparr>pr_id = prr_id r, pr_name = prr_name r, pr_uri = prr_uri r, pr_groupName = prr_group_name r\<rparr>)
       (sort_by printer_order (filter (\<lambda>r. prr_tenant_id r = tenantId) rows))"

definition printer_row_of :: "string \<Rightarrow> int \<Rightarrow> nat \<Rightarrow> printer \<Rightarrow> printer_row" where
  "printer_row_of tenantId now position p = \<lparr>prr_id = pr_id p, prr_tenant_id = tenantId, prr_name = pr_name p,
     prr_uri = pr_uri p, prr_group_name = pr_groupName p, prr_position = position, prr_created_at = now\<rparr>"

text \<open>The batch: all of it or, where two printers share an id (the primary key), none of it (\<open>None\<close>).\<close>

definition savePrintingSettings ::
  "d1 \<times> printer_row list \<Rightarrow> string \<Rightarrow> bool \<Rightarrow> printer list \<Rightarrow> int \<Rightarrow> (d1 \<times> printer_row list) option" where
  "savePrintingSettings st tenantId enabled printers now =
     (if \<not> distinct (map pr_id printers) then None
      else Some ((fst st)\<lparr>tenants := tbl_update (\<lambda>t. tn_id t = tenantId)
                   (\<lambda>t. t\<lparr>tn_printing_enabled := (if enabled then 1 else 0), tn_updated_at := now\<rparr>) (tenants (fst st))\<rparr>,
                 filter (\<lambda>r. prr_tenant_id r \<noteq> tenantId) (snd st)
                 @ map2 (printer_row_of tenantId now) [0..<length printers] printers))"

definition hasGroupPrinters :: "d1 \<times> printer_row list \<Rightarrow> string \<Rightarrow> bool" where
  "hasGroupPrinters st tenantId =
     list_ex (\<lambda>p. prr_tenant_id p = tenantId \<and> prr_group_name p \<noteq> None
       \<and> list_ex (\<lambda>t. tn_id t = prr_tenant_id p \<and> tn_printing_enabled t = 1) (tenants (fst st))) (snd st)"

definition printingFor :: "bool \<Rightarrow> printer list \<Rightarrow> string option \<Rightarrow> workstation_printing" where
  "printingFor enabled printers groupName =
     (if \<not> enabled then \<lparr>wp_enabled = False, wp_printers = []\<rparr>
      else \<lparr>wp_enabled = True,
            wp_printers = map (\<lambda>p. (pr_id p, pr_name p, pr_uri p))
              (filter (\<lambda>p. pr_groupName p = None \<or> pr_groupName p = groupName) printers)\<rparr>)"

subsection \<open>POST \<open>/api/settings/printing\<close> (index.ts)\<close>

text \<open>
  \<open>body\<close> is \<open>None\<close> where it is not JSON; the outer \<open>None\<close> is the error the database throws.
\<close>

definition postPrinting ::
  "url_parser \<Rightarrow> (nat \<Rightarrow> string) \<Rightarrow> session option \<Rightarrow> tenant option \<Rightarrow> json option \<Rightarrow> int \<Rightarrow> d1 \<times> printer_row list
    \<Rightarrow> ((refusal + effect list) \<times> d1 \<times> printer_row list) option" where
  "postPrinting parse_url fresh session currentTenant body now st =
     (case requireTenantPermission (fst st) session currentTenant ''settings'' of
        Some denied \<Rightarrow> Some (Inl denied, st)
      | None \<Rightarrow>
          (case currentTenant of
             None \<Rightarrow> None
           | Some tenant \<Rightarrow>
               (case body of
                  None \<Rightarrow> Some (Inl (''The request body must be JSON'', 400), st)
                | Some b \<Rightarrow>
                    (case parsePrintingSettings parse_url b (map wg_name (listWorkstationGroups (fst st) (tn_id tenant)))
                        (map pr_id (listPrinters (snd st) (tn_id tenant))) fresh of
                       Inl e \<Rightarrow> Some (Inl e, st)
                     | Inr (enabled, printers) \<Rightarrow>
                         map_option (Pair (Inr [Audit ''settings.printing''
                             ((if enabled then ''on'' else ''off'') @ '' printers='' @ take 400 (join '', '' (map pr_name printers))),
                             Config_changed]))
                           (savePrintingSettings st (tn_id tenant) enabled printers now)))))"

subsection \<open>What is saved is what workstations are given\<close>

lemma dropWhile_rev_fix: "xs \<noteq> [] \<Longrightarrow> \<not> P (last xs) \<Longrightarrow> rev (dropWhile P (rev xs)) = xs"
  by (cases xs rule: rev_cases) auto

lemma trim_fix: "s = [] \<or> (\<not> is_space (hd s) \<and> \<not> is_space (last s)) \<Longrightarrow> trim s = s"
proof (cases "s = []")
  case False
  assume "s = [] \<or> (\<not> is_space (hd s) \<and> \<not> is_space (last s))"
  moreover from this False have "dropWhile is_space s = s" by (cases s) auto
  ultimately show ?thesis using False dropWhile_rev_fix [of s is_space] by (simp add: trim_def)
qed (simp add: trim_def)

lemma last_rev_dropWhile: "rev (dropWhile P (rev xs)) \<noteq> [] \<Longrightarrow> \<not> P (last (rev (dropWhile P (rev xs))))"
  by (metis hd_dropWhile hd_rev rev_is_Nil_conv rev_rev_ident)

lemma hd_rev_dropWhile: "rev (dropWhile P (rev xs)) \<noteq> [] \<Longrightarrow> hd (rev (dropWhile P (rev xs))) = hd xs"
  by (metis dropWhile_eq_drop hd_append2 rev_drop rev_is_Nil_conv append_take_drop_id rev_append rev_rev_ident take_rev length_rev)

lemma trim_ends: "trim s \<noteq> [] \<Longrightarrow> \<not> is_space (hd (trim s)) \<and> \<not> is_space (last (trim s))"
  unfolding trim_def using hd_rev_dropWhile [of is_space] last_rev_dropWhile [of is_space] hd_dropWhile
  by (metis dropWhile.simps(1) rev.simps(1))

lemma trim_trim [simp]: "trim (trim s) = trim s"
  using trim_ends trim_fix by blast

lemma is_letter_lower: "is_letter c \<Longrightarrow> is_letter (lower_char c) \<and> \<not> is_space (lower_char c)"
  by (auto simp: is_letter_def is_lower_def is_upper_def lower_char_def is_space_def)

text \<open>Lowering the scheme leaves an address that passed the shape test as it was otherwise.\<close>

lemma URI_SHAPE_scheme: "URI_SHAPE u = Some x \<Longrightarrow> list_all is_letter (before_colon u) \<and> before_colon u \<noteq> [] \<and> CHR '':'' \<in> set u"
  by (auto simp: URI_SHAPE_def Let_def split: if_splits)

lemma before_colon_append: "CHR '':'' \<notin> set a \<Longrightarrow> before_colon (a @ CHR '':'' # r) = a"
  by (induction a) (auto simp: before_colon_def)

lemma after_colon_append: "CHR '':'' \<notin> set a \<Longrightarrow> after_colon (a @ CHR '':'' # r) = r"
  by (induction a) (auto simp: after_colon_def)

lemma colon_split: "CHR '':'' \<in> set u \<Longrightarrow> \<exists>r. u = before_colon u @ CHR '':'' # r \<and> dropWhile (\<lambda>c. c \<noteq> CHR '':'') u = CHR '':'' # r"
  by (induction u) (auto simp: before_colon_def)

lemma letters_no_colon: "list_all is_letter s \<Longrightarrow> CHR '':'' \<notin> set s"
  by (auto simp: list_all_iff is_letter_def is_lower_def is_upper_def)

lemma normalizePrinterUri_shape:
  assumes "URI_SHAPE (trim u) = Some x"
  shows "URI_SHAPE (normalizePrinterUri u) = Some x \<and> trim (normalizePrinterUri u) = normalizePrinterUri u
    \<and> length (normalizePrinterUri u) = length (trim u)"
proof -
  let ?b = "before_colon (trim u)"
  have b: "list_all is_letter ?b" "?b \<noteq> []" "CHR '':'' \<in> set (trim u)" using URI_SHAPE_scheme [OF assms] by auto
  obtain r where r: "trim u = ?b @ CHR '':'' # r" "dropWhile (\<lambda>c. c \<noteq> CHR '':'') (trim u) = CHR '':'' # r"
    using colon_split [OF b(3)] by blast
  have n: "normalizePrinterUri u = toLowerCase ?b @ CHR '':'' # r" by (simp add: normalizePrinterUri_def Let_def r(2))
  have lb: "list_all is_letter (toLowerCase ?b)" using b(1) by (auto simp: toLowerCase_def list_all_iff is_letter_lower)
  have nc: "CHR '':'' \<notin> set ?b" "CHR '':'' \<notin> set (toLowerCase ?b)" using letters_no_colon b(1) lb by blast+
  have parts: "before_colon (normalizePrinterUri u) = toLowerCase ?b" "after_colon (normalizePrinterUri u) = after_colon (trim u)"
    using nc r(1) by (simp_all add: n before_colon_append after_colon_append) (metis after_colon_append)
  have low: "map lower_char (toLowerCase ?b) = map lower_char ?b" using toLowerCase_idem [of ?b] by (simp add: toLowerCase_def)
  have "URI_SHAPE (normalizePrinterUri u) = URI_SHAPE (trim u)"
    unfolding URI_SHAPE_def Let_def parts low using b(1,3) lb by (simp add: n)
  moreover have "\<not> is_space (hd (normalizePrinterUri u))"
    using b(1,2) by (cases ?b) (auto simp: n toLowerCase_def is_letter_lower)
  moreover have "last (normalizePrinterUri u) = last (trim u)" using arg_cong [OF r(1), of last] by (simp add: n)
  moreover have "\<not> is_space (last (trim u))" using trim_ends [of u] b(3) by force
  moreover have "length (normalizePrinterUri u) = length (trim u)"
    using arg_cong [OF r(1), of length] by (simp add: n toLowerCase_def)
  ultimately show ?thesis using assms by (simp add: trim_fix)
qed

lemma normalizePrinterUri_ok:
  assumes "printerUriProblem parse_url (JStr u) = None"
  shows "printerUriProblem parse_url (JStr (normalizePrinterUri u)) = None"
proof -
  obtain host port where s: "URI_SHAPE (trim u) = Some (host, port)" and len: "trim u \<noteq> []" "length (trim u) \<le> MAX_PRINTER_URI_LENGTH"
    using assms by (auto simp: printerUriProblem_def Let_def split: if_splits option.splits)
  have n: "URI_SHAPE (normalizePrinterUri u) = Some (host, port)" "trim (normalizePrinterUri u) = normalizePrinterUri u"
    "length (normalizePrinterUri u) = length (trim u)" using normalizePrinterUri_shape [OF s] by auto
  then have "normalizePrinterUri u \<noteq> []" using len(1) by force
  then show ?thesis using assms s n len by (simp add: printerUriProblem_def)
qed

definition good_printer :: "url_parser \<Rightarrow> string list \<Rightarrow> printer \<Rightarrow> bool" where
  "good_printer parse_url groups p =
     (printerNameProblem (JStr (pr_name p)) = None \<and> printerUriProblem parse_url (JStr (pr_uri p)) = None
      \<and> (case pr_groupName p of None \<Rightarrow> True | Some g \<Rightarrow> g \<in> set groups))"

lemma printerNameProblem_trim: "printerNameProblem (JStr (trim s)) = printerNameProblem (JStr s)"
  by (simp add: printerNameProblem_def)

lemma parse_printer_good:
  assumes "parse_printer parse_url groups existing before new_id item = Inr p"
  shows "good_printer parse_url groups p \<and> toLowerCase (pr_name p) \<notin> (\<lambda>p. toLowerCase (pr_name p)) ` set before
    \<and> (pr_id p = new_id \<or> (pr_id p \<in> set existing \<and> pr_id p \<notin> pr_id ` set before))"
proof -
  have str: "printerNameProblem j = None \<Longrightarrow> \<exists>s. j = JStr s" for j by (cases j) (auto simp: printerNameProblem_def)
  have uri: "printerUriProblem parse_url j = None \<Longrightarrow> \<exists>s. j = JStr s" for j by (cases j) (auto simp: printerUriProblem_def)
  have ok: "printerNameProblem (field item ''name'') = None" "printerUriProblem parse_url (field item ''uri'') = None"
    using assms by (auto simp: parse_printer_def split: if_splits option.splits)
  obtain n u where nu: "field item ''name'' = JStr n" "field item ''uri'' = JStr u" using str [OF ok(1)] uri [OF ok(2)] by blast
  note n = nu(1) ok(1) [unfolded nu(1)] and u = nu(2) ok(2) [unfolded nu(2)]
  obtain g where new: "toLowerCase (trim n) \<notin> (\<lambda>p. toLowerCase (pr_name p)) ` set before"
      and g: "printer_group (field item ''groupName'') groups = Inr g"
      and p: "p = \<lparr>pr_id = printer_id (field item ''id'') existing (map pr_id before) new_id,
                 pr_name = trim n, pr_uri = normalizePrinterUri u, pr_groupName = g\<rparr>"
    using assms n u by (auto simp: parse_printer_def Let_def printer_text_def split: if_splits sum.splits)
  have "case g of None \<Rightarrow> True | Some h \<Rightarrow> h \<in> set groups"
    using g by (auto simp: printer_group_def split: json.splits if_splits)
  then have "good_printer parse_url groups p"
    using normalizePrinterUri_ok [OF u(2)] n(2) by (simp add: good_printer_def p printerNameProblem_trim)
  moreover have "pr_id p = new_id \<or> (pr_id p \<in> set existing \<and> pr_id p \<notin> pr_id ` set before)"
    by (auto simp: p printer_id_def split: json.splits)
  ultimately show ?thesis using new by (simp add: p)
qed

lemma parse_printers_good:
  assumes "parse_printers parse_url groups existing fresh before items = Inr ps"
    and "list_all (good_printer parse_url groups) before" and "distinct (map (\<lambda>p. toLowerCase (pr_name p)) before)"
    and "distinct (map pr_id before)"
    and "\<And>p. p \<in> set before \<Longrightarrow> pr_id p \<in> set existing \<or> pr_id p \<in> fresh ` {..<length before}"
    and "inj_on fresh {..<length before + length items}" and "set existing \<inter> fresh ` {..<length before + length items} = {}"
  shows "list_all (good_printer parse_url groups) ps \<and> distinct (map (\<lambda>p. toLowerCase (pr_name p)) ps)
    \<and> distinct (map pr_id ps) \<and> length ps = length before + length items"
  using assms
proof (induction items arbitrary: before)
  case Nil
  then show ?case by simp
next
  case (Cons item items)
  then obtain p where p: "parse_printer parse_url groups existing before (fresh (length before)) item = Inr p"
      and rest: "parse_printers parse_url groups existing fresh (before @ [p]) items = Inr ps"
    by (auto split: sum.splits)
  let ?n = "length before + length (item # items)"
  have g: "good_printer parse_url groups p" "toLowerCase (pr_name p) \<notin> (\<lambda>p. toLowerCase (pr_name p)) ` set before"
    "pr_id p = fresh (length before) \<or> (pr_id p \<in> set existing \<and> pr_id p \<notin> pr_id ` set before)"
    using parse_printer_good [OF p] by auto
  have "fresh (length before) \<notin> fresh ` {..<length before}"
    using Cons.prems(6) by (auto dest: inj_onD)
  moreover have "fresh (length before) \<notin> set existing" using Cons.prems(7) by auto
  ultimately have new: "pr_id p \<notin> pr_id ` set before" using g(3) Cons.prems(5) by fastforce
  have ids: "q \<in> set (before @ [p]) \<Longrightarrow> pr_id q \<in> set existing \<or> pr_id q \<in> fresh ` {..<length (before @ [p])}" for q
    using Cons.prems(5) [of q] g(3) by (auto simp: lessThan_Suc)
  have "length (before @ [p]) + length items = ?n" by simp
  then show ?case
    using Cons.IH [OF rest] Cons.prems(2-4,6,7) g(1,2) new ids by (simp add: image_image)
qed

lemma insort_by_first: "\<forall>y\<in>set ys. cmp x y \<le> 0 \<Longrightarrow> insort_by cmp x ys = x # ys"
  by (cases ys) auto

lemma sort_by_sorted: "sorted_wrt (\<lambda>a b. cmp a b \<le> 0) xs \<Longrightarrow> sort_by cmp xs = xs"
  by (induction xs) (auto simp: insort_by_first)

lemma sorted_printer_rows:
  "sorted_wrt (\<lambda>a b. printer_order a b \<le> 0) (map2 (printer_row_of t now) [k..<k + length ps] ps)"
proof (induction ps arbitrary: k)
  case (Cons p ps)
  have later: "q \<in> set (map2 (printer_row_of t now) [Suc k..<Suc k + length ps] ps) \<Longrightarrow> Suc k \<le> prr_position q" for q
    by (auto simp: printer_row_of_def dest!: set_zip_leftD)
  have "printer_order (printer_row_of t now k p) q \<le> 0" if "q \<in> set (map2 (printer_row_of t now) [Suc k..<Suc k + length ps] ps)" for q
    using later [OF that] by (simp add: printer_order_def or_else_def printer_row_of_def)
  moreover have "[k..<k + length (p # ps)] = k # [Suc k..<Suc k + length ps]" by (simp add: upt_conv_Cons del: upt_Suc)
  ultimately show ?case using Cons.IH [of "Suc k"] by (auto simp del: upt_Suc)
qed simp

lemma new_rows_tenant: "r \<in> set (map2 (printer_row_of t now) ns ps) \<Longrightarrow> prr_tenant_id r = t"
  by (auto simp: printer_row_of_def)

lemma filter_new_rows:
  "filter (\<lambda>r. prr_tenant_id r = t') (map2 (printer_row_of t now) ns ps) = (if t' = t then map2 (printer_row_of t now) ns ps else [])"
  by (auto simp del: set_map simp: filter_empty_conv dest!: new_rows_tenant intro!: filter_True)

lemma listPrinters_saved:
  "listPrinters (filter (\<lambda>r. prr_tenant_id r \<noteq> t) rows @ map2 (printer_row_of t now) [0..<length ps] ps) t = ps"
proof -
  let ?new = "map2 (printer_row_of t now) [0..<length ps] ps"
  have "filter (\<lambda>r. prr_tenant_id r = t) (filter (\<lambda>r. prr_tenant_id r \<noteq> t) rows @ ?new) = ?new"
    by (simp add: filter_new_rows)
  moreover have "sort_by printer_order ?new = ?new" using sort_by_sorted [OF sorted_printer_rows [of t now 0 ps]] by simp
  ultimately show ?thesis
    unfolding listPrinters_def by (simp only:) (auto simp: printer_row_of_def intro!: nth_equalityI)
qed

lemma listPrinters_others:
  "t' \<noteq> t \<Longrightarrow> listPrinters (filter (\<lambda>r. prr_tenant_id r \<noteq> t) rows @ map2 (printer_row_of t now) [0..<length ps] ps) t' = listPrinters rows t'"
proof -
  assume "t' \<noteq> t"
  then have "filter (\<lambda>r. prr_tenant_id r = t') (filter (\<lambda>r. prr_tenant_id r \<noteq> t) rows @ map2 (printer_row_of t now) [0..<length ps] ps)
      = filter (\<lambda>r. prr_tenant_id r = t') rows"
    by (auto simp: filter_new_rows intro!: filter_cong)
  then show ?thesis by (simp add: listPrinters_def)
qed


definition lab_printers :: json where
  "lab_printers = JObj [(''enabled'', JBool True),
     (''printers'', JArr [JObj [(''name'', JStr '' Front desk ''), (''uri'', JStr ''IPP://10.0.0.7/ipp/print'')],
                          JObj [(''name'', JStr ''Library''), (''uri'', JStr ''ipps://printer.example.org'')]])]"


end
