(* ===== verification/Portal_Url.thy ===== *)
theory Portal_Url
  imports Guard
begin

text \<open>
  Addresses: where a workstation's portal is (\<open>src/cloudflare-control/src/portal_url.ts\<close>), what a
  hosted page may link to (\<open>link_rules.ts\<close>), and an organization's own address (\<open>addresses.ts\<close>).
  \<open>new URL\<close> is the parameter \<open>parse_url\<close>; random suffixes are arguments.
\<close>

subsection \<open>portal_url.ts\<close>

text \<open>The request and its URL, as far as these functions read them.\<close>

record portal_request = web_request +
  pq_forwarded_proto :: "string option"
  pq_cf_visitor :: "string option"
  pq_url_protocol :: string
  pq_url_origin :: string

record portal_context =
  pc_origin :: string
  pc_urlOrigin :: string
  pc_isHttps :: bool
  pc_isDev :: bool
  pc_host :: string
  pc_hostSlug :: "string option"
  pc_baseDomain :: string

text \<open>\<open>s.replace(/:?$/, ":")\<close> and \<open>s.includes(t)\<close>.\<close>

definition end_colon :: "string \<Rightarrow> string" where
  "end_colon s = (if endsWith s '':'' then s else s @ '':'')"

definition includes_text :: "string \<Rightarrow> string \<Rightarrow> bool" where
  "includes_text s t = list_ex (\<lambda>i. startsWith (drop i s) t) [0..<Suc (length s)]"

definition or_text :: "string option \<Rightarrow> string \<Rightarrow> string" where
  "or_text a b = (if truthy_text a then text_of a else b)"

definition effectiveOrigin :: "portal_request \<Rightarrow> string" where
  "effectiveOrigin r =
     (if truthy_text (rq_host r) \<and> isDevHost (web_request.truncate r)
      then end_colon (or_text (pq_forwarded_proto r) (or_text (Some (pq_url_protocol r)) ''http:'')) @ ''//'' @ text_of (rq_host r)
      else pq_url_origin r)"

definition requestIsHttps :: "portal_request \<Rightarrow> bool" where
  "requestIsHttps r =
     (pq_url_protocol r = ''https:'' \<or> pq_forwarded_proto r = Some ''https''
      \<or> (case pq_cf_visitor r of None \<Rightarrow> False
         | Some v \<Rightarrow> includes_text v ([CHR 0x22] @ ''scheme'' @ [CHR 0x22] @ '':'' @ [CHR 0x22] @ ''https'' @ [CHR 0x22])))"

definition portalContextFrom :: "portal_request \<Rightarrow> string option \<Rightarrow> portal_context" where
  "portalContextFrom r DEFAULT_DOMAIN =
     \<lparr>pc_origin = effectiveOrigin r, pc_urlOrigin = pq_url_origin r, pc_isHttps = requestIsHttps r,
      pc_isDev = isDevHost (web_request.truncate r), pc_host = hostname (web_request.truncate r),
      pc_hostSlug = hostSubdomain (web_request.truncate r) DEFAULT_DOMAIN,
      pc_baseDomain = toLowerCase (strip_leading_dot (text_of DEFAULT_DOMAIN))\<rparr>"

text \<open>\<open>isPortalContext\<close> with its type predicate: the context a JSON value is, where it is one.\<close>

definition isPortalContext :: "json \<Rightarrow> portal_context option" where
  "isPortalContext v =
     (case (field v ''origin'', field v ''urlOrigin'', field v ''isHttps'', field v ''isDev'', field v ''host'', field v ''baseDomain'') of
        (JStr origin, JStr urlOrigin, JBool isHttps, JBool isDev, JStr host, JStr base) \<Rightarrow>
          let ctx = (\<lambda>slug. \<lparr>pc_origin = origin, pc_urlOrigin = urlOrigin, pc_isHttps = isHttps, pc_isDev = isDev,
                             pc_host = host, pc_hostSlug = slug, pc_baseDomain = base\<rparr>)
          in (case field v ''hostSlug'' of JNull \<Rightarrow> Some (ctx None) | JStr slug \<Rightarrow> Some (ctx (Some slug)) | _ \<Rightarrow> None)
      | _ \<Rightarrow> None)"

text \<open>\<open>encodeURIComponent\<close>: UTF-8, every byte but the unreserved characters escaped.\<close>

definition upper_hex :: "nat \<Rightarrow> char" where
  "upper_hex d = (if d < 10 then char_of (48 + d) else char_of (55 + d))"

definition percent :: "nat \<Rightarrow> string" where
  "percent b = [CHR ''%'', upper_hex (b div 16), upper_hex (b mod 16)]"

definition unreserved :: "char \<Rightarrow> bool" where
  "unreserved c = (is_letter c \<or> is_digit c \<or> c \<in> set ''-_.!~*()'' \<or> c = CHR 0x27)"

definition encode_char :: "char \<Rightarrow> string" where
  "encode_char c =
     (if unreserved c then [c]
      else if code c < 128 then percent (code c)
      else percent (192 + code c div 64) @ percent (128 + code c mod 64))"

definition encodeURIComponent :: "string \<Rightarrow> string" where
  "encodeURIComponent s = concat (map encode_char s)"

definition home_path :: "tenant \<Rightarrow> string" where
  "home_path t = (if truthy_text (tn_home_route t) \<and> startsWith (text_of (tn_home_route t)) ''/'' then text_of (tn_home_route t) else ''/'')"

definition named_url :: "tenant \<Rightarrow> portal_context \<Rightarrow> string" where
  "named_url t ctx = pc_origin ctx @ (if home_path t = ''/'' then [] else home_path t) @ ''?tenant='' @ encodeURIComponent (tn_subdomain t)"

definition portalUrlFromContext :: "url_parser \<Rightarrow> tenant \<Rightarrow> portal_context \<Rightarrow> string" where
  "portalUrlFromContext parse_url t ctx =
     (let homePath = home_path t; custom = tn_custom_domain t in
      if tn_mode t = Single_url then or_text (safeHttpUrl parse_url (Some (tn_default_url t))) (named_url t ctx)
      else if \<not> pc_isHttps ctx \<or> pc_isDev ctx then named_url t ctx
      else if pc_hostSlug ctx = Some (tn_subdomain t) \<or> (truthy_text custom \<and> pc_host ctx = toLowerCase (text_of custom))
      then pc_urlOrigin ctx @ homePath
      else if truthy_text custom then ''https://'' @ text_of custom @ homePath
      else if pc_baseDomain ctx \<noteq> [] \<and> (pc_host ctx = pc_baseDomain ctx \<or> endsWith (pc_host ctx) (''.'' @ pc_baseDomain ctx))
      then ''https://'' @ tn_subdomain t @ ''.'' @ pc_baseDomain ctx @ homePath
      else named_url t ctx)"

definition portalUrlFor :: "url_parser \<Rightarrow> tenant \<Rightarrow> portal_request \<Rightarrow> string option \<Rightarrow> string" where
  "portalUrlFor parse_url t r DEFAULT_DOMAIN = portalUrlFromContext parse_url t (portalContextFrom r DEFAULT_DOMAIN)"

subsection \<open>link_rules.ts\<close>

definition URL_SHORTENERS :: "string list" where
  "URL_SHORTENERS = [''bit.ly'', ''bit.do'', ''buff.ly'', ''cutt.ly'', ''goo.gl'', ''is.gd'', ''ow.ly'', ''rb.gy'', ''rebrand.ly'',
     ''s.id'', ''shorturl.at'', ''t.co'', ''t.ly'', ''tiny.cc'', ''tinyurl.com'', ''v.gd'']"

definition BLOCKLIST_DOMAIN_PATTERN :: "string \<Rightarrow> bool" where
  "BLOCKLIST_DOMAIN_PATTERN s =
     (let ls = split_on CHR ''.'' s; top = last ls in
      1 \<le> length s \<and> length s \<le> 253 \<and> 2 \<le> length ls \<and> list_all is_label (butlast ls)
      \<and> 2 \<le> length top \<and> length top \<le> 63 \<and> list_all is_lower top)"

record blocklist_entry =
  bl_domain :: string
  bl_reason :: "string option"
  bl_added_at :: int
  bl_added_by :: "string option"

definition listLinkBlocklist :: "blocklist_entry list \<Rightarrow> blocklist_entry list" where
  "listLinkBlocklist rows = sort_by (\<lambda>a b. if bl_domain a \<le> bl_domain b then (if bl_domain a = bl_domain b then 0 else - 1) else 1) rows"

text \<open>\<open>None\<close> is the thrown error for a text that is not a domain name.\<close>

definition addBlockedDomain :: "blocklist_entry list \<Rightarrow> string \<Rightarrow> string option \<Rightarrow> string \<Rightarrow> int \<Rightarrow> blocklist_entry list option" where
  "addBlockedDomain rows domain reason userId now =
     (if \<not> BLOCKLIST_DOMAIN_PATTERN domain then None
      else Some (tbl_upsert bl_domain \<lparr>bl_domain = domain, bl_reason = reason, bl_added_at = now, bl_added_by = Some userId\<rparr> rows))"

definition removeBlockedDomain :: "blocklist_entry list \<Rightarrow> string \<Rightarrow> bool \<times> blocklist_entry list" where
  "removeBlockedDomain rows domain = (tbl_lookup bl_domain domain rows \<noteq> None, tbl_delete bl_domain domain rows)"

definition within :: "string \<Rightarrow> string \<Rightarrow> bool" where
  "within host domain = (host = domain \<or> endsWith host (''.'' @ domain))"

text \<open>The host a link names, lower case, without a final dot; and what makes it an IP address.\<close>

definition link_host :: "url \<Rightarrow> string" where
  "link_host u = (let h = toLowerCase (hostname_of u) in if endsWith h ''.'' then drop_end 1 h else h)"

definition bare_address :: "string \<Rightarrow> bool" where
  "bare_address host =
     ((2 \<le> length host \<and> hd host = CHR ''['' \<and> last host = CHR '']'' \<and> list_all (\<lambda>c. code c \<noteq> 10 \<and> code c \<noteq> 13) host)
      \<or> (host \<noteq> [] \<and> list_all (\<lambda>c. is_digit c \<or> c = CHR ''.'') host)
      \<or> (3 \<le> length host \<and> hd host = CHR ''0'' \<and> host ! 1 \<in> {CHR ''x'', CHR ''X''}
         \<and> list_all (\<lambda>c. is_lower_hex c \<or> (65 \<le> code c \<and> code c \<le> 70)) (drop 2 host)))"

definition hostedLinkProblem :: "url_parser \<Rightarrow> string \<Rightarrow> string list \<Rightarrow> string option" where
  "hostedLinkProblem parse_url link blocked =
     (case parse_url link of
        None \<Rightarrow> Some ''The link is not a valid address''
      | Some parsed \<Rightarrow>
          if username parsed \<noteq> [] \<or> password parsed \<noteq> [] then Some ''A link may not carry a user name or password''
          else let host = link_host parsed in
               if bare_address host then Some ''Link to a site by its name, not by an IP address''
               else if list_ex (within host) URL_SHORTENERS
               then Some ''Link shorteners hide where a link goes; use the full address instead''
               else case find (within host) blocked of
                      Some hit \<Rightarrow> if hit = [] then None else Some (''Links to '' @ hit @ '' are not allowed on pages Lab Kiosk hosts'')
                    | None \<Rightarrow> None)"

subsection \<open>addresses.ts\<close>

definition NAME_PART_LENGTH :: nat where
  "NAME_PART_LENGTH = 20"

definition SUFFIX_LENGTH :: nat where
  "SUFFIX_LENGTH = 4"

definition SUFFIX_ALPHABET :: string where
  "SUFFIX_ALPHABET = ''abcdefghijkmnpqrstuvwxyz23456789''"

definition ATTEMPTS :: nat where
  "ATTEMPTS = 8"

definition FEATURE_TIP_INTERVAL_SECONDS :: int where
  "FEATURE_TIP_INTERVAL_SECONDS = 30 * 24 * 3600"

lemma dropWhile_shorter [termination_simp]: "length (dropWhile P xs) < Suc (length xs)"
  by (simp add: le_imp_less_Suc length_dropWhile_le)

text \<open>\<open>replace(/[^a-z0-9]+/g, "-")\<close>: a run of other characters becomes one hyphen.\<close>

fun hyphenate :: "string \<Rightarrow> string" where
  "hyphenate [] = []"
| "hyphenate (c # cs) =
     (if is_lower c \<or> is_digit c then c # hyphenate cs
      else CHR ''-'' # hyphenate (dropWhile (\<lambda>d. \<not> (is_lower d \<or> is_digit d)) cs))"

abbreviation is_hyphen :: "char \<Rightarrow> bool" where
  "is_hyphen c \<equiv> c = CHR ''-''"

definition drop_hyphens_end :: "string \<Rightarrow> string" where
  "drop_hyphens_end s = rev (dropWhile is_hyphen (rev s))"

text \<open>\<open>nfkd\<close> is \<open>normalize("NFKD")\<close>, of Unicode's tables.\<close>

definition nameSlug :: "(string \<Rightarrow> string) \<Rightarrow> string \<Rightarrow> string" where
  "nameSlug nfkd name =
     (let slug = drop_hyphens_end (take NAME_PART_LENGTH
            (drop_hyphens_end (dropWhile is_hyphen (hyphenate (toLowerCase (nfkd name))))))
      in if length slug \<ge> 2 then slug else ''org'')"

definition randomSuffix :: "byte list \<Rightarrow> string" where
  "randomSuffix bytes = map (\<lambda>b. SUFFIX_ALPHABET ! (unat b mod length SUFFIX_ALPHABET)) bytes"

text \<open>The loop over the attempts; \<open>draws\<close> are the random bytes of each. \<open>None\<close> is the thrown error.\<close>

fun try_addresses :: "d1 \<Rightarrow> string \<Rightarrow> byte list list \<Rightarrow> string option" where
  "try_addresses db base [] = None"
| "try_addresses db base (bytes # draws) =
     (let candidate = base @ ''-'' @ randomSuffix bytes in
      if \<not> isReservedSlug candidate \<and> findTenantBySubdomain db candidate = None then Some candidate
      else try_addresses db base draws)"

definition generateSubdomain :: "(string \<Rightarrow> string) \<Rightarrow> d1 \<Rightarrow> string \<Rightarrow> (nat \<Rightarrow> byte list) \<Rightarrow> string option" where
  "generateSubdomain nfkd db name draws = try_addresses db (nameSlug nfkd name) (map draws [0..<ATTEMPTS])"

definition consoleSubdomain :: "tenant \<Rightarrow> string" where
  "consoleSubdomain t = or_text (tn_chosen_subdomain t) (tn_subdomain t)"

definition showsHomepage :: "tenant \<Rightarrow> bool" where
  "showsHomepage t = (tn_address_generated t = 0 \<or> truthy_text (tn_chosen_subdomain t))"

datatype tip_feature = Tip_remote_control | Tip_address

definition featureTipFor :: "tenant \<Rightarrow> int \<Rightarrow> tip_feature list" where
  "featureTipFor t now =
     (if tn_status t \<noteq> Active then []
      else if (case tn_feature_tip_dismissed_at t of None \<Rightarrow> False | Some d \<Rightarrow> d \<noteq> 0 \<and> now - d < FEATURE_TIP_INTERVAL_SECONDS) then []
      else (if or_text (tn_remote_control_status t) ''none'' = ''none'' then [Tip_remote_control] else [])
         @ (if tn_address_generated t \<noteq> 0 \<and> \<not> truthy_text (tn_chosen_subdomain t) \<and> \<not> truthy_text (tn_requested_subdomain t)
            then [Tip_address] else []))"

end
