(* ===== verification/Power_Schedules.thy ===== *)
theory Power_Schedules
  imports Store
begin

text \<open>
  Power schedules and Wake-on-LAN reports: \<open>src/cloudflare-control/src/power.ts\<close> and the
  \<open>/api/power-schedules\<close> routes of \<open>index.ts\<close>. A set of days is a 32-bit mask, bit 0 Sunday, as
  JavaScript's bit operators compute it. \<open>lc\<close> is \<open>localeCompare\<close> with base sensitivity.
\<close>

definition DAY_NAMES :: "string list" where
  "DAY_NAMES = [''Sunday'', ''Monday'', ''Tuesday'', ''Wednesday'', ''Thursday'', ''Friday'', ''Saturday'']"

definition MAX_POWER_SCHEDULES :: nat where
  "MAX_POWER_SCHEDULES = 50"

definition MIN_ON_OFF_GAP_MINUTES :: nat where
  "MIN_ON_OFF_GAP_MINUTES = 15"

definition MAX_REPORT_DETAIL :: nat where
  "MAX_REPORT_DETAIL = 300"

type_synonym day_mask = "32 word"

record power_schedule =
  sch_id :: string
  sch_groupId :: "string option"
  sch_groupName :: "string option"
  sch_days :: "nat list"
  sch_off :: string
  sch_on :: "string option"
  sch_updatedAt :: int

record power_input =
  pin_groupId :: "string option"
  pin_days :: day_mask
  pin_offMinute :: nat
  pin_onMinute :: "nat option"

record power_rule =
  rule_groupName :: "string option"
  rule_orphaned :: bool
  rule_days :: day_mask
  rule_off :: nat
  rule_on :: "nat option"

subsection \<open>Clock times and days\<close>

text \<open>\<open>/^([01][0-9]|2[0-3]):([0-5][0-9])$/\<close>.\<close>

definition clock_shape :: "string \<Rightarrow> bool" where
  "clock_shape s = (length s = 5 \<and> list_all is_digit (take 2 s) \<and> s ! 2 = CHR '':'' \<and> list_all is_digit (drop 3 s)
     \<and> read_nat (take 2 s) < 24 \<and> read_nat (drop 3 s) < 60)"

definition parseClockTime :: "json \<Rightarrow> string \<Rightarrow> string + nat" where
  "parseClockTime v name =
     (case v of JStr s \<Rightarrow>
        if clock_shape s then Inr (read_nat (take 2 s) * 60 + read_nat (drop 3 s))
        else Inl (name @ '' is a time from 00:00 to 23:59'')
      | _ \<Rightarrow> Inl (name @ '' is a time from 00:00 to 23:59''))"

definition formatClockTime :: "nat \<Rightarrow> string" where
  "formatClockTime minutes =
     padStart 2 CHR ''0'' (show_nat (minutes div 60)) @ '':'' @ padStart 2 CHR ''0'' (show_nat (minutes mod 60))"

text \<open>\<open>1 << day\<close>, for a day below 32.\<close>

definition bit1 :: "nat \<Rightarrow> day_mask" where
  "bit1 day = push_bit day 1"

definition days_message :: string where
  "days_message = ''days lists one to seven days, 0 (Sunday) to 6 (Saturday)''"

text \<open>The loop over the listed days; \<open>Inl\<close> is the error thrown.\<close>

fun mask_loop :: "json list \<Rightarrow> day_mask \<Rightarrow> string + day_mask" where
  "mask_loop [] acc = Inr acc"
| "mask_loop (JInt day # rest) acc =
     (if day < 0 \<or> day > 6 then Inl days_message
      else if acc AND bit1 (nat day) \<noteq> 0 then Inl (DAY_NAMES ! nat day @ '' is listed twice'')
      else mask_loop rest (acc OR bit1 (nat day)))"
| "mask_loop (_ # rest) acc = Inl days_message"

definition daysToMask :: "json \<Rightarrow> string + day_mask" where
  "daysToMask v =
     (case v of JArr ds \<Rightarrow> if ds = [] \<or> length ds > 7 then Inl days_message else mask_loop ds 0
      | _ \<Rightarrow> Inl days_message)"

definition maskToDays :: "day_mask \<Rightarrow> nat list" where
  "maskToDays m = filter (\<lambda>day. m AND bit1 day \<noteq> 0) [0, 1, 2, 3, 4, 5, 6]"

definition dayList :: "day_mask \<Rightarrow> string" where
  "dayList m = join '', '' (map (\<lambda>day. DAY_NAMES ! day) (maskToDays m))"

subsection \<open>Schedules from the console\<close>

definition given :: "json \<Rightarrow> bool" where
  "given v = (v \<noteq> JUndefined \<and> v \<noteq> JNull \<and> v \<noteq> JStr [])"

definition gap_ok :: "nat \<Rightarrow> nat \<Rightarrow> bool" where
  "gap_ok onMinute offMinute =
     (let gap = nat \<bar>int onMinute - int offMinute\<bar> in \<not> min gap (1440 - gap) < MIN_ON_OFF_GAP_MINUTES)"

definition parse_on :: "json \<Rightarrow> nat \<Rightarrow> string + nat option" where
  "parse_on v offMinute =
     (if \<not> given v then Inr None
      else case parseClockTime v ''The switch-on time'' of
        Inl e \<Rightarrow> Inl e
      | Inr onMinute \<Rightarrow>
          if gap_ok onMinute offMinute then Inr (Some onMinute)
          else Inl ''Switch-on and switch-off are at least 15 minutes apart: a workstation warns for 5 minutes before it shuts down'')"

definition parse_group :: "json \<Rightarrow> string + string option" where
  "parse_group v =
     (if \<not> given v then Inr None
      else case v of JStr s \<Rightarrow> if length s > 64 then Inl ''groupId names a workstation group'' else Inr (Some s)
        | _ \<Rightarrow> Inl ''groupId names a workstation group'')"

definition parsePowerScheduleInput :: "json \<Rightarrow> string + power_input" where
  "parsePowerScheduleInput body =
     (if \<not> is_object body \<or> is_array body then Inl ''The schedule must be a JSON object''
      else case daysToMask (field body ''days'') of
        Inl e \<Rightarrow> Inl e
      | Inr days \<Rightarrow>
          (case parseClockTime (field body ''off'') ''The switch-off time'' of
             Inl e \<Rightarrow> Inl e
           | Inr offMinute \<Rightarrow>
               (case parse_on (field body ''on'') offMinute of
                  Inl e \<Rightarrow> Inl e
                | Inr onMinute \<Rightarrow>
                    (case parse_group (field body ''groupId'') of
                       Inl e \<Rightarrow> Inl e
                     | Inr groupId \<Rightarrow> Inr \<lparr>pin_groupId = groupId, pin_days = days, pin_offMinute = offMinute,
                                           pin_onMinute = onMinute\<rparr>))))"

definition days_mask :: "nat list \<Rightarrow> day_mask" where
  "days_mask ds = foldl (\<lambda>acc day. acc OR bit1 day) 0 ds"

fun powerScheduleConflict :: "power_schedule list \<Rightarrow> power_input \<Rightarrow> string option \<Rightarrow> string option" where
  "powerScheduleConflict [] candidate selfId = None"
| "powerScheduleConflict (other # rest) candidate selfId =
     (if Some (sch_id other) = selfId \<or> sch_groupId other \<noteq> pin_groupId candidate
      then powerScheduleConflict rest candidate selfId
      else
        let shared = pin_days candidate AND days_mask (sch_days other)
        in if shared \<noteq> 0
           then let who = (case pin_groupId candidate of
                             Some g \<Rightarrow> if g = [] then ''every workstation''
                                      else trim (''the group '' @ (case sch_groupName other of None \<Rightarrow> [] | Some n \<Rightarrow> n))
                           | None \<Rightarrow> ''every workstation'')
                in Some (''Another schedule for '' @ who @ '' already covers '' @ dayList shared
                     @ ''. One schedule per day for the same workstations: change that one, or pick other days.'')
           else powerScheduleConflict rest candidate selfId)"

subsection \<open>Stored schedules\<close>

text \<open>The left join of \<open>SCHEDULE_SELECT\<close>: the name of the row's group, where it exists.\<close>

definition row_group_name :: "d1 \<Rightarrow> power_row \<Rightarrow> string option" where
  "row_group_name db r =
     (case ps_group_id r of None \<Rightarrow> None
      | Some g \<Rightarrow> map_option wg_name (find (\<lambda>w. wg_id w = g \<and> wg_tenant_id w = ps_tenant_id r) (workstation_groups db)))"

definition scheduleOf :: "d1 \<Rightarrow> power_row \<Rightarrow> power_schedule" where
  "scheduleOf db r =
     \<lparr>sch_id = ps_id r, sch_groupId = ps_group_id r,
      sch_groupName = (if truthy_text (ps_group_id r) then row_group_name db r else None),
      sch_days = maskToDays (ps_days r), sch_off = formatClockTime (ps_off_minute r),
      sch_on = map_option formatClockTime (ps_on_minute r), sch_updatedAt = ps_updated_at r * 1000\<rparr>"

definition tenant_rows :: "d1 \<Rightarrow> string \<Rightarrow> power_row list" where
  "tenant_rows db tenantId = filter (\<lambda>r. ps_tenant_id r = tenantId) (power_schedules db)"

definition cmp_text :: "string \<Rightarrow> string \<Rightarrow> int" where
  "cmp_text a b = (if a = b then 0 else if a < b then - 1 else 1)"

text \<open>SQLite's \<open>NOCASE\<close> folds the ASCII letters; \<open>NULL\<close> sorts first.\<close>

definition nocase :: "string \<Rightarrow> string" where
  "nocase s = map (\<lambda>c. if is_upper c then char_of (code c + 32) else c) s"

definition cmp_name :: "string option \<Rightarrow> string option \<Rightarrow> int" where
  "cmp_name a b =
     (case (a, b) of (None, None) \<Rightarrow> 0 | (None, Some _) \<Rightarrow> - 1 | (Some _, None) \<Rightarrow> 1
      | (Some x, Some y) \<Rightarrow> cmp_text (nocase x) (nocase y))"

definition sql_order :: "d1 \<Rightarrow> power_row \<Rightarrow> power_row \<Rightarrow> int" where
  "sql_order db a b =
     or_else (of_bool (ps_group_id a \<noteq> None) - of_bool (ps_group_id b \<noteq> None))
       (or_else (cmp_name (row_group_name db a) (row_group_name db b))
         (or_else (int (ps_off_minute a) - int (ps_off_minute b)) (cmp_text (ps_id a) (ps_id b))))"

text \<open>\<open>Math.min\<close> over the days counted from Monday; 7 stands for \<open>Infinity\<close>, of a row with no day.\<close>

definition firstDay :: "power_schedule \<Rightarrow> nat" where
  "firstDay s = foldr (\<lambda>day m. min ((day + 6) mod 7) m) (sch_days s) 7"

definition console_order :: "(string \<Rightarrow> string \<Rightarrow> int) \<Rightarrow> power_schedule \<Rightarrow> power_schedule \<Rightarrow> int" where
  "console_order lc a b =
     or_else (of_bool (sch_groupId a \<noteq> None) - of_bool (sch_groupId b \<noteq> None))
       (or_else (lc (case sch_groupName a of None \<Rightarrow> [] | Some n \<Rightarrow> n) (case sch_groupName b of None \<Rightarrow> [] | Some n \<Rightarrow> n))
         (int (firstDay a) - int (firstDay b)))"

definition listPowerSchedules :: "(string \<Rightarrow> string \<Rightarrow> int) \<Rightarrow> d1 \<Rightarrow> string \<Rightarrow> power_schedule list" where
  "listPowerSchedules lc db tenantId =
     sort_by (console_order lc) (map (scheduleOf db) (sort_by (sql_order db) (tenant_rows db tenantId)))"

text \<open>\<open>new_id\<close> is the generated id of a new schedule; an empty \<open>i\<close> counts as none, as in the source.\<close>

definition savePowerSchedule :: "d1 \<Rightarrow> string \<Rightarrow> power_input \<Rightarrow> int \<Rightarrow> string option \<Rightarrow> string \<Rightarrow> string option \<times> d1" where
  "savePowerSchedule db tenantId input now i new_id =
     (case i of
        Some j \<Rightarrow>
          if j = [] then (Some new_id, db\<lparr>power_schedules := power_schedules db @
                 [\<lparr>ps_id = new_id, ps_tenant_id = tenantId, ps_group_id = pin_groupId input, ps_days = pin_days input,
                   ps_off_minute = pin_offMinute input, ps_on_minute = pin_onMinute input, ps_created_at = now, ps_updated_at = now\<rparr>]\<rparr>)
          else let p = (\<lambda>r. ps_id r = j \<and> ps_tenant_id r = tenantId)
               in (if tbl_changes p (power_schedules db) \<noteq> 0 then Some j else None,
                   db\<lparr>power_schedules := tbl_update p
                     (\<lambda>r. r\<lparr>ps_group_id := pin_groupId input, ps_days := pin_days input, ps_off_minute := pin_offMinute input,
                            ps_on_minute := pin_onMinute input, ps_updated_at := now\<rparr>) (power_schedules db)\<rparr>)
      | None \<Rightarrow> (Some new_id, db\<lparr>power_schedules := power_schedules db @
                 [\<lparr>ps_id = new_id, ps_tenant_id = tenantId, ps_group_id = pin_groupId input, ps_days = pin_days input,
                   ps_off_minute = pin_offMinute input, ps_on_minute = pin_onMinute input, ps_created_at = now, ps_updated_at = now\<rparr>]\<rparr>))"

definition deletePowerSchedule :: "d1 \<Rightarrow> string \<Rightarrow> string \<Rightarrow> bool \<times> d1" where
  "deletePowerSchedule db tenantId i =
     (let p = (\<lambda>r. ps_id r = i \<and> ps_tenant_id r = tenantId)
      in (tbl_changes p (power_schedules db) > 0,
          db\<lparr>power_schedules := filter (\<lambda>r. \<not> p r) (power_schedules db)\<rparr>))"

definition hasGroupPowerSchedules :: "d1 \<Rightarrow> string \<Rightarrow> bool" where
  "hasGroupPowerSchedules db tenantId = list_ex (\<lambda>r. ps_group_id r \<noteq> None) (tenant_rows db tenantId)"

definition groupPowerScheduleCount :: "d1 \<Rightarrow> string \<Rightarrow> string \<Rightarrow> nat" where
  "groupPowerScheduleCount db tenantId groupId =
     length (filter (\<lambda>r. ps_group_id r = Some groupId) (tenant_rows db tenantId))"

definition deleteGroupPowerSchedules :: "d1 \<Rightarrow> string \<Rightarrow> string \<Rightarrow> d1" where
  "deleteGroupPowerSchedules db tenantId groupId =
     db\<lparr>power_schedules := filter (\<lambda>r. \<not> (ps_tenant_id r = tenantId \<and> ps_group_id r = Some groupId)) (power_schedules db)\<rparr>"

definition rule_of :: "d1 \<Rightarrow> power_row \<Rightarrow> power_rule" where
  "rule_of db r =
     \<lparr>rule_groupName = (if truthy_text (ps_group_id r) then row_group_name db r else None),
      rule_orphaned = (truthy_text (ps_group_id r) \<and> \<not> truthy_text (row_group_name db r)),
      rule_days = ps_days r, rule_off = ps_off_minute r, rule_on = ps_on_minute r\<rparr>"

definition loadPowerRules :: "d1 \<Rightarrow> string \<Rightarrow> power_rule list \<times> (string \<rightharpoonup> string)" where
  "loadPowerRules db tenantId =
     (let rules = map (rule_of db) (tenant_rows db tenantId)
      in (rules,
          if list_ex (\<lambda>r. truthy_text (rule_groupName r)) rules
          then map_of (rev (concat (map (\<lambda>c. case cd_group_name c of None \<Rightarrow> [] | Some g \<Rightarrow> [(cd_client_id c, g)])
                 (filter (\<lambda>c. cd_tenant_id c = tenantId) (client_devices db)))))
          else Map.empty))"

type_synonym power_day = "nat \<times> nat option"

definition effectivePower :: "power_rule list \<Rightarrow> string option \<Rightarrow> power_day option list option" where
  "effectivePower rules groupName =
     (let day_rule = (\<lambda>day.
            let own = (if truthy_text groupName
                       then find (\<lambda>r. \<not> rule_orphaned r \<and> rule_groupName r = groupName \<and> rule_days r AND bit1 day \<noteq> 0) rules
                       else None)
            in case own of Some r \<Rightarrow> Some r
               | None \<Rightarrow> find (\<lambda>r. \<not> rule_orphaned r \<and> rule_groupName r = None \<and> rule_days r AND bit1 day \<noteq> 0) rules);
          week = map (\<lambda>day. map_option (\<lambda>r. (rule_off r, rule_on r)) (day_rule day)) [0, 1, 2, 3, 4, 5, 6]
      in if list_ex (\<lambda>d. d \<noteq> None) week then Some week else None)"

subsection \<open>Requests (index.ts, /api/power-schedules)\<close>

definition schedule_audit :: "string option \<Rightarrow> workstation_group option \<Rightarrow> string \<Rightarrow> power_input \<Rightarrow> effect" where
  "schedule_audit i grp savedId input =
     Audit (if i \<noteq> None then ''power.schedule_update'' else ''power.schedule_create'')
       (''id='' @ savedId @ '' group='' @ (case grp of None \<Rightarrow> ''all'' | Some g \<Rightarrow> wg_name g)
        @ '' days='' @ concat (map show_nat (maskToDays (pin_days input)))
        @ '' off='' @ formatClockTime (pin_offMinute input)
        @ '' on='' @ (case pin_onMinute input of None \<Rightarrow> ''none'' | Some m \<Rightarrow> formatClockTime m))"

text \<open>
  POST: create or replace a schedule. The answer is the saved schedule's id with what the handler
  did besides; the permission check comes before (\<open>Guard\<close>).
\<close>

definition postPowerSchedule ::
  "(string \<Rightarrow> string \<Rightarrow> int) \<Rightarrow> d1 \<Rightarrow> string \<Rightarrow> json \<Rightarrow> int \<Rightarrow> string \<Rightarrow> (refusal + string \<times> effect list) \<times> d1" where
  "postPowerSchedule lc db tenantId body now new_id =
     (let body = (if body = JNull then JObj [] else body) in
      case parsePowerScheduleInput body of
        Inl e \<Rightarrow> (Inl (e, 400), db)
      | Inr input \<Rightarrow>
          let i = (case field body ''id'' of JStr s \<Rightarrow> if s = [] then None else Some s | _ \<Rightarrow> None);
              existing = listPowerSchedules lc db tenantId;
              groups = listWorkstationGroups db tenantId;
              grp = (if truthy_text (pin_groupId input) then find (\<lambda>g. Some (wg_id g) = pin_groupId input) groups else None)
          in if truthy_text (pin_groupId input) \<and> grp = None then (Inl (''Workstation group not found'', 404), db)
             else if i \<noteq> None \<and> \<not> list_ex (\<lambda>s. Some (sch_id s) = i) existing then (Inl (''Power schedule not found'', 404), db)
             else if i = None \<and> length existing \<ge> MAX_POWER_SCHEDULES
             then (Inl (''An organization keeps at most 50 power schedules'', 409), db)
             else case powerScheduleConflict existing input i of
               Some e \<Rightarrow> (Inl (e, 409), db)
             | None \<Rightarrow>
                 (case savePowerSchedule db tenantId input now i new_id of
                    (None, db') \<Rightarrow> (Inl (''Power schedule not found'', 404), db')
                  | (Some savedId, db') \<Rightarrow>
                      (Inr (savedId,
                        [schedule_audit i grp savedId input,
                         Config_changed]), db')))"

definition deletePowerRequest :: "d1 \<Rightarrow> string \<Rightarrow> string \<Rightarrow> (refusal + effect list) \<times> d1" where
  "deletePowerRequest db tenantId rest =
     (let i = trim rest in
      if i = [] then (Inl (''Power schedule not found'', 404), db)
      else case deletePowerSchedule db tenantId i of
        (False, db') \<Rightarrow> (Inl (''Power schedule not found'', 404), db')
      | (True, db') \<Rightarrow> (Inr [Audit ''power.schedule_delete'' (''id='' @ i), Config_changed], db'))"

subsection \<open>Days as bits\<close>

lemma and_bit1 [simp]: "(m :: day_mask) AND bit1 d \<noteq> 0 \<longleftrightarrow> bit m d"
  unfolding bit1_def by (simp only: bit_iff_and_push_bit_not_eq_0)

lemma bit_bit1: "bit (bit1 d) n \<longleftrightarrow> n = d \<and> n < 32"
  by (auto simp: bit1_def bit_exp_iff)

lemma week_upt: "[0, 1, 2, 3, 4, 5, 6] = [0..<7]"
  by (simp add: upt_rec)

lemma maskToDays_bits: "maskToDays m = filter (bit m) [0..<7]"
  unfolding maskToDays_def week_upt by simp

lemma set_maskToDays: "d \<in> set (maskToDays m) \<longleftrightarrow> d < 7 \<and> bit m d"
  by (auto simp: maskToDays_bits)

lemma bit_foldl_or: "bit (foldl (\<lambda>acc day. acc OR bit1 day) (a :: day_mask) ds) n \<longleftrightarrow> bit a n \<or> (n \<in> set ds \<and> n < 32)"
  by (induction ds arbitrary: a) (auto simp: bit_or_iff bit_bit1)

lemma bit_days_mask: "bit (days_mask ds) n \<longleftrightarrow> n \<in> set ds \<and> n < 32"
  by (simp add: days_mask_def bit_foldl_or)

lemma bit_mask_of_days: "bit (days_mask (maskToDays m)) n \<longleftrightarrow> n < 7 \<and> bit m n"
  by (auto simp: bit_days_mask set_maskToDays)

text \<open>A loop that ends accepted a list of distinct days and added their bits.\<close>

lemma mask_loop_ok:
  "mask_loop js acc = Inr m \<Longrightarrow>
    \<exists>ns. js = map (\<lambda>n. JInt (int n)) ns \<and> distinct ns \<and> (\<forall>n\<in>set ns. n < 7 \<and> \<not> bit acc n)
      \<and> (\<forall>n. bit m n \<longleftrightarrow> bit acc n \<or> n \<in> set ns)"
proof (induction js acc rule: mask_loop.induct)
  case (2 day rest acc)
  then have range: "0 \<le> day" "day \<le> 6" and new: "\<not> bit acc (nat day)"
    and loop: "mask_loop rest (acc OR bit1 (nat day)) = Inr m" by (auto split: if_splits)
  from "2.IH" range new loop obtain ns where ns: "rest = map (\<lambda>n. JInt (int n)) ns" "distinct ns"
    "\<forall>n\<in>set ns. n < 7 \<and> \<not> bit (acc OR bit1 (nat day)) n" "\<forall>n. bit m n \<longleftrightarrow> bit (acc OR bit1 (nat day)) n \<or> n \<in> set ns"
    by auto
  have "nat day \<notin> set ns" using ns(3) range by (auto simp: bit_or_iff bit_bit1)
  then show ?case
    using ns range new by (intro exI [of _ "nat day # ns"]) (auto simp: bit_or_iff bit_bit1)
qed simp_all

lemma mask_loop_accepts:
  "distinct ns \<Longrightarrow> \<forall>n\<in>set ns. n < 7 \<and> \<not> bit acc n \<Longrightarrow> \<exists>m. mask_loop (map (\<lambda>n. JInt (int n)) ns) acc = Inr m"
proof (induction ns arbitrary: acc)
  case (Cons n ns)
  have "\<forall>k\<in>set ns. k < 7 \<and> \<not> bit (acc OR bit1 n) k" using Cons.prems by (auto simp: bit_or_iff bit_bit1)
  from Cons.IH [OF _ this] Cons.prems show ?case by simp
qed simp

text \<open>
  The days of a schedule: a list is accepted exactly when it names one to seven different days
  of the week, and the mask it becomes lists those same days, in the order of the week, when read back.
\<close>

theorem days_roundtrip:
  "(\<exists>m. daysToMask v = Inr m \<and> maskToDays m = ds) \<longleftrightarrow>
    (\<exists>ns. v = JArr (map (\<lambda>n. JInt (int n)) ns) \<and> ns \<noteq> [] \<and> distinct ns \<and> set ns \<subseteq> {0..6} \<and> ds = sort ns)"
proof -
  have sorted: "maskToDays m = sort ns" if "distinct ns" "\<forall>n\<in>set ns. n < 7" "\<forall>n. bit m n \<longleftrightarrow> n \<in> set ns" for m ns
  proof -
    have "sorted (maskToDays m)" "distinct (maskToDays m)" by (simp_all add: maskToDays_bits sorted_wrt_filter)
    moreover have "set (maskToDays m) = set ns" using that by (auto simp: set_maskToDays)
    ultimately show ?thesis using that(1) by (metis sorted_distinct_set_unique distinct_sort set_sort sorted_sort)
  qed
  have short: "length ns \<le> 7" if "distinct ns" "set ns \<subseteq> {0..6}" for ns :: "nat list"
    using card_mono [OF _ that(2)] distinct_card [OF that(1)] by simp
  show ?thesis
  proof
    assume "\<exists>m. daysToMask v = Inr m \<and> maskToDays m = ds"
    then obtain m js where v: "v = JArr js" "js \<noteq> []" "mask_loop js 0 = Inr m" "maskToDays m = ds"
      by (auto simp: daysToMask_def split: json.splits if_splits)
    from mask_loop_ok [OF v(3)] obtain ns where ns: "js = map (\<lambda>n. JInt (int n)) ns" "distinct ns"
      "\<forall>n\<in>set ns. n < 7" "\<forall>n. bit m n \<longleftrightarrow> n \<in> set ns" by auto
    have "ds = sort ns" using sorted [OF ns(2-4)] v(4) by simp
    moreover have "set ns \<subseteq> {0..6}" using ns(3) by fastforce
    ultimately show "\<exists>ns. v = JArr (map (\<lambda>n. JInt (int n)) ns) \<and> ns \<noteq> [] \<and> distinct ns \<and> set ns \<subseteq> {0..6} \<and> ds = sort ns"
      using ns(1,2) v(1,2) by (intro exI [of _ ns]) simp
  next
    assume "\<exists>ns. v = JArr (map (\<lambda>n. JInt (int n)) ns) \<and> ns \<noteq> [] \<and> distinct ns \<and> set ns \<subseteq> {0..6} \<and> ds = sort ns"
    then obtain ns where ns: "v = JArr (map (\<lambda>n. JInt (int n)) ns)" "ns \<noteq> []" "distinct ns" "set ns \<subseteq> {0..6}" "ds = sort ns" by blast
    then obtain m where m: "mask_loop (map (\<lambda>n. JInt (int n)) ns) 0 = Inr m"
      using mask_loop_accepts [of ns 0] by fastforce
    then obtain ns' where ns': "map (\<lambda>n. JInt (int n)) ns = map (\<lambda>n. JInt (int n)) ns'" "\<forall>n. bit m n \<longleftrightarrow> n \<in> set ns'"
      using mask_loop_ok [OF m] by auto
    have "ns' = ns" using ns'(1) by (metis (mono_tags, lifting) inj_map_eq_map injI json.inject(2) of_nat_eq_iff)
    then have "maskToDays m = ds" using sorted [of ns m] ns ns'(2) by fastforce
    then show "\<exists>m. daysToMask v = Inr m \<and> maskToDays m = ds"
      using ns m short [of ns] by (auto simp: daysToMask_def)
  qed
qed

subsection \<open>Clock times\<close>

lemma two_digits_read: "list_all is_digit s \<Longrightarrow> length s = 2 \<Longrightarrow> padStart 2 CHR ''0'' (show_nat (read_nat s)) = s"
proof -
  assume d: "list_all is_digit s" and l: "length s = 2"
  then obtain a b where s: "s = [a, b]" by (auto simp: length_Suc_conv numeral_2_eq_2)
  have v: "digit_value a < 10" "digit_value b < 10" using d s by (auto intro: digit_value_less)
  then have "read_nat s = 10 * digit_value a + digit_value b" "10 * digit_value a + digit_value b < 100"
    by (simp_all add: s read_nat_def)
  then show ?thesis using v d s by (simp add: padStart_two digit_char_value)
qed

lemma read_two_digits: "n < 100 \<Longrightarrow> read_nat (padStart 2 CHR ''0'' (show_nat n)) = n"
proof -
  assume n: "n < 100"
  then have "n div 10 < 10" "n mod 10 < 10" by auto
  with n show ?thesis by (simp add: padStart_two read_nat_def)
qed

text \<open>
  Clock times: a text is accepted exactly when it is how a minute of the day is written, and its
  value is that minute; so storing and showing a schedule never changes its times.
\<close>

theorem clock_roundtrip:
  "parseClockTime (JStr s) name = Inr n \<longleftrightarrow> n < 1440 \<and> s = formatClockTime n"
proof
  assume "parseClockTime (JStr s) name = Inr n"
  then have sh: "clock_shape s" and n: "n = read_nat (take 2 s) * 60 + read_nat (drop 3 s)"
    by (simp_all add: parseClockTime_def split: if_splits)
  then have b: "read_nat (take 2 s) < 24" "read_nat (drop 3 s) < 60" and len: "length s = 5" and colon: "s ! 2 = CHR '':''"
    by (simp_all add: clock_shape_def)
  have "n div 60 = read_nat (take 2 s)" "n mod 60 = read_nat (drop 3 s)" using n b(2) by simp_all
  moreover have "s = take 2 s @ [s ! 2] @ drop 3 s"
    using len id_take_nth_drop [of 2 s] by (simp add: numeral_3_eq_3)
  ultimately have "s = formatClockTime n"
    using two_digits_read [of "take 2 s"] two_digits_read [of "drop 3 s"] sh len colon
    by (simp add: formatClockTime_def clock_shape_def)
  then show "n < 1440 \<and> s = formatClockTime n" using n b by simp
next
  assume a: "n < 1440 \<and> s = formatClockTime n"
  let ?h = "padStart 2 CHR ''0'' (show_nat (n div 60))" and ?m = "padStart 2 CHR ''0'' (show_nat (n mod 60))"
  have b: "n div 60 < 24" "n div 60 < 100" "n mod 60 < 60" "n mod 60 < 100" using a by auto
  have len: "length ?h = 2" "length ?m = 2" using padStart_two b by simp_all
  have "n div 60 div 10 < 10" "n mod 60 div 10 < 10" using b by auto
  then have dig: "list_all is_digit ?h" "list_all is_digit ?m" using padStart_two b by simp_all
  have parts: "take 2 s = ?h" "drop 3 s = ?m" "length s = 5" "s ! 2 = CHR '':''"
    using a len by (simp_all add: formatClockTime_def nth_append)
  have "read_nat ?h = n div 60" "read_nat ?m = n mod 60" using read_two_digits b by simp_all
  then show "parseClockTime (JStr s) name = Inr n"
    using b dig parts by (simp add: parseClockTime_def clock_shape_def)
qed

subsection \<open>Accepted schedules\<close>

definition week_mask :: "day_mask \<Rightarrow> bool" where
  "week_mask m = (m \<noteq> 0 \<and> (\<forall>n<32. bit m n \<longrightarrow> n < 7))"

lemma week_mask_bit: "week_mask m \<Longrightarrow> bit m n \<Longrightarrow> n < 7"
  using bit_imp_le_length [of m n] by (auto simp: week_mask_def)

lemma week_maskI: "m \<noteq> 0 \<Longrightarrow> take_bit 7 m = m \<Longrightarrow> week_mask m"
  unfolding week_mask_def by (metis bit_take_bit_iff)

lemma daysToMask_week: "daysToMask v = Inr m \<Longrightarrow> week_mask m"
proof -
  assume "daysToMask v = Inr m"
  then obtain js where js: "js \<noteq> []" "mask_loop js 0 = Inr m"
    by (auto simp: daysToMask_def split: json.splits if_splits)
  from mask_loop_ok [OF js(2)] obtain ns where ns: "js = map (\<lambda>n. JInt (int n)) ns"
    "\<forall>n\<in>set ns. n < 7" "\<forall>n. bit m n \<longleftrightarrow> n \<in> set ns" by auto
  from js(1) ns have "bit m (hd ns)" by simp
  then have "m \<noteq> 0" by auto
  with ns show ?thesis by (auto simp: week_mask_def)
qed

lemma parseClockTime_less: "parseClockTime v name = Inr n \<Longrightarrow> n < 1440"
  by (cases v) (auto simp: parseClockTime_def clock_shape_def split: if_splits)

text \<open>
  Every schedule the console's form lets through has at least one day and only days of the
  week, both times within the day, at least 15 minutes between switch-off and switch-on whichever
  way round the clock, and a group name that is not empty.
\<close>

theorem power_input_valid:
  assumes "parsePowerScheduleInput body = Inr i"
  shows "week_mask (pin_days i) \<and> pin_offMinute i < 1440
    \<and> (\<forall>m. pin_onMinute i = Some m \<longrightarrow> m < 1440
         \<and> 15 \<le> (m + 1440 - pin_offMinute i) mod 1440 \<and> 15 \<le> (pin_offMinute i + 1440 - m) mod 1440)
    \<and> (\<forall>g. pin_groupId i = Some g \<longrightarrow> g \<noteq> [] \<and> length g \<le> 64)"
proof -
  obtain days off on grp where p: "daysToMask (field body ''days'') = Inr days"
    "parseClockTime (field body ''off'') ''The switch-off time'' = Inr off" "parse_on (field body ''on'') off = Inr on"
    "parse_group (field body ''groupId'') = Inr grp"
    and i: "i = \<lparr>pin_groupId = grp, pin_days = days, pin_offMinute = off, pin_onMinute = on\<rparr>"
    using assms by (auto simp: parsePowerScheduleInput_def split: if_splits sum.splits)
  have off: "off < 1440" using p(2) by (rule parseClockTime_less)
  have on: "m < 1440 \<and> 15 \<le> (m + 1440 - off) mod 1440 \<and> 15 \<le> (off + 1440 - m) mod 1440" if "on = Some m" for m
  proof -
    have m: "m < 1440" "gap_ok m off"
      using p(3) that parseClockTime_less by (auto simp: parse_on_def split: if_splits sum.splits)
    have wrap: "(a + 1440 - b) mod 1440 = (if b \<le> a then a - b else a + 1440 - b)" if "a < 1440" "b < 1440" for a b :: nat
    proof (cases "b \<le> a")
      case True
      then have "a + 1440 - b = (a - b) + 1440" by simp
      with True that show ?thesis by (simp only: mod_add_self2) simp
    next
      case False
      with that show ?thesis by simp
    qed
    from m show ?thesis
      unfolding wrap [OF m(1) off] wrap [OF off m(1)] gap_ok_def MIN_ON_OFF_GAP_MINUTES_def Let_def
      using off by (auto simp: not_less)
  qed
  have "g \<noteq> [] \<and> length g \<le> 64" if "grp = Some g" for g
    using p(4) that by (auto simp: parse_group_def given_def split: if_splits json.splits)
  with on off daysToMask_week [OF p(1)] show ?thesis by (simp add: i)
qed

theorem power_input_valid_witness:
  "\<exists>i. parsePowerScheduleInput (JObj [(''days'', JArr [JInt 5, JInt 1]), (''off'', JStr ''23:50''), (''on'', JStr ''06:30'')]) = Inr i
     \<and> week_mask (pin_days i) \<and> pin_offMinute i < 1440"
proof -
  let ?b = "JObj [(''days'', JArr [JInt 5, JInt 1]), (''off'', JStr ''23:50''), (''on'', JStr ''06:30'')]"
  have "case parsePowerScheduleInput ?b of Inr _ \<Rightarrow> True | Inl _ \<Rightarrow> False" by code_simp
  then obtain i where i: "parsePowerScheduleInput ?b = Inr i" by (auto split: sum.splits)
  with power_input_valid [OF i] show ?thesis by blast
qed

subsection \<open>No two schedules for the same workstations share a day\<close>

definition apart :: "power_row \<Rightarrow> power_row \<Rightarrow> bool" where
  "apart r q = (ps_tenant_id r \<noteq> ps_tenant_id q \<or> ps_group_id r \<noteq> ps_group_id q \<or> ps_days r AND ps_days q = 0)"

definition rows_ok :: "power_row list \<Rightarrow> bool" where
  "rows_ok rows = (distinct (map ps_id rows) \<and> (\<forall>r\<in>set rows. week_mask (ps_days r))
     \<and> (\<forall>r\<in>set rows. \<forall>q\<in>set rows. ps_id r \<noteq> ps_id q \<longrightarrow> apart r q))"

definition power_ok :: "d1 \<Rightarrow> bool" where
  "power_ok db = rows_ok (power_schedules db)"

lemma and_eq_0_iff: "(a :: day_mask) AND b = 0 \<longleftrightarrow> (\<forall>n. \<not> (bit a n \<and> bit b n))"
  using bit_imp_le_length [of a] by (fastforce simp: bit_eq_iff bit_and_iff)

lemma apart_sym: "apart r q \<Longrightarrow> apart q r"
  by (auto simp: apart_def and.commute)

lemma conflict_None_iff:
  "powerScheduleConflict existing c self = None \<longleftrightarrow>
    (\<forall>s\<in>set existing. Some (sch_id s) = self \<or> sch_groupId s \<noteq> pin_groupId c \<or> pin_days c AND days_mask (sch_days s) = 0)"
  by (induction existing) (auto simp: Let_def)

lemma set_listPowerSchedules: "set (listPowerSchedules lc db t) = scheduleOf db ` set (tenant_rows db t)"
  by (simp add: listPowerSchedules_def)

lemma no_conflict_apart:
  assumes "powerScheduleConflict (listPowerSchedules lc db t) c self = None" and "power_ok db"
    and "r \<in> set (power_schedules db)" and "Some (ps_id r) \<noteq> self" and "week_mask (pin_days c)"
    and "ps_tenant_id q = t" and "ps_group_id q = pin_groupId c" and "ps_days q = pin_days c"
  shows "apart q r"
proof (cases "ps_tenant_id r = t \<and> ps_group_id r = pin_groupId c")
  case True
  then have "scheduleOf db r \<in> set (listPowerSchedules lc db t)"
    using assms(3) by (simp add: set_listPowerSchedules tenant_rows_def)
  then have "pin_days c AND days_mask (maskToDays (ps_days r)) = 0"
    using assms(1,4) True unfolding conflict_None_iff by (auto simp: scheduleOf_def)
  then have "pin_days c AND ps_days r = 0"
    using week_mask_bit [OF assms(5)] by (auto simp: and_eq_0_iff bit_mask_of_days)
  then show ?thesis by (simp add: apart_def assms(8))
next
  case False
  then show ?thesis using assms(6,7) by (auto simp: apart_def)
qed

lemma rows_ok_filter: "rows_ok rows \<Longrightarrow> rows_ok (filter p rows)"
  by (auto simp: rows_ok_def distinct_map_filter)

lemma rows_ok_insert:
  assumes "rows_ok rows" and "ps_id q \<notin> ps_id ` set rows" and "week_mask (ps_days q)"
    and "\<And>r. r \<in> set rows \<Longrightarrow> apart q r"
  shows "rows_ok (rows @ [q])"
  using assms by (auto simp: rows_ok_def intro: apart_sym)

lemma rows_ok_replace:
  assumes ok: "rows_ok rows" and f: "\<And>r. ps_id (f r) = ps_id r" and p: "\<And>r. p r \<Longrightarrow> ps_id r = j"
    and w: "\<And>r. p r \<Longrightarrow> week_mask (ps_days (f r))"
    and a: "\<And>r q. p r \<Longrightarrow> q \<in> set rows \<Longrightarrow> ps_id q \<noteq> j \<Longrightarrow> apart (f r) q"
  shows "rows_ok (tbl_update p f rows)"
proof -
  define g where "g r = (if p r then f r else r)" for r
  have upd: "tbl_update p f rows = map g rows" by (simp add: tbl_update_def g_def)
  have ids: "ps_id (g r) = ps_id r" for r by (simp add: g_def f)
  have week: "week_mask (ps_days (g r))" if "r \<in> set rows" for r using that ok w by (simp add: g_def rows_ok_def)
  have "apart (g r) (g q)" if "r \<in> set rows" "q \<in> set rows" "ps_id r \<noteq> ps_id q" for r q
    using that ok a [of r q] a [of q r] p [of r] p [of q] by (auto simp: g_def rows_ok_def intro: apart_sym)
  with ok week show ?thesis by (simp add: rows_ok_def upd ids comp_def)
qed

lemma savePowerSchedule_ok:
  assumes "power_ok db" and "powerScheduleConflict (listPowerSchedules lc db t) input i = None"
    and "week_mask (pin_days input)" and "i \<noteq> Some []" and "new_id \<notin> ps_id ` set (power_schedules db)"
  shows "power_ok (snd (savePowerSchedule db t input now i new_id))"
proof (cases i)
  case None
  let ?q = "\<lparr>ps_id = new_id, ps_tenant_id = t, ps_group_id = pin_groupId input, ps_days = pin_days input,
     ps_off_minute = pin_offMinute input, ps_on_minute = pin_onMinute input, ps_created_at = now, ps_updated_at = now\<rparr>"
  have "rows_ok (power_schedules db @ [?q])"
    using assms None by (intro rows_ok_insert no_conflict_apart [where c = input and t = t]) (auto simp: power_ok_def)
  with None show ?thesis by (simp add: savePowerSchedule_def power_ok_def)
next
  case (Some j)
  let ?f = "\<lambda>r. r\<lparr>ps_group_id := pin_groupId input, ps_days := pin_days input, ps_off_minute := pin_offMinute input,
     ps_on_minute := pin_onMinute input, ps_updated_at := now\<rparr>"
  have "rows_ok (tbl_update (\<lambda>r. ps_id r = j \<and> ps_tenant_id r = t) ?f (power_schedules db))"
    using assms Some
    by (intro rows_ok_replace [where j = j] no_conflict_apart [where c = input and t = t]) (auto simp: power_ok_def)
  with Some assms(4) show ?thesis by (simp add: savePowerSchedule_def power_ok_def Let_def)
qed

lemma postPowerSchedule_ok:
  assumes "power_ok db" and "new_id \<notin> ps_id ` set (power_schedules db)"
  shows "power_ok (snd (postPowerSchedule lc db t body now new_id))"
proof -
  define b where "b = (if body = JNull then JObj [] else body)"
  define i where "i = (case field b ''id'' of JStr s \<Rightarrow> if s = [] then None else Some s | _ \<Rightarrow> None)"
  have i: "i \<noteq> Some []" by (auto simp: i_def split: json.splits)
  show ?thesis
  proof (cases "parsePowerScheduleInput b")
    case (Inl e)
    with assms show ?thesis by (simp add: postPowerSchedule_def b_def Let_def)
  next
    case (Inr input)
    then have "week_mask (pin_days input)"
      by (auto simp: parsePowerScheduleInput_def split: if_splits sum.splits intro: daysToMask_week)
    note save = savePowerSchedule_ok [OF assms(1) _ this i assms(2)]
    obtain sid db' where run: "savePowerSchedule db t input now i new_id = (sid, db')" by fastforce
    show ?thesis
    proof (cases "powerScheduleConflict (listPowerSchedules lc db t) input i")
      case None
      from save [OF None, where now = now] run have "power_ok db'" by simp
      with assms(1) show ?thesis
        unfolding postPowerSchedule_def Let_def b_def [symmetric] i_def [symmetric] Inr sum.case None option.case run prod.case
        by (cases sid) simp_all
    next
      case (Some e)
      from assms(1) show ?thesis
        unfolding postPowerSchedule_def Let_def b_def [symmetric] i_def [symmetric] Inr sum.case Some option.case by simp
    qed
  qed
qed

text \<open>
  What changes an organization's schedules: the two requests of the console and the deletion of a
  group, each for some organization. An insert under an id that is taken is refused by the primary
  key.
\<close>

datatype power_event =
    Post_schedule string json int string
  | Delete_schedule string string
  | Delete_group string string

definition power_step :: "(string \<Rightarrow> string \<Rightarrow> int) \<Rightarrow> power_event \<Rightarrow> d1 \<Rightarrow> d1" where
  "power_step lc e db =
     (case e of
        Post_schedule t body now new_id \<Rightarrow>
          if new_id \<in> ps_id ` set (power_schedules db) then db else snd (postPowerSchedule lc db t body now new_id)
      | Delete_schedule t rest \<Rightarrow> snd (deletePowerRequest db t rest)
      | Delete_group t g \<Rightarrow> (case deleteWorkstationGroup db t g of
           (False, db') \<Rightarrow> db' | (True, db') \<Rightarrow> deleteGroupPowerSchedules db' t g))"

interpretation power: step_system "power_step lc" power_ok
proof
  fix db e
  assume ok: "power_ok db"
  show "power_ok (power_step lc e db)"
  proof (cases e)
    case (Post_schedule t body now new_id)
    then show ?thesis using ok postPowerSchedule_ok by (simp add: power_step_def)
  next
    case (Delete_schedule t rest)
    then show ?thesis
      using ok by (auto simp: power_step_def deletePowerRequest_def deletePowerSchedule_def Let_def power_ok_def
          rows_ok_filter split: bool.splits)
  next
    case (Delete_group t g)
    have "power_schedules (snd (deleteWorkstationGroup db t g)) = power_schedules db"
      by (simp add: deleteWorkstationGroup_def split: option.splits)
    then show ?thesis
      using ok Delete_group
      by (auto simp: power_step_def deleteGroupPowerSchedules_def power_ok_def rows_ok_filter split: prod.splits bool.splits)
  qed
qed



subsection \<open>The week a workstation is sent\<close>

definition groups_ok :: "d1 \<Rightarrow> bool" where
  "groups_ok db = (distinct (map wg_id (workstation_groups db))
     \<and> distinct (map (\<lambda>g. (wg_tenant_id g, wg_name g)) (workstation_groups db))
     \<and> (\<forall>g\<in>set (workstation_groups db). wg_name g \<noteq> [])
     \<and> (\<forall>r\<in>set (power_schedules db). ps_group_id r \<noteq> Some [])
     \<and> distinct (map (\<lambda>c. (cd_tenant_id c, cd_client_id c)) (client_devices db)))"

definition group_of :: "d1 \<Rightarrow> string \<Rightarrow> string \<Rightarrow> string option" where
  "group_of db t c = (case find (\<lambda>d. cd_tenant_id d = t \<and> cd_client_id d = c) (client_devices db) of
     None \<Rightarrow> None | Some d \<Rightarrow> cd_group_name d)"

definition day_of_week :: "d1 \<Rightarrow> string \<Rightarrow> string \<Rightarrow> nat \<Rightarrow> power_day option" where
  "day_of_week db t c day =
     (case loadPowerRules db t of (rules, groupOf) \<Rightarrow>
        case effectivePower rules (groupOf c) of None \<Rightarrow> None | Some week \<Rightarrow> week ! day)"

definition own_rule :: "string option \<Rightarrow> nat \<Rightarrow> power_rule \<Rightarrow> bool" where
  "own_rule g day r = (truthy_text g \<and> \<not> rule_orphaned r \<and> rule_groupName r = g \<and> bit (rule_days r) day)"

definition all_rule :: "nat \<Rightarrow> power_rule \<Rightarrow> bool" where
  "all_rule day r = (\<not> rule_orphaned r \<and> rule_groupName r = None \<and> bit (rule_days r) day)"

lemma effectivePower_day:
  assumes "day < 7"
  shows "(case effectivePower rules g of None \<Rightarrow> None | Some week \<Rightarrow> week ! day)
    = map_option (\<lambda>r. (rule_off r, rule_on r))
        (case find (own_rule g day) rules of Some r \<Rightarrow> Some r | None \<Rightarrow> find (all_rule day) rules)"
proof -
  define f where "f day = map_option (\<lambda>r. (rule_off r, rule_on r))
        (case find (own_rule g day) rules of Some r \<Rightarrow> Some r | None \<Rightarrow> find (all_rule day) rules)" for day
  have own: "(if truthy_text g then find (\<lambda>r. \<not> rule_orphaned r \<and> rule_groupName r = g \<and> bit (rule_days r) day) rules else None)
      = find (own_rule g day) rules" for day
  proof (cases "truthy_text g")
    case False
    then have "find (own_rule g day) rules = None" by (simp add: find_None_iff_all own_rule_def)
    with False show ?thesis by simp
  qed (simp add: own_rule_def [abs_def])
  have every: "find (\<lambda>r. \<not> rule_orphaned r \<and> rule_groupName r = None \<and> bit (rule_days r) day) rules = find (all_rule day) rules" for day
    by (simp add: all_rule_def [abs_def])
  have "effectivePower rules g = (let week = map f [0..<7] in if list_ex (\<lambda>d. d \<noteq> None) week then Some week else None)"
    unfolding effectivePower_def week_upt and_bit1 own every by (simp add: f_def [abs_def])
  moreover have "f day = None" if "\<not> list_ex (\<lambda>d. d \<noteq> None) (map f [0..<7])"
    using that assms by (cases "f day") (auto simp: list_ex_iff)
  moreover have "map f [0..<7] ! day = f day" using assms by simp
  ultimately show ?thesis by (simp add: f_def [symmetric] Let_def)
qed

lemma find_unique:
  assumes "y \<in> set xs" and "P y" and "\<And>x. x \<in> set xs \<Longrightarrow> P x \<Longrightarrow> x = y"
  shows "find P xs = Some y"
proof (cases "find P xs")
  case None
  with assms(1,2) show ?thesis by (simp add: find_None_iff_all)
next
  case (Some x)
  with find_Some_iff_mem [OF Some] assms(3) show ?thesis by simp
qed

lemma distinct_map_eq: "distinct (map f xs) \<Longrightarrow> x \<in> set xs \<Longrightarrow> y \<in> set xs \<Longrightarrow> f x = f y \<Longrightarrow> x = y"
  by (simp add: distinct_map inj_on_def)

text \<open>The row of a schedule as the hub sees it: a schedule whose group is gone never applies.\<close>

lemma rule_of_facts:
  assumes "groups_ok db" and "r \<in> set (power_schedules db)"
  shows "(\<not> rule_orphaned (rule_of db r) \<and> rule_groupName (rule_of db r) = Some n) \<longleftrightarrow> row_group_name db r = Some n"
    and "(\<not> rule_orphaned (rule_of db r) \<and> rule_groupName (rule_of db r) = None) \<longleftrightarrow> ps_group_id r = None"
proof -
  have g: "ps_group_id r = Some g \<Longrightarrow> g \<noteq> []" for g using assms by (auto simp: groups_ok_def)
  have n: "row_group_name db r = Some m \<Longrightarrow> m \<noteq> [] \<and> ps_group_id r \<noteq> None" for m
    using assms(1) by (auto simp: row_group_name_def groups_ok_def split: option.splits dest!: find_Some_iff_mem)
  have t: "truthy_text (ps_group_id r) \<longleftrightarrow> ps_group_id r \<noteq> None" using g by (auto simp: truthy_text_def split: option.splits)
  have u: "truthy_text (row_group_name db r) \<longleftrightarrow> row_group_name db r \<noteq> None"
    using n by (auto simp: truthy_text_def split: option.splits)
  show "(\<not> rule_orphaned (rule_of db r) \<and> rule_groupName (rule_of db r) = Some n) \<longleftrightarrow> row_group_name db r = Some n"
    using n by (auto simp: rule_of_def t u)
  show "(\<not> rule_orphaned (rule_of db r) \<and> rule_groupName (rule_of db r) = None) \<longleftrightarrow> ps_group_id r = None"
    by (auto simp: rule_of_def t u)
qed

lemma rule_of_fields:
  "rule_days (rule_of db r) = ps_days r" "rule_off (rule_of db r) = ps_off_minute r" "rule_on (rule_of db r) = ps_on_minute r"
  by (simp_all add: rule_of_def)

lemma same_group_name:
  assumes "groups_ok db" and "row_group_name db r = Some n" and "row_group_name db q = Some n" and "ps_tenant_id r = ps_tenant_id q"
  shows "ps_group_id r = ps_group_id q"
proof -
  obtain w v where w: "w \<in> set (workstation_groups db)" "wg_name w = n" "Some (wg_id w) = ps_group_id r" "wg_tenant_id w = ps_tenant_id r"
    and v: "v \<in> set (workstation_groups db)" "wg_name v = n" "Some (wg_id v) = ps_group_id q" "wg_tenant_id v = ps_tenant_id q"
    using assms(2,3) by (auto simp: row_group_name_def split: option.splits dest!: find_Some_iff_mem)
  have "w = v"
    using distinct_map_eq [of "\<lambda>g. (wg_tenant_id g, wg_name g)" "workstation_groups db" w v] assms(1,4) w v
    by (simp add: groups_ok_def)
  with w v show ?thesis by simp
qed

lemma row_unique:
  assumes "power_ok db" and "r \<in> set (power_schedules db)" and "q \<in> set (power_schedules db)"
    and "ps_tenant_id r = ps_tenant_id q" and "ps_group_id r = ps_group_id q" and "bit (ps_days r) day" and "bit (ps_days q) day"
  shows "r = q"
proof (cases "ps_id r = ps_id q")
  case True
  with assms(1-3) show ?thesis by (auto simp: power_ok_def rows_ok_def dest: distinct_map_eq)
next
  case False
  with assms(1-3) have "apart r q" by (simp add: power_ok_def rows_ok_def)
  with assms(4-7) show ?thesis by (auto simp: apart_def and_eq_0_iff)
qed

lemma groupOf_group_of:
  assumes "groups_ok db" and "list_ex (\<lambda>r. truthy_text (rule_groupName r)) (fst (loadPowerRules db t))"
  shows "snd (loadPowerRules db t) c = group_of db t c"
proof -
  let ?ds = "filter (\<lambda>d. cd_tenant_id d = t) (client_devices db)"
  define ps where "ps = concat (map (\<lambda>d. case cd_group_name d of None \<Rightarrow> [] | Some g \<Rightarrow> [(cd_client_id d, g)]) ?ds)"
  have uniq: "d = e" if "d \<in> set (client_devices db)" "e \<in> set (client_devices db)" "cd_tenant_id d = t" "cd_tenant_id e = t"
      "cd_client_id d = cd_client_id e" for d e
    using distinct_map_eq [of "\<lambda>c. (cd_tenant_id c, cd_client_id c)" "client_devices db" d e] that assms(1)
    by (simp add: groups_ok_def)
  have mem: "(c, g) \<in> set ps \<longleftrightarrow> (\<exists>d\<in>set ?ds. cd_client_id d = c \<and> cd_group_name d = Some g)" for g
    by (force simp: ps_def split: option.splits)
  have "map_of (rev ps) c = Some g \<longleftrightarrow> group_of db t c = Some g" for g
  proof
    assume "map_of (rev ps) c = Some g"
    then have "(c, g) \<in> set ps" by (metis map_of_SomeD set_rev)
    then obtain d where d: "d \<in> set (client_devices db)" "cd_tenant_id d = t" "cd_client_id d = c" "cd_group_name d = Some g"
      using mem by auto
    have "find (\<lambda>d. cd_tenant_id d = t \<and> cd_client_id d = c) (client_devices db) = Some d"
      using d uniq by (intro find_unique) auto
    with d show "group_of db t c = Some g" by (simp add: group_of_def)
  next
    assume "group_of db t c = Some g"
    then obtain d where d: "d \<in> set (client_devices db)" "cd_tenant_id d = t" "cd_client_id d = c" "cd_group_name d = Some g"
      by (auto simp: group_of_def split: option.splits dest!: find_Some_iff_mem)
    then have "(c, g) \<in> set ps" using mem by auto
    then obtain h where h: "map_of (rev ps) c = Some h" by (metis map_of_eq_None_iff image_eqI not_None_eq prod.sel(1) set_rev)
    then have "(c, h) \<in> set ps" by (metis map_of_SomeD set_rev)
    then obtain e where e: "e \<in> set (client_devices db)" "cd_tenant_id e = t" "cd_client_id e = c" "cd_group_name e = Some h"
      using mem by auto
    have "e = d" using uniq [OF e(1) d(1) e(2) d(2)] e(3) d(3) by simp
    with h e d show "map_of (rev ps) c = Some g" by simp
  qed
  then have "map_of (rev ps) c = group_of db t c" by (cases "group_of db t c"; cases "map_of (rev ps) c") auto
  with assms(2) show ?thesis by (simp add: loadPowerRules_def Let_def ps_def)
qed

text \<open>Which schedule a workstation follows on a day: its group's, else the one for all.\<close>

definition follows :: "d1 \<Rightarrow> string \<Rightarrow> string \<Rightarrow> nat \<Rightarrow> power_row \<Rightarrow> bool" where
  "follows db t c day r = (ps_tenant_id r = t \<and> bit (ps_days r) day
     \<and> (row_group_name db r = group_of db t c \<and> group_of db t c \<noteq> None
        \<or> ps_group_id r = None
          \<and> \<not> (\<exists>q\<in>set (power_schedules db). ps_tenant_id q = t \<and> bit (ps_days q) day
                 \<and> row_group_name db q = group_of db t c \<and> group_of db t c \<noteq> None)))"

lemma own_rule_row:
  assumes "groups_ok db" and "r \<in> set (power_schedules db)"
    and g: "list_ex (\<lambda>r. truthy_text (rule_groupName r)) (fst (loadPowerRules db t)) \<Longrightarrow> g = group_of db t c"
    and "ps_tenant_id r = t"
  shows "own_rule g day (rule_of db r) \<longleftrightarrow> row_group_name db r = group_of db t c \<and> group_of db t c \<noteq> None \<and> bit (ps_days r) day"
proof (cases "list_ex (\<lambda>r. truthy_text (rule_groupName r)) (fst (loadPowerRules db t))")
  case True
  have "row_group_name db r = Some n \<Longrightarrow> n \<noteq> []" for n
    using assms(1) by (auto simp: row_group_name_def groups_ok_def split: option.splits dest!: find_Some_iff_mem)
  then show ?thesis
    using g [OF True] rule_of_facts(1) [OF assms(1,2)]
    by (cases "group_of db t c") (auto simp: own_rule_def truthy_text_def rule_of_fields)
next
  case False
  have "rule_of db r \<in> set (fst (loadPowerRules db t))"
    using assms(2,4) by (simp add: loadPowerRules_def tenant_rows_def Let_def)
  with False have no: "\<not> truthy_text (rule_groupName (rule_of db r))" by (auto simp: list_ex_iff)
  moreover have "row_group_name db r = Some n \<Longrightarrow> n \<noteq> []" for n
    using assms(1) by (auto simp: row_group_name_def groups_ok_def split: option.splits dest!: find_Some_iff_mem)
  ultimately have none: "row_group_name db r = None"
    using rule_of_facts(1) [OF assms(1,2), of "the (row_group_name db r)"]
    by (cases "row_group_name db r") (simp_all add: truthy_text_def)
  have "\<not> own_rule g day (rule_of db r)" using no unfolding own_rule_def by metis
  with none show ?thesis by auto
qed

lemma day_of_week_rows:
  assumes "groups_ok db" and "day < 7"
  shows "\<exists>g. day_of_week db t c day = map_option (\<lambda>r. (rule_off r, rule_on r))
      (case find (own_rule g day) (map (rule_of db) (tenant_rows db t)) of Some r \<Rightarrow> Some r
       | None \<Rightarrow> find (all_rule day) (map (rule_of db) (tenant_rows db t)))
    \<and> (list_ex (\<lambda>r. truthy_text (rule_groupName r)) (fst (loadPowerRules db t)) \<longrightarrow> g = group_of db t c)"
proof -
  define groupOf where "groupOf = snd (loadPowerRules db t)"
  have l: "loadPowerRules db t = (map (rule_of db) (tenant_rows db t), groupOf)"
    by (simp add: groupOf_def loadPowerRules_def Let_def)
  show ?thesis
    using groupOf_group_of [OF assms(1), of t c] effectivePower_day [OF assms(2), of "map (rule_of db) (tenant_rows db t)" "groupOf c"]
    by (intro exI [of _ "groupOf c"]) (simp add: day_of_week_def l)
qed

text \<open>
  C32. The week a workstation is sent. On every day it switches off exactly when one of its
  organization's schedules applies to it that day: its own group's schedule where the group has one
  for that day, otherwise the one for every workstation; that schedule is the only one that applies,
  and its times are the ones sent.
\<close>

theorem workstation_week:
  assumes "power_ok db" and "groups_ok db" and "day < 7"
  shows "day_of_week db t c day = Some x \<longleftrightarrow>
    (\<exists>r\<in>set (power_schedules db). follows db t c day r \<and> x = (ps_off_minute r, ps_on_minute r)
       \<and> (\<forall>q\<in>set (power_schedules db). follows db t c day q \<longrightarrow> q = r))"
proof -
  let ?rows = "power_schedules db" and ?rules = "map (rule_of db) (tenant_rows db t)"
  obtain g where day: "day_of_week db t c day = map_option (\<lambda>r. (rule_off r, rule_on r))
      (case find (own_rule g day) ?rules of Some r \<Rightarrow> Some r | None \<Rightarrow> find (all_rule day) ?rules)"
    and g: "list_ex (\<lambda>r. truthy_text (rule_groupName r)) (fst (loadPowerRules db t)) \<Longrightarrow> g = group_of db t c"
    using day_of_week_rows [OF assms(2,3), of t c] by auto
  have rules: "rl \<in> set ?rules \<longleftrightarrow> (\<exists>r\<in>set ?rows. ps_tenant_id r = t \<and> rl = rule_of db r)" for rl
    by (auto simp: tenant_rows_def)
  define own where "own r = (ps_tenant_id r = t \<and> bit (ps_days r) day \<and> row_group_name db r = group_of db t c \<and> group_of db t c \<noteq> None)" for r :: power_row
  define every where "every r = (ps_tenant_id r = t \<and> bit (ps_days r) day \<and> ps_group_id r = None)" for r :: power_row
  have own: "own_rule g day (rule_of db r) \<longleftrightarrow> own r" if "r \<in> set ?rows" "ps_tenant_id r = t" for r
    using own_rule_row [OF assms(2) that(1) g that(2), of day] that(2) by (auto simp: own_def)
  have every: "all_rule day (rule_of db r) \<longleftrightarrow> every r" if "r \<in> set ?rows" "ps_tenant_id r = t" for r
    using rule_of_facts(2) [OF assms(2) that(1)] that(2) by (auto simp: all_rule_def every_def rule_of_def)
  have own1: "r = q" if rq: "r \<in> set ?rows" "q \<in> set ?rows" "own r" "own q" for r q
  proof -
    obtain n where "group_of db t c = Some n" using rq(3) by (auto simp: own_def)
    then have "row_group_name db r = Some n" "row_group_name db q = Some n" "ps_tenant_id r = ps_tenant_id q"
      using rq by (auto simp: own_def)
    from row_unique [OF assms(1) rq(1,2) this(3) same_group_name [OF assms(2) this], of day] rq(3,4) show ?thesis
      by (auto simp: own_def)
  qed
  have every1: "r = q" if "r \<in> set ?rows" "q \<in> set ?rows" "every r" "every q" for r q
    using row_unique [OF assms(1) that(1,2), of day] that(3,4) by (auto simp: every_def)
  have follows: "follows db t c day r \<longleftrightarrow> own r \<or> every r \<and> \<not> (\<exists>q\<in>set ?rows. own q)" for r
    by (auto simp: follows_def own_def every_def)
  have pick: "find P ?rules = Some (rule_of db r)"
    if "r \<in> set ?rows" "ps_tenant_id r = t" "P (rule_of db r)" "\<And>q. q \<in> set ?rows \<Longrightarrow> ps_tenant_id q = t \<Longrightarrow> P (rule_of db q) \<Longrightarrow> q = r" for P r
  proof (rule find_unique)
    show "rule_of db r \<in> set ?rules" using that(1,2) rules by blast
    show "P (rule_of db r)" by (rule that(3))
    fix x
    assume x: "x \<in> set ?rules" "P x"
    from x(1) have "\<exists>q\<in>set ?rows. ps_tenant_id q = t \<and> x = rule_of db q" by (simp only: rules)
    then show "x = rule_of db r" using that(4) x(2) by blast
  qed
  show ?thesis
  proof (cases "\<exists>r\<in>set ?rows. own r")
    case True
    then obtain r where r: "r \<in> set ?rows" "own r" by blast
    then have "find (own_rule g day) ?rules = Some (rule_of db r)"
      using own own1 by (intro pick) (auto simp: own_def)
    then have "day_of_week db t c day = Some (ps_off_minute r, ps_on_minute r)" by (simp add: day rule_of_def)
    with r own1 show ?thesis unfolding follows by auto
  next
    case False
    then have none: "find (own_rule g day) ?rules = None" using own by (auto simp: find_None_iff_all tenant_rows_def)
    show ?thesis
    proof (cases "\<exists>r\<in>set ?rows. every r")
      case True
      then obtain r where r: "r \<in> set ?rows" "every r" by blast
      then have "find (all_rule day) ?rules = Some (rule_of db r)"
        using every every1 by (intro pick) (auto simp: every_def)
      then have "day_of_week db t c day = Some (ps_off_minute r, ps_on_minute r)" using none by (simp add: day rule_of_def)
      with r every1 False show ?thesis unfolding follows by auto
    next
      case never: False
      then have "find (all_rule day) ?rules = None" using every by (auto simp: find_None_iff_all tenant_rows_def)
      then have "day_of_week db t c day = None" using none by (simp add: day)
      with False never show ?thesis unfolding follows by auto
    qed
  qed
qed

definition school_db :: d1 where
  "school_db = (let row = (\<lambda>i g days off. \<lparr>ps_id = i, ps_tenant_id = ''t'', ps_group_id = g, ps_days = days, ps_off_minute = off,
       ps_on_minute = None, ps_created_at = 0, ps_updated_at = 0\<rparr>)
     in empty_db\<lparr>workstation_groups := [\<lparr>wg_id = ''g'', wg_tenant_id = ''t'', wg_name = ''Room 1''\<rparr>],
          client_devices := [\<lparr>cd_tenant_id = ''t'', cd_client_id = ''PC-01'', cd_last_seen = 0, cd_group_name = Some ''Room 1'',
             cd_broadcast_url = None, cd_broadcast_epoch = 0\<rparr>],
          power_schedules := [row ''a'' None 62 1080, row ''b'' (Some ''g'') 2 1200]\<rparr>)"

theorem workstation_week_witness:
  "power_ok school_db \<and> groups_ok school_db \<and> day_of_week school_db ''t'' ''PC-01'' 1 = Some (1200, None)
   \<and> (\<exists>r\<in>set (power_schedules school_db). follows school_db ''t'' ''PC-01'' 1 r
        \<and> (\<forall>q\<in>set (power_schedules school_db). follows school_db ''t'' ''PC-01'' 1 q \<longrightarrow> q = r))"
proof -
  have week: "week_mask 62" "week_mask 2" by (rule week_maskI; simp)+
  have ok: "power_ok school_db" by (simp add: power_ok_def rows_ok_def school_db_def Let_def week apart_def)
  have groups: "groups_ok school_db" by code_simp
  have day: "day_of_week school_db ''t'' ''PC-01'' 1 = Some (1200, None)" by code_simp
  with workstation_week [OF ok groups, of 1 "''t''" "''PC-01''" "(1200, None)"] ok groups show ?thesis by auto
qed

subsection \<open>Wake-on-LAN and power reports\<close>

text \<open>\<open>/^[0-9a-f]{2}(?::[0-9a-f]{2}){5}$/\<close>.\<close>

definition mac_shape :: "string \<Rightarrow> bool" where
  "mac_shape s = (length s = 17 \<and> list_all (\<lambda>i. if i mod 3 = 2 then s ! i = CHR '':'' else is_lower_hex (s ! i)) [0..<17])"

definition isWakeableMac :: "json \<Rightarrow> bool" where
  "isWakeableMac v =
     (case v of JStr s \<Rightarrow>
        mac_shape s \<and> s \<noteq> ''00:00:00:00:00:00'' \<and> parse_hex_pair (s ! 0) (s ! 1) AND 1 = 0
      | _ \<Rightarrow> False)"

definition WAKE_ALARM_PROBLEMS :: "string list" where
  "WAKE_ALARM_PROBLEMS = [''no-rtc'', ''failed'']"

record power_report =
  pw_problem :: string
  pw_wakeAt :: string
  pw_detail :: string

text \<open>\<open>/^\d{4}-\d{2}-\d{2} ([01]\d|2[0-3]):[0-5]\d$/\<close>.\<close>

definition wake_shape :: "string \<Rightarrow> bool" where
  "wake_shape s = (length s = 16 \<and> list_all is_digit (take 4 s) \<and> s ! 4 = CHR ''-'' \<and> list_all is_digit (slice 5 7 s)
     \<and> s ! 7 = CHR ''-'' \<and> list_all is_digit (slice 8 10 s) \<and> s ! 10 = CHR '' '' \<and> clock_shape (drop 11 s))"

text \<open>\<open>s.replace(/[P]{k,}/g, " ")\<close>: every longest run of at least \<open>k\<close> becomes one space.\<close>

function replace_runs :: "(char \<Rightarrow> bool) \<Rightarrow> nat \<Rightarrow> string \<Rightarrow> string" where
  "replace_runs P k [] = []"
| "replace_runs P k (c # cs) =
     (if P c then let run = takeWhile P (c # cs)
                  in (if k \<le> length run then '' '' else run) @ replace_runs P k (dropWhile P cs)
      else c # replace_runs P k cs)"
  by pat_completeness auto
termination
  by (relation "measure (\<lambda>(P, k, s). length s)") (auto simp: le_imp_less_Suc length_dropWhile_le)

definition is_control :: "char \<Rightarrow> bool" where
  "is_control c = (code c \<le> 31 \<or> code c = 127)"

definition parsePowerReport :: "json \<Rightarrow> string + power_report" where
  "parsePowerReport body =
     (if \<not> is_object body \<or> is_array body then Inl ''The power report must be a JSON object''
      else case field body ''problem'' of
        JStr problem \<Rightarrow>
          if problem \<notin> set WAKE_ALARM_PROBLEMS then Inl ''problem is one of no-rtc, failed''
          else (case field body ''wakeAt'' of
             JStr wakeAt \<Rightarrow>
               if \<not> wake_shape wakeAt then Inl ''wakeAt is YYYY-MM-DD HH:MM''
               else (case field body ''detail'' of
                       JUndefined \<Rightarrow> Inr \<lparr>pw_problem = problem, pw_wakeAt = wakeAt, pw_detail = []\<rparr>
                     | JStr detail \<Rightarrow>
                         Inr \<lparr>pw_problem = problem, pw_wakeAt = wakeAt,
                              pw_detail = take MAX_REPORT_DETAIL (trim (replace_runs is_space 2 (replace_runs is_control 1 detail)))\<rparr>
                     | _ \<Rightarrow> Inl ''detail must be text'')
           | _ \<Rightarrow> Inl ''wakeAt is YYYY-MM-DD HH:MM'')
      | _ \<Rightarrow> Inl ''problem is one of no-rtc, failed'')"

definition describePowerReport :: "power_report \<Rightarrow> string" where
  "describePowerReport report =
     (let fallback = ''Use Wake on the Workstations page, which needs Wake-on-LAN in its firmware settings, or switch it on by hand.''
      in if pw_problem report = ''no-rtc''
         then ''It has no hardware clock that can switch it on, so it did not switch itself on for '' @ pw_wakeAt report @ ''. '' @ fallback
         else ''Setting its hardware clock to switch it on at '' @ pw_wakeAt report @ '' failed''
           @ (if pw_detail report = [] then [] else '': '' @ pw_detail report) @ ''. '' @ fallback)"

text \<open>A row of \<open>workstation_issues\<close>, and the three outcomes of recording a report.\<close>

record issue =
  is_id :: string
  is_tenant_id :: string
  is_client_id :: string
  is_kind :: string
  is_details :: string
  is_occurred_at :: int

datatype report_outcome = Recorded | Duplicate | Unknown_workstation

definition recordPowerReport ::
  "(string \<Rightarrow> string) \<Rightarrow> d1 \<Rightarrow> issue list \<Rightarrow> string \<Rightarrow> string \<Rightarrow> power_report \<Rightarrow> nat \<Rightarrow> report_outcome \<times> issue list" where
  "recordPowerReport sha db issues tenantId clientId report now =
     (if \<not> list_ex (\<lambda>c. cd_tenant_id c = tenantId \<and> cd_client_id c = clientId) (client_devices db)
      then (Unknown_workstation, issues)
      else
        let day = now div 86400;
            i = ''wake-'' @ take 32 (sha (tenantId @ '':'' @ clientId @ '':'' @ pw_problem report @ '':'' @ show_nat day));
            row = \<lparr>is_id = i, is_tenant_id = tenantId, is_client_id = clientId, is_kind = ''wake_alarm'',
                   is_details = describePowerReport report, is_occurred_at = int now\<rparr>
        in (if tbl_lookup is_id i issues = None then Recorded else Duplicate, tbl_insert_or_ignore is_id row issues))"

text \<open>
  A workstation's failure to arm its wake alarm is listed once per kind of problem and day: the
  first report of a known workstation is recorded, every further one of the same kind on the same
  day changes nothing, and a report never touches the issues already listed.
\<close>

theorem power_report_once:
  assumes "list_ex (\<lambda>c. cd_tenant_id c = t \<and> cd_client_id c = c') (client_devices db)"
    and "recordPowerReport sha db issues t c' report now = (outcome, issues')"
    and "pw_problem report' = pw_problem report" and "now' div 86400 = now div 86400"
  shows "(outcome = Recorded \<longrightarrow> (\<exists>row. issues' = issues @ [row] \<and> is_details row = describePowerReport report))
    \<and> (outcome \<noteq> Recorded \<longrightarrow> outcome = Duplicate \<and> issues' = issues)
    \<and> recordPowerReport sha db issues' t c' report' now' = (Duplicate, issues')"
  using assms by (auto simp: recordPowerReport_def Let_def tbl_insert_or_ignore_def tbl_lookup_append split: if_splits option.splits)
    (auto simp: tbl_lookup_def split: if_splits)

theorem power_report_once_witness:
  "recordPowerReport id school_db [] ''t'' ''PC-01'' \<lparr>pw_problem = ''failed'', pw_wakeAt = ''2026-01-01 07:00'', pw_detail = []\<rparr> 90000
     = (Recorded, [\<lparr>is_id = ''wake-t:PC-01:failed:1'', is_tenant_id = ''t'', is_client_id = ''PC-01'', is_kind = ''wake_alarm'',
         is_details = describePowerReport \<lparr>pw_problem = ''failed'', pw_wakeAt = ''2026-01-01 07:00'', pw_detail = []\<rparr>, is_occurred_at = 90000\<rparr>])
   \<and> (let after = snd (recordPowerReport id school_db [] ''t'' ''PC-01'' \<lparr>pw_problem = ''failed'', pw_wakeAt = ''2026-01-01 07:00'', pw_detail = []\<rparr> 90000)
      in recordPowerReport id school_db after ''t'' ''PC-01'' \<lparr>pw_problem = ''failed'', pw_wakeAt = ''x'', pw_detail = ''y''\<rparr> 90100 = (Duplicate, after))"
proof -
  let ?r = "\<lparr>pw_problem = ''failed'', pw_wakeAt = ''2026-01-01 07:00'', pw_detail = []\<rparr>"
  have one: "digit_char 1 = CHR ''1''" by code_simp
  have known: "list_ex (\<lambda>c. cd_tenant_id c = ''t'' \<and> cd_client_id c = ''PC-01'') (client_devices school_db)" by code_simp
  have run: "recordPowerReport id school_db [] ''t'' ''PC-01'' ?r 90000
     = (Recorded, [\<lparr>is_id = ''wake-t:PC-01:failed:1'', is_tenant_id = ''t'', is_client_id = ''PC-01'', is_kind = ''wake_alarm'',
         is_details = describePowerReport ?r, is_occurred_at = 90000\<rparr>])"
    using one by (simp add: recordPowerReport_def school_db_def Let_def show_nat_small tbl_lookup_def tbl_insert_or_ignore_def)
  from power_report_once [OF known run, of "\<lparr>pw_problem = ''failed'', pw_wakeAt = ''x'', pw_detail = ''y''\<rparr>" 90100] run
  show ?thesis by simp
qed

end
