(* ===== verification/Exams.thy ===== *)
theory Exams
  imports License Store
begin

text \<open>
  Exam mode (\<open>src/cloudflare-control/src/exams.ts\<close>) and the routes that create and end an exam
  (\<open>index.ts\<close>, \<open>/api/exams\<close>). Times are Unix seconds. The stored JSON text of an exam's sites is the
  value it parses to, \<open>None\<close> where it does not parse. \<open>lc\<close> is \<open>localeCompare\<close>.
\<close>

definition EXAM_TITLE :: nat where "EXAM_TITLE = 120"

definition EXAM_EXTRA_HOSTS :: nat where "EXAM_EXTRA_HOSTS = 20"

definition EXAM_MIN_MINUTES :: int where "EXAM_MIN_MINUTES = 5"

definition EXAM_MAX_MINUTES :: int where "EXAM_MAX_MINUTES = 600"

definition EXAM_AHEAD_DAYS :: int where "EXAM_AHEAD_DAYS = 90"

definition EXAM_OPEN :: nat where "EXAM_OPEN = 50"

definition EXAM_RETENTION_DAYS :: int where "EXAM_RETENTION_DAYS = 90"

definition START_GRACE_SECONDS :: int where "START_GRACE_SECONDS = 120"

lemmas exam_limits = EXAM_TITLE_def EXAM_EXTRA_HOSTS_def EXAM_MIN_MINUTES_def EXAM_MAX_MINUTES_def
  EXAM_AHEAD_DAYS_def EXAM_OPEN_def EXAM_RETENTION_DAYS_def START_GRACE_SECONDS_def

datatype exam_phase = Scheduled | Running | Ended

record exam_window =
  ew_id :: string
  ew_title :: string
  ew_groupName :: "string option"
  ew_url :: string
  ew_hosts :: "string list"
  ew_startsAt :: int
  ew_endsAt :: int
  ew_cancelled :: bool

record exam_input =
  ei_title :: string
  ei_groupName :: "string option"
  ei_url :: string
  ei_hosts :: "string list"
  ei_startsAt :: int
  ei_endsAt :: int

subsection \<open>Windows\<close>

definition examEnd :: "exam_row \<Rightarrow> int" where
  "examEnd row = (case ex_ended_at row of None \<Rightarrow> ex_ends_at row | Some e \<Rightarrow> min e (ex_ends_at row))"

definition examPhase :: "exam_row \<Rightarrow> int \<Rightarrow> exam_phase" where
  "examPhase row now = (if now \<ge> examEnd row then Ended else if now \<ge> ex_starts_at row then Running else Scheduled)"

definition parseHosts :: "json option \<Rightarrow> string list" where
  "parseHosts raw =
     (case raw of
        Some (JArr hs) \<Rightarrow> concat (map (\<lambda>h. case h of JStr s \<Rightarrow> if HOST_PATTERN s then [s] else [] | _ \<Rightarrow> []) hs)
      | _ \<Rightarrow> [])"

definition examWindow :: "exam_row \<Rightarrow> exam_window" where
  "examWindow row =
     \<lparr>ew_id = ex_id row, ew_title = ex_title row, ew_groupName = ex_group_name row, ew_url = ex_exam_url row,
      ew_hosts = parseHosts (ex_allowed_hosts row), ew_startsAt = ex_starts_at row, ew_endsAt = examEnd row,
      ew_cancelled = (case ex_ended_at row of None \<Rightarrow> False | Some e \<Rightarrow> e < ex_starts_at row)\<rparr>"

definition examEpoch :: "int \<Rightarrow> int" where
  "examEpoch startsAt = startsAt * 1000 + 999"

text \<open>\<open>groupName\<close> is \<open>None\<close> for a workstation in no group.\<close>

definition examCovers :: "string option \<Rightarrow> string option \<Rightarrow> bool" where
  "examCovers examGroup groupName = (examGroup = None \<or> examGroup = groupName)"

subsection \<open>A new exam\<close>

fun extra_hosts :: "string \<Rightarrow> json list \<Rightarrow> string list \<Rightarrow> string + string list" where
  "extra_hosts ownHost [] extra = Inr extra"
| "extra_hosts ownHost (JStr raw # rest) extra =
     (let host = normalizeDomain raw in
      if host = [] then extra_hosts ownHost rest extra
      else if \<not> HOST_PATTERN host then Inl (''\"'' @ take 80 raw @ ''\" is not a domain name'')
      else extra_hosts ownHost rest (if host \<noteq> ownHost \<and> host \<notin> set extra then extra @ [host] else extra))"
| "extra_hosts ownHost (_ # rest) extra = Inl ''Other sites are a list of domain names''"

definition parse_hosts_field :: "json \<Rightarrow> string \<Rightarrow> string + string list" where
  "parse_hosts_field v ownHost =
     (let raw = (if v = JUndefined \<or> v = JNull then JArr [] else v) in
      case raw of
        JArr hs \<Rightarrow> (case extra_hosts ownHost hs [] of
            Inl e \<Rightarrow> Inl e
          | Inr extra \<Rightarrow> if length extra > EXAM_EXTRA_HOSTS then Inl ''At most 20 other sites'' else Inr extra)
      | _ \<Rightarrow> Inl ''Other sites are a list of domain names'')"

definition parse_exam_group :: "json \<Rightarrow> string list \<Rightarrow> string + string option" where
  "parse_exam_group v groups =
     (if v = JUndefined \<or> v = JNull \<or> v = JStr [] then Inr None
      else case v of JStr g \<Rightarrow> if g \<in> set groups then Inr (Some g) else Inl ''Workstation group not found''
        | _ \<Rightarrow> Inl ''Workstation group not found'')"

definition parse_start :: "json \<Rightarrow> int \<Rightarrow> string + int" where
  "parse_start v now =
     (if v = JUndefined \<or> v = JNull then Inr now
      else case v of
        JInt s \<Rightarrow>
          if s < now - START_GRACE_SECONDS then Inl ''The start time has already passed''
          else if s > now + EXAM_AHEAD_DAYS * 86400 then Inl ''An exam can be scheduled at most 90 days ahead''
          else Inr (max s now)
      | _ \<Rightarrow> Inl ''The start is a time in seconds'')"

definition parse_minutes :: "json \<Rightarrow> string + int" where
  "parse_minutes v =
     (case v of JInt m \<Rightarrow> if m < EXAM_MIN_MINUTES \<or> m > EXAM_MAX_MINUTES then Inl ''The length is 5 to 600 minutes'' else Inr m
      | _ \<Rightarrow> Inl ''The length is 5 to 600 minutes'')"

definition text_field :: "json \<Rightarrow> string \<Rightarrow> string" where
  "text_field b k = (case field b k of JStr s \<Rightarrow> trim s | _ \<Rightarrow> [])"

text \<open>The last case of the address is the error \<open>new URL\<close> would throw on an address already accepted.\<close>

definition parseExamInput :: "url_parser \<Rightarrow> json \<Rightarrow> string list \<Rightarrow> int \<Rightarrow> string + exam_input" where
  "parseExamInput parse_url b groups now =
     (if \<not> is_object b then Inl ''The request body must be an object''
      else let title = text_field b ''title'' in
      if title = [] then Inl ''Give the exam a name''
      else if length title > EXAM_TITLE then Inl ''The name is at most 120 characters''
      else case safeHttpUrl parse_url (Some (text_field b ''url'')) of
        None \<Rightarrow> Inl ''The exam address must be a full http(s) address, such as https://exam.example.org/test''
      | Some url \<Rightarrow>
          (case parse_url url of
             None \<Rightarrow> Inl ''Invalid URL''
           | Some parsed \<Rightarrow>
               let ownHost = toLowerCase (hostname_of parsed) in
               if \<not> HOST_PATTERN ownHost then Inl ''The exam address must be on a named site, not an IP address''
               else (case parse_hosts_field (field b ''hosts'') ownHost of
                       Inl e \<Rightarrow> Inl e
                     | Inr extra \<Rightarrow>
                         (case parse_exam_group (field b ''groupName'') groups of
                            Inl e \<Rightarrow> Inl e
                          | Inr groupName \<Rightarrow>
                              (case parse_start (field b ''startsAt'') now of
                                 Inl e \<Rightarrow> Inl e
                               | Inr startsAt \<Rightarrow>
                                   (case parse_minutes (field b ''durationMinutes'') of
                                      Inl e \<Rightarrow> Inl e
                                    | Inr minutes \<Rightarrow>
                                        Inr \<lparr>ei_title = title, ei_groupName = groupName, ei_url = url, ei_hosts = ownHost # extra,
                                             ei_startsAt = startsAt, ei_endsAt = startsAt + minutes * 60\<rparr>))))))"

subsection \<open>Stored exams\<close>

definition openExams :: "d1 \<Rightarrow> string \<Rightarrow> int \<Rightarrow> exam_row list" where
  "openExams db tenantId now =
     filter (\<lambda>e. ex_tenant_id e = tenantId \<and> ex_ends_at e > now
               \<and> (case ex_ended_at e of None \<Rightarrow> True | Some t \<Rightarrow> t > now)) (exam_sessions db)"

definition same_workstations :: "string option \<Rightarrow> string option \<Rightarrow> bool" where
  "same_workstations g h = (g = None \<or> h = None \<or> g = h)"

definition new_exam :: "string \<Rightarrow> exam_input \<Rightarrow> string option \<Rightarrow> int \<Rightarrow> string \<Rightarrow> exam_row" where
  "new_exam tenantId input userId now new_id =
     \<lparr>ex_id = new_id, ex_tenant_id = tenantId, ex_title = ei_title input, ex_group_name = ei_groupName input,
      ex_exam_url = ei_url input, ex_allowed_hosts = Some (JArr (map JStr (ei_hosts input))),
      ex_starts_at = ei_startsAt input, ex_ends_at = ei_endsAt input, ex_ended_at = None, ex_finalized_at = None,
      ex_created_by = userId, ex_ended_by = None, ex_created_at = now\<rparr>"

definition group_text :: "string option \<Rightarrow> string" where
  "group_text g = (case g of Some n \<Rightarrow> if n = [] then ''all workstations'' else ''the '' @ n @ '' group'' | None \<Rightarrow> ''all workstations'')"

definition createExam ::
  "d1 \<Rightarrow> string \<Rightarrow> exam_input \<Rightarrow> string option \<Rightarrow> int \<Rightarrow> string \<Rightarrow> (refusal + string) \<times> d1" where
  "createExam db tenantId input userId now new_id =
     (let open_rows = openExams db tenantId now in
      if length open_rows \<ge> EXAM_OPEN then (Inl (''At most 50 exams can be scheduled at once'', 409), db)
      else case find (\<lambda>e. ex_starts_at e < ei_endsAt input \<and> examEnd e > ei_startsAt input
                        \<and> same_workstations (ex_group_name e) (ei_groupName input)) open_rows of
        Some clash \<Rightarrow> (Inl (''This overlaps \"'' @ ex_title clash @ ''\" on '' @ group_text (ex_group_name clash)
                          @ ''. Pick another time or group.'', 409), db)
      | None \<Rightarrow> (Inr new_id, db\<lparr>exam_sessions := exam_sessions db @ [new_exam tenantId input userId now new_id]\<rparr>))"

definition findExam :: "d1 \<Rightarrow> string \<Rightarrow> string \<Rightarrow> exam_row option" where
  "findExam db tenantId i = find (\<lambda>e. ex_tenant_id e = tenantId \<and> ex_id e = i) (exam_sessions db)"

definition listExams :: "d1 \<Rightarrow> string \<Rightarrow> exam_row list" where
  "listExams db tenantId =
     take 200 (sort_by (\<lambda>a b. ex_starts_at b - ex_starts_at a) (filter (\<lambda>e. ex_tenant_id e = tenantId) (exam_sessions db)))"

definition hubExams :: "d1 \<Rightarrow> string \<Rightarrow> int \<Rightarrow> exam_window list" where
  "hubExams db tenantId now =
     map examWindow (sort_by (\<lambda>a b. ex_starts_at a - ex_starts_at b)
       (filter (\<lambda>e. ex_tenant_id e = tenantId \<and> examEnd e > now - 86400) (exam_sessions db)))"

definition endExam :: "d1 \<Rightarrow> string \<Rightarrow> string \<Rightarrow> string option \<Rightarrow> int \<Rightarrow> (refusal + exam_row) \<times> d1" where
  "endExam db tenantId i userId now =
     (case findExam db tenantId i of
        None \<Rightarrow> (Inl (''Exam not found'', 404), db)
      | Some exam \<Rightarrow>
          if examPhase exam now = Ended then (Inl (''This exam has already ended'', 409), db)
          else (Inr (exam\<lparr>ex_ended_at := Some now, ex_ended_by := userId\<rparr>),
                db\<lparr>exam_sessions := tbl_update (\<lambda>e. ex_id e = i \<and> ex_ended_at e = None)
                     (\<lambda>e. e\<lparr>ex_ended_at := Some now, ex_ended_by := userId\<rparr>) (exam_sessions db)\<rparr>))"

definition cmp_ids :: "client_device \<Rightarrow> client_device \<Rightarrow> int" where
  "cmp_ids a b = (if cd_client_id a = cd_client_id b then 0 else if cd_client_id a < cd_client_id b then - 1 else 1)"

definition examClients :: "d1 \<Rightarrow> string \<Rightarrow> string option \<Rightarrow> client_device list" where
  "examClients db tenantId groupName =
     sort_by cmp_ids (filter (\<lambda>c. cd_tenant_id c = tenantId \<and> (groupName = None \<or> cd_group_name c = groupName)) (client_devices db))"

text \<open>
  The loop of \<open>finishExam\<close>, in batches of 90: \<open>chunks\<close> cuts the list the way \<open>slice(i, i + 90)\<close>
  does.
\<close>

function chunks :: "nat \<Rightarrow> 'a list \<Rightarrow> 'a list list" where
  "chunks n xs = (if xs = [] \<or> n = 0 then [] else take n xs # chunks n (drop n xs))"
  by pat_completeness auto
termination
  by (relation "measure (\<lambda>(n, xs). length xs)") auto

declare chunks.simps [simp del]

text \<open>\<open>None\<close> is the error of \<open>updateTenant\<close>; \<open>clock\<close> the time it stamps.\<close>

definition finishExam :: "d1 \<Rightarrow> exam_window \<Rightarrow> int \<Rightarrow> int \<Rightarrow> (bool \<times> d1) option" where
  "finishExam db exam nowMs clock =
     (let atMs = max nowMs (examEpoch (ew_startsAt exam) + 1);
          p = (\<lambda>e. ex_id e = ew_id exam \<and> ex_finalized_at e = None);
          done = db\<lparr>exam_sessions := tbl_update p (\<lambda>e. e\<lparr>ex_finalized_at := Some (atMs div 1000)\<rparr>) (exam_sessions db)\<rparr>
      in if tbl_changes p (exam_sessions db) = 0 then Some (False, done)
         else if ew_cancelled exam then Some (True, done)
         else case find (\<lambda>e. ex_id e = ew_id exam) (exam_sessions done) of
           None \<Rightarrow> Some (False, done)
         | Some row \<Rightarrow>
             if ew_groupName exam = None
             then map_option (Pair True) (updateTenant done (ex_tenant_id row)
                    [(''broadcast_url'', \<lambda>t. t\<lparr>tn_broadcast_url := None\<rparr>),
                     (''broadcast_epoch'', \<lambda>t. t\<lparr>tn_broadcast_epoch := atMs\<rparr>)] clock)
             else Some (True, fold (\<lambda>ids db. setClientsBroadcast db (ex_tenant_id row) ids None atMs)
                    (chunks 90 (map cd_client_id (examClients done (ex_tenant_id row) (ew_groupName exam)))) done))"

definition recordExamEvents :: "d1 \<Rightarrow> string \<Rightarrow> (string \<times> exam_event \<times> int) list \<Rightarrow> d1" where
  "recordExamEvents db examId events =
     db\<lparr>exam_events := exam_events db @
          map (\<lambda>(c, e, t). \<lparr>ev_exam_id = examId, ev_client_id = c, ev_event = e, ev_at = t\<rparr>) events\<rparr>"

subsection \<open>What each workstation did\<close>

record exam_workstation =
  xw_clientId :: string
  xw_groupName :: "string option"
  xw_onlineAtStart :: "bool option"
  xw_disconnections :: nat
  xw_offlineSeconds :: int

text \<open>The loop over a workstation's events: online, offline since, seconds offline, disconnections.\<close>

fun exam_loop :: "(exam_event \<times> int) list \<Rightarrow> bool \<times> int \<times> int \<times> nat \<Rightarrow> bool \<times> int \<times> int \<times> nat" where
  "exam_loop [] s = s"
| "exam_loop ((e, at) # rest) (online, since, off, n) =
     exam_loop rest
       (if e = Connect \<and> \<not> online then (True, since, off + max 0 (at - since), n)
        else if e = Disconnect \<and> online then (False, at, off, Suc n)
        else (online, since, off, n))"

definition is_snapshot :: "exam_event \<Rightarrow> bool" where
  "is_snapshot e = (e = Start_online \<or> e = Start_offline)"

definition exam_workstation_of ::
  "exam_window \<Rightarrow> int \<Rightarrow> string \<Rightarrow> string option \<Rightarrow> (exam_event \<times> int) list \<Rightarrow> exam_workstation" where
  "exam_workstation_of window now clientId groupName events =
     (let started = (now \<ge> ew_startsAt window \<and> \<not> ew_cancelled window);
          until = min (ew_endsAt window) now;
          onlineAtStart = map_option (\<lambda>(e, at). e = Start_online) (find (\<lambda>(e, at). is_snapshot e) events);
          (online, since, off, n) = exam_loop events (onlineAtStart = Some True, ew_startsAt window, 0, 0);
          off = (if started \<and> \<not> online then off + max 0 (until - since) else off)
      in \<lparr>xw_clientId = clientId, xw_groupName = groupName, xw_onlineAtStart = onlineAtStart, xw_disconnections = n,
          xw_offlineSeconds = (if started then off else 0)\<rparr>)"

definition events_of :: "d1 \<Rightarrow> string \<Rightarrow> exam_event_row list" where
  "events_of db examId =
     sort_by (\<lambda>a b. ev_at a - ev_at b) (filter (\<lambda>e. ev_exam_id e = examId) (exam_events db))"

definition examWorkstations :: "(string \<Rightarrow> string \<Rightarrow> int) \<Rightarrow> d1 \<Rightarrow> exam_row \<Rightarrow> int \<Rightarrow> exam_workstation list" where
  "examWorkstations lc db exam now =
     (let events = events_of db (ex_id exam);
          clients = fold (\<lambda>c m. tbl_upsert fst (cd_client_id c, cd_group_name c) m)
                      (examClients db (ex_tenant_id exam) (ex_group_name exam)) [];
          groups = fold (\<lambda>e m. if tbl_lookup fst (ev_client_id e) m = None then m @ [(ev_client_id e, ex_group_name exam)] else m)
                     events clients
      in map (\<lambda>(c, g). exam_workstation_of (examWindow exam) now c g
                (map (\<lambda>e. (ev_event e, ev_at e)) (filter (\<lambda>e. ev_client_id e = c) events)))
           (sort_by (\<lambda>a b. lc (fst a) (fst b)) groups))"

subsection \<open>The report\<close>

definition csvField :: "string \<Rightarrow> string" where
  "csvField s =
     (let safe = (if s \<noteq> [] \<and> hd s \<in> set [CHR ''='', CHR ''+'', CHR ''-'', CHR ''@'', CHR 0x09, CHR 0x0D] then CHR 0x27 # s else s)
      in [CHR 0x22] @ concat (map (\<lambda>c. if c = CHR 0x22 then [c, c] else [c]) safe) @ [CHR 0x22])"

definition iso_text :: "int \<Rightarrow> string" where
  "iso_text seconds =
     (case civil_of_day (seconds div DAY) of (y, m, d) \<Rightarrow>
        let s = seconds mod DAY
        in iso_year y @ ''-'' @ two_digits (m + 1) @ ''-'' @ two_digits (nat d) @ ''T'' @ two_digits (nat (s div 3600))
             @ '':'' @ two_digits (nat (s div 60 mod 60)) @ '':'' @ two_digits (nat (s mod 60)) @ ''.000Z'')"

definition utcText :: "int \<Rightarrow> string" where
  "utcText seconds =
     (let s = take 16 (iso_text seconds)
      in takeWhile (\<lambda>c. c \<noteq> CHR ''T'') s @ (case dropWhile (\<lambda>c. c \<noteq> CHR ''T'') s of [] \<Rightarrow> [] | _ # rest \<Rightarrow> CHR '' '' # rest) @ '' UTC'')"

definition show_seconds :: "int \<Rightarrow> string" where
  "show_seconds i = (if i < 0 then ''-'' @ show_nat (nat (- i)) else show_nat (nat i))"

definition examReportCsv :: "exam_row \<Rightarrow> exam_workstation list \<Rightarrow> string" where
  "examReportCsv exam rows =
     (let window = examWindow exam;
          lines =
            [[''Exam'', ex_title exam],
             [''Workstations'', (case ex_group_name exam of Some g \<Rightarrow> if g = [] then ''All'' else ''Group '' @ g | None \<Rightarrow> ''All'')],
             [''Started'', if ew_cancelled window then ''Cancelled before it started'' else utcText (ew_startsAt window)],
             [''Ended'', utcText (ew_endsAt window)], [],
             [''Workstation'', ''Group'', ''Online at start'', ''Disconnections'', ''Minutes offline'']]
            @ map (\<lambda>r. [xw_clientId r, (case xw_groupName r of None \<Rightarrow> [] | Some g \<Rightarrow> g),
                 (case xw_onlineAtStart r of None \<Rightarrow> ''Not checked'' | Some True \<Rightarrow> ''Yes'' | Some False \<Rightarrow> ''No''),
                 show_nat (xw_disconnections r), show_seconds ((xw_offlineSeconds r + 30) div 60)]) rows
      in join [CHR 0x0D, CHR 0x0A] (map (\<lambda>cells. join '','' (map csvField cells)) lines) @ [CHR 0x0D, CHR 0x0A])"

subsection \<open>Broadcasts and retention\<close>

definition examBlockingBroadcast :: "d1 \<Rightarrow> string \<Rightarrow> string list \<Rightarrow> int \<Rightarrow> string option" where
  "examBlockingBroadcast db tenantId targets now =
     (let running = filter (\<lambda>e. ex_starts_at e \<le> now) (openExams db tenantId now) in
      if running = [] then None
      else let everyone = find (\<lambda>e. ex_group_name e = None) running in
      if everyone \<noteq> None \<or> ''all'' \<in> set targets
      then let exam = (case everyone of Some e \<Rightarrow> e | None \<Rightarrow> hd running)
           in Some (''\"'' @ ex_title exam @ ''\" is running on '' @ group_text (ex_group_name exam)
                @ ''. End it on the Exams page first, or send to workstations outside it.'')
      else let named = filter (\<lambda>t. t \<noteq> ''all'') targets in
      if named = [] then None
      else case find (\<lambda>c. list_ex (\<lambda>e. ex_group_name e = cd_group_name c) running)
                  (filter (\<lambda>c. cd_tenant_id c = tenantId \<and> cd_client_id c \<in> set named) (client_devices db)) of
        None \<Rightarrow> None
      | Some c \<Rightarrow> map_option (\<lambda>e. cd_client_id c @ '' is in \"'' @ ex_title e
            @ ''\", which is running. End the exam on the Exams page first, or leave it out.'')
          (find (\<lambda>e. ex_group_name e = cd_group_name c) running))"

definition purgeOldExams :: "d1 \<Rightarrow> int \<Rightarrow> nat \<times> d1" where
  "purgeOldExams db now =
     (let cutoff = now - EXAM_RETENTION_DAYS * 86400;
          old = (\<lambda>e. examEnd e < cutoff);
          ids = map ex_id (filter old (exam_sessions db))
      in (tbl_changes old (exam_sessions db),
          db\<lparr>exam_events := filter (\<lambda>v. ev_exam_id v \<notin> set ids) (exam_events db),
             exam_sessions := filter (\<lambda>e. \<not> old e) (exam_sessions db)\<rparr>))"

subsection \<open>Requests (index.ts, /api/exams)\<close>

text \<open>
  POST \<open>/api/exams\<close> for an organization; \<open>new_id\<close> is the generated id. The answer carries what the
  handler did besides: the audit entry and the message to the hub.
\<close>

definition postExam ::
  "url_parser \<Rightarrow> d1 \<Rightarrow> string \<Rightarrow> json \<Rightarrow> string option \<Rightarrow> int \<Rightarrow> string \<Rightarrow> (refusal + string \<times> effect list) \<times> d1" where
  "postExam parse_url db tenantId body userId now new_id =
     (case parseExamInput parse_url body (map wg_name (listWorkstationGroups db tenantId)) now of
        Inl e \<Rightarrow> (Inl (e, 400), db)
      | Inr input \<Rightarrow>
          (case createExam db tenantId input userId now new_id of
             (Inl e, db') \<Rightarrow> (Inl e, db')
           | (Inr i, db') \<Rightarrow>
               (Inr (i, [Audit ''exam.create'' (''id='' @ i @ '' group='' @ (case ei_groupName input of None \<Rightarrow> ''all'' | Some g \<Rightarrow> g)
                    @ '' url='' @ ei_url input @ '' starts='' @ show_seconds (ei_startsAt input) @ '' ends='' @ show_seconds (ei_endsAt input)),
                 Hub_call ''/exams-changed'']), db')))"

text \<open>POST \<open>/api/exams/:id/end\<close>; \<open>None\<close> is an error \<open>finishExam\<close> throws.\<close>

definition postExamEnd ::
  "d1 \<Rightarrow> string \<Rightarrow> string \<Rightarrow> string option \<Rightarrow> int \<Rightarrow> ((refusal + exam_row \<times> effect list) \<times> d1) option" where
  "postExamEnd db tenantId i userId nowMs =
     (let now = nowMs div 1000 in
      case endExam db tenantId i userId now of
        (Inl e, db') \<Rightarrow> Some (Inl e, db')
      | (Inr exam, db') \<Rightarrow>
          map_option (\<lambda>db''. (Inr (exam, [Audit (if ex_starts_at exam \<le> now then ''exam.end'' else ''exam.cancel'') (''id='' @ i),
                                          Hub_call ''/exams-changed'']), db''))
            (if ex_starts_at exam \<le> now then map_option snd (finishExam db' (examWindow exam) nowMs now) else Some db'))"

subsection \<open>Accepted exams\<close>

lemma extra_hosts_ok:
  "extra_hosts own js extra = Inr hs \<Longrightarrow> list_all HOST_PATTERN extra \<Longrightarrow> distinct (own # extra) \<Longrightarrow>
    list_all HOST_PATTERN hs \<and> distinct (own # hs)"
  by (induction own js extra rule: extra_hosts.induct) (auto simp: Let_def split: if_splits)

lemma parse_hosts_field_ok:
  "parse_hosts_field v own = Inr hs \<Longrightarrow> list_all HOST_PATTERN hs \<and> distinct (own # hs) \<and> length hs \<le> 20"
  using extra_hosts_ok [of own _ "[]" hs]
  by (auto simp: parse_hosts_field_def Let_def exam_limits split: json.splits sum.splits if_splits)

lemma parse_start_ok: "parse_start v now = Inr s \<Longrightarrow> now \<le> s \<and> s \<le> now + 90 * 86400"
  by (auto simp: parse_start_def exam_limits split: json.splits if_splits)

lemma parse_minutes_ok: "parse_minutes v = Inr m \<Longrightarrow> 5 \<le> m \<and> m \<le> 600"
  by (auto simp: parse_minutes_def exam_limits split: json.splits if_splits)

lemma parseExamInput_parts:
  assumes "parseExamInput parse_url b groups now = Inr i"
  obtains own extra minutes where "ei_title i \<noteq> []" "length (ei_title i) \<le> 120" "HOST_PATTERN own"
    "parse_hosts_field (field b ''hosts'') own = Inr extra" "ei_hosts i = own # extra"
    "parse_exam_group (field b ''groupName'') groups = Inr (ei_groupName i)"
    "parse_start (field b ''startsAt'') now = Inr (ei_startsAt i)"
    "parse_minutes (field b ''durationMinutes'') = Inr minutes" "ei_endsAt i = ei_startsAt i + minutes * 60"
  using assms
  by (auto simp: parseExamInput_def Let_def EXAM_TITLE_def split: if_splits option.splits sum.splits)

lemma parseHosts_map: "list_all HOST_PATTERN hs \<Longrightarrow> parseHosts (Some (JArr (map JStr hs))) = hs"
  by (induction hs) (auto simp: parseHosts_def)

text \<open>
  Every exam the form lets through has a name of 1 to 120 characters, starts between now and 90
  days ahead, lasts 5 minutes to 10 hours, is for all workstations or a group that exists, and
  allows at most 21 different host names, which are exactly the ones its stored row gives the hub.
\<close>

theorem exam_input_valid:
  assumes "parseExamInput parse_url b groups now = Inr i"
  shows "1 \<le> length (ei_title i) \<and> length (ei_title i) \<le> 120
    \<and> now \<le> ei_startsAt i \<and> ei_startsAt i \<le> now + 90 * 86400
    \<and> 300 \<le> ei_endsAt i - ei_startsAt i \<and> ei_endsAt i - ei_startsAt i \<le> 36000
    \<and> (\<forall>g. ei_groupName i = Some g \<longrightarrow> g \<in> set groups)
    \<and> distinct (ei_hosts i) \<and> length (ei_hosts i) \<le> 21
    \<and> ew_hosts (examWindow (new_exam t i u now new_id)) = ei_hosts i"
proof -
  obtain own extra minutes where p: "ei_title i \<noteq> []" "length (ei_title i) \<le> 120" "HOST_PATTERN own"
    "parse_hosts_field (field b ''hosts'') own = Inr extra" "ei_hosts i = own # extra"
    "parse_exam_group (field b ''groupName'') groups = Inr (ei_groupName i)"
    "parse_start (field b ''startsAt'') now = Inr (ei_startsAt i)"
    "parse_minutes (field b ''durationMinutes'') = Inr minutes" "ei_endsAt i = ei_startsAt i + minutes * 60"
    by (rule parseExamInput_parts [OF assms])
  note h = parse_hosts_field_ok [OF p(4)]
  have "g \<in> set groups" if "ei_groupName i = Some g" for g
    using p(6) that by (auto simp: parse_exam_group_def split: if_splits json.splits)
  moreover have "ew_hosts (examWindow (new_exam t i u now new_id)) = ei_hosts i"
    using h p(3,5) by (simp add: examWindow_def new_exam_def parseHosts_map del: list.map)
  moreover have "1 \<le> length (ei_title i)" using p(1) by (cases "ei_title i") auto
  ultimately show ?thesis
    using p(2,5,9) h parse_start_ok [OF p(7)] parse_minutes_ok [OF p(8)] by auto
qed

definition echo_url :: url_parser where
  "echo_url s = Some \<lparr>protocol = ''https:'', username = [], password = [], hostname_of = ''exam.example.org'',
     origin_of = ''https://exam.example.org'', href = ''https://exam.example.org/''\<rparr>"

theorem exam_input_valid_witness:
  "\<exists>i. parseExamInput echo_url (JObj [(''title'', JStr ''Physics''), (''url'', JStr ''exam.example.org''),
          (''hosts'', JArr [JStr ''cdn.example.org'', JStr ''exam.example.org'']), (''durationMinutes'', JInt 90)]) [] 1000 = Inr i
     \<and> ei_endsAt i - ei_startsAt i \<le> 36000 \<and> length (ei_hosts i) \<le> 21"
proof -
  let ?b = "JObj [(''title'', JStr ''Physics''), (''url'', JStr ''exam.example.org''),
          (''hosts'', JArr [JStr ''cdn.example.org'', JStr ''exam.example.org'']), (''durationMinutes'', JInt 90)]"
  have "case parseExamInput echo_url ?b [] 1000 of Inr _ \<Rightarrow> True | Inl _ \<Rightarrow> False" by code_simp
  then obtain i where i: "parseExamInput echo_url ?b [] 1000 = Inr i" by (auto split: sum.splits)
  with exam_input_valid [OF i] show ?thesis by blast
qed

subsection \<open>No workstation is in two exams at once\<close>

definition clear_of :: "exam_row \<Rightarrow> exam_row \<Rightarrow> bool" where
  "clear_of a b = (ex_tenant_id a \<noteq> ex_tenant_id b \<or> \<not> same_workstations (ex_group_name a) (ex_group_name b)
     \<or> min (examEnd a) (examEnd b) \<le> max (ex_starts_at a) (ex_starts_at b))"

definition exams_ok :: "d1 \<Rightarrow> bool" where
  "exams_ok db = (distinct (map ex_id (exam_sessions db))
     \<and> (\<forall>a\<in>set (exam_sessions db). \<forall>b\<in>set (exam_sessions db). ex_id a \<noteq> ex_id b \<longrightarrow> clear_of a b))"

lemma clear_of_sym: "clear_of a b \<Longrightarrow> clear_of b a"
  by (auto simp: clear_of_def same_workstations_def min.commute max.commute)

lemma clear_of_shrink:
  assumes "clear_of a b" and "examEnd a' \<le> examEnd a" and "ex_starts_at a' = ex_starts_at a"
    and "ex_tenant_id a' = ex_tenant_id a" and "ex_group_name a' = ex_group_name a"
  shows "clear_of a' b"
  using assms by (auto simp: clear_of_def)

lemma closed_exam_ended:
  "e \<in> set (exam_sessions db) \<Longrightarrow> ex_tenant_id e = t \<Longrightarrow> e \<notin> set (openExams db t now) \<Longrightarrow> examEnd e \<le> now"
  by (auto simp: openExams_def examEnd_def split: option.splits)

lemma createExam_ok:
  assumes ok: "exams_ok db" and start: "now \<le> ei_startsAt input" and fresh: "new_id \<notin> ex_id ` set (exam_sessions db)"
  shows "exams_ok (snd (createExam db t input u now new_id))"
proof -
  let ?n = "new_exam t input u now new_id"
  let ?clash = "\<lambda>e. ex_starts_at e < ei_endsAt input \<and> examEnd e > ei_startsAt input
                        \<and> same_workstations (ex_group_name e) (ei_groupName input)"
  have new: "ex_id ?n = new_id" "ex_tenant_id ?n = t" "ex_group_name ?n = ei_groupName input"
    "ex_starts_at ?n = ei_startsAt input" "examEnd ?n = ei_endsAt input"
    by (simp_all add: new_exam_def examEnd_def)
  have "clear_of ?n e" if "find ?clash (openExams db t now) = None" "e \<in> set (exam_sessions db)" for e
  proof (cases "ex_tenant_id e = t")
    case True
    show ?thesis
    proof (cases "e \<in> set (openExams db t now)")
      case open_exam: True
      then have "\<not> ?clash e" using that(1) by (simp add: find_None_iff_all)
      then show ?thesis by (auto simp: clear_of_def new same_workstations_def)
    next
      case False
      from closed_exam_ended [OF that(2) True this] start show ?thesis by (auto simp: clear_of_def new)
    qed
  qed (simp add: clear_of_def new)
  then have "exams_ok (db\<lparr>exam_sessions := exam_sessions db @ [?n]\<rparr>)" if "find ?clash (openExams db t now) = None"
    using ok fresh that by (auto simp: exams_ok_def new intro: clear_of_sym)
  then show ?thesis using ok by (simp add: createExam_def Let_def split: option.split)
qed

text \<open>A change that keeps an exam's place and never moves its end later keeps the exams apart.\<close>

lemma exams_ok_map:
  assumes "exams_ok db" and "\<And>e. ex_id (f e) = ex_id e" and "\<And>e. examEnd (f e) \<le> examEnd e"
    and "\<And>e. ex_starts_at (f e) = ex_starts_at e" and "\<And>e. ex_tenant_id (f e) = ex_tenant_id e"
    and "\<And>e. ex_group_name (f e) = ex_group_name e"
  shows "exams_ok (db\<lparr>exam_sessions := map f (exam_sessions db)\<rparr>)"
proof -
  have "clear_of (f a) (f b)" if "clear_of a b" for a b
    using that assms(3-6) by (meson clear_of_shrink clear_of_sym)
  with assms(1,2) show ?thesis by (simp add: exams_ok_def comp_def)
qed

lemma exams_ok_update:
  assumes "exams_ok db" and "\<And>e. ex_id (f e) = ex_id e" and "\<And>e. p e \<Longrightarrow> examEnd (f e) \<le> examEnd e"
    and "\<And>e. ex_starts_at (f e) = ex_starts_at e" and "\<And>e. ex_tenant_id (f e) = ex_tenant_id e"
    and "\<And>e. ex_group_name (f e) = ex_group_name e"
  shows "exams_ok (db\<lparr>exam_sessions := tbl_update p f (exam_sessions db)\<rparr>)"
  unfolding tbl_update_def using assms by (intro exams_ok_map) auto

lemma endExam_ok: "exams_ok db \<Longrightarrow> exams_ok (snd (endExam db t i u now))"
  by (auto simp: endExam_def examEnd_def intro!: exams_ok_update split: option.splits)

lemma fold_setClientsBroadcast_exams:
  "exam_sessions (fold (\<lambda>ids db. setClientsBroadcast db t ids v ms) css db) = exam_sessions db"
  by (induction css arbitrary: db) (auto simp: setClientsBroadcast_def)

lemma updateTenant_exams: "updateTenant db i us now = Some db' \<Longrightarrow> exam_sessions db' = exam_sessions db"
  by (auto simp: updateTenant_def split: if_splits)

lemma finishExam_sessions:
  assumes "finishExam db w ms clock = Some (b, db')"
  shows "exam_sessions db' = tbl_update (\<lambda>e. ex_id e = ew_id w \<and> ex_finalized_at e = None)
    (\<lambda>e. e\<lparr>ex_finalized_at := Some (max ms (examEpoch (ew_startsAt w) + 1) div 1000)\<rparr>) (exam_sessions db)"
  using assms
  by (auto simp: finishExam_def Let_def fold_setClientsBroadcast_exams dest!: updateTenant_exams split: if_splits option.splits)

lemma exams_ok_cong: "exam_sessions a = exam_sessions b \<Longrightarrow> exams_ok a = exams_ok b"
  by (simp add: exams_ok_def)

lemma finishExam_ok:
  assumes "exams_ok db" and "finishExam db w ms clock = Some (b, db')"
  shows "exams_ok db'"
proof -
  let ?p = "\<lambda>e. ex_id e = ew_id w \<and> ex_finalized_at e = None"
  let ?f = "\<lambda>e. e\<lparr>ex_finalized_at := Some (max ms (examEpoch (ew_startsAt w) + 1) div 1000)\<rparr>"
  have ok: "exams_ok (db\<lparr>exam_sessions := tbl_update ?p ?f (exam_sessions db)\<rparr>)"
    using assms(1) by (intro exams_ok_update) (auto simp: examEnd_def split: option.split)
  have eq: "exam_sessions db' = exam_sessions (db\<lparr>exam_sessions := tbl_update ?p ?f (exam_sessions db)\<rparr>)"
    using finishExam_sessions [OF assms(2)] by simp
  from ok show ?thesis by (subst exams_ok_cong [OF eq])
qed

text \<open>
  What changes the exams: the two requests of the console, the hub finishing an exam and the hourly
  purge. An insert under an id that is taken is refused by the primary key.
\<close>

datatype exam_request =
    Post_exam string json "string option" int string
  | End_exam string string "string option" int
  | Finish exam_window int int
  | Purge int

definition exam_step :: "url_parser \<Rightarrow> exam_request \<Rightarrow> d1 \<Rightarrow> d1" where
  "exam_step parse_url r db =
     (case r of
        Post_exam t body u now new_id \<Rightarrow>
          if new_id \<in> ex_id ` set (exam_sessions db) then db else snd (postExam parse_url db t body u now new_id)
      | End_exam t i u nowMs \<Rightarrow> (case postExamEnd db t i u nowMs of None \<Rightarrow> db | Some (_, db') \<Rightarrow> db')
      | Finish w nowMs clock \<Rightarrow> (case finishExam db w nowMs clock of None \<Rightarrow> db | Some (_, db') \<Rightarrow> db')
      | Purge now \<Rightarrow> snd (purgeOldExams db now))"

lemma postExam_ok:
  assumes "exams_ok db" and "new_id \<notin> ex_id ` set (exam_sessions db)"
  shows "exams_ok (snd (postExam parse_url db t body u now new_id))"
proof (cases "parseExamInput parse_url body (map wg_name (listWorkstationGroups db t)) now")
  case (Inl e)
  with assms show ?thesis by (simp add: postExam_def)
next
  case (Inr input)
  have "now \<le> ei_startsAt input"
    using parseExamInput_parts [OF Inr] parse_start_ok by metis
  from createExam_ok [OF assms(1) this assms(2), of t u] Inr show ?thesis
    by (auto simp: postExam_def split: prod.splits sum.splits)
qed

lemma postExamEnd_ok:
  assumes "exams_ok db" and "postExamEnd db t i u ms = Some (r, db')"
  shows "exams_ok db'"
proof -
  obtain a db1 where e: "endExam db t i u (ms div 1000) = (a, db1)" by fastforce
  then have ok: "exams_ok db1" using endExam_ok [OF assms(1), of t i u "ms div 1000"] by simp
  show ?thesis
  proof (cases a)
    case (Inl x)
    with e assms(2) ok show ?thesis by (simp add: postExamEnd_def)
  next
    case (Inr exam)
    with e assms(2) ok show ?thesis
      by (auto simp: postExamEnd_def Let_def split: if_splits intro: finishExam_ok)
  qed
qed

interpretation exams: step_system "exam_step parse_url" exams_ok
proof
  fix db r
  assume ok: "exams_ok db"
  show "exams_ok (exam_step parse_url r db)"
    using ok postExam_ok [OF ok] postExamEnd_ok [OF ok] finishExam_ok [OF ok]
    by (cases r) (auto simp: exam_step_def purgeOldExams_def Let_def exams_ok_def distinct_map_filter split: option.splits)
qed


definition post_physics :: "string \<Rightarrow> exam_request" where
  "post_physics i = Post_exam ''t'' (JObj [(''title'', JStr ''P''), (''url'', JStr ''exam.example.org''), (''durationMinutes'', JInt 90)]) None 1000 i"


subsection \<open>An exam is finished once, and lets its workstations go\<close>

lemma concat_chunks: "0 < n \<Longrightarrow> concat (chunks n xs) = xs"
proof (induction n xs rule: chunks.induct)
  case (1 n xs)
  then show ?case by (subst chunks.simps) simp
qed

lemma fold_setClientsBroadcast:
  "client_devices (fold (\<lambda>ids db. setClientsBroadcast db t ids v ms) css db)
     = map (\<lambda>c. if cd_tenant_id c = t \<and> cd_client_id c \<in> set (concat css) then c\<lparr>cd_broadcast_url := v, cd_broadcast_epoch := ms\<rparr> else c)
         (client_devices db)"
proof (induction css arbitrary: db)
  case (Cons cs css)
  have one: "client_devices (setClientsBroadcast db t cs v ms)
      = map (\<lambda>c. if cd_tenant_id c = t \<and> cd_client_id c \<in> set cs then c\<lparr>cd_broadcast_url := v, cd_broadcast_epoch := ms\<rparr> else c) (client_devices db)"
    by (auto simp: setClientsBroadcast_def tbl_update_def)
  show ?case by (simp add: Cons.IH one) auto
qed simp

lemma examClients_ids:
  "c \<in> set (client_devices db) \<and> cd_tenant_id c = t \<and> cd_group_name c = Some g \<Longrightarrow> cd_client_id c \<in> cd_client_id ` set (examClients db t (Some g))"
  by (auto simp: examClients_def)

text \<open>
  Finishing an exam happens once, whoever gets there first: a second call does nothing. The
  one that does it sends the exam's workstations back to their portal with a reset newer than the
  exam's own broadcast: the organization's, for an exam on all workstations, or that of every
  workstation of its group.
\<close>

theorem finishExam_once:
  assumes "finishExam db w ms clock = Some (True, db')"
  shows "finishExam db' w ms' clock' = Some (False, db')
    \<and> (\<not> ew_cancelled w \<longrightarrow>
        (\<exists>row\<in>set (exam_sessions db'). ex_id row = ew_id w \<and>
          (case ew_groupName w of
             None \<Rightarrow> \<forall>t\<in>set (tenants db'). tn_id t = ex_tenant_id row \<longrightarrow>
                tn_broadcast_url t = None \<and> tn_broadcast_epoch t > examEpoch (ew_startsAt w)
           | Some g \<Rightarrow> \<forall>c\<in>set (client_devices db'). cd_tenant_id c = ex_tenant_id row \<and> cd_group_name c = Some g \<longrightarrow>
                cd_broadcast_url c = None \<and> cd_broadcast_epoch c > examEpoch (ew_startsAt w))))"
proof -
  let ?at = "max ms (examEpoch (ew_startsAt w) + 1)"
  let ?p = "\<lambda>e. ex_id e = ew_id w \<and> ex_finalized_at e = None"
  let ?done = "db\<lparr>exam_sessions := tbl_update ?p (\<lambda>e. e\<lparr>ex_finalized_at := Some (?at div 1000)\<rparr>) (exam_sessions db)\<rparr>"
  have sess: "exam_sessions db' = exam_sessions ?done" using finishExam_sessions [OF assms] by simp
  then have none: "\<forall>e\<in>set (exam_sessions db'). \<not> ?p e" by (auto simp: tbl_update_def)
  then have "tbl_changes ?p (exam_sessions db') = 0"
    "\<And>f. tbl_update ?p f (exam_sessions db') = exam_sessions db'"
    by (auto simp: tbl_changes_def tbl_update_def filter_empty_conv intro!: map_idI)
  then have again: "finishExam db' w ms' clock' = Some (False, db')" by (simp add: finishExam_def Let_def)
  have release: "\<exists>row\<in>set (exam_sessions db'). ex_id row = ew_id w \<and>
          (case ew_groupName w of
             None \<Rightarrow> \<forall>t\<in>set (tenants db'). tn_id t = ex_tenant_id row \<longrightarrow>
                tn_broadcast_url t = None \<and> tn_broadcast_epoch t > examEpoch (ew_startsAt w)
           | Some g \<Rightarrow> \<forall>c\<in>set (client_devices db'). cd_tenant_id c = ex_tenant_id row \<and> cd_group_name c = Some g \<longrightarrow>
                cd_broadcast_url c = None \<and> cd_broadcast_epoch c > examEpoch (ew_startsAt w))" if "\<not> ew_cancelled w"
  proof -
    from that assms obtain row where row: "find (\<lambda>e. ex_id e = ew_id w) (exam_sessions ?done) = Some row"
      by (auto simp: finishExam_def Let_def split: if_splits option.splits)
    have mem: "row \<in> set (exam_sessions db')" "ex_id row = ew_id w"
      using find_Some_iff_mem [OF row] sess by simp_all
    show ?thesis
    proof (cases "ew_groupName w")
      case None
      with that assms row have "updateTenant ?done (ex_tenant_id row) [(''broadcast_url'', \<lambda>t. t\<lparr>tn_broadcast_url := None\<rparr>),
                     (''broadcast_epoch'', \<lambda>t. t\<lparr>tn_broadcast_epoch := ?at\<rparr>)] clock = Some db'"
        by (auto simp: finishExam_def Let_def split: if_splits)
      then have "tenants db' = tbl_update (\<lambda>t. tn_id t = ex_tenant_id row)
          (\<lambda>t. t\<lparr>tn_broadcast_url := None, tn_broadcast_epoch := ?at, tn_updated_at := clock\<rparr>) (tenants db)"
        by (auto simp: updateTenant_def split: if_splits)
      then show ?thesis using mem None by (auto simp: tbl_update_def)
    next
      case (Some g)
      with that assms row have "db' = fold (\<lambda>ids db. setClientsBroadcast db (ex_tenant_id row) ids None ?at)
            (chunks 90 (map cd_client_id (examClients ?done (ex_tenant_id row) (Some g)))) ?done"
        by (auto simp: finishExam_def Let_def split: if_splits)
      then have dev: "client_devices db' = map (\<lambda>c. if cd_tenant_id c = ex_tenant_id row
           \<and> cd_client_id c \<in> cd_client_id ` set (examClients ?done (ex_tenant_id row) (Some g))
           then c\<lparr>cd_broadcast_url := None, cd_broadcast_epoch := ?at\<rparr> else c) (client_devices db)"
        by (simp add: fold_setClientsBroadcast concat_chunks)
      have "cd_broadcast_url c = None \<and> cd_broadcast_epoch c > examEpoch (ew_startsAt w)"
        if "c \<in> set (client_devices db')" "cd_tenant_id c = ex_tenant_id row" "cd_group_name c = Some g" for c
      proof -
        from that(1) obtain d where d: "d \<in> set (client_devices db)" "c = (if cd_tenant_id d = ex_tenant_id row
           \<and> cd_client_id d \<in> cd_client_id ` set (examClients ?done (ex_tenant_id row) (Some g))
           then d\<lparr>cd_broadcast_url := None, cd_broadcast_epoch := ?at\<rparr> else d)" by (auto simp: dev)
        then have "cd_tenant_id d = ex_tenant_id row" "cd_group_name d = Some g" using that(2,3) by (auto split: if_splits)
        then have "cd_client_id d \<in> cd_client_id ` set (examClients ?done (ex_tenant_id row) (Some g))"
          using examClients_ids [of d ?done] d(1) by auto
        with d show ?thesis using that(2) by (auto split: if_splits)
      qed
      then show ?thesis using mem Some by (intro bexI [of _ row]) auto
    qed
  qed
  from again release show ?thesis by blast
qed

definition hall_db :: d1 where
  "hall_db = empty_db\<lparr>exam_sessions := [\<lparr>ex_id = ''e1'', ex_tenant_id = ''t'', ex_title = ''P'', ex_group_name = Some ''Hall'',
       ex_exam_url = ''https://exam.example.org/'', ex_allowed_hosts = None, ex_starts_at = 100, ex_ends_at = 700,
       ex_ended_at = None, ex_finalized_at = None, ex_created_by = None, ex_ended_by = None, ex_created_at = 50\<rparr>],
     client_devices := [\<lparr>cd_tenant_id = ''t'', cd_client_id = ''PC-01'', cd_last_seen = 0, cd_group_name = Some ''Hall'',
       cd_broadcast_url = Some ''https://exam.example.org/'', cd_broadcast_epoch = 100999\<rparr>],
     exam_events := [\<lparr>ev_exam_id = ''e1'', ev_client_id = ''PC-01'', ev_event = Start_online, ev_at = 100\<rparr>,
       \<lparr>ev_exam_id = ''e1'', ev_client_id = ''PC-01'', ev_event = Disconnect, ev_at = 200\<rparr>,
       \<lparr>ev_exam_id = ''e1'', ev_client_id = ''PC-01'', ev_event = Connect, ev_at = 260\<rparr>]\<rparr>"

theorem finishExam_once_witness:
  "\<exists>db'. finishExam hall_db (examWindow (hd (exam_sessions hall_db))) 700000 700 = Some (True, db')
     \<and> finishExam db' (examWindow (hd (exam_sessions hall_db))) 800000 800 = Some (False, db')"
proof -
  let ?w = "examWindow (hd (exam_sessions hall_db))"
  have "case finishExam hall_db ?w 700000 700 of Some (b, _) \<Rightarrow> b | None \<Rightarrow> False"
    by (simp add: finishExam_def hall_db_def examWindow_def tbl_update_def tbl_changes_def Let_def)
  then obtain db' where run: "finishExam hall_db ?w 700000 700 = Some (True, db')" by (auto split: option.splits)
  with finishExam_once [OF run] show ?thesis by blast
qed

subsection \<open>Time offline\<close>

text \<open>
  The loop's account: the seconds counted so far, plus those since the workstation last dropped off,
  never pass the time from the start to the last event.
\<close>

lemma exam_loop_bound:
  assumes "exam_loop es (online, since, off, n) = (online', since', off', n')"
    and "sorted_wrt (\<lambda>a b. snd a \<le> snd b) es" and "\<forall>e\<in>set es. at \<le> snd e \<and> snd e \<le> until"
    and "0 \<le> off" and "\<not> online \<longrightarrow> off + start \<le> since \<and> since \<le> at" and "online \<longrightarrow> off + start \<le> at" and "at \<le> until"
  shows "0 \<le> off' \<and> (if online' then off' + start \<le> until else off' + start \<le> since' \<and> since' \<le> until)
    \<and> n' \<le> n + length (filter (\<lambda>e. fst e = Disconnect) es)"
  using assms
proof (induction es arbitrary: online since off n at)
  case Nil
  then show ?case by auto
next
  case (Cons e es)
  obtain v u where e: "e = (v, u)" by fastforce
  have u: "at \<le> u" "u \<le> until" "\<forall>e\<in>set es. u \<le> snd e \<and> snd e \<le> until" "sorted_wrt (\<lambda>a b. snd a \<le> snd b) es"
    using Cons.prems(2,3) by (auto simp: e)
  consider "v = Connect" "\<not> online" | "v = Disconnect" "online" | "\<not> (v = Connect \<and> \<not> online)" "\<not> (v = Disconnect \<and> online)"
    by blast
  then show ?case
  proof cases
    case 1
    with Cons.prems(1) have "exam_loop es (True, since, off + max 0 (u - since), n) = (online', since', off', n')" by (simp add: e)
    from Cons.IH [OF this u(4,3)] Cons.prems(4-7) 1 u(1,2) show ?thesis by (auto simp: e)
  next
    case 2
    with Cons.prems(1) have "exam_loop es (False, u, off, Suc n) = (online', since', off', n')" by (simp add: e)
    from Cons.IH [OF this u(4,3)] Cons.prems(4-7) 2 u(1,2) show ?thesis by (auto simp: e)
  next
    case 3
    then have "(if v = Connect \<and> \<not> online then (True, since, off + max 0 (u - since), n)
        else if v = Disconnect \<and> online then (False, u, off, Suc n) else (online, since, off, n)) = (online, since, off, n)" by simp
    with Cons.prems(1) have "exam_loop es (online, since, off, n) = (online', since', off', n')" by (simp only: e exam_loop.simps)
    from Cons.IH [OF this u(4,3)] Cons.prems(4-7) u(1,2) show ?thesis by (auto simp: e)
  qed
qed

lemma workstation_account:
  assumes "sorted_wrt (\<lambda>a b. snd a \<le> snd b) es"
    and "\<forall>e\<in>set es. ew_startsAt w \<le> snd e \<and> snd e \<le> min (ew_endsAt w) now" and "ew_startsAt w \<le> ew_endsAt w"
  shows "0 \<le> xw_offlineSeconds (exam_workstation_of w now c g es)
    \<and> xw_offlineSeconds (exam_workstation_of w now c g es) \<le> max 0 (min (ew_endsAt w) now - ew_startsAt w)
    \<and> xw_disconnections (exam_workstation_of w now c g es) \<le> length (filter (\<lambda>e. fst e = Disconnect) es)"
proof -
  let ?at0 = "map_option (\<lambda>(e, at). e = Start_online) (find (\<lambda>(e, at). is_snapshot e) es) = Some True"
  obtain online since off n where loop: "exam_loop es (?at0, ew_startsAt w, 0, 0) = (online, since, off, n)" by (metis prod_cases4)
  show ?thesis
  proof (cases "ew_startsAt w \<le> now")
    case True
    from exam_loop_bound [OF loop assms(1), of "ew_startsAt w" "min (ew_endsAt w) now" "ew_startsAt w"] assms(2,3) True
    show ?thesis unfolding exam_workstation_of_def Let_def loop prod.case by (auto split: if_splits)
  next
    case False
    then have "es = []" using assms(2) by (cases es) auto
    with False show ?thesis by (simp add: exam_workstation_of_def Let_def)
  qed
qed

lemma sorted_events: "sorted_wrt (\<lambda>a b. ev_at a \<le> ev_at b) (events_of db i)"
  unfolding events_of_def by (rule sorted_wrt_sort_by) auto

text \<open>
  The live board's account of each workstation: as long as the exam's recorded events lie
  between its start and the moment it ended or now, the time a workstation is said to have been
  offline is never negative and never more than the exam has lasted, and it never has more
  disconnections than were recorded for it.
\<close>

theorem exam_board_bounds:
  assumes "\<forall>e\<in>set (exam_events db). ev_exam_id e = ex_id exam \<longrightarrow>
      ex_starts_at exam \<le> ev_at e \<and> ev_at e \<le> min (examEnd exam) now"
    and "ex_starts_at exam \<le> examEnd exam" and "x \<in> set (examWorkstations lc db exam now)"
  shows "0 \<le> xw_offlineSeconds x \<and> xw_offlineSeconds x \<le> max 0 (min (examEnd exam) now - ex_starts_at exam)
    \<and> xw_disconnections x \<le> length (filter (\<lambda>e. ev_client_id e = xw_clientId x \<and> ev_event e = Disconnect) (events_of db (ex_id exam)))"
proof -
  let ?evs = "\<lambda>c. map (\<lambda>e. (ev_event e, ev_at e)) (filter (\<lambda>e. ev_client_id e = c) (events_of db (ex_id exam)))"
  obtain c g where x: "x = exam_workstation_of (examWindow exam) now c g (?evs c)"
    using assms(3) by (auto simp: examWorkstations_def Let_def)
  have "sorted_wrt (\<lambda>a b. snd a \<le> snd b) (?evs c)"
    using sorted_events [of db "ex_id exam"] by (simp add: sorted_wrt_map sorted_wrt_filter)
  moreover have "\<forall>e\<in>set (?evs c). ew_startsAt (examWindow exam) \<le> snd e \<and> snd e \<le> min (ew_endsAt (examWindow exam)) now"
    using assms(1) by (auto simp: examWindow_def events_of_def)
  moreover have "ew_startsAt (examWindow exam) \<le> ew_endsAt (examWindow exam)" using assms(2) by (simp add: examWindow_def)
  ultimately have "0 \<le> xw_offlineSeconds x
      \<and> xw_offlineSeconds x \<le> max 0 (min (ew_endsAt (examWindow exam)) now - ew_startsAt (examWindow exam))
      \<and> xw_disconnections x \<le> length (filter (\<lambda>e. fst e = Disconnect) (?evs c))"
    unfolding x by (rule workstation_account)
  moreover have "xw_clientId x = c" by (simp add: x exam_workstation_of_def Let_def split: prod.splits)
  moreover have "length (filter (\<lambda>e. fst e = Disconnect) (?evs c))
      = length (filter (\<lambda>e. ev_client_id e = c \<and> ev_event e = Disconnect) (events_of db (ex_id exam)))"
    by (simp add: filter_map comp_def conj_commute)
  ultimately show ?thesis by (simp add: examWindow_def)
qed

theorem exam_board_bounds_witness:
  "map xw_offlineSeconds (examWorkstations (\<lambda>a b. 0) hall_db (hd (exam_sessions hall_db)) 500) = [60]
   \<and> xw_offlineSeconds (hd (examWorkstations (\<lambda>a b. 0) hall_db (hd (exam_sessions hall_db)) 500)) \<le> 400"
proof -
  let ?e = "hd (exam_sessions hall_db)"
  let ?ws = "examWorkstations (\<lambda>a b. 0) hall_db ?e 500"
  have ev: "\<forall>e\<in>set (exam_events hall_db). ev_exam_id e = ex_id ?e \<longrightarrow> ex_starts_at ?e \<le> ev_at e \<and> ev_at e \<le> min (examEnd ?e) 500"
    and w: "ex_starts_at ?e \<le> examEnd ?e" "max 0 (min (examEnd ?e) 500 - ex_starts_at ?e) = 400"
    by (simp_all add: hall_db_def examEnd_def)
  have one: "map xw_offlineSeconds ?ws = [60]" by code_simp
  then have "hd ?ws \<in> set ?ws" by (cases ?ws) auto
  with exam_board_bounds [OF ev w(1) this] w(2) one show ?thesis by simp
qed

subsection \<open>The report cannot run as a formula\<close>

text \<open>A reader of quoted CSV fields: the text up to the closing quote, and the rest.\<close>

fun csv_read :: "string \<Rightarrow> (string \<times> string) option" where
  "csv_read [] = None"
| "csv_read (c # cs) =
     (if c \<noteq> CHR 0x22 then map_option (\<lambda>(f, r). (c # f, r)) (csv_read cs)
      else case cs of d # ds \<Rightarrow> if d = CHR 0x22 then map_option (\<lambda>(f, r). (CHR 0x22 # f, r)) (csv_read ds) else Some ([], cs)
        | [] \<Rightarrow> Some ([], []))"

lemma csv_read_quoted:
  "rest = [] \<or> hd rest \<noteq> CHR 0x22 \<Longrightarrow>
    csv_read (concat (map (\<lambda>c. if c = CHR 0x22 then [c, c] else [c]) s) @ CHR 0x22 # rest) = Some (s, rest)"
  by (induction s) (auto split: list.splits)

text \<open>
  A cell of the report: a reader of the file gets back the value exactly, or the value behind an
  apostrophe when it begins with a character that makes a spreadsheet run it as a formula; what it
  reads never begins with one, and the cell ends where it should whatever the value holds.
\<close>

theorem csvField_safe:
  assumes "rest = [] \<or> hd rest \<noteq> CHR 0x22"
  shows "\<exists>f. csv_read (tl (csvField s @ rest)) = Some (f, rest) \<and> (f = s \<or> f = CHR 0x27 # s)
    \<and> (f \<noteq> [] \<longrightarrow> hd f \<notin> set [CHR ''='', CHR ''+'', CHR ''-'', CHR ''@'', CHR 0x09, CHR 0x0D])
    \<and> (f \<noteq> s \<longrightarrow> hd s \<in> set [CHR ''='', CHR ''+'', CHR ''-'', CHR ''@'', CHR 0x09, CHR 0x0D])"
proof -
  define safe where "safe = (if s \<noteq> [] \<and> hd s \<in> set [CHR ''='', CHR ''+'', CHR ''-'', CHR ''@'', CHR 0x09, CHR 0x0D]
    then CHR 0x27 # s else s)"
  have "csv_read (tl (csvField s @ rest)) = Some (safe, rest)"
    using csv_read_quoted [OF assms, of safe] by (simp add: csvField_def Let_def safe_def del: set_simps)
  then show ?thesis by (auto simp: safe_def)
qed

theorem csvField_safe_witness:
  "csvField ''=SUM(A1)'' = [CHR 0x22] @ (CHR 0x27 # ''=SUM(A1)'') @ [CHR 0x22]
   \<and> (\<exists>f. csv_read (tl (csvField ''=SUM(A1)'' @ '',x'')) = Some (f, '',x'') \<and> hd f \<noteq> CHR ''='')"
proof -
  have "csvField ''=SUM(A1)'' = [CHR 0x22] @ (CHR 0x27 # ''=SUM(A1)'') @ [CHR 0x22]" by (simp add: csvField_def)
  moreover obtain f where "csv_read (tl (csvField ''=SUM(A1)'' @ '',x'')) = Some (f, '',x'')"
    "f = ''=SUM(A1)'' \<or> f = CHR 0x27 # ''=SUM(A1)''"
    "f \<noteq> [] \<longrightarrow> hd f \<notin> set [CHR ''='', CHR ''+'', CHR ''-'', CHR ''@'', CHR 0x09, CHR 0x0D]"
    using csvField_safe [of "'',x''" "''=SUM(A1)''"] by auto
  ultimately show ?thesis by auto
qed

end
