(* ===== verification/Hub_Model.thy ===== *)
theory Hub_Model
  imports Printing Portal_Url Power_Schedules Licensing Exams
begin

text \<open>
  The organization hub (\<open>src/cloudflare-control/src/org_hub.ts\<close>): its state, the configuration it
  caches and what it tells a workstation. One hub serves one organization. Its state is the fields
  of the object, its own SQLite tables, the sockets it holds with their attachments, its alarm, and
  the platform's database as it reads and writes it.

  Every handler runs at one instant \<open>now\<close> (milliseconds) and to its end. \<open>env\<close> bundles what comes
  from outside: the clock, the URL parser, \<open>Math.floor(Number(v))\<close> and \<open>Number(v)\<close> where that is an
  integer, the identifiers \<open>crypto.randomUUID\<close> draws and the random order of \<open>lanPeers\<close>.
\<close>

record hub_env =
  he_now :: int
  he_parse :: url_parser
  he_floor :: "json \<Rightarrow> int option"
  he_integer :: "json \<Rightarrow> int option"
  he_uuid :: "nat \<Rightarrow> string"
  he_order :: "int list"

subsection \<open>The platform's database\<close>

text \<open>The columns of \<open>client_devices\<close> that only the hub writes.\<close>

record registry_row =
  rg_tenant_id :: string
  rg_client_id :: string
  rg_client_num :: int
  rg_ip :: "string option"
  rg_is_locked :: bool
  rg_active_url :: "string option"
  rg_vnc_password :: "string option"
  rg_last_seen :: int
  rg_image_version :: "string option"
  rg_agent_version :: "string option"
  rg_update :: "update_report option"
  rg_updated_at :: int

record platform =
  pl_db :: d1
  pl_releases :: release_db
  pl_channel :: "string \<Rightarrow> update_channel option"
  pl_printers :: "printer_row list"
  pl_whitelist :: "(string \<times> string) list"
  pl_sites :: "(string \<times> string) list"
  pl_presets :: "(string \<times> string) list"
  pl_registry :: "registry_row list"
  pl_online :: "string \<Rightarrow> int \<times> int"

definition text_cmp :: "string \<Rightarrow> string \<Rightarrow> int" where
  "text_cmp a b = (if a = b then 0 else if a < b then - 1 else 1)"

definition own_values :: "string \<Rightarrow> (string \<times> string) list \<Rightarrow> string list" where
  "own_values tenantId rows = map snd (filter (\<lambda>r. fst r = tenantId) rows)"

text \<open>The host name of an address in lower case; none where it does not parse or has none.\<close>

definition url_host :: "url_parser \<Rightarrow> string \<Rightarrow> string list" where
  "url_host parse_url u = (case parse_url u of None \<Rightarrow> [] | Some p \<Rightarrow> if hostname_of p = [] then [] else [toLowerCase (hostname_of p)])"

definition buildEffectiveWhitelist :: "url_parser \<Rightarrow> platform \<Rightarrow> string \<Rightarrow> string list" where
  "buildEffectiveWhitelist parse_url p tenantId =
     (let t = findTenantById (pl_db p) tenantId in
      sort_by text_cmp (remdups
        (own_values tenantId (pl_whitelist p) @ own_values tenantId (pl_sites p)
         @ concat (map (url_host parse_url) (own_values tenantId (pl_presets p)))
         @ (case t of None \<Rightarrow> [] | Some t \<Rightarrow> if tn_default_url t = [] then [] else url_host parse_url (tn_default_url t))
         @ (case t of None \<Rightarrow> [] | Some t \<Rightarrow> if truthy_text (tn_custom_domain t) then [toLowerCase (text_of (tn_custom_domain t))] else []))))"

text \<open>\<open>COALESCE(excluded.c, c)\<close>\<close>

definition coalesce :: "'a option \<Rightarrow> 'a option \<Rightarrow> 'a option" where
  "coalesce a b = (case a of Some _ \<Rightarrow> a | None \<Rightarrow> b)"

definition rg_key :: "registry_row \<Rightarrow> string \<times> string" where
  "rg_key r = (rg_tenant_id r, rg_client_id r)"

definition registry_merge :: "registry_row \<Rightarrow> registry_row option \<Rightarrow> registry_row" where
  "registry_merge new old =
     (case old of
        None \<Rightarrow> new
      | Some o' \<Rightarrow> new\<lparr>rg_active_url := coalesce (rg_active_url new) (rg_active_url o'),
          rg_vnc_password := coalesce (rg_vnc_password new) (rg_vnc_password o'),
          rg_image_version := coalesce (rg_image_version new) (rg_image_version o'),
          rg_agent_version := coalesce (rg_agent_version new) (rg_agent_version o'),
          rg_update := coalesce (rg_update new) (rg_update o')\<rparr>)"

definition seen_device :: "registry_row \<Rightarrow> client_device option \<Rightarrow> client_device" where
  "seen_device r old =
     (case old of
        Some c \<Rightarrow> c\<lparr>cd_last_seen := rg_last_seen r\<rparr>
      | None \<Rightarrow> \<lparr>cd_tenant_id = rg_tenant_id r, cd_client_id = rg_client_id r, cd_last_seen = rg_last_seen r,
                cd_group_name = None, cd_broadcast_url = None, cd_broadcast_epoch = 0\<rparr>)"

definition cd_key :: "client_device \<Rightarrow> string \<times> string" where
  "cd_key c = (cd_tenant_id c, cd_client_id c)"

definition upsert_registry :: "registry_row \<Rightarrow> platform \<Rightarrow> platform" where
  "upsert_registry r p =
     p\<lparr>pl_registry := tbl_upsert rg_key (registry_merge r (tbl_lookup rg_key (rg_key r) (pl_registry p))) (pl_registry p),
       pl_db := (pl_db p)\<lparr>client_devices :=
         tbl_upsert cd_key (seen_device r (tbl_lookup cd_key (rg_key r) (client_devices (pl_db p)))) (client_devices (pl_db p))\<rparr>\<rparr>"

definition upsertDeviceRegistry :: "registry_row list \<Rightarrow> platform \<Rightarrow> platform" where
  "upsertDeviceRegistry rows p = fold upsert_registry rows p"

definition setTenantOnlineCount :: "string \<Rightarrow> int \<Rightarrow> int \<Rightarrow> platform \<Rightarrow> platform" where
  "setTenantOnlineCount tenantId online http p = p\<lparr>pl_online := (pl_online p)(tenantId := (max 0 online, max 0 http))\<rparr>"

subsection \<open>Constants\<close>

definition SOCKET_STALE_MS :: int where "SOCKET_STALE_MS = 75000"

definition HTTP_HEARTBEAT_ATTENDED_SECONDS :: int where "HTTP_HEARTBEAT_ATTENDED_SECONDS = 3"

definition HTTP_HEARTBEAT_IDLE_SECONDS :: int where "HTTP_HEARTBEAT_IDLE_SECONDS = 15"

definition HTTP_ATTENTION_MS :: int where "HTTP_ATTENTION_MS = 60000"

definition HTTP_ONLINE_MS :: int where "HTTP_ONLINE_MS = (2 * HTTP_HEARTBEAT_IDLE_SECONDS + 6) * 1000"

definition CONFIG_TTL_MS :: int where "CONFIG_TTL_MS = 5 * 60000"

definition COMMAND_TTL_SECONDS :: int where "COMMAND_TTL_SECONDS = 60"

definition FLUSH_DELAY_MS :: int where "FLUSH_DELAY_MS = 20000"

definition CONSOLE_SWEEP_MS :: int where "CONSOLE_SWEEP_MS = 30000"

definition REGISTRY_REFRESH_MS :: int where "REGISTRY_REFRESH_MS = 5 * 60000"

definition POLL_WATCH_LEASE_MS :: int where "POLL_WATCH_LEASE_MS = 10000"

definition FRAME_INTERVAL_SECONDS :: int where "FRAME_INTERVAL_SECONDS = 3"

definition MAX_FRAME_BYTES :: nat where "MAX_FRAME_BYTES = 256 * 1024"

definition MAX_WATCHED :: nat where "MAX_WATCHED = 500"

definition MAX_VNC_PASSWORD_LENGTH :: nat where "MAX_VNC_PASSWORD_LENGTH = 64"

definition RELEASE_NUDGE_MS :: int where "RELEASE_NUDGE_MS = 10 * 60000"

definition RELEASE_NUDGE_AFTER_ERROR_MS :: int where "RELEASE_NUDGE_AFTER_ERROR_MS = 60 * 60000"

definition MAX_AGENT_VERSION_LENGTH :: nat where "MAX_AGENT_VERSION_LENGTH = 32"

definition CLIENT_ID_PATTERN :: "string \<Rightarrow> bool" where
  "CLIENT_ID_PATTERN s =
     (s \<noteq> [] \<and> length s \<le> 64 \<and> (is_upper (hd s) \<or> is_digit (hd s))
      \<and> list_all (\<lambda>c. is_upper c \<or> is_digit c \<or> c = CHR ''_'' \<or> c = CHR ''-'') (tl s))"

subsection \<open>Workstations as the hub knows them\<close>

text \<open>The fields a socket attachment and an HTTP client share, then those of their own.\<close>

record workstation =
  wk_clientNum :: int
  wk_activeUrl :: string
  wk_isLocked :: bool
  wk_ip :: string
  wk_vncPassword :: "string option"
  wk_portal :: portal_context
  wk_imageVersion :: "string option"
  wk_agentVersion :: "string option"
  wk_update :: "update_report option"
  wk_nudgedAt :: "int option"
  wk_nudgedVersion :: "string option"
  wk_lan :: "lan_report option"
  wk_dirty :: bool
  wk_writtenAt :: int

record device_attachment = workstation +
  da_clientId :: string
  da_connectedAt :: int
  da_lanHeldSince :: "int option"
  da_streaming :: bool

record http_client = workstation +
  hc_lastSeen :: int

record console_attachment =
  ca_userId :: string
  ca_watch :: "string list"

datatype attachment = Device device_attachment | Console console_attachment

text \<open>
  A socket: its attachment, when the runtime last answered its ping (0: never), and whether it is
  closing. A closing socket stays listed until its close event; sending on it throws.
\<close>

record socket =
  sk_id :: nat
  sk_attachment :: attachment
  sk_pinged :: int
  sk_closing :: bool

datatype transport = Websocket | Http

record live_status =
  ls_clientId :: string
  ls_clientNum :: int
  ls_activeUrl :: string
  ls_isLocked :: bool
  ls_ip :: string
  ls_vncPassword :: "string option"
  ls_online :: bool
  ls_lastSeen :: int
  ls_transport :: transport
  ls_thumbnail :: "string option"
  ls_imageVersion :: "string option"
  ls_agentVersion :: "string option"
  ls_update :: "update_report option"
  ls_updateWaitingSince :: "int option"

subsection \<open>Configuration\<close>

record hub_config =
  hg_tenant :: tenant
  hg_whitelist :: "string list"
  hg_deviceBroadcasts :: "string \<rightharpoonup> string option \<times> int"
  hg_releases :: "release_offer list"
  hg_pilotGroups :: "(string \<times> string) list"
  hg_power :: "power_rule list \<times> (string \<rightharpoonup> string)"
  hg_printers :: "printer list"
  hg_printerGroups :: "(string \<times> string) list"
  hg_exams :: "exam_window list"
  hg_examGroups :: "(string \<times> string) list"
  hg_unlicensed :: "string \<rightharpoonup> int"
  hg_loadedAt :: int

record workstation_config =
  wc_whitelist :: "string list"
  wc_mode :: kiosk_mode
  wc_targetUrl :: string
  wc_broadcastUrl :: string
  wc_broadcastEpoch :: int
  wc_lanSharing :: bool
  wc_usageSites :: bool
  wc_power :: "power_day option list option"
  wc_printing :: workstation_printing
  wc_homeReset :: bool

definition config_of :: "hub_env \<Rightarrow> platform \<Rightarrow> tenant \<Rightarrow> hub_config" where
  "config_of env p t =
     (let db = pl_db p; i = tn_id t; now = he_now env;
          rels = offeredReleases (pl_releases p) (pl_channel p i) (Some i) (now div 1000) DEFAULT_ARCHITECTURE;
          prs = (if tn_printing_enabled t = 1 then listPrinters (pl_printers p) i else []);
          exs = hubExams db i (now div 1000);
          names = (\<lambda>g. case g of Some n \<Rightarrow> if n = [] then [] else [n] | None \<Rightarrow> [])
      in \<lparr>hg_tenant = t, hg_whitelist = buildEffectiveWhitelist (he_parse env) p i,
          hg_deviceBroadcasts = listDeviceBroadcasts db i, hg_releases = rels,
          hg_pilotGroups = workstationGroupsIn db i (remdups (concat (map (\<lambda>r. names (ro_pilotGroup r)) rels))),
          hg_power = loadPowerRules db i, hg_printers = prs,
          hg_printerGroups = workstationGroupsIn db i (remdups (concat (map (\<lambda>q. names (pr_groupName q)) prs))),
          hg_exams = exs, hg_examGroups = workstationGroupsIn db i (remdups (concat (map (\<lambda>e. names (ew_groupName e)) exs))),
          hg_unlicensed = listUnlicensed db i, hg_loadedAt = now\<rparr>)"

definition examFor :: "hub_config \<Rightarrow> string \<Rightarrow> int \<Rightarrow> exam_window option" where
  "examFor config clientId now =
     find (\<lambda>e. \<not> ew_cancelled e \<and> ew_startsAt e \<le> now \<and> now < ew_endsAt e
       \<and> examCovers (ew_groupName e) (map_of (hg_examGroups config) clientId)) (hg_exams config)"

text \<open>The broadcast that applies: the newer of the organization's and the workstation's own, if its address is sound.\<close>

definition own_broadcast :: "hub_config \<Rightarrow> string \<Rightarrow> string option \<times> int" where
  "own_broadcast config clientId = (case hg_deviceBroadcasts config clientId of Some b \<Rightarrow> b | None \<Rightarrow> (None, 0))"

definition active_broadcast :: "url_parser \<Rightarrow> hub_config \<Rightarrow> string \<Rightarrow> (string \<times> int) option" where
  "active_broadcast parse_url config clientId =
     (let t = hg_tenant config; own = own_broadcast config clientId;
          winner = (if snd own > tn_broadcast_epoch t then own else (tn_broadcast_url t, tn_broadcast_epoch t))
      in if truthy_text (fst winner)
         then map_option (\<lambda>u. (u, snd winner)) (safeHttpUrl parse_url (Some (text_of (fst winner)))) else None)"

definition add_host :: "url_parser \<Rightarrow> string \<Rightarrow> string list \<Rightarrow> string list" where
  "add_host parse_url u whitelist =
     (if u = [] then whitelist
      else case url_host parse_url u of [] \<Rightarrow> whitelist | h # _ \<Rightarrow> if h \<in> set whitelist then whitelist else whitelist @ [h])"

definition no_printing :: workstation_printing where
  "no_printing = \<lparr>wp_enabled = False, wp_printers = []\<rparr>"

text \<open>What the three answers of \<open>configFor\<close> share.\<close>

definition base_config :: "hub_config \<Rightarrow> string \<Rightarrow> workstation_config" where
  "base_config config clientId =
     (let t = hg_tenant config in
      \<lparr>wc_whitelist = [], wc_mode = tn_mode t, wc_targetUrl = [], wc_broadcastUrl = [], wc_broadcastEpoch = 0,
       wc_lanSharing = (tn_lan_sharing t = 1), wc_usageSites = (tn_usage_sites t \<noteq> 0),
       wc_power = effectivePower (fst (hg_power config)) (snd (hg_power config) clientId),
       wc_printing = no_printing, wc_homeReset = False\<rparr>)"

definition notice_url :: "hub_config \<Rightarrow> portal_context \<Rightarrow> string" where
  "notice_url config portal = pc_origin portal @ ''/licence-needed?tenant='' @ encodeURIComponent (tn_subdomain (hg_tenant config))"

definition unlicensed_config :: "url_parser \<Rightarrow> hub_config \<Rightarrow> string \<Rightarrow> portal_context \<Rightarrow> int \<Rightarrow> workstation_config" where
  "unlicensed_config parse_url config clientId portal since =
     (let notice = notice_url config portal in
      (base_config config clientId)\<lparr>wc_whitelist := url_host parse_url notice, wc_targetUrl := notice, wc_broadcastUrl := notice,
         wc_broadcastEpoch := max (since * 1000) (max (tn_broadcast_epoch (hg_tenant config)) (snd (own_broadcast config clientId))) + 1\<rparr>)"

definition exam_config :: "hub_config \<Rightarrow> string \<Rightarrow> exam_window \<Rightarrow> workstation_config" where
  "exam_config config clientId exam =
     (base_config config clientId)\<lparr>wc_whitelist := sort_by text_cmp (ew_hosts exam), wc_targetUrl := ew_url exam,
        wc_broadcastUrl := ew_url exam, wc_broadcastEpoch := examEpoch (ew_startsAt exam)\<rparr>"

definition open_config :: "url_parser \<Rightarrow> hub_config \<Rightarrow> string \<Rightarrow> string \<Rightarrow> workstation_config" where
  "open_config parse_url config clientId portalUrl =
     (let t = hg_tenant config; active = active_broadcast parse_url config clientId in
      (base_config config clientId)\<lparr>
         wc_whitelist := sort_by text_cmp (add_host parse_url portalUrl
           (case active of None \<Rightarrow> hg_whitelist config | Some (u, _) \<Rightarrow> add_host parse_url u (hg_whitelist config))),
         wc_targetUrl := (case active of Some (u, _) \<Rightarrow> (if u = [] then portalUrl else u) | None \<Rightarrow> portalUrl),
         wc_broadcastUrl := (case active of Some (u, _) \<Rightarrow> u | None \<Rightarrow> []),
         wc_broadcastEpoch := (case active of Some (_, e) \<Rightarrow> e | None \<Rightarrow> 0),
         wc_printing := printingFor (tn_printing_enabled t = 1) (hg_printers config) (map_of (hg_printerGroups config) clientId),
         wc_homeReset := (tn_home_reset t \<noteq> 0)\<rparr>)"

text \<open>The configuration of a workstation, and its portal.\<close>

definition configFor :: "hub_env \<Rightarrow> hub_config \<Rightarrow> string \<Rightarrow> portal_context \<Rightarrow> workstation_config \<times> string" where
  "configFor env config clientId portal =
     (let portalUrl = portalUrlFromContext (he_parse env) (hg_tenant config) portal in
      (case hg_unlicensed config clientId of
         Some since \<Rightarrow> unlicensed_config (he_parse env) config clientId portal since
       | None \<Rightarrow>
           (case examFor config clientId (he_now env div 1000) of
              Some exam \<Rightarrow> exam_config config clientId exam
            | None \<Rightarrow> open_config (he_parse env) config clientId portalUrl),
       portalUrl))"

subsection \<open>Updates\<close>

definition releaseNudgeTarget ::
  "release_offer list \<Rightarrow> update_report option \<Rightarrow> string option \<Rightarrow> string option \<Rightarrow> release_offer option" where
  "releaseNudgeTarget rels update imageVersion grp =
     (case update of
        None \<Rightarrow> None
      | Some u \<Rightarrow>
          if up_phase u = Live then None
          else if \<not> known_version imageVersion then None
          else (case updateTargetFor rels imageVersion grp of
            None \<Rightarrow> None
          | Some target \<Rightarrow>
              let holding = (up_phase u = Ready \<or> up_phase u = Staged) in
              if up_phase u \<in> {Checking, Downloading, Installing} then None
              else if holding \<and> up_version u = Some (ro_version target)
              then (if up_phase u = Ready \<and> up_kind u = Some (ro_kind target) \<and> installsByItself target imageVersion then Some target else None)
              else if holding \<and> up_kind u = None \<and> up_version u = map_option ro_version (newestOffered rels grp) then None
              else Some target))"

definition installTargetFor :: "release_offer list \<Rightarrow> live_status option \<Rightarrow> string option \<Rightarrow> release_offer option" where
  "installTargetFor rels status grp =
     (let newest = newestOffered rels grp;
          update = (case status of None \<Rightarrow> None | Some s \<Rightarrow> ls_update s);
          running = (case status of None \<Rightarrow> None | Some s \<Rightarrow> ls_imageVersion s)
      in if (case update of None \<Rightarrow> False
             | Some u \<Rightarrow> up_kind u = None \<and> up_phase u = Ready \<and> newest \<noteq> None \<and> up_version u = map_option ro_version newest)
         then newest
         else case updateTargetFor rels running grp of Some t \<Rightarrow> Some t | None \<Rightarrow> newest)"

definition installRefusal :: "live_status option \<Rightarrow> string \<Rightarrow> string option" where
  "installRefusal status version =
     (case status of
        None \<Rightarrow> Some ''Offline''
      | Some s \<Rightarrow>
          if \<not> ls_online s then Some ''Offline''
          else case ls_update s of
            None \<Rightarrow> Some ''Its software is too old to update over the air; reinstall it from a current ISO''
          | Some u \<Rightarrow>
              if up_phase u = Live then Some ''Live session (a USB stick or network boot); update it by re-flashing the stick or the boot server''
              else if up_phase u = Installing then Some ''Already installing''
              else if ls_imageVersion s = Some version then Some ''Already up to date''
              else if up_phase u = Staged \<and> up_version u = Some version then Some ''Installs at its next restart; restart it to install now''
              else if up_phase u = Downloading \<or> up_phase u = Checking then Some ''Still downloading''
              else if up_phase u = Ready \<and> up_version u = Some version then None
              else if up_phase u = Update_error then Some ''Its last download failed''
              else Some ''Has not downloaded this release yet'')"

definition updateFieldsChanged :: "'a workstation_scheme \<Rightarrow> 'b workstation_scheme \<Rightarrow> bool" where
  "updateFieldsChanged a b =
     (wk_imageVersion a \<noteq> wk_imageVersion b \<or> wk_agentVersion a \<noteq> wk_agentVersion b
      \<or> \<not> sameUpdateReport (wk_update a) (wk_update b) \<or> \<not> sameLanReport (wk_lan a) (wk_lan b))"

text \<open>\<open>releaseNudgeDue\<close>: the release to remind of now, and the key its reminders are throttled by.\<close>

definition nudge_key :: "update_report option \<Rightarrow> release_offer \<Rightarrow> string" where
  "nudge_key update target =
     (if (case update of None \<Rightarrow> False | Some u \<Rightarrow> up_phase u = Ready \<and> up_version u = Some (ro_version target))
      then ro_version target @ '':stage'' else ro_version target)"

definition releaseNudgeDue :: "hub_env \<Rightarrow> hub_config option \<Rightarrow> 'a workstation_scheme \<Rightarrow> string \<Rightarrow> (release_offer \<times> string) option" where
  "releaseNudgeDue env config wk clientId =
     (case config of
        None \<Rightarrow> None
      | Some cfg \<Rightarrow>
          (case releaseNudgeTarget (hg_releases cfg) (wk_update wk) (wk_imageVersion wk) (map_of (hg_pilotGroups cfg) clientId) of
             None \<Rightarrow> None
           | Some target \<Rightarrow>
               let key = nudge_key (wk_update wk) target;
                   wait = (if map_option up_phase (wk_update wk) = Some Update_error then RELEASE_NUDGE_AFTER_ERROR_MS else RELEASE_NUDGE_MS)
               in if wk_nudgedVersion wk = Some key \<and> truthy_int (wk_nudgedAt wk)
                     \<and> (case wk_nudgedAt wk of None \<Rightarrow> False | Some t \<Rightarrow> he_now env - t < wait)
                  then None else Some (target, key)))"

subsection \<open>Frames and reported state\<close>

text \<open>\<open>acceptableFrame\<close>\<close>

definition acceptableFrame :: "json \<Rightarrow> string option" where
  "acceptableFrame v =
     (case v of
        JStr s \<Rightarrow>
          if \<not> startsWith s ''data:image/jpeg;base64,'' \<and> \<not> startsWith s ''data:image/png;base64,'' then None
          else if length s > MAX_FRAME_BYTES then None else Some s
      | _ \<Rightarrow> None)"

text \<open>The state a workstation reports, laid over what was known of it (\<open>previous\<close>).\<close>

definition agent_char :: "char \<Rightarrow> bool" where
  "agent_char c = (is_digit c \<or> is_letter c \<or> c \<in> {CHR ''.'', CHR ''+'', CHR ''-''})"

definition reported_num :: "hub_env \<Rightarrow> json \<Rightarrow> int \<Rightarrow> int" where
  "reported_num env v previous = (case he_integer env v of Some n \<Rightarrow> if 0 < n \<and> n < 100000 then n else previous | None \<Rightarrow> previous)"

definition reported_url :: "hub_env \<Rightarrow> json \<Rightarrow> string \<Rightarrow> string" where
  "reported_url env v previous =
     or_text (safeHttpUrl (he_parse env) (Some (string_nullish v))) previous"

definition reported_vnc :: "json \<Rightarrow> string option \<Rightarrow> string option" where
  "reported_vnc v previous = (case v of JStr s \<Rightarrow> if trim s = [] then previous else Some (take MAX_VNC_PASSWORD_LENGTH (trim s)) | _ \<Rightarrow> previous)"

definition reported_agent :: "json \<Rightarrow> string option \<Rightarrow> string option" where
  "reported_agent v previous =
     (case v of JStr s \<Rightarrow> if s \<noteq> [] \<and> length s \<le> 32 \<and> list_all agent_char s then Some (take MAX_AGENT_VERSION_LENGTH s) else previous | _ \<Rightarrow> previous)"

definition normalizeStatus :: "hub_env \<Rightarrow> json \<Rightarrow> 'a workstation_scheme \<Rightarrow> 'a workstation_scheme" where
  "normalizeStatus env payload previous =
     previous\<lparr>wk_clientNum := reported_num env (field payload ''clientNum'') (wk_clientNum previous),
       wk_activeUrl := reported_url env (field payload ''activeUrl'') (wk_activeUrl previous),
       wk_isLocked := (case field payload ''isLocked'' of JBool b \<Rightarrow> b | _ \<Rightarrow> wk_isLocked previous),
       wk_vncPassword := reported_vnc (field payload ''vncPassword'') (wk_vncPassword previous),
       wk_imageVersion := coalesce (is_release_version (field payload ''imageVersion'')) (wk_imageVersion previous),
       wk_agentVersion := reported_agent (field payload ''agentVersion'') (wk_agentVersion previous),
       wk_update := coalesce (normalizeUpdateReport (he_floor env) (field payload ''update'')) (wk_update previous),
       wk_lan := (if field payload ''lan'' = JUndefined then wk_lan previous else normalizeLanReport (field payload ''lan''))\<rparr>"

end
