(* ===== verification/Hub_Ops.thy ===== *)
theory Hub_Ops
  imports Hub_Model
begin

text \<open>
  The organization hub's operations (\<open>src/cloudflare-control/src/org_hub.ts\<close>): connections, the
  command queue, remote-control seats, consoles and frames, exams, updates and the alarm. Each is a
  function of the environment and the hub's state. What the hub sends is logged in \<open>hb_sent\<close>, and the
  commands it hands a workstation, over a socket or in an answer, in \<open>hb_handed\<close>; the
  metrics \<open>recordEvent\<close> writes and the console log change nothing and are left out.
\<close>

subsection \<open>State\<close>

datatype command_action =
    Lock | Unlock | Navigate | Reload | Reboot | Shutdown | Clear_session | Mute
  | Release_available | Install_update | Wake

record payload =
  py_url :: "string option"
  py_message :: "string option"
  py_epoch :: "int option"
  py_version :: "string option"
  py_macs :: "string list"
  py_portal :: bool

record command_row =
  cm_id :: string
  cm_target :: string
  cm_action :: command_action
  cm_payload :: payload
  cm_created_at :: int
  cm_expires_at :: int

record queued_command =
  qc_id :: string
  qc_target :: string
  qc_action :: command_action
  qc_url :: "string option"
  qc_message :: "string option"
  qc_epoch :: "int option"
  qc_version :: "string option"
  qc_macs :: "string list"
  qc_timestamp :: int

record seat_row =
  st_client_id :: string
  st_user_id :: string
  st_ends_at :: int

record enqueue_input =
  eq_targets :: "string list"
  eq_action :: command_action
  eq_payload :: payload
  eq_reloadConfig :: bool

datatype hub_message =
    Config_message workstation_config "queued_command list option"
  | Commands_message "queued_command list"
  | Frames_message bool
  | Remote_message string
  | Pong_message
  | Status_message live_status
  | Removed_message string
  | Snapshot_message "(string \<times> live_status) list"
  | Frame_message string string

record hub =
  hb_tenantId :: "string option"
  hb_config :: "hub_config option"
  hb_http :: "(string \<times> http_client) list"
  hb_frames :: "(string \<times> string) list"
  hb_lastMessage :: "(string \<times> int) list"
  hb_pollWatch :: "(string \<times> int) list"
  hb_attendedUntil :: int
  hb_departed :: "nat list"
  hb_flushed :: "int \<times> int"
  hb_sockets :: "socket list"
  hb_commands :: "command_row list"
  hb_deliveries :: "(string \<times> string) list"
  hb_revoked :: "(string \<times> int) list"
  hb_meta :: "(string \<times> string) list"
  hb_seats :: "seat_row list"
  hb_lastSites :: "(string \<times> string \<times> int) list"
  hb_alarm :: "int option"
  hb_drawn :: nat
  hb_sent :: "(nat \<times> hub_message) list"
  hb_handed :: "(string \<times> string) list"
  hb_platform :: platform

definition no_payload :: payload where
  "no_payload = \<lparr>py_url = None, py_message = None, py_epoch = None, py_version = None, py_macs = [], py_portal = False\<rparr>"

subsection \<open>Sockets\<close>

definition as_device :: "socket \<Rightarrow> device_attachment option" where
  "as_device s = (case sk_attachment s of Device a \<Rightarrow> Some a | Console _ \<Rightarrow> None)"

definition device_sockets :: "hub \<Rightarrow> socket list" where
  "device_sockets h = filter (\<lambda>s. as_device s \<noteq> None) (hb_sockets h)"

definition console_sockets :: "hub \<Rightarrow> socket list" where
  "console_sockets h = filter (\<lambda>s. as_device s = None) (hb_sockets h)"

definition client_sockets :: "hub \<Rightarrow> string \<Rightarrow> socket list" where
  "client_sockets h clientId = filter (\<lambda>s. map_option da_clientId (as_device s) = Some clientId) (hb_sockets h)"

definition socket_of :: "hub \<Rightarrow> nat \<Rightarrow> socket option" where
  "socket_of h i = find (\<lambda>s. sk_id s = i) (hb_sockets h)"

definition deviceAttachment :: "hub \<Rightarrow> nat \<Rightarrow> device_attachment option" where
  "deviceAttachment h i = (case socket_of h i of None \<Rightarrow> None | Some s \<Rightarrow> as_device s)"

definition serializeAttachment :: "nat \<Rightarrow> attachment \<Rightarrow> hub \<Rightarrow> hub" where
  "serializeAttachment i a h = h\<lparr>hb_sockets := tbl_update (\<lambda>s. sk_id s = i) (\<lambda>s. s\<lparr>sk_attachment := a\<rparr>) (hb_sockets h)\<rparr>"

definition close_socket :: "nat \<Rightarrow> hub \<Rightarrow> hub" where
  "close_socket i h = h\<lparr>hb_sockets := tbl_update (\<lambda>s. sk_id s = i) (\<lambda>s. s\<lparr>sk_closing := True\<rparr>) (hb_sockets h)\<rparr>"

text \<open>\<open>ws.send\<close>: throws, and so sends nothing, on a socket that is closing.\<close>

definition can_send :: "hub \<Rightarrow> nat \<Rightarrow> bool" where
  "can_send h i = (case socket_of h i of None \<Rightarrow> False | Some s \<Rightarrow> \<not> sk_closing s)"

definition sendTo :: "nat \<Rightarrow> hub_message \<Rightarrow> hub \<Rightarrow> hub" where
  "sendTo i m h = (if can_send h i then h\<lparr>hb_sent := hb_sent h @ [(i, m)]\<rparr> else h)"

definition notifyConsoles :: "hub_message \<Rightarrow> hub \<Rightarrow> hub" where
  "notifyConsoles m h = fold (\<lambda>s. sendTo (sk_id s) m) (console_sockets h) h"

definition lastSeenOf :: "hub \<Rightarrow> socket \<Rightarrow> device_attachment \<Rightarrow> int" where
  "lastSeenOf h s a =
     max (da_connectedAt a) (max (sk_pinged s) (case map_of (hb_lastMessage h) (da_clientId a) of Some t \<Rightarrow> t | None \<Rightarrow> 0))"

text \<open>A JavaScript \<open>Map\<close>: \<open>set\<close> keeps the position of a key it has.\<close>

definition map_set :: "'k \<Rightarrow> 'v \<Rightarrow> ('k \<times> 'v) list \<Rightarrow> ('k \<times> 'v) list" where
  "map_set k v m = tbl_upsert fst (k, v) m"

definition map_delete :: "'k \<Rightarrow> ('k \<times> 'v) list \<Rightarrow> ('k \<times> 'v) list" where
  "map_delete k m = tbl_delete fst k m"

subsection \<open>Meta, alarm, binding\<close>

definition readMeta :: "hub \<Rightarrow> string \<Rightarrow> string option" where
  "readMeta h key = map_of (hb_meta h) key"

definition writeMeta :: "string \<Rightarrow> string \<Rightarrow> hub \<Rightarrow> hub" where
  "writeMeta key value h = h\<lparr>hb_meta := map_delete key (hb_meta h) @ [(key, value)]\<rparr>"

definition ensureAlarm :: "hub_env \<Rightarrow> int \<Rightarrow> hub \<Rightarrow> hub" where
  "ensureAlarm env delayMs h =
     (let due = he_now env + delayMs in
      if (case hb_alarm h of None \<Rightarrow> True | Some current \<Rightarrow> current > due) then h\<lparr>hb_alarm := Some due\<rparr> else h)"

definition bind_hub :: "string \<Rightarrow> hub \<Rightarrow> bool \<times> hub" where
  "bind_hub tenantId h =
     (if tenantId = [] then (False, h)
      else case hb_tenantId h of
        Some t \<Rightarrow> if t = [] then (True, writeMeta ''tenantId'' tenantId (h\<lparr>hb_tenantId := Some tenantId\<rparr>)) else (t = tenantId, h)
      | None \<Rightarrow> (True, writeMeta ''tenantId'' tenantId (h\<lparr>hb_tenantId := Some tenantId\<rparr>)))"

definition isRevoked :: "hub \<Rightarrow> string \<Rightarrow> bool" where
  "isRevoked h clientId = (clientId \<in> fst ` set (hb_revoked h))"

subsection \<open>Configuration\<close>

definition loadConfig :: "hub_env \<Rightarrow> bool \<Rightarrow> hub \<Rightarrow> hub_config option \<times> hub" where
  "loadConfig env force h =
     (if \<not> force \<and> (case hb_config h of None \<Rightarrow> False | Some c \<Rightarrow> he_now env - hg_loadedAt c < CONFIG_TTL_MS)
      then (hb_config h, h)
      else let c = map_option (config_of env (hb_platform h)) (findTenantById (pl_db (hb_platform h)) (text_of (hb_tenantId h)))
           in (c, h\<lparr>hb_config := c\<rparr>))"

definition config_active :: "hub_config option \<Rightarrow> bool" where
  "config_active c = (case c of None \<Rightarrow> False | Some cfg \<Rightarrow> tn_status (hg_tenant cfg) = Active)"

definition refusalFor :: "hub_env \<Rightarrow> string \<Rightarrow> hub \<Rightarrow> refusal option \<times> hub" where
  "refusalFor env clientId h =
     (if isRevoked h clientId then (Some (''This workstation has been removed'', 401), h)
      else let (c, h') = loadConfig env False h in
           if \<not> config_active c then (Some (''This organization is not active'', 403), h') else (None, h'))"

subsection \<open>Live status\<close>

definition statusOf :: "device_attachment \<Rightarrow> int \<Rightarrow> bool \<Rightarrow> live_status" where
  "statusOf a lastSeen online =
     \<lparr>ls_clientId = da_clientId a, ls_clientNum = wk_clientNum a, ls_activeUrl = wk_activeUrl a, ls_isLocked = wk_isLocked a,
      ls_ip = wk_ip a, ls_vncPassword = wk_vncPassword a, ls_online = online, ls_lastSeen = lastSeen, ls_transport = Websocket,
      ls_thumbnail = None, ls_imageVersion = wk_imageVersion a, ls_agentVersion = wk_agentVersion a, ls_update = wk_update a,
      ls_updateWaitingSince = (if truthy_int (da_lanHeldSince a) then da_lanHeldSince a else None)\<rparr>"

definition httpStatus :: "string \<Rightarrow> http_client \<Rightarrow> int \<Rightarrow> live_status" where
  "httpStatus clientId c now =
     \<lparr>ls_clientId = clientId, ls_clientNum = wk_clientNum c, ls_activeUrl = wk_activeUrl c, ls_isLocked = wk_isLocked c,
      ls_ip = wk_ip c, ls_vncPassword = wk_vncPassword c, ls_online = (now - hc_lastSeen c < HTTP_ONLINE_MS),
      ls_lastSeen = hc_lastSeen c, ls_transport = Http, ls_thumbnail = None, ls_imageVersion = wk_imageVersion c,
      ls_agentVersion = wk_agentVersion c, ls_update = wk_update c, ls_updateWaitingSince = None\<rparr>"

definition socket_status :: "hub \<Rightarrow> int \<Rightarrow> socket \<Rightarrow> (string \<times> live_status) list" where
  "socket_status h now s =
     (case as_device s of
        None \<Rightarrow> []
      | Some a \<Rightarrow>
          if isRevoked h (da_clientId a) then []
          else let seen = lastSeenOf h s a in [(da_clientId a, statusOf a seen (now - seen < SOCKET_STALE_MS))])"

definition with_frame :: "(string \<times> string) list \<Rightarrow> string \<times> live_status \<Rightarrow> string \<times> live_status" where
  "with_frame frames c =
     (if ls_online (snd c) then (fst c, (snd c)\<lparr>ls_thumbnail := map_of frames (fst c)\<rparr>) else c)"

definition liveClients :: "hub_env \<Rightarrow> bool \<Rightarrow> hub \<Rightarrow> (string \<times> live_status) list" where
  "liveClients env withFrames h =
     (let socks = fold (\<lambda>(k, v). map_set k v) (concat (map (socket_status h (he_now env)) (device_sockets h))) [];
          clients = socks @ map (\<lambda>(i, c). (i, httpStatus i c (he_now env))) (filter (\<lambda>(i, _). i \<notin> fst ` set socks) (hb_http h))
      in if withFrames then map (with_frame (hb_frames h)) clients else clients)"

definition registryRow :: "hub \<Rightarrow> string \<Rightarrow> 'a workstation_scheme \<Rightarrow> int \<Rightarrow> int \<Rightarrow> registry_row" where
  "registryRow h clientId w lastSeenMs now =
     \<lparr>rg_tenant_id = text_of (hb_tenantId h), rg_client_id = clientId, rg_client_num = wk_clientNum w,
      rg_ip = (if wk_ip w = [] then None else Some (wk_ip w)), rg_is_locked = wk_isLocked w,
      rg_active_url = (if wk_activeUrl w = [] then None else Some (wk_activeUrl w)), rg_vnc_password = wk_vncPassword w,
      rg_last_seen = lastSeenMs div 1000, rg_image_version = wk_imageVersion w, rg_agent_version = wk_agentVersion w,
      rg_update = wk_update w, rg_updated_at = now div 1000\<rparr>"

definition writeRegistry :: "registry_row list \<Rightarrow> hub \<Rightarrow> hub" where
  "writeRegistry rows h =
     h\<lparr>hb_platform := upsertDeviceRegistry (filter (\<lambda>r. \<not> isRevoked h (rg_client_id r)) rows) (hb_platform h)\<rparr>"

subsection \<open>Commands\<close>

definition queued :: "string \<Rightarrow> command_row \<Rightarrow> queued_command" where
  "queued portalUrl row =
     (let p = cm_payload row in
      \<lparr>qc_id = cm_id row, qc_target = cm_target row, qc_action = cm_action row,
       qc_url = (if py_portal p then Some portalUrl else py_url p), qc_message = py_message p, qc_epoch = py_epoch p,
       qc_version = (if truthy_text (py_version p) then py_version p else None),
       qc_macs = filter (\<lambda>m. isWakeableMac (JStr m)) (py_macs p), qc_timestamp = cm_created_at row\<rparr>)"

definition due_commands :: "hub \<Rightarrow> string \<Rightarrow> int \<Rightarrow> command_row list" where
  "due_commands h clientId now =
     sort_by (\<lambda>a b. cm_created_at a - cm_created_at b)
       (filter (\<lambda>c. (cm_target c = ''all'' \<or> cm_target c = clientId) \<and> cm_expires_at c > now
          \<and> (cm_id c, clientId) \<notin> set (hb_deliveries h)) (hb_commands h))"

definition mark_delivered :: "string \<Rightarrow> command_row \<Rightarrow> hub \<Rightarrow> hub" where
  "mark_delivered clientId row h =
     (if cm_target row = clientId then h\<lparr>hb_commands := tbl_delete cm_id (cm_id row) (hb_commands h)\<rparr>
      else h\<lparr>hb_deliveries := tbl_insert_or_ignore (\<lambda>d. d) (cm_id row, clientId) (hb_deliveries h)\<rparr>)"

definition pendingFor :: "hub_env \<Rightarrow> string \<Rightarrow> string \<Rightarrow> hub \<Rightarrow> queued_command list \<times> hub" where
  "pendingFor env clientId portalUrl h =
     (let rows = due_commands h clientId (he_now env div 1000)
      in (map (queued portalUrl) rows,
          fold (mark_delivered clientId) rows (h\<lparr>hb_handed := hb_handed h @ map (\<lambda>c. (clientId, cm_id c)) rows\<rparr>)))"

definition purgeExpiredCommands :: "hub_env \<Rightarrow> hub \<Rightarrow> hub" where
  "purgeExpiredCommands env h =
     (let now = he_now env div 1000; gone = map cm_id (filter (\<lambda>c. cm_expires_at c \<le> now) (hb_commands h))
      in h\<lparr>hb_deliveries := filter (\<lambda>d. fst d \<notin> set gone) (hb_deliveries h),
           hb_commands := filter (\<lambda>c. \<not> cm_expires_at c \<le> now) (hb_commands h)\<rparr>)"

definition add_command :: "hub_env \<Rightarrow> enqueue_input \<Rightarrow> string \<Rightarrow> string list \<times> hub \<Rightarrow> string list \<times> hub" where
  "add_command env input target = (\<lambda>(ids, h).
     let i = he_uuid env (hb_drawn h); now = he_now env div 1000 in
     (ids @ [i], h\<lparr>hb_drawn := hb_drawn h + 1,
        hb_commands := hb_commands h @ [\<lparr>cm_id = i, cm_target = target, cm_action = eq_action input,
          cm_payload = eq_payload input, cm_created_at = now, cm_expires_at = now + COMMAND_TTL_SECONDS\<rparr>]\<rparr>))"

text \<open>Hand a connected workstation what waits for it.\<close>

definition deliver_now :: "hub_env \<Rightarrow> hub_config option \<Rightarrow> nat \<Rightarrow> hub \<Rightarrow> hub" where
  "deliver_now env config i h =
     (case (deviceAttachment h i, config) of
        (Some a, Some c) \<Rightarrow>
          let (commands, h') = pendingFor env (da_clientId a) (snd (configFor env c (da_clientId a) (wk_portal a))) h
          in if commands = [] then h' else sendTo i (Commands_message commands) h'
      | _ \<Rightarrow> h)"

definition show_lock :: "hub_env \<Rightarrow> bool \<Rightarrow> nat \<Rightarrow> hub \<Rightarrow> hub" where
  "show_lock env locked i h =
     (case deviceAttachment h i of
        None \<Rightarrow> h
      | Some a \<Rightarrow>
          if wk_isLocked a = locked then h
          else let a' = a\<lparr>wk_isLocked := locked, wk_dirty := True\<rparr>
               in notifyConsoles (Status_message (statusOf a' (he_now env) True)) (serializeAttachment i (Device a') h))"

definition lock_http :: "bool \<Rightarrow> string list \<Rightarrow> hub \<Rightarrow> hub" where
  "lock_http locked targets h =
     h\<lparr>hb_http := map (\<lambda>(i, c). (i, if ''all'' \<in> set targets \<or> i \<in> set targets then c\<lparr>wk_isLocked := locked\<rparr> else c)) (hb_http h)\<rparr>"

definition addressed :: "string list \<Rightarrow> hub \<Rightarrow> nat list" where
  "addressed targets h =
     (if ''all'' \<in> set targets then map sk_id (device_sockets h)
      else concat (map (\<lambda>t. map sk_id (client_sockets h t)) targets))"

definition enqueue :: "hub_env \<Rightarrow> enqueue_input \<Rightarrow> hub \<Rightarrow> string list \<times> hub" where
  "enqueue env input h =
     (let targets = filter (\<lambda>t. t \<noteq> []) (eq_targets input) in
      if targets = [] then ([], h)
      else let h1 = (if eq_reloadConfig input then snd (loadConfig env True h) else h);
               (ids, h2) = fold (add_command env input) targets ([], h1);
               socks = addressed targets h2;
               (config, h3) = loadConfig env False h2;
               h4 = fold (deliver_now env config) socks h3;
               h5 = (if eq_action input = Lock \<or> eq_action input = Unlock
                     then lock_http (eq_action input = Lock) targets (fold (show_lock env (eq_action input = Lock)) socks h4) else h4)
           in (ids, ensureAlarm env FLUSH_DELAY_MS h5))"

definition enqueue_simple :: "hub_env \<Rightarrow> string list \<Rightarrow> command_action \<Rightarrow> payload \<Rightarrow> hub \<Rightarrow> hub" where
  "enqueue_simple env targets action p h =
     snd (enqueue env \<lparr>eq_targets = targets, eq_action = action, eq_payload = p, eq_reloadConfig = False\<rparr> h)"

subsection \<open>Remote control\<close>

definition remoteOpen :: "string \<Rightarrow> string \<Rightarrow> hub \<Rightarrow> bool \<times> hub" where
  "remoteOpen clientId sess h =
     (if \<not> CLIENT_ID_PATTERN clientId \<or> \<not> (length sess = 64 \<and> list_all is_lower_hex sess) then (False, h)
      else case client_sockets h clientId of
             [] \<Rightarrow> (False, h)
           | s # _ \<Rightarrow> (can_send h (sk_id s), sendTo (sk_id s) (Remote_message sess) h))"

definition remoteSeatHolders :: "hub_env \<Rightarrow> string \<Rightarrow> hub \<Rightarrow> string list \<times> hub" where
  "remoteSeatHolders env ex h =
     (let rows = filter (\<lambda>s. \<not> st_ends_at s \<le> he_now env div 1000) (hb_seats h)
      in (map st_client_id (filter (\<lambda>s. st_client_id s \<noteq> ex) rows), h\<lparr>hb_seats := rows\<rparr>))"

definition holdRemoteSeat :: "string \<Rightarrow> string \<Rightarrow> int \<Rightarrow> hub \<Rightarrow> hub" where
  "holdRemoteSeat clientId userId endsAt h =
     (if \<not> CLIENT_ID_PATTERN clientId \<or> userId = [] \<or> endsAt \<le> 0 then h
      else h\<lparr>hb_seats := tbl_upsert st_client_id \<lparr>st_client_id = clientId, st_user_id = userId, st_ends_at = endsAt\<rparr> (hb_seats h)\<rparr>)"

definition releaseRemoteSeat :: "string \<Rightarrow> hub \<Rightarrow> hub" where
  "releaseRemoteSeat clientId h = h\<lparr>hb_seats := tbl_delete st_client_id clientId (hb_seats h)\<rparr>"

definition releaseAllRemoteSeats :: "hub \<Rightarrow> string list \<times> hub" where
  "releaseAllRemoteSeats h = (map st_client_id (hb_seats h), h\<lparr>hb_seats := []\<rparr>)"

datatype remote_answer = Remote_ok | Seats_in_use int "string list" | Not_connected

text \<open>The route \<open>/remote-open\<close>; \<open>seats\<close> and \<open>endsAt\<close> are \<open>None\<close> where they are no integer.\<close>

definition remote_open_route ::
  "hub_env \<Rightarrow> string \<Rightarrow> string \<Rightarrow> string \<Rightarrow> int option \<Rightarrow> int option \<Rightarrow> hub \<Rightarrow> remote_answer \<times> hub" where
  "remote_open_route env clientId sess userId seats endsAt h =
     (let limited = (case seats of None \<Rightarrow> False | Some n \<Rightarrow> n > 0);
          (holders, h1) = (if limited then remoteSeatHolders env clientId h else ([], h))
      in if limited \<and> (case seats of None \<Rightarrow> False | Some n \<Rightarrow> int (length holders) \<ge> n)
         then (Seats_in_use (case seats of Some n \<Rightarrow> n | None \<Rightarrow> 0) holders, h1)
         else let (delivered, h2) = remoteOpen clientId sess h1 in
              if \<not> delivered then (Not_connected, h2)
              else (Remote_ok, holdRemoteSeat clientId userId (case endsAt of Some e \<Rightarrow> e | None \<Rightarrow> 0) h2))"


subsection \<open>Consoles and frames\<close>

text \<open>The elements of a \<open>Set\<close> built from a list, in insertion order.\<close>

definition unique :: "'a list \<Rightarrow> 'a list" where
  "unique xs = rev (remdups (rev xs))"

definition client_ids :: "json \<Rightarrow> string list" where
  "client_ids raw = (case raw of JArr xs \<Rightarrow> filter CLIENT_ID_PATTERN (unique (map js_string xs)) | _ \<Rightarrow> [])"

definition watch_of :: "socket \<Rightarrow> string list" where
  "watch_of s = (case sk_attachment s of Console c \<Rightarrow> ca_watch c | Device _ \<Rightarrow> [])"

definition watchedIds :: "hub_env \<Rightarrow> nat option \<Rightarrow> hub \<Rightarrow> string list \<times> hub" where
  "watchedIds env excluding h =
     (let live = filter (\<lambda>(_, until). until > he_now env) (hb_pollWatch h)
      in (concat (map watch_of (filter (\<lambda>s. Some (sk_id s) \<noteq> excluding) (console_sockets h))) @ map fst live,
          h\<lparr>hb_pollWatch := live\<rparr>))"

definition stream_one :: "string list \<Rightarrow> nat \<Rightarrow> hub \<Rightarrow> hub" where
  "stream_one watched i h =
     (case deviceAttachment h i of
        None \<Rightarrow> h
      | Some a \<Rightarrow>
          let want = da_clientId a \<in> set watched;
              h1 = (if da_streaming a \<noteq> want
                    then sendTo i (Frames_message want) (serializeAttachment i (Device (a\<lparr>da_streaming := want\<rparr>)) h) else h)
          in if want then h1 else h1\<lparr>hb_frames := map_delete (da_clientId a) (hb_frames h1)\<rparr>)"

definition updateStreaming :: "hub_env \<Rightarrow> nat option \<Rightarrow> hub \<Rightarrow> hub" where
  "updateStreaming env closing h =
     (let (watched, h1) = watchedIds env closing h in fold (stream_one watched) (map sk_id (device_sockets h1)) h1)"

definition relayFrame :: "string \<Rightarrow> string \<Rightarrow> hub \<Rightarrow> hub" where
  "relayFrame clientId frame h =
     (let h1 = h\<lparr>hb_frames := map_set clientId frame (hb_frames h)\<rparr> in
      fold (\<lambda>s. sendTo (sk_id s) (Frame_message clientId frame)) (filter (\<lambda>s. clientId \<in> set (watch_of s)) (console_sockets h1)) h1)"

definition acceptConsole :: "hub_env \<Rightarrow> nat \<Rightarrow> string \<Rightarrow> hub \<Rightarrow> hub" where
  "acceptConsole env i userId h =
     (let s = \<lparr>sk_id = i, sk_attachment = Console \<lparr>ca_userId = userId, ca_watch = []\<rparr>, sk_pinged = 0, sk_closing = False\<rparr>;
          h1 = h\<lparr>hb_sockets := hb_sockets h @ [s]\<rparr>
      in ensureAlarm env CONSOLE_SWEEP_MS (sendTo i (Snapshot_message (liveClients env False h1)) h1))"

definition send_known_frame :: "nat \<Rightarrow> string \<Rightarrow> hub \<Rightarrow> hub" where
  "send_known_frame i c h =
     (case map_of (hb_frames h) c of
        Some frame \<Rightarrow> if frame = [] then h else sendTo i (Frame_message c frame) h
      | None \<Rightarrow> h)"

definition setConsoleWatch :: "hub_env \<Rightarrow> nat \<Rightarrow> console_attachment \<Rightarrow> json \<Rightarrow> hub \<Rightarrow> hub" where
  "setConsoleWatch env i att raw h =
     (let watch = (case raw of JArr xs \<Rightarrow> take MAX_WATCHED (unique (filter CLIENT_ID_PATTERN (map js_string xs))) | _ \<Rightarrow> []);
          h1 = serializeAttachment i (Console (att\<lparr>ca_watch := watch\<rparr>)) h
      in updateStreaming env None (fold (send_known_frame i) (filter (\<lambda>c. c \<notin> set (ca_watch att)) watch) h1))"

definition leasePollWatch :: "hub_env \<Rightarrow> json \<Rightarrow> hub \<Rightarrow> hub" where
  "leasePollWatch env raw h =
     (case raw of
        JArr xs \<Rightarrow>
          let ids = filter CLIENT_ID_PATTERN (map js_string (take MAX_WATCHED xs));
              h1 = h\<lparr>hb_pollWatch := fold (\<lambda>c. map_set c (he_now env + POLL_WATCH_LEASE_MS)) ids (hb_pollWatch h)\<rparr>
          in ensureAlarm env (POLL_WATCH_LEASE_MS + 1000) (updateStreaming env None h1)
      | _ \<Rightarrow> h)"

definition httpHeartbeatSeconds :: "hub_env \<Rightarrow> hub \<Rightarrow> int" where
  "httpHeartbeatSeconds env h =
     (if he_now env < hb_attendedUntil h \<or> console_sockets h \<noteq> [] then HTTP_HEARTBEAT_ATTENDED_SECONDS else HTTP_HEARTBEAT_IDLE_SECONDS)"

subsection \<open>Releases for workstations\<close>

definition member_of :: "device_attachment \<Rightarrow> site_member" where
  "member_of a = \<lparr>sm_clientId = da_clientId a, sm_ip = wk_ip a, sm_lan = wk_lan a, sm_update = wk_update a,
     sm_nudgedAt = wk_nudgedAt a, sm_nudgedVersion = wk_nudgedVersion a\<rparr>"

definition siteMembers :: "hub_env \<Rightarrow> hub \<Rightarrow> site_member list" where
  "siteMembers env h =
     concat (map (\<lambda>s. case as_device s of None \<Rightarrow> []
       | Some a \<Rightarrow> if he_now env - lastSeenOf h s a < SOCKET_STALE_MS then [member_of a] else []) (hb_sockets h))"

definition shares_lan :: "hub \<Rightarrow> bool" where
  "shares_lan h = (case hb_config h of None \<Rightarrow> False | Some c \<Rightarrow> tn_lan_sharing (hg_tenant c) = 1)"

text \<open>Whether the workstation waits for its site, and the state after.\<close>

definition waitForSite :: "hub_env \<Rightarrow> nat \<Rightarrow> device_attachment \<Rightarrow> string \<Rightarrow> hub \<Rightarrow> bool \<times> hub" where
  "waitForSite env i a version h =
     (if \<not> shares_lan h then (False, h)
      else if lanDecision (member_of a) version (siteMembers env h) (da_lanHeldSince a) (he_now env) = Go then (False, h)
      else let waiting = a\<lparr>da_lanHeldSince := Some (he_now env)\<rparr>;
               h1 = (if truthy_int (da_lanHeldSince a) then h
                     else notifyConsoles (Status_message (statusOf waiting (he_now env) True)) (serializeAttachment i (Device waiting) h))
           in (True, ensureAlarm env LAN_HOLD_MAX_MS h1))"

definition tell_payload :: "string option \<Rightarrow> payload" where
  "tell_payload version = no_payload\<lparr>py_version := version\<rparr>"

definition tellOfRelease :: "hub_env \<Rightarrow> nat \<Rightarrow> device_attachment \<Rightarrow> string \<Rightarrow> string \<Rightarrow> hub \<Rightarrow> hub" where
  "tellOfRelease env i a key version h =
     enqueue_simple env [da_clientId a] Release_available (tell_payload (Some version))
       (serializeAttachment i (Device (a\<lparr>wk_nudgedAt := Some (he_now env), wk_nudgedVersion := Some key, da_lanHeldSince := None\<rparr>)) h)"

definition nudgeSocket :: "hub_env \<Rightarrow> nat \<Rightarrow> device_attachment \<Rightarrow> hub \<Rightarrow> hub" where
  "nudgeSocket env i a h =
     (case releaseNudgeDue env (hb_config h) a (da_clientId a) of
        None \<Rightarrow> if truthy_int (da_lanHeldSince a) then serializeAttachment i (Device (a\<lparr>da_lanHeldSince := None\<rparr>)) h else h
      | Some (release, key) \<Rightarrow>
          let (waits, h1) = (if key = ro_version release then waitForSite env i a (ro_version release) h else (False, h))
          in if waits then h1 else tellOfRelease env i a key (ro_version release) h1)"

definition nudge_device :: "hub_env \<Rightarrow> nat \<Rightarrow> hub \<Rightarrow> hub" where
  "nudge_device env i h = (case deviceAttachment h i of None \<Rightarrow> h | Some a \<Rightarrow> nudgeSocket env i a h)"

definition waits_at :: "hub \<Rightarrow> string \<Rightarrow> string \<Rightarrow> nat \<Rightarrow> bool" where
  "waits_at h site changed i =
     (case deviceAttachment h i of None \<Rightarrow> False
      | Some a \<Rightarrow> da_clientId a \<noteq> changed \<and> truthy_int (da_lanHeldSince a) \<and> siteKey (wk_ip a) (wk_lan a) = Some site)"

definition nudgeSite :: "hub_env \<Rightarrow> string option \<Rightarrow> string \<Rightarrow> nat option \<Rightarrow> hub \<Rightarrow> hub" where
  "nudgeSite env site changed ex h =
     (case site of
        None \<Rightarrow> h
      | Some st \<Rightarrow>
          if \<not> shares_lan h then h
          else fold (\<lambda>i h. if waits_at h st changed i then nudge_device env i h else h)
                 (filter (\<lambda>i. Some i \<noteq> ex) (map sk_id (device_sockets h))) h)"

definition waited_long :: "hub_env \<Rightarrow> hub \<Rightarrow> nat \<Rightarrow> bool" where
  "waited_long env h i =
     (case deviceAttachment h i of None \<Rightarrow> False
      | Some a \<Rightarrow> truthy_int (da_lanHeldSince a)
          \<and> (case da_lanHeldSince a of None \<Rightarrow> False | Some t \<Rightarrow> he_now env - t \<ge> LAN_HOLD_MAX_MS))"

definition nudgeWaiting :: "hub_env \<Rightarrow> hub \<Rightarrow> hub" where
  "nudgeWaiting env h =
     fold (\<lambda>i h. if waited_long env h i then nudge_device env i h else h) (map sk_id (device_sockets h)) h"

definition nextWaitEnd :: "hub \<Rightarrow> int option" where
  "nextWaitEnd h =
     (let sinces = concat (map (\<lambda>s. case as_device s of None \<Rightarrow> []
            | Some a \<Rightarrow> (case da_lanHeldSince a of Some t \<Rightarrow> if t = 0 then [] else [t + LAN_HOLD_MAX_MS] | None \<Rightarrow> [])) (device_sockets h))
      in if sinces = [] then None else Some (Min (set sinces)))"

definition nudgeHttp :: "hub_env \<Rightarrow> string \<Rightarrow> hub \<Rightarrow> hub" where
  "nudgeHttp env clientId h =
     (case map_of (hb_http h) clientId of
        None \<Rightarrow> h
      | Some c \<Rightarrow>
          (case releaseNudgeDue env (hb_config h) c clientId of
             None \<Rightarrow> h
           | Some (release, key) \<Rightarrow>
               enqueue_simple env [clientId] Release_available (tell_payload (Some (ro_version release)))
                 (h\<lparr>hb_http := map_set clientId (c\<lparr>wk_nudgedAt := Some (he_now env), wk_nudgedVersion := Some key\<rparr>) (hb_http h)\<rparr>)))"

subsection \<open>A change of configuration, exams\<close>

definition send_config :: "hub_env \<Rightarrow> hub_config \<Rightarrow> nat \<Rightarrow> hub \<Rightarrow> hub" where
  "send_config env config i h =
     (case deviceAttachment h i of
        None \<Rightarrow> h
      | Some a \<Rightarrow> sendTo i (Config_message (fst (configFor env config (da_clientId a) (wk_portal a))) None) h)"

definition configChanged :: "hub_env \<Rightarrow> hub \<Rightarrow> hub" where
  "configChanged env h =
     (let (c, h1) = loadConfig env True h; socks = map sk_id (device_sockets h1) in
      case c of
        None \<Rightarrow> fold close_socket socks h1
      | Some cfg \<Rightarrow>
          if tn_status (hg_tenant cfg) \<noteq> Active then fold close_socket socks h1
          else let h2 = fold (send_config env cfg) socks h1;
                   h3 = fold (nudge_device env) socks h2
               in fold (nudgeHttp env) (map fst (hb_http h3)) h3)"

definition update_db :: "(d1 \<Rightarrow> d1) \<Rightarrow> hub \<Rightarrow> hub" where
  "update_db f h = h\<lparr>hb_platform := (hb_platform h)\<lparr>pl_db := f (pl_db (hb_platform h))\<rparr>\<rparr>"

text \<open>\<open>finishExam\<close>; it names its columns itself, so the error of \<open>updateTenant\<close> does not arise.\<close>

definition finish_exam :: "hub_env \<Rightarrow> exam_window \<Rightarrow> d1 \<Rightarrow> d1" where
  "finish_exam env exam db = (case finishExam db exam (he_now env) (he_now env div 1000) of None \<Rightarrow> db | Some (_, db') \<Rightarrow> db')"

definition start_events :: "hub_env \<Rightarrow> exam_window \<Rightarrow> hub \<Rightarrow> (string \<times> exam_event \<times> int) list" where
  "start_events env exam h =
     (let live = liveClients env False h in
      map (\<lambda>c. (cd_client_id c,
          if (case map_of live (cd_client_id c) of None \<Rightarrow> False | Some s \<Rightarrow> ls_online s) then Start_online else Start_offline,
          he_now env div 1000)) (examClients (pl_db (hb_platform h)) (text_of (hb_tenantId h)) (ew_groupName exam)))"

definition exam_key :: "exam_window \<Rightarrow> string" where
  "exam_key exam = ''exam:'' @ ew_id exam"

text \<open>One exam of the tick: the exams whose workstations are to be cleared grow by it where it starts or ends now.\<close>

definition tick_exam :: "hub_env \<Rightarrow> exam_window \<Rightarrow> exam_window list \<times> hub \<Rightarrow> exam_window list \<times> hub" where
  "tick_exam env exam = (\<lambda>(cleared, h).
     let now = he_now env div 1000; seen = readMeta h (exam_key exam) in
     if now \<ge> ew_endsAt exam
     then (if seen = Some ''ended'' then (cleared, h)
           else let h1 = writeMeta (exam_key exam) ''ended'' h in
                if ew_cancelled exam then (cleared, h1)
                else (cleared @ [exam], update_db (finish_exam env exam) h1))
     else if now \<ge> ew_startsAt exam \<and> seen \<noteq> Some ''running''
     then let h1 = writeMeta (exam_key exam) ''running'' h
          in (cleared @ [exam], update_db (\<lambda>db. recordExamEvents db (ew_id exam) (start_events env exam h1)) h1)
     else (cleared, h))"

definition forget_exams :: "exam_window list \<Rightarrow> hub \<Rightarrow> hub" where
  "forget_exams exams h =
     h\<lparr>hb_meta := filter (\<lambda>(k, _). \<not> (startsWith k ''exam:'' \<and> k \<notin> set (map exam_key exams))) (hb_meta h)\<rparr>"

definition clear_exam :: "hub_env \<Rightarrow> exam_window \<Rightarrow> hub \<Rightarrow> hub" where
  "clear_exam env exam h =
     (let targets = (case ew_groupName exam of None \<Rightarrow> [''all'']
          | Some g \<Rightarrow> map cd_client_id (examClients (pl_db (hb_platform h)) (text_of (hb_tenantId h)) (Some g)))
      in if targets = [] then h else enqueue_simple env targets Clear_session no_payload h)"

definition exam_times :: "exam_window \<Rightarrow> int list" where
  "exam_times e = (if ew_cancelled e then [ew_endsAt e] else [ew_startsAt e, ew_endsAt e])"

definition scheduleExamAlarm :: "hub_env \<Rightarrow> hub \<Rightarrow> hub" where
  "scheduleExamAlarm env h =
     (let exams = (case hb_config h of None \<Rightarrow> [] | Some c \<Rightarrow> hg_exams c);
          times = filter (\<lambda>t. t > he_now env div 1000) (concat (map exam_times exams))
      in if times = [] then h else ensureAlarm env (Min (set times) * 1000 - he_now env) h)"

definition examTick :: "hub_env \<Rightarrow> hub \<Rightarrow> hub" where
  "examTick env h =
     (let (c, h1) = loadConfig env False h in
      case c of
        None \<Rightarrow> h1
      | Some cfg \<Rightarrow>
          let (cleared, h2) = fold (tick_exam env) (hg_exams cfg) ([], h1);
              h3 = forget_exams (hg_exams cfg) h2;
              h4 = (if cleared = [] then h3 else fold (clear_exam env) cleared (configChanged env h3))
          in scheduleExamAlarm env h4)"

definition noteExamEvent :: "hub_env \<Rightarrow> exam_event \<Rightarrow> string \<Rightarrow> hub \<Rightarrow> hub" where
  "noteExamEvent env event clientId h =
     (let (c, h1) = (case hb_config h of Some cfg \<Rightarrow> (Some cfg, h) | None \<Rightarrow> loadConfig env False h) in
      case c of
        None \<Rightarrow> h1
      | Some cfg \<Rightarrow>
          (case examFor cfg clientId (he_now env div 1000) of
             None \<Rightarrow> h1
           | Some exam \<Rightarrow> update_db (\<lambda>db. recordExamEvents db (ew_id exam) [(clientId, event, he_now env div 1000)]) h1))"

end
