(* ===== verification/Hub_Handlers.thy ===== *)
theory Hub_Handlers
  imports Hub_Ops
begin

text \<open>
  The events an organization hub (\<open>src/cloudflare-control/src/org_hub.ts\<close>) answers: a workstation or
  a console connecting, a heartbeat, a message or the end of a socket, the alarm, and the requests of
  the Worker. \<open>hub_step\<close> puts them together: one event, one new state.
\<close>

subsection \<open>Workstations connecting and reporting\<close>

definition device_default :: "string \<Rightarrow> portal_context \<Rightarrow> workstation" where
  "device_default ip portal = \<lparr>wk_clientNum = 1, wk_activeUrl = [], wk_isLocked = False, wk_ip = ip, wk_vncPassword = None,
     wk_portal = portal, wk_imageVersion = None, wk_agentVersion = None, wk_update = None, wk_nudgedAt = None,
     wk_nudgedVersion = None, wk_lan = None, wk_dirty = False, wk_writtenAt = 0\<rparr>"

definition new_attachment :: "http_client option \<Rightarrow> string \<Rightarrow> string \<Rightarrow> portal_context \<Rightarrow> int \<Rightarrow> device_attachment" where
  "new_attachment previous clientId ip portal now =
     \<lparr>wk_clientNum = (case previous of Some p \<Rightarrow> wk_clientNum p | None \<Rightarrow> 1),
      wk_activeUrl = (case previous of Some p \<Rightarrow> wk_activeUrl p | None \<Rightarrow> []),
      wk_isLocked = (case previous of Some p \<Rightarrow> wk_isLocked p | None \<Rightarrow> False), wk_ip = ip,
      wk_vncPassword = (case previous of Some p \<Rightarrow> wk_vncPassword p | None \<Rightarrow> None), wk_portal = portal,
      wk_imageVersion = None, wk_agentVersion = None, wk_update = None, wk_nudgedAt = None, wk_nudgedVersion = None,
      wk_lan = None, wk_dirty = False, wk_writtenAt = now,
      da_clientId = clientId, da_connectedAt = now, da_lanHeldSince = None, da_streaming = False\<rparr>"

definition send_welcome :: "hub_env \<Rightarrow> nat \<Rightarrow> string \<Rightarrow> portal_context \<Rightarrow> hub \<Rightarrow> hub" where
  "send_welcome env i clientId portal h =
     (let (c, h1) = loadConfig env False h in
      case c of
        None \<Rightarrow> h1
      | Some cfg \<Rightarrow>
          let (update, portalUrl) = configFor env cfg clientId portal;
              (commands, h2) = pendingFor env clientId portalUrl h1
          in sendTo i (Config_message update (Some commands)) h2)"

definition acceptDevice :: "hub_env \<Rightarrow> nat \<Rightarrow> string \<Rightarrow> string \<Rightarrow> portal_context \<Rightarrow> hub \<Rightarrow> hub" where
  "acceptDevice env i clientId ip portal h =
     (let now = he_now env;
          h1 = fold close_socket (map sk_id (client_sockets h clientId)) h;
          a = new_attachment (map_of (hb_http h1) clientId) clientId ip portal now;
          s = \<lparr>sk_id = i, sk_attachment = Device a, sk_pinged = 0, sk_closing = False\<rparr>;
          h2 = h1\<lparr>hb_sockets := hb_sockets h1 @ [s], hb_http := map_delete clientId (hb_http h1),
                  hb_lastMessage := map_set clientId now (hb_lastMessage h1)\<rparr>;
          h3 = writeRegistry [registryRow h2 clientId a now now] h2;
          h4 = updateStreaming env None (send_welcome env i clientId portal h3);
          h5 = noteExamEvent env Connect clientId (notifyConsoles (Status_message (statusOf a now True)) h4)
      in ensureAlarm env FLUSH_DELAY_MS h5)"

definition rememberSite :: "hub_env \<Rightarrow> string \<Rightarrow> string \<Rightarrow> lan_report option \<Rightarrow> hub \<Rightarrow> hub" where
  "rememberSite env clientId ip lan h =
     (case siteKey ip lan of
        None \<Rightarrow> h
      | Some site \<Rightarrow> h\<lparr>hb_lastSites := map_set clientId (site, he_now env div 1000) (hb_lastSites h)\<rparr>)"

definition status_changed :: "'a workstation_scheme \<Rightarrow> 'b workstation_scheme \<Rightarrow> bool" where
  "status_changed a b =
     (wk_activeUrl a \<noteq> wk_activeUrl b \<or> wk_isLocked a \<noteq> wk_isLocked b \<or> wk_clientNum a \<noteq> wk_clientNum b
      \<or> wk_vncPassword a \<noteq> wk_vncPassword b \<or> updateFieldsChanged a b)"

datatype heartbeat_answer =
    Heartbeat_refused refusal
  | Heartbeat_failed
  | Heartbeat_ok "queued_command list" workstation_config int bool

definition heartbeat_client :: "hub_env \<Rightarrow> string \<Rightarrow> portal_context \<Rightarrow> json \<Rightarrow> http_client option \<Rightarrow> bool \<times> http_client" where
  "heartbeat_client env ip portal payload previous =
     (let now = he_now env;
          base = (case previous of Some p \<Rightarrow> workstation.truncate p | None \<Rightarrow> device_default ip portal);
          st = normalizeStatus env payload base;
          changed = (case previous of None \<Rightarrow> True | Some p \<Rightarrow> status_changed p st \<or> wk_ip p \<noteq> ip);
          written = (case previous of Some p \<Rightarrow> wk_writtenAt p | None \<Rightarrow> 0);
          dirty = ((case previous of Some p \<Rightarrow> wk_dirty p | None \<Rightarrow> False) \<or> changed \<or> now - written > REGISTRY_REFRESH_MS)
      in (changed, workstation.extend (st\<lparr>wk_ip := ip, wk_portal := portal, wk_dirty := (previous \<noteq> None \<and> dirty),
             wk_writtenAt := (if previous = None then now else written)\<rparr>) (http_client.fields now)))"

definition first_contact :: "hub_env \<Rightarrow> string \<Rightarrow> http_client \<Rightarrow> hub \<Rightarrow> hub" where
  "first_contact env clientId client h =
     noteExamEvent env Connect clientId (writeRegistry [registryRow h clientId client (he_now env) (he_now env)] h)"

definition heartbeat_answer_of :: "hub_env \<Rightarrow> string \<Rightarrow> portal_context \<Rightarrow> hub \<Rightarrow> heartbeat_answer \<times> hub" where
  "heartbeat_answer_of env clientId portal h =
     (let (c, h1) = loadConfig env False h in
      case c of
        None \<Rightarrow> (Heartbeat_failed, h1)
      | Some cfg \<Rightarrow>
          let (update, portalUrl) = configFor env cfg clientId portal;
              (commands, h2) = pendingFor env clientId portalUrl h1;
              (watched, h3) = watchedIds env None h2
          in (Heartbeat_ok commands update (httpHeartbeatSeconds env h2) (clientId \<in> set watched), h3))"

text \<open>What follows once the client is kept: its frame, its registry row, the consoles, its site, the alarm, its update.\<close>

definition after_heartbeat :: "hub_env \<Rightarrow> string \<Rightarrow> json \<Rightarrow> bool \<Rightarrow> bool \<Rightarrow> http_client \<Rightarrow> hub \<Rightarrow> hub" where
  "after_heartbeat env clientId payload first changed client h =
     (let h1 = (case acceptableFrame (field payload ''thumbnail'') of Some frame \<Rightarrow> relayFrame clientId frame h | None \<Rightarrow> h);
          h2 = (if first then first_contact env clientId client h1 else h1);
          h3 = (if changed
                then rememberSite env clientId (wk_ip client) (wk_lan client)
                       (notifyConsoles (Status_message (httpStatus clientId client (he_now env))) h2) else h2);
          h4 = (if wk_dirty client then ensureAlarm env FLUSH_DELAY_MS h3 else h3)
      in nudgeHttp env clientId h4)"

definition handleHeartbeat :: "hub_env \<Rightarrow> json \<Rightarrow> json \<Rightarrow> json \<Rightarrow> json \<Rightarrow> hub \<Rightarrow> heartbeat_answer \<times> hub" where
  "handleHeartbeat env clientIdRaw ipRaw portalRaw payload h =
     (let clientId = string_or clientIdRaw; ip = string_or ipRaw in
      case isPortalContext portalRaw of
        None \<Rightarrow> (Heartbeat_refused (''Missing workstation identity'', 400), h)
      | Some portal \<Rightarrow>
          if \<not> CLIENT_ID_PATTERN clientId then (Heartbeat_refused (''Missing workstation identity'', 400), h)
          else (case refusalFor env clientId h of
            (Some refusal, h1) \<Rightarrow> (Heartbeat_refused refusal, h1)
          | (None, h1) \<Rightarrow>
              let previous = map_of (hb_http h1) clientId;
                  (changed, client) = heartbeat_client env ip portal payload previous
              in heartbeat_answer_of env clientId portal
                   (after_heartbeat env clientId payload (previous = None) changed client
                      (h1\<lparr>hb_http := map_set clientId client (hb_http h1)\<rparr>))))"

definition report_status :: "hub_env \<Rightarrow> nat \<Rightarrow> device_attachment \<Rightarrow> json \<Rightarrow> hub \<Rightarrow> hub" where
  "report_status env i a data h =
     (let st = normalizeStatus env data a in
      if \<not> status_changed a st then h
      else let updated = st\<lparr>wk_dirty := True\<rparr>;
               h1 = notifyConsoles (Status_message (statusOf updated (he_now env) True)) (serializeAttachment i (Device updated) h);
               h2 = nudgeSocket env i updated (ensureAlarm env FLUSH_DELAY_MS h1);
               h3 = nudgeSite env (siteKey (wk_ip updated) (wk_lan updated)) (da_clientId updated) None h2
           in rememberSite env (da_clientId updated) (wk_ip updated) (wk_lan updated) h3)"

definition webSocketMessage :: "hub_env \<Rightarrow> nat \<Rightarrow> json option \<Rightarrow> hub \<Rightarrow> hub" where
  "webSocketMessage env i message h =
     (case (message, socket_of h i) of
        (Some data, Some s) \<Rightarrow>
          (case sk_attachment s of
             Console c \<Rightarrow> if field data ''type'' = JStr ''watch'' then setConsoleWatch env i c (field data ''clientIds'') h else h
           | Device a \<Rightarrow>
               let h1 = h\<lparr>hb_lastMessage := map_set (da_clientId a) (he_now env) (hb_lastMessage h)\<rparr>; kind = field data ''type'' in
               if kind = JStr ''ping'' then sendTo i Pong_message h1
               else if kind = JStr ''status'' then report_status env i a data h1
               else if kind = JStr ''frame''
               then (case acceptableFrame (field data ''thumbnail'') of Some frame \<Rightarrow> relayFrame (da_clientId a) frame h1 | None \<Rightarrow> h1)
               else h1)
      | _ \<Rightarrow> h)"

definition device_gone :: "hub_env \<Rightarrow> nat \<Rightarrow> device_attachment \<Rightarrow> hub \<Rightarrow> hub" where
  "device_gone env i a h =
     (let c = da_clientId a; now = he_now env in
      if filter (\<lambda>s. sk_id s \<noteq> i) (client_sockets h c) \<noteq> [] then h
      else let h1 = h\<lparr>hb_frames := map_delete c (hb_frames h), hb_lastMessage := map_delete c (hb_lastMessage h)\<rparr>;
               h2 = (if isRevoked h1 c then notifyConsoles (Removed_message c) h1
                     else noteExamEvent env Disconnect c
                            (notifyConsoles (Status_message (statusOf a now False)) (writeRegistry [registryRow h1 c a now now] h1)))
           in nudgeSite env (siteKey (wk_ip a) (wk_lan a)) c (Some i) (ensureAlarm env FLUSH_DELAY_MS h2))"

definition socketGone :: "hub_env \<Rightarrow> nat \<Rightarrow> hub \<Rightarrow> hub" where
  "socketGone env i h =
     (if i \<in> set (hb_departed h) then h
      else let h1 = h\<lparr>hb_departed := hb_departed h @ [i]\<rparr> in
           case socket_of h1 i of
             None \<Rightarrow> h1
           | Some s \<Rightarrow> (case sk_attachment s of
                 Console _ \<Rightarrow> updateStreaming env (Some i) h1
               | Device a \<Rightarrow> device_gone env i a h1))"

text \<open>
  \<open>webSocketClose\<close> and \<open>webSocketError\<close>: the hub's own part, after which the runtime forgets the
  socket.
\<close>

definition webSocketClose :: "hub_env \<Rightarrow> nat \<Rightarrow> hub \<Rightarrow> hub" where
  "webSocketClose env i h = (let h1 = socketGone env i h in h1\<lparr>hb_sockets := tbl_delete sk_id i (hb_sockets h1)\<rparr>)"

definition removeDevice :: "hub_env \<Rightarrow> string \<Rightarrow> hub \<Rightarrow> hub" where
  "removeDevice env clientId h =
     (if \<not> CLIENT_ID_PATTERN clientId then h
      else let h1 = h\<lparr>hb_revoked := map_set clientId (he_now env div 1000) (hb_revoked h)\<rparr>;
               h2 = fold close_socket (map sk_id (client_sockets h1 clientId)) h1
           in notifyConsoles (Removed_message clientId)
                (h2\<lparr>hb_http := map_delete clientId (hb_http h2), hb_frames := map_delete clientId (hb_frames h2),
                    hb_lastMessage := map_delete clientId (hb_lastMessage h2), hb_lastSites := map_delete clientId (hb_lastSites h2)\<rparr>))"

definition deviceEnrolled :: "string \<Rightarrow> hub \<Rightarrow> hub" where
  "deviceEnrolled clientId h = (if \<not> CLIENT_ID_PATTERN clientId then h else h\<lparr>hb_revoked := map_delete clientId (hb_revoked h)\<rparr>)"

subsection \<open>Write-back and the alarm\<close>

definition flush_socket :: "hub_env \<Rightarrow> nat \<Rightarrow> registry_row list \<times> hub \<Rightarrow> registry_row list \<times> hub" where
  "flush_socket env i = (\<lambda>(rows, h).
     case socket_of h i of
       None \<Rightarrow> (rows, h)
     | Some s \<Rightarrow> (case as_device s of
         None \<Rightarrow> (rows, h)
       | Some a \<Rightarrow>
           if wk_dirty a \<or> he_now env - wk_writtenAt a > REGISTRY_REFRESH_MS
           then (rows @ [registryRow h (da_clientId a) a (lastSeenOf h s a) (he_now env)],
                 serializeAttachment i (Device (a\<lparr>wk_dirty := False, wk_writtenAt := he_now env\<rparr>)) h)
           else (rows, h)))"

definition forget_http :: "hub_env \<Rightarrow> string \<Rightarrow> http_client \<Rightarrow> hub \<Rightarrow> hub" where
  "forget_http env clientId c h =
     noteExamEvent env Disconnect clientId
       (notifyConsoles (Status_message ((httpStatus clientId c (he_now env))\<lparr>ls_online := False\<rparr>))
         (h\<lparr>hb_http := map_delete clientId (hb_http h), hb_frames := map_delete clientId (hb_frames h)\<rparr>))"

definition flush_http :: "hub_env \<Rightarrow> string \<Rightarrow> registry_row list \<times> hub \<Rightarrow> registry_row list \<times> hub" where
  "flush_http env clientId = (\<lambda>(rows, h).
     case map_of (hb_http h) clientId of
       None \<Rightarrow> (rows, h)
     | Some c \<Rightarrow>
         let rows' = (if wk_dirty c then rows @ [registryRow h clientId c (hc_lastSeen c) (he_now env)] else rows);
             c' = (if wk_dirty c then c\<lparr>wk_dirty := False, wk_writtenAt := he_now env\<rparr> else c);
             h1 = h\<lparr>hb_http := map_set clientId c' (hb_http h)\<rparr>
         in (rows', if he_now env - hc_lastSeen c > HTTP_ONLINE_MS then forget_http env clientId c' h1 else h1))"

definition online_counts :: "hub_env \<Rightarrow> hub \<Rightarrow> int \<times> int" where
  "online_counts env h =
     (let live = filter ls_online (map snd (liveClients env False h))
      in (int (length live), int (length (filter (\<lambda>c. ls_transport c = Http) live))))"

definition write_counts :: "hub_env \<Rightarrow> hub \<Rightarrow> hub" where
  "write_counts env h =
     (let (online, http) = online_counts env h in
      if (online, http) = hb_flushed h then h
      else writeMeta ''flushedHttp'' (show_int http) (writeMeta ''flushedOnline'' (show_int online)
             (h\<lparr>hb_platform := setTenantOnlineCount (text_of (hb_tenantId h)) online http (hb_platform h),
                 hb_flushed := (online, http)\<rparr>)))"

definition flush :: "hub_env \<Rightarrow> hub \<Rightarrow> hub" where
  "flush env h =
     (let p = fold (flush_socket env) (map sk_id (device_sockets h)) ([], h);
          q = fold (flush_http env) (map fst (hb_http (snd p))) p
      in write_counts env (writeRegistry (fst q) (snd q)))"

definition sweep_socket :: "hub_env \<Rightarrow> nat \<Rightarrow> hub \<Rightarrow> hub" where
  "sweep_socket env i h =
     (case socket_of h i of
        None \<Rightarrow> h
      | Some s \<Rightarrow> (case as_device s of
          None \<Rightarrow> h
        | Some a \<Rightarrow> if he_now env - lastSeenOf h s a > SOCKET_STALE_MS then socketGone env i (close_socket i h) else h))"

definition sweepStale :: "hub_env \<Rightarrow> hub \<Rightarrow> hub" where
  "sweepStale env h = fold (sweep_socket env) (map sk_id (device_sockets h)) h"

definition next_alarm :: "hub_env \<Rightarrow> hub \<Rightarrow> hub" where
  "next_alarm env h =
     (let busy = (console_sockets h \<noteq> [] \<or> hb_http h \<noteq> [] \<or> hb_pollWatch h \<noteq> []
            \<or> list_ex (\<lambda>s. case as_device s of Some a \<Rightarrow> wk_dirty a | None \<Rightarrow> False) (device_sockets h))
      in if busy \<or> hb_commands h \<noteq> []
         then h\<lparr>hb_alarm := Some (he_now env + (if console_sockets h \<noteq> [] then CONSOLE_SWEEP_MS else FLUSH_DELAY_MS))\<rparr>
         else case nextWaitEnd h of None \<Rightarrow> h | Some t \<Rightarrow> h\<lparr>hb_alarm := Some t\<rparr>)"

text \<open>The runtime clears the alarm before it calls the handler.\<close>

definition alarm :: "hub_env \<Rightarrow> hub \<Rightarrow> hub" where
  "alarm env h =
     (let h0 = h\<lparr>hb_alarm := None\<rparr> in
      if \<not> truthy_text (hb_tenantId h0) then h0
      else scheduleExamAlarm env (next_alarm env (nudgeWaiting env (purgeExpiredCommands env (flush env
             (updateStreaming env None (sweepStale env (examTick env h0))))))))"

subsection \<open>Updates and waking, on request\<close>

definition lanPeersFor :: "hub_env \<Rightarrow> string \<Rightarrow> string \<Rightarrow> hub \<Rightarrow> string list \<times> hub" where
  "lanPeersFor env clientId version h =
     (let (c, h1) = loadConfig env False h in
      if (case c of None \<Rightarrow> True | Some cfg \<Rightarrow> tn_lan_sharing (hg_tenant cfg) \<noteq> 1) \<or> \<not> isReleaseVersion version then ([], h1)
      else case client_sockets h1 clientId of
             [] \<Rightarrow> ([], h1)
           | s # _ \<Rightarrow> (case as_device s of None \<Rightarrow> ([], h1)
               | Some a \<Rightarrow> (lanPeers (member_of a) version (siteMembers env h1) (he_now env) (he_order env), h1)))"

definition check_one :: "hub_env \<Rightarrow> hub_config option \<Rightarrow> string \<Rightarrow> string list \<times> hub \<Rightarrow> string list \<times> hub" where
  "check_one env config clientId = (\<lambda>(direct, h).
     case client_sockets h clientId of
       [] \<Rightarrow> (direct @ [clientId], h)
     | s # _ \<Rightarrow>
         (case (as_device s, config) of
            (Some a, Some cfg) \<Rightarrow>
              (case updateTargetFor (hg_releases cfg) (wk_imageVersion a) (map_of (hg_pilotGroups cfg) clientId) of
                 None \<Rightarrow> (direct @ [clientId], h)
               | Some target \<Rightarrow>
                   let (waits, h1) = waitForSite env (sk_id s) a (ro_version target) h in
                   if waits then (direct, h1)
                   else (direct, tellOfRelease env (sk_id s) a (ro_version target) (ro_version target) h1))
          | _ \<Rightarrow> (direct @ [clientId], h)))"

definition checkUpdate :: "hub_env \<Rightarrow> json \<Rightarrow> string option \<Rightarrow> hub \<Rightarrow> string list \<times> hub" where
  "checkUpdate env rawIds fallbackVersion h =
     (let ids = client_ids rawIds; (c, h1) = loadConfig env True h; (direct, h2) = fold (check_one env c) ids ([], h1)
      in (ids, if direct = [] then h2 else enqueue_simple env direct Release_available (tell_payload fallbackVersion) h2))"

definition install_choice :: "hub_config option \<Rightarrow> (string \<times> live_status) list \<Rightarrow> string \<Rightarrow> string + string" where
  "install_choice config live clientId =
     (let rels = (case config of None \<Rightarrow> [] | Some c \<Rightarrow> hg_releases c);
          grp = (case config of None \<Rightarrow> None | Some c \<Rightarrow> map_of (hg_pilotGroups c) clientId);
          status = map_of live clientId
      in case installTargetFor rels status grp of
           None \<Rightarrow> Inl ''No release is offered to this organization''
         | Some target \<Rightarrow> (case installRefusal status (ro_version target) of Some reason \<Rightarrow> Inl reason | None \<Rightarrow> Inr (ro_version target)))"

text \<open>\<open>byVersion\<close>: the workstations to install each version, in the order the versions come up.\<close>

definition by_key :: "('k \<times> 'v) list \<Rightarrow> ('k \<times> 'v list) list" where
  "by_key kvs = fold (\<lambda>(k, v) m. map_set k ((case map_of m k of Some vs \<Rightarrow> vs | None \<Rightarrow> []) @ [v]) m) kvs []"

record install_result =
  ir_sent :: "string list"
  ir_skipped :: "(string \<times> string) list"
  ir_versions :: "string list"

definition installUpdate :: "hub_env \<Rightarrow> json \<Rightarrow> hub \<Rightarrow> install_result \<times> hub" where
  "installUpdate env rawIds h =
     (let ids = client_ids rawIds; (c, h1) = loadConfig env True h; live = liveClients env False h1;
          chosen = map (\<lambda>i. (i, install_choice c live i)) ids;
          byVersion = by_key (concat (map (\<lambda>(i, r). case r of Inr v \<Rightarrow> [(v, i)] | Inl _ \<Rightarrow> []) chosen));
          skipped = concat (map (\<lambda>(i, r). case r of Inl why \<Rightarrow> [(i, why)] | Inr _ \<Rightarrow> []) chosen)
      in (\<lparr>ir_sent = concat (map snd byVersion), ir_skipped = skipped, ir_versions = map fst byVersion\<rparr>,
          fold (\<lambda>(v, targets). enqueue_simple env targets Install_update (tell_payload (Some v))) byVersion h1))"

record awake_one =
  aw_clientId :: string
  aw_site :: "string option"
  aw_agentVersion :: "string option"
  aw_socket :: bool

definition awake_now :: "hub_env \<Rightarrow> hub \<Rightarrow> awake_one list" where
  "awake_now env h =
     concat (map (\<lambda>s. case as_device s of None \<Rightarrow> []
         | Some a \<Rightarrow> if he_now env - lastSeenOf h s a < SOCKET_STALE_MS
             then [\<lparr>aw_clientId = da_clientId a, aw_site = siteKey (wk_ip a) (wk_lan a), aw_agentVersion = wk_agentVersion a, aw_socket = True\<rparr>]
             else []) (device_sockets h))
     @ concat (map (\<lambda>(i, c). if he_now env - hc_lastSeen c < HTTP_ONLINE_MS
             then [\<lparr>aw_clientId = i, aw_site = siteKey (wk_ip c) (wk_lan c), aw_agentVersion = wk_agentVersion c, aw_socket = False\<rparr>]
             else []) (hb_http h))"

definition LAST_AGENT_WITHOUT_WAKE :: string where
  "LAST_AGENT_WITHOUT_WAKE = ''3.2.0''"

definition MAX_WAKE_MACS_PER_COMMAND :: nat where
  "MAX_WAKE_MACS_PER_COMMAND = 64"

definition canWake :: "string option \<Rightarrow> bool" where
  "canWake agentVersion =
     (case agentVersion of
        None \<Rightarrow> False
      | Some v \<Rightarrow> v \<noteq> [] \<and> isReleaseVersion v \<and> (case compareVersions v LAST_AGENT_WITHOUT_WAKE of Some c \<Rightarrow> c > 0 | None \<Rightarrow> False))"

definition wake_targets :: "json \<Rightarrow> (string \<times> string list) list" where
  "wake_targets raw =
     (case raw of
        JArr xs \<Rightarrow> concat (map (\<lambda>t. let c = string_or (field t ''clientId'') in
            if CLIENT_ID_PATTERN c
            then [(c, concat (map (\<lambda>m. case m of JStr s \<Rightarrow> if isWakeableMac m then [s] else [] | _ \<Rightarrow> [])
                     (case field t ''macs'' of JArr ms \<Rightarrow> ms | _ \<Rightarrow> [])))]
            else []) xs)
      | _ \<Rightarrow> [])"

text \<open>Who wakes a workstation, or why no one does.\<close>

definition wake_choice :: "hub \<Rightarrow> awake_one list \<Rightarrow> string \<Rightarrow> string list \<Rightarrow> string + string" where
  "wake_choice h awake clientId macs =
     (if list_ex (\<lambda>w. aw_clientId w = clientId) awake then Inl ''It is already on''
      else if macs = [] then Inl ''It has reported no wired network adapter, which Wake-on-LAN needs''
      else case map_of (hb_lastSites h) clientId of
        None \<Rightarrow> Inl ''Its local network is not known yet: it is learnt while the workstation is on, on an installed disk''
      | Some (site, _) \<Rightarrow>
          if site = [] then Inl ''Its local network is not known yet: it is learnt while the workstation is on, on an installed disk''
          else let there = filter (\<lambda>w. aw_site w = Some site) awake; able = filter (\<lambda>w. canWake (aw_agentVersion w)) there in
          case (find aw_socket able, able) of
            (Some peer, _) \<Rightarrow> Inr (aw_clientId peer)
          | (None, peer # _) \<Rightarrow> Inr (aw_clientId peer)
          | (None, []) \<Rightarrow>
              if there \<noteq> [] then Inl ''The workstations that are on at its site run an agent too old to send the wake signal; update them''
              else Inl ''No workstation of this organization is on at its site to send the wake signal'')"

definition send_wake :: "hub_env \<Rightarrow> string \<times> string list list \<Rightarrow> hub \<Rightarrow> hub" where
  "send_wake env = (\<lambda>(peer, macs) h.
     fold (\<lambda>ms. enqueue_simple env [peer] Wake (no_payload\<lparr>py_macs := ms\<rparr>)) (chunks MAX_WAKE_MACS_PER_COMMAND (unique (concat macs))) h)"

record wake_result =
  wr_sent :: "(string \<times> string) list"
  wr_skipped :: "(string \<times> string) list"

definition wake :: "hub_env \<Rightarrow> json \<Rightarrow> hub \<Rightarrow> wake_result \<times> hub" where
  "wake env raw h =
     (let awake = awake_now env h;
          chosen = map (\<lambda>(c, macs). (c, macs, wake_choice h awake c macs)) (wake_targets raw);
          byPeer = by_key (concat (map (\<lambda>(c, macs, r). case r of Inr peer \<Rightarrow> [(peer, macs)] | Inl _ \<Rightarrow> []) chosen))
      in (\<lparr>wr_sent = concat (map (\<lambda>(c, macs, r). case r of Inr peer \<Rightarrow> [(c, peer)] | Inl _ \<Rightarrow> []) chosen),
           wr_skipped = concat (map (\<lambda>(c, macs, r). case r of Inl why \<Rightarrow> [(c, why)] | Inr _ \<Rightarrow> []) chosen)\<rparr>,
          fold (send_wake env) byPeer h))"

subsection \<open>Requests of the Worker\<close>

text \<open>
  The paths of \<open>fetch\<close> with their bodies. \<open>/enqueue\<close> carries what the Worker's own code built; every
  other body is read as the JSON it is. A socket's number is given by the runtime. The header
  \<open>Upgrade: websocket\<close>, which \<open>hubUpgrade\<close> always sends, is taken as there.
\<close>

datatype hub_request =
    Device_ws "json option" nat
  | Console_ws "json option" nat
  | Heartbeat json json json json
  | Enqueue enqueue_input
  | Live json
  | Config_changed_request
  | Exams_changed
  | Remove_device json
  | Remote_open json
  | Remote_ended json
  | Remote_revoke
  | Install json
  | Check_update json
  | Lan_peers json
  | Wake_up json
  | Device_enrolled json

datatype hub_answer =
    Done
  | Upgraded
  | Refused refusal
  | Beat heartbeat_answer
  | Command_ids "string list"
  | Clients "(string \<times> live_status) list"
  | Remote remote_answer
  | Names "string list"
  | Installed install_result
  | Woken wake_result

definition parseDeviceMeta :: "json option \<Rightarrow> (string \<times> string \<times> portal_context) option" where
  "parseDeviceMeta meta =
     (case meta of
        None \<Rightarrow> None
      | Some m \<Rightarrow>
          (case isPortalContext (field m ''portal'') of
             Some portal \<Rightarrow> if CLIENT_ID_PATTERN (string_or (field m ''clientId''))
                 then Some (string_or (field m ''clientId''), string_or (field m ''ip''), portal) else None
           | None \<Rightarrow> None))"

definition parseConsoleMeta :: "json option \<Rightarrow> string option" where
  "parseConsoleMeta meta =
     (case meta of None \<Rightarrow> None
      | Some m \<Rightarrow> if string_or (field m ''userId'') = [] then None else Some (string_or (field m ''userId'')))"

definition upgrade_device :: "hub_env \<Rightarrow> json option \<Rightarrow> nat \<Rightarrow> hub \<Rightarrow> hub_answer \<times> hub" where
  "upgrade_device env meta i h =
     (case parseDeviceMeta meta of
        None \<Rightarrow> (Refused (''Missing workstation identity'', 400), h)
      | Some (clientId, ip, portal) \<Rightarrow>
          (case refusalFor env clientId h of
             (Some refusal, h1) \<Rightarrow> (Refused refusal, h1)
           | (None, h1) \<Rightarrow> (Upgraded, acceptDevice env i clientId ip portal h1)))"

definition upgrade_console :: "hub_env \<Rightarrow> json option \<Rightarrow> nat \<Rightarrow> hub \<Rightarrow> hub_answer \<times> hub" where
  "upgrade_console env meta i h =
     (case parseConsoleMeta meta of
        None \<Rightarrow> (Refused (''Missing console identity'', 400), h)
      | Some userId \<Rightarrow> (Upgraded, acceptConsole env i userId h))"

definition attend :: "hub_env \<Rightarrow> hub \<Rightarrow> hub" where
  "attend env h = h\<lparr>hb_attendedUntil := he_now env + HTTP_ATTENTION_MS\<rparr>"

fun hub_route :: "hub_env \<Rightarrow> hub_request \<Rightarrow> hub \<Rightarrow> hub_answer \<times> hub" where
  "hub_route env (Device_ws meta i) h = upgrade_device env meta i h"
| "hub_route env (Console_ws meta i) h = upgrade_console env meta i h"
| "hub_route env (Heartbeat c ip portal payload) h = (let (a, h1) = handleHeartbeat env c ip portal payload h in (Beat a, h1))"
| "hub_route env (Enqueue input) h = (let (ids, h1) = enqueue env input (attend env h) in (Command_ids ids, h1))"
| "hub_route env (Live watch) h = (let h1 = leasePollWatch env watch (attend env h) in (Clients (liveClients env True h1), h1))"
| "hub_route env Config_changed_request h = (Done, configChanged env h)"
| "hub_route env Exams_changed h = (Done, examTick env (snd (loadConfig env True h)))"
| "hub_route env (Remove_device b) h = (Done, removeDevice env (string_or (field b ''clientId'')) h)"
| "hub_route env (Remote_open b) h =
     (let (a, h1) = remote_open_route env (string_or (field b ''clientId'')) (string_or (field b ''session''))
            (string_or (field b ''userId'')) (he_integer env (field b ''seats'')) (he_integer env (field b ''endsAt'')) h
      in (Remote a, h1))"
| "hub_route env (Remote_ended b) h = (Done, releaseRemoteSeat (string_or (field b ''clientId'')) h)"
| "hub_route env Remote_revoke h = (let (ids, h1) = releaseAllRemoteSeats h in (Names ids, h1))"
| "hub_route env (Install b) h = (let (r, h1) = installUpdate env (field b ''clientIds'') h in (Installed r, h1))"
| "hub_route env (Check_update b) h =
     (let (ids, h1) = checkUpdate env (field b ''clientIds'') (is_release_version (field b ''version'')) h in (Names ids, h1))"
| "hub_route env (Lan_peers b) h =
     (let (ps, h1) = lanPeersFor env (string_or (field b ''clientId'')) (string_or (field b ''version'')) h in (Names ps, h1))"
| "hub_route env (Wake_up b) h = (let (r, h1) = wake env (field b ''targets'') h in (Woken r, h1))"
| "hub_route env (Device_enrolled b) h = (Done, deviceEnrolled (string_or (field b ''clientId'')) h)"

definition hub_fetch :: "hub_env \<Rightarrow> string \<Rightarrow> hub_request \<Rightarrow> hub \<Rightarrow> hub_answer \<times> hub" where
  "hub_fetch env tenantId r h =
     (case bind_hub tenantId h of
        (False, h1) \<Rightarrow> (Refused (''This organization hub belongs to another organization'', 409), h1)
      | (True, h1) \<Rightarrow> hub_route env r h1)"

subsection \<open>Events\<close>

text \<open>
  Everything that can happen to a hub: a request, a message or the end of a socket, a ping the
  runtime answers by itself, the alarm, a change of the platform's database by someone else, and
  the object being evicted from memory (its fields are lost; tables, sockets and alarm are kept).
\<close>

datatype hub_event =
    Request string hub_request
  | Message nat "json option"
  | Closed nat
  | Ping nat
  | Alarm
  | Platform platform
  | Evicted

definition meta_int :: "hub \<Rightarrow> string \<Rightarrow> (string \<Rightarrow> int) \<Rightarrow> int" where
  "meta_int h key num = (case readMeta h key of Some t \<Rightarrow> num t | None \<Rightarrow> - 1)"

text \<open>The constructor on the tables it finds; \<open>num\<close> is \<open>Number\<close> of the texts \<open>flush\<close> wrote.\<close>

definition read_count :: "string \<Rightarrow> int" where
  "read_count t = (if t \<noteq> [] \<and> hd t = CHR ''-'' then - int (read_nat (tl t)) else int (read_nat t))"

definition wake_hub :: "hub \<Rightarrow> hub" where
  "wake_hub h = h\<lparr>hb_tenantId := readMeta h ''tenantId'', hb_config := None, hb_http := [], hb_frames := [], hb_lastMessage := [],
     hb_pollWatch := [], hb_attendedUntil := 0, hb_departed := [],
     hb_flushed := (meta_int h ''flushedOnline'' read_count, meta_int h ''flushedHttp'' read_count)\<rparr>"

fun hub_step :: "hub_env \<times> hub_event \<Rightarrow> hub \<Rightarrow> hub" where
  "hub_step (env, Request tenantId r) h = snd (hub_fetch env tenantId r h)"
| "hub_step (env, Message i m) h = webSocketMessage env i m h"
| "hub_step (env, Closed i) h = webSocketClose env i h"
| "hub_step (env, Ping i) h = h\<lparr>hb_sockets := tbl_update (\<lambda>s. sk_id s = i) (\<lambda>s. s\<lparr>sk_pinged := he_now env\<rparr>) (hb_sockets h)\<rparr>"
| "hub_step (env, Alarm) h = alarm env h"
| "hub_step (env, Platform p) h = h\<lparr>hb_platform := p\<rparr>"
| "hub_step (env, Evicted) h = wake_hub h"

end
