(* ===== verification/Hub_Relations.thy ===== *)
theory Hub_Relations
  imports Hub_Handlers
begin

text \<open>
  What every operation of the hub does to its state, once for all properties. A relation between the
  state before and after that the primitive changes respect is respected by every operation built of
  them: the locale \<open>hub_relation\<close> asks for the primitive changes, and gives the handlers. Its client
  theories interpret it with the relation their property needs.
\<close>

named_theorems hub_rel \<open>rules that peel one operation off the state reached\<close>

definition http_keys :: "hub \<Rightarrow> string set" where
  "http_keys h = fst ` set (hb_http h)"

lemma map_of_map_delete: "map_of (map_delete k m) k' = (if k' = k then None else map_of m k')"
  unfolding map_delete_def tbl_delete_def by (induction m) auto

lemma map_set_cases: "map_set k v m = (if map_of m k = None then m @ [(k, v)] else map (\<lambda>q. if fst q = k then (k, v) else q) m)"
proof -
  have "tbl_lookup fst k m = None \<longleftrightarrow> map_of m k = None"
    by (auto simp: tbl_lookup_def find_None_iff_all map_of_eq_None_iff)
  then show ?thesis by (simp add: map_set_def tbl_upsert_def)
qed

lemma map_of_replace: "map_of (map (\<lambda>q. if fst q = k then (k, v) else q) m) k' = (if k' = k \<and> map_of m k \<noteq> None then Some v else map_of m k')"
  by (induction m) auto

lemma map_of_map_set: "map_of (map_set k v m) k' = (if k' = k then Some v else map_of m k')"
  by (simp add: map_set_cases map_of_replace map_add_def split: option.split)

lemma keys_map_delete: "fst ` set (map_delete k m) = fst ` set m - {k}"
  by (auto simp: map_delete_def tbl_delete_def)

lemma keys_map_set: "fst ` set (map_set k v m) = insert k (fst ` set m)"
proof -
  have "fst ` set xs = dom (map_of xs)" for xs :: "('a \<times> 'b) list" by (simp add: dom_map_of_conv_image_fst)
  then show ?thesis by (auto simp: map_of_map_set split: if_splits)
qed

lemma readMeta_writeMeta: "readMeta (writeMeta k v h) k' = (if k' = k then Some v else readMeta h k')"
  by (auto simp: readMeta_def writeMeta_def map_add_def map_of_map_delete split: option.split)

lemma next_alarm_simps [simp]:
  "hb_tenantId (next_alarm env h) = hb_tenantId h"
  "hb_config (next_alarm env h) = hb_config h"
  "hb_http (next_alarm env h) = hb_http h"
  "hb_frames (next_alarm env h) = hb_frames h"
  "hb_lastMessage (next_alarm env h) = hb_lastMessage h"
  "hb_pollWatch (next_alarm env h) = hb_pollWatch h"
  "hb_attendedUntil (next_alarm env h) = hb_attendedUntil h"
  "hb_departed (next_alarm env h) = hb_departed h"
  "hb_flushed (next_alarm env h) = hb_flushed h"
  "hb_sockets (next_alarm env h) = hb_sockets h"
  "hb_commands (next_alarm env h) = hb_commands h"
  "hb_deliveries (next_alarm env h) = hb_deliveries h"
  "hb_revoked (next_alarm env h) = hb_revoked h"
  "hb_meta (next_alarm env h) = hb_meta h"
  "hb_seats (next_alarm env h) = hb_seats h"
  "hb_lastSites (next_alarm env h) = hb_lastSites h"
  "hb_drawn (next_alarm env h) = hb_drawn h"
  "hb_sent (next_alarm env h) = hb_sent h"
  "hb_handed (next_alarm env h) = hb_handed h"
  "hb_platform (next_alarm env h) = hb_platform h"
  by (simp_all add: next_alarm_def Let_def split: option.split)

locale hub_base =
  fixes R :: "hub_env \<Rightarrow> hub \<Rightarrow> hub \<Rightarrow> bool"
  assumes r_refl: "R env h h"
    and r_trans: "R env h h1 \<Longrightarrow> R env h1 h2 \<Longrightarrow> R env h h2"
    and p_sent: "R env h (h\<lparr>hb_sent := x1\<rparr>)"
    and p_sockets: "R env h (h\<lparr>hb_sockets := x2\<rparr>)"
    and p_config: "R env h (h\<lparr>hb_config := x3\<rparr>)"
    and p_frames: "R env h (h\<lparr>hb_frames := x4\<rparr>)"
    and p_lastMessage: "R env h (h\<lparr>hb_lastMessage := x5\<rparr>)"
    and p_pollWatch: "R env h (h\<lparr>hb_pollWatch := x5\<rparr>)"
    and p_attendedUntil: "R env h (h\<lparr>hb_attendedUntil := x6\<rparr>)"
    and p_departed: "R env h (h\<lparr>hb_departed := x7\<rparr>)"
    and p_flushed: "R env h (h\<lparr>hb_flushed := x8\<rparr>)"
    and p_lastSites: "R env h (h\<lparr>hb_lastSites := x9\<rparr>)"
    and p_alarm: "(\<And>a. hb_alarm h = Some a \<Longrightarrow> t \<le> a) \<Longrightarrow> R env h (h\<lparr>hb_alarm := Some t\<rparr>)"
    and p_next_alarm: "R env h (next_alarm env h)"
    and p_meta: "map_of m ''tenantId'' = map_of (hb_meta h) ''tenantId'' \<Longrightarrow> R env h (h\<lparr>hb_meta := m\<rparr>)"
    and p_http: "fst ` set m' \<subseteq> http_keys h \<Longrightarrow> R env h (h\<lparr>hb_http := m'\<rparr>)"
    and p_http_new: "\<not> isRevoked h c \<Longrightarrow> fst ` set m' \<subseteq> insert c (http_keys h) \<Longrightarrow> R env h (h\<lparr>hb_http := m'\<rparr>)"
    and p_registry: "\<not> isRevoked h (rg_client_id r) \<Longrightarrow> rg_tenant_id r = text_of (hb_tenantId h) \<Longrightarrow>
      R env h (h\<lparr>hb_platform := upsert_registry r (hb_platform h)\<rparr>)"
    and p_online: "R env h (h\<lparr>hb_platform := setTenantOnlineCount (text_of (hb_tenantId h)) a b (hb_platform h)\<rparr>)"
    and p_events: "R env h (update_db (\<lambda>db. recordExamEvents db i evs) h)"
    and p_finish: "R env h (update_db (finish_exam env exam) h)"
    and p_pending: "R env h (snd (pendingFor env c u h))"
    and p_purge: "R env h (purgeExpiredCommands env h)"
begin

lemmas r_set = p_sent p_sockets p_config p_frames p_lastMessage p_pollWatch p_attendedUntil p_departed p_flushed p_lastSites p_next_alarm p_pending p_purge p_online p_events p_finish

lemmas r_update [hub_rel] = r_set [THEN r_trans [rotated]]

lemma r_meta [hub_rel]:
  "R env h0 h \<Longrightarrow> map_of m ''tenantId'' = map_of (hb_meta h) ''tenantId'' \<Longrightarrow> R env h0 (h\<lparr>hb_meta := m\<rparr>)"
  by (blast intro: r_trans p_meta)

lemma r_http [hub_rel]: "R env h0 h \<Longrightarrow> fst ` set m \<subseteq> http_keys h \<Longrightarrow> R env h0 (h\<lparr>hb_http := m\<rparr>)"
  by (blast intro: r_trans p_http)

lemma r_http_new: "R env h0 h \<Longrightarrow> \<not> isRevoked h c \<Longrightarrow> fst ` set m \<subseteq> insert c (http_keys h) \<Longrightarrow> R env h0 (h\<lparr>hb_http := m\<rparr>)"
  by (blast intro: r_trans p_http_new)

lemma r_if [hub_rel]: "(P \<Longrightarrow> R env h0 a) \<Longrightarrow> (\<not> P \<Longrightarrow> R env h0 b) \<Longrightarrow> R env h0 (if P then a else b)"
  by simp

lemma r_option [hub_rel]: "(x = None \<Longrightarrow> R env h0 a) \<Longrightarrow> (\<And>y. x = Some y \<Longrightarrow> R env h0 (f y)) \<Longrightarrow> R env h0 (case x of None \<Rightarrow> a | Some y \<Rightarrow> f y)"
  by (cases x) auto

lemma r_fold [hub_rel]: "R env h0 h \<Longrightarrow> (\<And>x h. x \<in> set xs \<Longrightarrow> R env h (f x h)) \<Longrightarrow> R env h0 (fold f xs h)"
proof (induction xs arbitrary: h)
  case (Cons x xs)
  have "R env h0 (f x h)" using Cons.prems r_trans by (meson list.set_intros(1))
  then show ?case using Cons by simp
qed simp

lemma r_snd_fold: "R env h0 (snd p) \<Longrightarrow> (\<And>x p. x \<in> set xs \<Longrightarrow> R env (snd p) (snd (f x p))) \<Longrightarrow> R env h0 (snd (fold f xs p))"
proof (induction xs arbitrary: p)
  case (Cons x xs)
  have "R env h0 (snd (f x p))" using Cons.prems r_trans by (meson list.set_intros(1))
  then show ?case using Cons by simp
qed simp

subsection \<open>Sending and sockets\<close>

lemma r_sendTo [hub_rel]: "R env h0 h \<Longrightarrow> R env h0 (sendTo i m h)"
  by (simp add: sendTo_def r_update)

lemma r_serialize [hub_rel]: "R env h0 h \<Longrightarrow> R env h0 (serializeAttachment i a h)"
  by (simp add: serializeAttachment_def r_update)

lemma r_close [hub_rel]: "R env h0 h \<Longrightarrow> R env h0 (close_socket i h)"
  by (simp add: close_socket_def r_update)

lemma r_notify [hub_rel]: "R env h0 h \<Longrightarrow> R env h0 (notifyConsoles m h)"
  unfolding notifyConsoles_def by (intro hub_rel r_refl)

lemma r_ensureAlarm [hub_rel]: "R env h0 h \<Longrightarrow> R env h0 (ensureAlarm e d h)"
  by (auto simp: ensureAlarm_def Let_def intro!: r_trans [OF _ p_alarm] split: option.splits)

lemma r_writeMeta [hub_rel]: "R env h0 h \<Longrightarrow> k \<noteq> ''tenantId'' \<Longrightarrow> R env h0 (writeMeta k v h)"
  using readMeta_writeMeta [of k v h "''tenantId''"] unfolding readMeta_def
  by (auto simp: writeMeta_def intro!: r_meta)

lemma r_loadConfig [hub_rel]: "R env h0 h \<Longrightarrow> R env h0 (snd (loadConfig e force h))"
  by (simp add: loadConfig_def Let_def r_update)

lemma r_writeRegistry [hub_rel]:
  assumes "R env h0 h" and "\<And>r. r \<in> set rows \<Longrightarrow> rg_tenant_id r = text_of (hb_tenantId h)"
  shows "R env h0 (writeRegistry rows h)"
proof -
  have "R env h (h\<lparr>hb_platform := fold upsert_registry (filter (\<lambda>r. \<not> isRevoked h (rg_client_id r)) rs) (hb_platform h)\<rparr>)"
    if "set rs \<subseteq> set rows" for rs
    using that
  proof (induction rs rule: rev_induct)
    case Nil
    then show ?case by (simp add: r_refl)
  next
    case (snoc r rs)
    let ?h = "h\<lparr>hb_platform := fold upsert_registry (filter (\<lambda>r. \<not> isRevoked h (rg_client_id r)) rs) (hb_platform h)\<rparr>"
    have IH: "R env h ?h" using snoc by simp
    have "\<not> isRevoked h (rg_client_id r) \<Longrightarrow> R env ?h (?h\<lparr>hb_platform := upsert_registry r (hb_platform ?h)\<rparr>)"
      using snoc.prems assms(2) by (intro p_registry) (auto simp: isRevoked_def)
    then show ?case using IH r_trans by auto
  qed
  then show ?thesis using assms(1) unfolding writeRegistry_def upsertDeviceRegistry_def by (meson order_refl r_trans)
qed

lemma r_noteExamEvent [hub_rel]: "R env h0 h \<Longrightarrow> R env h0 (noteExamEvent env ev c h)"
  unfolding noteExamEvent_def Let_def case_prod_beta
  by (cases "hb_config h") (auto intro!: hub_rel split: option.split)

subsection \<open>Consoles\<close>

lemma r_watchedIds [hub_rel]: "R env h0 h \<Longrightarrow> R env h0 (snd (watchedIds e ex h))"
  by (simp add: watchedIds_def Let_def r_update)

lemma r_stream_one: "R env h (stream_one w i h)"
  unfolding stream_one_def Let_def by (intro hub_rel r_refl)

lemma r_updateStreaming [hub_rel]: "R env h0 h \<Longrightarrow> R env h0 (updateStreaming e cl h)"
  unfolding updateStreaming_def Let_def case_prod_beta by (intro hub_rel r_stream_one)

lemma r_relayFrame [hub_rel]: "R env h0 h \<Longrightarrow> R env h0 (relayFrame c f h)"
  unfolding relayFrame_def Let_def by (intro hub_rel r_refl)

lemma r_acceptConsole [hub_rel]: "R env h0 h \<Longrightarrow> R env h0 (acceptConsole e i u h)"
  unfolding acceptConsole_def Let_def by (intro hub_rel)

lemma r_setConsoleWatch [hub_rel]: "R env h0 h \<Longrightarrow> R env h0 (setConsoleWatch e i a raw h)"
  unfolding setConsoleWatch_def Let_def send_known_frame_def by (intro hub_rel r_refl)

lemma r_leasePollWatch [hub_rel]: "R env h0 h \<Longrightarrow> R env h0 (leasePollWatch e raw h)"
  by (cases raw) (simp_all add: leasePollWatch_def Let_def hub_rel)

subsection \<open>Deliveries\<close>

lemma r_deliver_now [hub_rel]: "R env h0 h \<Longrightarrow> R env h0 (deliver_now env config i h)"
  unfolding deliver_now_def Let_def case_prod_beta
  by (cases config; cases "deviceAttachment h i") (auto intro!: hub_rel)

lemma r_show_lock [hub_rel]: "R env h0 h \<Longrightarrow> R env h0 (show_lock e locked i h)"
  unfolding show_lock_def Let_def by (intro hub_rel)

lemma r_lock_http [hub_rel]: "R env h0 h \<Longrightarrow> R env h0 (lock_http locked ts h)"
  unfolding lock_http_def by (rule r_http) (auto simp: http_keys_def dest: fst_eqD intro: rev_image_eqI)

end


text \<open>A relation that \<open>enqueue\<close> respects as a whole: it is respected by the handlers.\<close>

locale hub_relation = hub_base +
  assumes p_enqueue: "R env h (snd (enqueue env input h))"
begin

lemma r_enqueue [hub_rel]: "R env h0 h \<Longrightarrow> R env h0 (snd (enqueue env input h))"
  by (blast intro: r_trans p_enqueue)

lemma r_enqueue_simple [hub_rel]: "R env h0 h \<Longrightarrow> R env h0 (enqueue_simple env ts a p h)"
  unfolding enqueue_simple_def by (rule r_enqueue)

subsection \<open>Releases\<close>

lemma r_waitForSite [hub_rel]: "R env h0 h \<Longrightarrow> R env h0 (snd (waitForSite env i a v h))"
  by (simp add: waitForSite_def Let_def hub_rel)

lemma r_tellOfRelease [hub_rel]: "R env h0 h \<Longrightarrow> R env h0 (tellOfRelease env i a k v h)"
  unfolding tellOfRelease_def by (intro hub_rel)

lemma r_nudgeSocket [hub_rel]: "R env h0 h \<Longrightarrow> R env h0 (nudgeSocket env i a h)"
  unfolding nudgeSocket_def Let_def case_prod_beta
  by (cases "releaseNudgeDue env (hb_config h) a (da_clientId a)") (simp_all add: case_prod_beta hub_rel)

lemma r_nudge_device [hub_rel]: "R env h0 h \<Longrightarrow> R env h0 (nudge_device env i h)"
  unfolding nudge_device_def by (intro hub_rel)

lemma r_nudgeSite [hub_rel]: "R env h0 h \<Longrightarrow> R env h0 (nudgeSite env site c ex h)"
  unfolding nudgeSite_def by (intro hub_rel r_refl)

lemma r_nudgeWaiting [hub_rel]: "R env h0 h \<Longrightarrow> R env h0 (nudgeWaiting env h)"
  unfolding nudgeWaiting_def by (intro hub_rel r_refl)

lemma r_nudgeHttp [hub_rel]:
  assumes "R env h0 h"
  shows "R env h0 (nudgeHttp env c h)"
proof (cases "map_of (hb_http h) c")
  case (Some cl)
  then have "c \<in> http_keys h" by (metis http_keys_def dom_map_of_conv_image_fst domI)
  then have "fst ` set (map_set c v (hb_http h)) \<subseteq> http_keys h" for v by (auto simp: keys_map_set http_keys_def)
  then show ?thesis using assms Some by (auto simp: nudgeHttp_def intro!: hub_rel split: option.split)
qed (simp add: nudgeHttp_def assms)

subsection \<open>Configuration and exams\<close>

lemma r_send_config: "R env h0 h \<Longrightarrow> R env h0 (send_config e c i h)"
  unfolding send_config_def by (intro hub_rel)

lemma r_configChanged [hub_rel]: "R env h0 h \<Longrightarrow> R env h0 (configChanged env h)"
  unfolding configChanged_def Let_def case_prod_beta by (intro hub_rel r_refl r_send_config)

lemma r_tick_exam: "R env (snd p) (snd (tick_exam env exam p))"
proof -
  have "exam_key exam \<noteq> ''tenantId''" by (simp add: exam_key_def)
  then show ?thesis by (cases p) (simp add: tick_exam_def Let_def hub_rel r_refl)
qed

lemma map_of_filter_key: "P k \<Longrightarrow> map_of (filter (\<lambda>(x, _). P x) m) k = map_of m k"
  by (induction m) auto

lemma r_forget_exams [hub_rel]: "R env h0 h \<Longrightarrow> R env h0 (forget_exams es h)"
  unfolding forget_exams_def
  by (intro hub_rel map_of_filter_key [of "\<lambda>k. \<not> (startsWith k ''exam:'' \<and> k \<notin> set (map exam_key es))"]) (simp_all add: startsWith_def)

lemma r_clear_exam [hub_rel]: "R env h0 h \<Longrightarrow> R env h0 (clear_exam env e h)"
  unfolding clear_exam_def Let_def by (intro hub_rel)

lemma r_scheduleExamAlarm [hub_rel]: "R env h0 h \<Longrightarrow> R env h0 (scheduleExamAlarm e h)"
  unfolding scheduleExamAlarm_def Let_def by (intro hub_rel)

lemma r_ticks: "R env h0 h \<Longrightarrow> R env h0 (snd (fold (tick_exam env) es ([], h)))"
  by (rule r_snd_fold) (simp_all add: r_tick_exam)

lemma r_examTick [hub_rel]: "R env h0 h \<Longrightarrow> R env h0 (examTick env h)"
  unfolding examTick_def Let_def case_prod_beta by (intro hub_rel r_ticks r_refl)

subsection \<open>Workstations\<close>

lemma r_send_welcome [hub_rel]: "R env h0 h \<Longrightarrow> R env h0 (send_welcome env i c p h)"
  unfolding send_welcome_def Let_def case_prod_beta by (intro hub_rel)

lemma r_acceptDevice [hub_rel]: "R env h0 h \<Longrightarrow> R env h0 (acceptDevice env i c ip p h)"
  unfolding acceptDevice_def Let_def
  by (intro hub_rel r_refl) (auto simp: registryRow_def http_keys_def keys_map_delete)

lemma r_rememberSite [hub_rel]: "R env h0 h \<Longrightarrow> R env h0 (rememberSite env c ip l h)"
  unfolding rememberSite_def by (intro hub_rel)

lemma r_first_contact [hub_rel]: "R env h0 h \<Longrightarrow> R env h0 (first_contact env c cl h)"
  unfolding first_contact_def by (intro hub_rel) (auto simp: registryRow_def)

lemma r_heartbeat_answer [hub_rel]: "R env h0 h \<Longrightarrow> R env h0 (snd (heartbeat_answer_of env c p h))"
  by (cases "fst (loadConfig env False h)") (simp_all add: heartbeat_answer_of_def Let_def case_prod_beta hub_rel)

lemma r_refusalFor [hub_rel]: "R env h0 h \<Longrightarrow> R env h0 (snd (refusalFor env c h))"
  by (simp add: refusalFor_def Let_def case_prod_beta hub_rel)

lemma refusalFor_None: "refusalFor env c h = (None, h1) \<Longrightarrow> \<not> isRevoked h1 c"
  by (auto simp: refusalFor_def Let_def case_prod_beta isRevoked_def loadConfig_def split: if_splits)

lemma r_after_heartbeat [hub_rel]: "R env h0 h \<Longrightarrow> R env h0 (after_heartbeat env c pl first changed cl h)"
  unfolding after_heartbeat_def Let_def by (intro hub_rel)

lemma r_handleHeartbeat [hub_rel]: "R env h0 h \<Longrightarrow> R env h0 (snd (handleHeartbeat env c ip p pl h))"
proof (cases "refusalFor env (string_or c) h")
  case (Pair r h1)
  assume h: "R env h0 h"
  then have h1: "R env h0 h1" using r_refusalFor [of env h0 h "string_or c"] Pair by simp
  have keys: "fst ` set (map_set k v (hb_http h1)) \<subseteq> insert k (http_keys h1)" for k v by (simp add: keys_map_set http_keys_def)
  show ?thesis
  proof (cases r)
    case None
    then have "R env h0 (h1\<lparr>hb_http := map_set (string_or c) v (hb_http h1)\<rparr>)" for v
      using r_http_new [OF h1 _ keys] refusalFor_None Pair by simp
    then show ?thesis using h None Pair
      by (simp add: handleHeartbeat_def Let_def case_prod_beta r_after_heartbeat r_heartbeat_answer split: option.split)
  qed (auto simp: handleHeartbeat_def Let_def Pair h h1 split: option.split)
qed

lemma r_report_status [hub_rel]: "R env h0 h \<Longrightarrow> R env h0 (report_status env i a d h)"
  unfolding report_status_def Let_def by (intro hub_rel)

lemma r_webSocketMessage [hub_rel]: "R env h0 h \<Longrightarrow> R env h0 (webSocketMessage env i m h)"
  unfolding webSocketMessage_def Let_def
  by (auto intro!: hub_rel split: option.split attachment.split)

lemma r_device_gone [hub_rel]: "R env h0 h \<Longrightarrow> R env h0 (device_gone env i a h)"
  unfolding device_gone_def Let_def by (intro hub_rel) (auto simp: registryRow_def)

lemma r_socketGone [hub_rel]: "R env h0 h \<Longrightarrow> R env h0 (socketGone env i h)"
  unfolding socketGone_def Let_def by (auto intro!: hub_rel split: option.split attachment.split)

lemma r_webSocketClose [hub_rel]: "R env h0 h \<Longrightarrow> R env h0 (webSocketClose env i h)"
  unfolding webSocketClose_def Let_def by (intro hub_rel)

subsection \<open>Write-back and the alarm\<close>

lemma r_flush_socket: "R env (snd p) (snd (flush_socket env i p))"
  by (cases p) (auto simp: flush_socket_def intro!: hub_rel r_refl split: option.split)

lemma r_forget_http [hub_rel]: "R env h0 h \<Longrightarrow> R env h0 (forget_http env c cl h)"
  unfolding forget_http_def by (intro hub_rel) (auto simp: http_keys_def keys_map_delete)

lemma r_flush_http: "R env (snd p) (snd (flush_http env c p))"
proof (cases "map_of (hb_http (snd p)) c")
  case (Some cl)
  then have "c \<in> http_keys (snd p)" by (metis http_keys_def dom_map_of_conv_image_fst domI)
  then have "R env (snd p) ((snd p)\<lparr>hb_http := map_set c v (hb_http (snd p))\<rparr>)" for v
    by (intro p_http) (auto simp: keys_map_set http_keys_def)
  then show ?thesis by (cases p) (auto simp: flush_http_def Let_def intro: r_forget_http r_refl split: option.split)
qed (cases p; simp add: flush_http_def r_refl)

end

text \<open>Which organization a hub is bound to is none of these operations' business.\<close>

interpretation tenant_kept: hub_relation "\<lambda>env h h'. hb_tenantId h' = hb_tenantId h"
proof
  have mark: "hb_tenantId (fold (mark_delivered c) rows h) = hb_tenantId h" for c rows h
    by (induction rows arbitrary: h) (auto simp: mark_delivered_def)
  show pend: "hb_tenantId (snd (pendingFor env c u h)) = hb_tenantId h" for env c u h
    by (simp add: pendingFor_def Let_def mark)
  have add: "hb_tenantId (snd (fold (add_command env input) ts p)) = hb_tenantId (snd p)" for env input ts p
    by (induction ts arbitrary: p) (auto simp: add_command_def Let_def case_prod_beta)
  have fold: "(\<And>x h. hb_tenantId (f x h) = hb_tenantId h) \<Longrightarrow> hb_tenantId (fold f xs h) = hb_tenantId h" for f :: "'a \<Rightarrow> hub \<Rightarrow> hub" and xs h
    by (induction xs arbitrary: h) auto
  have del: "hb_tenantId (deliver_now env c i h) = hb_tenantId h" for env c i h
    by (auto simp: deliver_now_def Let_def case_prod_beta pend sendTo_def split: option.split)
  have noti: "hb_tenantId (notifyConsoles m h) = hb_tenantId h" for m h
    unfolding notifyConsoles_def by (rule fold) (simp add: sendTo_def)
  have lock: "hb_tenantId (show_lock env b i h) = hb_tenantId h" for env b i h
    by (auto simp: show_lock_def Let_def noti serializeAttachment_def split: option.split)
  show "hb_tenantId (snd (enqueue env input h)) = hb_tenantId h" for env input h
    by (simp add: enqueue_def Let_def case_prod_beta ensureAlarm_def lock_http_def fold lock del loadConfig_def add)
qed (simp_all add: update_db_def purgeExpiredCommands_def Let_def)

text \<open>The rows a flush collects are the organization's own.\<close>

definition own_rows :: "hub \<Rightarrow> registry_row list \<times> hub \<Rightarrow> bool" where
  "own_rows h p = (hb_tenantId (snd p) = hb_tenantId h \<and> (\<forall>r\<in>set (fst p). rg_tenant_id r = text_of (hb_tenantId h)))"

lemma own_rows_socket: "own_rows h p \<Longrightarrow> own_rows h (flush_socket env i p)"
  by (cases p) (auto simp: own_rows_def flush_socket_def registryRow_def serializeAttachment_def split: option.split)

lemma own_rows_http: "own_rows h p \<Longrightarrow> own_rows h (flush_http env c p)"
  by (cases p) (auto simp: own_rows_def flush_http_def Let_def registryRow_def tenant_kept.r_forget_http split: option.split)

lemma own_rows_fold: "own_rows h p \<Longrightarrow> (\<And>x p. own_rows h p \<Longrightarrow> own_rows h (f x p)) \<Longrightarrow> own_rows h (fold f xs p)"
  by (induction xs arbitrary: p) auto

fun common_request :: "hub_request \<Rightarrow> bool" where
  "common_request (Remove_device _) = False"
| "common_request (Device_enrolled _) = False"
| "common_request (Remote_open _) = False"
| "common_request (Remote_ended _) = False"
| "common_request Remote_revoke = False"
| "common_request _ = True"

context hub_relation
begin

lemma r_flush_rows:
  assumes "R env h0 h"
  shows "R env h0 (snd (fold (flush_http env) ks (fold (flush_socket env) is ([], h))))
    \<and> own_rows h (fold (flush_http env) ks (fold (flush_socket env) is ([], h)))"
proof -
  have "own_rows h ([], h)" by (simp add: own_rows_def)
  then have "own_rows h (fold (flush_http env) ks (fold (flush_socket env) is ([], h)))"
    by (intro own_rows_fold own_rows_socket own_rows_http)
  moreover have "R env h0 (snd (fold (flush_http env) ks (fold (flush_socket env) is ([], h))))"
    using assms by (intro r_snd_fold r_flush_socket r_flush_http) simp_all
  ultimately show ?thesis by simp
qed

lemma r_write_counts [hub_rel]: "R env h0 h \<Longrightarrow> R env h0 (write_counts env h)"
  unfolding write_counts_def Let_def case_prod_beta by (intro hub_rel) simp_all

lemma r_flush [hub_rel]:
  assumes "R env h0 h"
  shows "R env h0 (flush env h)"
proof -
  let ?p = "fold (flush_socket env) (map sk_id (device_sockets h)) ([], h)"
  let ?q = "fold (flush_http env) (map fst (hb_http (snd ?p))) ?p"
  have "R env h0 (snd ?q)" "own_rows h ?q" using r_flush_rows [OF assms] by blast+
  then have w: "R env h0 (writeRegistry (fst ?q) (snd ?q))" by (intro r_writeRegistry) (auto simp: own_rows_def)
  then show ?thesis unfolding flush_def Let_def by (rule r_write_counts)
qed

lemma r_sweep_socket: "R env h0 h \<Longrightarrow> R env h0 (sweep_socket env i h)"
  unfolding sweep_socket_def by (intro hub_rel)

lemma r_sweepStale [hub_rel]: "R env h0 h \<Longrightarrow> R env h0 (sweepStale env h)"
  unfolding sweepStale_def by (intro hub_rel r_sweep_socket r_refl)

text \<open>The alarm handler, once the runtime has cleared the alarm.\<close>

lemma r_alarm_rest: "R env (h\<lparr>hb_alarm := None\<rparr>) (alarm env h)"
  unfolding alarm_def Let_def by (intro hub_rel r_refl)

subsection \<open>Requests\<close>

lemma r_lanPeersFor [hub_rel]: "R env h0 h \<Longrightarrow> R env h0 (snd (lanPeersFor env c v h))"
proof -
  have "snd (lanPeersFor env c v h) = snd (loadConfig env False h)"
    by (simp add: lanPeersFor_def Let_def case_prod_beta split: list.split option.split)
  then show "R env h0 h \<Longrightarrow> ?thesis" by (simp add: r_loadConfig)
qed

lemma r_check_one: "R env (snd p) (snd (check_one env c i p))"
  by (cases p) (auto simp: check_one_def Let_def case_prod_beta intro!: hub_rel r_refl split: list.split option.split)

lemma r_checkUpdate [hub_rel]: "R env h0 h \<Longrightarrow> R env h0 (snd (checkUpdate env raw f h))"
  unfolding checkUpdate_def Let_def case_prod_beta snd_conv
  by (intro hub_rel r_snd_fold r_check_one) (simp_all add: r_loadConfig)

lemma r_installUpdate [hub_rel]: "R env h0 h \<Longrightarrow> R env h0 (snd (installUpdate env raw h))"
  unfolding installUpdate_def Let_def case_prod_beta snd_conv by (intro hub_rel r_refl)

lemma r_wake [hub_rel]: "R env h0 h \<Longrightarrow> R env h0 (snd (wake env raw h))"
  unfolding wake_def Let_def snd_conv send_wake_def case_prod_beta by (intro hub_rel r_refl)

lemma r_upgrade_device [hub_rel]: "R env h0 h \<Longrightarrow> R env h0 (snd (upgrade_device env m i h))"
proof (cases "parseDeviceMeta m")
  case (Some d)
  obtain c ip p where d: "d = (c, ip, p)" by (cases d)
  obtain r h1 where r: "refusalFor env c h = (r, h1)" by fastforce
  assume "R env h0 h"
  then have "R env h0 h1" using r_refusalFor [of env h0 h c] r by simp
  then show ?thesis by (cases r) (simp_all add: upgrade_device_def Some d r r_acceptDevice)
qed (simp add: upgrade_device_def)

lemma r_upgrade_console [hub_rel]: "R env h0 h \<Longrightarrow> R env h0 (snd (upgrade_console env m i h))"
  by (simp add: upgrade_console_def hub_rel split: option.split)

lemma r_attend [hub_rel]: "R env h0 h \<Longrightarrow> R env h0 (attend env h)"
  unfolding attend_def by (intro hub_rel)

lemma r_common_route: "common_request r \<Longrightarrow> R env h0 h \<Longrightarrow> R env h0 (snd (hub_route env r h))"
  by (cases r) (simp_all add: Let_def case_prod_beta hub_rel)

end

text \<open>A relation that putting one command in the queue respects.\<close>

locale hub_fine = hub_base +
  assumes p_add: "R env (snd p) (snd (add_command env input target p))"
begin

lemma r_enqueue_fine: "R env h (snd (enqueue env input h))"
  unfolding enqueue_def Let_def case_prod_beta
  by (auto intro!: hub_rel r_refl r_snd_fold p_add)

end

sublocale hub_fine \<subseteq> hub_relation
  by unfold_locales (rule r_enqueue_fine)

end
