(* ===== verification/Hub_Queue.thy ===== *)
theory Hub_Queue
  imports Hub_Relations
begin

text \<open>
  The command queue of the organization hub (\<open>org_hub.ts\<close>: \<open>enqueue\<close>, \<open>pendingFor\<close>,
  \<open>purgeExpiredCommands\<close>): across every event the hub answers, each workstation is handed a command at
  most once, and is handed every command queued for it that has not expired.
\<close>

definition queue_ok :: "(nat \<Rightarrow> string) \<Rightarrow> hub \<Rightarrow> bool" where
  "queue_ok uuid h =
     (distinct (map cm_id (hb_commands h)) \<and> cm_id ` set (hb_commands h) \<subseteq> uuid ` {..<hb_drawn h}
      \<and> distinct (hb_handed h) \<and> snd ` set (hb_handed h) \<subseteq> uuid ` {..<hb_drawn h}
      \<and> (\<forall>(c, i)\<in>set (hb_handed h). i \<in> cm_id ` set (hb_commands h) \<longrightarrow> (i, c) \<in> set (hb_deliveries h))
      \<and> (\<forall>(i, c)\<in>set (hb_deliveries h). (c, i) \<in> set (hb_handed h)))"

lemma queue_ok_cong:
  "hb_commands h' = hb_commands h \<Longrightarrow> hb_deliveries h' = hb_deliveries h \<Longrightarrow> hb_drawn h' = hb_drawn h \<Longrightarrow>
   hb_handed h' = hb_handed h \<Longrightarrow> queue_ok uuid h' = queue_ok uuid h"
  by (simp add: queue_ok_def)

subsection \<open>Marking commands as delivered\<close>

lemma mark_fields:
  "hb_handed (fold (mark_delivered c) rows h) = hb_handed h \<and> hb_drawn (fold (mark_delivered c) rows h) = hb_drawn h"
  by (induction rows arbitrary: h) (auto simp: mark_delivered_def)

lemma mark_commands:
  "hb_commands (fold (mark_delivered c) rows h)
     = filter (\<lambda>r. \<forall>q\<in>set rows. cm_target q = c \<longrightarrow> cm_id r \<noteq> cm_id q) (hb_commands h)"
  by (induction rows arbitrary: h) (auto simp: mark_delivered_def tbl_delete_def intro!: filter_cong)

lemma mark_deliveries:
  "set (hb_deliveries (fold (mark_delivered c) rows h))
     = set (hb_deliveries h) \<union> {(cm_id q, c) |q. q \<in> set rows \<and> cm_target q \<noteq> c}"
  by (induction rows arbitrary: h) (auto simp: mark_delivered_def tbl_insert_or_ignore_def tbl_lookup_def find_None_iff_all split: if_splits)

lemma due_commands_iff:
  "r \<in> set (due_commands h c now) \<longleftrightarrow> r \<in> set (hb_commands h) \<and> (cm_target r = ''all'' \<or> cm_target r = c) \<and> cm_expires_at r > now
     \<and> (cm_id r, c) \<notin> set (hb_deliveries h)"
  by (auto simp: due_commands_def)

lemma distinct_due: "distinct (map cm_id (hb_commands h)) \<Longrightarrow> distinct (map cm_id (due_commands h c now))"
  by (simp add: due_commands_def distinct_map_filter)

lemma queue_ok_pending:
  assumes "queue_ok uuid h"
  shows "queue_ok uuid (snd (pendingFor env c u h))"
proof -
  let ?rows = "due_commands h c (he_now env div 1000)"
  let ?h' = "snd (pendingFor env c u h)"
  have d: "distinct (map cm_id (hb_commands h))" "cm_id ` set (hb_commands h) \<subseteq> uuid ` {..<hb_drawn h}"
    and hd: "distinct (hb_handed h)" "snd ` set (hb_handed h) \<subseteq> uuid ` {..<hb_drawn h}"
    and mk: "\<And>c i. (c, i) \<in> set (hb_handed h) \<Longrightarrow> i \<in> cm_id ` set (hb_commands h) \<Longrightarrow> (i, c) \<in> set (hb_deliveries h)"
    and dl: "\<And>c i. (i, c) \<in> set (hb_deliveries h) \<Longrightarrow> (c, i) \<in> set (hb_handed h)"
    using assms by (auto simp: queue_ok_def)
  have cmd: "hb_commands ?h' = filter (\<lambda>r. \<forall>q\<in>set ?rows. cm_target q = c \<longrightarrow> cm_id r \<noteq> cm_id q) (hb_commands h)"
    and del: "set (hb_deliveries ?h') = set (hb_deliveries h) \<union> {(cm_id q, c) |q. q \<in> set ?rows \<and> cm_target q \<noteq> c}"
    and han: "hb_handed ?h' = hb_handed h @ map (\<lambda>q. (c, cm_id q)) ?rows" and drawn: "hb_drawn ?h' = hb_drawn h"
    by (simp_all add: pendingFor_def Let_def mark_commands mark_deliveries mark_fields)
  have new: "(c, cm_id q) \<notin> set (hb_handed h)" if "q \<in> set ?rows" for q
    using that mk [of c "cm_id q"] by (auto simp: due_commands_iff)
  have ids: "cm_id q \<in> uuid ` {..<hb_drawn h}" if "q \<in> set ?rows" for q
    using that d(2) by (auto simp: due_commands_iff)
  have "distinct (map (\<lambda>q. (c, cm_id q)) ?rows)"
    using distinct_due [OF d(1)] by (auto simp: distinct_map inj_on_def)
  then have "distinct (hb_handed ?h')" using hd(1) new by (auto simp: han)
  moreover have "snd ` set (hb_handed ?h') \<subseteq> uuid ` {..<hb_drawn ?h'}" using hd(2) ids by (auto simp: han drawn)
  moreover have "distinct (map cm_id (hb_commands ?h'))" using d(1) by (simp add: cmd distinct_map_filter)
  moreover have "cm_id ` set (hb_commands ?h') \<subseteq> uuid ` {..<hb_drawn ?h'}" using d(2) by (auto simp: cmd drawn)
  moreover have "(i, c') \<in> set (hb_deliveries ?h')" if "(c', i) \<in> set (hb_handed ?h')" "i \<in> cm_id ` set (hb_commands ?h')" for c' i
    using that mk [of c' i] by (auto simp: han cmd del)
  moreover have "(c', i) \<in> set (hb_handed ?h')" if "(i, c') \<in> set (hb_deliveries ?h')" for c' i
    using that dl by (auto simp: del han)
  ultimately show ?thesis by (auto simp: queue_ok_def)
qed

lemma queue_ok_purge: "queue_ok uuid h \<Longrightarrow> queue_ok uuid (purgeExpiredCommands env h)"
  unfolding queue_ok_def purgeExpiredCommands_def Let_def
  by (auto simp: distinct_map_filter) (metis (mono_tags, lifting) case_prodD distinct_map inj_onD image_eqI)

lemma queue_ok_add:
  assumes "inj uuid" and "he_uuid env = uuid" and "queue_ok uuid (snd p)"
  shows "queue_ok uuid (snd (add_command env input target p))"
proof -
  have "uuid (hb_drawn (snd p)) \<notin> uuid ` {..<hb_drawn (snd p)}" using assms(1) by (auto dest: injD)
  then show ?thesis using assms(2,3)
    by (cases p) (auto simp: add_command_def Let_def queue_ok_def lessThan_Suc image_iff)
qed

interpretation queue: hub_fine "\<lambda>env h h'. inj uuid \<and> he_uuid env = uuid \<and> queue_ok uuid h \<longrightarrow> queue_ok uuid h'" for uuid
  by unfold_locales
    (auto simp: queue_ok_pending queue_ok_purge queue_ok_add update_db_def intro: iffD2 [OF queue_ok_cong])

subsection \<open>Every event\<close>

text \<open>The fields of the queue, which the events below leave alone.\<close>

definition queue_of :: "hub \<Rightarrow> command_row list \<times> (string \<times> string) list \<times> nat \<times> (string \<times> string) list" where
  "queue_of h = (hb_commands h, hb_deliveries h, hb_drawn h, hb_handed h)"

lemma queue_ok_of: "queue_of h' = queue_of h \<Longrightarrow> queue_ok uuid h' = queue_ok uuid h"
  by (rule queue_ok_cong) (simp_all add: queue_of_def)

lemma queue_of_fold: "(\<And>x h. queue_of (f x h) = queue_of h) \<Longrightarrow> queue_of (fold f xs h) = queue_of h"
  by (induction xs arbitrary: h) auto

lemma queue_of_send: "queue_of (sendTo i m h) = queue_of h"
  by (simp add: sendTo_def queue_of_def)

lemma queue_of_notify: "queue_of (notifyConsoles m h) = queue_of h"
  unfolding notifyConsoles_def by (rule queue_of_fold) (rule queue_of_send)

lemma queue_of_close: "queue_of (close_socket i h) = queue_of h"
  by (simp add: close_socket_def queue_of_def)

lemma queue_of_fields:
  "queue_of (h\<lparr>hb_revoked := a1\<rparr>) = queue_of h" "queue_of (h\<lparr>hb_http := a2\<rparr>) = queue_of h" "queue_of (h\<lparr>hb_frames := a3\<rparr>) = queue_of h"
  "queue_of (h\<lparr>hb_lastMessage := a4\<rparr>) = queue_of h" "queue_of (h\<lparr>hb_lastSites := a5\<rparr>) = queue_of h"
  "queue_of (h\<lparr>hb_seats := a6\<rparr>) = queue_of h" "queue_of (h\<lparr>hb_tenantId := a7\<rparr>) = queue_of h" "queue_of (h\<lparr>hb_meta := a8\<rparr>) = queue_of h"
  "queue_of (h\<lparr>hb_platform := a9\<rparr>) = queue_of h" "queue_of (h\<lparr>hb_sockets := a10\<rparr>) = queue_of h" "queue_of (h\<lparr>hb_alarm := a11\<rparr>) = queue_of h"
  by (simp_all add: queue_of_def)

lemmas queue_of_simps = queue_of_send queue_of_notify queue_of_close queue_of_fields queue_of_fold

lemma queue_of_removeDevice: "queue_of (removeDevice env c h) = queue_of h"
  by (simp add: removeDevice_def Let_def queue_of_simps)

lemma queue_of_remote: "queue_of (snd (remote_open_route env c s u n e h)) = queue_of h"
proof -
  have "queue_of (snd (remoteOpen c s h)) = queue_of h" for h
    by (auto simp: remoteOpen_def queue_of_simps split: list.split)
  moreover have "queue_of (holdRemoteSeat c u k h) = queue_of h" for k h by (simp add: holdRemoteSeat_def queue_of_simps)
  moreover have "queue_of (snd (remoteSeatHolders env c h)) = queue_of h" for h by (simp add: remoteSeatHolders_def Let_def queue_of_simps)
  ultimately show ?thesis by (simp add: remote_open_route_def Let_def case_prod_beta)
qed

lemma queue_of_special:
  assumes "\<not> common_request r"
  shows "queue_of (snd (hub_route env r h)) = queue_of h"
  using assms by (cases r)
    (simp_all add: Let_def case_prod_beta queue_of_removeDevice queue_of_remote releaseRemoteSeat_def releaseAllRemoteSeats_def deviceEnrolled_def queue_of_simps)

lemma queue_of_bind: "queue_of (snd (bind_hub t h)) = queue_of h"
  by (simp add: bind_hub_def writeMeta_def queue_of_simps split: option.split)

lemma queue_ok_fetch:
  assumes "inj uuid" and "he_uuid env = uuid" and "queue_ok uuid h"
  shows "queue_ok uuid (snd (hub_fetch env t r h))"
proof -
  obtain ok h1 where b: "bind_hub t h = (ok, h1)" by fastforce
  then have h1: "queue_ok uuid h1" using assms(3) queue_ok_of [OF queue_of_bind [of t h]] by simp
  then have "queue_ok uuid (snd (hub_route env r h1))"
    using queue.r_common_route [of r uuid env h1 h1] queue_ok_of [OF queue_of_special [of r env h1]] assms(1,2)
    by (cases "common_request r") auto
  then show ?thesis using b h1 by (cases ok) (simp_all add: hub_fetch_def)
qed

lemma queue_ok_step:
  assumes "inj uuid" and "he_uuid env = uuid" and "queue_ok uuid h"
  shows "queue_ok uuid (hub_step (env, e) h)"
proof (cases e)
  case (Message i m)
  then show ?thesis using assms queue.r_webSocketMessage [of uuid env h h i m] by simp
next
  case (Closed i)
  then show ?thesis using assms queue.r_webSocketClose [of uuid env h h i] by simp
next
  case Alarm
  have "queue_ok uuid (h\<lparr>hb_alarm := None\<rparr>)" using assms(3) queue_ok_of [OF queue_of_fields(11)] by blast
  then show ?thesis using assms(1,2) queue.r_alarm_rest [of uuid env h] Alarm by simp
qed (use assms in \<open>auto simp: queue_ok_fetch wake_hub_def intro: iffD2 [OF queue_ok_cong]\<close>)

text \<open>The runs of one hub whose identifiers are drawn from \<open>uuid\<close>.\<close>

definition hub_run :: "(nat \<Rightarrow> string) \<Rightarrow> (hub_env \<times> hub_event) list \<Rightarrow> hub \<Rightarrow> hub" where
  "hub_run uuid = run_steps (\<lambda>(env, e). hub_step (env\<lparr>he_uuid := uuid\<rparr>, e))"

interpretation queue_runs: step_system "\<lambda>(env, e). hub_step (env\<lparr>he_uuid := uuid\<rparr>, e)" "\<lambda>h. inj uuid \<longrightarrow> queue_ok uuid h" for uuid
  by unfold_locales (auto intro!: queue_ok_step)


subsection \<open>A reconnecting workstation\<close>

lemma socket_of_mem: "distinct (map sk_id (hb_sockets h)) \<Longrightarrow> s \<in> set (hb_sockets h) \<Longrightarrow> socket_of h (sk_id s) = Some s"
  unfolding socket_of_def using tbl_lookup_eq [of sk_id "hb_sockets h" s] by (simp add: tbl_lookup_def)

lemma client_sockets_mem: "s \<in> set (client_sockets h c) \<longleftrightarrow> s \<in> set (hb_sockets h) \<and> (\<exists>a. as_device s = Some a \<and> da_clientId a = c)"
  by (auto simp: client_sockets_def)

lemma one_command_due:
  assumes "hb_commands h = [r]" and "cm_target r = c" and "cm_expires_at r > he_now env div 1000" and "(cm_id r, c) \<notin> set (hb_deliveries h)"
  shows "pendingFor env c u h = ([queued u r], h\<lparr>hb_handed := hb_handed h @ [(c, cm_id r)], hb_commands := []\<rparr>)"
  using assms by (simp add: pendingFor_def due_commands_def mark_delivered_def tbl_delete_def Let_def)

lemma nothing_due: "hb_commands h = [] \<Longrightarrow> pendingFor env c u h = ([], h)"
  by (simp add: pendingFor_def due_commands_def Let_def)

definition for_one :: "string \<Rightarrow> enqueue_input" where
  "for_one c = \<lparr>eq_targets = [c], eq_action = Reload, eq_payload = no_payload, eq_reloadConfig = False\<rparr>"

lemma deliver_closing:
  assumes "socket_of h i = Some s" and "as_device s = Some a" and "da_clientId a = c" and "sk_closing s"
    and "hb_commands h = [r]" and "cm_target r = c" and "cm_expires_at r > he_now env div 1000" and "(cm_id r, c) \<notin> set (hb_deliveries h)"
  shows "deliver_now env (Some cfg) i h = h\<lparr>hb_handed := hb_handed h @ [(c, cm_id r)], hb_commands := []\<rparr>"
proof -
  have "\<not> can_send (h\<lparr>hb_handed := x, hb_commands := y\<rparr>) i" for x y using assms(1,4) by (simp add: can_send_def socket_of_def)
  then show ?thesis
    using assms by (simp add: deliver_now_def deviceAttachment_def one_command_due sendTo_def)
qed

lemma deliver_nothing: "hb_commands h = [] \<Longrightarrow> deliver_now env config i h = h"
  by (auto simp: deliver_now_def nothing_due split: option.split)

text \<open>
  C27. A command queued while a workstation reconnects is lost. When a workstation connects anew
  its old socket is closed but stays listed, first, until the close is through. A command queued for
  that workstation then is counted as handed over and leaves the queue, yet nothing is sent: the
  closing socket refuses it, and the open one finds nothing left. In the same moment a Remote Control
  session cannot be opened, although the workstation is connected.
\<close>

theorem reconnect_loses_command:
  assumes "client_sockets h c = [s1, s2]" and "distinct (map sk_id (hb_sockets h))" and "sk_closing s1"
    and "hb_commands h = []" and "hb_config h = Some cfg" and "he_now env - hg_loadedAt cfg < CONFIG_TTL_MS"
    and "c \<noteq> []" and "c \<noteq> ''all''" and "(he_uuid env (hb_drawn h), c) \<notin> set (hb_deliveries h)"
  shows "let (ids, h') = enqueue env (for_one c) h in
      ids = [he_uuid env (hb_drawn h)] \<and> hb_handed h' = hb_handed h @ [(c, he_uuid env (hb_drawn h))]
      \<and> hb_commands h' = [] \<and> hb_sent h' = hb_sent h \<and> client_sockets h' c = [s1, s2] \<and> \<not> fst (remoteOpen c sess h')"
proof -
  let ?now = "he_now env div 1000" and ?i = "he_uuid env (hb_drawn h)"
  let ?r = "\<lparr>cm_id = ?i, cm_target = c, cm_action = Reload, cm_payload = no_payload, cm_created_at = ?now, cm_expires_at = ?now + COMMAND_TTL_SECONDS\<rparr>"
  let ?h1 = "h\<lparr>hb_drawn := hb_drawn h + 1, hb_commands := [?r]\<rparr>"
  let ?h2 = "?h1\<lparr>hb_handed := hb_handed h @ [(c, ?i)], hb_commands := []\<rparr>"
  have mem: "s1 \<in> set (client_sockets h c)" "s2 \<in> set (client_sockets h c)" using assms(1) by simp_all
  then obtain a where s1: "as_device s1 = Some a" "da_clientId a = c" "s1 \<in> set (hb_sockets h)" by (auto simp: client_sockets_mem)
  have sock: "socket_of ?h1 (sk_id s1) = Some s1" using socket_of_mem [OF assms(2) s1(3)] by (simp add: socket_of_def)
  have clients: "client_sockets ?h1 c = [s1, s2]" using assms(1) by (simp add: client_sockets_def)
  have one: "deliver_now env (Some cfg) (sk_id s1) ?h1 = ?h2"
    using deliver_closing [OF sock s1(1,2) assms(3), of ?r env cfg] assms(9) by (simp add: COMMAND_TTL_SECONDS_def)
  have two: "deliver_now env (Some cfg) (sk_id s2) ?h2 = ?h2" by (rule deliver_nothing) simp
  have load: "loadConfig env False ?h1 = (Some cfg, ?h1)" using assms(5,6) by (simp add: loadConfig_def)
  have enq: "enqueue env (for_one c) h = ([?i], ensureAlarm env FLUSH_DELAY_MS ?h2)"
    using assms(4,7,8) clients load one two
    by (simp add: enqueue_def for_one_def Let_def add_command_def addressed_def)
  have alarm: "hb_handed (ensureAlarm env d k) = hb_handed k" "hb_commands (ensureAlarm env d k) = hb_commands k"
    "hb_sent (ensureAlarm env d k) = hb_sent k" "hb_sockets (ensureAlarm env d k) = hb_sockets k" for d k
    by (simp_all add: ensureAlarm_def Let_def)
  have c': "client_sockets (ensureAlarm env FLUSH_DELAY_MS ?h2) c = [s1, s2]" using clients by (simp add: client_sockets_def alarm)
  have "\<not> can_send (ensureAlarm env FLUSH_DELAY_MS ?h2) (sk_id s1)"
    using sock assms(3) by (simp add: can_send_def socket_of_def alarm)
  then have "\<not> fst (remoteOpen c sess (ensureAlarm env FLUSH_DELAY_MS ?h2))" using c' by (simp add: remoteOpen_def)
  then show ?thesis using enq c' by (simp add: alarm)
qed

subsection \<open>A hub for examples\<close>

definition empty_hub :: "platform \<Rightarrow> hub" where
  "empty_hub p = \<lparr>hb_tenantId = None, hb_config = None, hb_http = [], hb_frames = [], hb_lastMessage = [], hb_pollWatch = [],
     hb_attendedUntil = 0, hb_departed = [], hb_flushed = (- 1, - 1), hb_sockets = [], hb_commands = [], hb_deliveries = [],
     hb_revoked = [], hb_meta = [], hb_seats = [], hb_lastSites = [], hb_alarm = None, hb_drawn = 0, hb_sent = [], hb_handed = [],
     hb_platform = p\<rparr>"

definition lab_platform :: platform where
  "lab_platform = \<lparr>pl_db = empty_db\<lparr>tenants := [plain_tenant ''t'' ''owner'' ''lab'']\<rparr>,
     pl_releases = \<lparr>releases = [], release_support = [], release_majors = [], major_upgrade_grants = []\<rparr>,
     pl_channel = (\<lambda>_. None), pl_printers = [], pl_whitelist = [], pl_sites = [], pl_presets = [], pl_registry = [], pl_online = (\<lambda>_. (0, 0))\<rparr>"

definition lab_env :: "int \<Rightarrow> hub_env" where
  "lab_env now = \<lparr>he_now = now, he_parse = (\<lambda>_. None), he_floor = (\<lambda>_. None),
     he_integer = (\<lambda>v. case v of JInt i \<Rightarrow> Some i | _ \<Rightarrow> None), he_uuid = (\<lambda>n. replicate n CHR ''x''), he_order = []\<rparr>"

definition lab_context :: portal_context where
  "lab_context = \<lparr>pc_origin = ''https://l'', pc_urlOrigin = ''https://l'', pc_isHttps = True, pc_isDev = False, pc_host = ''l'',
     pc_hostSlug = None, pc_baseDomain = []\<rparr>"

definition lab_socket :: "nat \<Rightarrow> string \<Rightarrow> bool \<Rightarrow> socket" where
  "lab_socket i c closing = \<lparr>sk_id = i, sk_attachment = Device (new_attachment None c [] lab_context 0), sk_pinged = 0, sk_closing = closing\<rparr>"

definition lab_hub :: "socket list \<Rightarrow> hub" where
  "lab_hub socks = (empty_hub lab_platform)\<lparr>hb_tenantId := Some ''t'', hb_sockets := socks,
     hb_config := Some (config_of (lab_env 0) lab_platform (plain_tenant ''t'' ''owner'' ''lab''))\<rparr>"

lemma lab_hub_sockets: "client_sockets (lab_hub socks) c = filter (\<lambda>s. map_option da_clientId (as_device s) = Some c) socks"
  by (simp add: client_sockets_def lab_hub_def)

lemma lab_socket_simps: "as_device (lab_socket i c b) = Some (new_attachment None c [] lab_context 0)" "sk_id (lab_socket i c b) = i"
  "sk_closing (lab_socket i c b) = b" "da_clientId (new_attachment None c [] lab_context 0) = c"
  by (simp_all add: lab_socket_def as_device_def new_attachment_def)

theorem reconnect_loses_command_witness:
  "hb_commands (snd (enqueue (lab_env 1) (for_one ''PC-1'') (lab_hub [lab_socket 2 ''PC-1'' True, lab_socket 3 ''PC-1'' False]))) = []
   \<and> hb_sent (snd (enqueue (lab_env 1) (for_one ''PC-1'') (lab_hub [lab_socket 2 ''PC-1'' True, lab_socket 3 ''PC-1'' False]))) = []"
proof -
  let ?h = "lab_hub [lab_socket 2 ''PC-1'' True, lab_socket 3 ''PC-1'' False]"
  have c: "client_sockets ?h ''PC-1'' = [lab_socket 2 ''PC-1'' True, lab_socket 3 ''PC-1'' False]" by (simp add: lab_hub_sockets lab_socket_simps)
  have cfg: "hb_config ?h = Some (config_of (lab_env 0) lab_platform (plain_tenant ''t'' ''owner'' ''lab''))" "hb_commands ?h = []"
    "hb_deliveries ?h = []" "hb_sent ?h = []" "distinct (map sk_id (hb_sockets ?h))"
    by (simp_all add: lab_hub_def empty_hub_def lab_socket_simps)
  have t: "he_now (lab_env 1) - hg_loadedAt (config_of (lab_env 0) lab_platform (plain_tenant ''t'' ''owner'' ''lab'')) < CONFIG_TTL_MS"
    by (simp add: config_of_def Let_def lab_env_def CONFIG_TTL_MS_def)
  show ?thesis
    using reconnect_loses_command [OF c cfg(5) _ cfg(2,1) t, of "[]"] by (simp add: cfg lab_socket_simps case_prod_beta)
qed


end
