(* ===== verification/Hub_Access.thy ===== *)
theory Hub_Access
  imports Hub_Queue
begin

text \<open>
  Access to the organization hub: a removed workstation stays out, a hub serves one organization,
  Remote Control keeps to its seats, and work that waits always has an alarm to wake the hub.
\<close>

subsection \<open>One event\<close>

context hub_relation
begin

text \<open>An event respects a relation if the parts of it do that the handlers leave open.\<close>

lemma r_step:
  assumes "\<And>t r. e = Request t r \<Longrightarrow> R env h (snd (bind_hub t h))"
    and "\<And>t r k. e = Request t r \<Longrightarrow> \<not> common_request r \<Longrightarrow> R env k (snd (hub_route env r k))"
    and "e = Alarm \<Longrightarrow> R env h (h\<lparr>hb_alarm := None\<rparr>)"
    and "\<And>p. e = Platform p \<Longrightarrow> R env h (h\<lparr>hb_platform := p\<rparr>)"
    and "e = Evicted \<Longrightarrow> R env h (wake_hub h)"
  shows "R env h (hub_step (env, e) h)"
proof (cases e)
  case (Request t r)
  obtain ok h1 where b: "bind_hub t h = (ok, h1)" by fastforce
  then have "R env h h1" using assms(1) [OF Request] by simp
  moreover have "R env h1 (snd (hub_route env r h1))" using assms(2) [OF Request] r_common_route [OF _ r_refl] by blast
  ultimately show ?thesis using b Request r_trans by (cases ok) (auto simp: hub_fetch_def)
next
  case Alarm
  then show ?thesis using r_trans [OF assms(3) r_alarm_rest] by simp
next
  case (Ping i)
  then show ?thesis using p_sockets by simp
qed (use assms(4,5) r_webSocketMessage [OF r_refl] r_webSocketClose [OF r_refl] in auto)

text \<open>The rarer requests respect a relation that a change of removals or of seats does.\<close>

lemma r_removeDevice:
  assumes "\<And>k x. R env k (k\<lparr>hb_revoked := map_set c x (hb_revoked k)\<rparr>)"
  shows "R env h (removeDevice env c h)"
  unfolding removeDevice_def Let_def
  by (intro r_if r_notify r_update r_http r_fold r_close r_refl assms) (auto simp: keys_map_delete http_keys_def)

lemma r_remote_open:
  assumes "\<And>k x. R env k (k\<lparr>hb_seats := x\<rparr>)"
  shows "R env h (snd (remote_open_route env c s u n e h))"
  by (auto simp: remote_open_route_def Let_def case_prod_beta remoteOpen_def remoteSeatHolders_def holdRemoteSeat_def
      intro!: r_sendTo r_refl assms r_trans [OF _ assms] split: list.split)

lemma r_rare:
  assumes "\<And>k x. R env k (k\<lparr>hb_revoked := x\<rparr>)" and "\<And>k x. R env k (k\<lparr>hb_seats := x\<rparr>)"
  shows "\<not> common_request r \<Longrightarrow> R env h (snd (hub_route env r h))"
  by (cases r) (simp_all add: Let_def case_prod_beta r_removeDevice r_remote_open deviceEnrolled_def
      releaseRemoteSeat_def releaseAllRemoteSeats_def assms r_refl)

end

subsection \<open>A removed workstation\<close>

definition gone :: "string \<Rightarrow> hub \<Rightarrow> bool" where
  "gone c h = (isRevoked h c \<and> c \<notin> http_keys h)"

definition registry_of :: "string \<Rightarrow> hub \<Rightarrow> registry_row list" where
  "registry_of c h = filter (\<lambda>r. rg_client_id r = c) (pl_registry (hb_platform h))"

definition stays_gone :: "string \<Rightarrow> hub \<Rightarrow> hub \<Rightarrow> bool" where
  "stays_gone c h h' = (gone c h \<longrightarrow> gone c h' \<and> registry_of c h' = registry_of c h)"

lemma stays_gone_cong:
  "hb_revoked h' = hb_revoked h \<Longrightarrow> http_keys h' \<subseteq> http_keys h \<Longrightarrow> registry_of c h' = registry_of c h \<Longrightarrow> stays_gone c h h'"
  by (auto simp: stays_gone_def gone_def isRevoked_def)

lemma filter_upsert_other:
  assumes "\<And>q. key q = key r \<Longrightarrow> \<not> P q"
  shows "filter P (tbl_upsert key r t) = filter P t"
proof -
  have "filter P (map (\<lambda>q. if key q = key r then r else q) t) = filter P t" using assms by (induction t) auto
  then show ?thesis using assms by (simp add: tbl_upsert_def)
qed

lemma registry_of_upsert:
  assumes "rg_client_id r \<noteq> c"
  shows "filter (\<lambda>r. rg_client_id r = c) (pl_registry (upsert_registry r p)) = filter (\<lambda>r. rg_client_id r = c) (pl_registry p)"
proof -
  have "rg_key (registry_merge r o') = rg_key r" for o' by (simp add: registry_merge_def rg_key_def split: option.split)
  then show ?thesis unfolding upsert_registry_def
    using assms by (simp, intro filter_upsert_other) (auto simp: rg_key_def)
qed

lemma mark_keeps: "hb_revoked (fold (mark_delivered c) rows h) = hb_revoked h \<and> hb_http (fold (mark_delivered c) rows h) = hb_http h
   \<and> hb_platform (fold (mark_delivered c) rows h) = hb_platform h"
  by (induction rows arbitrary: h) (auto simp: mark_delivered_def)

interpretation staying_out: hub_fine "\<lambda>env. stays_gone c" for c
proof unfold_locales
  show "stays_gone c h h2" if "stays_gone c h h1" "stays_gone c h1 h2" for h h1 h2
    using that by (simp add: stays_gone_def)
  show "stays_gone c h (h\<lparr>hb_http := m\<rparr>)" if "\<not> isRevoked h c'" "fst ` set m \<subseteq> insert c' (http_keys h)" for h m c'
    using that by (auto simp: stays_gone_def gone_def isRevoked_def http_keys_def registry_of_def)
  show "stays_gone c h (h\<lparr>hb_platform := upsert_registry r (hb_platform h)\<rparr>)" if "\<not> isRevoked h (rg_client_id r)" for h r
    using that registry_of_upsert [of r c "hb_platform h"]
    by (auto simp: stays_gone_def gone_def isRevoked_def http_keys_def registry_of_def)
  show "stays_gone c h (h\<lparr>hb_http := m\<rparr>)" if "fst ` set m \<subseteq> http_keys h" for h m
    by (rule stays_gone_cong) (use that in \<open>simp_all add: http_keys_def registry_of_def\<close>)
  show "stays_gone c h (snd (pendingFor env c' u h))" for env h c' u
    by (rule stays_gone_cong) (simp_all add: pendingFor_def Let_def mark_keeps registry_of_def http_keys_def)
  show "stays_gone c (snd p) (snd (add_command env input target p))" for env p input target
    by (rule stays_gone_cong) (simp_all add: add_command_def Let_def case_prod_beta registry_of_def http_keys_def)
qed (auto intro!: stays_gone_cong simp: registry_of_def http_keys_def update_db_def setTenantOnlineCount_def purgeExpiredCommands_def Let_def)


fun enrols :: "string \<Rightarrow> hub_event \<Rightarrow> bool" where
  "enrols c (Request _ (Device_enrolled b)) = (string_or (field b ''clientId'') = c)"
| "enrols c _ = False"

fun from_outside :: "hub_event \<Rightarrow> bool" where
  "from_outside (Platform _) = True"
| "from_outside _ = False"

lemma stays_gone_fields:
  "stays_gone c h (h\<lparr>hb_seats := s\<rparr>)" "stays_gone c h (h\<lparr>hb_alarm := a\<rparr>)" "stays_gone c h (snd (bind_hub t h))" "stays_gone c h (wake_hub h)"
  "stays_gone c h (h\<lparr>hb_revoked := map_set c' x (hb_revoked h)\<rparr>)" "c' \<noteq> c \<Longrightarrow> stays_gone c h (deviceEnrolled c' h)"
  by (auto simp: stays_gone_def gone_def isRevoked_def http_keys_def registry_of_def bind_hub_def writeMeta_def wake_hub_def keys_map_set
      deviceEnrolled_def keys_map_delete split: option.split)

lemma stays_gone_step:
  assumes "\<not> enrols c e" and "\<not> from_outside e"
  shows "stays_gone c h (hub_step (env, e) h)"
proof (rule staying_out.r_step)
  show "stays_gone c k (snd (hub_route env r k))" if "e = Request t r" "\<not> common_request r" for t r k
    using that assms(1)
    by (cases r) (simp_all add: Let_def case_prod_beta staying_out.r_removeDevice staying_out.r_remote_open releaseRemoteSeat_def
        releaseAllRemoteSeats_def stays_gone_fields staying_out.r_refl)
qed (use assms(2) in \<open>auto intro: stays_gone_fields\<close>)

lemma gone_step: "\<not> enrols c e \<Longrightarrow> gone c h \<Longrightarrow> gone c (hub_step (env, e) h)"
  using stays_gone_step [of c e h env] by (cases e) (auto simp: stays_gone_def gone_def isRevoked_def http_keys_def)

lemma gone_run: "\<forall>x\<in>set es. \<not> enrols c (snd x) \<Longrightarrow> gone c h \<Longrightarrow> gone c (run_steps hub_step es h)"
  by (induction es arbitrary: h) (auto simp: gone_step)

lemma fold_send: "\<exists>x. fold (\<lambda>s. sendTo (sk_id s) m) xs k = k\<lparr>hb_sent := x\<rparr>"
proof (induction xs arbitrary: k)
  case Nil
  show ?case by (rule exI [of _ "hb_sent k"]) simp
next
  case (Cons s xs)
  obtain x where "fold (\<lambda>s. sendTo (sk_id s) m) xs (sendTo (sk_id s) m k) = (sendTo (sk_id s) m k)\<lparr>hb_sent := x\<rparr>" using Cons by blast
  moreover have "(sendTo (sk_id s) m k)\<lparr>hb_sent := x\<rparr> = k\<lparr>hb_sent := x\<rparr>" by (simp add: sendTo_def)
  ultimately show ?case by auto
qed

lemma notify_sent: "\<exists>x. notifyConsoles m k = k\<lparr>hb_sent := x\<rparr>"
  unfolding notifyConsoles_def by (rule fold_send)

lemma keys_fold_map_set: "fst ` set (fold (\<lambda>(k, v). map_set k v) kvs m) = fst ` set m \<union> fst ` set kvs"
  by (induction kvs arbitrary: m) (simp_all add: keys_map_set case_prod_beta)

lemma liveClients_keys: "k \<in> fst ` set (liveClients env b h) \<Longrightarrow> \<not> isRevoked h k \<or> k \<in> http_keys h"
proof -
  assume k: "k \<in> fst ` set (liveClients env b h)"
  have frame: "fst (with_frame f x) = fst x" for f x by (simp add: with_frame_def)
  have "fst ` set (concat (map (socket_status h (he_now env)) (device_sockets h))) \<subseteq> {k. \<not> isRevoked h k}"
    by (auto simp: socket_status_def Let_def split: option.splits if_splits)
  then show ?thesis using k
    by (auto simp: liveClients_def Let_def http_keys_def keys_fold_map_set image_Un image_image frame split: if_splits) (auto intro: rev_image_eqI)
qed


subsection \<open>One organization\<close>

definition bound :: "string \<Rightarrow> hub \<Rightarrow> bool" where
  "bound t h = (t \<noteq> [] \<and> hb_tenantId h = Some t \<and> readMeta h ''tenantId'' = Some t)"

definition other_rows :: "string \<Rightarrow> hub \<Rightarrow> registry_row list \<times> (string \<Rightarrow> int \<times> int)" where
  "other_rows t h = (filter (\<lambda>r. rg_tenant_id r \<noteq> t) (pl_registry (hb_platform h)), (pl_online (hb_platform h))(t := (0, 0)))"

definition keeps_to :: "string \<Rightarrow> hub \<Rightarrow> hub \<Rightarrow> bool" where
  "keeps_to t h h' = (bound t h \<longrightarrow> bound t h' \<and> other_rows t h' = other_rows t h)"

lemma keeps_to_cong:
  "hb_tenantId h' = hb_tenantId h \<Longrightarrow> readMeta h' ''tenantId'' = readMeta h ''tenantId'' \<Longrightarrow> other_rows t h' = other_rows t h \<Longrightarrow> keeps_to t h h'"
  by (simp add: keeps_to_def bound_def)

lemma keeps_to_trans: "keeps_to t h h1 \<Longrightarrow> keeps_to t h1 h2 \<Longrightarrow> keeps_to t h h2"
  by (simp add: keeps_to_def)

lemma mark_keeps_place: "hb_tenantId (fold (mark_delivered c) rows h) = hb_tenantId h \<and> hb_meta (fold (mark_delivered c) rows h) = hb_meta h
   \<and> hb_platform (fold (mark_delivered c) rows h) = hb_platform h \<and> hb_seats (fold (mark_delivered c) rows h) = hb_seats h"
  by (induction rows arbitrary: h) (auto simp: mark_delivered_def)

lemma other_rows_upsert:
  "rg_tenant_id r = t \<Longrightarrow> filter (\<lambda>r. rg_tenant_id r \<noteq> t) (pl_registry (upsert_registry r p)) = filter (\<lambda>r. rg_tenant_id r \<noteq> t) (pl_registry p)
    \<and> pl_online (upsert_registry r p) = pl_online p"
proof -
  assume t: "rg_tenant_id r = t"
  have "rg_key (registry_merge r o') = rg_key r" for o' by (simp add: registry_merge_def rg_key_def split: option.split)
  then show ?thesis unfolding upsert_registry_def using t by (simp, intro filter_upsert_other) (auto simp: rg_key_def)
qed

interpretation keeping_to: hub_fine "\<lambda>env. keeps_to t" for t
proof unfold_locales
  show "keeps_to t h h2" if "keeps_to t h h1" "keeps_to t h1 h2" for h h1 h2 using that by (rule keeps_to_trans)
  show "keeps_to t h (h\<lparr>hb_platform := upsert_registry r (hb_platform h)\<rparr>)" if "rg_tenant_id r = text_of (hb_tenantId h)" for h r
    using other_rows_upsert [of r t "hb_platform h"] that
    by (auto simp: keeps_to_def bound_def text_of_def other_rows_def readMeta_def)
  show "keeps_to t h (h\<lparr>hb_platform := setTenantOnlineCount (text_of (hb_tenantId h)) a b (hb_platform h)\<rparr>)" for h a b
    by (auto simp: keeps_to_def bound_def text_of_def other_rows_def readMeta_def setTenantOnlineCount_def)
  show "keeps_to t h (snd (pendingFor env c' u h))" for env h c' u
    by (rule keeps_to_cong) (simp_all add: pendingFor_def Let_def mark_keeps_place other_rows_def readMeta_def)
  show "keeps_to t (snd p) (snd (add_command env input target p))" for env p input target
    by (rule keeps_to_cong) (simp_all add: add_command_def Let_def case_prod_beta other_rows_def readMeta_def)
qed (auto intro!: keeps_to_cong simp: other_rows_def readMeta_def update_db_def purgeExpiredCommands_def Let_def)

lemma bind_bound: "bound t h \<Longrightarrow> bind_hub t' h = (t' = t, h)"
  by (auto simp: bind_hub_def bound_def)

lemma keeps_to_fields:
  "keeps_to t h (h\<lparr>hb_seats := s\<rparr>)" "keeps_to t h (h\<lparr>hb_alarm := a\<rparr>)" "keeps_to t h (h\<lparr>hb_revoked := r\<rparr>)"
  by (auto intro!: keeps_to_cong simp: other_rows_def readMeta_def)

lemma keeps_to_place: "keeps_to t h (snd (bind_hub t' h))" "keeps_to t h (wake_hub h)"
  by (auto simp: keeps_to_def bind_bound wake_hub_def bound_def readMeta_def other_rows_def)

lemma keeps_to_step: "\<not> from_outside e \<Longrightarrow> keeps_to t h (hub_step (env, e) h)"
  by (rule keeping_to.r_step) (auto intro: keeps_to_fields keeps_to_place keeping_to.r_rare)

lemma bound_step: "bound t h \<Longrightarrow> bound t (hub_step (env, e) h)"
  using keeps_to_step [of e t h env] by (cases e) (auto simp: keeps_to_def bound_def readMeta_def)

interpretation bound_runs: step_system hub_step "bound t" for t
  by unfold_locales (use bound_step in auto)

text \<open>
  C21. A hub serves the organization it was first bound to, and no other. Through any events, an
  eviction from memory included, it stays bound to it; a request that names another organization is
  refused (409) and changes nothing; and nothing the hub does touches another organization's
  workstation rows or its count of workstations online.
\<close>

theorem hub_serves_one_organization:
  assumes "t \<noteq> []" and "hb_tenantId h = None" and "fst (bind_hub t h)"
  shows "let h' = run_steps hub_step es (snd (bind_hub t h)) in
    hb_tenantId h' = Some t
    \<and> (\<forall>env t' r. t' \<noteq> t \<longrightarrow> hub_fetch env t' r h' = (Refused (''This organization hub belongs to another organization'', 409), h'))
    \<and> (\<forall>env e t'. \<not> from_outside e \<and> t' \<noteq> t \<longrightarrow>
         filter (\<lambda>r. rg_tenant_id r = t') (pl_registry (hb_platform (hub_step (env, e) h')))
           = filter (\<lambda>r. rg_tenant_id r = t') (pl_registry (hb_platform h'))
         \<and> pl_online (hb_platform (hub_step (env, e) h')) t' = pl_online (hb_platform h') t')"
proof -
  let ?h = "run_steps hub_step es (snd (bind_hub t h))"
  have "bound t (snd (bind_hub t h))"
    using assms by (simp add: bind_hub_def bound_def readMeta_writeMeta) (simp add: writeMeta_def)
  then have b: "bound t ?h" by (rule bound_runs.run_invar)
  have sub: "filter (\<lambda>r. rg_tenant_id r = t') xs = filter (\<lambda>r. rg_tenant_id r = t') (filter (\<lambda>r. rg_tenant_id r \<noteq> t) xs)" if "t' \<noteq> t" for t' xs
    using that by (auto intro!: filter_cong)
  have others: "other_rows t (hub_step (env, e) ?h) = other_rows t ?h" if "\<not> from_outside e" for env e
    using keeps_to_step [OF that] b by (simp add: keeps_to_def)
  have "filter (\<lambda>r. rg_tenant_id r = t') (pl_registry (hb_platform (hub_step (env, e) ?h)))
           = filter (\<lambda>r. rg_tenant_id r = t') (pl_registry (hb_platform ?h))
         \<and> pl_online (hb_platform (hub_step (env, e) ?h)) t' = pl_online (hb_platform ?h) t'" if "\<not> from_outside e" "t' \<noteq> t" for env e t'
  proof -
    have o: "fst (other_rows t (hub_step (env, e) ?h)) = fst (other_rows t ?h)"
      "snd (other_rows t (hub_step (env, e) ?h)) t' = snd (other_rows t ?h) t'" using others [OF that(1), of env] by simp_all
    have f: "filter (\<lambda>r. rg_tenant_id r = t') (pl_registry (hb_platform x)) = filter (\<lambda>r. rg_tenant_id r = t') (fst (other_rows t x))" for x
      using sub [OF that(2)] by (simp only: other_rows_def fst_conv)
    show ?thesis using o(2) that(2) unfolding f o(1) by (simp add: other_rows_def)
  qed
  then show ?thesis using b bind_bound [OF b] by (auto simp: Let_def hub_fetch_def bound_def)
qed

theorem hub_serves_one_organization_witness:
  "hub_fetch (lab_env 1) ''u'' Remote_revoke (run_steps hub_step [(lab_env 1, Alarm), (lab_env 2, Evicted)] (snd (bind_hub ''t'' (empty_hub lab_platform))))
   = (Refused (''This organization hub belongs to another organization'', 409),
      run_steps hub_step [(lab_env 1, Alarm), (lab_env 2, Evicted)] (snd (bind_hub ''t'' (empty_hub lab_platform))))"
proof -
  let ?h = "run_steps hub_step [(lab_env 1, Alarm), (lab_env 2, Evicted)] (snd (bind_hub ''t'' (empty_hub lab_platform)))"
  have "hb_tenantId (empty_hub lab_platform) = None" by (simp add: empty_hub_def)
  moreover from this have "fst (bind_hub ''t'' (empty_hub lab_platform))" by (simp add: bind_hub_def)
  ultimately have "\<forall>env t' r. t' \<noteq> ''t'' \<longrightarrow> hub_fetch env t' r ?h = (Refused (''This organization hub belongs to another organization'', 409), ?h)"
    using hub_serves_one_organization [of "''t''" "empty_hub lab_platform" "[(lab_env 1, Alarm), (lab_env 2, Evicted)]"]
    unfolding Let_def by (elim meta_impE conjE) simp_all
  from this [rule_format, of "''u''"] show ?thesis by (simp only: list.inject char.inject simp_thms)
qed

definition lab_portal :: json where
  "lab_portal = JObj [(''origin'', JStr ''https://l''), (''urlOrigin'', JStr ''https://l''), (''isHttps'', JBool True), (''isDev'', JBool False),
     (''host'', JStr ''l''), (''hostSlug'', JNull), (''baseDomain'', JStr [])]"


subsection \<open>Remote Control seats\<close>

lemma mark_keeps_seats: "hb_seats (fold (mark_delivered c) rows h) = hb_seats h"
  using mark_keeps_place by blast

interpretation seats_kept: hub_fine "\<lambda>env h h'. hb_seats h' = hb_seats h"
  by unfold_locales
    (simp_all add: pendingFor_def add_command_def update_db_def purgeExpiredCommands_def Let_def mark_keeps_seats case_prod_beta)

definition seats_ok :: "nat \<Rightarrow> hub \<Rightarrow> bool" where
  "seats_ok n h = (length (hb_seats h) \<le> n \<and> distinct (map st_client_id (hb_seats h)))"

lemma seats_ok_cong: "hb_seats h' = hb_seats h \<Longrightarrow> seats_ok n h \<Longrightarrow> seats_ok n h'"
  by (simp add: seats_ok_def)

lemma seats_ok_filter: "seats_ok n h \<Longrightarrow> hb_seats h' = filter P (hb_seats h) \<Longrightarrow> seats_ok n h'"
  by (auto simp: seats_ok_def distinct_map_filter intro: order_trans [OF length_filter_le])

lemma remoteOpen_seats: "hb_seats (snd (remoteOpen c s h)) = hb_seats h"
  by (auto simp: remoteOpen_def sendTo_def split: list.split)

text \<open>Taking a seat where fewer than \<open>n\<close> others hold one.\<close>

lemma seats_ok_hold:
  assumes "seats_ok n h" and "length (filter (\<lambda>s. st_client_id s \<noteq> c) (hb_seats h)) < n"
  shows "seats_ok n (holdRemoteSeat c u e h)"
proof -
  let ?r = "\<lparr>st_client_id = c, st_user_id = u, st_ends_at = e\<rparr>"
  have d: "distinct (map st_client_id (tbl_upsert st_client_id ?r (hb_seats h)))"
    using assms(1) distinct_keys_upsert [of st_client_id "hb_seats h" ?r] by (simp add: seats_ok_def)
  have "length (tbl_upsert st_client_id ?r (hb_seats h)) \<le> n"
  proof (cases "tbl_lookup st_client_id c (hb_seats h)")
    case None
    then have "filter (\<lambda>s. st_client_id s \<noteq> c) (hb_seats h) = hb_seats h" by (simp add: tbl_lookup_def find_None_iff_all filter_id_conv)
    then show ?thesis using assms(2) None by (simp add: tbl_upsert_def)
  next
    case (Some q)
    then show ?thesis using assms(1) by (simp add: tbl_upsert_def seats_ok_def)
  qed
  then show ?thesis using d assms(1) by (simp add: holdRemoteSeat_def seats_ok_def)
qed

lemma seats_ok_open:
  assumes "seats_ok n h" and "0 < k" and "k \<le> int n"
  shows "seats_ok n (snd (remote_open_route env c s u (Some k) e h))"
proof -
  obtain hs h1 where hs: "remoteSeatHolders env c h = (hs, h1)" by fastforce
  have h1: "hb_seats h1 = filter (\<lambda>s. \<not> st_ends_at s \<le> he_now env div 1000) (hb_seats h)"
    and n: "length hs = length (filter (\<lambda>s. st_client_id s \<noteq> c) (hb_seats h1))"
    using hs by (auto simp: remoteSeatHolders_def Let_def)
  have ok: "seats_ok n h1" using assms(1) h1 by (rule seats_ok_filter)
  obtain d h2 where d: "remoteOpen c s h1 = (d, h2)" by fastforce
  then have h2: "hb_seats h2 = hb_seats h1" using remoteOpen_seats [of c s h1] by simp
  then have ok2: "seats_ok n h2" using ok seats_ok_cong by blast
  have "int (length hs) < k \<Longrightarrow> seats_ok n (holdRemoteSeat c u x h2)" for x
    using ok2 n h2 assms(3) by (intro seats_ok_hold) auto
  then show ?thesis using hs d ok ok2 assms(2) by (auto simp: remote_open_route_def)
qed

fun seats_asked :: "nat \<Rightarrow> hub_env \<times> hub_event \<Rightarrow> bool" where
  "seats_asked n (env, Request _ (Remote_open b)) = (case he_integer env (field b ''seats'') of Some k \<Rightarrow> 0 < k \<and> k \<le> int n | None \<Rightarrow> False)"
| "seats_asked n _ = True"

lemma seats_ok_rare:
  assumes "seats_ok n h" and "seats_asked n (env, Request t r)" and "\<not> common_request r"
  shows "seats_ok n (snd (hub_route env r h))"
proof (cases r)
  case (Remote_open b)
  then show ?thesis using assms seats_ok_open [of n h] by (auto simp: case_prod_beta split: option.splits)
next
  case (Remove_device b)
  have "hb_seats (removeDevice env c h) = hb_seats h" for c by (rule seats_kept.r_removeDevice) simp
  then show ?thesis using Remove_device assms(1) seats_ok_cong by auto
qed (use assms(1,3) in \<open>auto simp: Let_def case_prod_beta deviceEnrolled_def releaseRemoteSeat_def releaseAllRemoteSeats_def tbl_delete_def
      intro: seats_ok_cong seats_ok_filter [where P = "\<lambda>_. False"] seats_ok_filter\<close>)

lemma seats_ok_step:
  assumes "seats_ok n h" and "seats_asked n (env, e)"
  shows "seats_ok n (hub_step (env, e) h)"
proof (cases "\<exists>t r. e = Request t r \<and> \<not> common_request r")
  case True
  then obtain t r where r: "e = Request t r" "\<not> common_request r" by blast
  obtain ok h1 where b: "bind_hub t h = (ok, h1)" by fastforce
  then have "hb_seats h1 = hb_seats h" by (auto simp: bind_hub_def writeMeta_def split: if_splits option.splits)
  then have "seats_ok n h1" using assms(1) seats_ok_cong by blast
  then show ?thesis using b r seats_ok_rare assms(2) by (cases ok) (auto simp: hub_fetch_def)
next
  case False
  have "hb_seats (hub_step (env, e) h) = hb_seats h"
    by (rule seats_kept.r_step) (use False in \<open>auto simp: bind_hub_def writeMeta_def wake_hub_def split: option.split\<close>)
  then show ?thesis using assms(1) seats_ok_cong by blast
qed

lemma seats_ok_run: "\<forall>x\<in>set es. seats_asked n x \<Longrightarrow> seats_ok n h \<Longrightarrow> seats_ok n (run_steps hub_step es h)"
  by (induction es arbitrary: h) (auto simp: seats_ok_step)

text \<open>
  C24. Remote Control keeps to the organization's seats. As long as every request to open a session
  states the seats as a number between 1 and \<open>n\<close>, whatever else happens no more than \<open>n\<close>
  workstations hold a seat, each one seat; a request is turned away as over the limit exactly when at
  least as many other workstations hold a seat that has not run out, and then they are the ones it
  names.
\<close>

theorem remote_seats_bounded:
  assumes "hb_seats h = []" and "\<forall>x\<in>set es. seats_asked n x"
  shows "let h' = run_steps hub_step es h in
    length (hb_seats h') \<le> n \<and> distinct (map st_client_id (hb_seats h'))
    \<and> (\<forall>env c s u k e. 0 < k \<longrightarrow>
        (let others = filter (\<lambda>r. st_ends_at r > he_now env div 1000 \<and> st_client_id r \<noteq> c) (hb_seats h');
             a = fst (remote_open_route env c s u (Some k) e h')
         in (if int (length others) \<ge> k then a = Seats_in_use k (map st_client_id others) else a = Remote_ok \<or> a = Not_connected)))"
proof -
  have "seats_ok n h" using assms(1) by (simp add: seats_ok_def)
  then have "seats_ok n (run_steps hub_step es h)" using assms(2) seats_ok_run by blast
  then show ?thesis
    by (auto simp: seats_ok_def Let_def remote_open_route_def remoteSeatHolders_def case_prod_beta not_le conj_commute)
qed

theorem remote_seats_bounded_witness:
  "length (hb_seats (run_steps hub_step [(lab_env 1, Request ''t'' (Remote_open (JObj [(''clientId'', JStr ''PC-1''), (''seats'', JInt 2)]))), (lab_env 2, Alarm)]
     (lab_hub [lab_socket 2 ''PC-1'' False]))) \<le> 2"
proof -
  have "hb_seats (lab_hub [lab_socket 2 ''PC-1'' False]) = []" by (simp add: lab_hub_def empty_hub_def)
  moreover have "\<forall>x\<in>set [(lab_env 1, Request ''t'' (Remote_open (JObj [(''clientId'', JStr ''PC-1''), (''seats'', JInt 2)]))), (lab_env 2, Alarm)]. seats_asked 2 x"
    by (simp add: lab_env_def)
  ultimately show ?thesis using remote_seats_bounded unfolding Let_def by blast
qed

subsection \<open>Waiting commands and the alarm\<close>

text \<open>
  Either the alarm is due soon, or no command waits, or nothing new waits and the alarm is not put off.
\<close>

definition due_soon :: "hub_env \<Rightarrow> hub \<Rightarrow> bool" where
  "due_soon env h = (\<exists>a. hb_alarm h = Some a \<and> a \<le> he_now env + CONSOLE_SWEEP_MS)"

definition wakes :: "hub_env \<Rightarrow> hub \<Rightarrow> hub \<Rightarrow> bool" where
  "wakes env h h' = (due_soon env h' \<or> hb_commands h' = [] \<or> set (hb_commands h') \<subseteq> set (hb_commands h)
     \<and> (\<forall>a. hb_alarm h = Some a \<longrightarrow> (\<exists>a'\<le>a. hb_alarm h' = Some a')))"

lemma wakes_cong: "hb_commands h' = hb_commands h \<Longrightarrow> hb_alarm h' = hb_alarm h \<Longrightarrow> wakes env h h'"
  by (simp add: wakes_def)

lemma wakes_trans: "wakes env h h1 \<Longrightarrow> wakes env h1 h2 \<Longrightarrow> wakes env h h2"
  unfolding wakes_def due_soon_def by (elim disjE) (fastforce dest: order_trans)+

lemma mark_fewer: "set (hb_commands (fold (mark_delivered c) rows h)) \<subseteq> set (hb_commands h) \<and> hb_alarm (fold (mark_delivered c) rows h) = hb_alarm h"
proof (induction rows arbitrary: h)
  case (Cons r rows)
  have "set (hb_commands (mark_delivered c r h)) \<subseteq> set (hb_commands h)" "hb_alarm (mark_delivered c r h) = hb_alarm h"
    by (auto simp: mark_delivered_def tbl_delete_def)
  then show ?case using Cons [of "mark_delivered c r h"] by auto
qed simp

lemma ensure_soon: "due_soon env (ensureAlarm env FLUSH_DELAY_MS h)"
  by (auto simp: due_soon_def ensureAlarm_def Let_def FLUSH_DELAY_MS_def CONSOLE_SWEEP_MS_def split: option.splits)

interpretation waking: hub_relation wakes
proof unfold_locales
  show "wakes env h h2" if "wakes env h h1" "wakes env h1 h2" for env h h1 h2 using that by (rule wakes_trans)
  show "wakes env h (h\<lparr>hb_alarm := Some t\<rparr>)" if "\<And>a. hb_alarm h = Some a \<Longrightarrow> t \<le> a" for env h t
    using that by (auto simp: wakes_def)
  show "wakes env h (next_alarm env h)" for env h
    by (auto simp: wakes_def next_alarm_def Let_def due_soon_def FLUSH_DELAY_MS_def CONSOLE_SWEEP_MS_def split: option.split)
  show "wakes env h (snd (pendingFor env c u h))" for env h c u
    using mark_fewer [of c] by (fastforce simp: wakes_def pendingFor_def Let_def)
  show "wakes env h (purgeExpiredCommands env h)" for env h by (auto simp: wakes_def purgeExpiredCommands_def Let_def)
  show "wakes env h (snd (enqueue env input h))" for env h input
    by (auto simp: enqueue_def Let_def case_prod_beta wakes_def ensure_soon)
qed (auto intro!: wakes_cong simp: update_db_def)


definition soon :: "hub_env \<Rightarrow> hub \<Rightarrow> bool" where
  "soon env h = (hb_commands h \<noteq> [] \<longrightarrow> due_soon env h)"

lemma soon_wakes: "wakes env h h' \<Longrightarrow> soon env h \<Longrightarrow> soon env h'"
  by (auto simp: soon_def wakes_def due_soon_def)

lemma soon_later: "soon env h \<Longrightarrow> he_now env \<le> he_now env' \<Longrightarrow> soon env' h"
  by (auto simp: soon_def due_soon_def)

text \<open>What joins the queue at an instant runs out a fixed time after it.\<close>

definition fresh :: "hub_env \<Rightarrow> hub \<Rightarrow> hub \<Rightarrow> bool" where
  "fresh env h h' = (\<forall>c\<in>set (hb_commands h'). c \<in> set (hb_commands h) \<or> cm_expires_at c = he_now env div 1000 + COMMAND_TTL_SECONDS)"

lemma fresh_fewer: "set (hb_commands h') \<subseteq> set (hb_commands h) \<Longrightarrow> fresh env h h'"
  by (auto simp: fresh_def)

interpretation joining: hub_fine fresh
proof unfold_locales
  show "fresh env h h2" if "fresh env h h1" "fresh env h1 h2" for env h h1 h2 using that by (auto simp: fresh_def)
  show "fresh env h (snd (pendingFor env c u h))" for env h c u
    using mark_fewer [of c] by (intro fresh_fewer) (fastforce simp: pendingFor_def Let_def)
  show "fresh env (snd p) (snd (add_command env input target p))" for env p input target
    by (auto simp: fresh_def add_command_def Let_def case_prod_beta)
qed (auto intro!: fresh_fewer simp: update_db_def purgeExpiredCommands_def Let_def)

lemma alarm_unexpired:
  assumes "truthy_text (hb_tenantId h)" and "c \<in> set (hb_commands (alarm env h))"
  shows "cm_expires_at c > he_now env div 1000"
proof -
  obtain k where k: "alarm env h = scheduleExamAlarm env (next_alarm env (nudgeWaiting env (purgeExpiredCommands env k)))"
    using assms(1) by (auto simp: alarm_def Let_def)
  have "fresh env (purgeExpiredCommands env k) (alarm env h)" unfolding k
    by (intro joining.r_scheduleExamAlarm joining.r_update joining.r_nudgeWaiting joining.r_refl)
  then have "c \<in> set (hb_commands (purgeExpiredCommands env k)) \<or> cm_expires_at c = he_now env div 1000 + COMMAND_TTL_SECONDS"
    using assms(2) by (auto simp: fresh_def)
  then show ?thesis by (auto simp: purgeExpiredCommands_def Let_def COMMAND_TTL_SECONDS_def)
qed


lemma place_wakes:
  "wakes env h (snd (bind_hub t h))" "wakes env h (wake_hub h)" "wakes env h (h\<lparr>hb_platform := p\<rparr>)"
  "wakes env h (h\<lparr>hb_revoked := r\<rparr>)" "wakes env h (h\<lparr>hb_seats := s\<rparr>)"
  by (auto simp: bind_hub_def writeMeta_def wake_hub_def intro!: wakes_cong split: option.split)

lemma place_fresh:
  "fresh env h (snd (bind_hub t h))" "fresh env h (wake_hub h)" "fresh env h (h\<lparr>hb_platform := p\<rparr>)"
  "fresh env h (h\<lparr>hb_revoked := r\<rparr>)" "fresh env h (h\<lparr>hb_seats := s\<rparr>)" "fresh env h (h\<lparr>hb_alarm := a\<rparr>)"
  by (auto simp: bind_hub_def writeMeta_def wake_hub_def intro!: fresh_fewer split: option.split)

lemma wakes_step: "e \<noteq> Alarm \<Longrightarrow> wakes env h (hub_step (env, e) h)"
  by (rule waking.r_step) (auto intro: place_wakes waking.r_rare)

lemma fresh_step: "fresh env h (hub_step (env, e) h)"
  by (rule joining.r_step) (auto intro: place_fresh joining.r_rare)

lemma soon_alarm: "truthy_text (hb_tenantId h) \<Longrightarrow> soon env (alarm env h)"
proof -
  assume "truthy_text (hb_tenantId h)"
  then obtain k where k: "alarm env h = scheduleExamAlarm env (next_alarm env k)" by (auto simp: alarm_def Let_def)
  have "soon env (next_alarm env k)"
    by (auto simp: soon_def next_alarm_def Let_def due_soon_def FLUSH_DELAY_MS_def CONSOLE_SWEEP_MS_def split: option.splits)
  then show ?thesis unfolding k using waking.r_scheduleExamAlarm [OF waking.r_refl] soon_wakes by blast
qed

fun in_order :: "int \<Rightarrow> (hub_env \<times> hub_event) list \<Rightarrow> bool" where
  "in_order t [] = True"
| "in_order t ((env, _) # es) = (t \<le> he_now env \<and> in_order (he_now env) es)"

definition short_lived :: "hub_env \<Rightarrow> hub \<Rightarrow> bool" where
  "short_lived env h = (\<forall>c\<in>set (hb_commands h). cm_expires_at c \<le> he_now env div 1000 + COMMAND_TTL_SECONDS)"

lemma served_step:
  assumes "bound t h" and "soon env h" and "short_lived env h"
  shows "bound t (hub_step (env, e) h) \<and> soon env (hub_step (env, e) h) \<and> short_lived env (hub_step (env, e) h)"
proof -
  have "truthy_text (hb_tenantId h)" using assms(1) by (simp add: bound_def truthy_text_def)
  then have "soon env (hub_step (env, e) h)" using soon_alarm soon_wakes [OF wakes_step assms(2)] by (cases "e = Alarm") auto
  moreover have "short_lived env (hub_step (env, e) h)" using fresh_step [of env h e] assms(3) by (auto simp: fresh_def short_lived_def)
  ultimately show ?thesis using bound_step assms(1) by blast
qed

lemma later: "he_now env \<le> he_now env' \<Longrightarrow> short_lived env h \<Longrightarrow> short_lived env' h"
  unfolding short_lived_def using zdiv_mono1 [of "he_now env" "he_now env'" 1000] by fastforce

lemma served_run:
  assumes "bound t h" and "soon env h" and "short_lived env h" and "in_order (he_now env) es"
    and "he_now env' = he_now (last (env # map fst es))"
  shows "bound t (run_steps hub_step es h) \<and> soon env' (run_steps hub_step es h) \<and> short_lived env' (run_steps hub_step es h)"
  using assms
proof (induction es arbitrary: env h)
  case Nil
  then show ?case by (auto intro: soon_later later)
next
  case (Cons x es)
  obtain env1 e where x: "x = (env1, e)" by (cases x)
  have "soon env1 h" "short_lived env1 h" using Cons.prems x soon_later later by auto
  then have "bound t (hub_step (env1, e) h) \<and> soon env1 (hub_step (env1, e) h) \<and> short_lived env1 (hub_step (env1, e) h)"
    using Cons.prems(1) by (intro served_step) auto
  then show ?case using Cons x by (simp split: if_splits)
qed

text \<open>
  C23. A command never waits unattended. In a hub bound to its organization, as events follow one
  another in time: whenever a command waits, the alarm is set, and due at most 30 seconds after the
  latest event; no command waits that outlives it by more than 60 seconds; and once the alarm has rung
  nothing that has run out is left.
\<close>

theorem waiting_commands_wake:
  assumes "bound t h" and "hb_commands h = []" and "in_order t0 es" and "es \<noteq> []"
  shows "let h' = run_steps hub_step es h; now = he_now (fst (last es)) in
    (hb_commands h' \<noteq> [] \<longrightarrow> (\<exists>a. hb_alarm h' = Some a \<and> a \<le> now + 30000))
    \<and> (\<forall>c\<in>set (hb_commands h'). cm_expires_at c \<le> now div 1000 + 60)
    \<and> (\<forall>env. \<forall>c\<in>set (hb_commands (hub_step (env, Alarm) h')). cm_expires_at c > he_now env div 1000)"
proof -
  obtain env0 e es' where es: "es = (env0, e) # es'" using assms(4) by (cases es) auto
  let ?h = "run_steps hub_step es h"
  have first: "soon env0 h" "short_lived env0 h" "in_order (he_now env0) es" using assms(2,3) es by (auto simp: soon_def short_lived_def)
  have "he_now (fst (last es)) = he_now (last (env0 # map fst es))" using assms(4) by (simp add: last_map)
  then have s: "bound t ?h" "soon (fst (last es)) ?h" "short_lived (fst (last es)) ?h" using served_run [OF assms(1) first] by blast+
  then have "truthy_text (hb_tenantId ?h)" by (simp add: bound_def truthy_text_def)
  then show ?thesis using s alarm_unexpired [of ?h]
    by (auto simp: Let_def soon_def due_soon_def short_lived_def CONSOLE_SWEEP_MS_def COMMAND_TTL_SECONDS_def)
qed

theorem waiting_commands_wake_witness:
  "let h' = run_steps hub_step [(lab_env 1, Request ''t'' (Enqueue (for_one ''PC-1'')))] (snd (bind_hub ''t'' (lab_hub []\<lparr>hb_tenantId := None\<rparr>))) in
   hb_commands h' \<noteq> [] \<longrightarrow> (\<exists>a. hb_alarm h' = Some a \<and> a \<le> 30001)"
proof -
  let ?h = "snd (bind_hub ''t'' (lab_hub []\<lparr>hb_tenantId := None\<rparr>))" and ?es = "[(lab_env 1, Request ''t'' (Enqueue (for_one ''PC-1'')))]"
  have "bound ''t'' ?h" "hb_commands ?h = []" by (simp_all add: bind_hub_def bound_def readMeta_writeMeta writeMeta_def readMeta_def lab_hub_def empty_hub_def map_delete_def tbl_delete_def)
  moreover have "in_order 0 ?es" "he_now (fst (last ?es)) = 1" by (simp_all add: lab_env_def)
  ultimately show ?thesis using waiting_commands_wake [of "''t''" ?h 0 ?es] by (simp add: Let_def)
qed

end
