(* ===== verification/Hub_Config.thy ===== *)
theory Hub_Config
  imports Hub_Queue
begin

text \<open>
  What the hub tells a workstation (\<open>configFor\<close>), taken with the rows it was loaded from: an exam that
  runs locks its workstations to its own sites, and no workstation is sent to a site it would block.
\<close>

subsection \<open>The groups of workstations\<close>

lemma tbl_unique: "distinct_keys key t \<Longrightarrow> r \<in> set t \<Longrightarrow> q \<in> set t \<Longrightarrow> key r = key q \<Longrightarrow> r = q"
  using tbl_lookup_eq [of key t] by (metis option.inject)

lemma groups_in:
  assumes "distinct_keys cd_key (client_devices db)" and "d \<in> set (client_devices db)" and "cd_tenant_id d = t"
    and "cd_group_name d = Some g" and "g \<in> set gs"
  shows "map_of (workstationGroupsIn db t gs) (cd_client_id d) = Some g"
proof -
  let ?ps = "workstationGroupsIn db t gs"
  have "(cd_client_id d, g) \<in> set ?ps" using assms by (auto simp: workstationGroupsIn_def)
  moreover have "g' = g" if "(cd_client_id d, g') \<in> set ?ps" for g'
  proof -
    obtain d' where "d' \<in> set (client_devices db)" "cd_tenant_id d' = t" "cd_client_id d' = cd_client_id d" "cd_group_name d' = Some g'"
      using \<open>(cd_client_id d, g') \<in> set ?ps\<close> by (auto simp: workstationGroupsIn_def split: if_splits option.splits)
    then show ?thesis using tbl_unique [OF assms(1,2), of d'] assms(3,4) by (simp add: cd_key_def)
  qed
  ultimately show ?thesis by (metis map_of_SomeD map_of_eq_None_iff fst_conv image_eqI not_None_eq)
qed

lemma group_of_workstation:
  assumes "map_of (workstationGroupsIn db t gs) c = Some g"
  shows "\<exists>d\<in>set (client_devices db). cd_tenant_id d = t \<and> cd_client_id d = c \<and> cd_group_name d = Some g"
  using map_of_SomeD [OF assms] by (auto simp: workstationGroupsIn_def split: if_splits option.splits)

subsection \<open>An exam\<close>

definition runs_for :: "d1 \<Rightarrow> string \<Rightarrow> string \<Rightarrow> int \<Rightarrow> exam_row \<Rightarrow> bool" where
  "runs_for db t c now e =
     (e \<in> set (exam_sessions db) \<and> ex_tenant_id e = t \<and> examPhase e now = Running \<and> ex_group_name e \<noteq> Some []
      \<and> (ex_group_name e = None \<or> (\<exists>d\<in>set (client_devices db). cd_tenant_id d = t \<and> cd_client_id d = c \<and> cd_group_name d = ex_group_name e)))"

lemma one_of_two: "exams_ok db \<Longrightarrow> distinct_keys cd_key (client_devices db) \<Longrightarrow> runs_for db t c now a \<Longrightarrow> runs_for db t c now b \<Longrightarrow> a = b"
proof (rule ccontr)
  assume ok: "exams_ok db" and k: "distinct_keys cd_key (client_devices db)" and r: "runs_for db t c now a" "runs_for db t c now b" and ne: "a \<noteq> b"
  have "ex_id a \<noteq> ex_id b" using ok r ne by (auto simp: exams_ok_def runs_for_def distinct_map inj_on_def)
  then have "clear_of a b" using ok r by (auto simp: exams_ok_def runs_for_def)
  moreover have "same_workstations (ex_group_name a) (ex_group_name b)"
  proof (cases "ex_group_name a = None \<or> ex_group_name b = None")
    case False
    obtain d where d: "d \<in> set (client_devices db)" "cd_key d = (t, c)" "cd_group_name d = ex_group_name a"
      using r(1) False unfolding runs_for_def cd_key_def by blast
    obtain d' where d': "d' \<in> set (client_devices db)" "cd_key d' = (t, c)" "cd_group_name d' = ex_group_name b"
      using r(2) False unfolding runs_for_def cd_key_def by blast
    show ?thesis using tbl_unique [OF k d(1) d'(1)] d d' by (simp add: same_workstations_def)
  qed (auto simp: same_workstations_def)
  moreover have "ex_tenant_id a = ex_tenant_id b" "ex_starts_at a \<le> now" "now < examEnd a" "ex_starts_at b \<le> now" "now < examEnd b"
    using r by (auto simp: runs_for_def examPhase_def split: if_splits)
  ultimately show False by (auto simp: clear_of_def)
qed

definition group_names :: "string option \<Rightarrow> string list" where
  "group_names g = (case g of Some n \<Rightarrow> if n = [] then [] else [n] | None \<Rightarrow> [])"

definition exam_groups :: "exam_window list \<Rightarrow> string list" where
  "exam_groups exs = remdups (concat (map (\<lambda>e. group_names (ew_groupName e)) exs))"

lemma config_exams:
  "hg_exams (config_of env p t) = hubExams (pl_db p) (tn_id t) (he_now env div 1000)"
  "hg_examGroups (config_of env p t) = workstationGroupsIn (pl_db p) (tn_id t) (exam_groups (hubExams (pl_db p) (tn_id t) (he_now env div 1000)))"
  unfolding config_of_def Let_def exam_groups_def group_names_def by (simp_all only: hub_config.select_convs)

lemma group_names_iff: "g \<in> set (group_names x) \<longleftrightarrow> g \<noteq> [] \<and> x = Some g"
  by (auto simp: group_names_def split: option.split)

lemma exam_groups_iff: "g \<in> set (exam_groups exs) \<longleftrightarrow> g \<noteq> [] \<and> (\<exists>e\<in>set exs. ew_groupName e = Some g)"
  by (simp only: exam_groups_def set_remdups set_concat set_map UN_iff bex_simps group_names_iff)

lemma examFor_exact:
  assumes "exams_ok (pl_db p)" and "distinct_keys cd_key (client_devices (pl_db p))" and "he_now env \<le> he_now env'"
    and "runs_for (pl_db p) (tn_id t) c (he_now env' div 1000) e"
  shows "examFor (config_of env p t) c (he_now env' div 1000) = Some (examWindow e)"
proof -
  let ?db = "pl_db p" and ?now = "he_now env' div 1000" and ?cfg = "config_of env p t"
  have e: "e \<in> set (exam_sessions ?db)" "ex_tenant_id e = tn_id t" "examPhase e ?now = Running" using assms(4) by (auto simp: runs_for_def)
  have "he_now env div 1000 \<le> ?now" using assms(3) by (rule zdiv_mono1) simp
  then have mem: "examWindow e \<in> set (hg_exams ?cfg)"
    using e by (auto simp: config_exams hubExams_def examPhase_def split: if_splits)
  let ?P = "\<lambda>x. \<not> ew_cancelled x \<and> ew_startsAt x \<le> ?now \<and> ?now < ew_endsAt x \<and> examCovers (ew_groupName x) (map_of (hg_examGroups ?cfg) c)"
  have run: "\<not> ew_cancelled (examWindow e)" "ew_startsAt (examWindow e) \<le> ?now" "?now < ew_endsAt (examWindow e)"
    using e(3) by (auto simp: examWindow_def examPhase_def examEnd_def split: if_splits option.splits)
  have "examCovers (ew_groupName (examWindow e)) (map_of (hg_examGroups ?cfg) c)"
  proof (cases "ex_group_name e")
    case None
    then show ?thesis by (simp add: examCovers_def examWindow_def)
  next
    case (Some g)
    then obtain d where d: "d \<in> set (client_devices ?db)" "cd_tenant_id d = tn_id t" "cd_client_id d = c" "cd_group_name d = Some g" "g \<noteq> []"
      using assms(4) by (auto simp: runs_for_def)
    have "g \<in> set (exam_groups (hubExams ?db (tn_id t) (he_now env div 1000)))"
      using mem Some d(5) by (auto simp: exam_groups_iff config_exams examWindow_def intro!: bexI [of _ "examWindow e"])
    then have "map_of (hg_examGroups ?cfg) c = Some g" using groups_in [OF assms(2) d(1,2,4)] d(3) by (simp add: config_exams)
    then show ?thesis using Some by (simp add: examCovers_def examWindow_def)
  qed
  with run have "?P (examWindow e)" by blast
  moreover have "w = examWindow e" if w: "w \<in> set (hg_exams ?cfg)" and pw: "?P w" for w
  proof -
    obtain x where x: "x \<in> set (exam_sessions ?db)" "ex_tenant_id x = tn_id t" "w = examWindow x"
      using w by (auto simp: config_exams hubExams_def)
    have "ex_group_name x \<noteq> Some []"
    proof
      assume "ex_group_name x = Some []"
      then have "map_of (hg_examGroups ?cfg) c = Some []" using pw x(3) by (simp add: examCovers_def examWindow_def)
      then have "(c, []) \<in> set (hg_examGroups ?cfg)" by (rule map_of_SomeD)
      then show False by (auto simp: config_exams workstationGroupsIn_def exam_groups_iff split: if_splits option.splits)
    qed
    moreover have "ex_group_name x = None \<or> (\<exists>d\<in>set (client_devices ?db). cd_tenant_id d = tn_id t \<and> cd_client_id d = c \<and> cd_group_name d = ex_group_name x)"
    proof (cases "ex_group_name x")
      case (Some g)
      then have "map_of (hg_examGroups ?cfg) c = Some g" using pw x(3) by (simp add: examCovers_def examWindow_def)
      then show ?thesis using group_of_workstation Some by (simp add: config_exams)
    qed simp
    moreover have "examPhase x ?now = Running" using pw x(3) by (auto simp: examPhase_def examWindow_def)
    ultimately have "runs_for ?db (tn_id t) c ?now x" using x by (simp add: runs_for_def)
    then show ?thesis using one_of_two [OF assms(1,2) _ assms(4)] x(3) by blast
  qed
  ultimately show ?thesis using mem unfolding examFor_def by (intro find_unique)
qed

text \<open>
  C22. An exam locks its workstations. While an exam runs, every licensed workstation it covers, and
  that of the whole organization where it names no group, is told the exam's sites and no other, is
  sent to the exam's page, as of the exam's start, and may neither print nor be reset; this from the
  moment the hub has loaded the exam, however much later within the exam it is asked.
\<close>

theorem exam_locks_workstation:
  assumes "exams_ok (pl_db p)" and "distinct_keys cd_key (client_devices (pl_db p))" and "he_now env \<le> he_now env'"
    and "runs_for (pl_db p) (tn_id t) c (he_now env' div 1000) e" and "listUnlicensed (pl_db p) (tn_id t) c = None"
  shows "let cfg = fst (configFor env' (config_of env p t) c portal) in
      set (wc_whitelist cfg) = set (parseHosts (ex_allowed_hosts e))
      \<and> wc_targetUrl cfg = ex_exam_url e \<and> wc_broadcastUrl cfg = ex_exam_url e \<and> wc_broadcastEpoch cfg = examEpoch (ex_starts_at e)
      \<and> wc_printing cfg = no_printing \<and> \<not> wc_homeReset cfg"
proof -
  have "hg_unlicensed (config_of env p t) c = None" using assms(5) by (simp add: config_of_def Let_def)
  then have "fst (configFor env' (config_of env p t) c portal) = exam_config (config_of env p t) c (examWindow e)"
    using examFor_exact [OF assms(1-4)] by (simp add: configFor_def Let_def)
  then show ?thesis by (simp add: exam_config_def base_config_def Let_def examWindow_def)
qed

theorem exam_locks_workstation_witness:
  "wc_targetUrl (fst (configFor (lab_env 200000) (config_of (lab_env 150000) (lab_platform\<lparr>pl_db := hall_db\<rparr>) (plain_tenant ''t'' ''owner'' ''lab''))
     ''PC-01'' lab_context)) = ''https://exam.example.org/''"
proof -
  let ?p = "lab_platform\<lparr>pl_db := hall_db\<rparr>"
  have t: "tn_id (plain_tenant ''t'' ''owner'' ''lab'') = ''t''" by (simp add: plain_tenant_def)
  have n: "he_now (lab_env 150000) \<le> he_now (lab_env 200000)" "he_now (lab_env 200000) div 1000 = 200" by (simp_all add: lab_env_def)
  have db: "exams_ok (pl_db ?p)" "distinct_keys cd_key (client_devices (pl_db ?p))" "listUnlicensed (pl_db ?p) ''t'' ''PC-01'' = None"
    by (simp_all add: exams_ok_def hall_db_def cd_key_def listUnlicensed_def empty_db_def)
  have "runs_for (pl_db ?p) ''t'' ''PC-01'' 200 (hd (exam_sessions hall_db))"
    by (simp add: runs_for_def hall_db_def examPhase_def examEnd_def)
  then show ?thesis
    using exam_locks_workstation [OF db(1,2) n(1), of "plain_tenant ''t'' ''owner'' ''lab''" "''PC-01''" "hd (exam_sessions hall_db)" lab_context] db(3)
    by (simp add: n(2) t Let_def) (simp add: hall_db_def)
qed

subsection \<open>Where a workstation is sent\<close>

lemma add_host_keeps: "set wl \<subseteq> set (add_host parse_url u wl)"
  by (auto simp: add_host_def split: list.split)

lemma add_host_has: "u \<noteq> [] \<Longrightarrow> set (url_host parse_url u) \<subseteq> set (add_host parse_url u wl)"
  by (auto simp: add_host_def url_host_def split: list.split option.split)

text \<open>
  No workstation is sent where it may not go. Whatever the organization's settings are, licensed
  or not, in an exam or not, the host of the page a workstation is told to open is among the hosts it
  is told to allow (exams: their own host is among their hosts, which creating one sees to).
\<close>

theorem target_always_allowed:
  assumes "\<forall>e\<in>set (hg_exams config). set (url_host (he_parse env) (ew_url e)) \<subseteq> set (ew_hosts e)"
    and "he_parse env [] = None"
  shows "let cfg = fst (configFor env config c portal) in
      set (url_host (he_parse env) (wc_targetUrl cfg)) \<subseteq> set (wc_whitelist cfg)
      \<and> (wc_broadcastUrl cfg = [] \<or> wc_broadcastUrl cfg = wc_targetUrl cfg)"
proof -
  have none: "set (url_host (he_parse env) []) = {}" using assms(2) by (simp add: url_host_def)
  have exam: "set (url_host (he_parse env) (ew_url e)) \<subseteq> set (ew_hosts e)" if "examFor config c now = Some e" for e now
    using that assms(1) by (auto simp: examFor_def find_Some_iff)
  have open': "set (url_host (he_parse env) (wc_targetUrl o')) \<subseteq> set (wc_whitelist o') \<and> (wc_broadcastUrl o' = [] \<or> wc_broadcastUrl o' = wc_targetUrl o')"
    if o': "o' = open_config (he_parse env) config c url" for o' url
  proof (cases "active_broadcast (he_parse env) config c")
    case None
    then show ?thesis using o' none add_host_has [of url "he_parse env" "hg_whitelist config"]
      by (cases "url = []") (auto simp: open_config_def Let_def base_config_def)
  next
    case (Some b)
    obtain u ep where b: "b = (u, ep)" by (cases b)
    show ?thesis
    proof (cases "u = []")
      case True
      then show ?thesis using Some b o' none add_host_has [of url "he_parse env"] by (cases "url = []") (auto simp: open_config_def Let_def base_config_def)
    next
      case False
      then show ?thesis using Some b o' add_host_has [OF False, of "he_parse env" "hg_whitelist config"] add_host_keeps [of _ "he_parse env" url]
        by (auto simp: open_config_def Let_def base_config_def)
    qed
  qed
  show ?thesis
  proof (cases "hg_unlicensed config c")
    case (Some since)
    then show ?thesis by (simp add: configFor_def unlicensed_config_def base_config_def Let_def)
  next
    case lic: None
    show ?thesis
    proof (cases "examFor config c (he_now env div 1000)")
      case (Some e)
      then show ?thesis using lic exam by (simp add: configFor_def exam_config_def base_config_def Let_def)
    next
      case None
      then show ?thesis using lic open' [OF refl] by (simp add: configFor_def Let_def)
    qed
  qed
qed

definition portal_env :: hub_env where
  "portal_env = (lab_env 0)\<lparr>he_parse := (\<lambda>u. if u = [] then None else echo_url u)\<rparr>"

theorem target_always_allowed_witness:
  "let cfg = fst (configFor portal_env (config_of portal_env lab_platform (plain_tenant ''t'' ''owner'' ''lab'')) ''PC-01'' lab_context) in
   set (url_host (he_parse portal_env) (wc_targetUrl cfg)) \<subseteq> set (wc_whitelist cfg)"
proof -
  have "hg_exams (config_of portal_env lab_platform (plain_tenant ''t'' ''owner'' ''lab'')) = []"
    by (simp add: config_exams hubExams_def lab_platform_def empty_db_def)
  moreover have "he_parse portal_env [] = None" by (simp add: portal_env_def)
  ultimately show ?thesis using target_always_allowed [of "config_of portal_env lab_platform (plain_tenant ''t'' ''owner'' ''lab'')" portal_env]
    unfolding Let_def by simp
qed

end
