(* ===== verification/Remote_Relay.thy ===== *)
theory Remote_Relay
  imports Guard
begin

text \<open>
  Remote Control (\<open>src/cloudflare-control/src/remote_relay.ts\<close>): one relay per workstation joins an
  operator's socket and the workstation's and passes bytes between them. The state is the relay's two
  tables, its alarm and its sockets. What it passes on, who joined and the sessions opened are logged,
  as are the notices to the organization's hub; text a socket closes with is left out, its code kept.

  Every handler runs at one instant and to its end; \<open>re_sends\<close> says on which sockets the runtime can
  still send (\<open>send\<close> throws on the others, as on a closing one).
\<close>

subsection \<open>State\<close>

definition RELAY_JOIN_SECONDS :: int where "RELAY_JOIN_SECONDS = 60"

definition RELAY_MAX_SECONDS :: int where "RELAY_MAX_SECONDS = 4 * 60 * 60"

definition CLOSE_RELAY_REPLACED :: int where "CLOSE_RELAY_REPLACED = 4000"

definition CLOSE_RELAY_PEER_GONE :: int where "CLOSE_RELAY_PEER_GONE = 4004"

definition CLOSE_RELAY_EXPIRED :: int where "CLOSE_RELAY_EXPIRED = 4008"

definition CLOSE_RELAY_REVOKED :: int where "CLOSE_RELAY_REVOKED = 4009"

datatype relay_side = Console_side | Device_side

record relay_session =
  rs_token_hash :: string
  rs_user_id :: string
  rs_join_by :: int
  rs_ends_at :: int

record relay_socket =
  rk_id :: nat
  rk_side :: relay_side
  rk_token :: string
  rk_closing :: "int option"

record relay =
  ry_name :: "string option"
  ry_session :: "relay_session option"
  ry_sockets :: "relay_socket list"
  ry_alarm :: "int option"
  ry_ready :: "nat list"
  ry_passed :: "(nat \<times> nat \<times> string) list"
  ry_joins :: "(nat \<times> relay_side \<times> string \<times> string) list"
  ry_opens :: "(string \<times> string) list"
  ry_notices :: "(string \<times> string) list"

record relay_env =
  re_now :: int
  re_sends :: "nat \<Rightarrow> bool"

definition new_relay :: relay where
  "new_relay = \<lparr>ry_name = None, ry_session = None, ry_sockets = [], ry_alarm = None, ry_ready = [], ry_passed = [], ry_joins = [],
     ry_opens = [], ry_notices = []\<rparr>"

definition RELAY_TOKEN_PATTERN :: "string \<Rightarrow> bool" where
  "RELAY_TOKEN_PATTERN s = (length s = 64 \<and> list_all is_lower_hex s)"

definition relayName :: "string \<Rightarrow> string \<Rightarrow> string" where
  "relayName tenantId clientId = tenantId @ '':'' @ clientId"

subsection \<open>Sessions\<close>

definition relay_bind :: "string \<Rightarrow> relay \<Rightarrow> bool \<times> relay" where
  "relay_bind name r =
     (if name = [] then (False, r)
      else case ry_name r of Some n \<Rightarrow> (n = name, r) | None \<Rightarrow> (True, r\<lparr>ry_name := Some name\<rparr>))"

text \<open>\<open>closeQuietly\<close>: a socket already closing keeps its code.\<close>

definition closeQuietly :: "int \<Rightarrow> relay_socket \<Rightarrow> relay_socket" where
  "closeQuietly why s = (if rk_closing s = None then s\<lparr>rk_closing := Some why\<rparr> else s)"

definition closeAll :: "int \<Rightarrow> relay \<Rightarrow> relay" where
  "closeAll why r = r\<lparr>ry_sockets := map (closeQuietly why) (ry_sockets r)\<rparr>"

definition open_session :: "string \<Rightarrow> string \<Rightarrow> int \<Rightarrow> relay \<Rightarrow> relay" where
  "open_session tokenHash userId now r =
     (closeAll CLOSE_RELAY_REPLACED r)\<lparr>
        ry_session := Some \<lparr>rs_token_hash = tokenHash, rs_user_id = userId, rs_join_by = now + RELAY_JOIN_SECONDS,
                            rs_ends_at = now + RELAY_MAX_SECONDS\<rparr>,
        ry_alarm := Some ((now + RELAY_JOIN_SECONDS) * 1000), ry_opens := ry_opens r @ [(tokenHash, userId)]\<rparr>"

definition current :: "relay_side \<Rightarrow> string \<Rightarrow> relay \<Rightarrow> relay_socket option" where
  "current side tokenHash r = find (\<lambda>s. rk_side s = side \<and> rk_token s = tokenHash) (ry_sockets r)"

text \<open>\<open>ended\<close>: forget the session, and tell the hub of the organization in the relay's name.\<close>

definition notice_of :: "string option \<Rightarrow> (string \<times> string) list" where
  "notice_of name =
     (let bound = text_of name; at = length (takeWhile (\<lambda>c. c \<noteq> CHR '':'') bound) in
      if at = 0 \<or> at = length bound then [] else [(take at bound, drop (at + 1) bound)])"

definition ended :: "relay \<Rightarrow> relay" where
  "ended r = r\<lparr>ry_session := None, ry_notices := ry_notices r @ notice_of (ry_name r)\<rparr>"

definition joinRefusal :: "relay_side \<Rightarrow> string \<Rightarrow> string \<Rightarrow> int \<Rightarrow> relay \<Rightarrow> refusal option" where
  "joinRefusal side tokenHash userId now r =
     (case ry_session r of
        None \<Rightarrow> Some (''This Remote Control session is not open'', 403)
      | Some s \<Rightarrow>
          if \<not> RELAY_TOKEN_PATTERN tokenHash \<or> rs_token_hash s \<noteq> tokenHash
          then Some (''This Remote Control session is not open'', 403)
          else if side = Console_side \<and> rs_user_id s \<noteq> userId
          then Some (''This Remote Control session was opened by someone else'', 403)
          else if now > rs_join_by s then Some (''This Remote Control session has expired; open it again'', 410)
          else if current side tokenHash r \<noteq> None
          then Some (''This Remote Control session already has its '' @ (case side of Console_side \<Rightarrow> ''console'' | Device_side \<Rightarrow> ''device''), 409)
          else None)"

definition relay_can_send :: "relay_env \<Rightarrow> relay_socket \<Rightarrow> bool" where
  "relay_can_send env s = (rk_closing s = None \<and> re_sends env (rk_id s))"

text \<open>Whether the answer is the upgrade (\<open>ready\<close> may fail to be sent), and the state after. \<open>userId\<close> goes to the log.\<close>

definition accept :: "relay_env \<Rightarrow> nat \<Rightarrow> relay_side \<Rightarrow> string \<Rightarrow> string \<Rightarrow> relay \<Rightarrow> bool \<times> relay" where
  "accept env i side tokenHash userId r =
     (let r1 = r\<lparr>ry_sockets := ry_sockets r @ [\<lparr>rk_id = i, rk_side = side, rk_token = tokenHash, rk_closing = None\<rparr>],
                 ry_joins := ry_joins r @ [(i, side, tokenHash, userId)]\<rparr>
      in case (current Device_side tokenHash r1, current Console_side tokenHash r1) of
           (Some d, Some _) \<Rightarrow>
             if \<not> relay_can_send env d then (False, r1)
             else (True, r1\<lparr>ry_ready := ry_ready r1 @ [rk_id d],
                            ry_alarm := (case ry_session r1 of Some s \<Rightarrow> Some (rs_ends_at s * 1000) | None \<Rightarrow> ry_alarm r1)\<rparr>)
         | _ \<Rightarrow> (True, r1))"

subsection \<open>Requests and events\<close>

text \<open>The paths of \<open>fetch\<close>; a body that is no JSON is \<open>None\<close>. A join names its headers and the runtime's number for the socket.\<close>

datatype relay_request =
    Relay_open "json option"
  | Relay_close
  | Relay_join relay_side bool string string nat

datatype relay_answer = Relay_ok | Relay_upgraded | Relay_closed bool | Relay_refused refusal

definition failed_request :: relay_answer where
  "failed_request = Relay_refused (''The Remote Control relay could not complete this request'', 500)"

definition text_or :: "json \<Rightarrow> string" where
  "text_or v = (case v of JStr s \<Rightarrow> s | _ \<Rightarrow> [])"

fun relay_route :: "relay_env \<Rightarrow> relay_request \<Rightarrow> relay \<Rightarrow> relay_answer \<times> relay" where
  "relay_route env (Relay_open body) r =
     (case body of
        None \<Rightarrow> (failed_request, r)
      | Some b \<Rightarrow>
          if b = JNull then (failed_request, r)
          else let tokenHash = text_or (field b ''tokenHash''); userId = text_or (field b ''userId'') in
               if \<not> RELAY_TOKEN_PATTERN tokenHash \<or> userId = [] then (Relay_refused (''Missing session'', 400), r)
               else (Relay_ok, open_session tokenHash userId (re_now env div 1000) r))"
| "relay_route env Relay_close r = (Relay_closed (ry_session r \<noteq> None), ended (closeAll CLOSE_RELAY_REVOKED r))"
| "relay_route env (Relay_join side upgrade tokenHash userId i) r =
     (if \<not> upgrade then (Relay_refused (''Expected a WebSocket upgrade'', 426), r)
      else case joinRefusal side tokenHash userId (re_now env div 1000) r of
             Some refusal \<Rightarrow> (Relay_refused refusal, r)
           | None \<Rightarrow> (let (ok, r1) = accept env i side tokenHash userId r in (if ok then Relay_upgraded else failed_request, r1)))"

definition relay_fetch :: "relay_env \<Rightarrow> string \<Rightarrow> relay_request \<Rightarrow> relay \<Rightarrow> relay_answer \<times> relay" where
  "relay_fetch env name q r =
     (case relay_bind name r of
        (False, r1) \<Rightarrow> (Relay_refused (''This relay belongs to another workstation'', 409), r1)
      | (True, r1) \<Rightarrow> relay_route env q r1)"

definition relay_socket_of :: "relay \<Rightarrow> nat \<Rightarrow> relay_socket option" where
  "relay_socket_of r i = find (\<lambda>s. rk_id s = i) (ry_sockets r)"

definition close_one :: "int \<Rightarrow> nat \<Rightarrow> relay \<Rightarrow> relay" where
  "close_one why i r = r\<lparr>ry_sockets := map (\<lambda>s. if rk_id s = i then closeQuietly why s else s) (ry_sockets r)\<rparr>"

definition other_side :: "relay_side \<Rightarrow> relay_side" where
  "other_side side = (case side of Console_side \<Rightarrow> Device_side | Device_side \<Rightarrow> Console_side)"

definition in_session :: "relay \<Rightarrow> relay_socket \<Rightarrow> bool" where
  "in_session r s = (case ry_session r of None \<Rightarrow> False | Some x \<Rightarrow> rs_token_hash x = rk_token s)"

text \<open>\<open>webSocketMessage\<close>: \<open>Some bytes\<close>, or \<open>None\<close> for text.\<close>

definition relay_message :: "relay_env \<Rightarrow> nat \<Rightarrow> string option \<Rightarrow> relay \<Rightarrow> relay" where
  "relay_message env i message r =
     (case relay_socket_of r i of
        None \<Rightarrow> r
      | Some s \<Rightarrow>
          if \<not> in_session r s then close_one CLOSE_RELAY_EXPIRED i r
          else case message of
            None \<Rightarrow> r
          | Some bytes \<Rightarrow>
              (case current (other_side (rk_side s)) (rk_token s) r of
                 None \<Rightarrow> r
               | Some other \<Rightarrow>
                   if relay_can_send env other then r\<lparr>ry_passed := ry_passed r @ [(i, rk_id other, bytes)]\<rparr>
                   else ended (closeAll CLOSE_RELAY_PEER_GONE r)))"

definition departed :: "nat \<Rightarrow> relay \<Rightarrow> relay" where
  "departed i r =
     (case relay_socket_of r i of
        None \<Rightarrow> r
      | Some s \<Rightarrow>
          if \<not> in_session r s then r
          else ended (r\<lparr>ry_sockets := map (\<lambda>s. if rk_id s = i then s else closeQuietly CLOSE_RELAY_PEER_GONE s) (ry_sockets r)\<rparr>))"

text \<open>\<open>webSocketClose\<close> and \<open>webSocketError\<close>, after which the runtime forgets the socket.\<close>

definition relay_gone :: "nat \<Rightarrow> relay \<Rightarrow> relay" where
  "relay_gone i r = (let r1 = departed i r in r1\<lparr>ry_sockets := tbl_delete rk_id i (ry_sockets r1)\<rparr>)"

text \<open>The runtime clears the alarm before it calls the handler.\<close>

definition relay_alarm :: "relay_env \<Rightarrow> relay \<Rightarrow> relay" where
  "relay_alarm env r0 =
     (let r = r0\<lparr>ry_alarm := None\<rparr> in
      case ry_session r of
        None \<Rightarrow> r
      | Some s \<Rightarrow>
          let now = re_now env div 1000;
              joined = (current Console_side (rs_token_hash s) r \<noteq> None \<and> current Device_side (rs_token_hash s) r \<noteq> None)
          in if now \<ge> rs_ends_at s \<or> (\<not> joined \<and> now \<ge> rs_join_by s) then ended (closeAll CLOSE_RELAY_EXPIRED r)
             else r\<lparr>ry_alarm := Some ((if joined then rs_ends_at s else rs_join_by s) * 1000)\<rparr>)"

datatype relay_event =
    Relay_request string relay_request
  | Relay_message nat "string option"
  | Relay_gone nat
  | Relay_alarm

fun relay_step :: "relay_env \<times> relay_event \<Rightarrow> relay \<Rightarrow> relay" where
  "relay_step (env, Relay_request name q) r = snd (relay_fetch env name q r)"
| "relay_step (env, Relay_message i m) r = relay_message env i m r"
| "relay_step (env, Relay_gone i) r = relay_gone i r"
| "relay_step (env, Relay_alarm) r = relay_alarm env r"

subsection \<open>Two parties, and no third\<close>

definition sock_key :: "relay_socket \<Rightarrow> nat \<times> relay_side \<times> string" where
  "sock_key s = (rk_id s, rk_side s, rk_token s)"

definition sock_keys :: "relay \<Rightarrow> (nat \<times> relay_side \<times> string) set" where
  "sock_keys r = sock_key ` set (ry_sockets r)"

definition relay_ok :: "relay \<Rightarrow> bool" where
  "relay_ok r =
     (distinct (map fst (ry_opens r)) \<and> distinct (map fst (ry_joins r))
      \<and> (\<forall>s. ry_session r = Some s \<longrightarrow> (rs_token_hash s, rs_user_id s) \<in> set (ry_opens r)
           \<and> (\<forall>i side u. (i, side, rs_token_hash s, u) \<in> set (ry_joins r) \<longrightarrow> (i, side, rs_token_hash s) \<in> sock_keys r))
      \<and> (\<forall>i side t. (i, side, t) \<in> sock_keys r \<longrightarrow> (\<exists>u. (i, side, t, u) \<in> set (ry_joins r)))
      \<and> (\<forall>i side t u. (i, side, t, u) \<in> set (ry_joins r) \<longrightarrow> (\<exists>v. (t, v) \<in> set (ry_opens r) \<and> (side = Console_side \<longrightarrow> u = v)))
      \<and> (\<forall>i j side t u v. (i, side, t, u) \<in> set (ry_joins r) \<longrightarrow> (j, side, t, v) \<in> set (ry_joins r) \<longrightarrow> i = j)
      \<and> (\<forall>i j d. (i, j, d) \<in> set (ry_passed r) \<longrightarrow>
           (\<exists>side t u v. (i, side, t, u) \<in> set (ry_joins r) \<and> (j, other_side side, t, v) \<in> set (ry_joins r))))"

lemma relay_okD:
  assumes "relay_ok r"
  shows "distinct (map fst (ry_opens r))" and "distinct (map fst (ry_joins r))"
    and "ry_session r = Some s \<Longrightarrow> (rs_token_hash s, rs_user_id s) \<in> set (ry_opens r)"
    and "ry_session r = Some s \<Longrightarrow> (i, side, rs_token_hash s, u) \<in> set (ry_joins r) \<Longrightarrow> (i, side, rs_token_hash s) \<in> sock_keys r"
    and "(i, side, t) \<in> sock_keys r \<Longrightarrow> \<exists>u. (i, side, t, u) \<in> set (ry_joins r)"
    and "(i, side, t, u) \<in> set (ry_joins r) \<Longrightarrow> \<exists>v. (t, v) \<in> set (ry_opens r) \<and> (side = Console_side \<longrightarrow> u = v)"
    and "(i, side, t, u) \<in> set (ry_joins r) \<Longrightarrow> (j, side, t, v) \<in> set (ry_joins r) \<Longrightarrow> i = j"
    and "(i, j, d) \<in> set (ry_passed r) \<Longrightarrow>
      \<exists>side t u v. (i, side, t, u) \<in> set (ry_joins r) \<and> (j, other_side side, t, v) \<in> set (ry_joins r)"
proof -
  note a = assms [unfolded relay_ok_def]
  note a3 = conjunct2 [OF conjunct2 [OF a]]
  note a5 = conjunct2 [OF conjunct2 [OF a3]]
  show "distinct (map fst (ry_opens r))" "distinct (map fst (ry_joins r))" using a by (blast dest: conjunct1 conjunct2)+
  show "ry_session r = Some s \<Longrightarrow> (rs_token_hash s, rs_user_id s) \<in> set (ry_opens r)"
    "ry_session r = Some s \<Longrightarrow> (i, side, rs_token_hash s, u) \<in> set (ry_joins r) \<Longrightarrow> (i, side, rs_token_hash s) \<in> sock_keys r"
    using conjunct1 [OF a3] by blast+
  show "(i, side, t) \<in> sock_keys r \<Longrightarrow> \<exists>u. (i, side, t, u) \<in> set (ry_joins r)" using conjunct1 [OF conjunct2 [OF a3]] by blast
  show "(i, side, t, u) \<in> set (ry_joins r) \<Longrightarrow> \<exists>v. (t, v) \<in> set (ry_opens r) \<and> (side = Console_side \<longrightarrow> u = v)"
    using conjunct1 [OF a5] by blast
  show "(i, side, t, u) \<in> set (ry_joins r) \<Longrightarrow> (j, side, t, v) \<in> set (ry_joins r) \<Longrightarrow> i = j"
    using conjunct1 [OF conjunct2 [OF a5]] by blast
  show "(i, j, d) \<in> set (ry_passed r) \<Longrightarrow>
      \<exists>side t u v. (i, side, t, u) \<in> set (ry_joins r) \<and> (j, other_side side, t, v) \<in> set (ry_joins r)"
    using conjunct2 [OF conjunct2 [OF a5]] by blast
qed

lemma relay_okI:
  assumes "distinct (map fst (ry_opens r))" and "distinct (map fst (ry_joins r))"
    and "\<And>s. ry_session r = Some s \<Longrightarrow> (rs_token_hash s, rs_user_id s) \<in> set (ry_opens r)"
    and "\<And>s i side u. ry_session r = Some s \<Longrightarrow> (i, side, rs_token_hash s, u) \<in> set (ry_joins r) \<Longrightarrow> (i, side, rs_token_hash s) \<in> sock_keys r"
    and "\<And>i side t. (i, side, t) \<in> sock_keys r \<Longrightarrow> \<exists>u. (i, side, t, u) \<in> set (ry_joins r)"
    and "\<And>i side t u. (i, side, t, u) \<in> set (ry_joins r) \<Longrightarrow> \<exists>v. (t, v) \<in> set (ry_opens r) \<and> (side = Console_side \<longrightarrow> u = v)"
    and "\<And>i j side t u v. (i, side, t, u) \<in> set (ry_joins r) \<Longrightarrow> (j, side, t, v) \<in> set (ry_joins r) \<Longrightarrow> i = j"
    and "\<And>i j d. (i, j, d) \<in> set (ry_passed r) \<Longrightarrow>
      \<exists>side t u v. (i, side, t, u) \<in> set (ry_joins r) \<and> (j, other_side side, t, v) \<in> set (ry_joins r)"
  shows "relay_ok r"
  unfolding relay_ok_def using assms by meson

lemma relay_ok_cong:
  assumes "sock_keys r' = sock_keys r" and "ry_session r' = ry_session r" and "ry_opens r' = ry_opens r" and "ry_joins r' = ry_joins r"
    and "ry_passed r' = ry_passed r"
  shows "relay_ok r' = relay_ok r"
  using assms by (simp add: relay_ok_def)

lemma relay_ok_ended: "relay_ok r \<Longrightarrow> relay_ok (ended r)"
  by (simp add: relay_ok_def ended_def sock_keys_def)

lemma sock_key_close [simp]: "sock_key (closeQuietly why s) = sock_key s"
  by (simp add: closeQuietly_def sock_key_def)

lemma sock_keys_map: "(\<And>s. sock_key (f s) = sock_key s) \<Longrightarrow> sock_keys (r\<lparr>ry_sockets := map f (ry_sockets r)\<rparr>) = sock_keys r"
  by (simp add: sock_keys_def image_image)

lemma relay_ok_close:
  "relay_ok (closeAll why r) = relay_ok r" "relay_ok (close_one why i r) = relay_ok r"
  "relay_ok (r\<lparr>ry_sockets := map (\<lambda>s. if rk_id s = i then s else closeQuietly why s) (ry_sockets r)\<rparr>) = relay_ok r"
  by (rule relay_ok_cong; simp add: closeAll_def close_one_def sock_keys_map)+

lemma relay_ok_open:
  assumes ok: "relay_ok r" and new: "t \<notin> fst ` set (ry_opens r)"
  shows "relay_ok (open_session t u now r)"
proof -
  let ?r = "open_session t u now r"
  have keys: "sock_keys ?r = sock_keys r" by (simp add: open_session_def sock_keys_def closeAll_def image_image)
  have none: "(i, side, t, v) \<notin> set (ry_joins r)" for i side v using relay_okD(6) [OF ok, of i side t v] new by force
  have f: "ry_opens ?r = ry_opens r @ [(t, u)]" "ry_joins ?r = ry_joins r" "ry_passed ?r = ry_passed r"
    "ry_session ?r = Some s \<Longrightarrow> rs_token_hash s = t \<and> rs_user_id s = u" for s
    by (auto simp: open_session_def closeAll_def)
  show ?thesis
  proof (rule relay_okI)
    show "\<exists>v. (t', v) \<in> set (ry_opens ?r) \<and> (side = Console_side \<longrightarrow> w = v)" if "(j, side, t', w) \<in> set (ry_joins ?r)" for j side t' w
      using that relay_okD(6) [OF ok, of j side t' w] f by auto
    show "\<exists>side t' v w. (j, side, t', v) \<in> set (ry_joins ?r) \<and> (k, other_side side, t', w) \<in> set (ry_joins ?r)"
      if "(j, k, d) \<in> set (ry_passed ?r)" for j k d using that relay_okD(8) [OF ok, of j k d] f by simp
    show "\<exists>v. (j, side', t', v) \<in> set (ry_joins ?r)" if "(j, side', t') \<in> sock_keys ?r" for j side' t'
      using that relay_okD(5) [OF ok, of j side' t'] f by (simp add: keys)
    show "j = k" if "(j, side', t', v) \<in> set (ry_joins ?r)" "(k, side', t', w) \<in> set (ry_joins ?r)" for j k side' t' v w
      using that relay_okD(7) [OF ok, of j side' t' v k w] f by simp
  qed (use relay_okD(1,2) [OF ok] new none f in \<open>auto dest: f(4)\<close>)
qed

lemma current_key: "current side t r = Some s \<Longrightarrow> (rk_id s, side, t) \<in> sock_keys r"
  by (auto simp: current_def find_Some_iff sock_keys_def sock_key_def intro!: rev_image_eqI)

lemma current_none: "current side t r = None \<Longrightarrow> (i, side, t) \<notin> sock_keys r"
  by (auto simp: current_def find_None_iff sock_keys_def sock_key_def)

lemma relay_socket_key: "relay_socket_of r i = Some s \<Longrightarrow> (i, rk_side s, rk_token s) \<in> sock_keys r"
  by (auto simp: relay_socket_of_def find_Some_iff sock_keys_def sock_key_def intro!: rev_image_eqI)

lemma relay_ok_accept:
  assumes ok: "relay_ok r" and join: "joinRefusal side t u now r = None" and new: "i \<notin> fst ` set (ry_joins r)"
  shows "relay_ok (snd (accept env i side t u r))"
proof -
  let ?r = "r\<lparr>ry_sockets := ry_sockets r @ [\<lparr>rk_id = i, rk_side = side, rk_token = t, rk_closing = None\<rparr>], ry_joins := ry_joins r @ [(i, side, t, u)]\<rparr>"
  obtain s where s: "ry_session r = Some s" "rs_token_hash s = t" "side = Console_side \<longrightarrow> rs_user_id s = u" "current side t r = None"
    using join by (auto simp: joinRefusal_def split: option.splits if_splits)
  have none: "(j, side, t, v) \<notin> set (ry_joins r)" for j v using relay_okD(4) [OF ok s(1)] s(2) current_none [OF s(4)] by blast
  have keys: "sock_keys ?r = insert (i, side, t) (sock_keys r)" by (simp add: sock_keys_def sock_key_def)
  have f: "ry_joins ?r = ry_joins r @ [(i, side, t, u)]" "ry_opens ?r = ry_opens r" "ry_passed ?r = ry_passed r" "ry_session ?r = Some s"
    using s(1) by simp_all
  have "relay_ok ?r"
  proof (rule relay_okI)
    show "(j, side', rs_token_hash x) \<in> sock_keys ?r" if "ry_session ?r = Some x" "(j, side', rs_token_hash x, v) \<in> set (ry_joins ?r)" for x j side' v
      using that relay_okD(4) [OF ok s(1)] s f by (auto simp: keys)
    show "\<exists>v. (j, side', t', v) \<in> set (ry_joins ?r)" if "(j, side', t') \<in> sock_keys ?r" for j side' t'
      using that relay_okD(5) [OF ok, of j side' t'] by (auto simp: keys)
    show "\<exists>v. (t', v) \<in> set (ry_opens ?r) \<and> (side' = Console_side \<longrightarrow> w = v)" if "(j, side', t', w) \<in> set (ry_joins ?r)" for j side' t' w
      using that relay_okD(6) [OF ok, of j side' t' w] relay_okD(3) [OF ok s(1)] s by auto
    show "j = k" if "(j, side', t', v) \<in> set (ry_joins ?r)" "(k, side', t', w) \<in> set (ry_joins ?r)" for j k side' t' v w
      using that relay_okD(7) [OF ok, of j side' t' v k w] none by auto
    show "\<exists>side' t' v w. (j, side', t', v) \<in> set (ry_joins ?r) \<and> (k, other_side side', t', w) \<in> set (ry_joins ?r)"
      if "(j, k, d) \<in> set (ry_passed ?r)" for j k d
      using that relay_okD(8) [OF ok, of j k d] by auto
  qed (use relay_okD [OF ok] s new in auto)
  moreover have "relay_ok (snd (accept env i side t u r)) = relay_ok ?r"
    by (rule relay_ok_cong) (auto simp: accept_def Let_def sock_keys_def split: option.split)
  ultimately show ?thesis by simp
qed

lemma relay_ok_message: "relay_ok r \<Longrightarrow> relay_ok (relay_message env i m r)"
proof -
  assume ok: "relay_ok r"
  have "relay_ok (r\<lparr>ry_passed := ry_passed r @ [(i, rk_id x, d)]\<rparr>)"
    if s: "relay_socket_of r i = Some s" and x: "current (other_side (rk_side s)) (rk_token s) r = Some x" for s x d
  proof -
    obtain u where u: "(i, rk_side s, rk_token s, u) \<in> set (ry_joins r)" using relay_okD(5) [OF ok relay_socket_key [OF s]] by blast
    obtain v where v: "(rk_id x, other_side (rk_side s), rk_token s, v) \<in> set (ry_joins r)" using relay_okD(5) [OF ok current_key [OF x]] by blast
    have keys: "sock_keys (r\<lparr>ry_passed := p\<rparr>) = sock_keys r" for p by (simp add: sock_keys_def)
    show ?thesis
    proof (rule relay_okI)
      show "\<exists>side t v w. (j, side, t, v) \<in> set (ry_joins (r\<lparr>ry_passed := ry_passed r @ [(i, rk_id x, d)]\<rparr>))
          \<and> (k, other_side side, t, w) \<in> set (ry_joins (r\<lparr>ry_passed := ry_passed r @ [(i, rk_id x, d)]\<rparr>))"
        if "(j, k, d') \<in> set (ry_passed (r\<lparr>ry_passed := ry_passed r @ [(i, rk_id x, d)]\<rparr>))" for j k d'
        using that relay_okD(8) [OF ok, of j k d'] u v by auto
    qed (simp_all add: keys relay_okD(1,2,3,4,5,6) [OF ok], rule relay_okD(7) [OF ok])
  qed
  then show ?thesis using ok by (auto simp: relay_message_def relay_ok_close relay_ok_ended split: option.split)
qed

lemma sock_keys_delete: "sock_keys (r\<lparr>ry_sockets := tbl_delete rk_id i (ry_sockets r)\<rparr>) = {k \<in> sock_keys r. fst k \<noteq> i}"
proof -
  have "fst (sock_key s) = rk_id s" for s by (simp add: sock_key_def)
  then show ?thesis by (auto simp: sock_keys_def tbl_delete_def)
qed

lemma relay_ok_gone: "relay_ok r \<Longrightarrow> relay_ok (relay_gone i r)"
proof -
  assume ok: "relay_ok r"
  let ?r = "departed i r"
  have r: "relay_ok ?r" using ok by (auto simp: departed_def relay_ok_close relay_ok_ended split: option.split)
  note keys = sock_keys_delete [of i ?r]
  have ne: "j \<noteq> i" if s: "ry_session ?r = Some s" and j: "(j, side, rs_token_hash s, u) \<in> set (ry_joins ?r)" for s j side u
  proof
    assume [simp]: "j = i"
    have same: "?r = r" using s by (auto simp: departed_def ended_def split: option.splits if_splits)
    have "(i, side, rs_token_hash s) \<in> sock_keys r" using relay_okD(4) [OF r s j] same by simp
    then obtain x where x: "relay_socket_of r i = Some x"
      by (cases "relay_socket_of r i") (auto simp: relay_socket_of_def find_None_iff sock_keys_def sock_key_def)
    then obtain v where "(i, rk_side x, rk_token x, v) \<in> set (ry_joins r)" using relay_okD(5) [OF ok relay_socket_key [OF x]] by blast
    then have t: "rk_token x = rs_token_hash s" using j eq_key_imp_eq_value [OF relay_okD(2) [OF ok]] unfolding same by fastforce
    have "ry_session r = Some s" using s same by simp
    then have "ry_session ?r = None" using x t by (simp add: departed_def in_session_def ended_def)
    then show False using s by simp
  qed
  let ?q = "?r\<lparr>ry_sockets := tbl_delete rk_id i (ry_sockets ?r)\<rparr>"
  have "relay_ok ?q"
  proof (rule relay_okI)
    show "(j, side, rs_token_hash s) \<in> sock_keys ?q" if "ry_session ?q = Some s" "(j, side, rs_token_hash s, u) \<in> set (ry_joins ?q)" for s j side u
      using that ne relay_okD(4) [OF r] by (auto simp: keys)
    show "i = j" if "(i, side, t, u) \<in> set (ry_joins ?q)" "(j, side, t, v) \<in> set (ry_joins ?q)" for i j side t u v
      using that relay_okD(7) [OF r] by simp
    show "\<exists>side t u v. (i, side, t, u) \<in> set (ry_joins ?q) \<and> (j, other_side side, t, v) \<in> set (ry_joins ?q)"
      if "(i, j, d) \<in> set (ry_passed ?q)" for i j d using that relay_okD(8) [OF r] by simp
  qed (simp_all add: keys relay_okD(1,2,3,5,6) [OF r])
  then show ?thesis by (simp add: relay_gone_def Let_def)
qed

lemma relay_ok_alarm: "relay_ok r \<Longrightarrow> relay_ok (relay_alarm env r)"
proof -
  assume ok: "relay_ok r"
  have a: "relay_ok (k\<lparr>ry_alarm := a\<rparr>) = relay_ok k" for k a by (rule relay_ok_cong) (simp_all add: sock_keys_def)
  show ?thesis using ok by (auto simp: relay_alarm_def Let_def a relay_ok_close relay_ok_ended split: option.split)
qed

text \<open>The token a request opens a session with, and the socket it brings.\<close>

fun opened_token :: "relay_env \<times> relay_event \<Rightarrow> string list" where
  "opened_token (_, Relay_request _ (Relay_open (Some b))) = [text_or (field b ''tokenHash'')]"
| "opened_token _ = []"

fun brought_socket :: "relay_env \<times> relay_event \<Rightarrow> nat list" where
  "brought_socket (_, Relay_request _ (Relay_join _ _ _ _ i)) = [i]"
| "brought_socket _ = []"

definition opened_of :: "relay \<Rightarrow> string set" where "opened_of r = fst ` set (ry_opens r)"

definition brought_of :: "relay \<Rightarrow> nat set" where "brought_of r = fst ` set (ry_joins r)"

lemma bind_fields:
  "relay_bind n r = (b, r1) \<Longrightarrow> sock_keys r1 = sock_keys r \<and> ry_session r1 = ry_session r \<and> ry_opens r1 = ry_opens r \<and> ry_joins r1 = ry_joins r
     \<and> ry_passed r1 = ry_passed r \<and> ry_alarm r1 = ry_alarm r"
  by (auto simp: relay_bind_def sock_keys_def split: if_splits option.splits)

lemma accept_logs: "ry_opens (snd (accept env i side t u r)) = ry_opens r" "ry_joins (snd (accept env i side t u r)) = ry_joins r @ [(i, side, t, u)]"
  by (auto simp: accept_def Let_def split: option.split)

lemma open_logs: "ry_opens (open_session t u now r) = ry_opens r @ [(t, u)]" "ry_joins (open_session t u now r) = ry_joins r"
  by (simp_all add: open_session_def closeAll_def)

lemma relay_ok_route:
  assumes ok: "relay_ok r" and "set (opened_token (env, Relay_request n q)) \<inter> opened_of r = {}"
    and "set (brought_socket (env, Relay_request n q)) \<inter> brought_of r = {}"
  shows "relay_ok (snd (relay_route env q r))"
    and "opened_of (snd (relay_route env q r)) \<subseteq> opened_of r \<union> set (opened_token (env, Relay_request n q))"
    and "brought_of (snd (relay_route env q r)) \<subseteq> brought_of r \<union> set (brought_socket (env, Relay_request n q))"
proof -
  have "relay_ok (snd (relay_route env q r)) \<and> opened_of (snd (relay_route env q r)) \<subseteq> opened_of r \<union> set (opened_token (env, Relay_request n q))
    \<and> brought_of (snd (relay_route env q r)) \<subseteq> brought_of r \<union> set (brought_socket (env, Relay_request n q))"
  proof (cases q)
    case (Relay_open b)
    then show ?thesis using ok assms(2)
      by (cases b) (auto simp: Let_def opened_of_def brought_of_def open_logs intro: relay_ok_open)
  next
    case Relay_close
    then show ?thesis using ok by (simp add: relay_ok_ended relay_ok_close) (simp add: opened_of_def brought_of_def ended_def closeAll_def)
  next
    case (Relay_join side up t u i)
    then show ?thesis using ok assms(3) relay_ok_accept [OF ok]
      by (auto simp: case_prod_beta opened_of_def brought_of_def accept_logs split: option.split)
  qed
  then show "relay_ok (snd (relay_route env q r))" "opened_of (snd (relay_route env q r)) \<subseteq> opened_of r \<union> set (opened_token (env, Relay_request n q))"
    "brought_of (snd (relay_route env q r)) \<subseteq> brought_of r \<union> set (brought_socket (env, Relay_request n q))" by blast+
qed

lemma other_logs:
  "ry_opens (relay_message env i m r) = ry_opens r" "ry_joins (relay_message env i m r) = ry_joins r"
  "ry_opens (relay_gone i r) = ry_opens r" "ry_joins (relay_gone i r) = ry_joins r"
  "ry_opens (relay_alarm env r) = ry_opens r" "ry_joins (relay_alarm env r) = ry_joins r"
  by (simp_all add: relay_message_def relay_gone_def departed_def relay_alarm_def Let_def ended_def closeAll_def close_one_def split: option.split)

lemma relay_ok_step:
  assumes ok: "relay_ok r" and "set (opened_token x) \<inter> opened_of r = {}" and "set (brought_socket x) \<inter> brought_of r = {}"
  shows "relay_ok (relay_step x r) \<and> opened_of (relay_step x r) \<subseteq> opened_of r \<union> set (opened_token x)
    \<and> brought_of (relay_step x r) \<subseteq> brought_of r \<union> set (brought_socket x)"
proof -
  obtain env e where x: "x = (env, e)" by (cases x)
  show ?thesis
  proof (cases e)
    case (Relay_request n q)
    obtain b r1 where b: "relay_bind n r = (b, r1)" by fastforce
    note f = bind_fields [OF b]
    have o: "opened_of r1 = opened_of r" "brought_of r1 = brought_of r" using f by (simp_all add: opened_of_def brought_of_def)
    have ok1: "relay_ok r1" using relay_ok_cong [of r1 r] f ok by simp
    show ?thesis using relay_ok_route [OF ok1, of env n q] assms(2,3) b Relay_request x o ok1 by (cases b) (auto simp: relay_fetch_def)
  qed (use x ok in \<open>auto simp: relay_ok_message relay_ok_gone relay_ok_alarm opened_of_def brought_of_def other_logs\<close>)
qed

lemma relay_ok_run:
  assumes "relay_ok r" and "distinct (concat (map opened_token es))" and "distinct (concat (map brought_socket es))"
    and "set (concat (map opened_token es)) \<inter> opened_of r = {}" and "set (concat (map brought_socket es)) \<inter> brought_of r = {}"
  shows "relay_ok (run_steps relay_step es r)"
  using assms
proof (induction es arbitrary: r)
  case (Cons x es)
  have step: "relay_ok (relay_step x r) \<and> opened_of (relay_step x r) \<subseteq> opened_of r \<union> set (opened_token x)
    \<and> brought_of (relay_step x r) \<subseteq> brought_of r \<union> set (brought_socket x)"
    using Cons.prems by (intro relay_ok_step) auto
  have "relay_ok (run_steps relay_step es (relay_step x r))"
    by (rule Cons.IH) (use step Cons.prems in \<open>auto 0 4\<close>)
  then show ?case by simp
qed simp

text \<open>
  C25. Remote Control joins two parties and lets in no third. With session tokens that do not repeat
  (they are drawn at random), through any requests, messages, departures and alarms: bytes pass only
  from one side of a session to the other side of the same session; each side of a session is taken
  once and by one socket; and its console is the operator the session was opened for.
\<close>

theorem relay_two_parties:
  assumes "distinct (concat (map opened_token es))" and "distinct (concat (map brought_socket es))"
  shows "let r = run_steps relay_step es new_relay in
    (\<forall>(i, j, d)\<in>set (ry_passed r). \<exists>t operator ud.
       (t, operator) \<in> set (ry_opens r)
       \<and> ((i, Console_side, t, operator) \<in> set (ry_joins r) \<and> (j, Device_side, t, ud) \<in> set (ry_joins r)
          \<or> (j, Console_side, t, operator) \<in> set (ry_joins r) \<and> (i, Device_side, t, ud) \<in> set (ry_joins r)))
    \<and> (\<forall>(i, side, t, u)\<in>set (ry_joins r). \<forall>(j, side', t', v)\<in>set (ry_joins r). side = side' \<and> t = t' \<longrightarrow> i = j)
    \<and> (\<forall>(t, u)\<in>set (ry_opens r). \<forall>(t', v)\<in>set (ry_opens r). t = t' \<longrightarrow> u = v)"
proof -
  let ?r = "run_steps relay_step es new_relay"
  have ok: "relay_ok ?r"
    by (rule relay_ok_run) (use assms in \<open>auto simp: relay_ok_def new_relay_def sock_keys_def opened_of_def brought_of_def\<close>)
  have "\<exists>t operator ud. (t, operator) \<in> set (ry_opens ?r)
       \<and> ((i, Console_side, t, operator) \<in> set (ry_joins ?r) \<and> (j, Device_side, t, ud) \<in> set (ry_joins ?r)
          \<or> (j, Console_side, t, operator) \<in> set (ry_joins ?r) \<and> (i, Device_side, t, ud) \<in> set (ry_joins ?r))"
    if p: "(i, j, d) \<in> set (ry_passed ?r)" for i j d
  proof -
    obtain side t u v where j: "(i, side, t, u) \<in> set (ry_joins ?r)" "(j, other_side side, t, v) \<in> set (ry_joins ?r)"
      using relay_okD(8) [OF ok p] by blast
    show ?thesis
      using relay_okD(6) [OF ok j(1)] relay_okD(6) [OF ok j(2)] j by (cases side) (auto simp: other_side_def)
  qed
  moreover have "i = j" if "(i, side, t, u) \<in> set (ry_joins ?r)" "(j, side, t, v) \<in> set (ry_joins ?r)" for i j side t u v
    using relay_okD(7) [OF ok that] .
  moreover have "u = v" if "(t, u) \<in> set (ry_opens ?r)" "(t, v) \<in> set (ry_opens ?r)" for t u v
    using eq_key_imp_eq_value [OF relay_okD(1) [OF ok] that] .
  ultimately show ?thesis unfolding Let_def by blast
qed

theorem relay_two_parties_witness:
  "let es = [(\<lparr>re_now = 0, re_sends = (\<lambda>_. True)\<rparr>, Relay_request ''t:PC-1'' (Relay_open (Some (JObj [(''tokenHash'', JStr (replicate 64 CHR ''a'')), (''userId'', JStr ''u'')])))),
      (\<lparr>re_now = 1, re_sends = (\<lambda>_. True)\<rparr>, Relay_request ''t:PC-1'' (Relay_join Device_side True (replicate 64 CHR ''a'') [] 2)),
      (\<lparr>re_now = 2, re_sends = (\<lambda>_. True)\<rparr>, Relay_request ''t:PC-1'' (Relay_join Console_side True (replicate 64 CHR ''a'') ''u'' 3)),
      (\<lparr>re_now = 3, re_sends = (\<lambda>_. True)\<rparr>, Relay_message 2 (Some ''RFB''))];
     r = run_steps relay_step es new_relay in
   ry_passed r = [(2, 3, ''RFB'')] \<and> (\<exists>t operator. (3, Console_side, t, operator) \<in> set (ry_joins r) \<and> (t, operator) \<in> set (ry_opens r))"
proof -
  let ?e = "\<lambda>n. \<lparr>re_now = n, re_sends = (\<lambda>_. True)\<rparr>"
  let ?es = "[(?e 0, Relay_request ''t:PC-1'' (Relay_open (Some (JObj [(''tokenHash'', JStr (replicate 64 CHR ''a'')), (''userId'', JStr ''u'')])))),
      (?e 1, Relay_request ''t:PC-1'' (Relay_join Device_side True (replicate 64 CHR ''a'') [] 2)),
      (?e 2, Relay_request ''t:PC-1'' (Relay_join Console_side True (replicate 64 CHR ''a'') ''u'' 3)),
      (?e 3, Relay_message 2 (Some ''RFB''))]"
  let ?r = "run_steps relay_step ?es new_relay"
  have p: "RELAY_TOKEN_PATTERN (replicate 64 CHR ''a'')" by (simp add: RELAY_TOKEN_PATTERN_def is_lower_hex_def list_all_iff)
  have passed: "ry_passed ?r = [(2, 3, ''RFB'')]" "ry_joins ?r = [(2, Device_side, replicate 64 CHR ''a'', []), (3, Console_side, replicate 64 CHR ''a'', ''u'')]"
    using p by (simp_all add: relay_fetch_def relay_bind_def new_relay_def text_or_def open_session_def closeAll_def joinRefusal_def current_def accept_def Let_def
        RELAY_JOIN_SECONDS_def relay_can_send_def relay_message_def relay_socket_of_def in_session_def other_side_def)
  have "distinct (concat (map opened_token ?es))" "distinct (concat (map brought_socket ?es))" by simp_all
  note two = relay_two_parties [OF this, unfolded Let_def, THEN conjunct1, THEN bspec [of _ _ "(2, 3, ''RFB'')"]]
  show ?thesis unfolding Let_def using two passed by auto
qed

subsection \<open>The time limit\<close>

definition relay_timed :: "relay \<Rightarrow> bool" where
  "relay_timed r = (\<forall>s. ry_session r = Some s \<longrightarrow> rs_join_by s \<le> rs_ends_at s \<and> (\<exists>a. ry_alarm r = Some a \<and> a \<le> rs_ends_at s * 1000))"

lemma timed_route: "relay_timed r \<Longrightarrow> relay_timed (snd (relay_route env q r))"
proof (cases q)
  case (Relay_open b)
  assume "relay_timed r"
  then show ?thesis using Relay_open
    by (cases b) (auto simp: Let_def relay_timed_def open_session_def RELAY_JOIN_SECONDS_def RELAY_MAX_SECONDS_def)
next
  case Relay_close
  then show ?thesis by (simp add: relay_timed_def ended_def)
next
  case (Relay_join side up t u i)
  assume "relay_timed r"
  then have "relay_timed (snd (accept env i side t u r))" by (auto simp: relay_timed_def accept_def Let_def split: option.split)
  then show ?thesis using \<open>relay_timed r\<close> Relay_join by (auto simp: case_prod_beta split: option.split)
qed

lemma timed_step: "relay_timed r \<Longrightarrow> relay_timed (relay_step x r)"
proof -
  assume t: "relay_timed r"
  obtain env e where x: "x = (env, e)" by (cases x)
  show ?thesis
  proof (cases e)
    case (Relay_request n q)
    obtain b r1 where b: "relay_bind n r = (b, r1)" by fastforce
    then have "relay_timed r1" using t bind_fields [OF b] by (simp add: relay_timed_def)
    then show ?thesis using timed_route b Relay_request x by (cases b) (auto simp: relay_fetch_def)
  next
    case (Relay_message i m)
    then show ?thesis using t x by (auto simp: relay_timed_def relay_message_def close_one_def ended_def closeAll_def split: option.splits)
  next
    case (Relay_gone i)
    then show ?thesis using t x by (auto simp: relay_timed_def relay_gone_def departed_def Let_def ended_def split: option.splits)
  next
    case Relay_alarm
    then show ?thesis using t x by (auto simp: relay_timed_def relay_alarm_def Let_def ended_def split: option.splits if_splits)
  qed
qed

interpretation relay_clock: step_system relay_step relay_timed
  by unfold_locales (rule timed_step)

text \<open>
  A Remote Control session ends. Through any events, a relay with a session has an alarm, due no
  later than the session's end; when the alarm rings at the end, or after the time to join while a
  side is missing, the session is over: every socket is closed, the hub is told once, and no byte
  passes any more.
\<close>

theorem relay_time_limit:
  "let r = run_steps relay_step es new_relay in
   \<forall>s. ry_session r = Some s \<longrightarrow>
     (\<exists>a. ry_alarm r = Some a \<and> a \<le> rs_ends_at s * 1000)
     \<and> (\<forall>env. re_now env div 1000 \<ge> rs_ends_at s
           \<or> re_now env div 1000 \<ge> rs_join_by s \<and> (current Console_side (rs_token_hash s) r = None \<or> current Device_side (rs_token_hash s) r = None) \<longrightarrow>
          (let r' = relay_step (env, Relay_alarm) r in
           ry_session r' = None \<and> (\<forall>x\<in>set (ry_sockets r'). rk_closing x \<noteq> None) \<and> ry_notices r' = ry_notices r @ notice_of (ry_name r)
           \<and> (\<forall>env' i m. ry_passed (relay_step (env', Relay_message i m) r') = ry_passed r)))"
proof -
  let ?r = "run_steps relay_step es new_relay"
  have t: "relay_timed ?r" by (rule relay_clock.run_invar) (simp add: relay_timed_def new_relay_def)
  have silent: "ry_session k = None \<Longrightarrow> ry_passed (relay_message env' i m k) = ry_passed k" for k env' i m
    by (simp add: relay_message_def in_session_def close_one_def split: option.split)
  have over: "relay_alarm env ?r = ended (closeAll CLOSE_RELAY_EXPIRED (?r\<lparr>ry_alarm := None\<rparr>))"
    if "ry_session ?r = Some s" "re_now env div 1000 \<ge> rs_ends_at s
           \<or> re_now env div 1000 \<ge> rs_join_by s \<and> (current Console_side (rs_token_hash s) ?r = None \<or> current Device_side (rs_token_hash s) ?r = None)" for s env
    using that by (auto simp: relay_alarm_def Let_def current_def)
  show ?thesis unfolding Let_def
    using t over silent by (auto simp: relay_timed_def ended_def closeAll_def closeQuietly_def)
qed

theorem relay_time_limit_witness:
  "let r = run_steps relay_step [(\<lparr>re_now = 0, re_sends = (\<lambda>_. True)\<rparr>,
        Relay_request ''t:PC-1'' (Relay_open (Some (JObj [(''tokenHash'', JStr (replicate 64 CHR ''a'')), (''userId'', JStr ''u'')]))))] new_relay in
   ry_session (relay_step (\<lparr>re_now = 60000, re_sends = (\<lambda>_. True)\<rparr>, Relay_alarm) r) = None"
proof -
  let ?es = "[(\<lparr>re_now = 0, re_sends = (\<lambda>_. True)\<rparr>,
        Relay_request ''t:PC-1'' (Relay_open (Some (JObj [(''tokenHash'', JStr (replicate 64 CHR ''a'')), (''userId'', JStr ''u'')]))))]"
  let ?r = "run_steps relay_step ?es new_relay"
  have p: "RELAY_TOKEN_PATTERN (replicate 64 CHR ''a'')" by (simp add: RELAY_TOKEN_PATTERN_def is_lower_hex_def list_all_iff)
  have r: "ry_session ?r = Some \<lparr>rs_token_hash = replicate 64 CHR ''a'', rs_user_id = ''u'', rs_join_by = 60, rs_ends_at = 14400\<rparr>"
    "current Console_side (replicate 64 CHR ''a'') ?r = None"
    using p by (simp_all add: relay_fetch_def relay_bind_def new_relay_def text_or_def open_session_def closeAll_def current_def Let_def RELAY_JOIN_SECONDS_def RELAY_MAX_SECONDS_def)
  show ?thesis
    using relay_time_limit [of ?es, unfolded Let_def, rule_format, OF r(1), THEN conjunct2, rule_format, of "\<lparr>re_now = 60000, re_sends = (\<lambda>_. True)\<rparr>"] r(2)
    unfolding Let_def by simp
qed

end
