(* ===== verification/Remote_Control.thy ===== *)
theory Remote_Control
  imports Hub_Access Remote_Relay
begin

text \<open>
  Opening and ending Remote Control sessions (\<open>src/cloudflare-control/src/index.ts\<close>,
  \<open>src/cloudflare-control/src/remote_relay.ts\<close>): the Worker's routes on top of the relays and the
  organization's hub.
\<close>

subsection \<open>The relay, the hub and the Worker together\<close>

text \<open>
  The relays of one organization by name, its hub, and the notices of ended sessions on their way to
  it. A notice may arrive later than what the relay or the hub do next, or be lost.
\<close>

record remote_world =
  rw_relays :: "string \<Rightarrow> relay"
  rw_hub :: hub
  rw_pending :: "(string \<times> string) list"

definition put_relay :: "string \<Rightarrow> relay \<Rightarrow> remote_world \<Rightarrow> remote_world" where
  "put_relay name r w =
     w\<lparr>rw_relays := (rw_relays w)(name := r),
       rw_pending := rw_pending w @ drop (length (ry_notices (rw_relays w name))) (ry_notices r)\<rparr>"

definition seat_notice :: "string \<Rightarrow> hub_request" where
  "seat_notice clientId = Remote_ended (JObj [(''clientId'', JStr clientId)])"

definition deliver_notice :: "hub_env \<Rightarrow> nat \<Rightarrow> remote_world \<Rightarrow> remote_world" where
  "deliver_notice env n w =
     (if n \<ge> length (rw_pending w) then w
      else let (t, c) = rw_pending w ! n
           in w\<lparr>rw_hub := snd (hub_fetch env t (seat_notice c) (rw_hub w)), rw_pending := take n (rw_pending w) @ drop (n + 1) (rw_pending w)\<rparr>)"

text \<open>\<open>getTenantUser\<close>; the account it joins is there for every row (a foreign key).\<close>

definition getTenantUser :: "d1 \<Rightarrow> string \<Rightarrow> string \<Rightarrow> tenant_user option" where
  "getTenantUser db tenantId userId = find (\<lambda>u. tu_tenant_id u = tenantId \<and> tu_user_id u = userId) (tenant_users db)"

definition isOrganizationAdministrator :: "d1 \<Rightarrow> session \<Rightarrow> tenant \<Rightarrow> bool" where
  "isOrganizationAdministrator db s t =
     (if se_role s = Super_admin then False
      else if tn_user_id t = se_user_id s then True
      else map_option tu_role (getTenantUser db (tn_id t) (se_user_id s)) = Some ''org_admin'')"

definition remoteControlRefusal :: "d1 \<Rightarrow> session \<Rightarrow> tenant \<Rightarrow> int \<Rightarrow> refusal option" where
  "remoteControlRefusal db s t now =
     (if se_role s \<noteq> Super_admin \<and> \<not> isOrganizationAdministrator db s t
      then Some (''Only an administrator of the organization can use Remote Control'', 403)
      else if tn_remote_control_status t \<noteq> Some ''approved''
      then Some (''Remote Control is not enabled for this organization. An administrator can request it under Settings.'', 403)
      else map_option (\<lambda>m. (m, 403)) (licenseExpiredMessage t now))"

definition openRelaySession :: "relay_env \<Rightarrow> string \<Rightarrow> string \<Rightarrow> string \<Rightarrow> string \<Rightarrow> remote_world \<Rightarrow> bool \<times> remote_world" where
  "openRelaySession renv tenantId clientId tokenHash userId w =
     (let name = relayName tenantId clientId;
          (a, r) = relay_fetch renv name (Relay_open (Some (JObj [(''tokenHash'', JStr tokenHash), (''userId'', JStr userId)]))) (rw_relays w name)
      in (a = Relay_ok, put_relay name r w))"

definition closeRelaySession :: "relay_env \<Rightarrow> string \<Rightarrow> string \<Rightarrow> remote_world \<Rightarrow> bool \<times> remote_world" where
  "closeRelaySession renv tenantId clientId w =
     (let name = relayName tenantId clientId; (a, r) = relay_fetch renv name Relay_close (rw_relays w name)
      in (case a of Relay_refused _ \<Rightarrow> False | _ \<Rightarrow> True, put_relay name r w))"

definition open_body :: "string \<Rightarrow> string \<Rightarrow> string \<Rightarrow> int \<Rightarrow> int \<Rightarrow> json" where
  "open_body clientId token userId seats endsAt =
     JObj [(''clientId'', JStr clientId), (''session'', JStr token), (''userId'', JStr userId), (''seats'', JInt seats), (''endsAt'', JInt endsAt)]"

definition seats_message :: "int \<Rightarrow> string list \<Rightarrow> string" where
  "seats_message seats holders =
     ''All '' @ show_int seats @ '' Remote Control '' @ (if seats = 1 then ''seat is'' else ''seats are'') @ '' in use''
     @ (if join '', '' holders = [] then [] else '' ('' @ join '', '' holders @ '')'')
     @ ''. End one of those sessions first, or ask Lab Kiosk for more seats.''"

text \<open>
  \<open>POST /api/clients/remote-session\<close>: \<open>token\<close> is the one drawn, \<open>sha\<close> the digest of \<open>hashRelayToken\<close>,
  \<open>has_relay\<close> whether the binding is there. The answer is the address the viewer connects to.
\<close>

definition ask_hub :: "hub_env \<Rightarrow> relay_env \<Rightarrow> tenant \<Rightarrow> session \<Rightarrow> string \<Rightarrow> string \<Rightarrow> remote_world \<Rightarrow> (refusal + string \<times> string) \<times> effect list \<times> remote_world" where
  "ask_hub env renv t s clientId token w =
     (let seats = (if tn_remote_control_seats t = 0 then 1 else tn_remote_control_seats t);
          (a, h) = hub_fetch env (tn_id t) (Remote_open (open_body clientId token (se_user_id s) seats (he_now env div 1000 + RELAY_MAX_SECONDS))) (rw_hub w);
          w1 = w\<lparr>rw_hub := h\<rparr>
      in case a of
           Remote (Seats_in_use _ holders) \<Rightarrow> (Inl (seats_message seats holders, 429), [], snd (closeRelaySession renv (tn_id t) clientId w1))
         | Remote Not_connected \<Rightarrow> (Inl (''This workstation is not connected to the console right now'', 409), [], w1)
         | Remote Remote_ok \<Rightarrow> (Inr (clientId, token), [Audit ''device.remote_control'' (''client='' @ clientId @ '' via=relay'')], w1)
         | _ \<Rightarrow> (Inl (''The organization hub could not reach the workstation'', 502), [], w1))"

definition postRemoteSession ::
  "hub_env \<Rightarrow> relay_env \<Rightarrow> bool \<Rightarrow> (string \<Rightarrow> string) \<Rightarrow> string \<Rightarrow> d1 \<Rightarrow> session option \<Rightarrow> tenant option \<Rightarrow> json option \<Rightarrow> remote_world
     \<Rightarrow> (refusal + string \<times> string) \<times> effect list \<times> remote_world" where
  "postRemoteSession env renv has_relay sha token db session currentTenant body w =
     (case requireTenantPermission db session currentTenant ''workstations'' of
        Some denied \<Rightarrow> (Inl denied, [], w)
      | None \<Rightarrow>
          (case (session, currentTenant) of
             (Some s, Some t) \<Rightarrow>
               (case remoteControlRefusal db s t (he_now env div 1000) of
                  Some notEnabled \<Rightarrow> (Inl notEnabled, [], w)
                | None \<Rightarrow>
                    if \<not> has_relay then (Inl (''This server has no Remote Control relay (REMOTE_RELAY binding)'', 503), [], w)
                    else case body of
                      None \<Rightarrow> (Inl (''The request body must be JSON'', 400), [], w)
                    | Some b \<Rightarrow>
                        let clientId = trim (text_or (field b ''clientId'')) in
                        if \<not> CLIENT_ID_PATTERN clientId then (Inl (''A workstation id is required'', 400), [], w)
                        else let (opened, w1) = openRelaySession renv (tn_id t) clientId (sha token) (se_user_id s) w in
                             if \<not> opened then (Inl (''The Remote Control relay could not open a session'', 502), [], w1)
                             else ask_hub env renv t s clientId token w1)
           | _ \<Rightarrow> (Inl (''The request could not be completed'', 500), [], w)))"

definition closeAllRemoteSessions :: "hub_env \<Rightarrow> relay_env \<Rightarrow> string \<Rightarrow> remote_world \<Rightarrow> remote_world" where
  "closeAllRemoteSessions env renv tenantId w =
     (case hub_fetch env tenantId Remote_revoke (rw_hub w) of
        (Names clientIds, h) \<Rightarrow> fold (\<lambda>c w. snd (closeRelaySession renv tenantId c w)) clientIds (w\<lparr>rw_hub := h\<rparr>)
      | (_, h) \<Rightarrow> w\<lparr>rw_hub := h\<rparr>)"

lemma notice_relayName: "t \<noteq> [] \<Longrightarrow> CHR '':'' \<notin> set t \<Longrightarrow> notice_of (Some (relayName t c)) = [(t, c)]"
proof -
  assume t: "t \<noteq> []" "CHR '':'' \<notin> set t"
  have "takeWhile (\<lambda>x. x \<noteq> CHR '':'') (t @ CHR '':'' # c) = t" using t(2) by (subst takeWhile_append2) auto
  then show ?thesis using t(1) by (simp add: notice_of_def relayName_def text_of_def Let_def)
qed

lemma hub_seat_notice:
  "bound t h \<Longrightarrow> hub_fetch env t (seat_notice c) h = (Done, h\<lparr>hb_seats := tbl_delete st_client_id c (hb_seats h)\<rparr>)"
  by (cases c) (simp_all add: hub_fetch_def bind_bound seat_notice_def string_or_def releaseRemoteSeat_def)

lemma ended_notice:
  assumes "ry_session r \<noteq> None" and "ry_name r = Some n" and "ry_session (relay_step x r) = None"
  shows "ry_notices (relay_step x r) = ry_notices r @ notice_of (Some n)"
proof -
  obtain env e where x: "x = (env, e)" by (cases x)
  show ?thesis
  proof (cases e)
    case (Relay_request m q)
    have b: "relay_bind m r = (n = m \<and> m \<noteq> [], r)" using assms(2) by (auto simp: relay_bind_def)
    show ?thesis
    proof (cases "n = m \<and> m \<noteq> []")
      case True
      then show ?thesis using assms x Relay_request b
        by (cases q) (auto simp: relay_fetch_def Let_def ended_def closeAll_def open_session_def accept_def case_prod_beta split: option.splits if_splits)
    qed (use assms x Relay_request b in \<open>auto simp: relay_fetch_def\<close>)
  next
    case (Relay_message i m)
    then show ?thesis using assms x by (auto simp: relay_message_def ended_def closeAll_def close_one_def split: option.splits if_splits)
  next
    case (Relay_gone i)
    then show ?thesis using assms x by (auto simp: relay_gone_def departed_def Let_def ended_def split: option.splits if_splits)
  next
    case Relay_alarm
    then show ?thesis using assms x by (auto simp: relay_alarm_def Let_def ended_def closeAll_def split: option.splits if_splits)
  qed
qed

text \<open>
  The end of a session gives its seat back. Whatever ends the session of a workstation - either
  side leaving, its time limit, or Remote Control being turned off - the relay tells the hub of the
  organization and workstation in its name, once; when that notice arrives the workstation holds no
  seat and every other workstation keeps its own.
\<close>

theorem ended_session_frees_seat:
  assumes "t \<noteq> []" and "CHR '':'' \<notin> set t" and "bound t (rw_hub w)"
    and "ry_name (rw_relays w n) = Some n" and "n = relayName t c"
    and "ry_session (rw_relays w n) \<noteq> None" and "ry_session (relay_step x (rw_relays w n)) = None"
  shows "let w1 = put_relay n (relay_step x (rw_relays w n)) w; w2 = deliver_notice env (length (rw_pending w)) w1 in
    rw_pending w1 = rw_pending w @ [(t, c)] \<and> rw_pending w2 = rw_pending w
    \<and> c \<notin> st_client_id ` set (hb_seats (rw_hub w2))
    \<and> filter (\<lambda>s. st_client_id s \<noteq> c) (hb_seats (rw_hub w2)) = filter (\<lambda>s. st_client_id s \<noteq> c) (hb_seats (rw_hub w))"
proof -
  have "ry_notices (relay_step x (rw_relays w n)) = ry_notices (rw_relays w n) @ [(t, c)]"
    using ended_notice [OF assms(6,4,7)] notice_relayName [OF assms(1,2)] assms(5) by simp
  then have w1: "put_relay n (relay_step x (rw_relays w n)) w
      = w\<lparr>rw_relays := (rw_relays w)(n := relay_step x (rw_relays w n)), rw_pending := rw_pending w @ [(t, c)]\<rparr>"
    by (simp add: put_relay_def)
  show ?thesis unfolding Let_def w1 using hub_seat_notice [OF assms(3)] by (auto simp: deliver_notice_def tbl_delete_def)
qed

lemma relay_open_fetch:
  assumes "relay_fetch renv n (Relay_open (Some (JObj [(''tokenHash'', JStr th), (''userId'', JStr u)]))) r = (Relay_ok, r')"
  shows "ry_session r' = Some \<lparr>rs_token_hash = th, rs_user_id = u, rs_join_by = re_now renv div 1000 + RELAY_JOIN_SECONDS,
      rs_ends_at = re_now renv div 1000 + RELAY_MAX_SECONDS\<rparr> \<and> ry_notices r' = ry_notices r \<and> u \<noteq> []"
  using assms by (auto simp: relay_fetch_def relay_bind_def text_or_def open_session_def closeAll_def Let_def split: if_splits option.splits bool.splits)

lemma hub_remote_ok:
  assumes "bound t h" and "\<And>i. he_integer env (JInt i) = Some i" and "k > 0" and "c \<noteq> []" and "tok \<noteq> []" and "u \<noteq> []" and "e > 0"
    and "hub_fetch env t (Remote_open (open_body c tok u k e)) h = (Remote Remote_ok, h')"
  shows "int (length (filter (\<lambda>r. st_ends_at r > he_now env div 1000 \<and> st_client_id r \<noteq> c) (hb_seats h))) < k
    \<and> c \<in> st_client_id ` set (hb_seats h') \<and> bound t h' \<and> client_sockets h c \<noteq> []"
proof -
  let ?r = "Remote_open (open_body c tok u k e)" and ?now = "he_now env div 1000"
  have fetch: "hub_fetch env t ?r h = (Remote (fst (remote_open_route env c tok u (Some k) (Some e) h)), snd (remote_open_route env c tok u (Some k) (Some e) h))"
    using assms(1,2,4-6) by (simp add: hub_fetch_def bind_bound open_body_def string_or_def case_prod_beta)
  then have a: "fst (remote_open_route env c tok u (Some k) (Some e) h) = Remote_ok" and h': "h' = snd (remote_open_route env c tok u (Some k) (Some e) h)"
    using assms(8) by simp_all
  obtain hs h1 where hs: "remoteSeatHolders env c h = (hs, h1)" by fastforce
  obtain d h2 where d: "remoteOpen c tok h1 = (d, h2)" by fastforce
  have n: "length hs = length (filter (\<lambda>r. st_ends_at r > ?now \<and> st_client_id r \<noteq> c) (hb_seats h))" and s1: "hb_sockets h1 = hb_sockets h"
    using hs by (auto simp: remoteSeatHolders_def Let_def not_le conj_commute)
  have few: "int (length hs) < k" and ok: "d" and h'2: "h' = holdRemoteSeat c u e h2"
    using a h' assms(3) hs d by (auto simp: remote_open_route_def split: if_splits)
  have p: "CLIENT_ID_PATTERN c" and con: "client_sockets h1 c \<noteq> []" using d ok by (auto simp: remoteOpen_def split: if_splits list.splits)
  have "c \<in> st_client_id ` set (tbl_upsert st_client_id \<lparr>st_client_id = c, st_user_id = u, st_ends_at = e\<rparr> (hb_seats h2))"
    using tbl_lookup_mem [of st_client_id c _ "\<lparr>st_client_id = c, st_user_id = u, st_ends_at = e\<rparr>"] by (force simp: tbl_lookup_upsert)
  then have "c \<in> st_client_id ` set (hb_seats h')" using h'2 p assms(6,7) by (simp add: holdRemoteSeat_def)
  moreover have "bound t h'" using bound_step [OF assms(1), of env "Request t ?r"] assms(8) by simp
  moreover have "client_sockets h c \<noteq> []" using con s1 by (simp add: client_sockets_def)
  ultimately show ?thesis using few n by simp
qed

lemma remote_session_facts:
  assumes "postRemoteSession env renv has_relay sha token db session tenant body w = (Inr (c, tok), effs, w')"
    and "\<And>t. tenant = Some t \<Longrightarrow> bound (tn_id t) (rw_hub w) \<and> 0 \<le> tn_remote_control_seats t"
    and "\<And>i. he_integer env (JInt i) = Some i" and "token \<noteq> []" and "0 \<le> he_now env"
  shows "\<exists>s t. session = Some s \<and> tenant = Some t \<and> requireTenantAdmin session tenant = None
    \<and> (se_role s = Super_admin \<or> isOrganizationAdministrator db s t)
    \<and> tn_remote_control_status t = Some ''approved'' \<and> licenseExpiredMessage t (he_now env div 1000) = None
    \<and> client_sockets (rw_hub w) c \<noteq> []
    \<and> int (length (filter (\<lambda>r. st_ends_at r > he_now env div 1000 \<and> st_client_id r \<noteq> c) (hb_seats (rw_hub w)))) < max 1 (tn_remote_control_seats t)
    \<and> ry_session (rw_relays w' (relayName (tn_id t) c)) = Some \<lparr>rs_token_hash = sha token, rs_user_id = se_user_id s,
        rs_join_by = re_now renv div 1000 + RELAY_JOIN_SECONDS, rs_ends_at = re_now renv div 1000 + RELAY_MAX_SECONDS\<rparr>
    \<and> c \<in> st_client_id ` set (hb_seats (rw_hub w')) \<and> bound (tn_id t) (rw_hub w') \<and> rw_pending w' = rw_pending w"
proof -
  have perm: "requireTenantPermission db session tenant ''workstations'' = None"
    using assms(1) by (auto simp: postRemoteSession_def split: option.splits)
  obtain s t where st: "session = Some s" "tenant = Some t" using assms(1) perm by (auto simp: postRemoteSession_def split: option.splits)
  have adm: "requireTenantAdmin session tenant = None" using perm by (auto simp: requireTenantPermission_def split: option.splits)
  have ref: "remoteControlRefusal db s t (he_now env div 1000) = None" using assms(1) perm st by (auto simp: postRemoteSession_def split: option.splits)
  define c' where "c' = trim (text_or (field (the body) ''clientId''))"
  obtain opened w1 where op: "openRelaySession renv (tn_id t) c' (sha token) (se_user_id s) w = (opened, w1)" by fastforce
  have p: "CLIENT_ID_PATTERN c'" and o: "opened" and ask: "ask_hub env renv t s c' token w1 = (Inr (c, tok), effs, w')"
    using assms(1) perm st ref op by (auto simp: postRemoteSession_def c'_def Let_def split: option.splits if_splits)
  let ?n = "relayName (tn_id t) c'"
  obtain r where r: "relay_fetch renv ?n (Relay_open (Some (JObj [(''tokenHash'', JStr (sha token)), (''userId'', JStr (se_user_id s))]))) (rw_relays w ?n) = (Relay_ok, r)"
    and w1: "w1 = put_relay ?n r w" using op o by (auto simp: openRelaySession_def Let_def split: prod.splits)
  note sess = relay_open_fetch [OF r]
  have hub: "rw_hub w1 = rw_hub w" "rw_pending w1 = rw_pending w" "rw_relays w1 ?n = r" using w1 sess by (simp_all add: put_relay_def)
  let ?k = "if tn_remote_control_seats t = 0 then 1 else tn_remote_control_seats t" and ?e = "he_now env div 1000 + RELAY_MAX_SECONDS"
  obtain h where h: "hub_fetch env (tn_id t) (Remote_open (open_body c' token (se_user_id s) ?k ?e)) (rw_hub w) = (Remote Remote_ok, h)"
    and w': "w' = w1\<lparr>rw_hub := h\<rparr>" and c: "c = c'"
    using ask hub(1) by (auto simp: ask_hub_def Let_def split: prod.splits hub_answer.splits remote_answer.splits)
  have b: "bound (tn_id t) (rw_hub w)" "0 \<le> tn_remote_control_seats t" using assms(2) st by auto
  have k: "?k > 0" "?k = max 1 (tn_remote_control_seats t)" using b(2) by auto
  have e: "?e > 0" using assms(5) by (simp add: RELAY_MAX_SECONDS_def add_nonneg_pos pos_imp_zdiv_nonneg_iff)
  have "c' \<noteq> []" using p by (auto simp: CLIENT_ID_PATTERN_def)
  then have ok: "int (length (filter (\<lambda>r. st_ends_at r > he_now env div 1000 \<and> st_client_id r \<noteq> c') (hb_seats (rw_hub w)))) < ?k
    \<and> c' \<in> st_client_id ` set (hb_seats h) \<and> bound (tn_id t) h \<and> client_sockets (rw_hub w) c' \<noteq> []"
    using hub_remote_ok [OF b(1) assms(3) k(1) _ assms(4) _ e h] sess by blast
  have lic: "se_role s = Super_admin \<or> isOrganizationAdministrator db s t" "tn_remote_control_status t = Some ''approved''"
    "licenseExpiredMessage t (he_now env div 1000) = None"
    using ref by (auto simp: remoteControlRefusal_def split: if_splits)
  show ?thesis using st adm lic ok sess hub w' c k(2) by (intro exI [of _ s] exI [of _ t]) auto
qed

text \<open>
  C26. Remote Control is for administrators, one seat each. A session is opened only for a signed-in
  administrator of that very organization (in a demo of the platform, its super admin) where the
  platform has approved Remote Control and the licence has not ended, to a workstation that is
  connected, and only while fewer other workstations hold a seat than the organization has. The
  relay's session is then the operator's, and the workstation holds a seat.
\<close>

theorem remote_session_gate:
  assumes "postRemoteSession env renv has_relay sha token db session tenant body w = (Inr (c, tok), effs, w')"
    and "\<And>t. tenant = Some t \<Longrightarrow> bound (tn_id t) (rw_hub w) \<and> 0 \<le> tn_remote_control_seats t"
    and "\<And>i. he_integer env (JInt i) = Some i" and "token \<noteq> []" and "0 \<le> he_now env"
  shows "\<exists>s t. session = Some s \<and> tenant = Some t \<and> requireTenantAdmin session tenant = None
    \<and> (se_role s = Super_admin \<or> isOrganizationAdministrator db s t)
    \<and> tn_remote_control_status t = Some ''approved'' \<and> licenseExpiredMessage t (he_now env div 1000) = None
    \<and> client_sockets (rw_hub w) c \<noteq> []
    \<and> int (length (filter (\<lambda>r. st_ends_at r > he_now env div 1000 \<and> st_client_id r \<noteq> c) (hb_seats (rw_hub w)))) < max 1 (tn_remote_control_seats t)
    \<and> map_option rs_user_id (ry_session (rw_relays w' (relayName (tn_id t) c))) = Some (se_user_id s)
    \<and> c \<in> st_client_id ` set (hb_seats (rw_hub w'))"
proof -
  obtain s t where "session = Some s" "tenant = Some t" "requireTenantAdmin session tenant = None"
    "se_role s = Super_admin \<or> isOrganizationAdministrator db s t" "tn_remote_control_status t = Some ''approved''"
    "licenseExpiredMessage t (he_now env div 1000) = None" "client_sockets (rw_hub w) c \<noteq> []"
    "int (length (filter (\<lambda>r. st_ends_at r > he_now env div 1000 \<and> st_client_id r \<noteq> c) (hb_seats (rw_hub w)))) < max 1 (tn_remote_control_seats t)"
    "ry_session (rw_relays w' (relayName (tn_id t) c)) = Some \<lparr>rs_token_hash = sha token, rs_user_id = se_user_id s,
        rs_join_by = re_now renv div 1000 + RELAY_JOIN_SECONDS, rs_ends_at = re_now renv div 1000 + RELAY_MAX_SECONDS\<rparr>"
    "c \<in> st_client_id ` set (hb_seats (rw_hub w'))" using remote_session_facts [OF assms] by blast
  then show ?thesis by (intro exI [of _ s] exI [of _ t]) simp
qed

lemma relayName_inj: "relayName t c = relayName t c' \<longleftrightarrow> c = c'"
  by (simp add: relayName_def)

lemma close_other: "rw_relays (fold (\<lambda>c w. snd (closeRelaySession renv t c w)) cs w) n = rw_relays w n" if "n \<notin> relayName t ` set cs"
  using that by (induction cs arbitrary: w) (auto simp: closeRelaySession_def Let_def case_prod_beta put_relay_def)

text \<open>
  C28. A notice that comes late takes the seat of the next session. The notice of an ended session
  names the workstation, not the session. If it is still on its way when the same workstation's next
  session is opened, it takes that session's seat when it arrives: the session goes on but is not
  counted, and turning Remote Control off, which closes the sessions that hold a seat, leaves it open.
\<close>

theorem late_notice_takes_seat:
  assumes "rw_pending w = [(tn_id t, c)]"
    and "postRemoteSession env renv has_relay sha token db session (Some t) body w = (Inr (c, tok), effs, w1)"
    and "bound (tn_id t) (rw_hub w)" and "0 \<le> tn_remote_control_seats t"
    and "\<And>i. he_integer env (JInt i) = Some i" and "token \<noteq> []" and "0 \<le> he_now env"
  shows "let w2 = deliver_notice env' 0 w1; w3 = closeAllRemoteSessions env'' renv'' (tn_id t) w2 in
    c \<in> st_client_id ` set (hb_seats (rw_hub w1)) \<and> c \<notin> st_client_id ` set (hb_seats (rw_hub w2))
    \<and> ry_session (rw_relays w2 (relayName (tn_id t) c)) \<noteq> None
    \<and> hb_seats (rw_hub w3) = [] \<and> rw_relays w3 (relayName (tn_id t) c) = rw_relays w2 (relayName (tn_id t) c)"
proof -
  let ?n = "relayName (tn_id t) c"
  have f: "ry_session (rw_relays w1 ?n) \<noteq> None" "c \<in> st_client_id ` set (hb_seats (rw_hub w1))" "bound (tn_id t) (rw_hub w1)" "rw_pending w1 = [(tn_id t, c)]"
    using remote_session_facts [OF assms(2) _ assms(5,6,7)] assms(1,3,4) by fastforce+
  define h2 where "h2 = rw_hub w1\<lparr>hb_seats := tbl_delete st_client_id c (hb_seats (rw_hub w1))\<rparr>"
  define w2 where "w2 = w1\<lparr>rw_hub := h2, rw_pending := []\<rparr>"
  have w2: "deliver_notice env' 0 w1 = w2" using f hub_seat_notice [OF f(3)] by (simp add: deliver_notice_def h2_def w2_def)
  have b2: "bound (tn_id t) h2" using f(3) by (simp add: h2_def bound_def readMeta_def)
  have gone: "c \<notin> st_client_id ` set (hb_seats h2)" by (auto simp: h2_def tbl_delete_def)
  have rev: "hub_fetch env'' (tn_id t) Remote_revoke h2 = (Names (map st_client_id (hb_seats h2)), h2\<lparr>hb_seats := []\<rparr>)"
    by (simp add: hub_fetch_def bind_bound [OF b2] releaseAllRemoteSeats_def)
  have close_hub: "rw_hub (fold (\<lambda>c w. snd (closeRelaySession renv'' (tn_id t) c w)) cs k) = rw_hub k" for cs k
    by (induction cs arbitrary: k) (auto simp: closeRelaySession_def Let_def case_prod_beta put_relay_def)
  have "?n \<notin> relayName (tn_id t) ` set (map st_client_id (hb_seats h2))" using gone by (auto simp: relayName_inj)
  then have w3: "rw_relays (closeAllRemoteSessions env'' renv'' (tn_id t) w2) ?n = rw_relays w2 ?n"
    "hb_seats (rw_hub (closeAllRemoteSessions env'' renv'' (tn_id t) w2)) = []"
    using close_other [of ?n "tn_id t" "map st_client_id (hb_seats h2)"] rev close_hub
    by (simp_all add: closeAllRemoteSessions_def w2_def)
  show ?thesis unfolding Let_def w2 using f gone w3 by (simp add: w2_def)
qed

subsection \<open>An example\<close>

definition remote_tenant :: tenant where
  "remote_tenant = (plain_tenant ''t'' ''owner'' ''lab'')\<lparr>tn_remote_control_status := Some ''approved''\<rparr>"

definition remote_env :: relay_env where
  "remote_env = \<lparr>re_now = 0, re_sends = (\<lambda>_. True)\<rparr>"

definition remote_now :: "(string \<times> string) list \<Rightarrow> remote_world" where
  "remote_now pending = \<lparr>rw_relays = (\<lambda>_. new_relay), rw_hub = (lab_hub [lab_socket 2 ''PC-1'' False])\<lparr>hb_meta := [(''tenantId'', ''t'')]\<rparr>,
     rw_pending = pending\<rparr>"

definition ask_remote :: "(string \<times> string) list \<Rightarrow> (refusal + string \<times> string) \<times> effect list \<times> remote_world" where
  "ask_remote pending = postRemoteSession (lab_env 0) remote_env True (\<lambda>_. replicate 64 CHR ''a'') (replicate 64 CHR ''b'') empty_db
     (Some (staff_session\<lparr>se_user_id := ''owner''\<rparr>)) (Some remote_tenant) (Some (JObj [(''clientId'', JStr ''PC-1'')])) (remote_now pending)"

lemma remote_bound: "bound ''t'' (rw_hub (remote_now p))"
  by (simp add: remote_now_def bound_def readMeta_def lab_hub_def)

lemma ask_remote_ok: "fst (ask_remote p) = Inr (''PC-1'', replicate 64 CHR ''b'')"
proof -
  have pc: "CLIENT_ID_PATTERN ''PC-1''" "trim ''PC-1'' = ''PC-1''" by code_simp+
  have hex: "RELAY_TOKEN_PATTERN (replicate 64 CHR ''a'')" "list_all is_lower_hex (replicate 64 CHR ''b'')"
    by (simp_all add: RELAY_TOKEN_PATTERN_def is_lower_hex_def list_all_iff)
  have perm: "requireTenantPermission empty_db (Some (staff_session\<lparr>se_user_id := ''owner''\<rparr>)) (Some remote_tenant) ''workstations'' = None"
    by (simp add: requireTenantPermission_def requireTenantAdmin_def staff_session_def remote_tenant_def plain_tenant_def)
  have ref: "remoteControlRefusal empty_db (staff_session\<lparr>se_user_id := ''owner''\<rparr>) remote_tenant 0 = None"
    by (simp add: remoteControlRefusal_def isOrganizationAdministrator_def staff_session_def remote_tenant_def plain_tenant_def licenseExpiredMessage_def licenseState_def)
  have open1: "fst (openRelaySession remote_env ''t'' ''PC-1'' (replicate 64 CHR ''a'') ''owner'' (remote_now p))"
    using hex(1) by (simp add: openRelaySession_def relay_fetch_def relay_bind_def relayName_def text_or_def remote_now_def new_relay_def Let_def case_prod_beta)
  let ?w = "snd (openRelaySession remote_env ''t'' ''PC-1'' (replicate 64 CHR ''a'') ''owner'' (remote_now p))"
  have hub: "rw_hub ?w = rw_hub (remote_now p)" by (simp add: openRelaySession_def put_relay_def Let_def case_prod_beta)
  let ?h = "rw_hub (remote_now p)"
  have socks: "client_sockets h ''PC-1'' = [lab_socket 2 ''PC-1'' False]" "can_send h 2" if "hb_sockets h = hb_sockets ?h" for h
    using that by (simp_all add: remote_now_def lab_hub_def client_sockets_def can_send_def socket_of_def lab_socket_simps)
  have seats: "hb_seats ?h = []" by (simp add: remote_now_def lab_hub_def empty_hub_def)
  have "fst (remote_open_route (lab_env 0) ''PC-1'' (replicate 64 CHR ''b'') ''owner'' (Some 1) (Some e) ?h) = Remote_ok" for e
    using socks seats pc hex by (simp add: remote_open_route_def remoteSeatHolders_def remoteOpen_def Let_def lab_socket_simps)
  then have "fst (hub_fetch (lab_env 0) ''t'' (Remote_open (open_body ''PC-1'' (replicate 64 CHR ''b'') ''owner'' 1 e)) ?h) = Remote Remote_ok" for e
    by (simp add: hub_fetch_def bind_bound [OF remote_bound] open_body_def string_or_def case_prod_beta lab_env_def)
  then have "fst (ask_hub (lab_env 0) remote_env remote_tenant (staff_session\<lparr>se_user_id := ''owner''\<rparr>) ''PC-1'' (replicate 64 CHR ''b'') ?w) = Inr (''PC-1'', replicate 64 CHR ''b'')"
    by (simp add: ask_hub_def hub Let_def case_prod_beta remote_tenant_def plain_tenant_def)
  then show ?thesis
    using perm ref pc open1 by (simp add: ask_remote_def postRemoteSession_def text_or_def Let_def case_prod_beta remote_tenant_def plain_tenant_def lab_env_def)
qed

lemma ask_remote_eq: "ask_remote p = (Inr (''PC-1'', replicate 64 CHR ''b''), fst (snd (ask_remote p)), snd (snd (ask_remote p)))"
  using ask_remote_ok by (metis prod.collapse)

lemma remote_facts: "he_integer (lab_env 0) (JInt i) = Some i" "0 \<le> he_now (lab_env 0)" "tn_id remote_tenant = ''t''" "tn_remote_control_seats remote_tenant = 1"
  by (simp_all add: lab_env_def remote_tenant_def plain_tenant_def)

theorem remote_session_gate_witness: "''PC-1'' \<in> st_client_id ` set (hb_seats (rw_hub (snd (snd (ask_remote [])))))"
  using remote_session_gate [OF ask_remote_eq [of "[]", unfolded ask_remote_def]] remote_bound [of "[]"] remote_facts
  by (fastforce simp: ask_remote_def)

theorem late_notice_takes_seat_witness:
  "ry_session (rw_relays (deliver_notice (lab_env 0) 0 (snd (snd (ask_remote [(''t'', ''PC-1'')])))) ''t:PC-1'') \<noteq> None
   \<and> ''PC-1'' \<notin> st_client_id ` set (hb_seats (rw_hub (deliver_notice (lab_env 0) 0 (snd (snd (ask_remote [(''t'', ''PC-1'')]))))))"
proof -
  have "rw_pending (remote_now [(''t'', ''PC-1'')]) = [(tn_id remote_tenant, ''PC-1'')]" by (simp add: remote_now_def remote_facts)
  moreover have "bound (tn_id remote_tenant) (rw_hub (remote_now [(''t'', ''PC-1'')]))" by (simp add: remote_facts remote_bound)
  moreover have "relayName (tn_id remote_tenant) ''PC-1'' = ''t:PC-1''" by (simp add: relayName_def remote_facts)
  ultimately show ?thesis
    using late_notice_takes_seat [OF _ ask_remote_eq [of "[(''t'', ''PC-1'')]", unfolded ask_remote_def], where env' = "lab_env 0"] remote_facts
    unfolding Let_def by (simp add: ask_remote_def)
qed

lemma close_ends: "ry_name r = Some n \<Longrightarrow> n \<noteq> [] \<Longrightarrow> ry_session (relay_step (env, Relay_request n Relay_close) r) = None"
  by (simp add: relay_fetch_def relay_bind_def ended_def)

theorem ended_session_frees_seat_witness:
  "\<exists>w1. rw_pending w1 = [(''t'', ''PC-1'')] \<and> ''PC-1'' \<notin> st_client_id ` set (hb_seats (rw_hub (deliver_notice (lab_env 0) 0 w1)))"
proof -
  let ?open = "(remote_env, Relay_request ''t:PC-1'' (Relay_open (Some (JObj [(''tokenHash'', JStr (replicate 64 CHR ''a'')), (''userId'', JStr ''u'')]))))"
  define r where "r = relay_step ?open new_relay"
  let ?w = "remote_now []\<lparr>rw_relays := (\<lambda>_. r)\<rparr>" and ?x = "(remote_env, Relay_request ''t:PC-1'' Relay_close)"
  have p: "RELAY_TOKEN_PATTERN (replicate 64 CHR ''a'')" by (simp add: RELAY_TOKEN_PATTERN_def is_lower_hex_def list_all_iff)
  have r: "ry_name r = Some ''t:PC-1''" "ry_session r \<noteq> None"
    using p unfolding r_def by (simp_all add: relay_fetch_def relay_bind_def new_relay_def text_or_def open_session_def closeAll_def Let_def)
  have b: "bound ''t'' (rw_hub ?w)" "rw_pending ?w = []" using remote_bound [of "[]"] by (simp_all add: remote_now_def)
  have n: "''t:PC-1'' = relayName ''t'' ''PC-1''" by (simp add: relayName_def)
  have "rw_pending (put_relay ''t:PC-1'' (relay_step ?x r) ?w) = [(''t'', ''PC-1'')]
    \<and> ''PC-1'' \<notin> st_client_id ` set (hb_seats (rw_hub (deliver_notice (lab_env 0) 0 (put_relay ''t:PC-1'' (relay_step ?x r) ?w))))"
    using ended_session_frees_seat [OF _ _ b(1) _ n, of ?x "lab_env 0"] r close_ends [OF r(1)] b(2) unfolding Let_def by (simp del: relay_step.simps)
  then show ?thesis by blast
qed

end
