(* ===== verification/Webauthn.thy ===== *)
theory Webauthn
  imports Guard
begin

text \<open>
  Passkeys (\<open>src/cloudflare-control/src/webauthn.ts\<close>): base64url, the CBOR reader, authenticator data,
  public keys and the two ceremonies. Bytes are \<open>8 word\<close>; decoded text is a list of code points. An
  error is the message of the \<open>PasskeyError\<close> thrown. The digests, the import and the verification of
  Web Crypto and \<open>JSON.parse\<close> are parameters.
\<close>

type_synonym 'a checked = "string + 'a"

definition check :: "bool \<Rightarrow> string \<Rightarrow> 'a checked \<Rightarrow> 'a checked" where
  "check ok message rest = (if ok then rest else Inl message)"

definition and_then :: "'a checked \<Rightarrow> ('a \<Rightarrow> 'b checked) \<Rightarrow> 'b checked" where
  "and_then x f = (case x of Inl e \<Rightarrow> Inl e | Inr v \<Rightarrow> f v)"

lemma and_then_Inr [simp]: "and_then x f = Inr v \<longleftrightarrow> (\<exists>u. x = Inr u \<and> f u = Inr v)"
  by (auto simp: and_then_def split: sum.split)

lemma check_Inr [simp]: "check ok m x = Inr v \<longleftrightarrow> ok \<and> x = Inr v"
  by (simp add: check_def)

subsection \<open>base64url\<close>

definition b64_char :: "nat \<Rightarrow> char" where
  "b64_char v =
     (if v < 26 then char_of (65 + v) else if v < 52 then char_of (71 + v)
      else if v < 62 then char_of (v - 4) else if v = 62 then CHR ''-'' else CHR ''_'')"

definition b64_value :: "char \<Rightarrow> nat option" where
  "b64_value c =
     (if is_upper c then Some (code c - 65) else if is_lower c then Some (code c - 71)
      else if is_digit c then Some (code c + 4) else if c = CHR ''-'' then Some 62 else if c = CHR ''_'' then Some 63 else None)"

fun toBase64url :: "byte list \<Rightarrow> string" where
  "toBase64url [] = []"
| "toBase64url [a] = [b64_char (unat a div 4), b64_char (unat a mod 4 * 16)]"
| "toBase64url [a, b] = [b64_char (unat a div 4), b64_char (unat a mod 4 * 16 + unat b div 16), b64_char (unat b mod 16 * 4)]"
| "toBase64url (a # b # c # rest) =
     b64_char (unat a div 4) # b64_char (unat a mod 4 * 16 + unat b div 16)
     # b64_char (unat b mod 16 * 4 + unat c div 64) # b64_char (unat c mod 64) # toBase64url rest"

text \<open>\<open>atob\<close> of the padded text: sextets to bytes, left-over bits dropped, one character too many refused.\<close>

fun sextets_to_bytes :: "nat list \<Rightarrow> byte list option" where
  "sextets_to_bytes [] = Some []"
| "sextets_to_bytes [a] = None"
| "sextets_to_bytes [a, b] = Some [of_nat (a * 4 + b div 16)]"
| "sextets_to_bytes [a, b, c] = Some [of_nat (a * 4 + b div 16), of_nat (b mod 16 * 16 + c div 4)]"
| "sextets_to_bytes (a # b # c # d # rest) =
     map_option (\<lambda>bs. of_nat (a * 4 + b div 16) # of_nat (b mod 16 * 16 + c div 4) # of_nat (c mod 4 * 64 + d) # bs) (sextets_to_bytes rest)"

definition MAX_ENCODED_LENGTH :: nat where "MAX_ENCODED_LENGTH = 16 * 1024"

definition fromBase64url :: "json \<Rightarrow> string \<Rightarrow> byte list checked" where
  "fromBase64url v what =
     (case v of
        JStr s \<Rightarrow>
          if s = [] \<or> \<not> list_all (\<lambda>c. b64_value c \<noteq> None) s \<or> length s > MAX_ENCODED_LENGTH
          then Inl (''The passkey's '' @ what @ '' is missing or malformed.'')
          else (case sextets_to_bytes (map (\<lambda>c. the (b64_value c)) s) of
                  None \<Rightarrow> Inl (''The passkey's '' @ what @ '' is malformed.'') | Some bs \<Rightarrow> Inr bs)
      | _ \<Rightarrow> Inl (''The passkey's '' @ what @ '' is missing or malformed.''))"

subsection \<open>UTF-8\<close>

text \<open>\<open>TextDecoder("utf-8", {fatal: true})\<close>: the code points of well-formed UTF-8, a byte order mark in front dropped.\<close>

definition tail_byte :: "nat \<Rightarrow> nat \<Rightarrow> nat \<Rightarrow> bool" where
  "tail_byte lo hi b = (lo \<le> b \<and> b \<le> hi)"

fun utf8_points :: "nat list \<Rightarrow> nat list option" where
  "utf8_points [] = Some []"
| "utf8_points (a # rest) =
     (if a < 128 then map_option ((#) a) (utf8_points rest)
      else if 194 \<le> a \<and> a \<le> 223 then
        (case rest of
           b # r \<Rightarrow> if tail_byte 128 191 b then map_option ((#) (a mod 32 * 64 + b mod 64)) (utf8_points r) else None
         | _ \<Rightarrow> None)
      else if 224 \<le> a \<and> a \<le> 239 then
        (case rest of
           b # c # r \<Rightarrow>
             if tail_byte (if a = 224 then 160 else 128) (if a = 237 then 159 else 191) b \<and> tail_byte 128 191 c
             then map_option ((#) (a mod 16 * 4096 + b mod 64 * 64 + c mod 64)) (utf8_points r) else None
         | _ \<Rightarrow> None)
      else if 240 \<le> a \<and> a \<le> 244 then
        (case rest of
           b # c # d # r \<Rightarrow>
             if tail_byte (if a = 240 then 144 else 128) (if a = 244 then 143 else 191) b \<and> tail_byte 128 191 c \<and> tail_byte 128 191 d
             then map_option ((#) (a mod 8 * 262144 + b mod 64 * 4096 + c mod 64 * 64 + d mod 64)) (utf8_points r) else None
         | _ \<Rightarrow> None)
      else None)"

definition decode_text :: "byte list \<Rightarrow> nat list option" where
  "decode_text bs =
     map_option (\<lambda>ps. case ps of p # r \<Rightarrow> if p = 65279 then r else ps | [] \<Rightarrow> ps) (utf8_points (map unat bs))"

subsection \<open>CBOR\<close>

datatype cbor =
    C_int int
  | C_text "nat list"
  | C_bool bool
  | C_null
  | C_bytes "byte list"
  | C_array "cbor list"
  | C_map "(cbor \<times> cbor) list"

definition big_endian :: "byte list \<Rightarrow> nat" where
  "big_endian bs = foldl (\<lambda>n b. n * 256 + unat b) 0 bs"

definition ends_early :: string where "ends_early = ''The passkey's data ends early.''"

text \<open>The first byte's argument: the number itself, or the 1, 2, 4 or 8 bytes that follow.\<close>

definition cbor_arg :: "nat \<Rightarrow> byte list \<Rightarrow> (nat \<times> byte list) checked" where
  "cbor_arg info rest =
     (if info < 24 then Inr (info, rest)
      else if info \<le> 27 then
        let k = 2 ^ (info - 24) in
        check (k \<le> length rest) ends_early
          (check (info < 27 \<or> big_endian (take 4 rest) < 2097152) ''The passkey's data holds a number too large to read.''
             (Inr (big_endian (take k rest), drop k rest)))
      else Inl ''The passkey's data uses an encoding this server does not accept.'')"

definition is_key :: "cbor \<Rightarrow> bool" where
  "is_key v = (case v of C_int _ \<Rightarrow> True | C_text _ \<Rightarrow> True | _ \<Rightarrow> False)"

text \<open>
  \<open>decodeItem\<close> on the bytes that are left, with what it leaves; the loops over the items of an array
  and over the entries of a map are functions of their own. Positions are the bytes left.
\<close>

function (sequential) decodeItem :: "byte list \<Rightarrow> nat \<Rightarrow> (cbor \<times> byte list) checked"
  and decode_items :: "nat \<Rightarrow> byte list \<Rightarrow> nat \<Rightarrow> (cbor list \<times> byte list) checked"
  and decode_pairs :: "nat \<Rightarrow> byte list \<Rightarrow> nat \<Rightarrow> (cbor \<times> cbor) list \<Rightarrow> ((cbor \<times> cbor) list \<times> byte list) checked" where
  "decodeItem bytes depth =
     (if depth > 16 then Inl ''The passkey's data nests too deeply.''
      else case bytes of
        [] \<Rightarrow> Inl ends_early
      | b # rest \<Rightarrow>
          (case cbor_arg (unat b mod 32) rest of
             Inl e \<Rightarrow> Inl e
           | Inr (arg, left) \<Rightarrow>
               let major = unat b div 32 in
               if major = 0 then Inr (C_int (int arg), left)
               else if major = 1 then Inr (C_int (- 1 - int arg), left)
               else if major = 2 then (if arg > length left then Inl ends_early else Inr (C_bytes (take arg left), drop arg left))
               else if major = 3 then
                 (if arg > length left then Inl ends_early
                  else case decode_text (take arg left) of
                    None \<Rightarrow> Inl ''The passkey's data holds text that is not UTF-8.''
                  | Some t \<Rightarrow> Inr (C_text t, drop arg left))
               else if major = 4 then
                 (if arg > length left then Inl ends_early
                  else case decode_items arg left (depth + 1) of Inl e \<Rightarrow> Inl e | Inr (xs, r) \<Rightarrow> Inr (C_array xs, r))
               else if major = 5 then
                 (if arg * 2 > length left then Inl ends_early
                  else case decode_pairs arg left (depth + 1) [] of Inl e \<Rightarrow> Inl e | Inr (m, r) \<Rightarrow> Inr (C_map m, r))
               else if major = 7 then
                 (if unat b mod 32 = 20 then Inr (C_bool False, left)
                  else if unat b mod 32 = 21 then Inr (C_bool True, left)
                  else if unat b mod 32 = 22 then Inr (C_null, left)
                  else Inl ''The passkey's data holds a value this server does not accept.'')
               else Inl ''The passkey's data uses a tag this server does not accept.''))"
| "decode_items n bytes depth =
     (case n of 0 \<Rightarrow> Inr ([], bytes)
      | Suc k \<Rightarrow>
          (case decodeItem bytes depth of
             Inl e \<Rightarrow> Inl e
           | Inr (x, r) \<Rightarrow> (case decode_items k r depth of Inl e \<Rightarrow> Inl e | Inr (xs, r') \<Rightarrow> Inr (x # xs, r'))))"
| "decode_pairs n bytes depth m =
     (case n of 0 \<Rightarrow> Inr (m, bytes)
      | Suc k \<Rightarrow>
          (case decodeItem bytes depth of
             Inl e \<Rightarrow> Inl e
           | Inr (x, r) \<Rightarrow>
               if \<not> is_key x then Inl ''The passkey's data has a map key this server does not accept.''
               else if x \<in> fst ` set m then Inl ''The passkey's data repeats a map key.''
               else (case decodeItem r depth of
                       Inl e \<Rightarrow> Inl e
                     | Inr (v, r') \<Rightarrow> decode_pairs k r' depth (m @ [(x, v)]))))"
  by pat_completeness auto
termination
  by (relation "measures [\<lambda>p. case p of Inl (_, d) \<Rightarrow> 17 - d | Inr (Inl (_, _, d)) \<Rightarrow> 17 - d | Inr (Inr (_, _, d, _)) \<Rightarrow> 17 - d,
      \<lambda>p. case p of Inl _ \<Rightarrow> 0 | Inr (Inl (n, _)) \<Rightarrow> n | Inr (Inr (n, _)) \<Rightarrow> n]") auto

declare decodeItem.simps [simp del] decode_items.simps [simp del] decode_pairs.simps [simp del]

definition decodeCbor :: "byte list \<Rightarrow> (cbor \<times> nat) checked" where
  "decodeCbor bytes = (case decodeItem bytes 0 of Inl e \<Rightarrow> Inl e | Inr (v, rest) \<Rightarrow> Inr (v, length bytes - length rest))"

subsection \<open>Authenticator data\<close>

record authenticator_data =
  ad_rpIdHash :: "byte list"
  ad_flags :: byte
  ad_signCount :: nat
  ad_credential :: "(byte list \<times> (cbor \<times> cbor) list) option"

text \<open>The credential at byte 37: 16 bytes of AAGUID, the length of the id, the id, the public key.\<close>

definition parse_credential :: "byte list \<Rightarrow> ((byte list \<times> (cbor \<times> cbor) list) \<times> nat) checked" where
  "parse_credential bytes =
     check (length bytes \<ge> 55) ''The passkey's credential data is too short.''
       (let idLength = big_endian (take 2 (drop 53 bytes)) in
        check (16 \<le> idLength \<and> idLength \<le> 1023 \<and> 55 + idLength \<le> length bytes) ''The passkey's credential id is malformed.''
          (and_then (decodeCbor (drop (55 + idLength) bytes)) (\<lambda>(v, n).
             case v of
               C_map m \<Rightarrow> Inr ((take idLength (drop 55 bytes), m), 55 + idLength + n)
             | _ \<Rightarrow> Inl ''The passkey's public key is malformed.'')))"

definition parse_extensions :: "byte list \<Rightarrow> nat \<Rightarrow> nat checked" where
  "parse_extensions bytes pos =
     and_then (decodeCbor (drop pos bytes)) (\<lambda>(v, n).
       case v of C_map _ \<Rightarrow> Inr (pos + n) | _ \<Rightarrow> Inl ''The passkey's extensions are malformed.'')"

definition parseAuthenticatorData :: "byte list \<Rightarrow> authenticator_data checked" where
  "parseAuthenticatorData bytes =
     check (length bytes \<ge> 37) ''The passkey's authenticator data is too short.''
       (let flags = bytes ! 32;
            parsed = \<lparr>ad_rpIdHash = take 32 bytes, ad_flags = flags, ad_signCount = big_endian (take 4 (drop 33 bytes)), ad_credential = None\<rparr>
        in and_then (if bit flags 6 then and_then (parse_credential bytes) (\<lambda>(c, pos). Inr (parsed\<lparr>ad_credential := Some c\<rparr>, pos)) else Inr (parsed, 37))
             (\<lambda>(p, pos). and_then (if bit flags 7 then parse_extensions bytes pos else Inr pos)
               (\<lambda>end. check (end = length bytes) ''The passkey's authenticator data has bytes left over.'' (Inr p))))"

subsection \<open>Keys\<close>

definition COSE_ES256 :: int where "COSE_ES256 = - 7"

definition COSE_RS256 :: int where "COSE_RS256 = - 257"

datatype jwk = EC_key string string | RSA_key string string

record passkey_key =
  pk_alg :: int
  pk_jwk :: jwk

definition bytesOf :: "(cbor \<times> cbor) list \<Rightarrow> int \<Rightarrow> byte list checked" where
  "bytesOf m label = (case map_of m (C_int label) of Some (C_bytes bs) \<Rightarrow> Inr bs | _ \<Rightarrow> Inl ''The passkey's public key is incomplete.'')"

definition coseToJwk :: "(cbor \<times> cbor) list \<Rightarrow> passkey_key checked" where
  "coseToJwk key =
     (let kty = map_of key (C_int 1); alg = map_of key (C_int 3) in
      if alg = Some (C_int COSE_ES256) then
        and_then (bytesOf key (- 2)) (\<lambda>x. and_then (bytesOf key (- 3)) (\<lambda>y.
          check (kty = Some (C_int 2) \<and> map_of key (C_int (- 1)) = Some (C_int 1) \<and> length x = 32 \<and> length y = 32)
            ''The passkey's ES256 key is not a P-256 key.''
            (Inr \<lparr>pk_alg = COSE_ES256, pk_jwk = EC_key (toBase64url x) (toBase64url y)\<rparr>)))
      else if alg = Some (C_int COSE_RS256) then
        and_then (bytesOf key (- 1)) (\<lambda>n. and_then (bytesOf key (- 2)) (\<lambda>e.
          check (kty = Some (C_int 3) \<and> 256 \<le> length n \<and> length n \<le> 512 \<and> e \<noteq> [] \<and> length e \<le> 4)
            ''The passkey's RS256 key is not a 2048-bit or larger RSA key.''
            (Inr \<lparr>pk_alg = COSE_RS256, pk_jwk = RSA_key (toBase64url n) (toBase64url e)\<rparr>)))
      else Inl ''This passkey uses an algorithm this server does not accept (ES256 or RS256 only).'')"

text \<open>\<open>import_ok\<close>: whether \<open>crypto.subtle.importKey\<close> takes the key.\<close>

definition importPasskeyKey :: "(passkey_key \<Rightarrow> bool) \<Rightarrow> passkey_key \<Rightarrow> passkey_key checked" where
  "importPasskeyKey import_ok key =
     check (pk_alg key = COSE_ES256 \<or> pk_alg key = COSE_RS256) ''This passkey uses an algorithm this server does not accept.''
       (check (import_ok key) ''The passkey's public key could not be read.'' (Inr key))"

definition bad_signature :: string where "bad_signature = ''The passkey's signature is malformed.''"

text \<open>\<open>while (int.length > 1 && int[0] === 0) int = int.subarray(1)\<close>\<close>

fun strip_zeros :: "byte list \<Rightarrow> byte list" where
  "strip_zeros (a # b # r) = (if a = 0 then strip_zeros (b # r) else a # b # r)"
| "strip_zeros x = x"

text \<open>One of the two integers of a DER signature, padded in front to \<open>width\<close> bytes, and what follows it.\<close>

definition der_integer :: "nat \<Rightarrow> byte list \<Rightarrow> (byte list \<times> byte list) checked" where
  "der_integer width der =
     (case der of
        tag # n # rest \<Rightarrow>
          let k = unat n; digits = strip_zeros (take k rest)
          in if tag \<noteq> 2 \<or> k = 0 \<or> k > width + 1 \<or> k > length rest \<or> length digits > width then Inl bad_signature
             else Inr (replicate (width - length digits) 0 @ digits, drop k rest)
      | _ \<Rightarrow> Inl bad_signature)"

definition der_body :: "byte list \<Rightarrow> byte list checked" where
  "der_body der =
     (case der of
        tag # len # rest \<Rightarrow>
          if tag \<noteq> 48 then Inl bad_signature
          else if len = 129 then (case rest of l # r \<Rightarrow> if unat l = length r then Inr r else Inl bad_signature | [] \<Rightarrow> Inl bad_signature)
          else if bit len 7 then Inl bad_signature
          else if unat len = length rest then Inr rest else Inl bad_signature
      | _ \<Rightarrow> Inl bad_signature)"

definition derToRawEcdsa :: "byte list \<Rightarrow> nat \<Rightarrow> byte list checked" where
  "derToRawEcdsa der width =
     and_then (der_body der) (\<lambda>body.
       and_then (der_integer width body) (\<lambda>(r, left).
         and_then (der_integer width left) (\<lambda>(s, left').
           check (left' = []) bad_signature (Inr (r @ s)))))"

subsection \<open>Ceremonies\<close>

record relying_party =
  rp_rpId :: string
  rp_origin :: string

text \<open>\<open>host.replace(/:\d+$/, "")\<close>\<close>

definition drop_port :: "string \<Rightarrow> string" where
  "drop_port host =
     (let digits = takeWhile is_digit (rev host); rest = dropWhile is_digit (rev host) in
      if digits \<noteq> [] \<and> rest \<noteq> [] \<and> hd rest = CHR '':'' then rev (tl rest) else host)"

definition passkeyRelyingParty :: "string option \<Rightarrow> string \<Rightarrow> string \<Rightarrow> relying_party" where
  "passkeyRelyingParty DEFAULT_DOMAIN scheme host0 =
     (let host = toLowerCase host0; name = drop_port host;
          base = toLowerCase (strip_leading_dot (case DEFAULT_DOMAIN of Some d \<Rightarrow> d | None \<Rightarrow> []))
      in \<lparr>rp_rpId = (if base \<noteq> [] \<and> (name = base \<or> endsWith name (CHR ''.'' # base)) then base else name),
          rp_origin = scheme @ ''//'' @ host\<rparr>)"

text \<open>\<open>parse_json\<close> is \<open>JSON.parse\<close> of decoded text.\<close>

definition checkClientData :: "(nat list \<Rightarrow> json option) \<Rightarrow> byte list \<Rightarrow> string \<Rightarrow> string \<Rightarrow> string \<Rightarrow> unit checked" where
  "checkClientData parse_json clientDataJSON kind challenge origin =
     (case decode_text clientDataJSON of
        None \<Rightarrow> Inl ''The passkey's client data is not JSON.''
      | Some t \<Rightarrow> (case parse_json t of
          None \<Rightarrow> Inl ''The passkey's client data is not JSON.''
        | Some data \<Rightarrow>
            check (case data of JObj _ \<Rightarrow> True | JArr _ \<Rightarrow> True | _ \<Rightarrow> False) ''The passkey's client data is not JSON.''
              (check (field data ''type'' = JStr kind) ''The passkey answered a different kind of request.''
                (check (field data ''challenge'' = JStr challenge) ''The passkey answered an older request. Try again.''
                  (check (field data ''origin'' = JStr origin) ''The passkey was used on a different site.''
                    (check (field data ''crossOrigin'' \<noteq> JBool True) ''The passkey was used from inside another site.'' (Inr ())))))))"

text \<open>\<open>TextEncoder\<close>: UTF-8.\<close>

definition text_bytes :: "string \<Rightarrow> byte list" where
  "text_bytes s = concat (map (\<lambda>c. if code c < 128 then [of_nat (code c)] else [of_nat (192 + code c div 64), of_nat (128 + code c mod 64)]) s)"

text \<open>\<open>sha\<close> is SHA-256 on bytes.\<close>

definition checkAuthenticatorData :: "(byte list \<Rightarrow> byte list) \<Rightarrow> authenticator_data \<Rightarrow> string \<Rightarrow> unit checked" where
  "checkAuthenticatorData sha d rpId =
     check (ad_rpIdHash d = sha (text_bytes rpId)) ''The passkey belongs to a different site.''
       (check (bit (ad_flags d) 0) ''The passkey did not confirm someone was present.'' (Inr ()))"

record passkey_crypto =
  pc_parse :: "nat list \<Rightarrow> json option"
  pc_sha :: "byte list \<Rightarrow> byte list"
  pc_import :: "passkey_key \<Rightarrow> bool"
  pc_verify :: "passkey_key \<Rightarrow> byte list \<Rightarrow> byte list \<Rightarrow> bool"

record registered_passkey =
  rg_key_of :: passkey_key
  rg_credentialId :: string
  rg_signCount :: nat

definition auth_data_text :: "nat list" where
  "auth_data_text = map code ''authData''"

definition verifyPasskeyRegistration ::
  "passkey_crypto \<Rightarrow> json \<Rightarrow> relying_party \<Rightarrow> string \<Rightarrow> registered_passkey checked" where
  "verifyPasskeyRegistration w response rp challenge =
     and_then (fromBase64url (field response ''clientDataJSON'') ''client data'') (\<lambda>client.
     and_then (checkClientData (pc_parse w) client ''webauthn.create'' challenge (rp_origin rp)) (\<lambda>_.
     and_then (fromBase64url (field response ''attestationObject'') ''attestation'') (\<lambda>object.
     and_then (decodeCbor object) (\<lambda>(v, _).
     (case (case v of C_map m \<Rightarrow> map_of m (C_text auth_data_text) | _ \<Rightarrow> None) of
        Some (C_bytes authData) \<Rightarrow>
          and_then (parseAuthenticatorData authData) (\<lambda>d.
          and_then (checkAuthenticatorData (pc_sha w) d (rp_rpId rp)) (\<lambda>_.
          (case ad_credential d of
             None \<Rightarrow> Inl ''The passkey did not include its public key.''
           | Some (i, m) \<Rightarrow>
               and_then (coseToJwk m) (\<lambda>key.
               and_then (importPasskeyKey (pc_import w) key) (\<lambda>_.
                 Inr \<lparr>rg_key_of = key, rg_credentialId = toBase64url i, rg_signCount = ad_signCount d\<rparr>)))))
      | _ \<Rightarrow> Inl ''The passkey's attestation is malformed.'')))))"

definition raw_signature :: "passkey_key \<Rightarrow> byte list \<Rightarrow> byte list checked" where
  "raw_signature key signature = (if pk_alg key = COSE_ES256 then derToRawEcdsa signature 32 else Inr signature)"

definition verifyPasskeyAssertion ::
  "passkey_crypto \<Rightarrow> json \<Rightarrow> relying_party \<Rightarrow> string \<Rightarrow> passkey_key \<Rightarrow> nat \<Rightarrow> nat checked" where
  "verifyPasskeyAssertion w response rp challenge stored storedCount =
     and_then (fromBase64url (field response ''clientDataJSON'') ''client data'') (\<lambda>client.
     and_then (checkClientData (pc_parse w) client ''webauthn.get'' challenge (rp_origin rp)) (\<lambda>_.
     and_then (fromBase64url (field response ''authenticatorData'') ''authenticator data'') (\<lambda>authData.
     and_then (parseAuthenticatorData authData) (\<lambda>d.
     and_then (checkAuthenticatorData (pc_sha w) d (rp_rpId rp)) (\<lambda>_.
     and_then (fromBase64url (field response ''signature'') ''signature'') (\<lambda>signature.
     and_then (importPasskeyKey (pc_import w) stored) (\<lambda>key.
     and_then (raw_signature key signature) (\<lambda>raw.
     check (pc_verify w key raw (authData @ pc_sha w client)) ''The passkey's signature does not match.''
       (check (\<not> ((storedCount > 0 \<or> ad_signCount d > 0) \<and> ad_signCount d \<le> storedCount))
          ''This passkey's counter went backwards, so it may have been copied. Use another way to sign in.''
          (Inr (ad_signCount d)))))))))))"

subsection \<open>base64url is read back\<close>

lemma b64_value_char: "v < 64 \<Longrightarrow> b64_value (b64_char v) = Some v"
  by (auto simp: b64_value_def b64_char_def is_upper_def is_lower_def is_digit_def)

lemma byte_small: "unat (b :: byte) div 4 < 64" "unat b div 16 < 16" "unat b div 64 < 4"
  using unat_byte_less [of b] by (simp_all add: less_mult_imp_div_less)

lemma byte_nibbles: "unat (b :: byte) div 16 div 16 = 0" "unat b div 16 mod 16 = unat b div 16" "unat b div 64 div 4 = 0" "unat b div 64 mod 4 = unat b div 64"
  using byte_small [of b] by simp_all

lemma sextet_small: "unat (a :: byte) mod 4 * 16 + unat (b :: byte) div 16 < 64" "unat b mod 16 * 4 + unat (c :: byte) div 64 < 64"
  "unat a mod 4 * 16 < 64" "unat b mod 16 * 4 < 64"
proof -
  have "unat a mod 4 \<le> 3" "unat b mod 16 \<le> 15" 
    using mod_less_divisor [of 4 "unat a"] mod_less_divisor [of 16 "unat b"] by linarith+
  then show "unat a mod 4 * 16 + unat b div 16 < 64" "unat b mod 16 * 4 + unat c div 64 < 64" "unat a mod 4 * 16 < 64" "unat b mod 16 * 4 < 64"
    using byte_small [of b] byte_small [of c] by linarith+
qed

lemma sextets_back: "sextets_to_bytes (map (\<lambda>c. the (b64_value c)) (toBase64url bs)) = Some bs"
  by (induction bs rule: toBase64url.induct)
    (simp_all add: b64_value_char byte_small sextet_small byte_nibbles del: of_nat_add of_nat_mult)

lemma toBase64url_chars: "list_all (\<lambda>c. b64_value c \<noteq> None) (toBase64url bs)"
  by (induction bs rule: toBase64url.induct) (simp_all add: b64_value_char byte_small sextet_small)

lemma toBase64url_length: "3 * length (toBase64url bs) \<le> 4 * length bs + 6" "toBase64url bs = [] \<longleftrightarrow> bs = []"
  by (induction bs rule: toBase64url.induct) auto

lemma fromBase64url_back: "bs \<noteq> [] \<Longrightarrow> length bs \<le> 12286 \<Longrightarrow> fromBase64url (JStr (toBase64url bs)) what = Inr bs"
  using toBase64url_length [of bs] toBase64url_chars [of bs] sextets_back [of bs]
  by (auto simp: fromBase64url_def MAX_ENCODED_LENGTH_def)

subsection \<open>CBOR is read back\<close>

text \<open>RFC 8949's preferred encoding, for reference.\<close>

fun be_bytes :: "nat \<Rightarrow> nat \<Rightarrow> byte list" where
  "be_bytes 0 n = []"
| "be_bytes (Suc k) n = be_bytes k (n div 256) @ [of_nat (n mod 256)]"

definition cbor_head :: "nat \<Rightarrow> nat \<Rightarrow> byte list" where
  "cbor_head major n =
     (if n < 24 then [of_nat (major * 32 + n)]
      else if n < 256 then of_nat (major * 32 + 24) # be_bytes 1 n
      else if n < 65536 then of_nat (major * 32 + 25) # be_bytes 2 n
      else if n < 4294967296 then of_nat (major * 32 + 26) # be_bytes 4 n
      else of_nat (major * 32 + 27) # be_bytes 8 n)"

primrec encodeCbor :: "cbor \<Rightarrow> byte list" where
  "encodeCbor (C_int i) = (if i \<ge> 0 then cbor_head 0 (nat i) else cbor_head 1 (nat (- 1 - i)))"
| "encodeCbor (C_text t) = cbor_head 3 (length t) @ map of_nat t"
| "encodeCbor (C_bool b) = [if b then 245 else 244]"
| "encodeCbor C_null = [246]"
| "encodeCbor (C_bytes bs) = cbor_head 2 (length bs) @ bs"
| "encodeCbor (C_array xs) = cbor_head 4 (length xs) @ concat (map encodeCbor xs)"
| "encodeCbor (C_map m) = cbor_head 5 (length m) @ concat (map (\<lambda>(k, v). k @ v) (map (map_prod encodeCbor encodeCbor) m))"

text \<open>What the reader takes: numbers below \<open>2^53\<close>, text in ASCII, integers or text as distinct keys, at most 16 levels.\<close>

primrec cbor_ok :: "cbor \<Rightarrow> nat \<Rightarrow> bool" where
  "cbor_ok (C_int i) d = (d \<le> 16 \<and> - 9007199254740992 \<le> i \<and> i < 9007199254740992)"
| "cbor_ok (C_text t) d = (d \<le> 16 \<and> list_all (\<lambda>p. p < 128) t \<and> length t < 9007199254740992)"
| "cbor_ok (C_bool b) d = (d \<le> 16)"
| "cbor_ok C_null d = (d \<le> 16)"
| "cbor_ok (C_bytes bs) d = (d \<le> 16 \<and> length bs < 9007199254740992)"
| "cbor_ok (C_array xs) d = (d \<le> 16 \<and> length xs < 9007199254740992 \<and> list_all (\<lambda>x. x (d + 1)) (map cbor_ok xs))"
| "cbor_ok (C_map m) d = (d \<le> 16 \<and> length m < 9007199254740992 \<and> distinct (map fst m) \<and> list_all (\<lambda>(k, _). is_key k) m
     \<and> list_all (\<lambda>(k, v). k (d + 1) \<and> v (d + 1)) (map (map_prod cbor_ok cbor_ok) m))"

lemma big_endian_snoc: "big_endian (bs @ [b]) = big_endian bs * 256 + unat b"
  by (simp add: big_endian_def)

lemma big_endian_bytes: "n < 256 ^ k \<Longrightarrow> big_endian (be_bytes k n) = n"
proof (induction k arbitrary: n)
  case (Suc k)
  then have "n div 256 < 256 ^ k" by (simp add: less_mult_imp_div_less mult.commute)
  moreover have "unat (of_nat (n mod 256) :: byte) = n mod 256" by (simp add: unat_of_nat)
  ultimately show ?case using Suc.IH by (simp add: big_endian_snoc)
qed (simp add: big_endian_def)

lemma length_be_bytes [simp]: "length (be_bytes k n) = k"
  by (induction k arbitrary: n) simp_all

lemma take_be_bytes: "take j (be_bytes (j + k) n) = be_bytes j (n div 256 ^ k)"
proof (induction k arbitrary: n)
  case (Suc k)
  then show ?case by (simp add: div_mult2_eq mult.commute)
qed simp

lemma head_byte: "major < 8 \<Longrightarrow> info < 32 \<Longrightarrow> unat (of_nat (major * 32 + info) :: byte) = major * 32 + info"
  by (simp add: unat_of_nat del: of_nat_add of_nat_mult)

lemma cbor_arg_head:
  assumes "major < 8" "n < 9007199254740992"
  obtains b tail where "cbor_head major n = b # tail" "unat b div 32 = major"
    "\<And>rest. cbor_arg (unat b mod 32) (tail @ rest) = Inr (n, rest)"
proof -
  have wide: "cbor_arg (24 + i) (be_bytes (2 ^ i) n @ rest) = Inr (n, rest)" if "i \<le> 3" "n < 256 ^ (2 ^ i)" for i rest
  proof -
    have "n div 4294967296 < 2097152" using assms(2) by (simp add: less_mult_imp_div_less)
    moreover have "take 4 (be_bytes 8 n) = be_bytes 4 (n div 4294967296)" using take_be_bytes [of 4 4 n] by simp
    ultimately have "big_endian (take 4 (be_bytes 8 n)) < 2097152"
      using big_endian_bytes [of "n div 4294967296" 4] by simp
    then have "i < 3 \<or> big_endian (take 4 (be_bytes (2 ^ i) n @ rest)) < 2097152" using that(1) by (cases "i = 3") simp_all
    then show ?thesis using that(1) big_endian_bytes [OF that(2)] by (simp add: cbor_arg_def)
  qed
  show thesis
  proof (cases "n < 24")
    case True
    then show thesis using that [of "of_nat (major * 32 + n)" "[]"] assms(1) head_byte [of major n]
      by (simp add: cbor_head_def cbor_arg_def del: of_nat_add of_nat_mult)
  next
    case False
    define i :: nat where "i = (if n < 256 then 0 else if n < 65536 then 1 else if n < 4294967296 then 2 else 3)"
    have i: "i \<le> 3" "n < 256 ^ (2 ^ i)" using assms(2) by (auto simp: i_def)
    have "cbor_head major n = of_nat (major * 32 + (24 + i)) # be_bytes (2 ^ i) n"
      using False by (simp add: cbor_head_def i_def add.assoc del: of_nat_add of_nat_mult be_bytes.simps)
    then show thesis using that wide [OF i] assms(1) head_byte [of major "24 + i"] i(1)
      by (simp del: of_nat_add of_nat_mult)
  qed
qed

text \<open>The reader on a head: what it does next is settled by the kind and the number.\<close>

lemma decode_head:
  assumes "depth \<le> 16" "n < 9007199254740992"
  shows "decodeItem (cbor_head 0 n @ rest) depth = Inr (C_int (int n), rest)"
    "decodeItem (cbor_head 1 n @ rest) depth = Inr (C_int (- 1 - int n), rest)"
    "n \<le> length rest \<Longrightarrow> decodeItem (cbor_head 2 n @ rest) depth = Inr (C_bytes (take n rest), drop n rest)"
    "n \<le> length rest \<Longrightarrow> decode_text (take n rest) = Some t \<Longrightarrow> decodeItem (cbor_head 3 n @ rest) depth = Inr (C_text t, drop n rest)"
    "n \<le> length rest \<Longrightarrow> decode_items n rest (depth + 1) = Inr (xs, r) \<Longrightarrow> decodeItem (cbor_head 4 n @ rest) depth = Inr (C_array xs, r)"
    "n * 2 \<le> length rest \<Longrightarrow> decode_pairs n rest (depth + 1) [] = Inr (m, r) \<Longrightarrow> decodeItem (cbor_head 5 n @ rest) depth = Inr (C_map m, r)"
proof -
  note d = decodeItem.simps [of "_ # _"]
  show "decodeItem (cbor_head 0 n @ rest) depth = Inr (C_int (int n), rest)"
    by (rule cbor_arg_head [of 0 n]) (use assms in \<open>simp_all add: d\<close>)
  show "decodeItem (cbor_head 1 n @ rest) depth = Inr (C_int (- 1 - int n), rest)"
    by (rule cbor_arg_head [of 1 n]) (use assms in \<open>simp_all add: d\<close>)
  show "decodeItem (cbor_head 2 n @ rest) depth = Inr (C_bytes (take n rest), drop n rest)" if "n \<le> length rest"
    by (rule cbor_arg_head [of 2 n]) (use assms that in \<open>simp_all add: d\<close>)
  show "decodeItem (cbor_head 3 n @ rest) depth = Inr (C_text t, drop n rest)" if "n \<le> length rest" "decode_text (take n rest) = Some t"
    by (rule cbor_arg_head [of 3 n]) (use assms that in \<open>simp_all add: d\<close>)
  show "decodeItem (cbor_head 4 n @ rest) depth = Inr (C_array xs, r)" if "n \<le> length rest" "decode_items n rest (depth + 1) = Inr (xs, r)"
    by (rule cbor_arg_head [of 4 n]) (use assms that in \<open>simp_all add: d\<close>)
  show "decodeItem (cbor_head 5 n @ rest) depth = Inr (C_map m, r)" if "n * 2 \<le> length rest" "decode_pairs n rest (depth + 1) [] = Inr (m, r)"
    by (rule cbor_arg_head [of 5 n]) (use assms that in \<open>simp_all add: d\<close>)
qed

lemma utf8_ascii: "list_all (\<lambda>p. p < 128) t \<Longrightarrow> utf8_points t = Some t"
  by (induction t) simp_all

lemma ascii_bytes: "list_all (\<lambda>p. p < 128) t \<Longrightarrow> map unat (map of_nat t :: byte list) = t"
  by (induction t) (simp_all add: unat_of_nat)

lemma decode_ascii: "list_all (\<lambda>p. p < 128) t \<Longrightarrow> decode_text (map of_nat t) = Some t"
  by (cases t) (simp_all only: decode_text_def ascii_bytes utf8_ascii, auto)

lemma encodeCbor_nonempty: "encodeCbor v \<noteq> []"
  by (cases v) (simp_all add: cbor_head_def)

lemma decode_items_back:
  "(\<And>x r. x \<in> set xs \<Longrightarrow> decodeItem (encodeCbor x @ r) d = Inr (x, r)) \<Longrightarrow>
   decode_items (length xs) (concat (map encodeCbor xs) @ rest) d = Inr (xs, rest)"
  by (induction xs) (simp_all add: decode_items.simps)

lemma decode_pairs_back:
  "(\<And>k v r. (k, v) \<in> set m \<Longrightarrow> is_key k \<and> decodeItem (encodeCbor k @ r) d = Inr (k, r) \<and> decodeItem (encodeCbor v @ r) d = Inr (v, r)) \<Longrightarrow>
   distinct (map fst (m0 @ m)) \<Longrightarrow>
   decode_pairs (length m) (concat (map (\<lambda>(k, v). encodeCbor k @ encodeCbor v) m) @ rest) d m0 = Inr (m0 @ m, rest)"
proof (induction m arbitrary: m0)
  case (Cons e m)
  obtain k v where e: "e = (k, v)" by (cases e)
  have "k \<notin> fst ` set m0" using Cons.prems(2) by (auto simp: e)
  moreover have "decode_pairs (length m) (concat (map (\<lambda>(k, v). encodeCbor k @ encodeCbor v) m) @ rest) d (m0 @ [(k, v)]) = Inr (m0 @ e # m, rest)"
    using Cons.IH [of "m0 @ [(k, v)]"] Cons.prems unfolding e by fastforce
  ultimately show ?case using Cons.prems(1) [of k v] by (simp add: e decode_pairs.simps)
qed (simp add: decode_pairs.simps)

lemma concat_longer: "\<forall>x\<in>set xs. f x \<noteq> [] \<Longrightarrow> length xs \<le> length (concat (map f xs))"
  by (induction xs) (auto simp: Suc_le_eq neq_Nil_conv)

lemma concat_pairs_longer: "length m * 2 \<le> length (concat (map (\<lambda>(k, v). encodeCbor k @ encodeCbor v) m))"
proof (induction m)
  case (Cons e m)
  obtain k v where e: "e = (k, v)" by (cases e)
  have "1 \<le> length (encodeCbor k)" "1 \<le> length (encodeCbor v)" by (simp_all add: Suc_le_eq encodeCbor_nonempty)
  then have "2 \<le> length (encodeCbor k @ encodeCbor v)" unfolding length_append by linarith
  then show ?case using Cons by (simp add: e del: length_concat)
qed simp

lemma decodeItem_back: "cbor_ok v d \<Longrightarrow> decodeItem (encodeCbor v @ rest) d = Inr (v, rest)"
proof (induction v arbitrary: d rest)
  case (C_int i)
  then show ?case using decode_head(1) [of d "nat i" rest] decode_head(2) [of d "nat (- 1 - i)" rest] by auto
next
  case (C_text t)
  then show ?case using decode_head(4) [of d "length t" "map of_nat t @ rest" t] by (simp add: decode_ascii)
next
  case (C_bool b)
  then show ?case by (simp add: decodeItem.simps cbor_arg_def)
next
  case C_null
  then show ?case by (simp add: decodeItem.simps cbor_arg_def)
next
  case (C_bytes bs)
  then show ?case using decode_head(3) [of d "length bs" "bs @ rest"] by simp
next
  case (C_array xs)
  have "decode_items (length xs) (concat (map encodeCbor xs) @ rest) (d + 1) = Inr (xs, rest)"
    using C_array by (intro decode_items_back) (auto simp: list_all_iff)
  then show ?case using C_array.prems concat_longer [of xs encodeCbor]
    by (auto simp: encodeCbor_nonempty intro!: decode_head(5))
next
  case (C_map m)
  have keys: "is_key k \<and> decodeItem (encodeCbor k @ r) (d + 1) = Inr (k, r) \<and> decodeItem (encodeCbor v @ r) (d + 1) = Inr (v, r)"
    if "(k, v) \<in> set m" for k v r
    using C_map.IH(1) [of "(k, v)" k "d + 1" r] C_map.IH(2) [of "(k, v)" v "d + 1" r] C_map.prems that by (auto simp: list_all_iff)
  have "decode_pairs (length m) (concat (map (\<lambda>(k, v). encodeCbor k @ encodeCbor v) m) @ rest) (d + 1) [] = Inr ([] @ m, rest)"
    using keys C_map.prems by (intro decode_pairs_back) auto
  moreover have "encodeCbor (C_map m) = cbor_head 5 (length m) @ concat (map (\<lambda>(k, v). encodeCbor k @ encodeCbor v) m)"
    by (simp add: o_def case_prod_unfold)
  ultimately show ?case using C_map.prems concat_pairs_longer [of m]
    by (auto simp del: encodeCbor.simps intro!: decode_head(6))
qed

lemma parse_flags: "parseAuthenticatorData bytes = Inr d \<Longrightarrow>
    37 \<le> length bytes \<and> ad_rpIdHash d = take 32 bytes \<and> ad_flags d = bytes ! 32 \<and> ad_signCount d = big_endian (take 4 (drop 33 bytes))"
  by (auto simp: parseAuthenticatorData_def Let_def split: if_splits)

lemma der_integer_length: "der_integer width der = Inr (r, left) \<Longrightarrow> length r = width"
  by (auto simp: der_integer_def Let_def split: list.splits if_splits)

lemma derToRawEcdsa_length: "derToRawEcdsa der width = Inr raw \<Longrightarrow> length raw = 2 * width"
proof -
  assume "derToRawEcdsa der width = Inr raw"
  then obtain body r left s where "der_integer width body = Inr (r, left)" "der_integer width left = Inr (s, [])" "raw = r @ s"
    by (auto simp: derToRawEcdsa_def)
  then show ?thesis by (simp add: der_integer_length [of width body] der_integer_length [of width left])
qed

lemma checkClientData_Inr:
  "checkClientData parse client kind challenge origin = Inr u \<Longrightarrow>
   \<exists>t data. decode_text client = Some t \<and> parse t = Some data \<and> field data ''type'' = JStr kind \<and> field data ''challenge'' = JStr challenge
     \<and> field data ''origin'' = JStr origin \<and> field data ''crossOrigin'' \<noteq> JBool True"
  by (auto simp: checkClientData_def split: option.splits)

lemma assertion_Inr:
  assumes "verifyPasskeyAssertion w response rp challenge stored count = Inr n"
  obtains client authData signature raw d where
    "fromBase64url (field response ''clientDataJSON'') ''client data'' = Inr client"
    "fromBase64url (field response ''authenticatorData'') ''authenticator data'' = Inr authData"
    "fromBase64url (field response ''signature'') ''signature'' = Inr signature"
    "checkClientData (pc_parse w) client ''webauthn.get'' challenge (rp_origin rp) = Inr ()"
    "parseAuthenticatorData authData = Inr d" "checkAuthenticatorData (pc_sha w) d (rp_rpId rp) = Inr ()"
    "raw_signature stored signature = Inr raw" "pc_verify w stored raw (authData @ pc_sha w client)"
    "pk_alg stored = COSE_ES256 \<or> pk_alg stored = COSE_RS256" "n = ad_signCount d" "count < n \<or> count = 0 \<and> n = 0"
  using assms by (fastforce simp: verifyPasskeyAssertion_def importPasskeyKey_def)

text \<open>
  C16. A passkey's answer is accepted only when the client data is for this ceremony, this challenge, this
  origin and not framed by another site, the authenticator data is for this relying party with someone
  present, and the stored key verifies the signature (64 bytes of it for ES256) over the authenticator data
  and the digest of the client data. The counter returned is the one in the authenticator data and lies
  beyond the stored one, or both are zero; an answer whose counter is not zero is refused once its counter is stored.
\<close>

theorem passkey_assertion_sound:
  assumes "verifyPasskeyAssertion w response rp challenge stored count = Inr n"
  shows "(\<exists>client authData signature raw t data.
      fromBase64url (field response ''clientDataJSON'') ''client data'' = Inr client
    \<and> fromBase64url (field response ''authenticatorData'') ''authenticator data'' = Inr authData
    \<and> fromBase64url (field response ''signature'') ''signature'' = Inr signature
    \<and> decode_text client = Some t \<and> pc_parse w t = Some data
    \<and> field data ''type'' = JStr ''webauthn.get'' \<and> field data ''challenge'' = JStr challenge
    \<and> field data ''origin'' = JStr (rp_origin rp) \<and> field data ''crossOrigin'' \<noteq> JBool True
    \<and> take 32 authData = pc_sha w (text_bytes (rp_rpId rp)) \<and> bit (authData ! 32) 0
    \<and> pc_verify w stored raw (authData @ pc_sha w client)
    \<and> (if pk_alg stored = COSE_ES256 then derToRawEcdsa signature 32 = Inr raw \<and> length raw = 64 else raw = signature)
    \<and> n = big_endian (take 4 (drop 33 authData)) \<and> (count < n \<or> count = 0 \<and> n = 0))
    \<and> (0 < n \<longrightarrow> (\<exists>e. verifyPasskeyAssertion w response rp challenge' stored n = Inl e))" (is "?sound \<and> ?later")
proof
  from assms obtain client authData signature raw d where a:
    "fromBase64url (field response ''clientDataJSON'') ''client data'' = Inr client"
    "fromBase64url (field response ''authenticatorData'') ''authenticator data'' = Inr authData"
    "fromBase64url (field response ''signature'') ''signature'' = Inr signature"
    "checkClientData (pc_parse w) client ''webauthn.get'' challenge (rp_origin rp) = Inr ()"
    "parseAuthenticatorData authData = Inr d" "checkAuthenticatorData (pc_sha w) d (rp_rpId rp) = Inr ()"
    "raw_signature stored signature = Inr raw" "pc_verify w stored raw (authData @ pc_sha w client)"
    "n = ad_signCount d" "count < n \<or> count = 0 \<and> n = 0"
    by (rule assertion_Inr)
  have "if pk_alg stored = COSE_ES256 then derToRawEcdsa signature 32 = Inr raw \<and> length raw = 64 else raw = signature"
    using a(7) derToRawEcdsa_length [of signature 32 raw] by (simp add: raw_signature_def split: if_splits)
  with a parse_flags [OF a(5)] checkClientData_Inr [OF a(4)] show ?sound
    by (fastforce simp: checkAuthenticatorData_def)
  show ?later
  proof (cases "verifyPasskeyAssertion w response rp challenge' stored n")
    case (Inr n')
    then obtain d' authData' where "fromBase64url (field response ''authenticatorData'') ''authenticator data'' = Inr authData'"
      "parseAuthenticatorData authData' = Inr d'" "n' = ad_signCount d'" "n < n' \<or> n = 0 \<and> n' = 0"
      by (rule assertion_Inr)
    with a show ?thesis by simp
  qed simp
qed

subsection \<open>An honest answer is accepted\<close>

text \<open>X.690: an integer without leading zeros, one put in front where it would read as negative.\<close>

definition der_int_bytes :: "byte list \<Rightarrow> byte list" where
  "der_int_bytes x = (let d = strip_zeros x in if bit (hd d) 7 then 0 # d else d)"

definition der_encode :: "byte list \<Rightarrow> byte list \<Rightarrow> byte list" where
  "der_encode r s =
     (let body = 2 # of_nat (length (der_int_bytes r)) # der_int_bytes r @ 2 # of_nat (length (der_int_bytes s)) # der_int_bytes s
      in 48 # of_nat (length body) # body)"

lemma strip_length: "length (strip_zeros x) \<le> length x" "strip_zeros x = [] \<longleftrightarrow> x = []"
  by (induction x rule: strip_zeros.induct) auto

lemma strip_pad: "replicate (length x - length (strip_zeros x)) 0 @ strip_zeros x = x"
proof (induction x rule: strip_zeros.induct)
  case (1 a b r)
  then show ?case using strip_length(1) [of "b # r"] by (auto simp: Suc_diff_le)
qed simp_all

lemma strip_idem: "strip_zeros (strip_zeros x) = strip_zeros x"
  by (induction x rule: strip_zeros.induct) auto

lemma strip_der: "x \<noteq> [] \<Longrightarrow> strip_zeros (der_int_bytes x) = strip_zeros x"
  using strip_idem [of x] strip_length(2) [of x] by (cases "strip_zeros x") (simp_all add: der_int_bytes_def Let_def)

lemma der_int_length: "length x = 32 \<Longrightarrow> der_int_bytes x \<noteq> [] \<and> length (der_int_bytes x) \<le> 33"
  using strip_length [of x] by (auto simp: der_int_bytes_def Let_def)

lemma bit_nat_iff_small: "n < 128 \<Longrightarrow> \<not> bit (n :: nat) 7"
  by (simp add: bit_iff_odd)

lemma byte_length: "n < 256 \<Longrightarrow> unat (of_nat n :: byte) = n"
  by (simp add: unat_of_nat)

lemma der_integer_back:
  assumes "length x = 32"
  shows "der_integer 32 (2 # of_nat (length (der_int_bytes x)) # der_int_bytes x @ rest) = Inr (x, rest)"
proof -
  let ?d = "der_int_bytes x"
  have n: "unat (of_nat (length ?d) :: byte) = length ?d" using der_int_length [OF assms] by (intro byte_length) simp
  have "x \<noteq> []" using assms by auto
  then show ?thesis using strip_length(1) [of x] strip_pad [of x] der_int_length [OF assms] assms
    by (simp add: der_integer_def n strip_der Let_def)
qed

lemma der_roundtrip:
  assumes "length r = 32" "length s = 32"
  shows "derToRawEcdsa (der_encode r s) 32 = Inr (r @ s)"
proof -
  define body :: "byte list" where
    "body = 2 # of_nat (length (der_int_bytes r)) # der_int_bytes r @ 2 # of_nat (length (der_int_bytes s)) # der_int_bytes s"
  have len: "length body < 128" using der_int_length [OF assms(1)] der_int_length [OF assms(2)] by (simp add: body_def)
  then have u: "unat (of_nat (length body) :: byte) = length body" by (intro byte_length) simp
  have small: "\<not> bit (of_nat (length body) :: byte) 7" 
    using bit_nat_iff_small [OF len] by (simp only: bit_of_nat_iff) simp
  have "of_nat (length body) \<noteq> (129 :: byte)"
  proof
    assume "of_nat (length body) = (129 :: byte)"
    then have "unat (of_nat (length body) :: byte) = unat (129 :: byte)" by (rule arg_cong)
    then show False using u len by simp
  qed
  then have "der_body (der_encode r s) = Inr body" using u small by (simp add: der_encode_def der_body_def Let_def flip: body_def)
  moreover have "der_integer 32 body = Inr (r, 2 # of_nat (length (der_int_bytes s)) # der_int_bytes s @ [])"
    using der_integer_back [OF assms(1)] by (simp add: body_def)
  ultimately show ?thesis using der_integer_back [OF assms(2), of "[]"] by (simp add: derToRawEcdsa_def and_then_def check_def)
qed

definition plain_auth_data :: "byte list \<Rightarrow> byte \<Rightarrow> nat \<Rightarrow> byte list" where
  "plain_auth_data rp_hash flags n = rp_hash @ flags # be_bytes 4 n"

lemma parse_plain:
  assumes "length h = 32" "\<not> bit flags 6" "\<not> bit flags 7" "n < 4294967296"
  shows "parseAuthenticatorData (plain_auth_data h flags n) = Inr \<lparr>ad_rpIdHash = h, ad_flags = flags, ad_signCount = n, ad_credential = None\<rparr>"
  using assms big_endian_bytes [of n 4]
  by (simp add: parseAuthenticatorData_def plain_auth_data_def check_def and_then_def nth_append Let_def)

lemma honest_answer:
  assumes key: "pk_alg stored = COSE_ES256" "pc_import w stored"
    and client: "client \<noteq> []" "length client \<le> 12286" "decode_text client = Some t" "pc_parse w t = Some (JObj fs)"
      "field (JObj fs) ''type'' = JStr ''webauthn.get''" "field (JObj fs) ''challenge'' = JStr challenge"
      "field (JObj fs) ''origin'' = JStr (rp_origin rp)" "field (JObj fs) ''crossOrigin'' \<noteq> JBool True"
    and auth: "length (pc_sha w (text_bytes (rp_rpId rp))) = 32" "bit flags 0" "\<not> bit flags 6" "\<not> bit flags 7"
      "authData = plain_auth_data (pc_sha w (text_bytes (rp_rpId rp))) flags n"
    and counts: "n < 4294967296" "count < n \<or> count = 0 \<and> n = 0"
    and signature: "length r = 32" "length s = 32" "pc_verify w stored (r @ s) (authData @ pc_sha w client)"
  shows "verifyPasskeyAssertion w
      (JObj [(''clientDataJSON'', JStr (toBase64url client)), (''authenticatorData'', JStr (toBase64url authData)),
             (''signature'', JStr (toBase64url (der_encode r s)))]) rp challenge stored count = Inr n"
proof -
  have "authData \<noteq> []" "length authData \<le> 12286" using auth by (simp_all add: plain_auth_data_def)
  moreover have "der_encode r s \<noteq> []" "length (der_encode r s) \<le> 12286"
    using der_int_length [OF signature(1)] der_int_length [OF signature(2)] by (simp_all add: der_encode_def Let_def)
  ultimately show ?thesis
    using assms by (auto simp: verifyPasskeyAssertion_def fromBase64url_back checkClientData_def parse_plain
      checkAuthenticatorData_def importPasskeyKey_def raw_signature_def der_roundtrip)
qed

text \<open>
  C36. An ES256 authenticator that answers as the standard says is let in: base64url of the client data, of
  authenticator data without a credential or extensions, and of the signature in minimal DER.
\<close>

theorem honest_assertion_accepted:
  assumes key: "pk_alg stored = COSE_ES256" "pc_import w stored"
    and client: "client \<noteq> []" "length client \<le> 12286" "decode_text client = Some t" "pc_parse w t = Some (JObj fs)"
      "field (JObj fs) ''type'' = JStr ''webauthn.get''" "field (JObj fs) ''challenge'' = JStr challenge"
      "field (JObj fs) ''origin'' = JStr (rp_origin rp)" "field (JObj fs) ''crossOrigin'' \<noteq> JBool True"
    and auth: "length (pc_sha w (text_bytes (rp_rpId rp))) = 32" "bit flags 0" "\<not> bit flags 6" "\<not> bit flags 7"
      "authData = plain_auth_data (pc_sha w (text_bytes (rp_rpId rp))) flags n"
    and counts: "n < 4294967296" "count < n \<or> count = 0 \<and> n = 0"
    and signature: "length r = 32" "length s = 32" "pc_verify w stored (r @ s) (authData @ pc_sha w client)"
  shows "verifyPasskeyAssertion w
      (JObj [(''clientDataJSON'', JStr (toBase64url client)), (''authenticatorData'', JStr (toBase64url authData)),
             (''signature'', JStr (toBase64url (der_encode r s)))]) rp challenge stored count = Inr n"
  using assms by (rule honest_answer)

text \<open>
  C37. The CBOR reader reads back every value in the standard's preferred encoding, whatever follows it, and
  reports how many bytes it took: integers below \<open>2^53\<close> in size, byte strings, ASCII text, arrays and
  maps with distinct integer or text keys, nested at most 16 deep.
\<close>

theorem cbor_roundtrip:
  assumes "cbor_ok v 0"
  shows "decodeCbor (encodeCbor v @ rest) = Inr (v, length (encodeCbor v))"
  using decodeItem_back [OF assms, of rest] by (simp add: decodeCbor_def)

theorem cbor_roundtrip_witness:
  "decodeCbor (encodeCbor (C_map [(C_int 1, C_int 2), (C_int (- 2), C_bytes [1, 2, 3]), (C_text [97, 98], C_array [C_null, C_bool True, C_int 70000])]) @ [255])
   = Inr (C_map [(C_int 1, C_int 2), (C_int (- 2), C_bytes [1, 2, 3]), (C_text [97, 98], C_array [C_null, C_bool True, C_int 70000])], 19)"
  using cbor_roundtrip [of "C_map [(C_int 1, C_int 2), (C_int (- 2), C_bytes [1, 2, 3]), (C_text [97, 98], C_array [C_null, C_bool True, C_int 70000])]" "[255]"]
  by (simp add: is_key_def cbor_head_def)

definition sample_client :: "byte list" where
  "sample_client = map (\<lambda>c. of_nat (code c)) ''{}''"

definition sample_crypto :: passkey_crypto where
  "sample_crypto = \<lparr>
     pc_parse = (\<lambda>t. if t = [123, 125] then Some (JObj [(''type'', JStr ''webauthn.get''), (''challenge'', JStr ''abc''), (''origin'', JStr ''https://lab.org'')]) else None),
     pc_sha = (\<lambda>bs. replicate 32 (of_nat (length bs))),
     pc_import = (\<lambda>_. True),
     pc_verify = (\<lambda>_ raw signed. take 4 raw = take 4 signed)\<rparr>"

definition sample_key :: passkey_key where
  "sample_key = \<lparr>pk_alg = COSE_ES256, pk_jwk = EC_key ''x'' ''y''\<rparr>"

definition sample_rp :: relying_party where
  "sample_rp = \<lparr>rp_rpId = ''lab.org'', rp_origin = ''https://lab.org''\<rparr>"

definition sample_answer :: json where
  "sample_answer = JObj [(''clientDataJSON'', JStr (toBase64url sample_client)),
     (''authenticatorData'', JStr (toBase64url (plain_auth_data (replicate 32 7) 1 5))),
     (''signature'', JStr (toBase64url (der_encode (replicate 32 7) (replicate 32 1))))]"

lemma sample_client_text: "decode_text sample_client = Some [123, 125]"
  using decode_ascii [of "[123, 125]"] by (simp add: sample_client_def)

lemma sample_client_ne: "sample_client \<noteq> []" "length sample_client = 2"
  by (simp_all add: sample_client_def)

theorem honest_assertion_accepted_witness:
  "verifyPasskeyAssertion sample_crypto sample_answer sample_rp ''abc'' sample_key 4 = Inr 5"
  unfolding sample_answer_def
  by (rule honest_assertion_accepted [where t = "[123, 125]" and flags = 1
        and fs = "[(''type'', JStr ''webauthn.get''), (''challenge'', JStr ''abc''), (''origin'', JStr ''https://lab.org'')]"])
    (simp_all add: sample_key_def sample_crypto_def sample_client_text sample_rp_def text_bytes_def sample_client_ne plain_auth_data_def bit_1_iff)

lemma sample_accepted: "verifyPasskeyAssertion sample_crypto sample_answer sample_rp ''abc'' sample_key 4 = Inr 5"
  unfolding sample_answer_def
  by (rule honest_answer [where t = "[123, 125]" and flags = 1
        and fs = "[(''type'', JStr ''webauthn.get''), (''challenge'', JStr ''abc''), (''origin'', JStr ''https://lab.org'')]"])
    (simp_all add: sample_key_def sample_crypto_def sample_client_text sample_rp_def text_bytes_def sample_client_ne plain_auth_data_def bit_1_iff)

theorem passkey_assertion_sound_witness:
  "\<exists>e. verifyPasskeyAssertion sample_crypto sample_answer sample_rp ''abc'' sample_key 5 = Inl e"
  using passkey_assertion_sound [OF sample_accepted, of "''abc''"] by simp

end
