(* ===== verification/Session_Handoff.thy ===== *)
theory Session_Handoff
  imports Webauthn Portal_Url
begin

text \<open>
  Host-only session cookies and the handoff of a sign-in to another host
  (\<open>src/cloudflare-control/src/session_handoff.ts\<close>). AES-GCM under the key derived from the pepper,
  \<open>JSON.parse\<close> of decoded bytes and \<open>new URL(redirect, base)\<close> are parameters; the random bytes drawn are arguments.
\<close>

subsection \<open>Cookies\<close>

definition SESSION_COOKIE_SECURE :: string where "SESSION_COOKIE_SECURE = ''__Host-labkiosk_session''"

definition SESSION_COOKIE_PLAIN :: string where "SESSION_COOKIE_PLAIN = ''labkiosk_session''"

definition SESSION_SECONDS :: int where "SESSION_SECONDS = 7 * 24 * 3600"

definition SUPER_ADMIN_SESSION_SECONDS :: int where "SUPER_ADMIN_SESSION_SECONDS = 12 * 3600"

definition HANDOFF_SECONDS :: int where "HANDOFF_SECONDS = 60"

definition HANDOFF_PATH :: string where "HANDOFF_PATH = ''/api/auth/handoff''"

definition sessionCookieName :: "bool \<Rightarrow> string" where
  "sessionCookieName secure = (if secure then SESSION_COOKIE_SECURE else SESSION_COOKIE_PLAIN)"

definition sessionSecondsFor :: "user_role \<Rightarrow> int" where
  "sessionSecondsFor role = (if role = Super_admin then SUPER_ADMIN_SESSION_SECONDS else SESSION_SECONDS)"

definition createSessionCookie :: "string \<Rightarrow> bool \<Rightarrow> int \<Rightarrow> string" where
  "createSessionCookie token secure maxAgeSeconds =
     join ''; '' ([sessionCookieName secure @ ''='' @ token, ''Path=/'', ''Max-Age='' @ show_int maxAgeSeconds, ''HttpOnly'', ''SameSite=Lax'']
       @ (if secure then [''Secure''] else []))"

definition clearSessionCookies :: "bool \<Rightarrow> string option \<Rightarrow> string list" where
  "clearSessionCookies secure legacyDomain =
     map (\<lambda>parts. join ''; '' (if secure then parts @ [''Secure''] else parts))
       ([[sessionCookieName secure @ ''='', ''Path=/'', ''Max-Age=0'', ''HttpOnly'', ''SameSite=Lax'']]
        @ (if truthy_text legacyDomain
           then [[SESSION_COOKIE_PLAIN @ ''='', ''Path=/'', ''Max-Age=0'', ''HttpOnly'', ''SameSite=Lax'',
                  ''Domain=.'' @ strip_leading_dot (text_of legacyDomain)]]
           else []))"

subsection \<open>The code\<close>

text \<open>
  \<open>hc_encrypt\<close> and \<open>hc_decrypt\<close> take the pepper, the initialization vector and the bytes; \<open>hc_parse\<close> is
  \<open>JSON.parse\<close> of the decoded bytes; \<open>hc_below\<close> compares a number that is no integer.
\<close>

record handoff_crypto =
  hc_encrypt :: "string \<Rightarrow> byte list \<Rightarrow> byte list \<Rightarrow> byte list"
  hc_decrypt :: "string \<Rightarrow> byte list \<Rightarrow> byte list \<Rightarrow> byte list option"
  hc_parse :: "byte list \<Rightarrow> json option"
  hc_below :: "string \<Rightarrow> int \<Rightarrow> bool"

definition handoff_bytes :: "string \<Rightarrow> byte list option" where
  "handoff_bytes v =
     (if v = [] \<or> \<not> list_all (\<lambda>c. b64_value c \<noteq> None) v \<or> length v > 512 then None
      else sextets_to_bytes (map (\<lambda>c. the (b64_value c)) v))"

text \<open>\<open>JSON.stringify\<close> of a string and of the claims.\<close>

definition json_char :: "char \<Rightarrow> string" where
  "json_char c =
     (if c = CHR 0x22 then [CHR 0x5C, CHR 0x22] else if c = CHR 0x5C then [CHR 0x5C, CHR 0x5C]
      else if code c = 8 then [CHR 0x5C, CHR ''b''] else if code c = 12 then [CHR 0x5C, CHR ''f'']
      else if code c = 10 then [CHR 0x5C, CHR ''n''] else if code c = 13 then [CHR 0x5C, CHR ''r'']
      else if code c = 9 then [CHR 0x5C, CHR ''t'']
      else if code c < 32 then [CHR 0x5C, CHR ''u'', CHR ''0'', CHR ''0'', hex_digit (code c div 16), hex_digit (code c mod 16)]
      else [c])"

definition json_text :: "string \<Rightarrow> string" where
  "json_text s = [CHR 0x22] @ concat (map json_char s) @ [CHR 0x22]"

definition claims_json :: "string \<Rightarrow> string \<Rightarrow> int \<Rightarrow> string" where
  "claims_json t h e =
     ''{'' @ json_text ''t'' @ '':'' @ json_text t @ '','' @ json_text ''h'' @ '':'' @ json_text h
     @ '','' @ json_text ''e'' @ '':'' @ show_int e @ ''}''"

definition sealHandoff :: "handoff_crypto \<Rightarrow> string \<Rightarrow> string \<Rightarrow> string \<Rightarrow> byte list \<Rightarrow> int \<Rightarrow> string" where
  "sealHandoff w pepper token host iv now =
     toBase64url (iv @ hc_encrypt w pepper iv (text_bytes (claims_json token (toLowerCase host) (now + HANDOFF_SECONDS))))"

text \<open>\<open>Inl\<close> is the exception of reading a field of \<open>null\<close>.\<close>

definition openHandoff :: "handoff_crypto \<Rightarrow> string \<Rightarrow> string \<Rightarrow> string \<Rightarrow> int \<Rightarrow> string + string option" where
  "openHandoff w pepper handoff host now =
     (case handoff_bytes handoff of
        None \<Rightarrow> Inr None
      | Some bytes \<Rightarrow>
          if length bytes < 12 + 16 then Inr None
          else case hc_decrypt w pepper (take 12 bytes) (drop 12 bytes) of
            None \<Rightarrow> Inr None
          | Some plain \<Rightarrow>
              (case hc_parse w plain of
                 None \<Rightarrow> Inr None
               | Some JNull \<Rightarrow> Inl ''TypeError''
               | Some claims \<Rightarrow>
                   Inr (case (field claims ''t'', field claims ''h'', field claims ''e'') of
                      (JStr t, JStr h, JInt e) \<Rightarrow> if h \<noteq> toLowerCase host \<or> e < now then None else Some t
                    | (JStr t, JStr h, JFloat e) \<Rightarrow> if h \<noteq> toLowerCase host \<or> hc_below w e now then None else Some t
                    | _ \<Rightarrow> None)))"

subsection \<open>Where a sign-in goes\<close>

record target_url =
  tg_protocol :: string
  tg_host :: string
  tg_hostname :: string
  tg_pathname :: string
  tg_search :: string

text \<open>
  \<open>resolve\<close> is \<open>new URL\<close> with a base; \<open>scheme\<close> and \<open>host0\<close> are the request's own. \<open>Inl\<close> is the error
  thrown for a host that is not the platform's.
\<close>

definition signInDestination ::
  "handoff_crypto \<Rightarrow> (string \<Rightarrow> string \<Rightarrow> target_url option) \<Rightarrow> string option \<Rightarrow> string \<Rightarrow> string \<Rightarrow> string \<Rightarrow> string \<Rightarrow> string
   \<Rightarrow> byte list \<Rightarrow> int \<Rightarrow> string + string \<times> bool" where
  "signInDestination w resolve DEFAULT_DOMAIN scheme host0 token redirect pepper iv now =
     (let hereHost = toLowerCase host0 in
      case resolve redirect (scheme @ ''//'' @ hereHost) of
        None \<Rightarrow> Inr (''/'', True)
      | Some target \<Rightarrow>
          if toLowerCase (tg_host target) = hereHost then Inr (redirect, True)
          else let base = toLowerCase (strip_leading_dot (text_of DEFAULT_DOMAIN)) in
            if tg_protocol target \<noteq> ''https:'' \<or> base = []
               \<or> \<not> (tg_hostname target = base \<or> endsWith (tg_hostname target) (CHR ''.'' # base))
            then Inl (''Refusing to hand a session to '' @ tg_host target)
            else Inr (tg_protocol target @ ''//'' @ tg_host target @ HANDOFF_PATH
                        @ ''?code='' @ encodeURIComponent (sealHandoff w pepper token (tg_host target) iv now)
                        @ ''&next='' @ encodeURIComponent (tg_pathname target @ tg_search target), False))"

definition safeNext :: "string option \<Rightarrow> string" where
  "safeNext raw =
     (let path = text_of raw in
      if startsWith path ''/'' \<and> \<not> startsWith path ''//'' \<and> \<not> startsWith path [CHR ''/'', CHR 0x5C] then path else ''/admin'')"

record handoff_answer =
  ha_location :: string
  ha_cookies :: "string list"

text \<open>
  \<open>GET /api/auth/handoff\<close>, in the two parts an interleaving can separate: what it reads and what it then
  writes. \<open>None\<close> in the second is a new token that is already taken.
\<close>

definition handoff_read ::
  "(string \<Rightarrow> string) \<Rightarrow> handoff_crypto \<Rightarrow> string \<Rightarrow> string option \<Rightarrow> string \<Rightarrow> int \<Rightarrow> d1 \<Rightarrow> string + (string \<times> session) option \<times> d1" where
  "handoff_read sha w pepper handoff host0 now db =
     (case openHandoff w pepper (text_of handoff) (toLowerCase host0) now of
        Inl e \<Rightarrow> Inl e
      | Inr None \<Rightarrow> Inr (None, db)
      | Inr (Some token) \<Rightarrow>
          if token = [] then Inr (None, db)
          else (case getSession sha db token now of (s, db') \<Rightarrow> Inr (map_option (Pair token) s, db')))"

definition handoff_write ::
  "(string \<Rightarrow> string) \<Rightarrow> bool \<Rightarrow> string option \<Rightarrow> string \<times> session \<Rightarrow> string option \<Rightarrow> string \<Rightarrow> int \<Rightarrow> d1 \<Rightarrow> (handoff_answer \<times> d1) option" where
  "handoff_write sha secure legacyDomain found next_param fresh now db =
     (case createSession sha (deleteSession sha db (fst found)) ((snd found)\<lparr>se_token := fresh\<rparr>) of
        None \<Rightarrow> None
      | Some db' \<Rightarrow>
          Some (\<lparr>ha_location = safeNext next_param,
                 ha_cookies = createSessionCookie fresh secure (max 0 (se_expires_at (snd found) - now)) # tl (clearSessionCookies secure legacyDomain)\<rparr>, db'))"

definition expired_handoff :: handoff_answer where
  "expired_handoff = \<lparr>ha_location = ''/?signin=expired'', ha_cookies = []\<rparr>"

definition handleSessionHandoff ::
  "(string \<Rightarrow> string) \<Rightarrow> handoff_crypto \<Rightarrow> string \<Rightarrow> bool \<Rightarrow> string option \<Rightarrow> string \<Rightarrow> string option \<Rightarrow> string option \<Rightarrow> string \<Rightarrow> int \<Rightarrow> d1
   \<Rightarrow> string + handoff_answer \<times> d1" where
  "handleSessionHandoff sha w pepper secure legacyDomain host0 handoff next_param fresh now db =
     (case handoff_read sha w pepper handoff host0 now db of
        Inl e \<Rightarrow> Inl e
      | Inr (None, db') \<Rightarrow> Inr (expired_handoff, db')
      | Inr (Some found, db') \<Rightarrow>
          (case handoff_write sha secure legacyDomain found next_param fresh now db' of
             None \<Rightarrow> Inl ''UNIQUE constraint failed'' | Some r \<Rightarrow> Inr r))"

subsection \<open>A code opens where it was sealed\<close>

lemma show_nat_short: "n < 10 ^ k \<Longrightarrow> 0 < k \<Longrightarrow> length (show_nat n) \<le> k"
proof (induction k arbitrary: n)
  case (Suc k)
  show ?case
  proof (cases "n < 10")
    case False
    then have "0 < k" "n div 10 < 10 ^ k" using Suc.prems by (cases k; simp add: less_mult_imp_div_less mult.commute)+
    then have "length (show_nat (n div 10)) \<le> k" using Suc.IH by blast
    then show ?thesis using False by (simp add: show_nat.simps [of n])
  qed (simp add: show_nat.simps [of n])
qed simp

definition plain_char :: "char \<Rightarrow> bool" where
  "plain_char c = (32 \<le> code c \<and> code c < 128 \<and> c \<noteq> CHR 0x22 \<and> c \<noteq> CHR 0x5C)"

lemma json_plain: "list_all plain_char s \<Longrightarrow> concat (map json_char s) = s"
  by (induction s) (auto simp: json_char_def plain_char_def)

lemma text_bytes_append [simp]: "text_bytes (s @ t) = text_bytes s @ text_bytes t"
  by (simp add: text_bytes_def)

lemma text_bytes_length: "list_all (\<lambda>c. code c < 128) s \<Longrightarrow> length (text_bytes s) = length s"
  by (induction s) (simp_all add: text_bytes_def)

lemma show_nat_ascii: "list_all (\<lambda>c. code c < 128) (show_nat n)"
proof (induction n rule: show_nat.induct)
  case (1 n)
  have "n mod 10 < 80" by (rule less_trans [of _ 10]) simp_all
  then show ?case using 1 by (simp add: show_nat.simps [of n] digit_char_def)
qed

lemma claims_length:
  assumes "list_all plain_char t" "list_all plain_char h" "0 \<le> e" "e < 10 ^ 11"
  shows "length (text_bytes (claims_json t h e)) \<le> length t + length h + 31"
proof -
  have ascii: "list_all (\<lambda>c. code c < 128) t" "list_all (\<lambda>c. code c < 128) h"
    using assms(1,2) by (auto simp: list_all_iff plain_char_def)
  have e: "show_int e = show_nat (nat e)" using assms(3) by (simp add: show_int_def)
  have "length (show_nat (nat e)) \<le> 11" using assms(3,4) by (intro show_nat_short) (simp_all add: nat_less_iff)
  moreover have "length (text_bytes (claims_json t h e)) = length (claims_json t h e)"
    using ascii assms(3) show_nat_ascii by (intro text_bytes_length) (simp add: claims_json_def json_text_def json_plain assms(1,2) e json_char_def)
  moreover have "length (claims_json t h e) \<le> length t + length h + 20 + length (show_nat (nat e))"
    by (simp add: claims_json_def json_text_def json_plain assms(1,2) e json_char_def)
  ultimately show ?thesis by linarith
qed

lemma sextets_code: "bs \<noteq> [] \<Longrightarrow> length bs \<le> 382 \<Longrightarrow> handoff_bytes (toBase64url bs) = Some bs"
  using toBase64url_length [of bs] toBase64url_chars [of bs] sextets_back [of bs] by (auto simp: handoff_bytes_def)

text \<open>
  A handoff code opens to the session token sealed in it on the host it was sealed for, in any
  letter case, for 60 seconds, and to nothing on another host or later; the host may have any length a
  host name can have, so the 512 characters accepted are enough. AES-GCM decrypts what it encrypts under
  the same key and adds a tag of 16 bytes; the JSON printed for the claims is read back.
\<close>

theorem handoff_opens_where_sealed:
  fixes w :: handoff_crypto
  assumes aead: "\<And>iv plain. length (hc_encrypt w pepper iv plain) = length plain + 16"
      "\<And>iv plain. hc_decrypt w pepper iv (hc_encrypt w pepper iv plain) = Some plain"
    and parse: "hc_parse w (text_bytes (claims_json token (toLowerCase host) (now + HANDOFF_SECONDS)))
      = Some (JObj [(''t'', JStr token), (''h'', JStr (toLowerCase host)), (''e'', JInt (now + HANDOFF_SECONDS))])"
    and sizes: "length iv = 12" "length token = 64" "length host \<le> 253" "0 \<le> now" "now < 99999999940"
    and chars: "list_all plain_char token" "list_all plain_char (toLowerCase host)"
  shows "openHandoff w pepper (sealHandoff w pepper token host iv now) there later
    = Inr (if toLowerCase there = toLowerCase host \<and> later \<le> now + 60 then Some token else None)"
proof -
  let ?plain = "text_bytes (claims_json token (toLowerCase host) (now + HANDOFF_SECONDS))"
  let ?bytes = "iv @ hc_encrypt w pepper iv ?plain"
  have "length ?plain \<le> 64 + 253 + 31"
    using claims_length [OF chars, of "now + HANDOFF_SECONDS"] sizes by (simp add: HANDOFF_SECONDS_def toLowerCase_def)
  then have "length ?bytes \<le> 382" "12 + 16 \<le> length ?bytes" using aead(1) sizes(1) by simp_all
  moreover have "?bytes \<noteq> []" using sizes(1) by auto
  ultimately show ?thesis
    using aead(2) sizes(1) parse by (auto simp: openHandoff_def sealHandoff_def sextets_code HANDOFF_SECONDS_def)
qed

subsection \<open>A code works once\<close>

lemma no_match_after: "sessions (deleteSession sha db token) = xs \<Longrightarrow> r \<in> set xs \<Longrightarrow> \<not> session_match sha token r"
  by (auto simp: deleteSession_def)

text \<open>The session a token leads to, and the database once a row stored in the clear is hashed.\<close>

lemma getSession_token: "fst (getSession sha db token now) = Some s \<Longrightarrow> se_token s = token"
  by (auto simp: getSession_def split: option.splits if_splits)

definition fresh_for :: "(string \<Rightarrow> string) \<Rightarrow> d1 \<Rightarrow> string \<Rightarrow> string \<Rightarrow> bool" where
  "fresh_for sha db token fresh =
     (no_clash sha db fresh \<and> fresh \<noteq> [] \<and> sessionKey sha fresh \<noteq> sessionKey sha token
      \<and> sessionKey sha token \<noteq> fresh)"

lemma rehash_clash: "no_clash sha db fresh \<Longrightarrow> sessionKey sha fresh \<noteq> sessionKey sha token \<Longrightarrow> sessionKey sha token \<noteq> fresh \<Longrightarrow>
    no_clash sha (snd (getSession sha db token now)) fresh"
  by (auto simp: no_clash_def getSession_def rehash_row_def split: option.splits if_splits)

lemma delete_clash: "no_clash sha db fresh \<Longrightarrow> no_clash sha (deleteSession sha db token) fresh"
  by (auto simp: no_clash_def deleteSession_def)

lemma create_fresh: "no_clash sha db (se_token s) \<Longrightarrow>
    createSession sha db s = Some (db\<lparr>sessions := sessions db @ [session_row_of s (sessionKey sha (se_token s))]\<rparr>)"
  by (auto simp: createSession_def no_clash_def tbl_lookup_def find_None_iff Let_def)

lemma getSession_created:
  assumes "createSession sha db s = Some db'" "no_clash sha db (se_token s)" "now < se_expires_at s"
  shows "fst (getSession sha db' (se_token s) now) = Some s"
proof -
  have "find (\<lambda>r. session_match sha (se_token s) r \<and> now < se_expires_at r) (sessions db) = None"
    using assms(2) by (auto simp: find_None_iff no_clash_def session_match_def)
  moreover have "sessions db' = sessions db @ [session_row_of s (sessionKey sha (se_token s))]"
    using assms(1) by (auto simp: createSession_def Let_def split: if_splits)
  ultimately show ?thesis using assms(3) by (simp add: getSession_fst find_append session_match_def session_row_of_def)
qed

lemma handoff_spent:
  assumes "createSession sha (deleteSession sha db token) s = Some db'"
    and "sessionKey sha (se_token s) \<noteq> sessionKey sha token"
  shows "getSession sha db' token now = (None, db')"
proof -
  have "sessions db' = sessions (deleteSession sha db token) @ [session_row_of s (sessionKey sha (se_token s))]"
    using assms(1) by (auto simp: createSession_def Let_def split: if_splits)
  then have "find (\<lambda>r. session_match sha token r \<and> now < se_expires_at r) (sessions db') = None"
    using assms(2) by (auto simp: find_None_iff deleteSession_def session_match_def session_row_of_def)
  then show ?thesis by (simp add: getSession_def)
qed

text \<open>
  C17. A handoff swaps the session for a new one, for the same user, organization and role and with the
  same end: the new token is the one set in the cookie and is live, the sealed token is dead at once,
  and the same code sent again, in time and on the right host, only leads back to the sign-in page and
  changes nothing.
\<close>

theorem handoff_works_once:
  assumes opens: "openHandoff w pepper handoff (toLowerCase host) now = Inr (Some token)" "token \<noteq> []"
    and live: "fst (getSession sha db token now) = Some s"
    and fresh: "fresh_for sha db token fresh"
    and finished: "handleSessionHandoff sha w pepper secure legacy host (Some handoff) path fresh now db = Inr (answer, db')"
  shows "ha_location answer = safeNext path
    \<and> hd (ha_cookies answer) = createSessionCookie fresh secure (max 0 (se_expires_at s - now))
    \<and> fst (getSession sha db' fresh now) = Some (s\<lparr>se_token := fresh\<rparr>)
    \<and> fst (getSession sha db' token later) = None
    \<and> (openHandoff w pepper handoff (toLowerCase there) later = Inr (Some token) \<longrightarrow>
      handleSessionHandoff sha w pepper secure legacy there (Some handoff) path' fresh' later db' = Inr (expired_handoff, db'))"
proof -
  obtain db1 where g: "getSession sha db token now = (Some s, db1)" using live by (cases "getSession sha db token now") auto
  let ?new = "s\<lparr>se_token := fresh\<rparr>"
  have exp: "now < se_expires_at s" using g by (auto simp: getSession_def find_Some_iff split: option.splits if_splits)
  have clash: "no_clash sha (deleteSession sha db1 token) (se_token ?new)"
    using rehash_clash [of sha db fresh token now] fresh g by (simp add: fresh_for_def delete_clash)
  have created: "createSession sha (deleteSession sha db1 token) ?new = Some db'"
    and answer: "answer = \<lparr>ha_location = safeNext path,
      ha_cookies = createSessionCookie fresh secure (max 0 (se_expires_at s - now)) # tl (clearSessionCookies secure legacy)\<rparr>"
    using finished opens g create_fresh [OF clash]
    by (auto simp: handleSessionHandoff_def handoff_read_def handoff_write_def text_of_def)
  have spent: "getSession sha db' token at = (None, db')" for at
    using handoff_spent [OF created] fresh by (simp add: fresh_for_def)
  have "openHandoff w pepper handoff (toLowerCase there) later = Inr (Some token) \<longrightarrow>
      handleSessionHandoff sha w pepper secure legacy there (Some handoff) path' fresh' later db' = Inr (expired_handoff, db')"
    using spent opens(2) by (simp add: handleSessionHandoff_def handoff_read_def text_of_def)
  then show ?thesis using getSession_created [OF created clash, of now] exp spent by (simp add: answer)
qed

text \<open>
  The session is looked up first and deleted later, and whether the deletion removed anything is not asked:
  two requests with one code that are both past the look-up each leave a session.
\<close>

lemma handoff_race:
  assumes "handoff_read sha w pepper handoff host now db = Inr (Some (token, s), db1)"
    and "handoff_write sha secure legacy (token, s) path fresh1 now db1 = Some (a1, db2)"
    and "fresh_for sha db1 token fresh1" "no_clash sha db1 fresh2" "sessionKey sha fresh1 \<noteq> sessionKey sha fresh2"
      "sessionKey sha fresh1 \<noteq> fresh2" "sessionKey sha token \<noteq> fresh1"
  shows "\<exists>a2 db3. handoff_write sha secure legacy (token, s) path fresh2 now db2 = Some (a2, db3)
    \<and> fst (getSession sha db3 fresh1 now) = Some (s\<lparr>se_token := fresh1\<rparr>)
    \<and> fst (getSession sha db3 fresh2 now) = Some (s\<lparr>se_token := fresh2\<rparr>)"
proof -
  let ?s1 = "s\<lparr>se_token := fresh1\<rparr>" and ?s2 = "s\<lparr>se_token := fresh2\<rparr>"
  let ?row1 = "session_row_of ?s1 (sessionKey sha fresh1)"
  have exp: "now < se_expires_at s"
    using assms(1) by (auto simp: handoff_read_def getSession_def find_Some_iff split: sum.splits option.splits if_splits)
  have clash1: "no_clash sha (deleteSession sha db1 token) (se_token ?s1)"
    using assms(3) by (simp add: fresh_for_def delete_clash)
  have db2: "db2 = (deleteSession sha db1 token)\<lparr>sessions := sessions (deleteSession sha db1 token) @ [?row1]\<rparr>"
    using assms(2) create_fresh [OF clash1] by (simp add: handoff_write_def)
  have again: "deleteSession sha db2 token = db2"
    using assms(3) by (simp add: db2 deleteSession_def session_match_def session_row_of_def fresh_for_def)
  have clash2: "no_clash sha db2 (se_token ?s2)"
    using assms(4-6) delete_clash [OF assms(4), of token] by (auto simp: db2 no_clash_def session_row_of_def)
  obtain db3 where db3: "createSession sha db2 ?s2 = Some db3" "sessions db3 = sessions db2 @ [session_row_of ?s2 (sessionKey sha fresh2)]"
    using create_fresh [OF clash2] by simp
  have "find (\<lambda>r. session_match sha fresh1 r \<and> now < se_expires_at r) (sessions (deleteSession sha db1 token)) = None"
    using clash1 by (auto simp: find_None_iff no_clash_def session_match_def)
  then have "fst (getSession sha db3 fresh1 now) = Some ?s1"
    using exp by (simp add: getSession_fst db3 db2 find_append session_match_def session_row_of_def)
  moreover have "fst (getSession sha db3 fresh2 now) = Some ?s2"
    using getSession_created [OF db3(1) clash2, of now] exp by simp
  ultimately show ?thesis using db3(1) again by (simp add: handoff_write_def)
qed

text \<open>
  The path is judged before the URL standard drops tabs and line ends from it: \<open>/\<close>, a tab and
  \<open>/evil.example\<close> passes, and a browser reads it as the address of another host.
\<close>

lemma safeNext_tab:
  "safeNext (Some ([CHR ''/'', CHR 0x09] @ ''/evil.example'')) = [CHR ''/'', CHR 0x09] @ ''/evil.example''
   \<and> filter (\<lambda>c. code c \<notin> {9, 10, 13}) (safeNext (Some ([CHR ''/'', CHR 0x09] @ ''/evil.example''))) = ''//evil.example''"
  by (simp add: safeNext_def text_of_def startsWith_def)

subsection \<open>Concrete cases\<close>

definition sample_token :: string where
  "sample_token = replicate 64 (CHR ''a'')"

definition sample_seal :: handoff_crypto where
  "sample_seal = \<lparr>hc_encrypt = (\<lambda>_ _ plain. plain @ replicate 16 0),
     hc_decrypt = (\<lambda>_ _ sealed. Some (take (length sealed - 16) sealed)),
     hc_parse = (\<lambda>_. Some (JObj [(''t'', JStr sample_token), (''h'', JStr ''lab.org''), (''e'', JInt 1060)])),
     hc_below = (\<lambda>_ _. False)\<rparr>"

theorem handoff_opens_where_sealed_witness:
  "openHandoff sample_seal ''p'' (sealHandoff sample_seal ''p'' sample_token ''Lab.org'' (replicate 12 7) 1000) ''LAB.org'' 1060 = Inr (Some sample_token)
   \<and> openHandoff sample_seal ''p'' (sealHandoff sample_seal ''p'' sample_token ''Lab.org'' (replicate 12 7) 1000) ''LAB.org'' 1061 = Inr None"
proof -
  have lower: "toLowerCase ''Lab.org'' = ''lab.org''" "toLowerCase ''LAB.org'' = ''lab.org''" by code_simp+
  have laws: "\<And>iv plain. length (hc_encrypt sample_seal ''p'' iv plain) = length plain + 16"
    "\<And>iv plain. hc_decrypt sample_seal ''p'' iv (hc_encrypt sample_seal ''p'' iv plain) = Some plain"
    "hc_parse sample_seal (text_bytes (claims_json sample_token (toLowerCase ''Lab.org'') (1000 + HANDOFF_SECONDS)))
      = Some (JObj [(''t'', JStr sample_token), (''h'', JStr (toLowerCase ''Lab.org'')), (''e'', JInt (1000 + HANDOFF_SECONDS))])"
    by (simp_all add: sample_seal_def lower HANDOFF_SECONDS_def)
  have chars: "list_all plain_char sample_token" "list_all plain_char (toLowerCase ''Lab.org'')"
    by (simp_all add: sample_token_def plain_char_def lower list_all_iff)
  note opens = handoff_opens_where_sealed [OF laws _ _ _ _ _ chars, of "replicate 12 7" "''LAB.org''"]
  show ?thesis using opens [of 1060] opens [of 1061] by (simp add: lower sample_token_def)
qed

definition sample_sha :: "string \<Rightarrow> string" where
  "sample_sha s = CHR ''#'' # s"

definition handoff_db :: d1 where
  "handoff_db = empty_db\<lparr>sessions := [\<lparr>se_token = sessionKey sample_sha sample_token, se_user_id = ''u1'', se_tenant_id = Some ''t1'',
     se_role = Org_admin, se_expires_at = 5000, se_hashed = True\<rparr>]\<rparr>"

lemma sample_opens: "openHandoff (sample_seal\<lparr>hc_decrypt := \<lambda>_ _ _. Some []\<rparr>) ''p'' sample_token ''lab.org'' t
    = Inr (if 1060 < t then None else Some sample_token)"
proof -
  have "handoff_bytes sample_token = Some (concat (replicate 16 [105, 166, 154]))" by code_simp
  moreover have "toLowerCase ''lab.org'' = ''lab.org''" by code_simp
  ultimately show ?thesis by (simp add: openHandoff_def sample_seal_def numeral_eq_Suc)
qed

theorem handoff_works_once_witness:
  "\<exists>answer db'. handleSessionHandoff sample_sha (sample_seal\<lparr>hc_decrypt := \<lambda>_ _ _. Some []\<rparr>) ''p'' True None ''lab.org'' (Some sample_token) (Some ''/admin'') ''f1'' 1000 handoff_db = Inr (answer, db')
    \<and> fst (getSession sample_sha db' ''f1'' 1000) = Some \<lparr>se_token = ''f1'', se_user_id = ''u1'', se_tenant_id = Some ''t1'', se_role = Org_admin, se_expires_at = 5000\<rparr>
    \<and> handleSessionHandoff sample_sha (sample_seal\<lparr>hc_decrypt := \<lambda>_ _ _. Some []\<rparr>) ''p'' True None ''lab.org'' (Some sample_token) (Some ''/admin'') ''f2'' 1010 db' = Inr (expired_handoff, db')"
proof -
  let ?w = "sample_seal\<lparr>hc_decrypt := \<lambda>_ _ _. Some []\<rparr>"
  let ?s = "\<lparr>se_token = sample_token, se_user_id = ''u1'', se_tenant_id = Some ''t1'', se_role = Org_admin, se_expires_at = 5000\<rparr>"
  have lower: "toLowerCase ''lab.org'' = ''lab.org''" by code_simp
  have live: "getSession sample_sha handoff_db sample_token 1000 = (Some ?s, handoff_db)"
    by (simp add: getSession_def handoff_db_def session_match_def)
  have "length sample_token \<noteq> length ''f1''" by (simp add: sample_token_def)
  then have "sample_token \<noteq> ''f1''" by metis
  then have fresh: "fresh_for sample_sha handoff_db sample_token ''f1''"
    by (simp add: fresh_for_def no_clash_def handoff_db_def sessionKey_def sample_sha_def)
  have clash: "no_clash sample_sha (deleteSession sample_sha handoff_db sample_token) (se_token (?s\<lparr>se_token := ''f1''\<rparr>))"
    using fresh by (simp add: fresh_for_def delete_clash)
  have token: "sample_token \<noteq> []" by (simp add: sample_token_def)
  obtain answer db' where done1: "handleSessionHandoff sample_sha ?w ''p'' True None ''lab.org'' (Some sample_token) (Some ''/admin'') ''f1'' 1000 handoff_db = Inr (answer, db')"
    using create_fresh [OF clash] live token sample_opens [of 1000]
    by (auto simp: handleSessionHandoff_def handoff_read_def handoff_write_def lower text_of_def)
  have opens: "openHandoff ?w ''p'' sample_token (toLowerCase ''lab.org'') 1000 = Inr (Some sample_token)"
    "openHandoff ?w ''p'' sample_token (toLowerCase ''lab.org'') 1010 = Inr (Some sample_token)"
    using sample_opens [of 1000] sample_opens [of 1010] by (simp_all add: lower)
  have "fst (getSession sample_sha handoff_db sample_token 1000) = Some ?s" using live by simp
  then show ?thesis
    using handoff_works_once [OF opens(1) token _ fresh done1, of _ 1010 "''lab.org''" "Some ''/admin''" "''f2''"] opens(2) done1
    by fastforce
qed

end
