(* ===== verification/Id_Token.thy ===== *)
theory Id_Token
  imports Session_Handoff
begin

text \<open>
  Single sign-on, the parts that look at one value (\<open>src/cloudflare-control/src/sso.ts\<close>): the
  organization's settings, the check of an ID token and the cache of the providers' signing keys.
  Web Crypto, \<open>JSON.parse\<close>, the network and comparisons of numbers that are not integers are parameters.
  The texts of log lines are left out.
\<close>

datatype sso_provider = Google | Microsoft

definition SSO_PROVIDERS :: "sso_provider list" where
  "SSO_PROVIDERS = [Google, Microsoft]"

definition CLOCK_SKEW_SECONDS :: int where "CLOCK_SKEW_SECONDS = 120"

definition MAX_ALLOWED_ENTRIES :: nat where "MAX_ALLOWED_ENTRIES = 20"

definition MAX_ID_TOKEN_LENGTH :: nat where "MAX_ID_TOKEN_LENGTH = 16 * 1024"

definition MICROSOFT_CONSUMER_TENANT :: string where
  "MICROSOFT_CONSUMER_TENANT = ''9188040d-6c67-4c5b-b112-36a304b66dad''"

definition CONSUMER_GOOGLE_DOMAINS :: "string list" where
  "CONSUMER_GOOGLE_DOMAINS = [''gmail.com'', ''googlemail.com'']"

definition isSsoProvider :: "string option \<Rightarrow> sso_provider option" where
  "isSsoProvider v = (if v = Some ''google'' then Some Google else if v = Some ''microsoft'' then Some Microsoft else None)"

definition ssoProviderLabel :: "sso_provider \<Rightarrow> string" where
  "ssoProviderLabel p = (case p of Google \<Rightarrow> ''Google'' | Microsoft \<Rightarrow> ''Microsoft'')"

definition authorize_endpoint :: "sso_provider \<Rightarrow> string" where
  "authorize_endpoint p = (case p of
      Google \<Rightarrow> ''https://accounts.google.com/o/oauth2/v2/auth''
    | Microsoft \<Rightarrow> ''https://login.microsoftonline.com/organizations/oauth2/v2.0/authorize'')"

subsection \<open>Settings of an organization\<close>

record sso_settings =
  so_googleEnabled :: bool
  so_googleDomains :: "string list"
  so_microsoftEnabled :: bool
  so_microsoftTenants :: "string list"
  so_requireSso :: bool

text \<open>A list column is the JSON stored in it, \<open>None\<close> where it is damaged.\<close>

record sso_settings_row =
  sr_tenant_id :: string
  sr_google_enabled :: int
  sr_google_domains :: "json option"
  sr_microsoft_enabled :: int
  sr_microsoft_tenants :: "json option"
  sr_require_sso :: int
  sr_updated_at :: int
  sr_updated_by :: "string option"

definition NO_SETTINGS :: sso_settings where
  "NO_SETTINGS = \<lparr>so_googleEnabled = False, so_googleDomains = [], so_microsoftEnabled = False, so_microsoftTenants = [], so_requireSso = False\<rparr>"

fun json_texts :: "json list \<Rightarrow> string list" where
  "json_texts [] = []"
| "json_texts (JStr s # xs) = s # json_texts xs"
| "json_texts (_ # xs) = json_texts xs"

definition stringList :: "json option \<Rightarrow> string list" where
  "stringList column = (case column of Some (JArr xs) \<Rightarrow> json_texts xs | _ \<Rightarrow> [])"

definition getSsoSettings :: "sso_settings_row list \<Rightarrow> string \<Rightarrow> sso_settings" where
  "getSsoSettings rows tenantId =
     (case tbl_lookup sr_tenant_id tenantId rows of
        None \<Rightarrow> NO_SETTINGS
      | Some row \<Rightarrow> \<lparr>so_googleEnabled = (sr_google_enabled row = 1), so_googleDomains = stringList (sr_google_domains row),
          so_microsoftEnabled = (sr_microsoft_enabled row = 1), so_microsoftTenants = stringList (sr_microsoft_tenants row),
          so_requireSso = (sr_require_sso row = 1)\<rparr>)"

definition enabledIn :: "sso_settings \<Rightarrow> sso_provider \<Rightarrow> bool" where
  "enabledIn settings p = (case p of
      Google \<Rightarrow> so_googleEnabled settings \<and> so_googleDomains settings \<noteq> []
    | Microsoft \<Rightarrow> so_microsoftEnabled settings \<and> so_microsoftTenants settings \<noteq> [])"

text \<open>The platform's own OAuth clients: id and secret of each provider, where the deployment sets them.\<close>

record sso_clients =
  cl_google :: "string option \<times> string option"
  cl_microsoft :: "string option \<times> string option"

definition clientCredentials :: "sso_clients \<Rightarrow> sso_provider \<Rightarrow> (string \<times> string) option" where
  "clientCredentials env p =
     (let pair = (case p of Google \<Rightarrow> cl_google env | Microsoft \<Rightarrow> cl_microsoft env);
          i = trim (text_of (fst pair)); secret = trim (text_of (snd pair))
      in if i \<noteq> [] \<and> secret \<noteq> [] then Some (i, secret) else None)"

definition ssoProviderAvailable :: "sso_clients \<Rightarrow> sso_provider \<Rightarrow> bool" where
  "ssoProviderAvailable env p = (clientCredentials env p \<noteq> None)"

definition offeredProviders :: "sso_clients \<Rightarrow> sso_settings \<Rightarrow> sso_provider list" where
  "offeredProviders env settings = filter (\<lambda>p. enabledIn settings p \<and> ssoProviderAvailable env p) SSO_PROVIDERS"

definition ssoButtonsFor :: "sso_settings_row list \<Rightarrow> sso_clients \<Rightarrow> tenant option \<Rightarrow> sso_provider list" where
  "ssoButtonsFor rows env t =
     (case t of None \<Rightarrow> [] | Some t \<Rightarrow> if tn_status t \<noteq> Active then [] else offeredProviders env (getSsoSettings rows (tn_id t)))"

definition passwordSignInRefusal :: "sso_settings_row list \<Rightarrow> sso_clients \<Rightarrow> string \<Rightarrow> user_role \<Rightarrow> tenant option \<Rightarrow> string option" where
  "passwordSignInRefusal rows env userId role t =
     (case t of
        None \<Rightarrow> None
      | Some t \<Rightarrow>
          if role = Super_admin \<or> tn_user_id t = userId then None
          else let settings = getSsoSettings rows (tn_id t); offered = offeredProviders env settings in
            if \<not> so_requireSso settings \<or> offered = [] then None
            else Some (tn_name t @ '' signs its staff in with '' @ join '' or '' (map ssoProviderLabel offered)
                       @ ''. Use '' @ [CHR 0x22] @ ''Continue with '' @ ssoProviderLabel (hd offered) @ [CHR 0x22] @ '' on your organization's sign-in page.''))"

definition DOMAIN_PATTERN :: "string \<Rightarrow> bool" where
  "DOMAIN_PATTERN d = BLOCKLIST_DOMAIN_PATTERN d"

definition TENANT_ID_PATTERN :: "string \<Rightarrow> bool" where
  "TENANT_ID_PATTERN s =
     (let ps = split_on CHR ''-'' s in map length ps = [8, 4, 4, 4, 12] \<and> list_all (list_all is_lower_hex) ps)"

fun clean_items :: "(string \<Rightarrow> string option) \<Rightarrow> string \<Rightarrow> json list \<Rightarrow> string list \<Rightarrow> string + string list" where
  "clean_items problem field_name [] out = Inr out"
| "clean_items problem field_name (JStr raw # rest) out =
     (let item = toLowerCase (trim raw) in
      if item = [] then clean_items problem field_name rest out
      else case problem item of
        Some e \<Rightarrow> Inl e
      | None \<Rightarrow> clean_items problem field_name rest (if item \<in> set out then out else out @ [item]))"
| "clean_items problem field_name (_ # rest) out = Inl (field_name @ '' holds text only'')"

definition cleanList :: "json \<Rightarrow> string \<Rightarrow> (string \<Rightarrow> string option) \<Rightarrow> string + string list" where
  "cleanList v field_name problem =
     (case v of
        JArr xs \<Rightarrow>
          (case clean_items problem field_name xs [] of
             Inl e \<Rightarrow> Inl e
           | Inr out \<Rightarrow> if length out > MAX_ALLOWED_ENTRIES then Inl (field_name @ '' holds at most 20 entries'') else Inr out)
      | _ \<Rightarrow> Inl (field_name @ '' is a list''))"

definition quoted :: "string \<Rightarrow> string" where
  "quoted s = [CHR 0x22] @ take 80 s @ [CHR 0x22]"

definition domain_problem :: "string \<Rightarrow> string option" where
  "domain_problem d =
     (if \<not> DOMAIN_PATTERN d then Some (quoted d @ '' is not a domain name'')
      else if d \<in> set CONSUMER_GOOGLE_DOMAINS then Some (d @ '' is for personal Google accounts; name your Google Workspace domain'')
      else None)"

definition tenant_id_problem :: "string \<Rightarrow> string option" where
  "tenant_id_problem t =
     (if \<not> TENANT_ID_PATTERN t then Some (quoted t @ '' is not an Entra tenant id (a GUID such as 72f988bf-86f1-41af-91ab-2d7cd011db47)'')
      else if t = MICROSOFT_CONSUMER_TENANT
      then Some ''That tenant id is the one for personal Microsoft accounts; name your organization's directory''
      else None)"

text \<open>\<open>v ?? []\<close>\<close>

definition or_empty :: "json \<Rightarrow> json" where
  "or_empty v = (if v = JNull \<or> v = JUndefined then JArr [] else v)"

fun flag_of :: "json \<Rightarrow> bool option" where
  "flag_of (JBool b) = Some b"
| "flag_of _ = None"

definition parseSsoSettings :: "json \<Rightarrow> string + sso_settings" where
  "parseSsoSettings body =
     (if \<not> is_object body then Inl ''The request body must be a JSON object''
      else let google = field body ''google''; microsoft = field body ''microsoft'' in
      case flag_of (field google ''enabled'') of
        None \<Rightarrow> Inl ''google.enabled is true or false''
      | Some googleOn \<Rightarrow>
      (case flag_of (field microsoft ''enabled'') of
        None \<Rightarrow> Inl ''microsoft.enabled is true or false''
      | Some microsoftOn \<Rightarrow>
      (case flag_of (field body ''requireSso'') of
        None \<Rightarrow> Inl ''requireSso is true or false''
      | Some require \<Rightarrow>
      (case cleanList (or_empty (field google ''domains'')) ''google.domains'' domain_problem of
        Inl e \<Rightarrow> Inl e
      | Inr domains \<Rightarrow>
      (case cleanList (or_empty (field microsoft ''tenants'')) ''microsoft.tenants'' tenant_id_problem of
        Inl e \<Rightarrow> Inl e
      | Inr ids \<Rightarrow>
        if googleOn \<and> domains = [] then Inl ''Name at least one Google Workspace domain to turn Google sign-in on''
        else if microsoftOn \<and> ids = [] then Inl ''Name at least one Entra tenant id to turn Microsoft sign-in on''
        else if require \<and> \<not> googleOn \<and> \<not> microsoftOn then Inl ''Turn a provider on before requiring single sign-on''
        else Inr \<lparr>so_googleEnabled = googleOn, so_googleDomains = domains, so_microsoftEnabled = microsoftOn,
                  so_microsoftTenants = ids, so_requireSso = require\<rparr>)))))"

definition administers :: "d1 \<Rightarrow> tenant \<Rightarrow> string \<Rightarrow> user_role \<Rightarrow> bool" where
  "administers db t userId role =
     (role = Super_admin \<or> tn_user_id t = userId
      \<or> (\<exists>s\<in>set (tenant_users db). tu_tenant_id s = tn_id t \<and> tu_user_id s = userId \<and> tu_role s = ''org_admin''))"

definition on_off :: "bool \<Rightarrow> string" where
  "on_off b = (if b then ''on'' else ''off'')"

definition list_or_dash :: "string list \<Rightarrow> string" where
  "list_or_dash xs = (let s = join '','' xs in if s = [] then ''-'' else s)"

definition describeSettings :: "sso_settings \<Rightarrow> string" where
  "describeSettings s = join '' ''
     [''google='' @ on_off (so_googleEnabled s), ''google_domains='' @ list_or_dash (so_googleDomains s),
      ''microsoft='' @ on_off (so_microsoftEnabled s), ''microsoft_tenants='' @ list_or_dash (so_microsoftTenants s),
      ''require_sso='' @ on_off (so_requireSso s)]"

definition settings_row :: "string \<Rightarrow> sso_settings \<Rightarrow> int \<Rightarrow> string option \<Rightarrow> sso_settings_row" where
  "settings_row tenantId next now by =
     \<lparr>sr_tenant_id = tenantId, sr_google_enabled = (if so_googleEnabled next then 1 else 0),
      sr_google_domains = Some (JArr (map JStr (so_googleDomains next))), sr_microsoft_enabled = (if so_microsoftEnabled next then 1 else 0),
      sr_microsoft_tenants = Some (JArr (map JStr (so_microsoftTenants next))), sr_require_sso = (if so_requireSso next then 1 else 0),
      sr_updated_at = now, sr_updated_by = by\<rparr>"

subsection \<open>ID tokens\<close>

text \<open>
  \<open>Sso_error\<close> carries the reason of an \<open>SsoError\<close>; \<open>Uncaught\<close> is any other exception, which the route
  does not handle.
\<close>

datatype sso_failure = Sso_error string | Uncaught string

text \<open>
  What is computed elsewhere: \<open>JSON.parse\<close> of decoded bytes, the import of an RSA key and the verification
  of an RS256 signature by modulus and exponent, and, for a number that is not an integer, whether it is so
  far before or after a time that 120 seconds of clock difference do not bridge it.
\<close>

record token_crypto =
  tc_parse :: "byte list \<Rightarrow> json option"
  tc_import :: "string \<Rightarrow> string \<Rightarrow> bool"
  tc_verify :: "string \<Rightarrow> string \<Rightarrow> byte list \<Rightarrow> byte list \<Rightarrow> bool"
  tc_long_before :: "string \<Rightarrow> int \<Rightarrow> bool"
  tc_long_after :: "string \<Rightarrow> int \<Rightarrow> bool"

definition token_bytes :: "string \<Rightarrow> sso_failure + byte list" where
  "token_bytes s =
     (if \<not> list_all (\<lambda>c. b64_value c \<noteq> None) s then Inl (Sso_error ''malformed'')
      else case sextets_to_bytes (map (\<lambda>c. the (b64_value c)) s) of None \<Rightarrow> Inl (Uncaught ''InvalidCharacterError'') | Some bs \<Rightarrow> Inr bs)"

definition decodeJson :: "token_crypto \<Rightarrow> string \<Rightarrow> json option" where
  "decodeJson w part =
     (case token_bytes part of
        Inl _ \<Rightarrow> None
      | Inr bs \<Rightarrow> (case tc_parse w bs of Some (JObj kvs) \<Rightarrow> Some (JObj kvs) | _ \<Rightarrow> None))"

record sso_identity =
  si_provider :: sso_provider
  si_email :: string
  si_subject :: string
  si_directory :: string

record expectations =
  ex_provider :: sso_provider
  ex_clientId :: string
  ex_nonce :: string
  ex_googleDomains :: "string list"
  ex_microsoftTenants :: "string list"

definition EMAIL_PATTERN :: "string \<Rightarrow> bool" where
  "EMAIL_PATTERN s =
     (case split_on CHR ''@'' s of
        [name, host] \<Rightarrow> 1 \<le> length name \<and> length name \<le> 64 \<and> 1 \<le> length host \<and> length host \<le> 255
                        \<and> list_all (\<lambda>c. \<not> is_space c) (name @ host)
      | _ \<Rightarrow> False)"

text \<open>\<open>typeof v === "string" ? v : ""\<close>\<close>

fun text_or_empty :: "json \<Rightarrow> string" where
  "text_or_empty (JStr s) = s"
| "text_or_empty _ = []"

definition audiences :: "json \<Rightarrow> json list" where
  "audiences aud = (case aud of JArr xs \<Rightarrow> xs | _ \<Rightarrow> [aud])"

text \<open>\<open>typeof t !== "number" || t + 120 < at\<close>, and \<open>typeof t !== "number" || t - 120 > at\<close>\<close>

fun bad_or_past :: "token_crypto \<Rightarrow> json \<Rightarrow> int \<Rightarrow> bool" where
  "bad_or_past w (JInt t) at = (t + CLOCK_SKEW_SECONDS < at)"
| "bad_or_past w (JFloat t) at = tc_long_before w t at"
| "bad_or_past w _ at = True"

fun bad_or_future :: "token_crypto \<Rightarrow> json \<Rightarrow> int \<Rightarrow> bool" where
  "bad_or_future w (JInt t) at = (t - CLOCK_SKEW_SECONDS > at)"
| "bad_or_future w (JFloat t) at = tc_long_after w t at"
| "bad_or_future w _ at = True"

abbreviation fails :: "bool \<Rightarrow> string \<Rightarrow> sso_failure + 'a \<Rightarrow> sso_failure + 'a" where
  "fails bad reason rest \<equiv> (if bad then Inl (Sso_error reason) else rest)"

text \<open>The key a token may be verified with: modulus and exponent of an RSA key for RS256 signatures.\<close>

definition rsa_key :: "token_crypto \<Rightarrow> json option \<Rightarrow> (string \<times> string) option" where
  "rsa_key w jwk =
     (case jwk of
        None \<Rightarrow> None
      | Some k \<Rightarrow>
          (case (field k ''kty'', field k ''n'', field k ''e'') of
             (JStr kty, JStr n, JStr e) \<Rightarrow>
               if kty \<noteq> ''RSA'' \<or> (truthy (field k ''alg'') \<and> field k ''alg'' \<noteq> JStr ''RS256'')
                  \<or> (truthy (field k ''use'') \<and> field k ''use'' \<noteq> JStr ''sig'') \<or> \<not> tc_import w n e
               then None else Some (n, e)
           | _ \<Rightarrow> None))"

definition google_identity :: "expectations \<Rightarrow> json \<Rightarrow> string \<Rightarrow> sso_failure + sso_identity" where
  "google_identity expected claims sub =
     fails (field claims ''iss'' \<noteq> JStr ''https://accounts.google.com'' \<and> field claims ''iss'' \<noteq> JStr ''accounts.google.com'') ''issuer''
    (fails (field claims ''email_verified'' \<noteq> JBool True \<and> field claims ''email_verified'' \<noteq> JStr ''true'') ''email_unverified''
    (let hd = toLowerCase (text_or_empty (field claims ''hd'')) in
     fails (hd = [] \<or> hd \<notin> set (ex_googleDomains expected)) ''directory''
    (let email = toLowerCase (trim (text_or_empty (field claims ''email''))) in
     fails (\<not> EMAIL_PATTERN email) ''no_email''
      (Inr \<lparr>si_provider = Google, si_email = email, si_subject = sub, si_directory = hd\<rparr>))))"

definition microsoft_email :: "json \<Rightarrow> string" where
  "microsoft_email claims =
     (let email = trim (text_or_empty (field claims ''email'')) in
      toLowerCase (if email \<noteq> [] then email else trim (text_or_empty (field claims ''preferred_username''))))"

definition microsoft_identity :: "expectations \<Rightarrow> json \<Rightarrow> string \<Rightarrow> sso_failure + sso_identity" where
  "microsoft_identity expected claims sub =
     (let tid = toLowerCase (text_or_empty (field claims ''tid'')) in
      fails (\<not> TENANT_ID_PATTERN tid) ''issuer''
     (fails (field claims ''iss'' \<noteq> JStr (''https://login.microsoftonline.com/'' @ tid @ ''/v2.0'')) ''issuer''
     (fails (tid \<notin> set (ex_microsoftTenants expected)) ''directory''
     (fails (\<not> EMAIL_PATTERN (microsoft_email claims)) ''no_email''
       (Inr \<lparr>si_provider = Microsoft, si_email = microsoft_email claims, si_subject = sub, si_directory = tid\<rparr>)))))"

text \<open>What the claims of a token whose signature holds must say.\<close>

definition check_claims :: "token_crypto \<Rightarrow> expectations \<Rightarrow> json \<Rightarrow> int \<Rightarrow> sso_failure + sso_identity" where
  "check_claims w expected claims at =
     (let auds = audiences (field claims ''aud'') in
      fails (JStr (ex_clientId expected) \<notin> set auds) ''audience''
     (fails (length auds > 1 \<and> field claims ''azp'' \<noteq> JStr (ex_clientId expected)) ''audience''
     (fails (bad_or_past w (field claims ''exp'') at) ''expired''
     (fails (bad_or_future w (field claims ''iat'') at) ''issued_later''
     (fails (field claims ''nbf'' \<noteq> JUndefined \<and> bad_or_future w (field claims ''nbf'') at) ''not_yet_valid''
     (case field claims ''nonce'' of
        JStr nonce \<Rightarrow>
          fails (\<not> timingSafeEqual nonce (ex_nonce expected)) ''nonce''
          (case field claims ''sub'' of
             JStr sub \<Rightarrow>
               fails (sub = []) ''malformed''
               (case ex_provider expected of
                  Google \<Rightarrow> google_identity expected claims sub
                | Microsoft \<Rightarrow> microsoft_identity expected claims sub)
           | _ \<Rightarrow> Inl (Sso_error ''malformed''))
      | _ \<Rightarrow> Inl (Sso_error ''nonce'')))))))"

text \<open>\<open>resolve\<close> is the lookup of a signing key; its error is thrown on.\<close>

definition verifyIdToken ::
  "token_crypto \<Rightarrow> string \<Rightarrow> expectations \<Rightarrow> (string \<Rightarrow> sso_failure + json option) \<Rightarrow> int \<Rightarrow> sso_failure + sso_identity" where
  "verifyIdToken w idToken expected resolve at =
     (if length idToken > MAX_ID_TOKEN_LENGTH then Inl (Sso_error ''malformed'')
      else case split_on CHR ''.'' idToken of
        [h, c, s] \<Rightarrow>
          (case decodeJson w h of
             None \<Rightarrow> Inl (Sso_error ''malformed'')
           | Some header \<Rightarrow>
               fails (field header ''alg'' \<noteq> JStr ''RS256'') ''algorithm''
               (case field header ''kid'' of
                  JStr kid \<Rightarrow>
                    if kid = [] \<or> length kid > 256 then Inl (Sso_error ''unknown_key'')
                    else (case resolve kid of
                       Inl e \<Rightarrow> Inl e
                     | Inr jwk \<Rightarrow>
                         (case rsa_key w jwk of
                            None \<Rightarrow> Inl (Sso_error ''unknown_key'')
                          | Some (n, e) \<Rightarrow>
                              (case token_bytes s of
                                 Inl failure \<Rightarrow> Inl failure
                               | Inr signature \<Rightarrow>
                                   fails (\<not> tc_verify w n e signature (text_bytes (h @ ''.'' @ c))) ''signature''
                                   (case decodeJson w c of
                                      None \<Rightarrow> Inl (Sso_error ''malformed'')
                                    | Some claims \<Rightarrow> check_claims w expected claims at))))
                | _ \<Rightarrow> Inl (Sso_error ''unknown_key'')))
      | _ \<Rightarrow> Inl (Sso_error ''malformed''))"

subsection \<open>The providers' signing keys\<close>

definition JWKS_TTL_MS :: int where "JWKS_TTL_MS = 60 * 60 * 1000"

definition JWKS_REFETCH_MS :: int where "JWKS_REFETCH_MS = 60 * 1000"

type_synonym jwks_cache = "sso_provider \<rightharpoonup> json list \<times> int"

definition forgetSigningKeys :: "jwks_cache \<Rightarrow> jwks_cache" where
  "forgetSigningKeys cache = Map.empty"

definition find_key :: "string \<Rightarrow> json list \<Rightarrow> json option" where
  "find_key kid keys = find (\<lambda>k. field k ''kid'' = JStr kid) keys"

text \<open>An answer of the key endpoint: whether the status is a success and the body, \<open>None\<close> where it is not JSON.\<close>

type_synonym key_answer = "(bool \<times> json option) option"

definition answered_keys :: "key_answer \<Rightarrow> json list option" where
  "answered_keys answer =
     (case answer of
        Some (True, Some body) \<Rightarrow> (case field body ''keys'' of JArr ks \<Rightarrow> Some (filter is_object ks) | _ \<Rightarrow> None)
      | _ \<Rightarrow> None)"

text \<open>
  The endpoint is asked unless the cached set is used; \<open>answer\<close> is what it then says.
\<close>

definition uses_cache :: "jwks_cache \<Rightarrow> sso_provider \<Rightarrow> string \<Rightarrow> int \<Rightarrow> bool" where
  "uses_cache cache p kid now =
     (case cache p of
        None \<Rightarrow> False
      | Some (keys, fetchedAt) \<Rightarrow> now - fetchedAt < JWKS_TTL_MS \<and> (find_key kid keys \<noteq> None \<or> now - fetchedAt < JWKS_REFETCH_MS))"

definition providerSigningKey ::
  "jwks_cache \<Rightarrow> sso_provider \<Rightarrow> string \<Rightarrow> key_answer \<Rightarrow> int \<Rightarrow> (sso_failure + json option) \<times> jwks_cache" where
  "providerSigningKey cache p kid answer now =
     (if uses_cache cache p kid now then (Inr (find_key kid (fst (the (cache p)))), cache)
      else case answered_keys answer of
        Some keys \<Rightarrow> (Inr (find_key kid keys), cache(p \<mapsto> (keys, now)))
      | None \<Rightarrow>
          (case cache p of
             Some (keys, _) \<Rightarrow> (Inr (find_key kid keys), cache)
           | None \<Rightarrow> (Inl (Sso_error ''keys_unavailable''), cache)))"

subsection \<open>What an accepted ID token proves\<close>

lemma rsa_key_Some: "rsa_key w jwk = Some (n, e) \<Longrightarrow>
    \<exists>k. jwk = Some k \<and> field k ''kty'' = JStr ''RSA'' \<and> field k ''n'' = JStr n \<and> field k ''e'' = JStr e \<and> tc_import w n e"
  by (auto simp: rsa_key_def split: option.splits json.splits if_splits)

lemma google_identity_Inr:
  "google_identity expected claims sub = Inr i \<Longrightarrow>
     si_provider i = Google \<and> si_subject i = sub \<and> EMAIL_PATTERN (si_email i) \<and> si_directory i \<in> set (ex_googleDomains expected)
     \<and> si_directory i = toLowerCase (text_or_empty (field claims ''hd''))
     \<and> si_email i = toLowerCase (trim (text_or_empty (field claims ''email'')))
     \<and> (field claims ''iss'' = JStr ''https://accounts.google.com'' \<or> field claims ''iss'' = JStr ''accounts.google.com'')
     \<and> (field claims ''email_verified'' = JBool True \<or> field claims ''email_verified'' = JStr ''true'')"
  by (auto simp: google_identity_def Let_def split: if_splits)

lemma microsoft_identity_Inr:
  "microsoft_identity expected claims sub = Inr i \<Longrightarrow>
     si_provider i = Microsoft \<and> si_subject i = sub \<and> EMAIL_PATTERN (si_email i) \<and> si_directory i \<in> set (ex_microsoftTenants expected)
     \<and> si_email i = microsoft_email claims
     \<and> field claims ''iss'' = JStr (''https://login.microsoftonline.com/'' @ si_directory i @ ''/v2.0'')"
  by (auto simp: microsoft_identity_def Let_def split: if_splits)

text \<open>What the claims say of an identity that is let through.\<close>

definition vouched :: "expectations \<Rightarrow> json \<Rightarrow> sso_identity \<Rightarrow> bool" where
  "vouched expected claims i =
     (case ex_provider expected of
        Google \<Rightarrow> si_directory i \<in> set (ex_googleDomains expected) \<and> si_directory i = toLowerCase (text_or_empty (field claims ''hd''))
          \<and> si_email i = toLowerCase (trim (text_or_empty (field claims ''email'')))
          \<and> (field claims ''iss'' = JStr ''https://accounts.google.com'' \<or> field claims ''iss'' = JStr ''accounts.google.com'')
          \<and> (field claims ''email_verified'' = JBool True \<or> field claims ''email_verified'' = JStr ''true'')
      | Microsoft \<Rightarrow> si_directory i \<in> set (ex_microsoftTenants expected) \<and> si_email i = microsoft_email claims
          \<and> field claims ''iss'' = JStr (''https://login.microsoftonline.com/'' @ si_directory i @ ''/v2.0''))"

lemma check_claims_cases:
  assumes "check_claims w expected claims at = Inr i"
  shows "JStr (ex_clientId expected) \<in> set (audiences (field claims ''aud''))" "field claims ''nonce'' = JStr (ex_nonce expected)"
    "\<not> bad_or_past w (field claims ''exp'') at" "\<not> bad_or_future w (field claims ''iat'') at"
    "length (audiences (field claims ''aud'')) > 1 \<longrightarrow> field claims ''azp'' = JStr (ex_clientId expected)"
    "\<exists>sub. field claims ''sub'' = JStr sub \<and> (case ex_provider expected of
       Google \<Rightarrow> google_identity expected claims sub | Microsoft \<Rightarrow> microsoft_identity expected claims sub) = Inr i"
  using assms by (auto simp: check_claims_def Let_def timingSafeEqual_iff split: if_splits json.splits)

lemma check_claims_vouched:
  assumes "check_claims w expected claims at = Inr i"
  shows "si_provider i = ex_provider expected \<and> EMAIL_PATTERN (si_email i) \<and> vouched expected claims i"
proof -
  obtain sub where "(case ex_provider expected of
      Google \<Rightarrow> google_identity expected claims sub | Microsoft \<Rightarrow> microsoft_identity expected claims sub) = Inr i"
    using check_claims_cases(6) [OF assms] by auto
  then show ?thesis
    using google_identity_Inr [of expected claims sub i] microsoft_identity_Inr [of expected claims sub i]
    by (cases "ex_provider expected") (auto simp: vouched_def)
qed


subsection \<open>How often the signing keys are read\<close>

record key_lookup =
  kl_kid :: string
  kl_answer :: key_answer
  kl_now :: int

text \<open>The times of a run of lookups at which the endpoint is asked, and those at which it also answers with keys.\<close>

fun asked :: "sso_provider \<Rightarrow> key_lookup list \<Rightarrow> jwks_cache \<Rightarrow> int list" where
  "asked p [] cache = []"
| "asked p (l # ls) cache =
     (if uses_cache cache p (kl_kid l) (kl_now l) then [] else [kl_now l])
     @ asked p ls (snd (providerSigningKey cache p (kl_kid l) (kl_answer l) (kl_now l)))"

fun read_at :: "sso_provider \<Rightarrow> key_lookup list \<Rightarrow> jwks_cache \<Rightarrow> int list" where
  "read_at p [] cache = []"
| "read_at p (l # ls) cache =
     (if \<not> uses_cache cache p (kl_kid l) (kl_now l) \<and> answered_keys (kl_answer l) \<noteq> None then [kl_now l] else [])
     @ read_at p ls (snd (providerSigningKey cache p (kl_kid l) (kl_answer l) (kl_now l)))"

definition read_before :: "jwks_cache \<Rightarrow> sso_provider \<Rightarrow> int \<Rightarrow> bool" where
  "read_before cache p t = (\<forall>keys at. cache p = Some (keys, at) \<longrightarrow> at \<le> t)"

lemma lookup_cache:
  "snd (providerSigningKey cache p kid answer now) =
     (case answered_keys answer of Some keys \<Rightarrow> if uses_cache cache p kid now then cache else cache(p \<mapsto> (keys, now)) | None \<Rightarrow> cache)"
  by (auto simp: providerSigningKey_def split: option.splits)

lemma no_refetch: "\<not> uses_cache cache p kid now \<Longrightarrow> cache p = Some (keys, at) \<Longrightarrow> at + 60000 \<le> now"
  by (auto simp: uses_cache_def JWKS_TTL_MS_def JWKS_REFETCH_MS_def)

lemma read_at_after:
  "cache p = Some (keys, at) \<Longrightarrow> t \<in> set (read_at p ls cache) \<Longrightarrow> sorted (map kl_now ls) \<Longrightarrow> \<forall>l\<in>set ls. at \<le> kl_now l \<Longrightarrow> at + 60000 \<le> t"
proof (induction ls arbitrary: cache keys at)
  case (Cons l ls)
  show ?case
  proof (cases "\<not> uses_cache cache p (kl_kid l) (kl_now l) \<and> answered_keys (kl_answer l) \<noteq> None")
    case True
    then obtain ks where ks: "answered_keys (kl_answer l) = Some ks" by auto
    have gap: "at + 60000 \<le> kl_now l" using True no_refetch Cons.prems(1) by blast
    from True ks Cons.prems(2) consider "t = kl_now l" | "t \<in> set (read_at p ls (cache(p \<mapsto> (ks, kl_now l))))"
      by (auto simp: lookup_cache)
    then show ?thesis
    proof cases
      case 2
      have "kl_now l + 60000 \<le> t" using Cons.prems(3) by (intro Cons.IH [OF _ 2]) auto
      then show ?thesis using gap by simp
    qed (use gap in simp)
  next
    case False
    then have "snd (providerSigningKey cache p (kl_kid l) (kl_answer l) (kl_now l)) = cache"
      by (auto simp: lookup_cache split: option.splits)
    then show ?thesis using False Cons.prems by (auto intro: Cons.IH [of cache keys at])
  qed
qed simp

text \<open>
  While the clock does not run backwards, two reads of one provider's signing keys that succeed are
  at least a minute apart, whatever key ids the tokens name.
\<close>

theorem key_reads_spaced:
  assumes "sorted (map kl_now ls)"
  shows "sorted_wrt (\<lambda>s t. s + 60000 \<le> t) (read_at p ls cache)"
  using assms
proof (induction ls arbitrary: cache)
  case (Cons l ls)
  show ?case
  proof (cases "\<not> uses_cache cache p (kl_kid l) (kl_now l) \<and> answered_keys (kl_answer l) \<noteq> None")
    case True
    then obtain ks where ks: "answered_keys (kl_answer l) = Some ks" by auto
    have "\<forall>t\<in>set (read_at p ls (cache(p \<mapsto> (ks, kl_now l)))). kl_now l + 60000 \<le> t"
      using Cons.prems by (intro ballI read_at_after [where cache = "cache(p \<mapsto> (ks, kl_now l))" and keys = ks]) auto
    then show ?thesis using True ks Cons by (auto simp: lookup_cache)
  next
    case False
    then show ?thesis using Cons by auto
  qed
qed simp

text \<open>
  C40. The limit counts only reads that succeed: while the key endpoint answers with an error, every lookup
  of an unknown key, once the cached set is a minute old, asks it again, so a stream of tokens with made-up
  key ids is a stream of requests to the provider.
\<close>

theorem failed_reads_uncounted:
  assumes "cache p = Some (keys, at)"
    and "\<And>l. l \<in> set ls \<Longrightarrow> find_key (kl_kid l) keys = None \<and> answered_keys (kl_answer l) = None \<and> at + 60000 \<le> kl_now l"
  shows "asked p ls cache = map kl_now ls"
  using assms(2)
proof (induction ls)
  case (Cons l ls)
  have "\<not> uses_cache cache p (kl_kid l) (kl_now l)" "answered_keys (kl_answer l) = None"
    using Cons.prems [of l] assms(1) by (simp_all add: uses_cache_def JWKS_REFETCH_MS_def)
  then show ?case using Cons by (simp add: lookup_cache)
qed simp

subsection \<open>Settings are told apart by their description\<close>

text \<open>Settings as the route accepts them; \<open>NO_SETTINGS\<close> is one of them.\<close>

definition settings_fit :: "sso_settings \<Rightarrow> bool" where
  "settings_fit s =
     (list_all (\<lambda>d. domain_problem d = None) (so_googleDomains s) \<and> list_all (\<lambda>t. tenant_id_problem t = None) (so_microsoftTenants s)
      \<and> distinct (so_googleDomains s) \<and> distinct (so_microsoftTenants s)
      \<and> length (so_googleDomains s) \<le> 20 \<and> length (so_microsoftTenants s) \<le> 20
      \<and> (so_googleEnabled s \<longrightarrow> so_googleDomains s \<noteq> []) \<and> (so_microsoftEnabled s \<longrightarrow> so_microsoftTenants s \<noteq> [])
      \<and> (so_requireSso s \<longrightarrow> so_googleEnabled s \<or> so_microsoftEnabled s))"

lemma no_settings_fit: "settings_fit NO_SETTINGS"
  by (simp add: settings_fit_def NO_SETTINGS_def)

lemma clean_items_fit:
  "clean_items problem f xs out = Inr ys \<Longrightarrow> list_all (\<lambda>d. problem d = None) out \<Longrightarrow> distinct out \<Longrightarrow>
     list_all (\<lambda>d. problem d = None) ys \<and> distinct ys"
  by (induction problem f xs out rule: clean_items.induct) (auto simp: Let_def split: if_splits option.splits)

lemma cleanList_fit:
  "cleanList v f problem = Inr ys \<Longrightarrow> list_all (\<lambda>d. problem d = None) ys \<and> distinct ys \<and> length ys \<le> 20"
  using clean_items_fit [of problem f _ "[]" ys]
  by (auto simp: cleanList_def MAX_ALLOWED_ENTRIES_def split: json.splits sum.splits if_splits)

lemma parse_fit: "parseSsoSettings body = Inr s \<Longrightarrow> settings_fit s"
  by (auto simp: parseSsoSettings_def settings_fit_def Let_def dest!: cleanList_fit split: if_splits option.splits sum.splits)

lemma split_join: "ws \<noteq> [] \<Longrightarrow> \<forall>w\<in>set ws. c \<notin> set w \<Longrightarrow> split_on c (join [c] ws) = ws"
  by (induction "[c]" ws rule: join.induct) (simp_all add: split_on_no_sep split_on_append)

text \<open>Entries are words: no comma, no space, not the dash that stands for an empty list.\<close>

definition entry :: "string \<Rightarrow> bool" where
  "entry w = (CHR '','' \<notin> set w \<and> CHR '' '' \<notin> set w \<and> w \<noteq> [] \<and> w \<noteq> ''-'')"

lemma join_nonempty: "xs \<noteq> [] \<Longrightarrow> list_all entry xs \<Longrightarrow> join '','' xs \<noteq> []"
  by (induction "'',''" xs rule: join.induct) (auto simp: entry_def)

lemma split_chars: "x \<in> set w \<Longrightarrow> x = c \<or> (\<exists>p\<in>set (split_on c w). x \<in> set p)"
proof (induction w)
  case (Cons y w)
  obtain p ps where "split_on c w = p # ps" by (cases "split_on c w") auto
  with Cons show ?case by auto
qed simp

lemma slug_no_separator: "\<not> is_slug_char CHR '',''" "\<not> is_slug_char CHR '' ''"
  by (simp_all add: is_slug_char_def is_lower_def is_digit_def)

lemma domain_entry:
  assumes "domain_problem d = None"
  shows "entry d"
proof -
  let ?ls = "split_on CHR ''.'' d"
  have ok: "list_all is_label (butlast ?ls)" "list_all is_lower (last ?ls)" "2 \<le> length ?ls"
    using assms by (auto simp: domain_problem_def DOMAIN_PATTERN_def BLOCKLIST_DOMAIN_PATTERN_def Let_def split: if_splits)
  have "is_slug_char c" if "p \<in> set ?ls" "c \<in> set p" for p c
  proof -
    have "p \<in> set (butlast ?ls) \<or> p = last ?ls" using that(1) by (cases ?ls rule: rev_cases) auto
    then consider "is_label p" | "p = last ?ls" using ok(1) by (auto simp: list_all_iff)
    then show ?thesis
    proof cases
      case 1
      then show ?thesis using that(2) by (simp add: is_label_def list_all_iff)
    next
      case 2
      then show ?thesis using that(2) ok(2) by (simp add: is_slug_char_def list_all_iff)
    qed
  qed
  then have "c = CHR ''.'' \<or> is_slug_char c" if "c \<in> set d" for c using split_chars [OF that, of "CHR ''.''"] by blast
  from this [of "CHR '',''"] this [of "CHR '' ''"] have "CHR '','' \<notin> set d" "CHR '' '' \<notin> set d" using slug_no_separator by auto
  moreover have "d \<noteq> []" "d \<noteq> ''-''" using ok(3) by auto
  ultimately show ?thesis by (simp add: entry_def)
qed

lemma tenant_entry:
  assumes "tenant_id_problem t = None"
  shows "entry t"
proof -
  let ?ps = "split_on CHR ''-'' t"
  have ok: "map length ?ps = [8, 4, 4, 4, 12]" "list_all (list_all is_lower_hex) ?ps"
    using assms by (auto simp: tenant_id_problem_def TENANT_ID_PATTERN_def Let_def split: if_splits)
  have "c = CHR ''-'' \<or> is_lower_hex c" if "c \<in> set t" for c using ok(2) split_chars [OF that, of "CHR ''-''"] by (auto simp: list_all_iff)
  from this [of "CHR '',''"] this [of "CHR '' ''"] have "CHR '','' \<notin> set t" "CHR '' '' \<notin> set t"
    by (auto simp: is_lower_hex_def is_digit_def)
  moreover have "t \<noteq> []" "t \<noteq> ''-''" using ok(1) by auto
  ultimately show ?thesis by (simp add: entry_def)
qed

lemma fit_entries: "settings_fit s \<Longrightarrow> list_all entry (so_googleDomains s)" "settings_fit s \<Longrightarrow> list_all entry (so_microsoftTenants s)"
  by (auto simp: settings_fit_def list_all_iff domain_entry tenant_entry)

lemma list_or_dash_inj:
  assumes "list_or_dash xs = list_or_dash ys" "list_all entry xs" "list_all entry ys"
  shows "xs = ys"
proof -
  have split: "split_on CHR '','' (join '','' zs) = zs" if "list_all entry zs" "zs \<noteq> []" for zs
    using that by (intro split_join) (auto simp: list_all_iff entry_def)
  have dash: "join '','' zs \<noteq> ''-''" if "list_all entry zs" for zs
    using split [OF that] that by (cases "zs = []") (auto simp: entry_def)
  have shown: "list_or_dash zs = (if zs = [] then ''-'' else join '','' zs)" if "list_all entry zs" for zs
    using join_nonempty that by (auto simp: list_or_dash_def Let_def)
  show ?thesis
  proof (cases "xs = [] \<or> ys = []")
    case True
    then show ?thesis using assms shown dash by metis
  next
    case False
    then have "join '','' xs = join '','' ys" using assms shown by simp
    then show ?thesis using split [OF assms(2)] split [OF assms(3)] False by metis
  qed
qed

lemma list_or_dash_spaceless: "list_all entry xs \<Longrightarrow> CHR '' '' \<notin> set (list_or_dash xs)"
proof -
  have "CHR '' '' \<notin> set (join '','' xs)" if "list_all entry xs"
    using that by (induction "'',''" xs rule: join.induct) (auto simp: entry_def)
  then show "list_all entry xs \<Longrightarrow> CHR '' '' \<notin> set (list_or_dash xs)" by (auto simp: list_or_dash_def Let_def)
qed

lemma describe_inj:
  assumes "describeSettings s = describeSettings t" "settings_fit s" "settings_fit t"
  shows "s = t"
proof -
  let ?words = "\<lambda>s. [''google='' @ on_off (so_googleEnabled s), ''google_domains='' @ list_or_dash (so_googleDomains s),
      ''microsoft='' @ on_off (so_microsoftEnabled s), ''microsoft_tenants='' @ list_or_dash (so_microsoftTenants s),
      ''require_sso='' @ on_off (so_requireSso s)]"
  have "split_on CHR '' '' (describeSettings s) = ?words s" if "settings_fit s" for s
    unfolding describeSettings_def using fit_entries [OF that] list_or_dash_spaceless by (intro split_join) (auto simp: on_off_def)
  then have "?words s = ?words t" using assms by metis
  then have "on_off (so_googleEnabled s) = on_off (so_googleEnabled t)" "list_or_dash (so_googleDomains s) = list_or_dash (so_googleDomains t)"
    "on_off (so_microsoftEnabled s) = on_off (so_microsoftEnabled t)" "list_or_dash (so_microsoftTenants s) = list_or_dash (so_microsoftTenants t)"
    "on_off (so_requireSso s) = on_off (so_requireSso t)" by simp_all
  moreover have "so_googleDomains s = so_googleDomains t" "so_microsoftTenants s = so_microsoftTenants t"
    using calculation fit_entries assms(2,3) list_or_dash_inj by blast+
  ultimately show ?thesis by (auto simp: on_off_def split: if_splits)
qed

lemma json_texts_back: "json_texts (map JStr xs) = xs"
  by (induction xs) simp_all

lemma upsert_settings:
  "getSsoSettings (tbl_upsert sr_tenant_id (settings_row i s now by) rows) j = (if j = i then s else getSsoSettings rows j)"
  by (simp add: getSsoSettings_def tbl_lookup_upsert settings_row_def stringList_def json_texts_back)

subsection \<open>Concrete cases\<close>

definition demo_header :: json where
  "demo_header = JObj [(''alg'', JStr ''RS256''), (''kid'', JStr ''k1'')]"

definition demo_claims :: "string \<Rightarrow> json" where
  "demo_claims nonce = JObj [(''aud'', JStr ''client''), (''exp'', JInt 2000), (''iat'', JInt 900), (''nonce'', JStr nonce), (''sub'', JStr ''7''),
     (''iss'', JStr ''accounts.google.com''), (''email_verified'', JBool True), (''hd'', JStr ''lab.org''), (''email'', JStr ''a@lab.org'')]"

definition demo_token_crypto :: "string \<Rightarrow> token_crypto" where
  "demo_token_crypto nonce = \<lparr>tc_parse = (\<lambda>bs. Some (if bs = [1] then demo_header else demo_claims nonce)), tc_import = (\<lambda>_ _. True),
     tc_verify = (\<lambda>_ _ signature _. signature = [3]), tc_long_before = (\<lambda>_ _. False), tc_long_after = (\<lambda>_ _. False)\<rparr>"

definition demo_key :: json where
  "demo_key = JObj [(''kid'', JStr ''k1''), (''kty'', JStr ''RSA''), (''n'', JStr ''m''), (''e'', JStr ''AQAB'')]"

definition demo_expected :: "string \<Rightarrow> expectations" where
  "demo_expected nonce = \<lparr>ex_provider = Google, ex_clientId = ''client'', ex_nonce = nonce, ex_googleDomains = [''lab.org''], ex_microsoftTenants = []\<rparr>"

definition demo_id_token :: string where "demo_id_token = ''AQ.Ag.Aw''"

lemma demo_token_parts: "split_on CHR ''.'' demo_id_token = [''AQ'', ''Ag'', ''Aw'']" "token_bytes ''AQ'' = Inr [1]" "token_bytes ''Ag'' = Inr [2]" "token_bytes ''Aw'' = Inr [3]"
  by (simp_all add: demo_id_token_def token_bytes_def b64_value_def is_upper_def is_lower_def is_digit_def)

lemma demo_email: "toLowerCase (trim ''a@lab.org'') = ''a@lab.org''" "EMAIL_PATTERN ''a@lab.org''" "toLowerCase ''lab.org'' = ''lab.org''"
  by code_simp+

lemma demo_verified:
  assumes "resolve ''k1'' = Inr (Some demo_key)"
  shows "verifyIdToken (demo_token_crypto nonce) demo_id_token (demo_expected nonce) resolve 1000
    = Inr \<lparr>si_provider = Google, si_email = ''a@lab.org'', si_subject = ''7'', si_directory = ''lab.org''\<rparr>"
proof -
  have decoded: "decodeJson (demo_token_crypto nonce) ''AQ'' = Some demo_header" "decodeJson (demo_token_crypto nonce) ''Ag'' = Some (demo_claims nonce)"
    by (simp_all add: decodeJson_def demo_token_parts demo_token_crypto_def demo_header_def demo_claims_def)
  have key: "rsa_key (demo_token_crypto nonce) (Some demo_key) = Some (''m'', ''AQAB'')"
    by (simp add: rsa_key_def demo_key_def demo_token_crypto_def)
  have claims: "check_claims (demo_token_crypto nonce) (demo_expected nonce) (demo_claims nonce) 1000
      = Inr \<lparr>si_provider = Google, si_email = ''a@lab.org'', si_subject = ''7'', si_directory = ''lab.org''\<rparr>"
    by (simp add: check_claims_def google_identity_def demo_claims_def demo_expected_def audiences_def CLOCK_SKEW_SECONDS_def timingSafeEqual_iff demo_email Let_def)
  have "field demo_header ''alg'' = JStr ''RS256''" "field demo_header ''kid'' = JStr ''k1''" by (simp_all add: demo_header_def)
  moreover have "tc_verify (demo_token_crypto nonce) n e [3] m" for n e m by (simp add: demo_token_crypto_def)
  moreover have "length demo_id_token \<le> MAX_ID_TOKEN_LENGTH" by (simp add: demo_id_token_def MAX_ID_TOKEN_LENGTH_def)
  ultimately show ?thesis using assms by (simp add: verifyIdToken_def demo_token_parts decoded key claims)
qed


definition demo_lookup :: "key_answer \<Rightarrow> int \<Rightarrow> key_lookup" where
  "demo_lookup answer now = \<lparr>kl_kid = ''forged'', kl_answer = answer, kl_now = now\<rparr>"

definition good_answer :: key_answer where
  "good_answer = Some (True, Some (JObj [(''keys'', JArr [demo_key])]))"

theorem key_reads_spaced_witness:
  "sorted_wrt (\<lambda>s t. s + 60000 \<le> t) (read_at Google (map (demo_lookup good_answer) [0, 1000, 61000, 62000]) Map.empty)
   \<and> read_at Google (map (demo_lookup good_answer) [0, 1000, 61000, 62000]) Map.empty = [0, 61000]"
proof -
  have "sorted (map kl_now (map (demo_lookup good_answer) [0, 1000, 61000, 62000]))" by (simp add: demo_lookup_def)
  moreover have "read_at Google (map (demo_lookup good_answer) [0, 1000, 61000, 62000]) Map.empty = [0, 61000]"
    by (simp add: demo_lookup_def good_answer_def uses_cache_def lookup_cache answered_keys_def find_key_def demo_key_def JWKS_TTL_MS_def JWKS_REFETCH_MS_def)
  ultimately show ?thesis using key_reads_spaced by blast
qed

theorem failed_reads_uncounted_witness:
  "asked Google (map (demo_lookup None) [60000, 60001, 60002]) [Google \<mapsto> ([demo_key], 0)] = [60000, 60001, 60002]"
proof -
  have "asked Google (map (demo_lookup None) [60000, 60001, 60002]) [Google \<mapsto> ([demo_key], 0)] = map kl_now (map (demo_lookup None) [60000, 60001, 60002])"
    by (rule failed_reads_uncounted [of _ _ "[demo_key]" 0]) (auto simp: demo_lookup_def find_key_def demo_key_def answered_keys_def)
  then show ?thesis by (simp add: demo_lookup_def)
qed

end
