(* ===== verification/Two_Factor.thy ===== *)
theory Two_Factor
  imports Session_Handoff
begin

text \<open>
  The second factor: codes and storage of \<open>src/cloudflare-control/src/two_factor.ts\<close>. HMAC-SHA-1,
  HMAC-SHA-256, PBKDF2 and SHA-256 are parameters; random draws are part of a request. A table is the
  list of its rows; a conditional \<open>UPDATE\<close> compares with the row as read before, not as it is now.
\<close>

unbundle bit_operations_syntax

subsection \<open>Base32\<close>

definition BASE32 :: string where
  "BASE32 = ''ABCDEFGHIJKLMNOPQRSTUVWXYZ234567''"

text \<open>\<open>while (bits >= 5)\<close>: the characters put out, and the bits left.\<close>

fun base32_out :: "nat \<Rightarrow> 32 word \<Rightarrow> string \<times> nat" where
  "base32_out bits v =
     (if bits \<ge> 5 then (case base32_out (bits - 5) v of (out, left) \<Rightarrow> (BASE32 ! unat (drop_bit (bits - 5) v AND 31) # out, left))
      else ([], bits))"

declare base32_out.simps [simp del]

fun base32_loop :: "byte list \<Rightarrow> nat \<Rightarrow> 32 word \<Rightarrow> string" where
  "base32_loop [] bits v = (if bits > 0 then [BASE32 ! unat (push_bit (5 - bits) v AND 31)] else [])"
| "base32_loop (b # bs) bits v =
     (let v' = push_bit 8 v OR ucast b in
      case base32_out (bits + 8) v' of (out, left) \<Rightarrow> out @ base32_loop bs left v')"

definition base32Encode :: "byte list \<Rightarrow> string" where
  "base32Encode bytes = base32_loop bytes 0 0"

definition upper_text :: "char \<Rightarrow> string" where
  "upper_text c = (if is_lower c then [char_of (code c - 32)] else if code c = 223 then ''SS'' else [c])"

fun base32_read :: "string \<Rightarrow> nat \<Rightarrow> 32 word \<Rightarrow> byte list option" where
  "base32_read [] bits v = Some []"
| "base32_read (c # cs) bits v =
     (case index_of c BASE32 of
        None \<Rightarrow> None
      | Some i \<Rightarrow>
          let v' = push_bit 5 v OR of_nat i in
          if bits + 5 \<ge> 8 then map_option ((#) (ucast (drop_bit (bits + 5 - 8) v' AND 255))) (base32_read cs (bits + 5 - 8) v')
          else base32_read cs (bits + 5) v')"

text \<open>\<open>None\<close> is the error thrown for a character that is not base32.\<close>

definition base32Decode :: "string \<Rightarrow> byte list option" where
  "base32Decode text =
     base32_read (filter (\<lambda>c. \<not> is_space c \<and> c \<noteq> CHR ''='' \<and> c \<noteq> CHR ''-'') (concat (map upper_text text))) 0 0"

subsection \<open>Codes of the authenticator app\<close>

definition TOTP_STEP_SECONDS :: int where "TOTP_STEP_SECONDS = 30"

text \<open>\<open>hmac1\<close> is HMAC-SHA-1 of a key and a message.\<close>

definition totp_counter :: "int \<Rightarrow> byte list" where
  "totp_counter step = map (\<lambda>i. word_of_int (step div 256 ^ i)) (rev [0..<8])"

definition totp_binary :: "byte list \<Rightarrow> nat" where
  "totp_binary mac =
     (let offset = unat (last mac) mod 16; at = (\<lambda>i. if i < length mac then unat (mac ! i) else 0) in
      at offset mod 128 * 2 ^ 24 + at (offset + 1) * 2 ^ 16 + at (offset + 2) * 2 ^ 8 + at (offset + 3))"

definition totpCode :: "(byte list \<Rightarrow> byte list \<Rightarrow> byte list) \<Rightarrow> byte list \<Rightarrow> int \<Rightarrow> string" where
  "totpCode hmac1 secret step = padStart 6 CHR ''0'' (show_nat (totp_binary (hmac1 secret (totp_counter step)) mod 1000000))"

definition currentTotpStep :: "int \<Rightarrow> int" where
  "currentTotpStep now = now div TOTP_STEP_SECONDS"

definition six_digits :: "string \<Rightarrow> bool" where
  "six_digits s = (length s = 6 \<and> list_all is_digit s)"

text \<open>\<open>Inl\<close> is a stored secret that cannot be read.\<close>

definition matchTotp :: "(byte list \<Rightarrow> byte list \<Rightarrow> byte list) \<Rightarrow> string \<Rightarrow> string \<Rightarrow> int \<Rightarrow> int \<Rightarrow> string + int option" where
  "matchTotp hmac1 secretBase32 totp lastStep now =
     (if \<not> six_digits totp then Inr None
      else case base32Decode secretBase32 of
        None \<Rightarrow> Inl ''Not a base32 secret''
      | Some secret \<Rightarrow>
          let step = currentTotpStep now in
          Inr (find (\<lambda>candidate. lastStep < candidate \<and> timingSafeEqual (totpCode hmac1 secret candidate) totp) [step - 1, step, step + 1]))"

subsection \<open>Rows\<close>

text \<open>\<open>tf_recovery_codes\<close> is the JSON of the column, \<open>None\<close> where it is damaged.\<close>

record account =
  us_id :: string
  us_email :: string
  us_password_hash :: string
  us_salt :: string
  us_role :: user_role
  us_name :: string
  us_two_factor_email :: int

record two_factor_row =
  tf_user_id :: string
  tf_totp_secret :: string
  tf_enabled_at :: "int option"
  tf_last_totp_step :: int
  tf_recovery_codes :: "json option"
  tf_created_at :: int

record challenge_row =
  lc_token_hash :: string
  lc_user_id :: string
  lc_tenant_id :: "string option"
  lc_role :: user_role
  lc_redirect :: string
  lc_attempts :: nat
  lc_email_code_hash :: "string option"
  lc_email_codes_sent :: nat
  lc_email_code_sent_at :: "int option"
  lc_expires_at :: int
  lc_passkey_challenge :: "string option"

record passkey_row =
  pr_id :: string
  pr_user_id :: string
  pr_rp_id :: string
  pr_key :: passkey_key
  pr_sign_count :: nat
  pr_name :: string
  pr_created_at :: int
  pr_last_used_at :: "int option"

record registration_row =
  pg_user_id :: string
  pg_challenge :: string
  pg_rp_id :: string
  pg_expires_at :: int

record browser_row =
  ud_user_id :: string
  ud_token_hash :: string
  ud_trusted_until :: "int option"
  ud_user_agent :: string
  ud_created_at :: int
  ud_last_seen_at :: int

datatype mail = Code_mail string string | Alert_mail string string string

record audit_entry =
  au_tenant :: "string option"
  au_user :: string
  au_action :: string
  au_details :: string

record accounts =
  ac_db :: d1
  ac_users :: "account list"
  ac_two_factor :: "two_factor_row list"
  ac_challenges :: "challenge_row list"
  ac_passkeys :: "passkey_row list"
  ac_registrations :: "registration_row list"
  ac_browsers :: "browser_row list"
  ac_audit :: "audit_entry list"
  ac_outbox :: "mail list"

subsection \<open>Factors of an account\<close>

definition set_at :: "int option \<Rightarrow> bool" where
  "set_at v = (case v of None \<Rightarrow> False | Some n \<Rightarrow> n \<noteq> 0)"

definition findUserById :: "accounts \<Rightarrow> string \<Rightarrow> account option" where
  "findUserById a i = tbl_lookup us_id i (ac_users a)"

definition findUserByEmail :: "accounts \<Rightarrow> string \<Rightarrow> account option" where
  "findUserByEmail a email = tbl_lookup us_email (toLowerCase email) (ac_users a)"

definition findTwoFactor :: "accounts \<Rightarrow> string \<Rightarrow> two_factor_row option" where
  "findTwoFactor a userId = tbl_lookup tf_user_id userId (ac_two_factor a)"

definition hasTwoFactor :: "accounts \<Rightarrow> string \<Rightarrow> bool" where
  "hasTwoFactor a userId = (case findTwoFactor a userId of None \<Rightarrow> False | Some r \<Rightarrow> set_at (tf_enabled_at r))"

definition passkeysFor :: "accounts \<Rightarrow> string \<Rightarrow> string \<Rightarrow> passkey_row list" where
  "passkeysFor a userId rpId = sort_key pr_created_at (filter (\<lambda>p. pr_user_id p = userId \<and> pr_rp_id p = rpId) (ac_passkeys a))"

definition isAdministratorAccount :: "accounts \<Rightarrow> account \<Rightarrow> bool" where
  "isAdministratorAccount a u =
     (us_role u = Super_admin \<or> (\<exists>t\<in>set (tenants (ac_db a)). tn_user_id t = us_id u)
      \<or> (\<exists>s\<in>set (tenant_users (ac_db a)). tu_user_id s = us_id u \<and> tu_role s = ''org_admin''))"

record factor_state =
  fs_app :: "two_factor_row option"
  fs_passkeys :: "passkey_row list"
  fs_email :: bool
  fs_required :: bool

definition factorState :: "accounts \<Rightarrow> account \<Rightarrow> string \<Rightarrow> factor_state" where
  "factorState a u rpId =
     (let required = isAdministratorAccount a u in
      \<lparr>fs_app = (case findTwoFactor a (us_id u) of None \<Rightarrow> None | Some r \<Rightarrow> if set_at (tf_enabled_at r) then Some r else None),
       fs_passkeys = passkeysFor a (us_id u) rpId,
       fs_email = (required \<or> us_two_factor_email u \<noteq> 0),
       fs_required = required\<rparr>)"

definition hasSecondFactor :: "factor_state \<Rightarrow> bool" where
  "hasSecondFactor st = (fs_app st \<noteq> None \<or> fs_passkeys st \<noteq> [] \<or> fs_email st)"

subsection \<open>Recovery codes\<close>

fun texts_of :: "json list \<Rightarrow> string list" where
  "texts_of [] = []"
| "texts_of (JStr s # xs) = s # texts_of xs"
| "texts_of (_ # xs) = texts_of xs"

definition recoveryHashes :: "two_factor_row \<Rightarrow> string list" where
  "recoveryHashes row = (case tf_recovery_codes row of Some (JArr xs) \<Rightarrow> texts_of xs | _ \<Rightarrow> [])"

definition RECOVERY_ALPHABET :: string where
  "RECOVERY_ALPHABET = ''23456789abcdefghjkmnpqrstuvwxyz''"

definition RECOVERY_CODE_COUNT :: nat where "RECOVERY_CODE_COUNT = 10"

text \<open>\<open>draws\<close> are the ten numbers drawn, each below the size of the alphabet.\<close>

definition newRecoveryCode :: "nat list \<Rightarrow> string" where
  "newRecoveryCode draws = (let s = map (\<lambda>d. RECOVERY_ALPHABET ! d) draws in take 5 s @ ''-'' @ drop 5 s)"

definition normalizeRecoveryCode :: "string \<Rightarrow> string" where
  "normalizeRecoveryCode s = filter (\<lambda>c. is_lower c \<or> is_digit c) (toLowerCase s)"

definition recovery_hash :: "(string \<Rightarrow> string) \<Rightarrow> string \<Rightarrow> string" where
  "recovery_hash sha normalized = sha (''recovery:'' @ normalized)"

datatype proof_kind = Totp | Recovery

fun drop_at :: "nat \<Rightarrow> 'a list \<Rightarrow> 'a list" where
  "drop_at n [] = []"
| "drop_at 0 (x # xs) = xs"
| "drop_at (Suc n) (x # xs) = x # drop_at n xs"

text \<open>
  \<open>row\<close> is the account's row as it was read; the mark moves, or the code goes, only where the stored row
  still agrees with it.
\<close>

definition spend_step :: "accounts \<Rightarrow> two_factor_row \<Rightarrow> int \<Rightarrow> proof_kind option \<times> accounts" where
  "spend_step a row step =
     (let hit = (\<lambda>r. tf_user_id r = tf_user_id row \<and> tf_last_totp_step r = tf_last_totp_step row) in
      (if tbl_changes hit (ac_two_factor a) > 0 then Some Totp else None,
       a\<lparr>ac_two_factor := tbl_update hit (\<lambda>r. r\<lparr>tf_last_totp_step := step\<rparr>) (ac_two_factor a)\<rparr>))"

definition spend_recovery :: "accounts \<Rightarrow> two_factor_row \<Rightarrow> string list \<Rightarrow> proof_kind option \<times> accounts" where
  "spend_recovery a row remaining =
     (let hit = (\<lambda>r. tf_user_id r = tf_user_id row \<and> tf_recovery_codes r = tf_recovery_codes row) in
      (if tbl_changes hit (ac_two_factor a) > 0 then Some Recovery else None,
       a\<lparr>ac_two_factor := tbl_update hit (\<lambda>r. r\<lparr>tf_recovery_codes := Some (JArr (map JStr remaining))\<rparr>) (ac_two_factor a)\<rparr>))"

definition checkAccountCode ::
  "(string \<Rightarrow> string) \<Rightarrow> (byte list \<Rightarrow> byte list \<Rightarrow> byte list) \<Rightarrow> accounts \<Rightarrow> two_factor_row \<Rightarrow> string \<Rightarrow> int \<Rightarrow> string + proof_kind option \<times> accounts" where
  "checkAccountCode sha hmac1 a row input now =
     (let typed = filter (\<lambda>c. \<not> is_space c) input in
      if six_digits typed then
        (case matchTotp hmac1 (tf_totp_secret row) typed (tf_last_totp_step row) now of
           Inl e \<Rightarrow> Inl e
         | Inr None \<Rightarrow> Inr (None, a)
         | Inr (Some step) \<Rightarrow> Inr (spend_step a row step))
      else let normalized = normalizeRecoveryCode typed in
        if length normalized \<noteq> 10 then Inr (None, a)
        else (case index_of (recovery_hash sha normalized) (recoveryHashes row) of
                None \<Rightarrow> Inr (None, a)
              | Some i \<Rightarrow> Inr (spend_recovery a row (drop_at i (recoveryHashes row)))))"

subsection \<open>Housekeeping\<close>

definition purgeExpiredLoginChallenges :: "accounts \<Rightarrow> int \<Rightarrow> accounts" where
  "purgeExpiredLoginChallenges a now =
     a\<lparr>ac_challenges := filter (\<lambda>c. \<not> lc_expires_at c < now) (ac_challenges a),
       ac_registrations := filter (\<lambda>r. \<not> pg_expires_at r < now) (ac_registrations a)\<rparr>"

definition untrust :: "string \<Rightarrow> browser_row list \<Rightarrow> browser_row list" where
  "untrust userId = tbl_update (\<lambda>d. ud_user_id d = userId) (\<lambda>d. d\<lparr>ud_trusted_until := None\<rparr>)"

definition revokeTrustedBrowsers :: "accounts \<Rightarrow> string \<Rightarrow> accounts" where
  "revokeTrustedBrowsers a userId = a\<lparr>ac_browsers := untrust userId (ac_browsers a)\<rparr>"

subsection \<open>Base32 is read back\<close>

text \<open>The two loops on plain numbers: the bits that wait are a number below a power of two.\<close>

fun five_out :: "nat \<Rightarrow> nat \<Rightarrow> nat list \<times> nat" where
  "five_out bits x = (if bits \<ge> 5 then (case five_out (bits - 5) x of (out, left) \<Rightarrow> (x div 2 ^ (bits - 5) mod 32 # out, left)) else ([], bits))"

declare five_out.simps [simp del]

fun to_fives :: "nat list \<Rightarrow> nat \<Rightarrow> nat \<Rightarrow> nat list" where
  "to_fives [] bits p = (if bits > 0 then [p * 2 ^ (5 - bits)] else [])"
| "to_fives (b # bs) bits p =
     (let x = p * 256 + b in case five_out (bits + 8) x of (out, left) \<Rightarrow> out @ to_fives bs left (x mod 2 ^ left))"

fun from_fives :: "nat list \<Rightarrow> nat \<Rightarrow> nat \<Rightarrow> nat list" where
  "from_fives [] bits p = []"
| "from_fives (c # cs) bits p =
     (let x = p * 32 + c in
      if bits + 5 \<ge> 8 then x div 2 ^ (bits + 5 - 8) # from_fives cs (bits + 5 - 8) (x mod 2 ^ (bits + 5 - 8)) else from_fives cs (bits + 5) x)"

lemma five_out_small:
  "five_out 8 x = ([x div 8 mod 32], 3)" "five_out 9 x = ([x div 16 mod 32], 4)" "five_out 10 x = ([x div 32 mod 32, x mod 32], 0)"
  "five_out 11 x = ([x div 64 mod 32, x div 2 mod 32], 1)" "five_out 12 x = ([x div 128 mod 32, x div 4 mod 32], 2)"
  by (simp_all add: five_out.simps)

lemma split_at:
  fixes a :: nat
  assumes "a = d * k + r" "r < d"
  shows "a div d = k" "a mod d = r"
  using assms by simp_all

lemma shift_div:
  fixes p :: nat
  assumes "0 < d" "d * e = 256"
  shows "(p * 256 + b) div d = e * p + b div d" "(p * 256 + b) mod d = b mod d"
proof -
  have "p * 256 + b = b + d * (e * p)" using assms(2) by (metis add.commute mult.assoc mult.commute)
  then show "(p * 256 + b) div d = e * p + b div d" "(p * 256 + b) mod d = b mod d"
    using assms(1) by (simp_all only: div_mult_self2 mod_mult_self2 add.commute)
qed

lemma byte_quotient: "b < 256 \<Longrightarrow> d * e = 256 \<Longrightarrow> b div d < (e :: nat)"
  by (simp add: less_mult_imp_div_less mult.commute)

text \<open>What the next byte does to the waiting bits, for each number of them.\<close>

lemma fives_1:
  fixes p b q :: nat
  assumes "p < 2" "b < 256"
  shows "(p * 256 + b) div 16 mod 32 = 16 * p + b div 16" "(q * 32 + (16 * p + b div 16)) div 16 = q * 2 + p"
    "(q * 32 + (16 * p + b div 16)) mod 16 = b div 16" "(p * 256 + b) mod 16 = b mod 16"
proof -
  have h: "b div 16 < 16" by (rule byte_quotient [OF assms(2)]) simp
  show "(p * 256 + b) div 16 mod 32 = 16 * p + b div 16" using shift_div(1) [of 16 16 p b] h assms(1) by simp
  show "(p * 256 + b) mod 16 = b mod 16" by (rule shift_div(2) [of 16 16]) simp_all
  have "q * 32 + (16 * p + b div 16) = 16 * (q * 2 + p) + b div 16" by simp
  from split_at [OF this h] show "(q * 32 + (16 * p + b div 16)) div 16 = q * 2 + p" "(q * 32 + (16 * p + b div 16)) mod 16 = b div 16" .
qed

lemma fives_2:
  fixes p b q :: nat
  assumes "p < 4" "b < 256"
  shows "(p * 256 + b) div 32 mod 32 = 8 * p + b div 32" "(q * 32 + (8 * p + b div 32)) div 8 = q * 4 + p"
    "(q * 32 + (8 * p + b div 32)) mod 8 = b div 32" "(p * 256 + b) mod 32 = b mod 32"
proof -
  have h: "b div 32 < 8" by (rule byte_quotient [OF assms(2)]) simp
  show "(p * 256 + b) div 32 mod 32 = 8 * p + b div 32" using shift_div(1) [of 32 8 p b] h assms(1) by simp
  show "(p * 256 + b) mod 32 = b mod 32" by (rule shift_div(2) [of 32 8]) simp_all
  have "q * 32 + (8 * p + b div 32) = 8 * (q * 4 + p) + b div 32" by simp
  from split_at [OF this h] show "(q * 32 + (8 * p + b div 32)) div 8 = q * 4 + p" "(q * 32 + (8 * p + b div 32)) mod 8 = b div 32" .
qed

lemma fives_3:
  fixes p b q :: nat
  assumes "p < 8" "b < 256"
  shows "(p * 256 + b) div 64 mod 32 = 4 * p + b div 64" "(q * 32 + (4 * p + b div 64)) div 4 = q * 8 + p"
    "(q * 32 + (4 * p + b div 64)) mod 4 = b div 64" "b div 64 * 32 + (p * 256 + b) div 2 mod 32 = b div 2" "(p * 256 + b) mod 2 = b mod 2"
proof -
  have h: "b div 64 < 4" by (rule byte_quotient [OF assms(2)]) simp
  show "(p * 256 + b) div 64 mod 32 = 4 * p + b div 64" using shift_div(1) [of 64 4 p b] h assms(1) by simp
  show "(p * 256 + b) mod 2 = b mod 2" by (rule shift_div(2) [of 2 128]) simp_all
  have "q * 32 + (4 * p + b div 64) = 4 * (q * 8 + p) + b div 64" by simp
  from split_at [OF this h] show "(q * 32 + (4 * p + b div 64)) div 4 = q * 8 + p" "(q * 32 + (4 * p + b div 64)) mod 4 = b div 64" .
  have "(p * 256 + b) div 2 mod 32 = b div 2 mod 32"
    unfolding shift_div(1) [of 2 128 p b, simplified] using mod_mult_self2 [of "b div 2" 32 "4 * p"] by (simp add: add.commute)
  then show "b div 64 * 32 + (p * 256 + b) div 2 mod 32 = b div 2"
    using div_mult_mod_eq [of "b div 2" 32] div_mult2_eq [of b 2 32] by simp
qed

lemma fives_4:
  fixes p b q :: nat
  assumes "p < 16" "b < 256"
  shows "(p * 256 + b) div 128 mod 32 = 2 * p + b div 128" "(q * 32 + (2 * p + b div 128)) div 2 = q * 16 + p"
    "(q * 32 + (2 * p + b div 128)) mod 2 = b div 128" "b div 128 * 32 + (p * 256 + b) div 4 mod 32 = b div 4" "(p * 256 + b) mod 4 = b mod 4"
proof -
  have h: "b div 128 < 2" by (rule byte_quotient [OF assms(2)]) simp
  show "(p * 256 + b) div 128 mod 32 = 2 * p + b div 128" using shift_div(1) [of 128 2 p b] h assms(1) by simp
  show "(p * 256 + b) mod 4 = b mod 4" by (rule shift_div(2) [of 4 64]) simp_all
  have "q * 32 + (2 * p + b div 128) = 2 * (q * 16 + p) + b div 128" by simp
  from split_at [OF this h] show "(q * 32 + (2 * p + b div 128)) div 2 = q * 16 + p" "(q * 32 + (2 * p + b div 128)) mod 2 = b div 128" .
  have "(p * 256 + b) div 4 mod 32 = b div 4 mod 32"
    unfolding shift_div(1) [of 4 64 p b, simplified] using mod_mult_self2 [of "b div 4" 32 "2 * p"] by (simp add: add.commute)
  then show "b div 128 * 32 + (p * 256 + b) div 4 mod 32 = b div 4"
    using div_mult_mod_eq [of "b div 4" 32] div_mult2_eq [of b 4 32] by simp
qed

lemma fives_back:
  assumes "\<forall>b\<in>set bs. b < 256"
  shows "from_fives (to_fives bs 0 0) 0 0 = bs"
    "p < 2 \<Longrightarrow> from_fives (to_fives bs 1 p) 7 q = (q * 2 + p) # bs"
    "p < 4 \<Longrightarrow> from_fives (to_fives bs 2 p) 6 q = (q * 4 + p) # bs"
    "p < 8 \<Longrightarrow> from_fives (to_fives bs 3 p) 5 q = (q * 8 + p) # bs"
    "p < 16 \<Longrightarrow> from_fives (to_fives bs 4 p) 4 q = (q * 16 + p) # bs"
  using assms
proof (induction bs arbitrary: p q)
  case (Cons b bs)
  {
    case 1
    have "from_fives (to_fives bs 3 (b mod 8)) 5 (b div 8) = (b div 8 * 8 + b mod 8) # bs" using Cons.IH(4) [of "b mod 8"] 1 by simp
    moreover have "b div 8 < 32" by (rule byte_quotient) (use 1 in simp_all)
    ultimately show ?case using 1 by (simp add: five_out_small Let_def)
  next
    case 2
    have "from_fives (to_fives bs 4 (b mod 16)) 4 (b div 16) = (b div 16 * 16 + b mod 16) # bs" using Cons.IH(5) [of "b mod 16"] 2 by simp
    then show ?case using 2 by (simp add: five_out_small Let_def fives_1)
  next
    case 3
    then show ?case using Cons.IH(1) by (simp add: five_out_small Let_def fives_2)
  next
    case 4
    have "from_fives (to_fives bs 1 (b mod 2)) 7 (b div 2) = (b div 2 * 2 + b mod 2) # bs" using Cons.IH(2) [of "b mod 2"] 4 by simp
    then show ?case using 4 by (simp add: five_out_small Let_def fives_3)
  next
    case 5
    have "from_fives (to_fives bs 2 (b mod 4)) 6 (b div 4) = (b div 4 * 4 + b mod 4) # bs" using Cons.IH(3) [of "b mod 4"] 5 by simp
    then show ?case using 5 by (simp add: five_out_small Let_def fives_4)
  }
qed (simp_all add: Let_def)

text \<open>The loops of the program on 32-bit words are these: only the waiting bits of the word are ever read.\<close>

lemma unat_bits: "unat (take_bit l (drop_bit m (v :: 32 word))) = unat v div 2 ^ m mod 2 ^ l"
proof -
  have "unat v < 2 ^ 32" using unsigned_less [of v] by simp
  then have "unat (take_bit l (drop_bit m v)) = take_bit l (drop_bit m (unat v))"
    by (simp add: unsigned_take_bit_eq unsigned_drop_bit_eq take_bit_nat_eq_self)
  then show ?thesis by (simp add: take_bit_eq_mod drop_bit_eq_div)
qed

lemma unat_five: "unat (drop_bit m (v :: 32 word) AND 31) = unat v div 2 ^ m mod 32"
  "unat (drop_bit m (v :: 32 word) AND 255) = unat v div 2 ^ m mod 256"
proof -
  have "drop_bit m v AND 31 = take_bit 5 (drop_bit m v)" "drop_bit m v AND 255 = take_bit 8 (drop_bit m v)"
    by (simp_all add: take_bit_eq_mask mask_eq_exp_minus_1)
  then show "unat (drop_bit m v AND 31) = unat v div 2 ^ m mod 32" "unat (drop_bit m v AND 255) = unat v div 2 ^ m mod 256"
    using unat_bits [of 5 m v] unat_bits [of 8 m v] by (simp_all only: power_numeral_even power_numeral_odd) simp_all
qed

lemma mod_cancel: "n \<le> 32 \<Longrightarrow> x mod 4294967296 mod 2 ^ n = x mod (2 ^ n :: nat)"
proof -
  assume "n \<le> 32"
  then have "(2 ^ n :: nat) dvd 2 ^ 32" by (rule le_imp_power_dvd)
  then have "(2 ^ n :: nat) dvd 4294967296" by simp
  then show ?thesis by (rule mod_mod_cancel)
qed

lemma small_no_bit: "c < 2 ^ k \<Longrightarrow> k \<le> n \<Longrightarrow> \<not> bit (c :: nat) n"
proof -
  assume "c < 2 ^ k" "k \<le> n"
  then have "c < 2 ^ n" using power_increasing [of k n "2 :: nat"] by linarith
  then show ?thesis by (simp add: bit_iff_odd)
qed

lemma unat_push: "c < 2 ^ k \<Longrightarrow> unat (push_bit k (v :: 32 word) OR of_nat c) = (unat v * 2 ^ k + c) mod 4294967296"
proof -
  assume c: "c < 2 ^ k"
  have "push_bit k v AND of_nat c = 0"
  proof (rule bit_word_eqI)
    fix n assume "n < LENGTH(32)"
    show "bit (push_bit k v AND of_nat c) n = bit (0 :: 32 word) n"
      using small_no_bit [OF c, of n] by (auto simp: bit_and_iff bit_push_bit_iff bit_of_nat_iff)
  qed
  then have "push_bit k v OR of_nat c = push_bit k v + of_nat c" by (rule disjunctive_add_eq_or [symmetric])
  also have "\<dots> = of_nat (unat v * 2 ^ k + c)" by (simp add: push_bit_eq_mult)
  finally show ?thesis by (simp only: unat_of_nat) simp
qed

lemma out_words: "base32_out bits v = (map ((!) BASE32) (fst (five_out bits (unat v))), snd (five_out bits (unat v)))"
proof (induction bits rule: less_induct)
  case (less bits)
  show ?case
  proof (cases "bits \<ge> 5")
    case True
    then have "base32_out (bits - 5) v = (map ((!) BASE32) (fst (five_out (bits - 5) (unat v))), snd (five_out (bits - 5) (unat v)))"
      using less [of "bits - 5"] by simp
    then show ?thesis using True by (simp add: base32_out.simps [of bits] five_out.simps [of bits] unat_five case_prod_beta)
  qed (simp add: base32_out.simps [of bits] five_out.simps [of bits])
qed

lemma low_bits: "m + l \<le> n \<Longrightarrow> x mod 2 ^ n div 2 ^ m mod 2 ^ l = x div 2 ^ m mod (2 ^ l :: nat)"
  by (simp flip: take_bit_eq_mod drop_bit_eq_div add: drop_bit_take_bit)

lemma five_out_low: "bits \<le> n \<Longrightarrow> five_out bits (x mod 2 ^ n) = five_out bits x"
proof (induction bits rule: less_induct)
  case (less bits)
  show ?case
  proof (cases "bits \<ge> 5")
    case True
    then have "five_out (bits - 5) (x mod 2 ^ n) = five_out (bits - 5) x" using less by simp
    then show ?thesis using True low_bits [of "bits - 5" 5 n x] less.prems by (simp add: five_out.simps [of bits])
  qed (simp add: five_out.simps [of bits])
qed

lemma five_out_left: "snd (five_out bits x) \<le> 4 \<and> snd (five_out bits x) \<le> bits"
proof (induction bits rule: less_induct)
  case (less bits)
  show ?case
  proof (cases "bits \<ge> 5")
    case True
    then show ?thesis using less [of "bits - 5"] by (simp add: five_out.simps [of bits] case_prod_beta)
  qed (simp add: five_out.simps [of bits])
qed

lemma join_low: "b < 2 ^ l \<Longrightarrow> (x * 2 ^ l + b) mod 2 ^ (k + l) = x mod 2 ^ k * 2 ^ l + (b :: nat)"
proof -
  assume b: "b < 2 ^ l"
  have "x * 2 ^ l + b = (x mod 2 ^ k * 2 ^ l + b) + 2 ^ (k + l) * (x div 2 ^ k)"
  proof -
    define q r where "q = x div 2 ^ k" and "r = x mod 2 ^ k"
    have "x = q * 2 ^ k + r" unfolding q_def r_def by (rule div_mult_mod_eq [symmetric])
    then have "x * 2 ^ l = (q * 2 ^ k + r) * 2 ^ l" by (rule arg_cong)
    then show ?thesis unfolding q_def [symmetric] r_def [symmetric] by (simp add: algebra_simps power_add)
  qed
  moreover have "x mod 2 ^ k * 2 ^ l + b < 2 ^ (k + l)"
  proof -
    have "x mod 2 ^ k * 2 ^ l + b < (x mod 2 ^ k + 1) * 2 ^ l" using b by simp
    also have "\<dots> \<le> 2 ^ k * 2 ^ l" by (intro mult_le_mono1) (simp add: Suc_le_eq)
    finally show ?thesis by (simp add: power_add)
  qed
  ultimately show ?thesis by (metis mod_less mod_mult_self2)
qed

lemma pushed_low:
  assumes "c < 2 ^ l" "k + l \<le> 32"
  shows "unat (push_bit l (v :: 32 word) OR of_nat c) mod 2 ^ (k + l) = unat v mod 2 ^ k * 2 ^ l + c"
  using unat_push [OF assms(1), of v] mod_cancel [OF assms(2)] join_low [OF assms(1)] by simp

lemma loop_words:
  "k \<le> 4 \<Longrightarrow> base32_loop bs k v = map ((!) BASE32) (to_fives (map unat bs) k (unat v mod 2 ^ k))"
proof (induction bs arbitrary: k v)
  case Nil
  have "unat (push_bit (5 - k) v AND 31) = unat v mod 2 ^ k * 2 ^ (5 - k)" if "0 < k"
    using unat_five(1) [of 0 "push_bit (5 - k) v"] pushed_low [of 0 "5 - k" k v] Nil that by simp
  then show ?case by simp
next
  case (Cons b bs)
  let ?v = "push_bit 8 v OR ucast b" and ?x = "unat v mod 2 ^ k * 256 + unat b"
  have v: "?v = push_bit 8 v OR of_nat (unat b)" by simp
  have x: "unat ?v mod 2 ^ (k + 8) = ?x"
    unfolding v using pushed_low [of "unat b" 8 k v] unat_byte_less [of b] Cons.prems by simp
  have out: "five_out (k + 8) (unat ?v) = five_out (k + 8) ?x" using five_out_low [of "k + 8" "k + 8" "unat ?v"] x by simp
  obtain o1 left where o: "five_out (k + 8) ?x = (o1, left)" by (cases "five_out (k + 8) ?x")
  have left: "left \<le> 4" "left \<le> k + 8" using five_out_left [of "k + 8" ?x] o by simp_all
  have "unat ?v mod 2 ^ left = ?x mod 2 ^ left" using x mod_mod_cancel [of "2 ^ left" "2 ^ (k + 8)" "unat ?v"] left(2) by (simp add: le_imp_power_dvd)
  then show ?case using Cons.IH [OF left(1), of ?v] out o by (simp add: out_words Let_def)
qed

lemma base32_alphabet: "distinct BASE32" "length BASE32 = 32"
  "list_all (\<lambda>c. upper_text c = [c] \<and> \<not> is_space c \<and> c \<noteq> CHR ''='' \<and> c \<noteq> CHR ''-'') BASE32"
  by code_simp+

lemma read_words:
  "j \<le> 7 \<Longrightarrow> \<forall>c\<in>set cs. c < 32 \<Longrightarrow>
   base32_read (map ((!) BASE32) cs) j v = Some (map of_nat (from_fives cs j (unat v mod 2 ^ j)))"
proof (induction cs arbitrary: j v)
  case (Cons c cs)
  let ?v = "push_bit 5 v OR of_nat c" and ?x = "unat v mod 2 ^ j * 32 + c"
  have c: "c < 32" and cs: "\<forall>c\<in>set cs. c < 32" using Cons.prems(2) by simp_all
  have i: "index_of (BASE32 ! c) BASE32 = Some c" using c by (intro index_of_nth) (simp_all add: base32_alphabet)
  have x: "unat ?v mod 2 ^ (j + 5) = ?x" using pushed_low [of c 5 j v] c Cons.prems(1) by simp
  show ?case
  proof (cases "j + 5 \<ge> 8")
    case True
    let ?m = "j + 5 - 8"
    have "unat (drop_bit ?m ?v AND 255) = unat ?v div 2 ^ ?m mod 256" by (rule unat_five(2))
    also have "\<dots> = ?x div 2 ^ ?m mod 256" using low_bits [of ?m 8 "j + 5" "unat ?v"] True x by simp
    also have "\<dots> = ?x div 2 ^ ?m"
    proof -
      have "?x < 2 ^ (j + 5)" unfolding x [symmetric] by simp
      also have "\<dots> = 2 ^ (8 + ?m)" using True by simp
      also have "\<dots> = 256 * 2 ^ ?m" by (simp only: power_add) simp
      finally show ?thesis by (simp add: less_mult_imp_div_less)
    qed
    finally have b: "(ucast (drop_bit ?m ?v AND 255) :: byte) = of_nat (?x div 2 ^ ?m)"
      by (metis of_nat_unat)
    have "unat ?v mod 2 ^ ?m = ?x mod 2 ^ ?m"
      using x mod_mod_cancel [of "2 ^ ?m" "2 ^ (j + 5)" "unat ?v"] by (simp add: le_imp_power_dvd)
    then show ?thesis using True Cons.IH [of ?m ?v] Cons.prems(1) cs i b by (simp add: Let_def)
  next
    case False
    then show ?thesis using Cons.IH [of "j + 5" ?v] Cons.prems(1) cs i x by (simp add: Let_def)
  qed
qed simp

lemma fives_small: "\<forall>b\<in>set bs. b < 256 \<Longrightarrow> k \<le> 4 \<Longrightarrow> p < 2 ^ k \<Longrightarrow> \<forall>c\<in>set (to_fives bs k p). c < 32"
proof (induction bs arbitrary: k p)
  case Nil
  have "p * 2 ^ (5 - k) < 2 ^ k * 2 ^ (5 - k)" using Nil by simp
  also have "\<dots> = 2 ^ (k + (5 - k))" by (simp only: power_add)
  finally show ?case using Nil by simp
next
  case (Cons b bs)
  let ?x = "p * 256 + b"
  obtain o1 left where o: "five_out (k + 8) ?x = (o1, left)" by (cases "five_out (k + 8) ?x")
  have "left \<le> 4" using five_out_left [of "k + 8" ?x] o by simp
  moreover have "\<forall>c\<in>set (fst (five_out n x)). c < 32" for n x
  proof (induction n rule: less_induct)
    case (less n)
    show ?case using less [of "n - 5"] by (cases "n \<ge> 5") (auto simp: five_out.simps [of n] case_prod_beta)
  qed
  ultimately show ?case using Cons.IH [of left "?x mod 2 ^ left"] Cons.prems(1) o by (simp add: Let_def) (metis fst_conv Un_iff)
qed

text \<open>
  The secret of an authenticator app survives being written down: base32 decoding of the text shown
  gives back the bytes drawn, for every number of bytes; the two loops keep their waiting bits in a
  32-bit integer that is never masked.
\<close>

theorem base32_roundtrip: "base32Decode (base32Encode bs) = Some bs"
proof -
  let ?cs = "to_fives (map unat bs) 0 0"
  have bytes: "\<forall>b\<in>set (map unat bs). b < 256" using unat_byte_less by auto
  have small: "\<forall>c\<in>set ?cs. c < 32" using fives_small [OF bytes, of 0 0] by simp
  have enc: "base32Encode bs = map ((!) BASE32) ?cs" using loop_words [of 0 bs 0] by (simp add: base32Encode_def)
  have clean: "filter (\<lambda>c. \<not> is_space c \<and> c \<noteq> CHR ''='' \<and> c \<noteq> CHR ''-'') (concat (map upper_text (map ((!) BASE32) cs))) = map ((!) BASE32) cs"
    if "\<forall>c\<in>set cs. c < 32" for cs
    using that
  proof (induction cs)
    case (Cons c cs)
    have "BASE32 ! c \<in> set BASE32" using Cons.prems by (simp add: base32_alphabet)
    then show ?case using Cons base32_alphabet(3) by (auto simp: list_all_iff)
  qed simp
  show ?thesis
    unfolding base32Decode_def enc clean [OF small] using read_words [of 0 ?cs 0] small fives_back(1) [OF bytes] by (simp add: o_def)
qed

end
