(* ===== verification/Sign_In.thy ===== *)
theory Sign_In
  imports Two_Factor
begin

text \<open>
  Signing in (\<open>src/cloudflare-control/src/two_factor.ts\<close>, the login route of \<open>index.ts\<close>): from a password
  that checked out to a session, through a challenge for the second factor where the account has one. A
  handler runs at one instant; where another request may come between its reads and its writes, the part
  after the reads is a definition of its own.
\<close>

definition CHALLENGE_SECONDS :: int where "CHALLENGE_SECONDS = 10 * 60"

definition CHALLENGE_ATTEMPTS :: nat where "CHALLENGE_ATTEMPTS = 5"

definition EMAIL_CODES_PER_CHALLENGE :: nat where "EMAIL_CODES_PER_CHALLENGE = 3"

definition EMAIL_CODE_GAP_SECONDS :: int where "EMAIL_CODE_GAP_SECONDS = 60"

definition TRUST_SECONDS :: int where "TRUST_SECONDS = 30 * 24 * 3600"

text \<open>
  The deployment: digests and keys, the passkey and handoff primitives, whether mail is set up
  (\<open>aw_mail_problem\<close>), the cookie options, and the URL parser with a base.
\<close>

record auth_world =
  aw_sha :: "string \<Rightarrow> string"
  aw_hmac1 :: "byte list \<Rightarrow> byte list \<Rightarrow> byte list"
  aw_hmac :: hmac_fun
  aw_pbkdf2 :: pbkdf2_fun
  aw_pepper :: string
  aw_passkey :: passkey_crypto
  aw_handoff :: handoff_crypto
  aw_resolve :: "string \<Rightarrow> string \<Rightarrow> target_url option"
  aw_default_domain :: "string option"
  aw_mail_problem :: bool
  aw_secure :: bool
  aw_legacy :: "string option"

text \<open>
  A request: its scheme and host, the parsed body (\<open>None\<close> where it is not JSON), the value of the device
  cookie, and what is drawn while it runs (tokens, the number of an emailed code, a passkey challenge, an
  initialization vector, the draws of recovery codes); \<open>ar_mail_sent\<close> and \<open>ar_alert_sent\<close> say whether sending succeeds.
\<close>

record auth_request =
  ar_scheme :: string
  ar_host :: string
  ar_body :: "json option"
  ar_device_cookie :: string
  ar_user_agent :: string
  ar_ip :: string
  ar_now :: int
  ar_token :: string
  ar_device :: string
  ar_number :: nat
  ar_bytes :: "byte list"
  ar_iv :: "byte list"
  ar_draws :: "nat list list"
  ar_mail_sent :: bool
  ar_alert_sent :: bool

datatype second_step = Ask_passkey | Ask_app | Ask_email

datatype reply =
    Second_step string second_step bool bool "nat list option"
  | Signed_in string string bool string "string list"
  | Passkey_request string string "string list"
  | Code_sent "nat list"

text \<open>\<open>Refuse\<close> is an answer of \<open>jsonError\<close>, \<open>Throw\<close> an exception the route turns into a server error.\<close>

datatype 'a outcome = Refuse string nat | Throw string | Answer 'a

record sign_in_target =
  st_userId :: string
  st_tenantId :: "string option"
  st_role :: user_role
  st_redirect :: string

datatype sign_in_method = By_password | By_totp | By_email | By_recovery | By_passkey

definition oneTimeCodeHash :: "hmac_fun \<Rightarrow> string \<Rightarrow> string \<Rightarrow> string" where
  "oneTimeCodeHash hmac pepper message = bufferToHex (hmac pepper (text_bytes (''code:'' @ message)))"

definition code_hash :: "auth_world \<Rightarrow> string \<Rightarrow> string \<Rightarrow> string" where
  "code_hash w tokenHash typed = oneTimeCodeHash (aw_hmac w) (aw_pepper w) (tokenHash @ '':'' @ typed)"

definition hex_token :: "string \<Rightarrow> bool" where
  "hex_token s = (length s = 64 \<and> list_all is_lower_hex s)"

definition deviceTokenFrom :: "auth_request \<Rightarrow> string option" where
  "deviceTokenFrom q = (if hex_token (ar_device_cookie q) then Some (ar_device_cookie q) else None)"

definition rp_of :: "auth_world \<Rightarrow> auth_request \<Rightarrow> relying_party" where
  "rp_of w q = passkeyRelyingParty (aw_default_domain w) (ar_scheme q) (ar_host q)"

text \<open>Code points: the three dots in the middle are bullets.\<close>

definition maskEmail :: "string \<Rightarrow> nat list" where
  "maskEmail email =
     (let name = takeWhile (\<lambda>c. c \<noteq> CHR ''@'') email in
      if name \<noteq> [] \<and> CHR ''@'' \<in> set email
      then code (hd email) # [8226, 8226, 8226] @ map code (drop (length name) email)
      else map code ''your email address'')"

definition deviceCookie :: "string \<Rightarrow> bool \<Rightarrow> string" where
  "deviceCookie token secure =
     join ''; '' ([''labkiosk_device='' @ token, ''Path=/api/auth'', ''Max-Age=34560000'', ''HttpOnly'', ''SameSite=Strict'']
       @ (if secure then [''Secure''] else []))"

subsection \<open>Completing a sign-in\<close>

definition method_name :: "sign_in_method \<Rightarrow> string" where
  "method_name m = (case m of By_password \<Rightarrow> ''password'' | By_totp \<Rightarrow> ''totp'' | By_email \<Rightarrow> ''email'' | By_recovery \<Rightarrow> ''recovery'' | By_passkey \<Rightarrow> ''passkey'')"

definition role_name :: "user_role \<Rightarrow> string" where
  "role_name r = (case r of Super_admin \<Rightarrow> ''super_admin'' | Org_admin \<Rightarrow> ''org_admin'')"

definition login_entry :: "sign_in_target \<Rightarrow> sign_in_method \<Rightarrow> audit_entry" where
  "login_entry target m = \<lparr>au_tenant = st_tenantId target, au_user = st_userId target, au_action = ''auth.login'',
     au_details = ''role='' @ role_name (st_role target) @ (if m = By_password then [] else '' second_factor='' @ method_name m)\<rparr>"

definition browser_key :: "browser_row \<Rightarrow> string \<times> string" where
  "browser_key d = (ud_user_id d, ud_token_hash d)"

text \<open>\<open>INSERT ... ON CONFLICT(user_id, token_hash) DO UPDATE\<close>: a trust once given stays unless a new one is.\<close>

definition remember_browser :: "string \<Rightarrow> string \<Rightarrow> int option \<Rightarrow> string \<Rightarrow> int \<Rightarrow> browser_row list \<Rightarrow> browser_row list" where
  "remember_browser userId deviceHash trusted userAgent ts rows =
     (case tbl_lookup browser_key (userId, deviceHash) rows of
        None \<Rightarrow> rows @ [\<lparr>ud_user_id = userId, ud_token_hash = deviceHash, ud_trusted_until = trusted, ud_user_agent = userAgent,
                         ud_created_at = ts, ud_last_seen_at = ts\<rparr>]
      | Some _ \<Rightarrow> tbl_update (\<lambda>d. browser_key d = (userId, deviceHash))
          (\<lambda>d. d\<lparr>ud_last_seen_at := ts, ud_user_agent := userAgent,
                 ud_trusted_until := (case trusted of Some t \<Rightarrow> Some t | None \<Rightarrow> ud_trusted_until d)\<rparr>) rows)"

definition sendSignInAlert :: "auth_world \<Rightarrow> auth_request \<Rightarrow> sign_in_target \<Rightarrow> accounts \<Rightarrow> accounts" where
  "sendSignInAlert w q target a =
     (if aw_mail_problem w then a
      else case findUserById a (st_userId target) of
        None \<Rightarrow> a
      | Some u \<Rightarrow> if ar_alert_sent q then a\<lparr>ac_outbox := ac_outbox a @ [Alert_mail (us_email u) (ar_ip q) (take 300 (ar_user_agent q))]\<rparr> else a)"

definition new_session :: "auth_request \<Rightarrow> sign_in_target \<Rightarrow> session" where
  "new_session q target = \<lparr>se_token = ar_token q, se_user_id = st_userId target, se_tenant_id = st_tenantId target,
     se_role = st_role target, se_expires_at = ar_now q + sessionSecondsFor (st_role target)\<rparr>"

definition browser_token :: "auth_request \<Rightarrow> string" where
  "browser_token q = (case deviceTokenFrom q of Some d \<Rightarrow> d | None \<Rightarrow> ar_device q)"

text \<open>The browser's row, and the notice to the account when the browser is new to it.\<close>

definition note_browser :: "auth_world \<Rightarrow> auth_request \<Rightarrow> sign_in_target \<Rightarrow> bool \<Rightarrow> accounts \<Rightarrow> accounts" where
  "note_browser w q target trustBrowser a =
     (let deviceHash = aw_sha w (browser_token q);
          known = tbl_lookup browser_key (st_userId target, deviceHash) (ac_browsers a) \<noteq> None;
          anyKnown = (\<exists>d\<in>set (ac_browsers a). ud_user_id d = st_userId target);
          a' = a\<lparr>ac_browsers := remember_browser (st_userId target) deviceHash
                   (if trustBrowser then Some (ar_now q + TRUST_SECONDS) else None) (take 300 (ar_user_agent q)) (ar_now q) (ac_browsers a)\<rparr>
      in if \<not> known \<and> anyKnown then sendSignInAlert w q target a' else a')"

definition sign_in_reply :: "auth_world \<Rightarrow> auth_request \<Rightarrow> sign_in_target \<Rightarrow> reply outcome" where
  "sign_in_reply w q target =
     (case signInDestination (aw_handoff w) (aw_resolve w) (aw_default_domain w) (ar_scheme q) (ar_host q) (ar_token q) (st_redirect target)
             (aw_pepper w) (ar_iv q) (ar_now q) of
        Inl e \<Rightarrow> Throw e
      | Inr (redirect, here) \<Rightarrow>
          Answer (Signed_in (ar_token q) redirect here (browser_token q)
            ((if here then [createSessionCookie (ar_token q) (aw_secure w) (sessionSecondsFor (st_role target))] else [])
             @ tl (clearSessionCookies (aw_secure w) (aw_legacy w)) @ [deviceCookie (browser_token q) (aw_secure w)])))"

definition completeSignIn ::
  "auth_world \<Rightarrow> auth_request \<Rightarrow> sign_in_target \<Rightarrow> sign_in_method \<Rightarrow> bool \<Rightarrow> accounts \<Rightarrow> reply outcome \<times> accounts" where
  "completeSignIn w q target m trustBrowser a =
     (case createSession (aw_sha w) (ac_db a) (new_session q target) of
        None \<Rightarrow> (Throw ''UNIQUE constraint failed'', a)
      | Some db \<Rightarrow>
          let a' = a\<lparr>ac_db := db, ac_audit := ac_audit a @ [login_entry target m]\<rparr> in
          (sign_in_reply w q target, note_browser w q target trustBrowser a'))"

subsection \<open>The challenge\<close>

definition six_digit_text :: "nat \<Rightarrow> string" where
  "six_digit_text n = padStart 6 CHR ''0'' (show_nat n)"

definition sendChallengeCode :: "auth_world \<Rightarrow> auth_request \<Rightarrow> string \<Rightarrow> account \<Rightarrow> accounts \<Rightarrow> bool \<times> accounts" where
  "sendChallengeCode w q tokenHash u a =
     (let typed = six_digit_text (ar_number q);
          a' = a\<lparr>ac_challenges := tbl_update (\<lambda>c. lc_token_hash c = tokenHash)
                   (\<lambda>c. c\<lparr>lc_email_code_hash := Some (code_hash w tokenHash typed), lc_email_codes_sent := lc_email_codes_sent c + 1,
                          lc_email_code_sent_at := Some (ar_now q)\<rparr>) (ac_challenges a)\<rparr>
      in if ar_mail_sent q \<and> \<not> aw_mail_problem w then (True, a'\<lparr>ac_outbox := ac_outbox a' @ [Code_mail (us_email u) typed]\<rparr>) else (False, a'))"

definition new_challenge :: "auth_world \<Rightarrow> auth_request \<Rightarrow> sign_in_target \<Rightarrow> challenge_row" where
  "new_challenge w q target =
     \<lparr>lc_token_hash = aw_sha w (ar_token q), lc_user_id = st_userId target, lc_tenant_id = st_tenantId target, lc_role = st_role target,
      lc_redirect = st_redirect target, lc_attempts = 0, lc_email_code_hash = None, lc_email_codes_sent = 0, lc_email_code_sent_at = None,
      lc_expires_at = ar_now q + CHALLENGE_SECONDS, lc_passkey_challenge = None\<rparr>"

definition drop_challenge :: "string \<Rightarrow> accounts \<Rightarrow> accounts" where
  "drop_challenge h a = a\<lparr>ac_challenges := tbl_delete lc_token_hash h (ac_challenges a)\<rparr>"

definition trusted_browser :: "auth_world \<Rightarrow> auth_request \<Rightarrow> string \<Rightarrow> accounts \<Rightarrow> bool" where
  "trusted_browser w q userId a =
     (case deviceTokenFrom q of
        None \<Rightarrow> False
      | Some d \<Rightarrow> (\<exists>r\<in>set (ac_browsers a). ud_user_id r = userId \<and> ud_token_hash r = aw_sha w d
                     \<and> (case ud_trusted_until r of None \<Rightarrow> False | Some t \<Rightarrow> t > ar_now q)))"

definition start_challenge :: "auth_world \<Rightarrow> auth_request \<Rightarrow> sign_in_target \<Rightarrow> account \<Rightarrow> factor_state \<Rightarrow> accounts \<Rightarrow> reply outcome \<times> accounts" where
  "start_challenge w q target u st a =
     (let row = new_challenge w q target; byEmail = (fs_app st = None \<and> fs_passkeys st = []) in
      if tbl_lookup lc_token_hash (lc_token_hash row) (ac_challenges a) \<noteq> None then (Throw ''UNIQUE constraint failed'', a)
      else let a1 = a\<lparr>ac_challenges := ac_challenges a @ [row]\<rparr>;
               sent = (if byEmail then sendChallengeCode w q (lc_token_hash row) u a1 else (True, a1))
        in if \<not> fst sent
           then (Refuse ''The sign-in code could not be emailed. Try again in a moment.'' 502, drop_challenge (lc_token_hash row) (snd sent))
           else (Answer (Second_step (ar_token q)
                   (if fs_passkeys st \<noteq> [] then Ask_passkey else if fs_app st \<noteq> None then Ask_app else Ask_email)
                   (fs_passkeys st \<noteq> []) (fs_app st \<noteq> None) (if byEmail then Some (maskEmail (us_email u)) else None)), snd sent))"

definition continueSignIn :: "auth_world \<Rightarrow> auth_request \<Rightarrow> sign_in_target \<Rightarrow> accounts \<Rightarrow> reply outcome \<times> accounts" where
  "continueSignIn w q target a =
     (case findUserById a (st_userId target) of
        None \<Rightarrow> completeSignIn w q target By_password False a
      | Some u \<Rightarrow>
          let st = factorState a u (rp_rpId (rp_of w q)) in
          if fs_app st = None \<and> fs_passkeys st = [] \<and> fs_email st \<and> aw_mail_problem w then completeSignIn w q target By_password False a
          else if hasSecondFactor st \<and> \<not> trusted_browser w q (st_userId target) a then start_challenge w q target u st a
          else completeSignIn w q target By_password False a)"

definition findChallenge :: "auth_world \<Rightarrow> accounts \<Rightarrow> json \<Rightarrow> int \<Rightarrow> challenge_row option" where
  "findChallenge w a token now =
     (let v = string_nullish token in
      if \<not> hex_token v then None
      else case tbl_lookup lc_token_hash (aw_sha w v) (ac_challenges a) of
        None \<Rightarrow> None | Some row \<Rightarrow> if lc_expires_at row \<ge> now then Some row else None)"

definition EXPIRED :: string where "EXPIRED = ''This sign-in has expired. Enter your password again.''"

definition not_json :: "'a outcome" where "not_json = Refuse ''The request body must be JSON'' 400"

definition handleLoginPasskeyOptions :: "auth_world \<Rightarrow> auth_request \<Rightarrow> accounts \<Rightarrow> reply outcome \<times> accounts" where
  "handleLoginPasskeyOptions w q a =
     (case ar_body q of
        None \<Rightarrow> (not_json, a)
      | Some body \<Rightarrow>
          if \<not> truthy body then (not_json, a)
          else (case findChallenge w a (field body ''challenge'') (ar_now q) of
            None \<Rightarrow> (Refuse EXPIRED 401, a)
          | Some c \<Rightarrow>
              let rp = rp_of w q; passkeys = passkeysFor a (lc_user_id c) (rp_rpId rp); fresh = toBase64url (ar_bytes q) in
              if passkeys = [] then (Refuse ''This account has no passkey for this site. Use a code instead.'' 409, a)
              else (Answer (Passkey_request fresh (rp_rpId rp) (map pr_id passkeys)),
                    a\<lparr>ac_challenges := tbl_update (\<lambda>r. lc_token_hash r = lc_token_hash c) (\<lambda>r. r\<lparr>lc_passkey_challenge := Some fresh\<rparr>) (ac_challenges a)\<rparr>)))"

subsection \<open>Answering the challenge\<close>

definition start_again :: string where "start_again = ''Start the passkey sign-in again.''"

text \<open>
  The ceremony's challenge is spent first, whatever the outcome (\<open>None\<close>: accepted). An empty one counts as none.
\<close>

definition checkPasskeyAnswer ::
  "auth_world \<Rightarrow> relying_party \<Rightarrow> challenge_row \<Rightarrow> factor_state \<Rightarrow> json \<Rightarrow> int \<Rightarrow> accounts \<Rightarrow> string option \<times> accounts" where
  "checkPasskeyAnswer w rp c st answer now a =
     (if \<not> truthy_text (lc_passkey_challenge c) then (Some start_again, a)
      else let expected = text_of (lc_passkey_challenge c);
               hit = (\<lambda>r. lc_token_hash r = lc_token_hash c \<and> lc_passkey_challenge r = Some expected);
               a' = a\<lparr>ac_challenges := tbl_update hit (\<lambda>r. r\<lparr>lc_passkey_challenge := None\<rparr>) (ac_challenges a)\<rparr>
        in if tbl_changes hit (ac_challenges a) = 0 then (Some start_again, a')
           else case find (\<lambda>p. JStr (pr_id p) = field answer ''id'') (fs_passkeys st) of
             None \<Rightarrow> (Some ''That passkey is not registered to this account for this site.'', a')
           | Some stored \<Rightarrow>
               (case verifyPasskeyAssertion (aw_passkey w) answer rp expected (pr_key stored) (pr_sign_count stored) of
                  Inl e \<Rightarrow> (Some e, a')
                | Inr n \<Rightarrow>
                    let same = (\<lambda>p. pr_id p = pr_id stored \<and> pr_user_id p = pr_user_id stored \<and> pr_sign_count p = pr_sign_count stored) in
                    (if tbl_changes same (ac_passkeys a') = 0 then Some ''That passkey was just used. Try again.'' else None,
                     a'\<lparr>ac_passkeys := tbl_update same (\<lambda>p. p\<lparr>pr_sign_count := n, pr_last_used_at := Some now\<rparr>) (ac_passkeys a')\<rparr>)))"

definition wrong_code :: string where "wrong_code = ''That code is not right. Check it and try again.''"

definition method_of :: "proof_kind option \<Rightarrow> sign_in_method option" where
  "method_of p = map_option (\<lambda>k. case k of Totp \<Rightarrow> By_totp | Recovery \<Rightarrow> By_recovery) p"

text \<open>Which factor the answer proves, or the message it fails with; \<open>c\<close> and \<open>st\<close> are as they were read.\<close>

definition check_answer ::
  "auth_world \<Rightarrow> auth_request \<Rightarrow> json \<Rightarrow> challenge_row \<Rightarrow> factor_state \<Rightarrow> accounts \<Rightarrow> string + (string + sign_in_method) \<times> accounts" where
  "check_answer w q body c st a =
     (case field body ''passkey'' of
        JObj fs \<Rightarrow>
          (case checkPasskeyAnswer w (rp_of w q) c st (JObj fs) (ar_now q) a of
             (None, a') \<Rightarrow> Inr (Inr By_passkey, a') | (Some e, a') \<Rightarrow> Inr (Inl e, a'))
      | _ \<Rightarrow>
          let typed = take 40 (trim (string_nullish (field body ''code''))) in
          if six_digits typed \<and> truthy_text (lc_email_code_hash c) \<and> timingSafeEqual (code_hash w (lc_token_hash c) typed) (text_of (lc_email_code_hash c))
          then Inr (Inr By_email, a)
          else case (if typed \<noteq> [] then fs_app st else None) of
            None \<Rightarrow> Inr (Inl wrong_code, a)
          | Some row \<Rightarrow>
              (case checkAccountCode (aw_sha w) (aw_hmac1 w) a row typed (ar_now q) of
                 Inl e \<Rightarrow> Inl e
               | Inr (p, a') \<Rightarrow> Inr (case method_of p of Some m \<Rightarrow> Inr m | None \<Rightarrow> Inl wrong_code, a')))"

definition count_wrong :: "challenge_row \<Rightarrow> account \<Rightarrow> int \<Rightarrow> string \<Rightarrow> accounts \<Rightarrow> reply outcome \<times> accounts" where
  "count_wrong c u now failure a =
     (let a' = a\<lparr>ac_db := recordLoginFailure (ac_db a) (us_email u) now\<rparr>; attempts = lc_attempts c + 1 in
      if attempts \<ge> CHALLENGE_ATTEMPTS then (Refuse ''Too many wrong codes. Enter your password again.'' 401, drop_challenge (lc_token_hash c) a')
      else (Refuse failure 400,
            a'\<lparr>ac_challenges := tbl_update (\<lambda>r. lc_token_hash r = lc_token_hash c) (\<lambda>r. r\<lparr>lc_attempts := attempts\<rparr>) (ac_challenges a')\<rparr>))"

definition challenge_target :: "challenge_row \<Rightarrow> sign_in_target" where
  "challenge_target c = \<lparr>st_userId = lc_user_id c, st_tenantId = lc_tenant_id c, st_role = lc_role c, st_redirect = lc_redirect c\<rparr>"

text \<open>What follows the reads of \<open>handleLoginVerify\<close>.\<close>

definition settle_answer ::
  "auth_world \<Rightarrow> auth_request \<Rightarrow> json \<Rightarrow> challenge_row \<Rightarrow> account \<Rightarrow> factor_state \<Rightarrow> accounts \<Rightarrow> reply outcome \<times> accounts" where
  "settle_answer w q body c u st a =
     (case check_answer w q body c st a of
        Inl e \<Rightarrow> (Throw e, a)
      | Inr (Inl failure, a') \<Rightarrow> count_wrong c u (ar_now q) failure a'
      | Inr (Inr m, a') \<Rightarrow>
          if tbl_lookup lc_token_hash (lc_token_hash c) (ac_challenges a') = None then (Refuse EXPIRED 401, a')
          else completeSignIn w q (challenge_target c) m (field body ''trustBrowser'' = JBool True)
                 ((drop_challenge (lc_token_hash c) a')\<lparr>ac_db := clearLoginFailures (ac_db a') (us_email u)\<rparr>))"

definition lockout_text :: "string \<Rightarrow> int \<Rightarrow> string" where
  "lockout_text what seconds = what @ '' Try again in '' @ show_int ((seconds + 59) div 60) @ '' minute(s).''"

definition handleLoginVerify :: "auth_world \<Rightarrow> auth_request \<Rightarrow> accounts \<Rightarrow> reply outcome \<times> accounts" where
  "handleLoginVerify w q a =
     (case ar_body q of
        None \<Rightarrow> (not_json, a)
      | Some body \<Rightarrow>
          if \<not> truthy body then (not_json, a)
          else (case findChallenge w a (field body ''challenge'') (ar_now q) of
            None \<Rightarrow> (Refuse EXPIRED 401, a)
          | Some c \<Rightarrow>
              (case findUserById a (lc_user_id c) of
                 None \<Rightarrow> (Refuse EXPIRED 401, drop_challenge (lc_token_hash c) a)
               | Some u \<Rightarrow>
                   let st = factorState a u (rp_rpId (rp_of w q)); lockedFor = getLockoutRemaining (ac_db a) (us_email u) (ar_now q) in
                   if \<not> hasSecondFactor st then (Refuse EXPIRED 401, drop_challenge (lc_token_hash c) a)
                   else if lockedFor > 0 then (Refuse (lockout_text ''Too many failed sign-in attempts.'' lockedFor) 429, a)
                   else settle_answer w q body c u st a)))"

definition handleLoginEmailCode :: "auth_world \<Rightarrow> auth_request \<Rightarrow> accounts \<Rightarrow> reply outcome \<times> accounts" where
  "handleLoginEmailCode w q a =
     (case ar_body q of
        None \<Rightarrow> (not_json, a)
      | Some body \<Rightarrow>
          if \<not> truthy body then (not_json, a)
          else (case findChallenge w a (field body ''challenge'') (ar_now q) of
            None \<Rightarrow> (Refuse EXPIRED 401, a)
          | Some c \<Rightarrow>
              let wait = (if set_at (lc_email_code_sent_at c) then the (lc_email_code_sent_at c) + EMAIL_CODE_GAP_SECONDS - ar_now q else 0) in
              if aw_mail_problem w then (Refuse ''Email codes are not available right now. Use your authenticator app or a recovery code.'' 503, a)
              else if lc_email_codes_sent c \<ge> EMAIL_CODES_PER_CHALLENGE
              then (Refuse ''No more codes can be sent for this sign-in. Enter your password again to start over.'' 429, a)
              else if wait > 0 then (Refuse (''Wait '' @ show_int wait @ '' seconds before asking for another code.'') 429, a)
              else (case findUserById a (lc_user_id c) of
                 None \<Rightarrow> (Refuse EXPIRED 401, a)
               | Some u \<Rightarrow>
                   (case sendChallengeCode w q (lc_token_hash c) u a of
                      (False, a') \<Rightarrow> (Refuse ''The code could not be sent. Try again in a moment, or use your authenticator app or a recovery code.'' 502, a')
                    | (True, a') \<Rightarrow> (Answer (Code_sent (maskEmail (us_email u))), a')))))"

end
