(* ===== verification/Two_Factor_Settings.thy ===== *)
theory Two_Factor_Settings
  imports Sign_In
begin

text \<open>
  Managing one's own second factor: \<open>handleTwoFactorRoute\<close> of
  \<open>src/cloudflare-control/src/two_factor.ts\<close>, one definition per action and the dispatch.
\<close>

definition MAX_PASSKEYS :: nat where "MAX_PASSKEYS = 10"

definition PASSKEY_REGISTRATION_SECONDS :: int where "PASSKEY_REGISTRATION_SECONDS = 5 * 60"

definition ISSUER :: string where "ISSUER = ''Lab Kiosk''"

record passkey_view =
  pv_id :: string
  pv_name :: string
  pv_site :: string
  pv_here :: bool

datatype setting_reply =
    Factors bool nat bool bool bool "passkey_view list"
  | Email_codes bool
  | Passkey_creation string string string "string list"
  | Passkey_kept string string
  | App_secret string string
  | Recovery_codes "string list"
  | Done

definition audited :: "session \<Rightarrow> account \<Rightarrow> string \<Rightarrow> accounts \<Rightarrow> accounts" where
  "audited s u action a = a\<lparr>ac_audit := ac_audit a @ [\<lparr>au_tenant = se_tenant_id s, au_user = us_id u, au_action = action, au_details = []\<rparr>]\<rparr>"

definition passwordOk :: "auth_world \<Rightarrow> auth_request \<Rightarrow> json \<Rightarrow> account \<Rightarrow> accounts \<Rightarrow> bool \<times> accounts" where
  "passwordOk w q body u a =
     (if verifyPassword (aw_pbkdf2 w) (aw_hmac w) (string_nullish (field body ''password'')) (us_password_hash u) (us_salt u) (aw_pepper w)
      then (True, a) else (False, a\<lparr>ac_db := recordLoginFailure (ac_db a) (us_email u) (ar_now q)\<rparr>))"

definition with_password ::
  "auth_world \<Rightarrow> auth_request \<Rightarrow> json \<Rightarrow> account \<Rightarrow> accounts \<Rightarrow> (accounts \<Rightarrow> 'r outcome \<times> accounts) \<Rightarrow> 'r outcome \<times> accounts" where
  "with_password w q body u a go =
     (case passwordOk w q body u a of
        (False, a') \<Rightarrow> (Refuse ''The password is not correct'' 400, a') | (True, a') \<Rightarrow> go a')"

definition sign_out_others :: "auth_world \<Rightarrow> account \<Rightarrow> string option \<Rightarrow> accounts \<Rightarrow> accounts" where
  "sign_out_others w u sessionToken a = a\<lparr>ac_db := deleteSessionsForUser (aw_sha w) (ac_db a) (us_id u) sessionToken\<rparr>"

text \<open>Nothing is asked after the password any more: open challenges go, and no browser is trusted.\<close>

definition drop_factor_traces :: "account \<Rightarrow> accounts \<Rightarrow> accounts" where
  "drop_factor_traces u a = a\<lparr>ac_challenges := filter (\<lambda>c. lc_user_id c \<noteq> us_id u) (ac_challenges a),
     ac_browsers := untrust (us_id u) (ac_browsers a)\<rparr>"

definition factors_view :: "auth_world \<Rightarrow> auth_request \<Rightarrow> account \<Rightarrow> factor_state \<Rightarrow> two_factor_row option \<Rightarrow> accounts \<Rightarrow> setting_reply" where
  "factors_view w q u st row a =
     (let on = (case row of None \<Rightarrow> False | Some r \<Rightarrow> set_at (tf_enabled_at r)) in
      Factors on (if on then length (recoveryHashes (the row)) else 0) (fs_email st) (fs_required st) (\<not> aw_mail_problem w)
        (map (\<lambda>p. \<lparr>pv_id = pr_id p, pv_name = pr_name p, pv_site = pr_rp_id p, pv_here = (pr_rp_id p = rp_rpId (rp_of w q))\<rparr>)
          (sort_key pr_created_at (filter (\<lambda>p. pr_user_id p = us_id u) (ac_passkeys a)))))"

definition email_action ::
  "auth_world \<Rightarrow> auth_request \<Rightarrow> json \<Rightarrow> session \<Rightarrow> string option \<Rightarrow> account \<Rightarrow> factor_state \<Rightarrow> accounts \<Rightarrow> setting_reply outcome \<times> accounts" where
  "email_action w q body s sessionToken u st a =
     (case field body ''enabled'' of
        JBool enable \<Rightarrow>
          if \<not> enable \<and> fs_required st then (Refuse ''An administrator account always signs in with a second factor'' 409, a)
          else if enable \<and> aw_mail_problem w then (Refuse ''Email is not set up on this server, so codes cannot be sent'' 503, a)
          else with_password w q body u a (\<lambda>a.
            (Answer (Email_codes (enable \<or> fs_required st)),
             if (us_two_factor_email u \<noteq> 0) = enable then a
             else let a1 = a\<lparr>ac_users := tbl_update (\<lambda>r. us_id r = us_id u) (\<lambda>r. r\<lparr>us_two_factor_email := (if enable then 1 else 0)\<rparr>) (ac_users a)\<rparr>;
                      a2 = (if enable then sign_out_others w u sessionToken a1
                            else if fs_app st = None \<and> fs_passkeys st = [] then drop_factor_traces u a1 else a1)
                  in audited s u (if enable then ''auth.two_factor_email_enable'' else ''auth.two_factor_email_disable'') a2))
      | _ \<Rightarrow> (Refuse ''Say whether emailed codes are on or off'' 400, a))"

definition own_passkeys :: "account \<Rightarrow> accounts \<Rightarrow> passkey_row list" where
  "own_passkeys u a = filter (\<lambda>p. pr_user_id p = us_id u) (ac_passkeys a)"

definition passkey_options_action ::
  "auth_world \<Rightarrow> auth_request \<Rightarrow> json \<Rightarrow> account \<Rightarrow> factor_state \<Rightarrow> accounts \<Rightarrow> setting_reply outcome \<times> accounts" where
  "passkey_options_action w q body u st a =
     (if length (own_passkeys u a) \<ge> MAX_PASSKEYS
      then (Refuse ''An account can have up to 10 passkeys. Remove one first.'' 409, a)
      else with_password w q body u a (\<lambda>a.
        let fresh = toBase64url (ar_bytes q); rpId = rp_rpId (rp_of w q) in
        (Answer (Passkey_creation fresh rpId (toBase64url (text_bytes (us_id u))) (map pr_id (fs_passkeys st))),
         a\<lparr>ac_registrations := tbl_upsert pg_user_id
             \<lparr>pg_user_id = us_id u, pg_challenge = fresh, pg_rp_id = rpId, pg_expires_at = ar_now q + PASSKEY_REGISTRATION_SECONDS\<rparr>
             (ac_registrations a)\<rparr>)))"

definition passkey_name :: "json \<Rightarrow> string" where
  "passkey_name v =
     (let name = take 60 (trim (filter (\<lambda>c. code c \<ge> 32 \<and> code c \<noteq> 127) (string_nullish v))) in if name = [] then ''Passkey'' else name)"

definition passkey_register_action ::
  "auth_world \<Rightarrow> auth_request \<Rightarrow> json \<Rightarrow> session \<Rightarrow> string option \<Rightarrow> account \<Rightarrow> accounts \<Rightarrow> setting_reply outcome \<times> accounts" where
  "passkey_register_action w q body s sessionToken u a =
     (let hit = (\<lambda>r. pg_user_id r = us_id u \<and> pg_expires_at r \<ge> ar_now q); rp = rp_of w q;
          a1 = a\<lparr>ac_registrations := filter (\<lambda>r. \<not> hit r) (ac_registrations a)\<rparr>
      in case find hit (ac_registrations a) of
           None \<Rightarrow> (Refuse ''This passkey setup has expired. Start again.'' 409, a1)
         | Some pending \<Rightarrow>
             if pg_rp_id pending \<noteq> rp_rpId rp then (Refuse ''This passkey setup has expired. Start again.'' 409, a1)
             else (case verifyPasskeyRegistration (aw_passkey w) (if is_object (field body ''credential'') then field body ''credential'' else JObj []) rp (pg_challenge pending) of
                Inl e \<Rightarrow> (Refuse e 400, a1)
              | Inr k \<Rightarrow>
                  let row = \<lparr>pr_id = rg_credentialId k, pr_user_id = us_id u, pr_rp_id = rp_rpId rp, pr_key = rg_key_of k, pr_sign_count = rg_signCount k,
                             pr_name = passkey_name (field body ''name''), pr_created_at = ar_now q, pr_last_used_at = None\<rparr> in
                  if tbl_lookup pr_id (pr_id row) (ac_passkeys a1) \<noteq> None then (Refuse ''This passkey is already registered.'' 409, a1)
                  else (Answer (Passkey_kept (pr_id row) (pr_name row)),
                        audited s u ''auth.passkey_add'' (sign_out_others w u sessionToken (a1\<lparr>ac_passkeys := ac_passkeys a1 @ [row]\<rparr>)))))"

definition passkey_delete_action ::
  "auth_world \<Rightarrow> auth_request \<Rightarrow> json \<Rightarrow> session \<Rightarrow> account \<Rightarrow> factor_state \<Rightarrow> accounts \<Rightarrow> setting_reply outcome \<times> accounts" where
  "passkey_delete_action w q body s u st a =
     (let i = (case field body ''id'' of JStr t \<Rightarrow> t | _ \<Rightarrow> []) in
      if i = [] \<or> (\<forall>p\<in>set (own_passkeys u a). pr_id p \<noteq> i) then (Refuse ''That passkey is not registered to this account'' 404, a)
      else with_password w q body u a (\<lambda>a.
        let a1 = a\<lparr>ac_passkeys := filter (\<lambda>p. \<not> (pr_id p = i \<and> pr_user_id p = us_id u)) (ac_passkeys a)\<rparr>;
            a2 = (if own_passkeys u a1 = [] \<and> fs_app st = None \<and> \<not> fs_email st then drop_factor_traces u a1 else a1)
        in (Answer Done, audited s u ''auth.passkey_remove'' a2)))"

definition otpauth_uri :: "account \<Rightarrow> string \<Rightarrow> string" where
  "otpauth_uri u secret = ''otpauth://totp/'' @ encodeURIComponent (ISSUER @ '':'' @ us_email u) @ ''?secret='' @ secret
     @ ''&issuer='' @ encodeURIComponent ISSUER @ ''&algorithm=SHA1&digits=6&period=30''"

definition app_on :: "two_factor_row option \<Rightarrow> bool" where
  "app_on row = (case row of None \<Rightarrow> False | Some r \<Rightarrow> set_at (tf_enabled_at r))"

text \<open>The upsert of a setup keeps \<open>enabled_at\<close> of an existing row, which is \<open>NULL\<close> here.\<close>

definition setup_action ::
  "auth_world \<Rightarrow> auth_request \<Rightarrow> json \<Rightarrow> account \<Rightarrow> two_factor_row option \<Rightarrow> accounts \<Rightarrow> setting_reply outcome \<times> accounts" where
  "setup_action w q body u row a =
     (if app_on row then (Refuse ''Two-factor sign-in is already on. Turn it off first to move it to a new app.'' 409, a)
      else with_password w q body u a (\<lambda>a.
        let secret = base32Encode (ar_bytes q);
            fresh = \<lparr>tf_user_id = us_id u, tf_totp_secret = secret, tf_enabled_at = None, tf_last_totp_step = 0,
                     tf_recovery_codes = Some (JArr []), tf_created_at = ar_now q\<rparr>
        in (Answer (App_secret secret (otpauth_uri u secret)),
            a\<lparr>ac_two_factor := (if findTwoFactor a (us_id u) = None then ac_two_factor a @ [fresh]
               else tbl_update (\<lambda>r. tf_user_id r = us_id u)
                 (\<lambda>r. r\<lparr>tf_totp_secret := secret, tf_last_totp_step := 0, tf_recovery_codes := Some (JArr []), tf_created_at := ar_now q\<rparr>) (ac_two_factor a))\<rparr>)))"

definition new_codes :: "auth_request \<Rightarrow> string list" where
  "new_codes q = map newRecoveryCode (take RECOVERY_CODE_COUNT (ar_draws q))"

definition hashed_codes :: "auth_world \<Rightarrow> string list \<Rightarrow> json" where
  "hashed_codes w codes = JArr (map (\<lambda>c. JStr (recovery_hash (aw_sha w) (normalizeRecoveryCode c))) codes)"

definition enable_action ::
  "auth_world \<Rightarrow> auth_request \<Rightarrow> json \<Rightarrow> session \<Rightarrow> string option \<Rightarrow> account \<Rightarrow> two_factor_row option \<Rightarrow> accounts \<Rightarrow> setting_reply outcome \<times> accounts" where
  "enable_action w q body s sessionToken u row a =
     (case row of
        None \<Rightarrow> (Refuse ''Start the setup first'' 409, a)
      | Some r \<Rightarrow>
          if set_at (tf_enabled_at r) then (Refuse ''Two-factor sign-in is already on'' 409, a)
          else (case matchTotp (aw_hmac1 w) (tf_totp_secret r) (filter (\<lambda>c. \<not> is_space c) (string_nullish (field body ''code''))) (tf_last_totp_step r) (ar_now q) of
             Inl e \<Rightarrow> (Throw e, a)
           | Inr None \<Rightarrow> (Refuse ''That code is not right. Check the time on your device and try again.'' 400, a)
           | Inr (Some step) \<Rightarrow>
               let hit = (\<lambda>r. tf_user_id r = us_id u \<and> tf_enabled_at r = None); codes = new_codes q;
                   a1 = a\<lparr>ac_two_factor := tbl_update hit (\<lambda>r. r\<lparr>tf_enabled_at := Some (ar_now q), tf_last_totp_step := step,
                            tf_recovery_codes := Some (hashed_codes w codes)\<rparr>) (ac_two_factor a)\<rparr>
               in if tbl_changes hit (ac_two_factor a) = 0 then (Refuse ''Two-factor sign-in is already on'' 409, a1)
                  else (Answer (Recovery_codes codes), audited s u ''auth.two_factor_enable'' (sign_out_others w u sessionToken a1))))"

text \<open>Replacing the recovery codes and turning the app off: the password and a current code.\<close>

definition prove_and_change ::
  "auth_world \<Rightarrow> auth_request \<Rightarrow> json \<Rightarrow> account \<Rightarrow> two_factor_row option \<Rightarrow> accounts \<Rightarrow> (accounts \<Rightarrow> setting_reply outcome \<times> accounts) \<Rightarrow> setting_reply outcome \<times> accounts" where
  "prove_and_change w q body u row a go =
     (if \<not> app_on row then (Refuse ''Two-factor sign-in is not on'' 409, a)
      else with_password w q body u a (\<lambda>a.
        case checkAccountCode (aw_sha w) (aw_hmac1 w) a (the row) (take 40 (trim (string_nullish (field body ''code'')))) (ar_now q) of
          Inl e \<Rightarrow> (Throw e, a)
        | Inr (None, a') \<Rightarrow> (Refuse ''That code is not right'' 400, a'\<lparr>ac_db := recordLoginFailure (ac_db a') (us_email u) (ar_now q)\<rparr>)
        | Inr (Some _, a') \<Rightarrow> go (a'\<lparr>ac_db := clearLoginFailures (ac_db a') (us_email u)\<rparr>)))"

definition recovery_codes_action ::
  "auth_world \<Rightarrow> auth_request \<Rightarrow> session \<Rightarrow> account \<Rightarrow> accounts \<Rightarrow> setting_reply outcome \<times> accounts" where
  "recovery_codes_action w q s u a =
     (let codes = new_codes q in
      (Answer (Recovery_codes codes),
       audited s u ''auth.two_factor_recovery_codes''
         (a\<lparr>ac_two_factor := tbl_update (\<lambda>r. tf_user_id r = us_id u) (\<lambda>r. r\<lparr>tf_recovery_codes := Some (hashed_codes w codes)\<rparr>) (ac_two_factor a)\<rparr>)))"

definition disable_action :: "session \<Rightarrow> account \<Rightarrow> accounts \<Rightarrow> setting_reply outcome \<times> accounts" where
  "disable_action s u a =
     (Answer Done, audited s u ''auth.two_factor_disable''
        (drop_factor_traces u (a\<lparr>ac_two_factor := tbl_delete tf_user_id (us_id u) (ac_two_factor a)\<rparr>)))"

definition TWO_FACTOR_ACTIONS :: "string list" where
  "TWO_FACTOR_ACTIONS = [''email'', ''setup'', ''enable'', ''disable'', ''recovery-codes'', ''passkey-options'', ''passkey-register'', ''passkey-delete'']"

definition two_factor_action ::
  "auth_world \<Rightarrow> auth_request \<Rightarrow> string \<Rightarrow> json \<Rightarrow> session \<Rightarrow> string option \<Rightarrow> account \<Rightarrow> accounts \<Rightarrow> setting_reply outcome \<times> accounts" where
  "two_factor_action w q action body s sessionToken u a =
     (let row = findTwoFactor a (us_id u); st = factorState a u (rp_rpId (rp_of w q)) in
      if action = ''email'' then email_action w q body s sessionToken u st a
      else if action = ''passkey-options'' then passkey_options_action w q body u st a
      else if action = ''passkey-register'' then passkey_register_action w q body s sessionToken u a
      else if action = ''passkey-delete'' then passkey_delete_action w q body s u st a
      else if action = ''setup'' then setup_action w q body u row a
      else if action = ''enable'' then enable_action w q body s sessionToken u row a
      else prove_and_change w q body u row a
        (if action = ''recovery-codes'' then recovery_codes_action w q s u else disable_action s u))"

definition auth_required :: "'a outcome" where "auth_required = Refuse ''Authentication required'' 401"

definition handleTwoFactorRoute ::
  "auth_world \<Rightarrow> auth_request \<Rightarrow> string \<Rightarrow> string \<Rightarrow> session option \<Rightarrow> string option \<Rightarrow> accounts \<Rightarrow> setting_reply outcome \<times> accounts" where
  "handleTwoFactorRoute w q http_method action sess sessionToken a =
     (case sess of
        None \<Rightarrow> (auth_required, a)
      | Some s \<Rightarrow>
          (case findUserById a (se_user_id s) of
             None \<Rightarrow> (auth_required, a)
           | Some u \<Rightarrow>
               if action = [] then
                 (if http_method \<noteq> ''GET'' then Refuse ''Method not allowed'' 405
                  else Answer (factors_view w q u (factorState a u (rp_rpId (rp_of w q))) (findTwoFactor a (us_id u)) a), a)
               else if action \<notin> set TWO_FACTOR_ACTIONS then (Refuse ''Not Found'' 404, a)
               else if http_method \<noteq> ''POST'' then (Refuse ''Method not allowed'' 405, a)
               else case ar_body q of
                 None \<Rightarrow> (not_json, a)
               | Some body \<Rightarrow>
                   let lockedFor = getLockoutRemaining (ac_db a) (us_email u) (ar_now q) in
                   if \<not> truthy body then (not_json, a)
                   else if lockedFor > 0 then (Refuse (lockout_text ''Too many failed attempts.'' lockedFor) 429, a)
                   else two_factor_action w q action body s sessionToken u a))"

definition isTwoFactorRoute :: "string \<Rightarrow> bool" where
  "isTwoFactorRoute path =
     (path = ''/api/auth/two-factor''
      \<or> startsWith path ''/api/auth/two-factor/'' \<and> drop 21 path \<noteq> [] \<and> list_all (\<lambda>c. is_lower c \<or> c = CHR ''-'') (drop 21 path))"

end
