(* ===== verification/Sign_In_Runs.thy ===== *)
theory Sign_In_Runs
  imports Two_Factor_Settings
begin

text \<open>
  What signing in guarantees: runs of the requests of \<open>Sign_In\<close> and \<open>Two_Factor_Settings\<close>, the bound on
  answers to a challenge, codes that are spent, what a right answer gives, and what requests that overlap can do.
\<close>

subsection \<open>Runs\<close>

datatype auth_event =
    Continue auth_request sign_in_target
  | Verify auth_request
  | Email_code auth_request
  | Passkey_options auth_request
  | Settings auth_request string string "session option" "string option"
  | Purge int
  | Revoke string

fun auth_step :: "auth_world \<Rightarrow> auth_event \<Rightarrow> accounts \<Rightarrow> accounts" where
  "auth_step w (Continue q target) a = snd (continueSignIn w q target a)"
| "auth_step w (Verify q) a = snd (handleLoginVerify w q a)"
| "auth_step w (Email_code q) a = snd (handleLoginEmailCode w q a)"
| "auth_step w (Passkey_options q) a = snd (handleLoginPasskeyOptions w q a)"
| "auth_step w (Settings q m action s t) a = snd (handleTwoFactorRoute w q m action s t a)"
| "auth_step w (Purge now) a = purgeExpiredLoginChallenges a now"
| "auth_step w (Revoke u) a = revokeTrustedBrowsers a u"

text \<open>Challenges of \<open>cs'\<close> are those of \<open>cs\<close>, some gone, none with another count of wrong answers.\<close>

definition follows :: "challenge_row list \<Rightarrow> challenge_row list \<Rightarrow> bool" where
  "follows cs cs' = ((\<forall>c'\<in>set cs'. \<exists>c\<in>set cs. lc_token_hash c' = lc_token_hash c \<and> lc_attempts c' = lc_attempts c)
     \<and> (distinct_keys lc_token_hash cs \<longrightarrow> distinct_keys lc_token_hash cs'))"

named_theorems follow_rules \<open>how the challenges of one state follow those of another\<close>

lemma follows_refl [follow_rules]: "follows cs cs"
  by (auto simp: follows_def)

lemma follows_trans: "follows cs cs' \<Longrightarrow> follows cs' cs'' \<Longrightarrow> follows cs cs''"
  unfolding follows_def by metis

lemma follows_filter [follow_rules]: "follows cs (filter P cs)"
  by (auto simp: follows_def distinct_map_filter)

lemma follows_delete [follow_rules]: "follows cs (tbl_delete lc_token_hash h cs)"
  by (simp add: tbl_delete_def follows_filter)

lemma follows_update [follow_rules]:
  assumes "\<And>c. lc_token_hash (f c) = lc_token_hash c" "\<And>c. lc_attempts (f c) = lc_attempts c"
  shows "follows cs (tbl_update p f cs)"
proof -
  have "map lc_token_hash (tbl_update p f cs) = map lc_token_hash cs" by (rule map_key_update) (rule assms(1))
  then have "distinct_keys lc_token_hash cs \<longrightarrow> distinct_keys lc_token_hash (tbl_update p f cs)" by simp
  then show ?thesis using assms by (auto simp: follows_def tbl_update_def)
qed

lemma sendSignInAlert_challenges [simp]: "ac_challenges (sendSignInAlert w q target a) = ac_challenges a"
  by (auto simp: sendSignInAlert_def split: option.splits)

lemma note_browser_challenges [simp]: "ac_challenges (note_browser w q target tr a) = ac_challenges a"
  by (simp add: note_browser_def Let_def)

lemma completeSignIn_challenges [simp]: "ac_challenges (snd (completeSignIn w q target m tr a)) = ac_challenges a"
  by (auto simp: completeSignIn_def Let_def split: option.splits)

lemma drop_challenge_challenges [simp]: "ac_challenges (drop_challenge h a) = tbl_delete lc_token_hash h (ac_challenges a)"
  by (simp add: drop_challenge_def)

lemma sendChallengeCode_follows: "follows (ac_challenges a) (ac_challenges (snd (sendChallengeCode w q h u a)))"
  by (auto simp: sendChallengeCode_def Let_def intro!: follows_update)

lemma checkAccountCode_challenges: "checkAccountCode sha hmac1 a row typed now = Inr (p, a') \<Longrightarrow> ac_challenges a' = ac_challenges a"
  by (auto simp: checkAccountCode_def spend_step_def spend_recovery_def Let_def split: if_splits sum.splits option.splits)

lemma checkPasskeyAnswer_follows: "follows (ac_challenges a) (ac_challenges (snd (checkPasskeyAnswer w rp c st answer now a)))"
  by (auto simp: checkPasskeyAnswer_def Let_def intro!: follows_update follow_rules split: option.splits sum.splits)

lemma check_answer_follows: "check_answer w q body c st a = Inr (r, a') \<Longrightarrow> follows (ac_challenges a) (ac_challenges a')"
  using checkPasskeyAnswer_follows [of a w "rp_of w q" c st "field body ''passkey''" "ar_now q"]
  by (fastforce simp: check_answer_def Let_def follows_refl dest!: checkAccountCode_challenges split: json.splits prod.splits option.splits if_splits sum.splits)

lemma audited_challenges [simp]: "ac_challenges (audited s u action a) = ac_challenges a"
  by (simp add: audited_def)

lemma sign_out_challenges [simp]: "ac_challenges (sign_out_others w u t a) = ac_challenges a"
  by (simp add: sign_out_others_def)

lemma traces_follows [follow_rules]: "follows (ac_challenges a) (ac_challenges (drop_factor_traces u a))"
  by (simp add: drop_factor_traces_def follow_rules)

lemma with_password_follows:
  assumes "\<And>a'. ac_challenges a' = ac_challenges a \<Longrightarrow> follows (ac_challenges a) (ac_challenges (snd (go a')))"
  shows "follows (ac_challenges a) (ac_challenges (snd (with_password w q body u a go)))"
proof -
  obtain ok a' where "passwordOk w q body u a = (ok, a')" "ac_challenges a' = ac_challenges a"
    by (cases "passwordOk w q body u a") (auto simp: passwordOk_def split: if_splits)
  then show ?thesis using assms by (cases ok) (simp_all add: with_password_def follows_refl)
qed

lemma follows_eq: "ac_challenges a' = ac_challenges a \<Longrightarrow> follows (ac_challenges a) (ac_challenges a')"
  by (simp add: follows_refl)

lemma traces_follows_eq: "ac_challenges a' = ac_challenges a \<Longrightarrow> follows (ac_challenges a) (ac_challenges (drop_factor_traces u a'))"
  using traces_follows [of a' u] by simp

lemma action_follows:
  "follows (ac_challenges a) (ac_challenges (snd (email_action w q body s t u st a)))"
  "follows (ac_challenges a) (ac_challenges (snd (passkey_options_action w q body u st a)))"
  "follows (ac_challenges a) (ac_challenges (snd (passkey_register_action w q body s t u a)))"
  "follows (ac_challenges a) (ac_challenges (snd (passkey_delete_action w q body s u st a)))"
  "follows (ac_challenges a) (ac_challenges (snd (setup_action w q body u row a)))"
  "follows (ac_challenges a) (ac_challenges (snd (enable_action w q body s t u row a)))"
proof -
  show "follows (ac_challenges a) (ac_challenges (snd (email_action w q body s t u st a)))"
    by (auto simp: email_action_def Let_def follows_refl split: json.splits intro!: with_password_follows traces_follows_eq)
  show "follows (ac_challenges a) (ac_challenges (snd (passkey_options_action w q body u st a)))"
    by (auto simp: passkey_options_action_def Let_def follows_refl intro!: with_password_follows)
  show "follows (ac_challenges a) (ac_challenges (snd (passkey_register_action w q body s t u a)))"
    by (auto simp: passkey_register_action_def Let_def follows_refl split: option.splits sum.splits)
  show "follows (ac_challenges a) (ac_challenges (snd (passkey_delete_action w q body s u st a)))"
    by (auto simp: passkey_delete_action_def Let_def follows_refl intro!: with_password_follows traces_follows_eq)
  show "follows (ac_challenges a) (ac_challenges (snd (setup_action w q body u row a)))"
    by (auto simp: setup_action_def Let_def follows_refl intro!: with_password_follows)
  show "follows (ac_challenges a) (ac_challenges (snd (enable_action w q body s t u row a)))"
    by (auto simp: enable_action_def Let_def follows_refl split: option.splits sum.splits)
qed

lemma prove_follows:
  assumes "\<And>a'. follows (ac_challenges a') (ac_challenges (snd (go a')))"
  shows "follows (ac_challenges a) (ac_challenges (snd (prove_and_change w q body u row a go)))"
proof (cases "app_on row")
  case True
  have "follows (ac_challenges a) (ac_challenges (snd (go (b\<lparr>ac_db := d\<rparr>))))" if "ac_challenges b = ac_challenges a" for b d
    using assms [of "b\<lparr>ac_db := d\<rparr>"] that by simp
  then show ?thesis using True
    by (auto simp: prove_and_change_def follows_refl dest!: checkAccountCode_challenges
        intro!: with_password_follows split: sum.splits option.splits)
qed (simp add: prove_and_change_def follows_refl)

lemma settings_follows: "follows (ac_challenges a) (ac_challenges (snd (handleTwoFactorRoute w q m action s t a)))"
proof -
  have "follows (ac_challenges b) (ac_challenges (snd (recovery_codes_action w q s' u b)))"
    "follows (ac_challenges b) (ac_challenges (snd (disable_action s' u b)))" for b s' u
    by (auto simp: recovery_codes_action_def disable_action_def Let_def follows_refl intro!: traces_follows_eq)
  then have "follows (ac_challenges a) (ac_challenges (snd (two_factor_action w q action body s' t u a)))" for body s' u
    by (simp add: two_factor_action_def Let_def action_follows prove_follows)
  then show ?thesis
    by (auto simp: handleTwoFactorRoute_def Let_def follows_refl split: option.splits)
qed

subsection \<open>Answers to one challenge\<close>

text \<open>The challenge an answer is judged for, and whether it is right; \<open>None\<close> where it is not judged.\<close>

definition judged :: "auth_world \<Rightarrow> auth_request \<Rightarrow> accounts \<Rightarrow> (string \<times> bool) option" where
  "judged w q a =
     (case ar_body q of
        None \<Rightarrow> None
      | Some body \<Rightarrow>
          (case (if truthy body then findChallenge w a (field body ''challenge'') (ar_now q) else None) of
             None \<Rightarrow> None
           | Some c \<Rightarrow>
               (case findUserById a (lc_user_id c) of
                  None \<Rightarrow> None
                | Some u \<Rightarrow>
                    let st = factorState a u (rp_rpId (rp_of w q)) in
                    if \<not> hasSecondFactor st \<or> getLockoutRemaining (ac_db a) (us_email u) (ar_now q) > 0 then None
                    else (case check_answer w q body c st a of
                       Inl _ \<Rightarrow> None | Inr (Inl _, _) \<Rightarrow> Some (lc_token_hash c, False) | Inr (Inr _, _) \<Rightarrow> Some (lc_token_hash c, True)))))"

fun judges :: "auth_world \<Rightarrow> string \<Rightarrow> bool \<Rightarrow> auth_event \<Rightarrow> accounts \<Rightarrow> nat" where
  "judges w h right (Verify q) a = (if judged w q a = Some (h, right) then 1 else 0)"
| "judges w h right _ a = 0"

fun tally :: "auth_world \<Rightarrow> string \<Rightarrow> bool \<Rightarrow> auth_event list \<Rightarrow> accounts \<Rightarrow> nat" where
  "tally w h right [] a = 0"
| "tally w h right (e # es) a = judges w h right e a + tally w h right es (auth_step w e a)"

fun starts :: "auth_world \<Rightarrow> string \<Rightarrow> auth_event \<Rightarrow> bool" where
  "starts w h (Continue q target) = (aw_sha w (ar_token q) = h)"
| "starts w h _ = False"

definition challenges_ok :: "accounts \<Rightarrow> bool" where
  "challenges_ok a = (distinct_keys lc_token_hash (ac_challenges a) \<and> (\<forall>c\<in>set (ac_challenges a). lc_attempts c < CHALLENGE_ATTEMPTS))"

definition chances :: "string \<Rightarrow> challenge_row list \<Rightarrow> nat" where
  "chances h cs = (case tbl_lookup lc_token_hash h cs of None \<Rightarrow> 0 | Some c \<Rightarrow> CHALLENGE_ATTEMPTS - lc_attempts c)"

lemma follows_lookup:
  assumes "follows cs cs'" "distinct_keys lc_token_hash cs" "tbl_lookup lc_token_hash h cs' = Some c'"
  shows "\<exists>c. tbl_lookup lc_token_hash h cs = Some c \<and> lc_attempts c' = lc_attempts c"
proof -
  have c': "c' \<in> set cs'" "lc_token_hash c' = h" using tbl_lookup_mem [OF assms(3)] by auto
  then obtain c where "c \<in> set cs" "lc_token_hash c' = lc_token_hash c" "lc_attempts c' = lc_attempts c"
    using assms(1) by (auto simp: follows_def)
  then show ?thesis using tbl_lookup_eq [OF assms(2)] c' by metis
qed

lemma follows_chances: "follows cs cs' \<Longrightarrow> distinct_keys lc_token_hash cs \<Longrightarrow> chances h cs' \<le> chances h cs"
  using follows_lookup by (fastforce simp: chances_def split: option.splits)

lemma follows_ok: "follows (ac_challenges a) (ac_challenges a') \<Longrightarrow> challenges_ok a \<Longrightarrow> challenges_ok a'"
  by (auto simp: challenges_ok_def follows_def)

lemma chances_delete: "chances h (tbl_delete lc_token_hash h' cs) = (if h = h' then 0 else chances h cs)"
  by (simp add: chances_def tbl_lookup_delete)

lemma chances_append: "lc_token_hash c \<noteq> h \<Longrightarrow> chances h (cs @ [c]) = chances h cs"
  by (simp add: chances_def tbl_lookup_append [of lc_token_hash h cs] tbl_lookup_def [of _ _ "[c]"] split: option.split)

lemma lookup_updated:
  assumes "\<And>r. key (f r) = key r"
  shows "tbl_lookup key k (tbl_update p f t) = map_option (\<lambda>r. if p r then f r else r) (tbl_lookup key k t)"
  using assms by (induction t) (auto simp: tbl_lookup_def tbl_update_def)

lemma count_wrong_step:
  assumes "challenges_ok a" "tbl_lookup lc_token_hash (lc_token_hash c) (ac_challenges a) = None
      \<or> (\<exists>r. tbl_lookup lc_token_hash (lc_token_hash c) (ac_challenges a) = Some r \<and> lc_attempts r = lc_attempts c)"
    and "lc_attempts c < CHALLENGE_ATTEMPTS"
  shows "challenges_ok (snd (count_wrong c u now failure a))"
    "chances h (ac_challenges (snd (count_wrong c u now failure a)))
      \<le> (if h = lc_token_hash c then CHALLENGE_ATTEMPTS - Suc (lc_attempts c) else chances h (ac_challenges a))"
proof -
  let ?up = "tbl_update (\<lambda>r. lc_token_hash r = lc_token_hash c) (\<lambda>r. r\<lparr>lc_attempts := lc_attempts c + 1\<rparr>) (ac_challenges a)"
  have keys: "map lc_token_hash ?up = map lc_token_hash (ac_challenges a)" by (rule map_key_update) simp
  show "challenges_ok (snd (count_wrong c u now failure a))"
  proof (cases "Suc (lc_attempts c) \<ge> CHALLENGE_ATTEMPTS")
    case False
    have "distinct_keys lc_token_hash ?up" using assms(1) by (simp only: keys challenges_ok_def)
    then show ?thesis using False assms(1) by (auto simp: count_wrong_def Let_def challenges_ok_def) (auto simp: tbl_update_def)
  qed (use assms(1) in \<open>auto simp: count_wrong_def Let_def challenges_ok_def tbl_delete_def distinct_map_filter\<close>)
  show "chances h (ac_challenges (snd (count_wrong c u now failure a)))
      \<le> (if h = lc_token_hash c then CHALLENGE_ATTEMPTS - Suc (lc_attempts c) else chances h (ac_challenges a))"
    using assms(2) by (auto simp: count_wrong_def Let_def chances_def tbl_lookup_delete lookup_updated dest: tbl_lookup_mem split: option.splits)
qed

lemma findChallenge_lookup: "findChallenge w a t now = Some c \<Longrightarrow> tbl_lookup lc_token_hash (lc_token_hash c) (ac_challenges a) = Some c"
  using tbl_lookup_mem [of lc_token_hash "aw_sha w (string_nullish t)" "ac_challenges a" c]
  by (auto simp: findChallenge_def Let_def split: if_splits option.splits)

lemma settle_step:
  assumes ok: "challenges_ok a" and c: "tbl_lookup lc_token_hash (lc_token_hash c) (ac_challenges a) = Some c"
    and ans: "check_answer w q body c st a = Inr (r, a')"
  shows "challenges_ok (snd (settle_answer w q body c u st a))
    \<and> chances h (ac_challenges (snd (settle_answer w q body c u st a))) + (if lc_token_hash c = h then 1 else 0) \<le> chances h (ac_challenges a)
    \<and> (h = lc_token_hash c \<and> (\<exists>m. r = Inr m) \<longrightarrow> chances h (ac_challenges (snd (settle_answer w q body c u st a))) = 0)"
proof -
  note f = check_answer_follows [OF ans]
  have dist: "distinct_keys lc_token_hash (ac_challenges a)" and few: "lc_attempts c < CHALLENGE_ATTEMPTS"
    using ok tbl_lookup_mem [OF c] by (auto simp: challenges_ok_def)
  have ok': "challenges_ok a'" by (rule follows_ok [OF f ok])
  have le: "chances h (ac_challenges a') \<le> chances h (ac_challenges a)" by (rule follows_chances [OF f dist])
  have here: "chances (lc_token_hash c) (ac_challenges a) = CHALLENGE_ATTEMPTS - lc_attempts c" using c by (simp add: chances_def)
  have row: "tbl_lookup lc_token_hash (lc_token_hash c) (ac_challenges a') = None
      \<or> (\<exists>r. tbl_lookup lc_token_hash (lc_token_hash c) (ac_challenges a') = Some r \<and> lc_attempts r = lc_attempts c)"
    using follows_lookup [OF f dist] c by (cases "tbl_lookup lc_token_hash (lc_token_hash c) (ac_challenges a')") fastforce+
  show ?thesis
  proof (cases r)
    case (Inl failure)
    then have "settle_answer w q body c u st a = count_wrong c u (ar_now q) failure a'" using ans by (simp add: settle_answer_def)
    then show ?thesis using count_wrong_step(1) [OF ok' row few, of u "ar_now q" failure] count_wrong_step(2) [OF ok' row few, of h u "ar_now q" failure] le here few Inl by (auto split: if_splits)
  next
    case (Inr m)
    show ?thesis
    proof (cases "tbl_lookup lc_token_hash (lc_token_hash c) (ac_challenges a') = None")
      case True
      then have "snd (settle_answer w q body c u st a) = a'" using ans Inr by (simp add: settle_answer_def)
      moreover have "chances (lc_token_hash c) (ac_challenges a') = 0" using True by (simp add: chances_def)
      ultimately show ?thesis using ok' le here few by auto
    next
      case False
      then have "ac_challenges (snd (settle_answer w q body c u st a)) = tbl_delete lc_token_hash (lc_token_hash c) (ac_challenges a')"
        using ans Inr by (auto simp: settle_answer_def)
      moreover have "challenges_ok (snd (settle_answer w q body c u st a))"
        using calculation ok' by (auto simp: challenges_ok_def tbl_delete_def distinct_map_filter)
      ultimately show ?thesis using le here few by (auto simp: chances_delete)
    qed
  qed
qed

text \<open>An answer that is judged is settled from what was read; one that is not leaves the counts alone.\<close>

lemma verify_judged:
  assumes "judged w q a = Some (h, right)"
  obtains body c u st r a' where "snd (handleLoginVerify w q a) = snd (settle_answer w q body c u st a)"
    "tbl_lookup lc_token_hash (lc_token_hash c) (ac_challenges a) = Some c" "lc_token_hash c = h"
    "check_answer w q body c st a = Inr (r, a')" "right = (\<exists>m. r = Inr m)"
proof -
  obtain body c u where b: "ar_body q = Some body" "truthy body" "findChallenge w a (field body ''challenge'') (ar_now q) = Some c"
    "findUserById a (lc_user_id c) = Some u"
    using assms by (auto simp: judged_def split: option.splits if_splits)
  let ?st = "factorState a u (rp_rpId (rp_of w q))"
  have st: "hasSecondFactor ?st" "\<not> getLockoutRemaining (ac_db a) (us_email u) (ar_now q) > 0"
    using assms b by (auto simp: judged_def Let_def split: if_splits)
  obtain r a' where r: "check_answer w q body c ?st a = Inr (r, a')" "lc_token_hash c = h" "right = (\<exists>m. r = Inr m)"
    using assms b st by (auto simp: judged_def Let_def split: sum.splits)
  have "snd (handleLoginVerify w q a) = snd (settle_answer w q body c u ?st a)"
    using b st by (simp add: handleLoginVerify_def Let_def)
  then show thesis using that r findChallenge_lookup [OF b(3)] by blast
qed

lemma verify_unjudged: "judged w q a = None \<Longrightarrow> follows (ac_challenges a) (ac_challenges (snd (handleLoginVerify w q a)))"
  by (auto simp: judged_def handleLoginVerify_def settle_answer_def Let_def follow_rules split: option.splits if_splits sum.splits prod.splits)

lemma start_challenge_step:
  assumes "challenges_ok a" "aw_sha w (ar_token q) \<noteq> h"
  shows "challenges_ok (snd (start_challenge w q target u st a))
    \<and> chances h (ac_challenges (snd (start_challenge w q target u st a))) \<le> chances h (ac_challenges a)"
proof (cases "tbl_lookup lc_token_hash (lc_token_hash (new_challenge w q target)) (ac_challenges a)")
  case None
  let ?row = "new_challenge w q target"
  let ?a1 = "a\<lparr>ac_challenges := ac_challenges a @ [?row]\<rparr>"
  have new: "challenges_ok ?a1"
    using assms(1) None by (auto simp: challenges_ok_def tbl_lookup_None new_challenge_def CHALLENGE_ATTEMPTS_def)
  have same: "chances h (ac_challenges ?a1) = chances h (ac_challenges a)"
    using assms(2) by (simp add: chances_append new_challenge_def)
  have "follows (ac_challenges ?a1) (ac_challenges (snd (start_challenge w q target u st a)))"
    using None sendChallengeCode_follows [of ?a1 w q "lc_token_hash ?row" u]
    by (auto simp: start_challenge_def Let_def follows_refl intro: follows_trans [OF _ follows_delete])
  then show ?thesis
    using follows_ok [OF _ new] follows_chances [of "ac_challenges ?a1" _ h] new same by (simp add: challenges_ok_def)
qed (use assms in \<open>simp add: start_challenge_def Let_def\<close>)

lemma continue_step:
  assumes "challenges_ok a" "aw_sha w (ar_token q) \<noteq> h"
  shows "challenges_ok (snd (continueSignIn w q target a)) \<and> chances h (ac_challenges (snd (continueSignIn w q target a))) \<le> chances h (ac_challenges a)"
  using start_challenge_step [OF assms] assms(1)
  by (auto simp: continueSignIn_def Let_def challenges_ok_def split: option.splits)

lemma email_code_follows: "follows (ac_challenges a) (ac_challenges (snd (handleLoginEmailCode w q a)))"
proof -
  have "follows (ac_challenges a) (ac_challenges a')" if "sendChallengeCode w q h u a = (ok, a')" for h u ok a'
    using sendChallengeCode_follows [of a w q h u] that by simp
  then show ?thesis by (auto simp: handleLoginEmailCode_def Let_def follows_refl split: option.splits prod.splits bool.splits)
qed

lemma passkey_options_follows: "follows (ac_challenges a) (ac_challenges (snd (handleLoginPasskeyOptions w q a)))"
  by (auto simp: handleLoginPasskeyOptions_def Let_def follows_refl intro!: follows_update split: option.splits)

lemma quiet_step:
  assumes "follows (ac_challenges a) (ac_challenges a')" "challenges_ok a"
  shows "challenges_ok a' \<and> chances h (ac_challenges a') \<le> chances h (ac_challenges a)"
  using follows_ok [OF assms] follows_chances [OF assms(1)] assms(2) by (simp add: challenges_ok_def)

lemma auth_step_chances:
  assumes "challenges_ok a" "\<not> starts w h e"
  shows "challenges_ok (auth_step w e a)
    \<and> judges w h False e a + judges w h True e a + chances h (ac_challenges (auth_step w e a)) \<le> chances h (ac_challenges a)
    \<and> (judges w h True e a > 0 \<longrightarrow> chances h (ac_challenges (auth_step w e a)) = 0)"
proof (cases e)
  case (Verify q)
  show ?thesis
  proof (cases "judged w q a")
    case None
    then show ?thesis using quiet_step [OF verify_unjudged [OF None] assms(1)] Verify by simp
  next
    case (Some p)
    obtain h' right where p: "p = (h', right)" by (cases p)
    obtain body c u st r a' where s: "snd (handleLoginVerify w q a) = snd (settle_answer w q body c u st a)"
      "tbl_lookup lc_token_hash (lc_token_hash c) (ac_challenges a) = Some c" "lc_token_hash c = h'"
      "check_answer w q body c st a = Inr (r, a')" "right = (\<exists>m. r = Inr m)"
      using verify_judged Some p by metis
    show ?thesis using settle_step [OF assms(1) s(2) s(4), of u h] s(1,3,5) Some p Verify by (cases right) auto
  qed
next
  case (Continue q target)
  then show ?thesis using continue_step [OF assms(1)] assms(2) by simp
next
  case (Email_code q)
  then show ?thesis using quiet_step [OF email_code_follows assms(1)] by simp
next
  case (Passkey_options q)
  then show ?thesis using quiet_step [OF passkey_options_follows assms(1)] by simp
next
  case (Settings q m action s t)
  then show ?thesis using quiet_step [OF settings_follows assms(1)] by simp
next
  case (Purge now)
  have "follows (ac_challenges a) (ac_challenges (purgeExpiredLoginChallenges a now))"
    by (simp add: purgeExpiredLoginChallenges_def follows_filter)
  then show ?thesis using quiet_step [OF _ assms(1)] Purge by simp
next
  case (Revoke u)
  then show ?thesis using assms(1) by (simp add: revokeTrustedBrowsers_def challenges_ok_def)
qed

lemma tally_chances:
  assumes "challenges_ok a" "\<forall>e\<in>set es. \<not> starts w h e"
  shows "tally w h False es a + tally w h True es a \<le> chances h (ac_challenges a) \<and> tally w h True es a \<le> 1"
  using assms
proof (induction es arbitrary: a)
  case (Cons e es)
  note step = auth_step_chances [of a w h e]
  have rest: "tally w h False es (auth_step w e a) + tally w h True es (auth_step w e a) \<le> chances h (ac_challenges (auth_step w e a))
      \<and> tally w h True es (auth_step w e a) \<le> 1"
    using Cons step by simp
  have "judges w h True e a \<le> 1" by (cases e) simp_all
  then show ?case using rest step Cons.prems by (cases "judges w h True e a") (auto simp: le_Suc_eq)
qed simp

lemma challenges_ok_step: "challenges_ok a \<Longrightarrow> challenges_ok (auth_step w e a)"
proof -
  assume ok: "challenges_ok a"
  obtain h where "\<not> starts w h e" by (cases e) auto
  with ok show ?thesis using auth_step_chances by blast
qed

interpretation sign_ins: step_system "auth_step w" challenges_ok for w
  by unfold_locales (rule challenges_ok_step)


subsection \<open>A password alone\<close>

definition signed_in :: "reply outcome \<Rightarrow> bool" where
  "signed_in r = (case r of Answer (Signed_in _ _ _ _ _) \<Rightarrow> True | _ \<Rightarrow> False)"

lemma start_challenge_no_session:
  "sessions (ac_db (snd (start_challenge w q target u st a))) = sessions (ac_db a)"
  "\<not> signed_in (fst (start_challenge w q target u st a))"
  by (auto simp: start_challenge_def sendChallengeCode_def drop_challenge_def signed_in_def Let_def)

text \<open>
  C14. An account that must use or has turned on a second factor never gets a session from its password
  alone: in a browser it does not trust, and unless an emailed code is its only factor and mail is not
  set up, no session is created and no answer signs it in; what it may get is a challenge, for that
  account, role and organization, with no wrong answer counted, that ends ten minutes later.
\<close>

theorem password_alone:
  assumes "findUserById a (st_userId target) = Some u"
    and "isAdministratorAccount a u \<or> us_two_factor_email u \<noteq> 0 \<or> hasTwoFactor a (us_id u) \<or> passkeysFor a (us_id u) (rp_rpId (rp_of w q)) \<noteq> []"
    and "\<not> trusted_browser w q (st_userId target) a"
    and "\<not> aw_mail_problem w \<or> hasTwoFactor a (us_id u) \<or> passkeysFor a (us_id u) (rp_rpId (rp_of w q)) \<noteq> []"
  shows "\<not> signed_in (fst (continueSignIn w q target a))
    \<and> sessions (ac_db (snd (continueSignIn w q target a))) = sessions (ac_db a)
    \<and> (\<forall>t m p ap to. fst (continueSignIn w q target a) = Answer (Second_step t m p ap to) \<longrightarrow>
        (\<exists>c. tbl_lookup lc_token_hash (aw_sha w t) (ac_challenges (snd (continueSignIn w q target a))) = Some c
          \<and> lc_user_id c = st_userId target \<and> lc_role c = st_role target \<and> lc_tenant_id c = st_tenantId target
          \<and> lc_attempts c = 0 \<and> lc_expires_at c = ar_now q + 600))"
proof -
  let ?st = "factorState a u (rp_rpId (rp_of w q))"
  have go: "continueSignIn w q target a = start_challenge w q target u ?st a"
    using assms by (auto simp: continueSignIn_def Let_def factorState_def hasSecondFactor_def hasTwoFactor_def split: option.splits if_splits)
  have "\<exists>c. tbl_lookup lc_token_hash (aw_sha w t) (ac_challenges (snd (start_challenge w q target u ?st a))) = Some c
      \<and> lc_user_id c = st_userId target \<and> lc_role c = st_role target \<and> lc_tenant_id c = st_tenantId target
      \<and> lc_attempts c = 0 \<and> lc_expires_at c = ar_now q + 600"
    if answer: "fst (start_challenge w q target u ?st a) = Answer (Second_step t m p ap to)" for t m p ap to
  proof -
    let ?row = "new_challenge w q target"
    have t: "t = ar_token q" and new: "tbl_lookup lc_token_hash (aw_sha w (ar_token q)) (ac_challenges a @ [?row]) = Some ?row"
      using answer by (auto simp: start_challenge_def Let_def tbl_lookup_append tbl_lookup_def [of _ _ "[x]" for x] new_challenge_def split: if_splits)
    show ?thesis using answer
      by (auto simp: t start_challenge_def sendChallengeCode_def Let_def lookup_updated new split: if_splits)
        (simp_all add: new_challenge_def CHALLENGE_SECONDS_def)
  qed
  then show ?thesis using start_challenge_no_session unfolding go by blast
qed

subsection \<open>Codes are spent\<close>

text \<open>
  Requests that read the account's row at any moment, and then try to move its mark: whatever the
  interleaving, the steps that are accepted grow. \<open>tries\<close> are the rows read and the steps matched, in the order of the updates.
\<close>

fun accepted_steps :: "(two_factor_row \<times> int) list \<Rightarrow> accounts \<Rightarrow> int list" where
  "accepted_steps [] a = []"
| "accepted_steps ((row, step) # tries) a =
     (case spend_step a row step of (p, a') \<Rightarrow> (if p = Some Totp then [step] else []) @ accepted_steps tries a')"

definition mark :: "accounts \<Rightarrow> string \<Rightarrow> int" where
  "mark a u = (case findTwoFactor a u of None \<Rightarrow> 0 | Some r \<Rightarrow> tf_last_totp_step r)"

lemma matchTotp_later: "matchTotp hmac1 secret typed lastStep now = Inr (Some step) \<Longrightarrow> lastStep < step \<and> \<bar>step - now div 30\<bar> \<le> 1"
  by (auto simp: matchTotp_def currentTotpStep_def TOTP_STEP_SECONDS_def Let_def find_Some_iff less_Suc_eq nth_Cons' split: if_splits option.splits)

lemma spend_step_found:
  assumes "distinct_keys tf_user_id (ac_two_factor a)" "spend_step a row step = (p, a')"
  shows "distinct_keys tf_user_id (ac_two_factor a')"
    "p = Some Totp \<Longrightarrow> mark a (tf_user_id row) = tf_last_totp_step row \<and> mark a' (tf_user_id row) = step"
    "p \<noteq> Some Totp \<Longrightarrow> a' = a"
proof -
  let ?hit = "\<lambda>r. tf_user_id r = tf_user_id row \<and> tf_last_totp_step r = tf_last_totp_step row"
  have keys: "map tf_user_id (tbl_update ?hit f t) = map tf_user_id t" if "\<And>q. tf_user_id (f q) = tf_user_id q" for f t
    using that by (rule map_key_update)
  show "distinct_keys tf_user_id (ac_two_factor a')" using assms by (auto simp: spend_step_def Let_def keys simp del: map_map)
  show "p = Some Totp \<Longrightarrow> mark a (tf_user_id row) = tf_last_totp_step row \<and> mark a' (tf_user_id row) = step"
  proof -
    assume "p = Some Totp"
    then obtain r where r: "r \<in> set (ac_two_factor a)" "?hit r" using assms(2) by (auto simp: spend_step_def Let_def tbl_changes_def filter_empty_conv split: if_splits)
    then have l: "tbl_lookup tf_user_id (tf_user_id row) (ac_two_factor a) = Some r" using tbl_lookup_eq [OF assms(1)] by metis
    then show ?thesis using r assms(2) by (auto simp: mark_def findTwoFactor_def spend_step_def Let_def lookup_updated)
  qed
  show "p \<noteq> Some Totp \<Longrightarrow> a' = a"
  proof -
    assume "p \<noteq> Some Totp"
    then have "\<forall>r\<in>set (ac_two_factor a). \<not> ?hit r" using assms(2) by (auto simp: spend_step_def Let_def tbl_changes_def filter_empty_conv split: if_splits)
    then have "tbl_update ?hit f (ac_two_factor a) = ac_two_factor a" for f by (auto simp: tbl_update_def intro!: map_idI)
    then show ?thesis using assms(2) by (simp add: spend_step_def Let_def)
  qed
qed

lemma totp_steps_grow:
  assumes "distinct_keys tf_user_id (ac_two_factor a)"
    and "\<forall>(row, step)\<in>set tries. tf_user_id row = u \<and> tf_last_totp_step row < step"
  shows "sorted_wrt (<) (mark a u # accepted_steps tries a)"
  using assms
proof (induction tries arbitrary: a)
  case (Cons tr tries)
  obtain row step where t: "tr = (row, step)" by (cases tr)
  obtain p a' where s: "spend_step a row step = (p, a')" by (cases "spend_step a row step")
  note f = spend_step_found [OF Cons.prems(1) s]
  have row: "tf_user_id row = u" "tf_last_totp_step row < step" using Cons.prems(2) by (auto simp: t)
  have IH: "sorted_wrt (<) (mark a' u # accepted_steps tries a')" using Cons.IH [OF f(1)] Cons.prems(2) by simp
  show ?case
  proof (cases "p = Some Totp")
    case True
    then have "mark a u < step" "mark a' u = step" using f(2) row by auto
    then show ?thesis using IH True by (auto simp: t s)
  next
    case False
    then show ?thesis using IH f(3) by (simp add: t s)
  qed
qed simp

lemma texts_of_JStr [simp]: "texts_of (map JStr xs) = xs"
  by (induction xs) simp_all

lemma count_drop_at: "i < length xs \<Longrightarrow> count_list (drop_at i xs) y + (if xs ! i = y then 1 else 0) = count_list xs y"
  by (induction i xs rule: drop_at.induct) auto

text \<open>The same for recovery codes: the rows read and the positions matched, in the order of the updates.\<close>

fun accepted_codes :: "(two_factor_row \<times> nat) list \<Rightarrow> accounts \<Rightarrow> string list" where
  "accepted_codes [] a = []"
| "accepted_codes ((row, i) # tries) a =
     (case spend_recovery a row (drop_at i (recoveryHashes row)) of
        (p, a') \<Rightarrow> (if p = Some Recovery then [recoveryHashes row ! i] else []) @ accepted_codes tries a')"

definition codes_left :: "accounts \<Rightarrow> string \<Rightarrow> string list" where
  "codes_left a u = (case findTwoFactor a u of None \<Rightarrow> [] | Some r \<Rightarrow> recoveryHashes r)"

lemma spend_recovery_found:
  assumes "distinct_keys tf_user_id (ac_two_factor a)" "spend_recovery a row left = (p, a')"
  shows "distinct_keys tf_user_id (ac_two_factor a')"
    "p = Some Recovery \<Longrightarrow> codes_left a (tf_user_id row) = recoveryHashes row \<and> codes_left a' (tf_user_id row) = left"
    "p \<noteq> Some Recovery \<Longrightarrow> a' = a"
proof -
  let ?hit = "\<lambda>r. tf_user_id r = tf_user_id row \<and> tf_recovery_codes r = tf_recovery_codes row"
  have keys: "map tf_user_id (tbl_update ?hit f t) = map tf_user_id t" if "\<And>q. tf_user_id (f q) = tf_user_id q" for f t
    using that by (rule map_key_update)
  show "distinct_keys tf_user_id (ac_two_factor a')" using assms by (auto simp: spend_recovery_def Let_def keys simp del: map_map)
  show "p = Some Recovery \<Longrightarrow> codes_left a (tf_user_id row) = recoveryHashes row \<and> codes_left a' (tf_user_id row) = left"
  proof -
    assume "p = Some Recovery"
    then obtain r where r: "r \<in> set (ac_two_factor a)" "?hit r"
      using assms(2) by (auto simp: spend_recovery_def Let_def tbl_changes_def filter_empty_conv split: if_splits)
    then have "tbl_lookup tf_user_id (tf_user_id row) (ac_two_factor a) = Some r" using tbl_lookup_eq [OF assms(1)] by metis
    then show ?thesis using r assms(2)
      by (auto simp: codes_left_def findTwoFactor_def spend_recovery_def Let_def lookup_updated recoveryHashes_def)
  qed
  show "p \<noteq> Some Recovery \<Longrightarrow> a' = a"
  proof -
    assume "p \<noteq> Some Recovery"
    then have "\<forall>r\<in>set (ac_two_factor a). \<not> ?hit r"
      using assms(2) by (auto simp: spend_recovery_def Let_def tbl_changes_def filter_empty_conv split: if_splits)
    then have "tbl_update ?hit f (ac_two_factor a) = ac_two_factor a" for f by (auto simp: tbl_update_def intro!: map_idI)
    then show ?thesis using assms(2) by (simp add: spend_recovery_def Let_def)
  qed
qed

lemma recovery_code_once:
  assumes "distinct_keys tf_user_id (ac_two_factor a)"
    and "\<forall>(row, i)\<in>set tries. tf_user_id row = u \<and> i < length (recoveryHashes row)"
  shows "count_list (accepted_codes tries a) h \<le> count_list (codes_left a u) h"
  using assms
proof (induction tries arbitrary: a)
  case (Cons tr tries)
  obtain row i where t: "tr = (row, i)" by (cases tr)
  obtain p a' where s: "spend_recovery a row (drop_at i (recoveryHashes row)) = (p, a')" by (cases "spend_recovery a row (drop_at i (recoveryHashes row))")
  note f = spend_recovery_found [OF Cons.prems(1) s]
  have row: "tf_user_id row = u" "i < length (recoveryHashes row)" using Cons.prems(2) by (auto simp: t)
  have IH: "count_list (accepted_codes tries a') h \<le> count_list (codes_left a' u) h" using Cons.IH [OF f(1)] Cons.prems(2) by simp
  show ?case
  proof (cases "p = Some Recovery")
    case True
    then have "codes_left a u = recoveryHashes row" "codes_left a' u = drop_at i (recoveryHashes row)" using f(2) row by auto
    then show ?thesis using IH True count_drop_at [OF row(2), of h] by (auto simp: t s)
  next
    case False
    then show ?thesis using IH f(3) by (simp add: t s)
  qed
qed simp


subsection \<open>A right answer\<close>

lemma completeSignIn_session:
  assumes "signed_in (fst (completeSignIn w q target m tr a))"
  shows "sessions (ac_db (snd (completeSignIn w q target m tr a)))
    = sessions (ac_db a) @ [session_row_of (new_session q target) (sessionKey (aw_sha w) (ar_token q))]"
proof -
  obtain db where db: "createSession (aw_sha w) (ac_db a) (new_session q target) = Some db"
    using assms by (cases "createSession (aw_sha w) (ac_db a) (new_session q target)") (auto simp: completeSignIn_def signed_in_def)
  have "ac_db (note_browser w q target tr b) = ac_db b" for b
    by (auto simp: note_browser_def sendSignInAlert_def Let_def split: option.splits)
  then show ?thesis using db by (auto simp: completeSignIn_def Let_def createSession_def new_session_def split: if_splits)
qed

lemma checkAccountCode_db: "checkAccountCode sha hmac1 a row typed now = Inr (p, a') \<Longrightarrow> ac_db a' = ac_db a"
  by (auto simp: checkAccountCode_def spend_step_def spend_recovery_def Let_def split: if_splits sum.splits option.splits)

lemma checkPasskeyAnswer_db: "ac_db (snd (checkPasskeyAnswer w rp c st answer now a)) = ac_db a"
  by (auto simp: checkPasskeyAnswer_def Let_def split: option.splits sum.splits)

lemma check_answer_db: "check_answer w q body c st a = Inr (r, a') \<Longrightarrow> ac_db a' = ac_db a"
  using checkPasskeyAnswer_db [of w "rp_of w q" c st "field body ''passkey''" "ar_now q" a]
  by (fastforce simp: check_answer_def Let_def dest: checkAccountCode_db split: json.splits prod.splits option.splits if_splits sum.splits)


subsection \<open>Guesses sent at once\<close>

text \<open>
  Requests that have all read the challenge before any of them writes: each then settles its answer from
  the same row.
\<close>

fun settle_all :: "auth_world \<Rightarrow> (auth_request \<times> json) list \<Rightarrow> challenge_row \<Rightarrow> account \<Rightarrow> factor_state \<Rightarrow> accounts \<Rightarrow> accounts" where
  "settle_all w [] c u st a = a"
| "settle_all w ((q, body) # tries) c u st a = settle_all w tries c u st (snd (settle_answer w q body c u st a))"

definition wrong_guess :: "auth_world \<Rightarrow> challenge_row \<Rightarrow> json \<Rightarrow> bool" where
  "wrong_guess w c body =
     ((case field body ''passkey'' of JObj _ \<Rightarrow> False | _ \<Rightarrow> True)
      \<and> lc_email_code_hash c \<noteq> Some (code_hash w (lc_token_hash c) (take 40 (trim (string_nullish (field body ''code''))))))"

lemma wrong_guess_check:
  assumes "wrong_guess w c body" "fs_app st = None"
  shows "check_answer w q body c st a = Inr (Inl wrong_code, a)"
  using assms by (auto simp: check_answer_def wrong_guess_def Let_def timingSafeEqual_iff text_of_def truthy_text_def split: json.splits option.splits)

lemma settle_all_wrong:
  assumes "fs_app st = None" "\<forall>(q, body)\<in>set tries. wrong_guess w c body" "Suc (lc_attempts c) < CHALLENGE_ATTEMPTS"
    and "tbl_lookup lc_token_hash (lc_token_hash c) (ac_challenges a) = Some (c\<lparr>lc_attempts := k\<rparr>)"
  shows "tbl_lookup lc_token_hash (lc_token_hash c) (ac_challenges (settle_all w tries c u st a))
    = Some (c\<lparr>lc_attempts := if tries = [] then k else Suc (lc_attempts c)\<rparr>)"
  using assms(2,4)
proof (induction tries arbitrary: a k)
  case (Cons t tries)
  obtain q body where t: "t = (q, body)" by (cases t)
  have "check_answer w q body c st a = Inr (Inl wrong_code, a)" using Cons.prems(1) assms(1) by (intro wrong_guess_check) (simp_all add: t)
  then have "tbl_lookup lc_token_hash (lc_token_hash c) (ac_challenges (snd (settle_answer w q body c u st a)))
      = Some (c\<lparr>lc_attempts := Suc (lc_attempts c)\<rparr>)"
    using Cons.prems(2) assms(3) by (simp add: settle_answer_def count_wrong_def Let_def lookup_updated)
  then show ?case using Cons.IH Cons.prems(1) by (simp add: t)
qed simp

text \<open>
  C38. Wrong codes sent at once are counted as one: however many requests read the challenge before any
  of them writes, each writes back the count it read plus one, so the challenge stays open with one more
  wrong answer (an account without an authenticator app, fewer than four wrong answers so far).
\<close>

theorem parallel_guesses_uncounted:
  assumes "fs_app st = None" "\<forall>(q, body)\<in>set tries. wrong_guess w c body" "tries \<noteq> []" "lc_attempts c < 4"
    and "tbl_lookup lc_token_hash (lc_token_hash c) (ac_challenges a) = Some c"
  shows "tbl_lookup lc_token_hash (lc_token_hash c) (ac_challenges (settle_all w tries c u st a)) = Some (c\<lparr>lc_attempts := Suc (lc_attempts c)\<rparr>)"
  using settle_all_wrong [OF assms(1,2), of a "lc_attempts c" u] assms(3-5) by (simp add: CHALLENGE_ATTEMPTS_def)

subsection \<open>Passkeys of an account\<close>

definition passkey_count :: "accounts \<Rightarrow> string \<Rightarrow> nat" where
  "passkey_count a u = length (filter (\<lambda>p. pr_user_id p = u) (ac_passkeys a))"

definition passkeys_ok :: "accounts \<Rightarrow> bool" where
  "passkeys_ok a = (distinct_keys pg_user_id (ac_registrations a)
     \<and> (\<forall>u. passkey_count a u + (if u \<in> pg_user_id ` set (ac_registrations a) then 1 else 0) \<le> MAX_PASSKEYS))"

lemma passkeys_ok_same: "passkeys_ok a \<Longrightarrow> ac_passkeys a' = ac_passkeys a \<Longrightarrow> ac_registrations a' = ac_registrations a \<Longrightarrow> passkeys_ok a'"
  by (simp add: passkeys_ok_def passkey_count_def)

lemma passkeys_ok_fewer:
  assumes "passkeys_ok a" "\<And>u. passkey_count a' u \<le> passkey_count a u" "\<exists>P. ac_registrations a' = filter P (ac_registrations a)"
  shows "passkeys_ok a'"
proof -
  obtain P where P: "ac_registrations a' = filter P (ac_registrations a)" using assms(3) ..
  have le: "passkey_count a' u + (if u \<in> pg_user_id ` set (ac_registrations a') then 1 else 0)
      \<le> passkey_count a u + (if u \<in> pg_user_id ` set (ac_registrations a) then 1 else 0)" for u
    using assms(2) [of u] by (auto simp: P)
  have "passkey_count a' u + (if u \<in> pg_user_id ` set (ac_registrations a') then 1 else 0) \<le> MAX_PASSKEYS" for u
    using le [of u] assms(1) unfolding passkeys_ok_def by (meson le_trans)
  then show ?thesis using assms(1) by (simp add: passkeys_ok_def P distinct_map_filter)
qed

lemma passkey_tables [simp]:
  "ac_passkeys (audited s u action a) = ac_passkeys a" "ac_registrations (audited s u action a) = ac_registrations a"
  "ac_passkeys (sign_out_others w u t a) = ac_passkeys a" "ac_registrations (sign_out_others w u t a) = ac_registrations a"
  "ac_passkeys (drop_factor_traces u a) = ac_passkeys a" "ac_registrations (drop_factor_traces u a) = ac_registrations a"
  "ac_passkeys (drop_challenge h a) = ac_passkeys a" "ac_registrations (drop_challenge h a) = ac_registrations a"
  "ac_passkeys (snd (sendChallengeCode w q h v a)) = ac_passkeys a" "ac_registrations (snd (sendChallengeCode w q h v a)) = ac_registrations a"
  "ac_passkeys (snd (count_wrong c v now f a)) = ac_passkeys a" "ac_registrations (snd (count_wrong c v now f a)) = ac_registrations a"
  by (auto simp: audited_def sign_out_others_def drop_factor_traces_def drop_challenge_def sendChallengeCode_def count_wrong_def Let_def)

lemma complete_tables [simp]:
  "ac_passkeys (snd (completeSignIn w q target m tr a)) = ac_passkeys a" "ac_registrations (snd (completeSignIn w q target m tr a)) = ac_registrations a"
  by (auto simp: completeSignIn_def note_browser_def sendSignInAlert_def Let_def split: option.splits)

lemma continue_tables:
  "ac_passkeys (snd (continueSignIn w q target a)) = ac_passkeys a" "ac_registrations (snd (continueSignIn w q target a)) = ac_registrations a"
  by (auto simp: continueSignIn_def start_challenge_def Let_def split: option.splits)

lemma account_code_tables:
  "checkAccountCode sha hmac1 a row typed now = Inr (p, a') \<Longrightarrow> ac_passkeys a' = ac_passkeys a \<and> ac_registrations a' = ac_registrations a"
  by (auto simp: checkAccountCode_def spend_step_def spend_recovery_def Let_def split: if_splits sum.splits option.splits)

lemma email_code_tables:
  "ac_passkeys (snd (handleLoginEmailCode w q a)) = ac_passkeys a \<and> ac_registrations (snd (handleLoginEmailCode w q a)) = ac_registrations a"
proof -
  have "ac_passkeys a' = ac_passkeys a \<and> ac_registrations a' = ac_registrations a" if "sendChallengeCode w q h u a = (ok, a')" for h u ok a'
    using passkey_tables(9,10) [of w q h u a] that by simp
  then show ?thesis by (auto simp: handleLoginEmailCode_def Let_def split: option.splits prod.splits bool.splits)
qed

lemma count_updated: "(\<And>p. pr_user_id (f p) = pr_user_id p) \<Longrightarrow> length (filter (\<lambda>p. pr_user_id p = u) (tbl_update P f ps)) = length (filter (\<lambda>p. pr_user_id p = u) ps)"
  by (induction ps) (auto simp: tbl_update_def)

lemma passkey_answer_tables:
  "passkey_count (snd (checkPasskeyAnswer w rp c st answer now a)) u = passkey_count a u"
  "ac_registrations (snd (checkPasskeyAnswer w rp c st answer now a)) = ac_registrations a"
  by (auto simp: checkPasskeyAnswer_def passkey_count_def Let_def count_updated split: option.splits sum.splits)

lemma answer_tables:
  assumes "check_answer w q body c st a = Inr (r, a')"
  shows "passkey_count a' u = passkey_count a u \<and> ac_registrations a' = ac_registrations a"
proof (cases "\<exists>fs. field body ''passkey'' = JObj fs")
  case True
  then obtain fs where fs: "field body ''passkey'' = JObj fs" ..
  then have "a' = snd (checkPasskeyAnswer w (rp_of w q) c st (JObj fs) (ar_now q) a)"
    using assms by (auto simp: check_answer_def split: prod.splits option.splits)
  then show ?thesis by (simp add: passkey_answer_tables)
next
  case False
  then have "a' = a \<or> (\<exists>row typed p. checkAccountCode (aw_sha w) (aw_hmac1 w) a row typed (ar_now q) = Inr (p, a'))"
    using assms by (fastforce simp: check_answer_def Let_def split: json.splits option.splits if_splits sum.splits)
  then show ?thesis using account_code_tables by (fastforce simp: passkey_count_def)
qed

lemma verify_tables:
  "(\<forall>u. passkey_count (snd (handleLoginVerify w q a)) u = passkey_count a u) \<and> ac_registrations (snd (handleLoginVerify w q a)) = ac_registrations a"
proof -
  have "(\<forall>u. passkey_count (snd (settle_answer w q body c u' st a)) u = passkey_count a u) \<and> ac_registrations (snd (settle_answer w q body c u' st a)) = ac_registrations a"
    for body c u' st
  proof (cases "check_answer w q body c st a")
    case (Inr p)
    then obtain r a' where p: "check_answer w q body c st a = Inr (r, a')" by (cases p) auto
    show ?thesis using answer_tables [OF p] p by (cases r) (auto simp: settle_answer_def passkey_count_def)
  qed (simp add: settle_answer_def)
  then show ?thesis by (auto simp: handleLoginVerify_def passkey_count_def Let_def split: option.splits)
qed

lemma with_password_cases:
  "with_password w q body u a go = go a \<or> (\<exists>d. with_password w q body u a go = (Refuse ''The password is not correct'' 400, a\<lparr>ac_db := d\<rparr>))"
  by (auto simp: with_password_def passwordOk_def)

lemma passkeys_ok_simps [simp]:
  "passkeys_ok (audited s u action a) = passkeys_ok a" "passkeys_ok (sign_out_others w u t a) = passkeys_ok a"
  "passkeys_ok (drop_factor_traces u a) = passkeys_ok a" "passkeys_ok (a\<lparr>ac_users := us\<rparr>) = passkeys_ok a"
  "passkeys_ok (a\<lparr>ac_db := d\<rparr>) = passkeys_ok a" "passkeys_ok (a\<lparr>ac_two_factor := tf\<rparr>) = passkeys_ok a"
  "passkeys_ok (a\<lparr>ac_challenges := cs\<rparr>) = passkeys_ok a"
  by (simp_all add: passkeys_ok_def passkey_count_def)

lemma passkeys_ok_password:
  assumes "passkeys_ok a" "passkeys_ok (snd (go a))"
  shows "passkeys_ok (snd (with_password w q body u a go))"
  using with_password_cases [of w q body u a go] assms by auto

lemma passkeys_ok_options: "passkeys_ok a \<Longrightarrow> passkeys_ok (snd (passkey_options_action w q body u st a))"
proof -
  assume ok: "passkeys_ok a"
  show ?thesis
  proof (cases "length (own_passkeys u a) \<ge> MAX_PASSKEYS")
    case False
    have "set (tbl_upsert pg_user_id r t) \<subseteq> insert r (set t)" for r :: registration_row and t
      by (auto simp: tbl_upsert_def)
    then have keys: "v \<in> pg_user_id ` set (tbl_upsert pg_user_id r t) \<Longrightarrow> v \<noteq> pg_user_id r \<Longrightarrow> v \<in> pg_user_id ` set t" for v and r :: registration_row and t
      by blast
    have room: "passkey_count a (us_id u) < MAX_PASSKEYS" using False by (simp add: own_passkeys_def passkey_count_def)
    have "passkeys_ok (a\<lparr>ac_registrations := tbl_upsert pg_user_id \<lparr>pg_user_id = us_id u, pg_challenge = c, pg_rp_id = rp, pg_expires_at = e\<rparr> (ac_registrations a)\<rparr>)" for c rp e
      unfolding passkeys_ok_def
    proof (intro conjI allI)
      let ?r = "\<lparr>pg_user_id = us_id u, pg_challenge = c, pg_rp_id = rp, pg_expires_at = e\<rparr>"
      let ?a = "a\<lparr>ac_registrations := tbl_upsert pg_user_id ?r (ac_registrations a)\<rparr>"
      show "distinct_keys pg_user_id (ac_registrations ?a)" using ok by (simp add: passkeys_ok_def distinct_keys_upsert)
      show "passkey_count ?a v + (if v \<in> pg_user_id ` set (ac_registrations ?a) then 1 else 0) \<le> MAX_PASSKEYS" for v
      proof (cases "v = us_id u")
        case True
        then show ?thesis using room by (simp add: passkey_count_def)
      next
        case False
        have "passkey_count a v + (if v \<in> pg_user_id ` set (ac_registrations a) then 1 else 0) \<le> MAX_PASSKEYS" using ok by (simp add: passkeys_ok_def)
        then show ?thesis using keys [of v ?r "ac_registrations a"] False by (auto simp: passkey_count_def split: if_splits)
      qed
    qed
    then show ?thesis using False ok by (auto simp: passkey_options_action_def Let_def intro!: passkeys_ok_password)
  qed (simp add: passkey_options_action_def ok)
qed

lemma passkeys_ok_add:
  assumes "passkeys_ok a" "passkey_count a (pr_user_id row) < MAX_PASSKEYS" "pr_user_id row \<notin> pg_user_id ` set (ac_registrations a)"
  shows "passkeys_ok (a\<lparr>ac_passkeys := ac_passkeys a @ [row]\<rparr>)"
  unfolding passkeys_ok_def
proof (intro conjI allI)
  let ?a = "a\<lparr>ac_passkeys := ac_passkeys a @ [row]\<rparr>"
  show "distinct_keys pg_user_id (ac_registrations ?a)" using assms(1) by (simp add: passkeys_ok_def)
  show "passkey_count ?a v + (if v \<in> pg_user_id ` set (ac_registrations ?a) then 1 else 0) \<le> MAX_PASSKEYS" for v
  proof (cases "v = pr_user_id row")
    case True
    then show ?thesis using assms(2,3) by (simp add: passkey_count_def)
  next
    case False
    moreover have "passkey_count a v + (if v \<in> pg_user_id ` set (ac_registrations a) then 1 else 0) \<le> MAX_PASSKEYS"
      using assms(1) by (simp add: passkeys_ok_def)
    ultimately show ?thesis by (simp add: passkey_count_def)
  qed
qed

lemma filter_length_filter: "length (filter P (filter Q xs)) \<le> length (filter P xs)"
  by (induction xs) auto

lemma passkeys_ok_register: "passkeys_ok a \<Longrightarrow> passkeys_ok (snd (passkey_register_action w q body s t u a))"
proof -
  assume ok: "passkeys_ok a"
  let ?hit = "\<lambda>r. pg_user_id r = us_id u \<and> pg_expires_at r \<ge> ar_now q"
  let ?a1 = "a\<lparr>ac_registrations := filter (\<lambda>r. \<not> ?hit r) (ac_registrations a)\<rparr>"
  have ok1: "passkeys_ok ?a1" using ok by (rule passkeys_ok_fewer) (auto simp: passkey_count_def)
  show ?thesis
  proof (cases "find ?hit (ac_registrations a)")
    case (Some p)
    then have p: "p \<in> set (ac_registrations a)" "?hit p" by (auto simp: find_Some_iff)
    have gone: "us_id u \<notin> pg_user_id ` set (filter (\<lambda>r. \<not> ?hit r) (ac_registrations a))"
    proof
      assume "us_id u \<in> pg_user_id ` set (filter (\<lambda>r. \<not> ?hit r) (ac_registrations a))"
      then obtain r where "r \<in> set (ac_registrations a)" "pg_user_id r = us_id u" "\<not> ?hit r" by auto
      then show False using p ok unfolding passkeys_ok_def distinct_map by (metis inj_onD)
    qed
    have "passkey_count a (us_id u) < MAX_PASSKEYS" 
    proof -
      have "us_id u \<in> pg_user_id ` set (ac_registrations a)" using p by force
      moreover have "passkey_count a (us_id u) + (if us_id u \<in> pg_user_id ` set (ac_registrations a) then 1 else 0) \<le> MAX_PASSKEYS"
        using ok by (simp add: passkeys_ok_def)
      ultimately show ?thesis by simp
    qed
    then have "passkeys_ok (?a1\<lparr>ac_passkeys := ac_passkeys a @ [row]\<rparr>)" if "pr_user_id row = us_id u" for row
      using passkeys_ok_add [OF ok1, of row] gone that by (simp add: passkey_count_def)
    then show ?thesis using ok1 Some by (auto simp: passkey_register_action_def Let_def split: sum.splits)
  qed (use ok1 in \<open>simp add: passkey_register_action_def Let_def\<close>)
qed

lemma passkeys_ok_settings: "passkeys_ok a \<Longrightarrow> passkeys_ok (snd (handleTwoFactorRoute w q m action s t a))"
proof -
  assume ok: "passkeys_ok a"
  have email: "passkeys_ok (snd (email_action w q body s' t u st a))" for body s' u st
    by (auto simp: email_action_def Let_def ok split: json.splits intro!: passkeys_ok_password)
  have "passkeys_ok (a\<lparr>ac_passkeys := filter P (ac_passkeys a)\<rparr>)" for P
    using ok by (rule passkeys_ok_fewer) (simp_all add: passkey_count_def filter_length_filter del: filter_filter, rule exI [of _ "\<lambda>_. True"], simp)
  then have del: "passkeys_ok (snd (passkey_delete_action w q body s' u st a))" for body s' u st
    by (auto simp: passkey_delete_action_def Let_def ok intro!: passkeys_ok_password)
  have app: "passkeys_ok (snd (setup_action w q body u row a))" "passkeys_ok (snd (enable_action w q body s' t u row a))" for body s' u row
    by (auto simp: setup_action_def enable_action_def Let_def ok split: option.splits sum.splits intro!: passkeys_ok_password)
  have code: "passkeys_ok a'" if "checkAccountCode sha hmac1 a row typed now = Inr (p, a')" for sha hmac1 row typed now p a'
    using account_code_tables [OF that] passkeys_ok_same [OF ok] by simp
  have change: "passkeys_ok (snd (prove_and_change w q body u row a go))" if "\<And>b. passkeys_ok b \<Longrightarrow> passkeys_ok (snd (go b))" for body u row go
    using that by (auto simp: prove_and_change_def ok dest!: code split: option.splits sum.splits intro!: passkeys_ok_password)
  have "passkeys_ok (snd (two_factor_action w q action body s' t u a))" for body s' u
    by (simp add: two_factor_action_def Let_def email del app passkeys_ok_options passkeys_ok_register ok
        recovery_codes_action_def disable_action_def change)
  then show ?thesis using ok by (auto simp: handleTwoFactorRoute_def Let_def split: option.splits)
qed

lemma passkeys_ok_step: "passkeys_ok a \<Longrightarrow> passkeys_ok (auth_step w e a)"
proof (cases e)
  case (Verify q)
  assume ok: "passkeys_ok a"
  have same: "ac_registrations (snd (handleLoginVerify w q a)) = filter (\<lambda>_. True) (ac_registrations a)" using verify_tables [of w q a] by simp
  have "passkeys_ok (snd (handleLoginVerify w q a))"
  proof (rule passkeys_ok_fewer [OF ok])
    show "passkey_count (snd (handleLoginVerify w q a)) u \<le> passkey_count a u" for u using verify_tables [of w q a] by simp
    show "\<exists>P. ac_registrations (snd (handleLoginVerify w q a)) = filter P (ac_registrations a)" by (rule exI) (rule same)
  qed
  then show ?thesis using Verify by simp
next
  case (Passkey_options q)
  assume "passkeys_ok a"
  then show ?thesis using Passkey_options
    by (auto simp: handleLoginPasskeyOptions_def Let_def split: option.splits)
next
  case (Purge now)
  assume ok: "passkeys_ok a"
  have regs: "ac_registrations (purgeExpiredLoginChallenges a now) = filter (\<lambda>r. \<not> pg_expires_at r < now) (ac_registrations a)"
    by (simp add: purgeExpiredLoginChallenges_def)
  have "passkeys_ok (purgeExpiredLoginChallenges a now)"
  proof (rule passkeys_ok_fewer [OF ok])
    show "passkey_count (purgeExpiredLoginChallenges a now) u \<le> passkey_count a u" for u by (simp add: purgeExpiredLoginChallenges_def passkey_count_def)
    show "\<exists>P. ac_registrations (purgeExpiredLoginChallenges a now) = filter P (ac_registrations a)" by (rule exI) (rule regs)
  qed
  then show ?thesis using Purge by simp
next
  case (Settings q m action s t)
  assume "passkeys_ok a"
  then show ?thesis using Settings passkeys_ok_settings by simp
qed (auto simp: continue_tables email_code_tables revokeTrustedBrowsers_def intro: passkeys_ok_same)

interpretation passkeys: step_system "auth_step w" passkeys_ok for w
  by unfold_locales (rule passkeys_ok_step)

text \<open>
  No run of requests leaves an account with more than ten passkeys.
\<close>

theorem at_most_ten_passkeys:
  assumes "ac_passkeys a = []" "ac_registrations a = []"
  shows "length (own_passkeys u (run_steps (auth_step w) es a)) \<le> 10"
proof -
  have "passkeys_ok (run_steps (auth_step w) es a)"
    using assms by (intro passkeys.run_invar) (simp add: passkeys_ok_def passkey_count_def)
  then have "passkey_count (run_steps (auth_step w) es a) (us_id u) \<le> MAX_PASSKEYS"
    unfolding passkeys_ok_def by (meson add_leD1)
  then show ?thesis by (simp add: own_passkeys_def passkey_count_def MAX_PASSKEYS_def)
qed

subsection \<open>Concrete cases\<close>

definition demo_world :: auth_world where
  "demo_world = \<lparr>aw_sha = (\<lambda>s. CHR ''#'' # s), aw_hmac1 = (\<lambda>_ _. replicate 20 1), aw_hmac = (\<lambda>_ bs. bs), aw_pbkdf2 = (\<lambda>_ s. s), aw_pepper = ''p'',
     aw_passkey = sample_crypto, aw_handoff = sample_seal, aw_resolve = (\<lambda>_ _. None), aw_default_domain = Some ''lab.org'',
     aw_mail_problem = False, aw_secure = True, aw_legacy = None\<rparr>"

definition demo_request :: "json \<Rightarrow> auth_request" where
  "demo_request body = \<lparr>ar_scheme = ''https:'', ar_host = ''lab.org'', ar_body = Some body, ar_device_cookie = [], ar_user_agent = ''B'', ar_ip = ''::1'',
     ar_now = 1000, ar_token = sample_token, ar_device = ''d'', ar_number = 7, ar_bytes = [1], ar_iv = [], ar_draws = [],
     ar_mail_sent = True, ar_alert_sent = True\<rparr>"

definition demo_user :: account where
  "demo_user = \<lparr>us_id = ''u1'', us_email = ''a@lab.org'', us_password_hash = [], us_salt = [], us_role = Super_admin, us_name = ''A'', us_two_factor_email = 0\<rparr>"

definition demo_target :: sign_in_target where
  "demo_target = \<lparr>st_userId = ''u1'', st_tenantId = None, st_role = Super_admin, st_redirect = ''/super''\<rparr>"

definition demo_challenge :: challenge_row where
  "demo_challenge = \<lparr>lc_token_hash = CHR ''#'' # sample_token, lc_user_id = ''u1'', lc_tenant_id = None, lc_role = Super_admin, lc_redirect = ''/super'',
     lc_attempts = 0, lc_email_code_hash = Some (code_hash demo_world (CHR ''#'' # sample_token) ''123456''), lc_email_codes_sent = 1,
     lc_email_code_sent_at = Some 900, lc_expires_at = 1600, lc_passkey_challenge = None\<rparr>"

definition demo_row :: two_factor_row where
  "demo_row = \<lparr>tf_user_id = ''u1'', tf_totp_secret = ''MFRGG'', tf_enabled_at = Some 1, tf_last_totp_step = 3,
     tf_recovery_codes = Some (JArr [JStr ''h1'', JStr ''h2'']), tf_created_at = 1\<rparr>"

definition demo_accounts :: "challenge_row list \<Rightarrow> two_factor_row list \<Rightarrow> accounts" where
  "demo_accounts cs tf = \<lparr>ac_db = empty_db, ac_users = [demo_user], ac_two_factor = tf, ac_challenges = cs, ac_passkeys = [], ac_registrations = [],
     ac_browsers = [], ac_audit = [], ac_outbox = []\<rparr>"

lemmas demo_defs = demo_world_def demo_request_def demo_user_def demo_target_def demo_accounts_def

lemma demo_user_found: "findUserById (demo_accounts cs tf) ''u1'' = Some demo_user"
  by (simp add: findUserById_def demo_defs tbl_lookup_def)

lemma demo_administrator: "isAdministratorAccount (demo_accounts cs tf) demo_user"
  by (simp add: isAdministratorAccount_def demo_user_def)

lemma demo_untrusted: "\<not> trusted_browser demo_world (demo_request body) u (demo_accounts cs tf)"
  by (simp add: trusted_browser_def deviceTokenFrom_def hex_token_def demo_defs)

theorem password_alone_witness:
  "\<not> signed_in (fst (continueSignIn demo_world (demo_request JNull) demo_target (demo_accounts [] [])))
   \<and> sessions (ac_db (snd (continueSignIn demo_world (demo_request JNull) demo_target (demo_accounts [] [])))) = []"
proof -
  have "findUserById (demo_accounts [] []) (st_userId demo_target) = Some demo_user"
    using demo_user_found by (simp add: demo_target_def)
  note alone = password_alone [OF this disjI1 [OF demo_administrator] demo_untrusted disjI1]
  show ?thesis using alone by (simp add: demo_accounts_def demo_world_def empty_db_def)
qed



lemma sample_token_hex: "hex_token sample_token"
  by (simp add: hex_token_def sample_token_def list_all_iff is_lower_hex_def)

definition demo_answer :: "string \<Rightarrow> json" where
  "demo_answer typed = JObj [(''challenge'', JStr sample_token), (''code'', JStr typed)]"

lemma demo_no_trust: "field (demo_answer typed) ''trustBrowser'' = JUndefined" "field (demo_answer typed) ''challenge'' = JStr sample_token"
  "truthy (demo_answer typed)"
  by (simp_all add: demo_answer_def)

lemma demo_challenge_found: "findChallenge demo_world (demo_accounts [demo_challenge] []) (JStr sample_token) 1000 = Some demo_challenge"
  using sample_token_hex by (simp add: findChallenge_def demo_defs demo_challenge_def tbl_lookup_def string_nullish_def)

lemma demo_trimmed: "take 40 (trim ''123456'') = ''123456''" "take 40 (trim ''000000'') = ''000000''" "six_digits ''123456''"
  by code_simp+

lemma demo_body: "ar_body (demo_request body) = Some body" "ar_now (demo_request body) = 1000"
  by (simp_all add: demo_request_def)

lemma demo_owner: "lc_user_id demo_challenge = ''u1''"
  by (simp add: demo_challenge_def)

lemma demo_unlocked: "getLockoutRemaining (ac_db (demo_accounts cs tf)) i now = 0"
  by (simp add: getLockoutRemaining_def demo_accounts_def empty_db_def tbl_lookup_def)

lemma demo_hash: "code_hash demo_world h t \<noteq> []"
proof -
  have "length (code_hash demo_world h t) = 2 * length (text_bytes (''code:'' @ h @ '':'' @ t))"
    by (simp add: code_hash_def oneTimeCodeHash_def demo_world_def length_bufferToHex)
  moreover have "text_bytes (''code:'' @ x) \<noteq> []" for x by (simp add: text_bytes_def)
  ultimately show ?thesis by auto
qed

lemma demo_signed_in: "signed_in (fst (handleLoginVerify demo_world (demo_request (demo_answer ''123456'')) (demo_accounts [demo_challenge] [])))"
proof -
  let ?a = "demo_accounts [demo_challenge] []" and ?q = "demo_request (demo_answer ''123456'')"
  have st: "hasSecondFactor (factorState ?a demo_user rp)" for rp
    using demo_administrator by (simp add: factorState_def hasSecondFactor_def Let_def)
  have check: "check_answer demo_world ?q (demo_answer ''123456'') demo_challenge st ?a = Inr (Inr By_email, ?a)" for st
    by (simp add: check_answer_def demo_answer_def string_nullish_def demo_trimmed demo_challenge_def demo_hash truthy_text_def text_of_def timingSafeEqual_iff Let_def)
  let ?b = "(drop_challenge (lc_token_hash demo_challenge) ?a)\<lparr>ac_db := clearLoginFailures (ac_db ?a) (us_email demo_user)\<rparr>"
  have "tbl_lookup lc_token_hash (lc_token_hash demo_challenge) (ac_challenges ?a) = Some demo_challenge" by (simp add: demo_accounts_def tbl_lookup_def)
  then have settle: "settle_answer demo_world ?q (demo_answer ''123456'') demo_challenge demo_user st ?a
      = completeSignIn demo_world ?q (challenge_target demo_challenge) By_email False ?b" for st
    by (simp add: settle_answer_def check demo_no_trust)
  have "sign_in_reply demo_world ?q target = Answer (Signed_in sample_token ''/'' True ''d''
      [createSessionCookie sample_token True (sessionSecondsFor (st_role target)), deviceCookie ''d'' True])" for target
    by (simp add: sign_in_reply_def signInDestination_def browser_token_def deviceTokenFrom_def hex_token_def clearSessionCookies_def truthy_text_def demo_defs Let_def)
  then have "signed_in (fst (completeSignIn demo_world ?q target m tr ?b))" for target m tr
    by (simp add: completeSignIn_def createSession_def signed_in_def demo_accounts_def empty_db_def clearLoginFailures_def tbl_lookup_def Let_def)
  then have "signed_in (fst (settle_answer demo_world ?q (demo_answer ''123456'') demo_challenge demo_user st ?a))" for st
    by (simp add: settle)
  then show ?thesis using st demo_challenge_found demo_user_found
    by (simp add: handleLoginVerify_def demo_no_trust demo_body demo_owner demo_unlocked Let_def)
qed


theorem parallel_guesses_uncounted_witness:
  "tbl_lookup lc_token_hash (CHR ''#'' # sample_token)
     (ac_challenges (settle_all demo_world (replicate 100 (demo_request (demo_answer ''000000''), demo_answer ''000000''))
        (demo_challenge\<lparr>lc_email_code_hash := Some ''0''\<rparr>) demo_user \<lparr>fs_app = None, fs_passkeys = [], fs_email = True, fs_required = True\<rparr>
        (demo_accounts [demo_challenge\<lparr>lc_email_code_hash := Some ''0''\<rparr>] [])))
   = Some (demo_challenge\<lparr>lc_email_code_hash := Some ''0'', lc_attempts := 1\<rparr>)"
proof -
  let ?c = "demo_challenge\<lparr>lc_email_code_hash := Some ''0''\<rparr>"
  have even: "even (length (bufferToHex bs))" for bs by (simp add: length_bufferToHex)
  have "code_hash demo_world (lc_token_hash ?c) t \<noteq> ''0''" for t
    using even [of "aw_hmac demo_world (aw_pepper demo_world) (text_bytes (''code:'' @ (lc_token_hash ?c @ '':'' @ t)))"]
    by (auto simp: code_hash_def oneTimeCodeHash_def)
  then have "wrong_guess demo_world ?c (demo_answer ''000000'')"
    by (simp add: wrong_guess_def demo_answer_def string_nullish_def eq_commute [of "''0''"])
  then show ?thesis
    using parallel_guesses_uncounted [of "\<lparr>fs_app = None, fs_passkeys = [], fs_email = True, fs_required = True\<rparr>"
        "replicate 100 (demo_request (demo_answer ''000000''), demo_answer ''000000'')" demo_world ?c "demo_accounts [?c] []" demo_user]
    by (simp add: demo_accounts_def demo_challenge_def tbl_lookup_def)
qed

theorem at_most_ten_passkeys_witness:
  "length (own_passkeys demo_user (run_steps (auth_step demo_world) [Continue (demo_request JNull) demo_target, Purge 5] (demo_accounts [] []))) \<le> 10"
  by (rule at_most_ten_passkeys) (simp_all add: demo_accounts_def)

end
