(* ===== verification/Single_Sign_On.thy ===== *)
theory Single_Sign_On
  imports Id_Token Sign_In_Runs
begin

text \<open>
  Single sign-on, the flow across hosts (\<open>src/cloudflare-control/src/sso.ts\<close>): start, callback, redeem and
  the settings route, on the rows of \<open>sso_states\<close> and \<open>sso_settings\<close>. The provider's token endpoint is a
  function of the form posted to it, \<open>new URL(...).host\<close> a partial function; what is drawn at random and what
  the key endpoint answers belong to a request.
\<close>

definition STATE_SECONDS :: int where "STATE_SECONDS = 10 * 60"

definition SSO_HANDOFF_SECONDS :: int where "SSO_HANDOFF_SECONDS = 2 * 60"

definition START_LIMIT_perAddress :: nat where "START_LIMIT_perAddress = 30"

definition START_LIMIT_windowSeconds :: int where "START_LIMIT_windowSeconds = 10 * 60"

definition SSO_CALLBACK_PATH :: string where "SSO_CALLBACK_PATH = ''/api/auth/sso/callback''"

record state_row =
  sx_state_hash :: string
  sx_tenant_id :: string
  sx_provider :: sso_provider
  sx_code_verifier :: string
  sx_nonce :: string
  sx_redirect_uri :: string
  sx_return_origin :: string
  sx_browser_hash :: string
  sx_used_at :: "int option"
  sx_user_id :: "string option"
  sx_handoff_hash :: "string option"
  sx_created_at :: int
  sx_expires_at :: int

record sso_store =
  ss_accounts :: accounts
  ss_settings :: "sso_settings_row list"
  ss_states :: "state_row list"
  ss_keys :: jwks_cache

text \<open>The token endpoint's answer: status and body, \<open>None\<close> where it is not JSON; nothing where it cannot be reached.\<close>

type_synonym token_answer = "(nat \<times> json option) option"

record sso_world =
  sw_auth :: auth_world
  sw_clients :: sso_clients
  sw_token :: token_crypto
  sw_exchange :: "sso_provider \<Rightarrow> (string \<times> string) list \<Rightarrow> token_answer"
  sw_url_host :: "string \<Rightarrow> string option"
  sw_canonical :: "string option"

text \<open>
  A request: what the guard reads of it, its address, query parameters and the \<open>labkiosk_sso\<close> cookie, and in
  \<open>sq_auth\<close> what a sign-in needs; then the bytes drawn while it runs, the key endpoint's answer and the time in
  milliseconds.
\<close>

record sso_request =
  sq_web :: web_request
  sq_url_host :: string
  sq_url_origin :: string
  sq_dev :: bool
  sq_params :: "(string \<times> string) list"
  sq_cookie :: "string option"
  sq_auth :: auth_request
  sq_state :: "byte list"
  sq_verifier :: "byte list"
  sq_nonce :: "byte list"
  sq_browser :: "byte list"
  sq_handoff :: "byte list"
  sq_keys :: key_answer
  sq_ms :: int

abbreviation sq_now :: "sso_request \<Rightarrow> int" where
  "sq_now q \<equiv> ar_now (sq_auth q)"

abbreviation sw_sha :: "sso_world \<Rightarrow> string \<Rightarrow> string" where
  "sw_sha w \<equiv> aw_sha (sw_auth w)"

definition request_host :: "sso_request \<Rightarrow> string" where
  "request_host q = toLowerCase (if truthy_text (rq_host (sq_web q)) then text_of (rq_host (sq_web q)) else sq_url_host q)"

datatype sso_answer =
    Sso_json string nat
  | Sso_page string
  | Sso_goto string "string list"
  | Sso_throw string

subsection \<open>Hosts and pages\<close>

text \<open>\<open>canonicalHost\<close> of \<open>seo.ts\<close>; \<open>Inl\<close> is its error for a deployment that contradicts itself.\<close>

definition canonicalHost :: "string option \<Rightarrow> string option \<Rightarrow> string + string option" where
  "canonicalHost DEFAULT_DOMAIN CANONICAL_HOST =
     (let base = toLowerCase (strip_leading_dot (text_of DEFAULT_DOMAIN)); configured = toLowerCase (trim (text_of CANONICAL_HOST)) in
      if base = [] then (if configured \<noteq> [] then Inl ''CANONICAL_HOST is set but DEFAULT_DOMAIN is not; set DEFAULT_DOMAIN too'' else Inr None)
      else if configured = [] then Inr (Some base)
      else if \<not> DOMAIN_PATTERN configured \<or> (configured \<noteq> base \<and> \<not> endsWith configured (CHR ''.'' # base))
      then Inl (''CANONICAL_HOST '' @ [CHR 0x22] @ configured @ [CHR 0x22] @ '' must be '' @ base @ '' or a host name under it'')
      else Inr (Some configured))"

definition sw_host :: "sso_world \<Rightarrow> string + string option" where
  "sw_host w = canonicalHost (aw_default_domain (sw_auth w)) (sw_canonical w)"

definition ssoRedirectUri :: "sso_world \<Rightarrow> sso_request \<Rightarrow> string + string option" where
  "ssoRedirectUri w q =
     (if sq_dev q then Inr (Some (sq_url_origin q @ SSO_CALLBACK_PATH))
      else case sw_host w of
        Inl e \<Rightarrow> Inl e | Inr host \<Rightarrow> Inr (if truthy_text host then Some (''https://'' @ text_of host @ SSO_CALLBACK_PATH) else None))"

definition returnOriginFor :: "sso_world \<Rightarrow> sso_request \<Rightarrow> tenant \<Rightarrow> string + string option" where
  "returnOriginFor w q t =
     (if sq_dev q then Inr (Some (sq_url_origin q))
      else let host = hostname (sq_web q); base = toLowerCase (strip_leading_dot (text_of (aw_default_domain (sw_auth w)))) in
        case sw_host w of
          Inl e \<Rightarrow> Inl e
        | Inr canonical \<Rightarrow>
            let allowed = [base, toLowerCase (tn_subdomain t @ ''.'' @ base)]
                  @ (if truthy_text (tn_custom_domain t) then [toLowerCase (text_of (tn_custom_domain t))] else [])
                  @ (if truthy_text canonical then [toLowerCase (text_of canonical)] else [])
            in Inr (if base \<noteq> [] \<and> host \<in> set allowed then Some (''https://'' @ host) else None))"

definition signInPage :: "string \<Rightarrow> string \<Rightarrow> string \<Rightarrow> string \<Rightarrow> string" where
  "signInPage returnOrigin tenantSlug param v =
     returnOrigin @ ''/?login=1&tenant='' @ encodeURIComponent tenantSlug @ ''&'' @ param @ ''='' @ encodeURIComponent v"

definition browserCookie :: "string \<Rightarrow> bool \<Rightarrow> int \<Rightarrow> string" where
  "browserCookie v secure maxAge =
     join ''; '' ([''labkiosk_sso='' @ v, ''Path=/api/auth/sso'', ''Max-Age='' @ show_int maxAge, ''HttpOnly'', ''SameSite=Strict'']
       @ (if secure then [''Secure''] else []))"

definition browserTokenFrom :: "sso_request \<Rightarrow> string option" where
  "browserTokenFrom q = (if hex_token (text_of (sq_cookie q)) then sq_cookie q else None)"

text \<open>\<open>URLSearchParams\<close> as text: the \<open>application/x-www-form-urlencoded\<close> form of the pairs.\<close>

definition form_char :: "char \<Rightarrow> string" where
  "form_char c =
     (if c = CHR '' '' then ''+''
      else if is_lower c \<or> is_upper c \<or> is_digit c \<or> c \<in> {CHR ''*'', CHR ''-'', CHR ''.'', CHR ''_''} then [c]
      else if code c < 128 then percent (code c) else percent (192 + code c div 64) @ percent (128 + code c mod 64))"

definition form_text :: "(string \<times> string) list \<Rightarrow> string" where
  "form_text ps = join ''&'' (map (\<lambda>(k, v). concat (map form_char k) @ ''='' @ concat (map form_char v)) ps)"

subsection \<open>Start\<close>

definition minutes_text :: "int \<Rightarrow> string" where
  "minutes_text seconds = show_int (- ((- seconds) div 60))"

text \<open>The value of the browser cookie a start leaves: the one there already, or a new one.\<close>

definition browser_value :: "sso_request \<Rightarrow> string" where
  "browser_value q = (case browserTokenFrom q of Some b \<Rightarrow> b | None \<Rightarrow> bufferToHex (sq_browser q))"

definition new_state :: "sso_world \<Rightarrow> sso_request \<Rightarrow> tenant \<Rightarrow> sso_provider \<Rightarrow> string \<Rightarrow> string \<Rightarrow> state_row" where
  "new_state w q t p redirectUri returnOrigin =
     \<lparr>sx_state_hash = sw_sha w (toBase64url (sq_state q)), sx_tenant_id = tn_id t, sx_provider = p,
      sx_code_verifier = toBase64url (sq_verifier q), sx_nonce = toBase64url (sq_nonce q), sx_redirect_uri = redirectUri,
      sx_return_origin = returnOrigin, sx_browser_hash = sw_sha w (browser_value q), sx_used_at = None, sx_user_id = None,
      sx_handoff_hash = None, sx_created_at = sq_now q, sx_expires_at = sq_now q + STATE_SECONDS\<rparr>"

definition authorize_params :: "sso_world \<Rightarrow> sso_request \<Rightarrow> string \<Rightarrow> sso_provider \<Rightarrow> sso_settings \<Rightarrow> string \<Rightarrow> (string \<times> string) list" where
  "authorize_params w q clientId p settings redirectUri =
     [(''client_id'', clientId), (''response_type'', ''code''), (''redirect_uri'', redirectUri), (''scope'', ''openid email profile''),
      (''state'', toBase64url (sq_state q)), (''nonce'', toBase64url (sq_nonce q)),
      (''code_challenge'', toBase64url (pc_sha (aw_passkey (sw_auth w)) (text_bytes (toBase64url (sq_verifier q))))),
      (''code_challenge_method'', ''S256''), (''prompt'', ''select_account'')]
     @ (if p = Google \<and> length (so_googleDomains settings) = 1 then [(''hd'', hd (so_googleDomains settings))] else [])"

definition with_db :: "(d1 \<Rightarrow> d1) \<Rightarrow> sso_store \<Rightarrow> sso_store" where
  "with_db f s = s\<lparr>ss_accounts := (ss_accounts s)\<lparr>ac_db := f (ac_db (ss_accounts s))\<rparr>\<rparr>"

definition handleSsoStart :: "sso_world \<Rightarrow> sso_request \<Rightarrow> tenant option \<Rightarrow> sso_store \<Rightarrow> sso_answer \<times> sso_store" where
  "handleSsoStart w q tenant s =
     (case isSsoProvider (map_of (sq_params q) ''provider'') of
        None \<Rightarrow> (Sso_json ''provider is google or microsoft'' 400, s)
      | Some p \<Rightarrow>
      (case tenant of
        None \<Rightarrow> (Sso_json ''No organization selected for this sign-in'' 400, s)
      | Some t \<Rightarrow>
      (case returnOriginFor w q t of
        Inl e \<Rightarrow> (Sso_throw e, s)
      | Inr None \<Rightarrow> (Sso_json ''Single sign-on starts on the organization's sign-in page'' 400, s)
      | Inr (Some returnOrigin) \<Rightarrow>
          let settings = getSsoSettings (ss_settings s) (tn_id t); db = ac_db (ss_accounts s);
              unavailable = Sso_goto (signInPage returnOrigin (tn_subdomain t) ''sso_error'' ''unavailable'') []
          in case clientCredentials (sw_clients w) p of
            None \<Rightarrow> (unavailable, s)
          | Some (clientId, _) \<Rightarrow>
              if tn_status t \<noteq> Active \<or> \<not> enabledIn settings p then (unavailable, s)
              else case ssoRedirectUri w q of
                Inl e \<Rightarrow> (Sso_throw e, s)
              | Inr None \<Rightarrow> (Sso_json ''DEFAULT_DOMAIN is not set, so there is no sign-in callback'' 503, s)
              | Inr (Some redirectUri) \<Rightarrow>
                  let key = ''sso:'' @ ar_ip (sq_auth q);
                      wait = rateLimitWait db key START_LIMIT_perAddress START_LIMIT_windowSeconds (sq_now q)
                  in if wait > 0
                     then (Sso_json (''Too many sign-ins from this address. Try again in '' @ minutes_text wait @ '' minute(s).'') 429, s)
                     else let s' = with_db (\<lambda>db. recordRateLimitHit db key START_LIMIT_windowSeconds (sq_now q)) s;
                              row = new_state w q t p redirectUri returnOrigin
                       in if tbl_lookup sx_state_hash (sx_state_hash row) (ss_states s') \<noteq> None
                          then (Sso_throw ''UNIQUE constraint failed'', s')
                          else (Sso_goto (authorize_endpoint p @ ''?'' @ form_text (authorize_params w q clientId p settings redirectUri))
                                  [browserCookie (browser_value q) (aw_secure (sw_auth w)) STATE_SECONDS],
                                s'\<lparr>ss_states := ss_states s' @ [row]\<rparr>))))"

subsection \<open>Callback\<close>

text \<open>\<open>data.id_token\<close> of \<open>null\<close> throws a \<open>TypeError\<close>, which nothing handles.\<close>

definition exchangeCode :: "sso_world \<Rightarrow> string \<times> string \<Rightarrow> state_row \<Rightarrow> string \<Rightarrow> sso_failure + string" where
  "exchangeCode w credentials row authCode =
     (case sw_exchange w (sx_provider row)
             [(''grant_type'', ''authorization_code''), (''code'', authCode), (''redirect_uri'', sx_redirect_uri row),
              (''client_id'', fst credentials), (''client_secret'', snd credentials), (''code_verifier'', sx_code_verifier row)] of
        None \<Rightarrow> Inl (Sso_error ''token_exchange'')
      | Some (_, None) \<Rightarrow> Inl (Sso_error ''token_exchange'')
      | Some (status, Some JNull) \<Rightarrow> Inl (Uncaught ''TypeError'')
      | Some (status, Some data) \<Rightarrow>
          (case field data ''id_token'' of
             JStr token \<Rightarrow> if 200 \<le> status \<and> status \<le> 299 then Inr token else Inl (Sso_error ''token_exchange'')
           | _ \<Rightarrow> Inl (Sso_error ''token_exchange'')))"

text \<open>The key id a token makes \<open>verifyIdToken\<close> look up, if it gets that far.\<close>

definition token_kid :: "token_crypto \<Rightarrow> string \<Rightarrow> string option" where
  "token_kid w idToken =
     (if length idToken > MAX_ID_TOKEN_LENGTH then None
      else case split_on CHR ''.'' idToken of
        [h, _, _] \<Rightarrow>
          (case decodeJson w h of
             None \<Rightarrow> None
           | Some header \<Rightarrow>
               (case (field header ''alg'', field header ''kid'') of
                  (JStr alg, JStr kid) \<Rightarrow> if alg = ''RS256'' \<and> kid \<noteq> [] \<and> length kid \<le> 256 then Some kid else None
                | _ \<Rightarrow> None))
      | _ \<Rightarrow> None)"

definition expected_of :: "state_row \<Rightarrow> string \<Rightarrow> sso_settings \<Rightarrow> expectations" where
  "expected_of row clientId settings =
     \<lparr>ex_provider = sx_provider row, ex_clientId = clientId, ex_nonce = sx_nonce row,
      ex_googleDomains = so_googleDomains settings, ex_microsoftTenants = so_microsoftTenants settings\<rparr>"

definition identify ::
  "sso_world \<Rightarrow> sso_request \<Rightarrow> string \<times> string \<Rightarrow> sso_settings \<Rightarrow> state_row \<Rightarrow> string \<Rightarrow> jwks_cache
   \<Rightarrow> (sso_failure + sso_identity) \<times> jwks_cache" where
  "identify w q credentials settings row authCode cache =
     (case exchangeCode w credentials row authCode of
        Inl failure \<Rightarrow> (Inl failure, cache)
      | Inr idToken \<Rightarrow>
          (verifyIdToken (sw_token w) idToken (expected_of row (fst credentials) settings)
             (\<lambda>kid. fst (providerSigningKey cache (sx_provider row) kid (sq_keys q) (sq_ms q))) (sq_now q),
           case token_kid (sw_token w) idToken of
             None \<Rightarrow> cache
           | Some kid \<Rightarrow> snd (providerSigningKey cache (sx_provider row) kid (sq_keys q) (sq_ms q))))"

definition matchAccount :: "accounts \<Rightarrow> tenant \<Rightarrow> string \<Rightarrow> account option" where
  "matchAccount a t email =
     (case findUserByEmail a email of
        None \<Rightarrow> None
      | Some u \<Rightarrow>
          if us_role u = Super_admin then None
          else if tn_user_id t = us_id u
                 \<or> (\<exists>m\<in>set (tenant_users (ac_db a)). tu_tenant_id m = tn_id t \<and> tu_user_id m = us_id u) then Some u
          else None)"

definition state_param :: "string \<Rightarrow> bool" where
  "state_param v = (length v = 43 \<and> list_all (\<lambda>c. b64_value c \<noteq> None) v)"

definition drop_state :: "string \<Rightarrow> sso_store \<Rightarrow> sso_store" where
  "drop_state h s = s\<lparr>ss_states := tbl_delete sx_state_hash h (ss_states s)\<rparr>"

definition fail_reason :: "string \<Rightarrow> string" where
  "fail_reason r = (if r = ''token_exchange'' \<or> r = ''keys_unavailable'' then ''provider'' else if r = ''directory'' then ''directory'' else ''identity'')"

definition sso_fail :: "state_row \<Rightarrow> tenant option \<Rightarrow> string \<Rightarrow> sso_store \<Rightarrow> sso_answer \<times> sso_store" where
  "sso_fail row t reason s =
     (Sso_goto (signInPage (sx_return_origin row) (case t of None \<Rightarrow> [] | Some t \<Rightarrow> tn_subdomain t) ''sso_error'' reason) [],
      drop_state (sx_state_hash row) s)"

text \<open>\<open>UPDATE sso_states SET used_at = ? WHERE state_hash = ? AND used_at IS NULL AND expires_at >= ? RETURNING *\<close>\<close>

definition spendable :: "string \<Rightarrow> int \<Rightarrow> state_row \<Rightarrow> bool" where
  "spendable h ts r = (sx_state_hash r = h \<and> sx_used_at r = None \<and> sx_expires_at r \<ge> ts)"

definition spend_state :: "string \<Rightarrow> int \<Rightarrow> sso_store \<Rightarrow> state_row option \<times> sso_store" where
  "spend_state h ts s =
     (map_option (\<lambda>r. r\<lparr>sx_used_at := Some ts\<rparr>) (find (spendable h ts) (ss_states s)),
      s\<lparr>ss_states := tbl_update (spendable h ts) (\<lambda>r. r\<lparr>sx_used_at := Some ts\<rparr>) (ss_states s)\<rparr>)"

text \<open>The one-time code for the sign-in page, once the account is known.\<close>

definition hand_over :: "sso_world \<Rightarrow> sso_request \<Rightarrow> state_row \<Rightarrow> tenant \<Rightarrow> account \<Rightarrow> sso_store \<Rightarrow> sso_answer \<times> sso_store" where
  "hand_over w q row t u s =
     (let handoff = bufferToHex (sq_handoff q); h = sw_sha w handoff in
      if \<exists>r\<in>set (ss_states s). sx_handoff_hash r = Some h \<and> sx_state_hash r \<noteq> sx_state_hash row
      then (Sso_throw ''UNIQUE constraint failed'', s)
      else (Sso_goto (signInPage (sx_return_origin row) (tn_subdomain t) ''sso'' handoff) [],
            s\<lparr>ss_states := tbl_update (\<lambda>r. sx_state_hash r = sx_state_hash row)
                (\<lambda>r. r\<lparr>sx_user_id := Some (us_id u), sx_handoff_hash := Some h, sx_expires_at := sq_now q + SSO_HANDOFF_SECONDS\<rparr>) (ss_states s)\<rparr>))"

text \<open>From the spent state on.\<close>

definition callback_account ::
  "sso_world \<Rightarrow> sso_request \<Rightarrow> state_row \<Rightarrow> tenant \<Rightarrow> string \<times> string \<Rightarrow> sso_settings \<Rightarrow> string \<Rightarrow> sso_store \<Rightarrow> sso_answer \<times> sso_store" where
  "callback_account w q row t credentials settings authCode s =
     (case identify w q credentials settings row authCode (ss_keys s) of
        (Inl (Uncaught e), cache) \<Rightarrow> (Sso_throw e, s\<lparr>ss_keys := cache\<rparr>)
      | (Inl (Sso_error r), cache) \<Rightarrow> sso_fail row (Some t) (fail_reason r) (s\<lparr>ss_keys := cache\<rparr>)
      | (Inr i, cache) \<Rightarrow>
          let s' = s\<lparr>ss_keys := cache\<rparr> in
          if getLockoutRemaining (ac_db (ss_accounts s')) (si_email i) (sq_now q) > 0 then sso_fail row (Some t) ''locked'' s'
          else case matchAccount (ss_accounts s') t (si_email i) of
            None \<Rightarrow> sso_fail row (Some t) ''no_account'' (with_db (\<lambda>db. recordLoginFailure db (si_email i) (sq_now q)) s')
          | Some u \<Rightarrow> hand_over w q row t u s')"

definition callback_row :: "sso_world \<Rightarrow> sso_request \<Rightarrow> state_row \<Rightarrow> sso_store \<Rightarrow> sso_answer \<times> sso_store" where
  "callback_row w q row s =
     (case sw_url_host w (sx_redirect_uri row) of
        None \<Rightarrow> (Sso_throw ''Invalid URL'', s)
      | Some callbackHost \<Rightarrow>
          if request_host q \<noteq> toLowerCase callbackHost
          then (Sso_page ''This sign-in came back to the wrong address. Start again from your organization's sign-in page.'', drop_state (sx_state_hash row) s)
          else case findTenantById (ac_db (ss_accounts s)) (sx_tenant_id row) of
            None \<Rightarrow> sso_fail row None ''unavailable'' s
          | Some t \<Rightarrow>
              let providerError = map_of (sq_params q) ''error''; authCode = text_of (map_of (sq_params q) ''code'');
                  settings = getSsoSettings (ss_settings s) (tn_id t)
              in if tn_status t \<noteq> Active then sso_fail row (Some t) ''unavailable'' s
                 else if truthy_text providerError
                 then sso_fail row (Some t) (if providerError = Some ''access_denied'' then ''cancelled'' else ''provider'') s
                 else if authCode = [] \<or> length authCode > 4096 then sso_fail row (Some t) ''provider'' s
                 else (case clientCredentials (sw_clients w) (sx_provider row) of
                   None \<Rightarrow> sso_fail row (Some t) ''unavailable'' s
                 | Some credentials \<Rightarrow>
                     if \<not> enabledIn settings (sx_provider row) then sso_fail row (Some t) ''unavailable'' s
                     else callback_account w q row t credentials settings authCode s))"

definition handleSsoCallback :: "sso_world \<Rightarrow> sso_request \<Rightarrow> sso_store \<Rightarrow> sso_answer \<times> sso_store" where
  "handleSsoCallback w q s =
     (let state = text_of (map_of (sq_params q) ''state'') in
      if \<not> state_param state
      then (Sso_page ''This sign-in link is not complete. Start again from your organization's sign-in page.'', s)
      else case spend_state (sw_sha w state) (sq_now q) s of
        (None, s') \<Rightarrow> (Sso_page ''This sign-in has expired or was already used. Start again from your organization's sign-in page.'', s')
      | (Some row, s') \<Rightarrow> callback_row w q row s')"

subsection \<open>Redeem\<close>

definition cross_origin :: "sso_world \<Rightarrow> sso_request \<Rightarrow> bool" where
  "cross_origin w q =
     (truthy_text (rq_origin (sq_web q))
      \<and> (case sw_url_host w (text_of (rq_origin (sq_web q))) of None \<Rightarrow> True | Some h \<Rightarrow> toLowerCase h \<noteq> request_host q))"

definition sso_expired :: "'a outcome" where
  "sso_expired = Refuse ''This sign-in has expired. Start again.'' 401"

text \<open>\<open>body?.code\<close> where it is text.\<close>

definition redeem_code :: "sso_request \<Rightarrow> string" where
  "redeem_code q = (case ar_body (sq_auth q) of None \<Rightarrow> [] | Some body \<Rightarrow> text_or_empty (field body ''code''))"

text \<open>The account and organization a deleted row leads to, or the refusal.\<close>

definition redeem_row :: "sso_world \<Rightarrow> sso_request \<Rightarrow> state_row option \<Rightarrow> sso_store \<Rightarrow> (account \<times> tenant) outcome" where
  "redeem_row w q found s =
     (case found of
        None \<Rightarrow> sso_expired
      | Some row \<Rightarrow>
          if \<not> truthy_text (sx_user_id row) \<or> sx_expires_at row < sq_now q then sso_expired
          else case sw_url_host w (sx_return_origin row) of
            None \<Rightarrow> Throw ''Invalid URL''
          | Some h \<Rightarrow>
              if toLowerCase h \<noteq> request_host q then sso_expired
              else case browserTokenFrom q of
                None \<Rightarrow> sso_expired
              | Some b \<Rightarrow>
                  if \<not> timingSafeEqual (sw_sha w b) (sx_browser_hash row) then sso_expired
                  else let a = ss_accounts s in
                  (case findTenantById (ac_db a) (sx_tenant_id row) of
                     None \<Rightarrow> Refuse ''This organization's console is not available'' 403
                   | Some t \<Rightarrow>
                       if tn_status t \<noteq> Active then Refuse ''This organization's console is not available'' 403
                       else (case findUserById a (text_of (sx_user_id row)) of
                          None \<Rightarrow> sso_expired
                        | Some u \<Rightarrow>
                            if matchAccount a t (us_email u) = None then sso_expired
                            else let lockedFor = getLockoutRemaining (ac_db a) (us_email u) (sq_now q) in
                              if lockedFor > 0
                              then Refuse (''Too many failed sign-in attempts. Try again in '' @ minutes_text lockedFor @ '' minute(s).'') 429
                              else Answer (u, t))))"

definition provider_name :: "sso_provider \<Rightarrow> string" where
  "provider_name p = (case p of Google \<Rightarrow> ''google'' | Microsoft \<Rightarrow> ''microsoft'')"

definition sso_entry :: "tenant \<Rightarrow> account \<Rightarrow> sso_provider \<Rightarrow> audit_entry" where
  "sso_entry t u p = \<lparr>au_tenant = Some (tn_id t), au_user = us_id u, au_action = ''auth.sso'', au_details = ''provider='' @ provider_name p\<rparr>"

definition redeemed :: "sso_world \<Rightarrow> string \<Rightarrow> sso_store \<Rightarrow> state_row option \<times> sso_store" where
  "redeemed w c s =
     (find (\<lambda>r. sx_handoff_hash r = Some (sw_sha w c)) (ss_states s),
      s\<lparr>ss_states := filter (\<lambda>r. sx_handoff_hash r \<noteq> Some (sw_sha w c)) (ss_states s)\<rparr>)"

definition sso_target :: "(tenant \<Rightarrow> string) \<Rightarrow> account \<Rightarrow> tenant \<Rightarrow> sign_in_target" where
  "sso_target redirectFor u t = \<lparr>st_userId = us_id u, st_tenantId = Some (tn_id t), st_role = us_role u, st_redirect = redirectFor t\<rparr>"

text \<open>The answer and the cookies added to it.\<close>

definition handleSsoRedeem ::
  "sso_world \<Rightarrow> (tenant \<Rightarrow> string) \<Rightarrow> sso_request \<Rightarrow> sso_store \<Rightarrow> (reply outcome \<times> string list) \<times> sso_store" where
  "handleSsoRedeem w redirectFor q s =
     (if cross_origin w q then ((Refuse ''Cross-site requests are not accepted'' 403, []), s)
      else if ar_body (sq_auth q) = None then ((Refuse ''The request body must be JSON'' 400, []), s)
      else if \<not> hex_token (redeem_code q) then ((Refuse ''The sign-in code is not valid'' 400, []), s)
      else case redeemed w (redeem_code q) s of
        (found, s') \<Rightarrow>
          (case redeem_row w q found s' of
             Refuse m n \<Rightarrow> ((Refuse m n, []), s')
           | Throw e \<Rightarrow> ((Throw e, []), s')
           | Answer (u, t) \<Rightarrow>
               let a = ss_accounts s';
                   a' = a\<lparr>ac_db := clearLoginFailures (ac_db a) (us_email u), ac_audit := ac_audit a @ [sso_entry t u (sx_provider (the found))]\<rparr>
               in (case continueSignIn (sw_auth w) (sq_auth q) (sso_target redirectFor u t) a' of
                     (Throw e, a'') \<Rightarrow> ((Throw e, []), s'\<lparr>ss_accounts := a''\<rparr>)
                   | (reply, a'') \<Rightarrow> ((reply, [browserCookie [] (aw_secure (sw_auth w)) 0]), s'\<lparr>ss_accounts := a''\<rparr>))))"

definition purgeExpiredSsoStates :: "sso_store \<Rightarrow> int \<Rightarrow> sso_store" where
  "purgeExpiredSsoStates s now = s\<lparr>ss_states := filter (\<lambda>r. \<not> sx_expires_at r < now) (ss_states s)\<rparr>"

subsection \<open>The settings route\<close>

record settings_view =
  sv_canEdit :: bool
  sv_redirectUri :: "string option"
  sv_available :: "bool \<times> bool"
  sv_settings :: sso_settings
  sv_inForce :: bool

definition settings_view_of :: "sso_world \<Rightarrow> sso_request \<Rightarrow> bool \<Rightarrow> sso_settings \<Rightarrow> settings_view outcome" where
  "settings_view_of w q canEdit settings =
     (case ssoRedirectUri w q of
        Inl e \<Rightarrow> Throw e
      | Inr uri \<Rightarrow> Answer \<lparr>sv_canEdit = canEdit, sv_redirectUri = uri,
          sv_available = (ssoProviderAvailable (sw_clients w) Google, ssoProviderAvailable (sw_clients w) Microsoft), sv_settings = settings,
          sv_inForce = (so_requireSso settings \<and> offeredProviders (sw_clients w) settings \<noteq> [])\<rparr>)"

definition turning_on :: "sso_settings \<Rightarrow> sso_settings \<Rightarrow> sso_provider \<Rightarrow> bool" where
  "turning_on before next p = (case p of
      Google \<Rightarrow> so_googleEnabled next \<and> \<not> so_googleEnabled before
    | Microsoft \<Rightarrow> so_microsoftEnabled next \<and> \<not> so_microsoftEnabled before)"

definition save_settings :: "string \<Rightarrow> session \<Rightarrow> sso_settings \<Rightarrow> sso_settings \<Rightarrow> int \<Rightarrow> sso_store \<Rightarrow> sso_store" where
  "save_settings tenantId session before next now s =
     (if describeSettings before = describeSettings next then s
      else let a = ss_accounts s in
        s\<lparr>ss_settings := tbl_upsert sr_tenant_id
            (settings_row tenantId next now (if se_role session = Super_admin then None else Some (se_user_id session))) (ss_settings s),
          ss_accounts := a\<lparr>ac_audit := ac_audit a @ [\<lparr>au_tenant = Some tenantId, au_user = se_user_id session, au_action = ''settings.sso'',
            au_details = describeSettings next\<rparr>]\<rparr>\<rparr>)"

definition handleSsoSettings :: "sso_world \<Rightarrow> sso_request \<Rightarrow> session \<Rightarrow> tenant \<Rightarrow> sso_store \<Rightarrow> settings_view outcome \<times> sso_store" where
  "handleSsoSettings w q session t s =
     (let canEdit = administers (ac_db (ss_accounts s)) t (se_user_id session) (se_role session);
          settings = getSsoSettings (ss_settings s) (tn_id t)
      in if rq_http_method (sq_web q) \<noteq> ''POST'' then (settings_view_of w q canEdit settings, s)
         else if \<not> canEdit then (Refuse ''Only the organization's administrators change single sign-on'' 403, s)
         else case ar_body (sq_auth q) of
           None \<Rightarrow> (Refuse ''The request body must be JSON'' 400, s)
         | Some body \<Rightarrow>
             (case parseSsoSettings body of
                Inl e \<Rightarrow> (Refuse e 400, s)
              | Inr next \<Rightarrow>
                  (case find (\<lambda>p. turning_on settings next p \<and> \<not> ssoProviderAvailable (sw_clients w) p) SSO_PROVIDERS of
                     Some p \<Rightarrow> (Refuse (ssoProviderLabel p @ '' sign-in is not set up on this platform yet'') 409, s)
                   | None \<Rightarrow> (settings_view_of w q canEdit next, save_settings (tn_id t) session settings next (sq_now q) s))))"

subsection \<open>Runs of single sign-on\<close>

text \<open>
  \<open>Elsewhere\<close> is any change other parts of the program make to accounts, organizations and staff;
  \<open>Tenant_gone\<close> and \<open>User_gone\<close> are the deletions that cascade to the rows of \<open>sso_states\<close>.
\<close>

datatype sso_event =
    Start sso_request "tenant option"
  | Callback sso_request
  | Redeem sso_request
  | Configure sso_request session tenant
  | Purge_states int
  | Elsewhere accounts
  | Tenant_gone string
  | User_gone string

fun sso_step :: "sso_world \<Rightarrow> (tenant \<Rightarrow> string) \<Rightarrow> sso_event \<Rightarrow> sso_store \<Rightarrow> sso_store" where
  "sso_step w rf (Start q t) s = snd (handleSsoStart w q t s)"
| "sso_step w rf (Callback q) s = snd (handleSsoCallback w q s)"
| "sso_step w rf (Redeem q) s = snd (handleSsoRedeem w rf q s)"
| "sso_step w rf (Configure q session t) s = snd (handleSsoSettings w q session t s)"
| "sso_step w rf (Purge_states now) s = purgeExpiredSsoStates s now"
| "sso_step w rf (Elsewhere a) s = s\<lparr>ss_accounts := a\<rparr>"
| "sso_step w rf (Tenant_gone i) s = s\<lparr>ss_states := filter (\<lambda>r. sx_tenant_id r \<noteq> i) (ss_states s)\<rparr>"
| "sso_step w rf (User_gone i) s = s\<lparr>ss_states := filter (\<lambda>r. sx_user_id r \<noteq> Some i) (ss_states s)\<rparr>"

text \<open>What each handler does to the rows.\<close>

lemma with_db_states [simp]: "ss_states (with_db f s) = ss_states s" "ss_settings (with_db f s) = ss_settings s"
  by (simp_all add: with_db_def)

lemma start_states:
  "ss_states (snd (handleSsoStart w q t s)) = ss_states s
   \<or> (\<exists>ten p uri origin. t = Some ten \<and> tn_status ten = Active \<and> returnOriginFor w q ten = Inr (Some origin) \<and> ssoRedirectUri w q = Inr (Some uri)
        \<and> sw_sha w (toBase64url (sq_state q)) \<notin> sx_state_hash ` set (ss_states s)
        \<and> ss_states (snd (handleSsoStart w q t s)) = ss_states s @ [new_state w q ten p uri origin])"
  by (auto simp: handleSsoStart_def Let_def tbl_lookup_None new_state_def split: option.splits sum.splits)

lemma settings_states [simp]: "ss_states (snd (handleSsoSettings w q session t s)) = ss_states s"
  by (auto simp: handleSsoSettings_def save_settings_def Let_def split: option.splits sum.splits)

lemma redeem_states:
  "ss_states (snd (handleSsoRedeem w rf q s)) = ss_states s
   \<or> ss_states (snd (handleSsoRedeem w rf q s)) = filter (\<lambda>r. sx_handoff_hash r \<noteq> Some (sw_sha w (redeem_code q))) (ss_states s)"
  by (auto simp: handleSsoRedeem_def redeemed_def Let_def split: outcome.splits prod.splits)

lemma fail_states [simp]: "ss_states (snd (sso_fail row t r s)) = tbl_delete sx_state_hash (sx_state_hash row) (ss_states s)"
  by (simp add: sso_fail_def drop_state_def)

text \<open>The account a callback finds, with everything that was checked on the way.\<close>

definition confirms :: "sso_world \<Rightarrow> sso_request \<Rightarrow> state_row \<Rightarrow> sso_store \<Rightarrow> tenant \<Rightarrow> account \<Rightarrow> bool" where
  "confirms w q row s t u =
     (\<exists>credentials idToken i.
        findTenantById (ac_db (ss_accounts s)) (sx_tenant_id row) = Some t \<and> tn_status t = Active
        \<and> clientCredentials (sw_clients w) (sx_provider row) = Some credentials
        \<and> enabledIn (getSsoSettings (ss_settings s) (tn_id t)) (sx_provider row)
        \<and> exchangeCode w credentials row (text_of (map_of (sq_params q) ''code'')) = Inr idToken
        \<and> verifyIdToken (sw_token w) idToken (expected_of row (fst credentials) (getSsoSettings (ss_settings s) (tn_id t)))
            (\<lambda>kid. fst (providerSigningKey (ss_keys s) (sx_provider row) kid (sq_keys q) (sq_ms q))) (sq_now q) = Inr i
        \<and> matchAccount (ss_accounts s) t (si_email i) = Some u)"

text \<open>The row as the callback leaves it.\<close>

definition handed :: "sso_world \<Rightarrow> sso_request \<Rightarrow> account \<Rightarrow> state_row \<Rightarrow> state_row" where
  "handed w q u r = r\<lparr>sx_user_id := Some (us_id u), sx_handoff_hash := Some (sw_sha w (bufferToHex (sq_handoff q))),
     sx_expires_at := sq_now q + SSO_HANDOFF_SECONDS\<rparr>"

lemma hand_over_states:
  "ss_states (snd (hand_over w q row t u s)) = ss_states s
   \<or> ss_states (snd (hand_over w q row t u s)) = tbl_update (\<lambda>r. sx_state_hash r = sx_state_hash row) (handed w q u) (ss_states s)"
  by (simp add: hand_over_def handed_def [abs_def] Let_def)

lemma callback_account_states:
  "ss_states (snd (callback_account w q row t credentials settings authCode s)) = ss_states s
   \<or> ss_states (snd (callback_account w q row t credentials settings authCode s)) = tbl_delete sx_state_hash (sx_state_hash row) (ss_states s)
   \<or> (\<exists>idToken i u. exchangeCode w credentials row authCode = Inr idToken
        \<and> verifyIdToken (sw_token w) idToken (expected_of row (fst credentials) settings)
            (\<lambda>kid. fst (providerSigningKey (ss_keys s) (sx_provider row) kid (sq_keys q) (sq_ms q))) (sq_now q) = Inr i
        \<and> matchAccount (ss_accounts s) t (si_email i) = Some u
        \<and> ss_states (snd (callback_account w q row t credentials settings authCode s))
            = tbl_update (\<lambda>r. sx_state_hash r = sx_state_hash row) (handed w q u) (ss_states s))"
proof (cases "identify w q credentials settings row authCode (ss_keys s)")
  case (Pair v cache)
  show ?thesis
  proof (cases v)
    case (Inl f)
    then show ?thesis using Pair by (cases f) (simp_all add: callback_account_def)
  next
    case (Inr i)
    show ?thesis
    proof (cases "getLockoutRemaining (ac_db (ss_accounts s)) (si_email i) (sq_now q) > 0 \<or> matchAccount (ss_accounts s) t (si_email i) = None")
      case True
      then show ?thesis using Pair Inr by (auto simp: callback_account_def Let_def)
    next
      case False
      then obtain u where u: "matchAccount (ss_accounts s) t (si_email i) = Some u" by auto
      have "snd (callback_account w q row t credentials settings authCode s) = snd (hand_over w q row t u (s\<lparr>ss_keys := cache\<rparr>))"
        using Pair Inr False u by (auto simp: callback_account_def Let_def)
      moreover obtain idToken where "exchangeCode w credentials row authCode = Inr idToken"
        "verifyIdToken (sw_token w) idToken (expected_of row (fst credentials) settings)
            (\<lambda>kid. fst (providerSigningKey (ss_keys s) (sx_provider row) kid (sq_keys q) (sq_ms q))) (sq_now q) = Inr i"
        using Pair Inr by (auto simp: identify_def split: sum.splits)
      ultimately show ?thesis using hand_over_states [of w q row t u "s\<lparr>ss_keys := cache\<rparr>"] u by auto
    qed
  qed
qed

lemma callback_row_states:
  "ss_states (snd (callback_row w q row s)) = ss_states s
   \<or> ss_states (snd (callback_row w q row s)) = tbl_delete sx_state_hash (sx_state_hash row) (ss_states s)
   \<or> (\<exists>t u. confirms w q row s t u
        \<and> ss_states (snd (callback_row w q row s)) = tbl_update (\<lambda>r. sx_state_hash r = sx_state_hash row) (handed w q u) (ss_states s))"
proof (cases "findTenantById (ac_db (ss_accounts s)) (sx_tenant_id row)")
  case None
  then show ?thesis by (auto simp: callback_row_def drop_state_def split: option.splits)
next
  case (Some t)
  let ?settings = "getSsoSettings (ss_settings s) (tn_id t)" and ?code = "text_of (map_of (sq_params q) ''code'')"
  show ?thesis
  proof (cases "clientCredentials (sw_clients w) (sx_provider row)")
    case None
    then show ?thesis using Some by (simp add: callback_row_def drop_state_def Let_def split: option.split)
  next
    case credentials: (Some credentials)
    show ?thesis
    proof (cases "sw_url_host w (sx_redirect_uri row)")
      case None
      then show ?thesis by (simp add: callback_row_def)
    next
      case host: (Some h)
      show ?thesis
      proof (cases "request_host q = toLowerCase h \<and> tn_status t = Active \<and> \<not> truthy_text (map_of (sq_params q) ''error'')
          \<and> ?code \<noteq> [] \<and> length ?code \<le> 4096 \<and> enabledIn ?settings (sx_provider row)")
        case True
        then have "snd (callback_row w q row s) = snd (callback_account w q row t credentials ?settings ?code s)"
          using Some credentials host by (simp add: callback_row_def Let_def)
        then show ?thesis using True Some credentials callback_account_states [of w q row t credentials ?settings ?code s] unfolding confirms_def by metis
      next
        case False
        then have "ss_states (snd (callback_row w q row s)) = tbl_delete sx_state_hash (sx_state_hash row) (ss_states s)"
          using Some credentials host by (simp add: callback_row_def drop_state_def Let_def) linarith
        then show ?thesis by simp
      qed
    qed
  qed
qed

subsection \<open>Where a sign-in comes from\<close>

text \<open>A row began with a start of the run: its fields are what that start drew and was asked.\<close>

definition began :: "sso_world \<Rightarrow> sso_event list \<Rightarrow> state_row \<Rightarrow> bool" where
  "began w es r = (\<exists>q t. Start q (Some t) \<in> set es \<and> sx_state_hash r = sw_sha w (toBase64url (sq_state q)) \<and> sx_tenant_id r = tn_id t
     \<and> sx_nonce r = toBase64url (sq_nonce q) \<and> sx_code_verifier r = toBase64url (sq_verifier q)
     \<and> sx_browser_hash r = sw_sha w (browser_value q) \<and> returnOriginFor w q t = Inr (Some (sx_return_origin r)) \<and> sx_created_at r = sq_now q)"

text \<open>And its one-time code with a later callback that named its state and confirmed the account.\<close>

definition confirmed :: "sso_world \<Rightarrow> (tenant \<Rightarrow> string) \<Rightarrow> sso_store \<Rightarrow> sso_event list \<Rightarrow> state_row \<Rightarrow> bool" where
  "confirmed w rf s0 es r = (\<exists>es1 q es2 t u. es = es1 @ Callback q # es2 \<and> began w es1 r
     \<and> sw_sha w (text_of (map_of (sq_params q) ''state'')) = sx_state_hash r
     \<and> confirms w q r (run_steps (sso_step w rf) es1 s0) t u \<and> sx_user_id r = Some (us_id u)
     \<and> sx_handoff_hash r = Some (sw_sha w (bufferToHex (sq_handoff q))) \<and> sx_expires_at r = sq_now q + 120 \<and> sq_now q \<le> sx_created_at r + 600)"

definition accounted :: "sso_world \<Rightarrow> (tenant \<Rightarrow> string) \<Rightarrow> sso_store \<Rightarrow> sso_event list \<Rightarrow> state_row \<Rightarrow> bool" where
  "accounted w rf s0 es r = (began w es r
     \<and> (sx_used_at r = None \<longrightarrow> sx_handoff_hash r = None \<and> sx_expires_at r = sx_created_at r + 600)
     \<and> (sx_handoff_hash r \<noteq> None \<longrightarrow> confirmed w rf s0 es r))"

definition traced_step :: "sso_world \<Rightarrow> (tenant \<Rightarrow> string) \<Rightarrow> sso_event \<Rightarrow> sso_event list \<times> sso_store \<Rightarrow> sso_event list \<times> sso_store" where
  "traced_step w rf e hs = (fst hs @ [e], sso_step w rf e (snd hs))"

definition traced_ok :: "sso_world \<Rightarrow> (tenant \<Rightarrow> string) \<Rightarrow> sso_store \<Rightarrow> sso_event list \<times> sso_store \<Rightarrow> bool" where
  "traced_ok w rf s0 hs = (snd hs = run_steps (sso_step w rf) (fst hs) s0 \<and> distinct_keys sx_state_hash (ss_states (snd hs))
     \<and> (\<forall>r\<in>set (ss_states (snd hs)). accounted w rf s0 (fst hs) r))"

lemma run_snoc: "run_steps step (es @ [e]) s = step e (run_steps step es s)"
  by (induction es arbitrary: s) simp_all

lemma run_traced: "run_steps (traced_step w rf) es (h, s) = (h @ es, run_steps (sso_step w rf) es s)"
  by (induction es arbitrary: h s) (simp_all add: traced_step_def)

lemma began_later: "began w es r \<Longrightarrow> began w (es @ [e]) r"
  unfolding began_def by fastforce

lemma confirmed_later: "confirmed w rf s0 es r \<Longrightarrow> confirmed w rf s0 (es @ [e]) r"
  unfolding confirmed_def by (elim exE conjE) (metis append_Cons append_assoc)

lemma accounted_later: "accounted w rf s0 es r \<Longrightarrow> accounted w rf s0 (es @ [e]) r"
  by (auto simp: accounted_def began_later confirmed_later)

lemma confirms_cong:
  assumes "sx_tenant_id r = sx_tenant_id r'" "sx_provider r = sx_provider r'" "sx_redirect_uri r = sx_redirect_uri r'"
    "sx_code_verifier r = sx_code_verifier r'" "sx_nonce r = sx_nonce r'"
    "ss_accounts s = ss_accounts s'" "ss_settings s = ss_settings s'" "ss_keys s = ss_keys s'"
  shows "confirms w q r s t u = confirms w q r' s' t u"
  using assms by (simp add: confirms_def exchangeCode_def expected_of_def)

text \<open>One callback: rows go, stay, or are the spent one, handed over.\<close>

definition spent_by :: "sso_world \<Rightarrow> sso_request \<Rightarrow> state_row \<Rightarrow> state_row" where
  "spent_by w q r = (if spendable (sw_sha w (text_of (map_of (sq_params q) ''state''))) (sq_now q) r then r\<lparr>sx_used_at := Some (sq_now q)\<rparr> else r)"

lemma spent_states:
  assumes "spend_state (sw_sha w (text_of (map_of (sq_params q) ''state''))) (sq_now q) s = (found, s')"
  shows "ss_states s' = map (spent_by w q) (ss_states s)" "ss_accounts s' = ss_accounts s" "ss_settings s' = ss_settings s" "ss_keys s' = ss_keys s"
    "found = Some row \<Longrightarrow> \<exists>r\<in>set (ss_states s). spendable (sw_sha w (text_of (map_of (sq_params q) ''state''))) (sq_now q) r \<and> row = spent_by w q r"
  using assms by (auto simp: spend_state_def spent_by_def tbl_update_def map_eq_conv dest: find_Some_iff_mem)

lemma spent_by_hash [simp]: "sx_state_hash (spent_by w q r) = sx_state_hash r"
  by (simp add: spent_by_def)

lemma callback_states:
  assumes "distinct_keys sx_state_hash (ss_states s)" "r' \<in> set (ss_states (snd (handleSsoCallback w q s)))"
  shows "(\<exists>r\<in>set (ss_states s). r' = r \<or> r' = spent_by w q r)
    \<or> (\<exists>r\<in>set (ss_states s). \<exists>t u. spendable (sw_sha w (text_of (map_of (sq_params q) ''state''))) (sq_now q) r
         \<and> confirms w q (spent_by w q r) s t u \<and> r' = handed w q u (spent_by w q r))"
proof (cases "state_param (text_of (map_of (sq_params q) ''state''))")
  case True
  obtain found s' where sp: "spend_state (sw_sha w (text_of (map_of (sq_params q) ''state''))) (sq_now q) s = (found, s')" by fastforce
  note spent = spent_states [OF sp]
  show ?thesis
  proof (cases found)
    case None
    then show ?thesis using assms(2) True sp spent(1) by (auto simp: handleSsoCallback_def)
  next
    case (Some row)
    then obtain r where r: "r \<in> set (ss_states s)" "spendable (sw_sha w (text_of (map_of (sq_params q) ''state''))) (sq_now q) r"
      "row = spent_by w q r" using spent(5) by blast
    have mem: "r' \<in> set (ss_states (snd (callback_row w q row s')))" using assms(2) True sp Some by (simp add: handleSsoCallback_def)
    have plain: ?thesis if "r' \<in> set (ss_states s')" using that spent(1) by auto
    show ?thesis
      using callback_row_states [of w q row s']
    proof (elim disjE exE conjE)
      fix t u
      assume conf: "confirms w q row s' t u"
        and eq: "ss_states (snd (callback_row w q row s')) = tbl_update (\<lambda>r. sx_state_hash r = sx_state_hash row) (handed w q u) (ss_states s')"
      obtain r1 where r1: "r1 \<in> set (ss_states s)" "r' = (if sx_state_hash r1 = sx_state_hash row then handed w q u (spent_by w q r1) else spent_by w q r1)"
        using mem eq spent(1) by (auto simp: tbl_update_def)
      have "confirms w q row s t u" using conf confirms_cong [of row row s' s] spent(2-4) by simp
      moreover have "r1 = r" if "sx_state_hash r1 = sx_state_hash row"
        using that r r1(1) assms(1) by (auto simp: distinct_map inj_on_def)
      ultimately show ?thesis using r1 r by (metis (no_types))
    next
      assume "ss_states (snd (callback_row w q row s')) = ss_states s'"
      then show ?thesis using mem plain by simp
    next
      assume "ss_states (snd (callback_row w q row s')) = tbl_delete sx_state_hash (sx_state_hash row) (ss_states s')"
      then show ?thesis using mem plain by (simp add: tbl_delete_def)
    qed
  qed
qed (use assms(2) in \<open>auto simp: handleSsoCallback_def\<close>)

lemma began_fields [simp]: "began w es (r\<lparr>sx_used_at := x\<rparr>) = began w es r" "began w es (handed w q u r) = began w es r"
  by (simp_all add: began_def handed_def)

lemma spent_accounted: "accounted w rf s0 es r \<Longrightarrow> accounted w rf s0 es (spent_by w q r)"
  by (auto simp: accounted_def spent_by_def spendable_def)

lemma callback_keys:
  assumes "distinct_keys sx_state_hash (ss_states s)"
  shows "distinct_keys sx_state_hash (ss_states (snd (handleSsoCallback w q s)))"
proof (cases "state_param (text_of (map_of (sq_params q) ''state''))")
  case True
  obtain found s' where sp: "spend_state (sw_sha w (text_of (map_of (sq_params q) ''state''))) (sq_now q) s = (found, s')" by fastforce
  have d: "distinct_keys sx_state_hash (ss_states s')" using assms spent_states(1) [OF sp] by (simp add: comp_def)
  have upd: "map sx_state_hash (tbl_update p (handed w q u) rows) = map sx_state_hash rows" for p u rows
    by (rule map_key_update) (simp add: handed_def)
  have "distinct_keys sx_state_hash (ss_states (snd (callback_row w q row s')))" for row
    using callback_row_states [of w q row s'] d upd by (auto simp: tbl_delete_def distinct_map_filter)
  then show ?thesis using True sp d by (cases found) (simp_all add: handleSsoCallback_def)
qed (use assms in \<open>simp add: handleSsoCallback_def\<close>)

lemma handed_accounted:
  assumes "accounted w rf s0 es r" "spendable (sw_sha w (text_of (map_of (sq_params q) ''state''))) (sq_now q) r"
    "confirms w q (spent_by w q r) (run_steps (sso_step w rf) es s0) t u"
  shows "accounted w rf s0 (es @ [Callback q]) (handed w q u (spent_by w q r))"
proof -
  let ?r = "handed w q u (spent_by w q r)"
  have "confirms w q ?r (run_steps (sso_step w rf) es s0) t u"
    using assms(3) by (subst confirms_cong [of ?r "spent_by w q r"]) (simp_all add: handed_def)
  moreover have "began w es ?r" using assms(1) by (simp add: accounted_def spent_by_def)
  moreover have "sw_sha w (text_of (map_of (sq_params q) ''state'')) = sx_state_hash ?r" "sq_now q \<le> sx_created_at ?r + 600"
    using assms(1,2) by (auto simp: accounted_def spendable_def spent_by_def handed_def)
  ultimately have "confirmed w rf s0 (es @ [Callback q]) ?r"
    unfolding confirmed_def
    by (intro exI [of _ es] exI [of _ q] exI [of _ "[]"] exI [of _ t] exI [of _ u]) (simp add: handed_def SSO_HANDOFF_SECONDS_def)
  moreover have "sx_used_at ?r \<noteq> None" using assms(2) by (simp add: handed_def spent_by_def)
  ultimately show ?thesis using \<open>began w es ?r\<close> by (auto simp: accounted_def began_later)
qed

lemma new_state_accounted:
  assumes "returnOriginFor w q t = Inr (Some origin)"
  shows "accounted w rf s0 (es @ [Start q (Some t)]) (new_state w q t p uri origin)"
proof -
  have "began w (es @ [Start q (Some t)]) (new_state w q t p uri origin)"
    unfolding began_def by (intro exI [of _ q] exI [of _ t]) (simp add: new_state_def assms)
  then show ?thesis by (simp add: accounted_def) (simp add: new_state_def STATE_SECONDS_def)
qed

lemma traced_fewer:
  assumes "traced_ok w rf s0 (h, s)" "\<exists>P. ss_states (sso_step w rf e s) = filter P (ss_states s)"
  shows "traced_ok w rf s0 (traced_step w rf e (h, s))"
  using assms by (auto simp: traced_ok_def traced_step_def run_snoc distinct_map_filter accounted_later)

lemma traced_ok_step:
  assumes ok: "traced_ok w rf s0 hs"
  shows "traced_ok w rf s0 (traced_step w rf e hs)"
proof -
  obtain h s where hs: "hs = (h, s)" by fastforce
  have s: "s = run_steps (sso_step w rf) h s0" and d: "distinct_keys sx_state_hash (ss_states s)"
    and rows: "\<And>r. r \<in> set (ss_states s) \<Longrightarrow> accounted w rf s0 h r" using ok by (auto simp: traced_ok_def hs)
  have fewer: ?thesis if "\<exists>P. ss_states (sso_step w rf e s) = filter P (ss_states s)" using traced_fewer ok that by (simp add: hs)
  have same: ?thesis if "ss_states (sso_step w rf e s) = ss_states s"
  proof (rule fewer, rule exI)
    show "ss_states (sso_step w rf e s) = filter (\<lambda>_. True) (ss_states s)" using that by simp
  qed
  show ?thesis
  proof (cases e)
    case (Start q t)
    from start_states [of w q t s] same show ?thesis
    proof (elim disjE exE conjE)
      fix ten p uri origin
      assume new: "t = Some ten" "returnOriginFor w q ten = Inr (Some origin)" "sw_sha w (toBase64url (sq_state q)) \<notin> sx_state_hash ` set (ss_states s)"
        "ss_states (snd (handleSsoStart w q t s)) = ss_states s @ [new_state w q ten p uri origin]"
      have "sx_state_hash (new_state w q ten p uri origin) = sw_sha w (toBase64url (sq_state q))" by (simp add: new_state_def)
      then show ?thesis
        using new Start d rows s by (auto simp: traced_ok_def traced_step_def hs run_snoc accounted_later new_state_accounted)
    qed (simp_all add: Start)
  next
    case (Callback q)
    have "accounted w rf s0 (h @ [e]) r'" if "r' \<in> set (ss_states (snd (handleSsoCallback w q s)))" for r'
      using callback_states [OF d that] rows spent_accounted handed_accounted s unfolding Callback by (metis accounted_later)
    then show ?thesis using callback_keys [OF d] s by (simp add: traced_ok_def traced_step_def hs run_snoc Callback)
  next
    case (Redeem q)
    then show ?thesis using redeem_states [of w rf q s] same fewer by auto
  qed (use same fewer in \<open>auto simp: purgeExpiredSsoStates_def\<close>)
qed

interpretation sso_runs: step_system "traced_step w rf" "traced_ok w rf s0" for w rf s0
  by unfold_locales (rule traced_ok_step)

lemma rows_accounted:
  assumes "ss_states s0 = []" "r \<in> set (ss_states (run_steps (sso_step w rf) es s0))"
  shows "accounted w rf s0 es r"
proof -
  have "traced_ok w rf s0 ([], s0)" using assms(1) by (simp add: traced_ok_def)
  from sso_runs.run_invar [OF this, of es] show ?thesis using assms(2) by (simp add: run_traced traced_ok_def)
qed

definition emails_ok :: "accounts \<Rightarrow> bool" where
  "emails_ok a = (distinct_keys us_email (ac_users a) \<and> (\<forall>u\<in>set (ac_users a). toLowerCase (us_email u) = us_email u))"

lemma matchAccount_Some:
  "matchAccount a t email = Some u \<Longrightarrow> u \<in> set (ac_users a) \<and> us_email u = toLowerCase email \<and> us_role u \<noteq> Super_admin
     \<and> (tn_user_id t = us_id u \<or> (\<exists>m\<in>set (tenant_users (ac_db a)). tu_tenant_id m = tn_id t \<and> tu_user_id m = us_id u))"
  by (auto simp: matchAccount_def findUserByEmail_def split: option.splits if_splits dest!: tbl_lookup_mem)

lemma redeem_row_Answer:
  assumes "redeem_row w q found s = Answer (u, t)"
  shows "\<exists>row h b. found = Some row \<and> sq_now q \<le> sx_expires_at row \<and> sw_url_host w (sx_return_origin row) = Some h \<and> toLowerCase h = request_host q
    \<and> browserTokenFrom q = Some b \<and> sw_sha w b = sx_browser_hash row \<and> sx_user_id row = Some (us_id u) \<and> tn_id t = sx_tenant_id row
    \<and> tn_status t = Active \<and> u \<in> set (ac_users (ss_accounts s)) \<and> matchAccount (ss_accounts s) t (us_email u) \<noteq> None"
  using assms
  by (auto simp: redeem_row_def sso_expired_def Let_def timingSafeEqual_iff findUserById_def findTenantById_def truthy_text_def text_of_def
      split: option.splits if_splits dest!: tbl_lookup_mem find_Some_iff_mem)

text \<open>
  C10. A redeemed single sign-on code lets someone sign in only as the last of three steps of one sign-in.
  In any run from an empty table of states, with any changes to accounts in between, there was a start for
  that organization in a browser with the same cookie (up to the digest), on the host that redeems; then,
  within ten minutes, a callback with that start's state whose ID token, bound to that start's nonce,
  identified the account by its e-mail address in a directory the organization listed; and the code is the
  one that callback drew, at most two minutes old. The account is still the owner or on the staff of the
  organization, and never the super admin.
\<close>

theorem sso_sign_in_traced:
  assumes empty: "ss_states s0 = []" and run: "s = run_steps (sso_step w rf) es s0"
    and redeem: "redeem_row w q (fst (redeemed w (redeem_code q) s)) (snd (redeemed w (redeem_code q) s)) = Answer (u, t)"
    and emails: "emails_ok (ss_accounts s)"
  shows "(\<exists>es1 qs t0 es2 qc es3 row tc uc origin h b.
      es = es1 @ Start qs (Some t0) # es2 @ Callback qc # es3
      \<and> tn_id t0 = tn_id t \<and> browserTokenFrom q = Some b \<and> sw_sha w b = sw_sha w (browser_value qs)
      \<and> returnOriginFor w qs t0 = Inr (Some origin) \<and> sw_url_host w origin = Some h \<and> toLowerCase h = request_host q
      \<and> sw_sha w (text_of (map_of (sq_params qc) ''state'')) = sw_sha w (toBase64url (sq_state qs))
      \<and> sx_nonce row = toBase64url (sq_nonce qs) \<and> sx_tenant_id row = tn_id t
      \<and> confirms w qc row (run_steps (sso_step w rf) (es1 @ Start qs (Some t0) # es2) s0) tc uc \<and> us_id uc = us_id u
      \<and> sw_sha w (redeem_code q) = sw_sha w (bufferToHex (sq_handoff qc))
      \<and> sq_now qc \<le> sq_now qs + 600 \<and> sq_now q \<le> sq_now qc + 120)
    \<and> us_role u \<noteq> Super_admin
    \<and> (tn_user_id t = us_id u \<or> (\<exists>m\<in>set (tenant_users (ac_db (ss_accounts s))). tu_tenant_id m = tn_id t \<and> tu_user_id m = us_id u))"
proof -
  obtain row h b where row: "find (\<lambda>r. sx_handoff_hash r = Some (sw_sha w (redeem_code q))) (ss_states s) = Some row"
    and ok: "sq_now q \<le> sx_expires_at row" "sw_url_host w (sx_return_origin row) = Some h" "toLowerCase h = request_host q"
      "browserTokenFrom q = Some b" "sw_sha w b = sx_browser_hash row" "sx_user_id row = Some (us_id u)" "tn_id t = sx_tenant_id row"
    and user: "u \<in> set (ac_users (ss_accounts s))" "matchAccount (ss_accounts s) t (us_email u) \<noteq> None"
    using redeem_row_Answer [OF redeem] by (auto simp: redeemed_def)
  have mem: "row \<in> set (ss_states s)" "sx_handoff_hash row = Some (sw_sha w (redeem_code q))" using find_Some_iff_mem [OF row] by auto
  then have "confirmed w rf s0 es row" using rows_accounted [OF empty] run by (auto simp: accounted_def)
  then obtain pre qc es3 tc uc where c: "es = pre @ Callback qc # es3" "began w pre row"
      "sw_sha w (text_of (map_of (sq_params qc) ''state'')) = sx_state_hash row"
      "confirms w qc row (run_steps (sso_step w rf) pre s0) tc uc" "sx_user_id row = Some (us_id uc)"
      "sx_handoff_hash row = Some (sw_sha w (bufferToHex (sq_handoff qc)))" "sx_expires_at row = sq_now qc + 120" "sq_now qc \<le> sx_created_at row + 600"
    unfolding confirmed_def by blast
  then obtain qs t0 es1 es2 where b: "pre = es1 @ Start qs (Some t0) # es2" "sx_state_hash row = sw_sha w (toBase64url (sq_state qs))"
      "sx_tenant_id row = tn_id t0" "sx_nonce row = toBase64url (sq_nonce qs)" "sx_browser_hash row = sw_sha w (browser_value qs)"
      "returnOriginFor w qs t0 = Inr (Some (sx_return_origin row))" "sx_created_at row = sq_now qs"
    unfolding began_def by (auto dest!: split_list)
  obtain m where m: "matchAccount (ss_accounts s) t (us_email u) = Some m" using user(2) by auto
  then have "m = u" using matchAccount_Some [OF m] user(1) emails by (auto simp: emails_ok_def distinct_map inj_on_def)
  then have "us_role u \<noteq> Super_admin" "tn_user_id t = us_id u \<or> (\<exists>m\<in>set (tenant_users (ac_db (ss_accounts s))). tu_tenant_id m = tn_id t \<and> tu_user_id m = us_id u)"
    using matchAccount_Some [OF m] by auto
  moreover have "es = es1 @ Start qs (Some t0) # es2 @ Callback qc # es3" "tn_id t0 = tn_id t" "sw_sha w b = sw_sha w (browser_value qs)"
    "sw_sha w (text_of (map_of (sq_params qc) ''state'')) = sw_sha w (toBase64url (sq_state qs))" "sx_tenant_id row = tn_id t"
    "confirms w qc row (run_steps (sso_step w rf) (es1 @ Start qs (Some t0) # es2) s0) tc uc" "us_id uc = us_id u"
    "sw_sha w (redeem_code q) = sw_sha w (bufferToHex (sq_handoff qc))" "sq_now qc \<le> sq_now qs + 600" "sq_now q \<le> sq_now qc + 120"
    using b c ok mem(2) by simp_all
  ultimately show ?thesis using b(4,6) ok(2-4) by blast
qed

subsection \<open>A state and a code work once\<close>

lemma run_invar_on: "(\<And>e s. e \<in> set es \<Longrightarrow> invar s \<Longrightarrow> invar (step e s)) \<Longrightarrow> invar s \<Longrightarrow> invar (run_steps step es s)"
  by (induction es arbitrary: s) auto

lemma states_distinct_step: "distinct_keys sx_state_hash (ss_states s) \<Longrightarrow> distinct_keys sx_state_hash (ss_states (sso_step w rf e s))"
proof (cases e)
  case (Start q t)
  assume "distinct_keys sx_state_hash (ss_states s)"
  then show ?thesis using start_states [of w q t s] Start by (auto simp: new_state_def)
next
  case (Redeem q)
  assume "distinct_keys sx_state_hash (ss_states s)"
  then show ?thesis using redeem_states [of w rf q s] Redeem by (auto simp: distinct_map_filter)
qed (auto simp: callback_keys purgeExpiredSsoStates_def distinct_map_filter)

text \<open>No row is left that the state, or the code, of this digest could still spend.\<close>

definition state_closed :: "string \<Rightarrow> int \<Rightarrow> sso_store \<Rightarrow> bool" where
  "state_closed h now s = (distinct_keys sx_state_hash (ss_states s)
     \<and> (\<forall>r\<in>set (ss_states s). sx_state_hash r = h \<longrightarrow> sx_used_at r \<noteq> None \<or> sx_expires_at r < now))"

definition code_closed :: "string \<Rightarrow> sso_store \<Rightarrow> bool" where
  "code_closed h s = (distinct_keys sx_state_hash (ss_states s) \<and> (\<forall>r\<in>set (ss_states s). sx_handoff_hash r \<noteq> Some h))"

lemma callback_closes:
  assumes "distinct_keys sx_state_hash (ss_states s)" "state_param (text_of (map_of (sq_params q) ''state''))"
  shows "state_closed (sw_sha w (text_of (map_of (sq_params q) ''state''))) (sq_now q) (snd (handleSsoCallback w q s))"
proof -
  let ?h = "sw_sha w (text_of (map_of (sq_params q) ''state''))"
  obtain found s' where sp: "spend_state ?h (sq_now q) s = (found, s')" by fastforce
  note spent = spent_states [OF sp]
  have closed: "sx_used_at r \<noteq> None \<or> sx_expires_at r < sq_now q" if "r \<in> set (ss_states s')" "sx_state_hash r = ?h" for r
    using that spent(1) by (auto simp: spent_by_def spendable_def split: if_splits)
  have row: "sx_used_at row \<noteq> None \<and> sx_state_hash row = ?h" if "found = Some row" for row
    using spent(5) [OF that] by (auto simp: spent_by_def spendable_def)
  have d: "distinct_keys sx_state_hash (ss_states s')" using assms(1) spent(1) by (simp add: comp_def)
  have used: "sx_used_at r \<noteq> None" if "found = Some row" "r \<in> set (ss_states s')" "sx_state_hash r = ?h" for r row
  proof -
    have "row \<in> set (ss_states s')" using spent(5) [OF that(1)] spent(1) by auto
    then show ?thesis using row [OF that(1)] that(2,3) d by (auto simp: distinct_map inj_on_def)
  qed
  have "sx_used_at r \<noteq> None \<or> sx_expires_at r < sq_now q"
    if "found = Some row" "r \<in> set (ss_states (snd (callback_row w q row s')))" "sx_state_hash r = ?h" for row r
    using callback_row_states [of w q row s'] that closed used [OF that(1)]
    by (fastforce simp: tbl_delete_def tbl_update_def handed_def)
  then have "sx_used_at r \<noteq> None \<or> sx_expires_at r < sq_now q"
    if "r \<in> set (ss_states (snd (handleSsoCallback w q s)))" "sx_state_hash r = ?h" for r
    using that closed sp assms(2) by (cases found) (simp_all add: handleSsoCallback_def)
  then show ?thesis using callback_keys [OF assms(1), of w q] by (simp add: state_closed_def)
qed

lemma state_closed_step:
  assumes "state_closed h now s" "\<And>q t. e = Start q t \<Longrightarrow> sw_sha w (toBase64url (sq_state q)) \<noteq> h"
  shows "state_closed h now (sso_step w rf e s)"
proof -
  have d: "distinct_keys sx_state_hash (ss_states s)" "distinct_keys sx_state_hash (ss_states (sso_step w rf e s))"
    and rows: "\<And>r. r \<in> set (ss_states s) \<Longrightarrow> sx_state_hash r = h \<Longrightarrow> sx_used_at r \<noteq> None \<or> sx_expires_at r < now"
    using assms(1) states_distinct_step by (auto simp: state_closed_def)
  have "sx_used_at r' \<noteq> None \<or> sx_expires_at r' < now" if "r' \<in> set (ss_states (sso_step w rf e s))" "sx_state_hash r' = h" for r'
  proof (cases e)
    case (Start q t)
    then have "r' \<in> set (ss_states s)" using that assms(2) start_states [of w q t s] by (auto simp: new_state_def)
    then show ?thesis using rows that(2) by blast
  next
    case (Callback q)
    have mem: "r' \<in> set (ss_states (snd (handleSsoCallback w q s)))" using that(1) Callback by simp
    obtain r where "r \<in> set (ss_states s)" "r' = r \<or> r' = spent_by w q r \<or> sx_used_at r' \<noteq> None"
      using callback_states [OF d(1) mem] by (fastforce simp: spent_by_def handed_def)
    then show ?thesis using rows [of r] that(2) by (auto simp: spent_by_def split: if_splits)
  next
    case (Redeem q)
    then have "r' \<in> set (ss_states s)" using that redeem_states [of w rf q s] by auto
    then show ?thesis using rows that(2) by blast
  qed (use that rows [of r'] in \<open>auto simp: purgeExpiredSsoStates_def\<close>)
  then show ?thesis using d(2) by (simp add: state_closed_def)
qed

lemma code_closed_step:
  assumes "code_closed h s" "\<And>q. e = Callback q \<Longrightarrow> sw_sha w (bufferToHex (sq_handoff q)) \<noteq> h"
  shows "code_closed h (sso_step w rf e s)"
proof -
  have d: "distinct_keys sx_state_hash (ss_states s)" "distinct_keys sx_state_hash (ss_states (sso_step w rf e s))"
    and rows: "\<And>r. r \<in> set (ss_states s) \<Longrightarrow> sx_handoff_hash r \<noteq> Some h"
    using assms(1) states_distinct_step by (auto simp: code_closed_def)
  have "sx_handoff_hash r' \<noteq> Some h" if "r' \<in> set (ss_states (sso_step w rf e s))" for r'
  proof (cases e)
    case (Start q t)
    then show ?thesis using that rows start_states [of w q t s] by (auto simp: new_state_def)
  next
    case (Callback q)
    then show ?thesis using callback_states [OF d(1), of r' w q] that rows assms(2)
      by (auto simp: spent_by_def handed_def split: if_splits)
  next
    case (Redeem q)
    then show ?thesis using that rows redeem_states [of w rf q s] by auto
  qed (use that rows in \<open>auto simp: purgeExpiredSsoStates_def\<close>)
  then show ?thesis using d(2) by (simp add: code_closed_def)
qed

lemma closed_state_answer:
  assumes "state_closed (sw_sha w (text_of (map_of (sq_params q) ''state''))) now s" "now \<le> sq_now q"
    "state_param (text_of (map_of (sq_params q) ''state''))"
  shows "fst (handleSsoCallback w q s) = Sso_page ''This sign-in has expired or was already used. Start again from your organization's sign-in page.''"
proof -
  let ?h = "sw_sha w (text_of (map_of (sq_params q) ''state''))"
  have "find (spendable ?h (sq_now q)) (ss_states s) = None" using assms(1,2) by (auto simp: find_None_iff state_closed_def spendable_def)
  then show ?thesis using assms(3) by (simp add: handleSsoCallback_def spend_state_def)
qed

lemma closed_code_answer:
  assumes "code_closed (sw_sha w (redeem_code q)) s" "\<not> cross_origin w q" "ar_body (sq_auth q) \<noteq> None" "hex_token (redeem_code q)"
  shows "fst (handleSsoRedeem w rf q s) = (sso_expired, [])"
proof -
  have "find (\<lambda>r. sx_handoff_hash r = Some (sw_sha w (redeem_code q))) (ss_states s) = None"
    using assms(1) by (auto simp: find_None_iff code_closed_def)
  then show ?thesis using assms(2-4) by (auto simp: handleSsoRedeem_def redeemed_def redeem_row_def sso_expired_def)
qed

lemma redeem_closes:
  assumes "distinct_keys sx_state_hash (ss_states s)" "\<not> cross_origin w q" "ar_body (sq_auth q) \<noteq> None" "hex_token (redeem_code q)"
  shows "code_closed (sw_sha w (redeem_code q)) (snd (handleSsoRedeem w rf q s))"
proof -
  have "ss_states (snd (handleSsoRedeem w rf q s)) = filter (\<lambda>r. sx_handoff_hash r \<noteq> Some (sw_sha w (redeem_code q))) (ss_states s)"
    using assms(2-4) by (auto simp: handleSsoRedeem_def redeemed_def Let_def split: outcome.splits prod.splits)
  then show ?thesis using assms(1) by (simp add: code_closed_def distinct_map_filter)
qed

lemma state_once:
  assumes "distinct_keys sx_state_hash (ss_states s)"
    "map_of (sq_params q1) ''state'' = Some state" "map_of (sq_params q2) ''state'' = Some state" "state_param state" "sq_now q1 \<le> sq_now q2"
    and fresh: "\<forall>q t. Start q t \<in> set es \<longrightarrow> sw_sha w (toBase64url (sq_state q)) \<noteq> sw_sha w state"
  shows "fst (handleSsoCallback w q2 (run_steps (sso_step w rf) es (snd (handleSsoCallback w q1 s))))
      = Sso_page ''This sign-in has expired or was already used. Start again from your organization's sign-in page.''"
proof -
  have state: "text_of (map_of (sq_params q1) ''state'') = state" "text_of (map_of (sq_params q2) ''state'') = state"
    using assms by (simp_all add: text_of_def)
  have "state_closed (sw_sha w state) (sq_now q1) (run_steps (sso_step w rf) es (snd (handleSsoCallback w q1 s)))"
  proof (rule run_invar_on)
    show "state_closed (sw_sha w state) (sq_now q1) (snd (handleSsoCallback w q1 s))" using callback_closes [OF assms(1), of q1 w] state assms(4) by simp
  qed (rule state_closed_step; use fresh in blast)
  then show ?thesis using closed_state_answer [of w q2 "sq_now q1"] state assms(4,5) by simp
qed

lemma code_once:
  assumes "distinct_keys sx_state_hash (ss_states s)" "\<forall>q\<in>{q1, q2}. redeem_code q = c \<and> \<not> cross_origin w q \<and> ar_body (sq_auth q) \<noteq> None" "hex_token c"
    and fresh: "\<forall>q. Callback q \<in> set es \<longrightarrow> sw_sha w (bufferToHex (sq_handoff q)) \<noteq> sw_sha w c"
  shows "fst (handleSsoRedeem w rf q2 (run_steps (sso_step w rf) es (snd (handleSsoRedeem w rf q1 s)))) = (sso_expired, [])"
proof -
  have "code_closed (sw_sha w c) (run_steps (sso_step w rf) es (snd (handleSsoRedeem w rf q1 s)))"
  proof (rule run_invar_on)
    show "code_closed (sw_sha w c) (snd (handleSsoRedeem w rf q1 s))" using redeem_closes [OF assms(1), of w q1 rf] assms(2,3) by auto
  qed (rule code_closed_step; use fresh in blast)
  then show ?thesis using closed_code_answer [of w q2] assms(2,3) by auto
qed

text \<open>
  C12. A state works for one callback and a one-time code for one redemption, whatever the first one's
  outcome: after a callback has named a state, a later callback with it only shows that the sign-in was
  already used, and after a code was sent in once, sending it again is answered that the sign-in has
  expired, as long as no later start, or callback, draws a token with the same digest.
\<close>

theorem sso_single_use:
  assumes "distinct_keys sx_state_hash (ss_states s)"
  shows "(map_of (sq_params q1) ''state'' = Some state \<and> map_of (sq_params q2) ''state'' = Some state \<and> state_param state \<and> sq_now q1 \<le> sq_now q2
      \<and> (\<forall>q t. Start q t \<in> set es \<longrightarrow> sw_sha w (toBase64url (sq_state q)) \<noteq> sw_sha w state) \<longrightarrow>
      fst (handleSsoCallback w q2 (run_steps (sso_step w rf) es (snd (handleSsoCallback w q1 s))))
      = Sso_page ''This sign-in has expired or was already used. Start again from your organization's sign-in page.'')
    \<and> ((\<forall>q\<in>{q3, q4}. redeem_code q = c \<and> \<not> cross_origin w q \<and> ar_body (sq_auth q) \<noteq> None) \<and> hex_token c
      \<and> (\<forall>q. Callback q \<in> set es \<longrightarrow> sw_sha w (bufferToHex (sq_handoff q)) \<noteq> sw_sha w c) \<longrightarrow>
      fst (handleSsoRedeem w rf q4 (run_steps (sso_step w rf) es (snd (handleSsoRedeem w rf q3 s)))) = (sso_expired, []))"
  using state_once [OF assms] code_once [OF assms] by blast

subsection \<open>Settings are what was saved last\<close>

lemma start_settings [simp]: "ss_settings (snd (handleSsoStart w q t s)) = ss_settings s"
  by (auto simp: handleSsoStart_def Let_def split: option.splits sum.splits)

lemma callback_settings [simp]: "ss_settings (snd (handleSsoCallback w q s)) = ss_settings s"
proof -
  have fail: "ss_settings (snd (sso_fail row t r s)) = ss_settings s" for row t r s by (simp add: sso_fail_def drop_state_def)
  have over: "ss_settings (snd (hand_over w q row t u s)) = ss_settings s" for row t u s by (simp add: hand_over_def Let_def)
  have account: "ss_settings (snd (callback_account w q row t c st ac s)) = ss_settings s" for row t c st ac s
    by (auto simp: callback_account_def fail over Let_def split: prod.split sum.split sso_failure.split option.split)
  have "ss_settings (snd (callback_row w q row s)) = ss_settings s" for row s
    by (auto simp: callback_row_def fail account drop_state_def Let_def split: option.split)
  then show ?thesis by (auto simp: handleSsoCallback_def spend_state_def Let_def split: option.split)
qed

lemma redeem_settings [simp]: "ss_settings (snd (handleSsoRedeem w rf q s)) = ss_settings s"
  by (auto simp: handleSsoRedeem_def redeemed_def Let_def split: outcome.splits prod.splits)

definition settings_ok :: "sso_store \<Rightarrow> bool" where
  "settings_ok s = (\<forall>i. settings_fit (getSsoSettings (ss_settings s) i))"

lemma settings_after:
  assumes "settings_ok s" "handleSsoSettings w q session t s = (Answer v, s')" "rq_http_method (sq_web q) = ''POST''"
  shows "administers (ac_db (ss_accounts s)) t (se_user_id session) (se_role session)"
    "\<exists>body. ar_body (sq_auth q) = Some body \<and> parseSsoSettings body = Inr (sv_settings v)"
    "\<forall>p. turning_on (getSsoSettings (ss_settings s) (tn_id t)) (sv_settings v) p \<longrightarrow> ssoProviderAvailable (sw_clients w) p"
    "s' = save_settings (tn_id t) session (getSsoSettings (ss_settings s) (tn_id t)) (sv_settings v) (sq_now q) s"
proof -
  obtain body next_s where ok: "administers (ac_db (ss_accounts s)) t (se_user_id session) (se_role session)" "ar_body (sq_auth q) = Some body"
      "parseSsoSettings body = Inr next_s" "settings_view_of w q True next_s = Answer v"
      "find (\<lambda>p. turning_on (getSsoSettings (ss_settings s) (tn_id t)) next_s p \<and> \<not> ssoProviderAvailable (sw_clients w) p) SSO_PROVIDERS = None"
      "s' = save_settings (tn_id t) session (getSsoSettings (ss_settings s) (tn_id t)) next_s (sq_now q) s"
    using assms(2,3) by (auto simp: handleSsoSettings_def Let_def split: if_splits option.splits sum.splits)
  have v: "sv_settings v = next_s" using ok(4) by (auto simp: settings_view_of_def split: sum.splits)
  have "p \<in> set SSO_PROVIDERS" for p by (cases p) (simp_all add: SSO_PROVIDERS_def)
  then show "\<forall>p. turning_on (getSsoSettings (ss_settings s) (tn_id t)) (sv_settings v) p \<longrightarrow> ssoProviderAvailable (sw_clients w) p"
    using ok(5) v by (auto simp: find_None_iff)
  show "administers (ac_db (ss_accounts s)) t (se_user_id session) (se_role session)"
    "\<exists>body. ar_body (sq_auth q) = Some body \<and> parseSsoSettings body = Inr (sv_settings v)"
    "s' = save_settings (tn_id t) session (getSsoSettings (ss_settings s) (tn_id t)) (sv_settings v) (sq_now q) s" using ok v by auto
qed

lemma saved_settings:
  assumes "settings_ok s" "settings_fit next_s"
  shows "getSsoSettings (ss_settings (save_settings i session (getSsoSettings (ss_settings s) i) next_s now s)) j
    = (if j = i then next_s else getSsoSettings (ss_settings s) j)"
proof (cases "describeSettings (getSsoSettings (ss_settings s) i) = describeSettings next_s")
  case True
  then have "getSsoSettings (ss_settings s) i = next_s" using describe_inj assms by (auto simp: settings_ok_def)
  then show ?thesis using True by (simp add: save_settings_def)
next
  case False
  then show ?thesis by (simp add: save_settings_def upsert_settings Let_def)
qed

lemma settings_ok_step: "settings_ok s \<Longrightarrow> settings_ok (sso_step w rf e s)"
proof (cases e)
  case (Configure q session t)
  assume ok: "settings_ok s"
  let ?old = "getSsoSettings (ss_settings s) (tn_id t)"
  have "snd (handleSsoSettings w q session t s) = s
      \<or> (\<exists>body next_s. parseSsoSettings body = Inr next_s \<and> snd (handleSsoSettings w q session t s) = save_settings (tn_id t) session ?old next_s (sq_now q) s)"
    by (auto simp: handleSsoSettings_def Let_def split: option.splits sum.splits)
  then show ?thesis using ok Configure saved_settings [OF ok] parse_fit by (auto simp: settings_ok_def)
qed (auto simp: settings_ok_def purgeExpiredSsoStates_def)

interpretation sso_configured: step_system "sso_step w rf" settings_ok for w rf
  by unfold_locales (rule settings_ok_step)

text \<open>
  C39. After any run that starts without settings, a POST to the settings route that is answered with the
  settings has stored exactly what the body asked for: reading them back gives the checked settings, every
  other organization's are as before, the caller administers the organization, and a provider newly
  turned on is one the platform offers. In particular a change is never lost because its description
  equals that of what is stored.
\<close>

theorem sso_settings_saved:
  assumes empty: "ss_settings s0 = []" and run: "s = run_steps (sso_step w rf) es s0"
    and post: "handleSsoSettings w q session t s = (Answer v, s')" "rq_http_method (sq_web q) = ''POST''"
  shows "getSsoSettings (ss_settings s') (tn_id t) = sv_settings v \<and> settings_fit (sv_settings v)
    \<and> (\<exists>body. ar_body (sq_auth q) = Some body \<and> parseSsoSettings body = Inr (sv_settings v))
    \<and> (\<forall>i. i \<noteq> tn_id t \<longrightarrow> getSsoSettings (ss_settings s') i = getSsoSettings (ss_settings s) i)
    \<and> administers (ac_db (ss_accounts s)) t (se_user_id session) (se_role session)
    \<and> (\<forall>p. turning_on (getSsoSettings (ss_settings s) (tn_id t)) (sv_settings v) p \<longrightarrow> ssoProviderAvailable (sw_clients w) p)"
proof -
  have "settings_ok s0" using empty by (simp add: settings_ok_def getSsoSettings_def tbl_lookup_def no_settings_fit)
  then have ok: "settings_ok s" using sso_configured.run_invar run by blast
  note after = settings_after [OF ok post]
  have fit: "settings_fit (sv_settings v)" using after(2) parse_fit by blast
  show ?thesis using after(1-3) saved_settings [OF ok fit, of "tn_id t" session "sq_now q"] fit unfolding after(4) by auto
qed

subsection \<open>Concrete cases\<close>

definition zeros :: "byte list" where "zeros = replicate 32 0"

definition lab_tenant :: tenant where "lab_tenant = plain_tenant ''t1'' ''u1'' ''lab''"

definition lab_owner :: account where
  "lab_owner = \<lparr>us_id = ''u1'', us_email = ''a@lab.org'', us_password_hash = [], us_salt = [], us_role = Org_admin, us_name = ''A'', us_two_factor_email = 0\<rparr>"

definition lab_settings :: sso_settings where
  "lab_settings = \<lparr>so_googleEnabled = True, so_googleDomains = [''lab.org''], so_microsoftEnabled = False, so_microsoftTenants = [], so_requireSso = True\<rparr>"

definition lab_accounts :: accounts where
  "lab_accounts = \<lparr>ac_db = empty_db\<lparr>tenants := [lab_tenant]\<rparr>, ac_users = [lab_owner], ac_two_factor = [], ac_challenges = [], ac_passkeys = [],
     ac_registrations = [], ac_browsers = [], ac_audit = [], ac_outbox = []\<rparr>"

definition lab_store :: "sso_settings_row list \<Rightarrow> sso_store" where
  "lab_store rows = \<lparr>ss_accounts = lab_accounts, ss_settings = rows, ss_states = [], ss_keys = Map.empty\<rparr>"

definition lab_rows :: "sso_settings_row list" where
  "lab_rows = [settings_row ''t1'' lab_settings 0 None]"

definition lab_world :: sso_world where
  "lab_world = \<lparr>sw_auth = demo_world, sw_clients = \<lparr>cl_google = (Some ''client'', Some ''secret''), cl_microsoft = (None, None)\<rparr>,
     sw_token = demo_token_crypto (toBase64url zeros),
     sw_exchange = (\<lambda>_ _. Some (200, Some (JObj [(''id_token'', JStr demo_id_token)]))), sw_url_host = (\<lambda>_. Some ''lab.org''), sw_canonical = None\<rparr>"

definition lab_request :: "(string \<times> string) list \<Rightarrow> json \<Rightarrow> sso_request" where
  "lab_request params body = \<lparr>sq_web = \<lparr>rq_host = Some ''lab.org'', rq_url_hostname = None, rq_http_method = ''POST'', rq_origin = None,
       rq_authorization = None, rq_x_tenant = None, rq_tenant_param = None\<rparr>,
     sq_url_host = ''lab.org'', sq_url_origin = ''https://lab.org'', sq_dev = True, sq_params = params, sq_cookie = Some sample_token,
     sq_auth = demo_request body, sq_state = zeros, sq_verifier = zeros, sq_nonce = zeros, sq_browser = zeros, sq_handoff = zeros,
     sq_keys = good_answer, sq_ms = 1000000\<rparr>"

definition lab_start :: sso_request where "lab_start = lab_request [(''provider'', ''google'')] JNull"

definition lab_callback :: sso_request where
  "lab_callback = lab_request [(''state'', toBase64url zeros), (''code'', ''x'')] JNull"

definition lab_redeem :: sso_request where
  "lab_redeem = lab_request [] (JObj [(''code'', JStr (bufferToHex zeros))])"

definition lab_run :: "sso_event list" where "lab_run = [Start lab_start (Some lab_tenant), Callback lab_callback]"

definition lab_row :: state_row where
  "lab_row = new_state lab_world lab_start lab_tenant Google (''https://lab.org'' @ SSO_CALLBACK_PATH) ''https://lab.org''"

lemma lab_host: "request_host (lab_request ps b) = ''lab.org''"
  by (simp add: request_host_def lab_request_def truthy_text_def text_of_def demo_email)

lemma lab_client: "clientCredentials (sw_clients lab_world) Google = Some (''client'', ''secret'')"
proof -
  have "trim ''client'' = ''client''" "trim ''secret'' = ''secret''" by code_simp+
  then show ?thesis by (simp add: clientCredentials_def lab_world_def text_of_def)
qed

lemma lab_enabled: "getSsoSettings lab_rows ''t1'' = lab_settings" "enabledIn lab_settings Google"
  using upsert_settings [of "''t1''" lab_settings 0 None "[]" "''t1''"]
  by (simp_all add: lab_rows_def tbl_upsert_def tbl_lookup_def settings_row_def lab_settings_def enabledIn_def)

lemma lab_started: "sso_step lab_world rf (Start lab_start (Some lab_tenant)) (lab_store lab_rows)
    = (with_db (\<lambda>db. recordRateLimitHit db ''sso:::1'' 600 1000) (lab_store lab_rows))\<lparr>ss_states := [lab_row]\<rparr>"
proof -
  have origin: "returnOriginFor lab_world lab_start lab_tenant = Inr (Some ''https://lab.org'')"
    "ssoRedirectUri lab_world lab_start = Inr (Some (''https://lab.org'' @ SSO_CALLBACK_PATH))"
    by (simp_all add: returnOriginFor_def ssoRedirectUri_def lab_start_def lab_request_def)
  have "isSsoProvider (map_of (sq_params lab_start) ''provider'') = Some Google" by (simp add: lab_start_def lab_request_def isSsoProvider_def)
  moreover have "rateLimitWait (ac_db (ss_accounts (lab_store lab_rows))) k n m t = 0" for k n m t
    by (simp add: rateLimitWait_def lab_store_def lab_accounts_def empty_db_def tbl_lookup_def)
  moreover have "ar_ip (sq_auth lab_start) = ''::1''" "sq_now lab_start = 1000" by (simp_all add: lab_start_def lab_request_def demo_request_def)
  moreover have "tn_id lab_tenant = ''t1''" "tn_status lab_tenant = Active" by (simp_all add: lab_tenant_def plain_tenant_def)
  moreover have "ss_settings (lab_store rows) = rows" "ss_states (lab_store rows) = []" for rows by (simp_all add: lab_store_def)
  ultimately show ?thesis
    by (simp add: handleSsoStart_def origin lab_client lab_enabled lab_row_def START_LIMIT_windowSeconds_def tbl_lookup_def Let_def)
qed

lemma toBase64url_size: "length (toBase64url bs) = (4 * length bs + 2) div 3"
  by (induction bs rule: toBase64url.induct) simp_all

lemma lab_texts: "state_param (toBase64url zeros)" "hex_token (bufferToHex zeros)"
  using toBase64url_chars [of zeros] lower_hex_bufferToHex [of zeros]
  by (simp_all add: state_param_def toBase64url_size hex_token_def length_bufferToHex zeros_def)

lemma lab_email: "toLowerCase ''a@lab.org'' = ''a@lab.org''"
  by code_simp

definition lab_handed :: state_row where
  "lab_handed = handed lab_world lab_callback lab_owner (lab_row\<lparr>sx_used_at := Some 1000\<rparr>)"

lemma lab_row_fields: "sx_state_hash lab_row = sw_sha lab_world (toBase64url zeros)" "sx_used_at lab_row = None" "sx_expires_at lab_row = 1600"
    "sx_tenant_id lab_row = ''t1''" "sx_provider lab_row = Google" "sx_nonce lab_row = toBase64url zeros" "sx_handoff_hash lab_row = None"
    "sx_return_origin lab_row = ''https://lab.org''" "sx_browser_hash lab_row = sw_sha lab_world sample_token"
  using sample_token_hex
  by (simp_all add: lab_row_def new_state_def lab_start_def lab_request_def demo_request_def STATE_SECONDS_def lab_tenant_def plain_tenant_def
      browser_value_def browserTokenFrom_def text_of_def)

lemma lab_request_fields: "sq_params (lab_request ps b) = ps" "sq_now (lab_request ps b) = 1000" "sq_keys (lab_request ps b) = good_answer"
    "sq_handoff (lab_request ps b) = zeros" "ar_body (sq_auth (lab_request ps b)) = Some b" "browserTokenFrom (lab_request ps b) = Some sample_token"
    "sq_ms (lab_request ps b) = 1000000" "rq_origin (sq_web (lab_request ps b)) = None"
  using sample_token_hex by (simp_all add: lab_request_def demo_request_def browserTokenFrom_def text_of_def)

lemma lab_callback_fields: "sq_params lab_callback = [(''state'', toBase64url zeros), (''code'', ''x'')]" "sq_now lab_callback = 1000"
    "sq_keys lab_callback = good_answer" "sq_handoff lab_callback = zeros" "sq_ms lab_callback = 1000000" "request_host lab_callback = ''lab.org''"
  by (simp_all add: lab_callback_def lab_request_fields lab_host)

lemma lab_called:
  assumes "ss_states s = [lab_row]" "ss_keys s = Map.empty" "ss_settings s = lab_rows" "tenants (ac_db (ss_accounts s)) = [lab_tenant]"
    "ac_users (ss_accounts s) = [lab_owner]" "\<And>i now. getLockoutRemaining (ac_db (ss_accounts s)) i now = 0 \<or> i = ''sso:::1''"
  shows "ss_states (snd (handleSsoCallback lab_world lab_callback s)) = [lab_handed]" 
    "ss_accounts (snd (handleSsoCallback lab_world lab_callback s)) = ss_accounts s"
proof -
  let ?row = "lab_row\<lparr>sx_used_at := Some 1000\<rparr>" and ?s = "s\<lparr>ss_states := [lab_row\<lparr>sx_used_at := Some 1000\<rparr>]\<rparr>"
  let ?settings = "getSsoSettings (ss_settings ?s) ''t1''"
  have spend: "spend_state (sw_sha lab_world (toBase64url zeros)) 1000 s = (Some ?row, ?s)"
    using assms(1) by (simp add: spend_state_def spendable_def lab_row_fields tbl_update_def)
  have token: "exchangeCode lab_world c ?row x = Inr demo_id_token" for c x
    by (simp add: exchangeCode_def lab_world_def)
  have expected: "expected_of ?row ''client'' lab_settings = demo_expected (toBase64url zeros)"
    by (simp add: expected_of_def lab_row_fields lab_settings_def demo_expected_def)
  have key: "fst (providerSigningKey Map.empty Google ''k1'' good_answer n) = Inr (Some demo_key)" for n
    by (simp add: providerSigningKey_def uses_cache_def good_answer_def answered_keys_def find_key_def demo_key_def)
  have verified: "verifyIdToken (sw_token lab_world) demo_id_token (demo_expected (toBase64url zeros))
      (\<lambda>kid. fst (providerSigningKey Map.empty Google kid good_answer 1000000)) 1000
      = Inr \<lparr>si_provider = Google, si_email = ''a@lab.org'', si_subject = ''7'', si_directory = ''lab.org''\<rparr>"
    using demo_verified [of "\<lambda>kid. fst (providerSigningKey Map.empty Google kid good_answer 1000000)" "toBase64url zeros"] key by (simp add: lab_world_def)
  have found: "matchAccount (ss_accounts s) lab_tenant ''a@lab.org'' = Some lab_owner"
    using assms(5) lab_email by (simp add: matchAccount_def findUserByEmail_def tbl_lookup_def lab_owner_def lab_tenant_def plain_tenant_def)
  obtain cache where ident: "identify lab_world lab_callback (''client'', ''secret'') lab_settings ?row ''x'' (ss_keys s)
      = (Inr \<lparr>si_provider = Google, si_email = ''a@lab.org'', si_subject = ''7'', si_directory = ''lab.org''\<rparr>, cache)"
    using verified by (auto simp: identify_def token expected assms(2) lab_row_fields lab_callback_fields)
  have lock: "getLockoutRemaining (ac_db (ss_accounts s)) ''a@lab.org'' 1000 = 0" using assms(6) [of "''a@lab.org''" 1000] by simp
  have account: "callback_account lab_world lab_callback ?row lab_tenant (''client'', ''secret'') lab_settings ''x'' ?s
      = hand_over lab_world lab_callback ?row lab_tenant lab_owner (?s\<lparr>ss_keys := cache\<rparr>)"
    by (simp add: callback_account_def ident lock found lab_callback_fields Let_def)
  have tenant: "findTenantById (ac_db (ss_accounts s)) ''t1'' = Some lab_tenant" "tn_id lab_tenant = ''t1''" "tn_status lab_tenant = Active"
    using assms(4) by (simp_all add: findTenantById_def lab_tenant_def plain_tenant_def)
  have host: "sw_url_host lab_world u = Some ''lab.org''" for u by (simp add: lab_world_def)
  have row: "callback_row lab_world lab_callback ?row ?s = hand_over lab_world lab_callback ?row lab_tenant lab_owner (?s\<lparr>ss_keys := cache\<rparr>)"
    using account by (simp add: callback_row_def host demo_email tenant lab_row_fields lab_callback_fields lab_client lab_enabled assms(3) truthy_text_def text_of_def)
  have "handleSsoCallback lab_world lab_callback s = hand_over lab_world lab_callback ?row lab_tenant lab_owner (?s\<lparr>ss_keys := cache\<rparr>)"
    using spend row by (simp add: handleSsoCallback_def lab_callback_fields lab_texts text_of_def)
  then show "ss_states (snd (handleSsoCallback lab_world lab_callback s)) = [lab_handed]"
    "ss_accounts (snd (handleSsoCallback lab_world lab_callback s)) = ss_accounts s"
    by (simp_all add: hand_over_def handed_def lab_handed_def tbl_update_def Let_def)
qed

lemma lab_ran: "ss_states (run_steps (sso_step lab_world rf) lab_run (lab_store lab_rows)) = [lab_handed]"
    "tenants (ac_db (ss_accounts (run_steps (sso_step lab_world rf) lab_run (lab_store lab_rows)))) = [lab_tenant]"
    "ac_users (ss_accounts (run_steps (sso_step lab_world rf) lab_run (lab_store lab_rows))) = [lab_owner]"
    "getLockoutRemaining (ac_db (ss_accounts (run_steps (sso_step lab_world rf) lab_run (lab_store lab_rows)))) ''a@lab.org'' now = 0"
proof -
  let ?s = "(with_db (\<lambda>db. recordRateLimitHit db ''sso:::1'' 600 1000) (lab_store lab_rows))\<lparr>ss_states := [lab_row]\<rparr>"
  have s: "ss_keys ?s = Map.empty" "ss_settings ?s = lab_rows" "tenants (ac_db (ss_accounts ?s)) = [lab_tenant]" "ac_users (ss_accounts ?s) = [lab_owner]"
    "getLockoutRemaining (ac_db (ss_accounts ?s)) i n = 0 \<or> i = ''sso:::1''" for i n
    by (auto simp: with_db_def lab_store_def lab_accounts_def recordRateLimitHit_def getLockoutRemaining_def empty_db_def tbl_lookup_def tbl_upsert_def)
  have run: "run_steps (sso_step lab_world rf) lab_run (lab_store lab_rows) = snd (handleSsoCallback lab_world lab_callback ?s)"
    using lab_started [of rf] by (simp add: lab_run_def)
  note called = lab_called [of ?s, OF _ s, simplified]
  show "ss_states (run_steps (sso_step lab_world rf) lab_run (lab_store lab_rows)) = [lab_handed]"
    "tenants (ac_db (ss_accounts (run_steps (sso_step lab_world rf) lab_run (lab_store lab_rows)))) = [lab_tenant]"
    "ac_users (ss_accounts (run_steps (sso_step lab_world rf) lab_run (lab_store lab_rows))) = [lab_owner]"
    "getLockoutRemaining (ac_db (ss_accounts (run_steps (sso_step lab_world rf) lab_run (lab_store lab_rows)))) ''a@lab.org'' now = 0"
    unfolding run using called s(3,4) s(5) [of "''a@lab.org''" now] by simp_all
qed

lemma lab_redeemed:
  "let s = run_steps (sso_step lab_world rf) lab_run (lab_store lab_rows) in
     redeem_row lab_world lab_redeem (fst (redeemed lab_world (redeem_code lab_redeem) s)) (snd (redeemed lab_world (redeem_code lab_redeem) s))
     = Answer (lab_owner, lab_tenant)"
proof -
  let ?s = "run_steps (sso_step lab_world rf) lab_run (lab_store lab_rows)"
  have typed: "redeem_code lab_redeem = bufferToHex zeros" by (simp add: redeem_code_def lab_redeem_def lab_request_fields)
  have row: "sx_handoff_hash lab_handed = Some (sw_sha lab_world (bufferToHex zeros))" "sx_user_id lab_handed = Some ''u1''" "sx_expires_at lab_handed = 1120"
    "sx_return_origin lab_handed = ''https://lab.org''" "sx_browser_hash lab_handed = sw_sha lab_world sample_token" "sx_tenant_id lab_handed = ''t1''"
    by (simp_all add: lab_handed_def handed_def lab_row_fields lab_callback_fields lab_owner_def SSO_HANDOFF_SECONDS_def)
  have q: "sq_now lab_redeem = 1000" "request_host lab_redeem = ''lab.org''" "browserTokenFrom lab_redeem = Some sample_token"
    by (simp_all add: lab_redeem_def lab_request_fields lab_host)
  have found: "findTenantById (ac_db (ss_accounts ?s)) ''t1'' = Some lab_tenant" "tn_status lab_tenant = Active"
    "findUserById (ss_accounts ?s) ''u1'' = Some lab_owner" "us_email lab_owner = ''a@lab.org''"
    "matchAccount (ss_accounts ?s) lab_tenant ''a@lab.org'' = Some lab_owner"
    using lab_ran(2,3) [of rf] lab_email
    by (simp_all add: findTenantById_def findUserById_def tbl_lookup_def lab_tenant_def plain_tenant_def lab_owner_def matchAccount_def findUserByEmail_def)
  have host: "sw_url_host lab_world u = Some ''lab.org''" for u by (simp add: lab_world_def)
  show ?thesis
    by (simp add: typed redeemed_def lab_ran(1) row redeem_row_def q host demo_email timingSafeEqual_iff found lab_ran(4) truthy_text_def text_of_def Let_def)
qed

theorem sso_sign_in_traced_witness:
  "us_role lab_owner \<noteq> Super_admin \<and> (\<exists>es1 qs t0 es2 qc es3. lab_run = es1 @ Start qs (Some t0) # es2 @ Callback qc # es3 \<and> tn_id t0 = tn_id lab_tenant)"
proof -
  let ?s = "run_steps (sso_step lab_world tn_subdomain) lab_run (lab_store lab_rows)"
  have "ss_states (lab_store lab_rows) = []" "emails_ok (ss_accounts ?s)"
    using lab_ran(3) [of tn_subdomain] lab_email by (simp_all add: lab_store_def emails_ok_def lab_owner_def)
  note traced = sso_sign_in_traced [OF this(1) refl lab_redeemed [of tn_subdomain, unfolded Let_def] this(2)]
  then show ?thesis by blast
qed

theorem sso_single_use_witness:
  "fst (handleSsoCallback lab_world lab_callback (snd (handleSsoCallback lab_world lab_callback (lab_store lab_rows))))
     = Sso_page ''This sign-in has expired or was already used. Start again from your organization's sign-in page.''
   \<and> fst (handleSsoRedeem lab_world tn_subdomain lab_redeem
        (snd (handleSsoRedeem lab_world tn_subdomain lab_redeem (run_steps (sso_step lab_world tn_subdomain) lab_run (lab_store lab_rows))))) = (sso_expired, [])"
proof -
  have d: "distinct_keys sx_state_hash (ss_states (lab_store lab_rows))"
    "distinct_keys sx_state_hash (ss_states (run_steps (sso_step lab_world tn_subdomain) lab_run (lab_store lab_rows)))"
    using lab_ran(1) [of tn_subdomain] by (simp_all add: lab_store_def)
  have "map_of (sq_params lab_callback) ''state'' = Some (toBase64url zeros)" by (simp add: lab_callback_fields)
  note once = sso_single_use [OF d(1), of lab_callback "toBase64url zeros" lab_callback "[]" lab_world tn_subdomain] this
  have typed: "redeem_code lab_redeem = bufferToHex zeros" "\<not> cross_origin lab_world lab_redeem" "ar_body (sq_auth lab_redeem) \<noteq> None"
    by (simp_all add: redeem_code_def lab_redeem_def lab_request_fields cross_origin_def truthy_text_def)
  note again = sso_single_use [OF d(2), of _ _ _ "[]" lab_world tn_subdomain lab_redeem lab_redeem "bufferToHex zeros"]
  show ?thesis using once again typed lab_texts by simp
qed

definition lab_body :: json where
  "lab_body = JObj [(''google'', JObj [(''enabled'', JBool True), (''domains'', JArr [JStr ''lab.org''])]), (''microsoft'', JObj [(''enabled'', JBool False)]),
     (''requireSso'', JBool True)]"

definition lab_session :: session where
  "lab_session = \<lparr>se_token = ''s'', se_user_id = ''u1'', se_tenant_id = Some ''t1'', se_role = Org_admin, se_expires_at = 5000\<rparr>"

lemma lab_parsed: "parseSsoSettings lab_body = Inr lab_settings"
proof -
  have "toLowerCase (trim ''lab.org'') = ''lab.org''" by code_simp
  moreover have "domain_problem ''lab.org'' = None"
    by (simp add: domain_problem_def DOMAIN_PATTERN_def BLOCKLIST_DOMAIN_PATTERN_def CONSUMER_GOOGLE_DOMAINS_def is_label_def is_slug_char_def is_lower_def is_digit_def Let_def)
  ultimately show ?thesis
    by (simp add: parseSsoSettings_def lab_body_def or_empty_def cleanList_def MAX_ALLOWED_ENTRIES_def lab_settings_def Let_def)
qed

theorem sso_settings_saved_witness:
  "getSsoSettings (ss_settings (snd (handleSsoSettings lab_world (lab_request [] lab_body) lab_session lab_tenant (lab_store [])))) ''t1'' = lab_settings"
proof -
  let ?q = "lab_request [] lab_body"
  let ?post = "handleSsoSettings lab_world ?q lab_session lab_tenant (lab_store [])"
  have posted: "rq_http_method (sq_web ?q) = ''POST''" "ar_body (sq_auth ?q) = Some lab_body" by (simp_all add: lab_request_def demo_request_def)
  have tenant: "tn_id lab_tenant = ''t1''" "tn_user_id lab_tenant = ''u1''" by (simp_all add: lab_tenant_def plain_tenant_def)
  have old: "getSsoSettings (ss_settings (lab_store [])) ''t1'' = NO_SETTINGS" by (simp add: lab_store_def getSsoSettings_def tbl_lookup_def)
  have "find (\<lambda>p. turning_on NO_SETTINGS lab_settings p \<and> \<not> ssoProviderAvailable (sw_clients lab_world) p) SSO_PROVIDERS = None"
    by (simp add: SSO_PROVIDERS_def turning_on_def NO_SETTINGS_def lab_settings_def ssoProviderAvailable_def lab_client)
  then obtain v where v: "fst ?post = Answer v" "sv_settings v = lab_settings"
    using posted lab_parsed old tenant
    by (auto simp: handleSsoSettings_def administers_def lab_session_def settings_view_of_def ssoRedirectUri_def lab_request_def demo_request_def Let_def)
  have "ss_settings (lab_store []) = []" "lab_store [] = run_steps (sso_step lab_world tn_subdomain) [] (lab_store [])" by (simp_all add: lab_store_def)
  moreover have "?post = (Answer v, snd ?post)" using v(1) by (metis prod.collapse)
  ultimately show ?thesis using sso_settings_saved [of "lab_store []" "lab_store []" lab_world tn_subdomain "[]" ?q lab_session lab_tenant v] posted(1) v(2) tenant by simp
qed

end
