(* ===== verification/Login.thy ===== *)
theory Login
  imports Single_Sign_On
begin

text \<open>
  Signing in with a password: \<open>POST /api/auth/login\<close> of \<open>src/cloudflare-control/src/index.ts\<close>, the human check
  in front of it (\<open>turnstile.ts\<close>) and where a sign-in leads (\<open>postLoginRedirect\<close>). Cloudflare's verdict on a
  token is a function of the token.
\<close>

subsection \<open>The human check\<close>

record turnstile =
  tu_site :: "string option"
  tu_secret :: "string option"
  tu_verify :: "string \<Rightarrow> string \<Rightarrow> string \<Rightarrow> (bool \<times> json option) option"

definition turnstileSiteKey :: "turnstile \<Rightarrow> string option" where
  "turnstileSiteKey env =
     (let site = trim (text_of (tu_site env)); secret = trim (text_of (tu_secret env)) in
      if site \<noteq> [] \<and> secret \<noteq> [] then Some site else None)"

definition turnstileConfigProblem :: "turnstile \<Rightarrow> bool" where
  "turnstileConfigProblem env = ((trim (text_of (tu_site env)) \<noteq> []) \<noteq> (trim (text_of (tu_secret env)) \<noteq> []))"

definition check_failed :: refusal where
  "check_failed = (''The check did not pass. Please try it again.'', 400)"

text \<open>
  \<open>tu_verify\<close> is the answer of siteverify to secret, token and address: whether the status is a success, and
  the body. A body that is \<open>null\<close> makes \<open>result.success\<close> throw (\<open>Inl\<close>).
\<close>

definition turnstileRefusal :: "turnstile \<Rightarrow> json \<Rightarrow> string \<Rightarrow> string \<Rightarrow> string + refusal option" where
  "turnstileRefusal env token ip action =
     (if turnstileConfigProblem env then Inr (Some (''This form is temporarily unavailable. Please write to us by email.'', 503))
      else if turnstileSiteKey env = None then Inr None
      else let response = trim (text_or_empty token) in
        if response = [] \<or> length response > 2048 then Inr (Some (''Please complete the check above the button and try again.'', 400))
        else case tu_verify env (trim (text_of (tu_secret env))) response ip of
          Some (True, Some JNull) \<Rightarrow> Inl ''TypeError''
        | Some (True, Some result) \<Rightarrow>
            Inr (if \<not> truthy (field result ''success'') then Some check_failed
                 else if truthy (field result ''action'') \<and> field result ''action'' \<noteq> JStr action then Some check_failed
                 else None)
        | _ \<Rightarrow> Inr (Some (''We could not check that you are human just now. Please try again in a moment.'', 503)))"

subsection \<open>Where a sign-in leads\<close>

record redirect_options =
  ro_role :: user_role
  ro_ownSubdomain :: "string option"
  ro_hostSlug :: "string option"
  ro_requestedSlug :: "string option"
  ro_isDev :: bool
  ro_baseDomain :: string
  ro_superHost :: "string option"
  ro_host :: string

definition consoleFor :: "redirect_options \<Rightarrow> string \<Rightarrow> string" where
  "consoleFor r slug =
     (if ro_isDev r then ''/admin?tenant='' @ encodeURIComponent slug else ''https://'' @ slug @ ''.'' @ ro_baseDomain r @ ''/admin'')"

definition postLoginRedirect :: "redirect_options \<Rightarrow> string" where
  "postLoginRedirect r =
     (if ro_role r = Super_admin then
        (let context = (if truthy_text (ro_hostSlug r) then ro_hostSlug r else ro_requestedSlug r) in
         if isDemoSlug context then consoleFor r (text_of context)
         else if truthy_text (ro_superHost r) \<and> \<not> ro_isDev r \<and> Some (ro_host r) \<noteq> ro_superHost r
         then ''https://'' @ text_of (ro_superHost r) @ ''/super'' else ''/super'')
      else if truthy_text (ro_ownSubdomain r) then consoleFor r (text_of (ro_ownSubdomain r)) else ''/admin'')"

subsection \<open>The route\<close>

definition findTenantByUserId :: "d1 \<Rightarrow> string \<Rightarrow> tenant option" where
  "findTenantByUserId db userId =
     (case find (\<lambda>t. tn_user_id t = userId) (tenants db) of
        Some t \<Rightarrow> Some t
      | None \<Rightarrow> find (\<lambda>t. \<exists>m\<in>set (tenant_users db). tu_tenant_id m = tn_id t \<and> tu_user_id m = userId) (tenants db))"

record login_world =
  lw_sso :: sso_world
  lw_turnstile :: turnstile
  lw_super_host :: "string option"

definition loginTurnstile :: "login_world \<Rightarrow> sso_request \<Rightarrow> bool" where
  "loginTurnstile w q = (sq_dev q \<or> isHostUnder (hostname (sq_web q)) (aw_default_domain (sw_auth (lw_sso w))))"

definition base_domain :: "login_world \<Rightarrow> string" where
  "base_domain w = (if truthy_text (aw_default_domain (sw_auth (lw_sso w))) then text_of (aw_default_domain (sw_auth (lw_sso w))) else ''labkiosk.org'')"

text \<open>What a wrong password is compared with when there is no such account.\<close>

definition password_right :: "auth_world \<Rightarrow> account option \<Rightarrow> string \<Rightarrow> bool" where
  "password_right a u pw =
     (case u of
        Some u \<Rightarrow> verifyPassword (aw_pbkdf2 a) (aw_hmac a) pw (us_password_hash u) (us_salt u) (aw_pepper a)
      | None \<Rightarrow> verifyPassword (aw_pbkdf2 a) (aw_hmac a) pw (PEPPERED_HASH_PREFIX @ replicate 64 CHR ''0'') (replicate 64 CHR ''0'') (aw_pepper a))"

definition login_redirect :: "login_world \<Rightarrow> sso_request \<Rightarrow> json \<Rightarrow> account \<Rightarrow> tenant option \<Rightarrow> string + string" where
  "login_redirect w q body u t =
     (case superAdminHost (lw_super_host w) (aw_default_domain (sw_auth (lw_sso w))) of
        Inl e \<Rightarrow> Inl e
      | Inr superHost \<Rightarrow>
          let hint = (case map_of (sq_params q) ''tenant'' of Some (c # cs) \<Rightarrow> c # cs | _ \<Rightarrow> string_or (field body ''tenant'')) in
              Inr (postLoginRedirect \<lparr>ro_role = us_role u,
                ro_ownSubdomain = (case t of None \<Rightarrow> None | Some t \<Rightarrow> if tn_subdomain t = [] then None else Some (tn_subdomain t)),
                ro_hostSlug = hostSubdomain (sq_web q) (aw_default_domain (sw_auth (lw_sso w))),
                ro_requestedSlug = (let s = cleanSubdomain (Some hint) in if s = [] then None else Some s),
                ro_isDev = sq_dev q, ro_baseDomain = base_domain w, ro_superHost = superHost, ro_host = hostname (sq_web q)\<rparr>))"

text \<open>
  Where single sign-on leads: \<open>redirectFor\<close> of the redeem route. A deployment whose \<open>SUPER_ADMIN_HOST\<close> is
  refused answers no request at all.
\<close>

definition sso_redirect :: "login_world \<Rightarrow> sso_request \<Rightarrow> tenant \<Rightarrow> string" where
  "sso_redirect w q t = postLoginRedirect \<lparr>ro_role = Org_admin, ro_ownSubdomain = Some (tn_subdomain t),
     ro_hostSlug = hostSubdomain (sq_web q) (aw_default_domain (sw_auth (lw_sso w))), ro_requestedSlug = None,
     ro_isDev = sq_dev q, ro_baseDomain = base_domain w, 
     ro_superHost = (case superAdminHost (lw_super_host w) (aw_default_domain (sw_auth (lw_sso w))) of Inr h \<Rightarrow> h | Inl _ \<Rightarrow> None), ro_host = hostname (sq_web q)\<rparr>"

definition waiting_message :: string where
  "waiting_message = ''Your organization is waiting for approval. We will email you as soon as it is active.''"

definition rejected_message :: string where
  "rejected_message = ''This registration was not approved. Reply to our email or contact support for details.''"

text \<open>After the password checked out; \<open>Throw\<close> is answered 500 by the route's own handler.\<close>

definition login_checked :: "login_world \<Rightarrow> sso_request \<Rightarrow> json \<Rightarrow> account \<Rightarrow> sso_store \<Rightarrow> reply outcome \<times> sso_store" where
  "login_checked w q body u s =
     (let a = ss_accounts s; t = (if us_role u = Org_admin then findTenantByUserId (ac_db a) (us_id u) else None) in
      case t of
        Some ten \<Rightarrow>
          if tn_status ten = Pending then (Refuse waiting_message 403, s)
          else if tn_status ten = Rejected then (Refuse rejected_message 403, s)
          else (case passwordSignInRefusal (ss_settings s) (sw_clients (lw_sso w)) (us_id u) (us_role u) t of
            Some m \<Rightarrow> (Refuse m 403, s)
          | None \<Rightarrow>
              (case login_redirect w q body u t of
                 Inl e \<Rightarrow> (Throw e, s)
               | Inr target \<Rightarrow>
                   (case continueSignIn (sw_auth (lw_sso w)) (sq_auth q)
                           \<lparr>st_userId = us_id u, st_tenantId = (if tn_id ten = [] then None else Some (tn_id ten)), st_role = us_role u, st_redirect = target\<rparr> a of
                      (reply, a') \<Rightarrow> (reply, s\<lparr>ss_accounts := a'\<rparr>))))
      | None \<Rightarrow>
          (case login_redirect w q body u None of
             Inl e \<Rightarrow> (Throw e, s)
           | Inr target \<Rightarrow>
               (case continueSignIn (sw_auth (lw_sso w)) (sq_auth q) \<lparr>st_userId = us_id u, st_tenantId = None, st_role = us_role u, st_redirect = target\<rparr> a of
                  (reply, a') \<Rightarrow> (reply, s\<lparr>ss_accounts := a'\<rparr>))))"

definition login_password :: "login_world \<Rightarrow> sso_request \<Rightarrow> json \<Rightarrow> sso_store \<Rightarrow> reply outcome \<times> sso_store" where
  "login_password w q body s =
     (let identifier = trim (toLowerCase (js_string (field body ''email''))); now = sq_now q; a = ss_accounts s;
          lockedFor = getLockoutRemaining (ac_db a) identifier now; found = findUserByEmail a identifier
      in if lockedFor > 0 then (Refuse (''Too many failed sign-in attempts. Try again in '' @ minutes_text lockedFor @ '' minute(s).'') 429, s)
         else case found of
           None \<Rightarrow> (Refuse ''Invalid email or password'' 401, with_db (\<lambda>db. recordLoginFailure db identifier now) s)
         | Some u \<Rightarrow>
             if \<not> password_right (sw_auth (lw_sso w)) found (js_string (field body ''password''))
             then (Refuse ''Invalid email or password'' 401, with_db (\<lambda>db. recordLoginFailure db identifier now) s)
             else login_checked w q body u (with_db (\<lambda>db. deleteExpiredSessions (clearLoginFailures db identifier) (Some (us_id u)) now) s))"

definition login_body :: "login_world \<Rightarrow> sso_request \<Rightarrow> sso_store \<Rightarrow> reply outcome \<times> sso_store" where
  "login_body w q s =
     (case ar_body (sq_auth q) of
        None \<Rightarrow> (Throw ''SyntaxError'', s)
      | Some JNull \<Rightarrow> (Throw ''TypeError'', s)
      | Some body \<Rightarrow>
          if \<not> truthy (field body ''email'') \<or> \<not> truthy (field body ''password'') then (Refuse ''Email and password required'' 400, s)
          else (case (if loginTurnstile w q then turnstileRefusal (lw_turnstile w) (field body ''turnstileToken'') (ar_ip (sq_auth q)) ''login'' else Inr None) of
             Inl e \<Rightarrow> (Throw e, s)
           | Inr (Some (m, n)) \<Rightarrow> (Refuse m n, s)
           | Inr None \<Rightarrow> login_password w q body s))"

definition handleLogin :: "login_world \<Rightarrow> sso_request \<Rightarrow> sso_store \<Rightarrow> reply outcome \<times> sso_store" where
  "handleLogin w q s = (case login_body w q s of (Throw _, s') \<Rightarrow> (Refuse ''Sign-in failed. Please try again.'' 500, s') | r \<Rightarrow> r)"

subsection \<open>What a password sign-in takes\<close>

lemma continue_signed_in:
  assumes "signed_in (fst (continueSignIn w q target a))" "findUserById a (st_userId target) = Some u"
  shows "\<not> (isAdministratorAccount a u \<or> us_two_factor_email u \<noteq> 0 \<or> hasTwoFactor a (us_id u) \<or> passkeysFor a (us_id u) (rp_rpId (rp_of w q)) \<noteq> [])
    \<or> trusted_browser w q (st_userId target) a
    \<or> (aw_mail_problem w \<and> \<not> hasTwoFactor a (us_id u) \<and> passkeysFor a (us_id u) (rp_rpId (rp_of w q)) = [])"
proof (rule ccontr)
  assume no: "\<not> ?thesis"
  have "continueSignIn w q target a = start_challenge w q target u (factorState a u (rp_rpId (rp_of w q))) a"
    using no assms(2) by (auto simp: continueSignIn_def Let_def factorState_def hasSecondFactor_def hasTwoFactor_def split: option.splits if_splits)
  then show False using assms(1) start_challenge_no_session(2) by simp
qed

text \<open>The parts of the accounts a login leaves as they are before it continues.\<close>

lemma cleaned_db:
  "tenants (deleteExpiredSessions (clearLoginFailures db i) u now) = tenants db"
  "tenant_users (deleteExpiredSessions (clearLoginFailures db i) u now) = tenant_users db"
  by (simp_all add: deleteExpiredSessions_def clearLoginFailures_def split: option.split)

lemma login_checked_Answer:
  assumes "fst (login_checked w q body u s) = Answer r"
  shows "\<exists>target. st_userId target = us_id u \<and> fst (continueSignIn (sw_auth (lw_sso w)) (sq_auth q) target (ss_accounts s)) = Answer r"
    "us_role u = Org_admin \<Longrightarrow> findTenantByUserId (ac_db (ss_accounts s)) (us_id u) = Some t \<Longrightarrow> tn_status t \<notin> {Pending, Rejected}
      \<and> passwordSignInRefusal (ss_settings s) (sw_clients (lw_sso w)) (us_id u) (us_role u) (Some t) = None"
proof -
  let ?t = "if us_role u = Org_admin then findTenantByUserId (ac_db (ss_accounts s)) (us_id u) else None"
  show "\<exists>target. st_userId target = us_id u \<and> fst (continueSignIn (sw_auth (lw_sso w)) (sq_auth q) target (ss_accounts s)) = Answer r"
  proof (cases ?t)
    case None
    then obtain to where "login_redirect w q body u None = Inr to" using assms by (cases "login_redirect w q body u None") (simp_all add: login_checked_def Let_def)
    then have "fst (continueSignIn (sw_auth (lw_sso w)) (sq_auth q)
        \<lparr>st_userId = us_id u, st_tenantId = None, st_role = us_role u, st_redirect = to\<rparr> (ss_accounts s)) = Answer r"
      using assms None by (simp add: login_checked_def Let_def split: prod.splits)
    then show ?thesis by (intro exI conjI) simp_all
  next
    case (Some ten)
    then have pass: "tn_status ten \<noteq> Pending" "tn_status ten \<noteq> Rejected"
      "passwordSignInRefusal (ss_settings s) (sw_clients (lw_sso w)) (us_id u) (us_role u) (Some ten) = None"
      using assms by (auto simp: login_checked_def Let_def split: if_splits option.splits)
    obtain to where "login_redirect w q body u (Some ten) = Inr to"
      using assms Some pass by (cases "login_redirect w q body u (Some ten)") (simp_all add: login_checked_def Let_def)
    then have "fst (continueSignIn (sw_auth (lw_sso w)) (sq_auth q)
        \<lparr>st_userId = us_id u, st_tenantId = (if tn_id ten = [] then None else Some (tn_id ten)), st_role = us_role u, st_redirect = to\<rparr> (ss_accounts s)) = Answer r"
      using assms Some pass by (cases "tn_id ten = []") (simp_all add: login_checked_def Let_def split: prod.splits)
    then show ?thesis by (intro exI conjI) simp_all
  qed
  show "us_role u = Org_admin \<Longrightarrow> findTenantByUserId (ac_db (ss_accounts s)) (us_id u) = Some t \<Longrightarrow> tn_status t \<notin> {Pending, Rejected}
      \<and> passwordSignInRefusal (ss_settings s) (sw_clients (lw_sso w)) (us_id u) (us_role u) (Some t) = None"
    using assms by (auto simp: login_checked_def Let_def split: if_splits option.splits)
qed

lemma login_body_Answer:
  assumes "fst (handleLogin w q s) = Answer r"
  shows "\<exists>body u. ar_body (sq_auth q) = Some body
    \<and> (loginTurnstile w q \<longrightarrow> turnstileRefusal (lw_turnstile w) (field body ''turnstileToken'') (ar_ip (sq_auth q)) ''login'' = Inr None)
    \<and> getLockoutRemaining (ac_db (ss_accounts s)) (trim (toLowerCase (js_string (field body ''email'')))) (sq_now q) \<le> 0
    \<and> findUserByEmail (ss_accounts s) (trim (toLowerCase (js_string (field body ''email'')))) = Some u
    \<and> password_right (sw_auth (lw_sso w)) (Some u) (js_string (field body ''password''))
    \<and> fst (login_checked w q body u (with_db (\<lambda>db. deleteExpiredSessions (clearLoginFailures db
        (trim (toLowerCase (js_string (field body ''email''))))) (Some (us_id u)) (sq_now q)) s)) = Answer r"
proof -
  have "fst (login_body w q s) = Answer r" using assms by (auto simp: handleLogin_def split: prod.splits outcome.splits)
  then obtain body where body: "ar_body (sq_auth q) = Some body" "fst (login_password w q body s) = Answer r"
      "loginTurnstile w q \<longrightarrow> turnstileRefusal (lw_turnstile w) (field body ''turnstileToken'') (ar_ip (sq_auth q)) ''login'' = Inr None"
    by (auto simp: login_body_def split: option.splits json.splits if_splits sum.splits)
  from body(2) show ?thesis using body(1,3)
    by (auto simp: login_password_def Let_def split: if_splits option.splits)
qed

text \<open>
  C9. A password sign-in is answered with a session or a second step only when the human check, where it
  is asked, let the request through, the address is not locked out, an account has that e-mail address and
  its password is right, its organization is neither waiting for approval nor rejected, and the
  organization does not require single sign-on of someone who is not its owner. And it is a session at
  once only when the account has no second factor, or the browser is trusted, or an e-mailed code would be
  the only factor and mail is not set up.
\<close>

theorem login_gate:
  assumes answer: "fst (handleLogin w q s) = Answer r" and ids: "distinct_keys us_id (ac_users (ss_accounts s))"
  shows "\<exists>body u. ar_body (sq_auth q) = Some body
    \<and> (loginTurnstile w q \<longrightarrow> turnstileRefusal (lw_turnstile w) (field body ''turnstileToken'') (ar_ip (sq_auth q)) ''login'' = Inr None)
    \<and> getLockoutRemaining (ac_db (ss_accounts s)) (trim (toLowerCase (js_string (field body ''email'')))) (sq_now q) \<le> 0
    \<and> findUserByEmail (ss_accounts s) (trim (toLowerCase (js_string (field body ''email'')))) = Some u
    \<and> password_right (sw_auth (lw_sso w)) (Some u) (js_string (field body ''password''))
    \<and> (\<forall>t. us_role u = Org_admin \<and> findTenantByUserId (ac_db (ss_accounts s)) (us_id u) = Some t \<longrightarrow>
         tn_status t \<notin> {Pending, Rejected}
         \<and> (so_requireSso (getSsoSettings (ss_settings s) (tn_id t)) \<and> offeredProviders (sw_clients (lw_sso w)) (getSsoSettings (ss_settings s) (tn_id t)) \<noteq> []
              \<longrightarrow> tn_user_id t = us_id u))
    \<and> (signed_in (Answer r) \<longrightarrow>
         (\<not> isAdministratorAccount (ss_accounts s) u \<and> us_two_factor_email u = 0 \<and> \<not> hasTwoFactor (ss_accounts s) (us_id u)
            \<and> passkeysFor (ss_accounts s) (us_id u) (rp_rpId (rp_of (sw_auth (lw_sso w)) (sq_auth q))) = [])
         \<or> trusted_browser (sw_auth (lw_sso w)) (sq_auth q) (us_id u) (ss_accounts s)
         \<or> (aw_mail_problem (sw_auth (lw_sso w)) \<and> \<not> hasTwoFactor (ss_accounts s) (us_id u)
            \<and> passkeysFor (ss_accounts s) (us_id u) (rp_rpId (rp_of (sw_auth (lw_sso w)) (sq_auth q))) = []))"
proof -
  obtain body u where ok: "ar_body (sq_auth q) = Some body"
    "loginTurnstile w q \<longrightarrow> turnstileRefusal (lw_turnstile w) (field body ''turnstileToken'') (ar_ip (sq_auth q)) ''login'' = Inr None"
    "getLockoutRemaining (ac_db (ss_accounts s)) (trim (toLowerCase (js_string (field body ''email'')))) (sq_now q) \<le> 0"
    "findUserByEmail (ss_accounts s) (trim (toLowerCase (js_string (field body ''email'')))) = Some u"
    "password_right (sw_auth (lw_sso w)) (Some u) (js_string (field body ''password''))"
    "fst (login_checked w q body u (with_db (\<lambda>db. deleteExpiredSessions (clearLoginFailures db
        (trim (toLowerCase (js_string (field body ''email''))))) (Some (us_id u)) (sq_now q)) s)) = Answer r"
    using login_body_Answer [OF answer] by blast
  let ?s = "with_db (\<lambda>db. deleteExpiredSessions (clearLoginFailures db (trim (toLowerCase (js_string (field body ''email''))))) (Some (us_id u)) (sq_now q)) s"
  have same: "findTenantByUserId (ac_db (ss_accounts ?s)) i = findTenantByUserId (ac_db (ss_accounts s)) i" "ss_settings ?s = ss_settings s"
    "isAdministratorAccount (ss_accounts ?s) v = isAdministratorAccount (ss_accounts s) v" "hasTwoFactor (ss_accounts ?s) i = hasTwoFactor (ss_accounts s) i"
    "passkeysFor (ss_accounts ?s) i rp = passkeysFor (ss_accounts s) i rp" "trusted_browser x y i (ss_accounts ?s) = trusted_browser x y i (ss_accounts s)"
    "findUserById (ss_accounts ?s) i = findUserById (ss_accounts s) i" for i v rp x y
    by (simp_all add: with_db_def findTenantByUserId_def cleaned_db isAdministratorAccount_def hasTwoFactor_def findTwoFactor_def passkeysFor_def
        trusted_browser_def findUserById_def split: option.split)
  have "u \<in> set (ac_users (ss_accounts s))" using ok(4) by (auto simp: findUserByEmail_def dest!: tbl_lookup_mem)
  then have user: "findUserById (ss_accounts s) (us_id u) = Some u" using ids by (simp add: findUserById_def tbl_lookup_eq)
  have org: "tn_status t \<notin> {Pending, Rejected} \<and> passwordSignInRefusal (ss_settings s) (sw_clients (lw_sso w)) (us_id u) (us_role u) (Some t) = None"
    if "us_role u = Org_admin" "findTenantByUserId (ac_db (ss_accounts s)) (us_id u) = Some t" for t
    using login_checked_Answer(2) [OF ok(6) that(1), of t] that(2) same by simp
  have sso: "tn_user_id t = us_id u" if "passwordSignInRefusal (ss_settings s) (sw_clients (lw_sso w)) (us_id u) Org_admin (Some t) = None"
    "so_requireSso (getSsoSettings (ss_settings s) (tn_id t))" "offeredProviders (sw_clients (lw_sso w)) (getSsoSettings (ss_settings s) (tn_id t)) \<noteq> []" for t
    using that by (auto simp: passwordSignInRefusal_def Let_def split: if_splits)
  obtain target where "st_userId target = us_id u" "fst (continueSignIn (sw_auth (lw_sso w)) (sq_auth q) target (ss_accounts ?s)) = Answer r"
    using login_checked_Answer(1) [OF ok(6)] by blast
  note once = continue_signed_in [of "sw_auth (lw_sso w)" "sq_auth q" target "ss_accounts ?s" u, unfolded this same, OF _ user]
  show ?thesis
    by (intro exI [of _ body] exI [of _ u] conjI ok) (use org sso once in auto)
qed

subsection \<open>A concrete case\<close>

definition login_demo :: login_world where
  "login_demo = \<lparr>lw_sso = lab_world, lw_turnstile = \<lparr>tu_site = None, tu_secret = None, tu_verify = (\<lambda>_ _ _. None)\<rparr>, lw_super_host = None\<rparr>"

definition login_store :: sso_store where
  "login_store = \<lparr>ss_accounts = demo_accounts [] [], ss_settings = [], ss_states = [], ss_keys = Map.empty\<rparr>"

definition login_request :: sso_request where
  "login_request = lab_request [] (JObj [(''email'', JStr ''a@lab.org''), (''password'', JStr ''pw'')])"

lemma login_demo_answer: "fst (handleLogin login_demo login_request login_store) = Answer (Second_step sample_token Ask_email False False (Some (maskEmail ''a@lab.org'')))"
proof -
  have name: "trim (toLowerCase ''a@lab.org'') = ''a@lab.org''" by code_simp
  have trimmed: "trim [] = []" by (simp add: trim_def)
  let ?body = "JObj [(''email'', JStr ''a@lab.org''), (''password'', JStr ''pw'')]"
  have found: "findUserByEmail (ss_accounts login_store) ''a@lab.org'' = Some demo_user"
    using lab_email by (simp add: login_store_def findUserByEmail_def demo_accounts_def demo_user_def tbl_lookup_def)
  have right: "password_right (sw_auth lab_world) (Some demo_user) pw" for pw
    by (simp add: password_right_def verifyPassword_def demo_user_def lab_world_def demo_world_def PEPPERED_HASH_PREFIX_def startsWith_def timingSafeEqual_iff bufferToHex_def Let_def)
  have goes: "\<exists>to. login_redirect login_demo login_request ?body demo_user None = Inr to"
    by (simp add: login_redirect_def login_demo_def superAdminHost_def trimmed text_of_def toLowerCase_def Let_def)
  have clean: "ss_accounts (with_db f login_store) = (demo_accounts [] [])\<lparr>ac_db := f empty_db\<rparr>" for f
    by (simp add: with_db_def login_store_def demo_accounts_def)
  have same: "deleteExpiredSessions (clearLoginFailures empty_db i) u n = empty_db" for i u n
    by (simp add: deleteExpiredSessions_def clearLoginFailures_def empty_db_def tbl_delete_def split: option.split)
  have step: "fst (continueSignIn (sw_auth lab_world) (sq_auth login_request) \<lparr>st_userId = us_id demo_user, st_tenantId = None, st_role = us_role demo_user, st_redirect = to\<rparr>
      (demo_accounts [] [])) = Answer (Second_step sample_token Ask_email False False (Some (maskEmail ''a@lab.org'')))" for to
  proof -
    have state: "factorState (demo_accounts [] []) demo_user rp = \<lparr>fs_app = None, fs_passkeys = [], fs_email = True, fs_required = True\<rparr>" for rp
      using demo_administrator [of "[]" "[]"] by (simp add: factorState_def findTwoFactor_def passkeysFor_def demo_accounts_def tbl_lookup_def Let_def)
    let ?st = "\<lparr>fs_app = None, fs_passkeys = [], fs_email = True, fs_required = True\<rparr>"
      and ?target = "\<lparr>st_userId = us_id demo_user, st_tenantId = None, st_role = us_role demo_user, st_redirect = to\<rparr>"
    have fields: "us_id demo_user = ''u1''" "sq_auth login_request = demo_request ?body" "sw_auth lab_world = demo_world" "\<not> aw_mail_problem demo_world"
      by (simp_all add: demo_user_def login_request_def lab_request_def lab_world_def demo_world_def)
    have "continueSignIn demo_world (demo_request ?body) ?target (demo_accounts [] [])
        = start_challenge demo_world (demo_request ?body) ?target demo_user ?st (demo_accounts [] [])"
      using demo_user_found [of "[]" "[]"] demo_untrusted by (simp add: continueSignIn_def fields state hasSecondFactor_def)
    moreover have "fst (start_challenge demo_world (demo_request ?body) ?target demo_user ?st (demo_accounts [] []))
        = Answer (Second_step sample_token Ask_email False False (Some (maskEmail ''a@lab.org'')))"
      by (simp add: start_challenge_def sendChallengeCode_def demo_world_def demo_request_def demo_accounts_def demo_user_def tbl_lookup_def Let_def)
    ultimately show ?thesis by (simp add: fields)
  qed
  have eq: "demo_accounts [] []\<lparr>ac_db := empty_db\<rparr> = demo_accounts [] []" by (simp add: demo_accounts_def)
  have checked: "fst (login_checked login_demo login_request ?body demo_user (with_db (\<lambda>db. deleteExpiredSessions (clearLoginFailures db i) u n) login_store))
      = Answer (Second_step sample_token Ask_email False False (Some (maskEmail ''a@lab.org'')))" for i u n
  proof -
    obtain to where to: "login_redirect login_demo login_request ?body demo_user None = Inr to" using goes by blast
    have "us_role demo_user \<noteq> Org_admin" "lw_sso login_demo = lab_world" by (simp_all add: demo_user_def login_demo_def)
    then show ?thesis using to step [of to] eq by (simp add: login_checked_def clean same case_prod_beta)
  qed
  have "getLockoutRemaining (ac_db (ss_accounts login_store)) i n = 0" for i n using demo_unlocked by (simp add: login_store_def)
  then have "fst (login_password login_demo login_request ?body login_store) = Answer (Second_step sample_token Ask_email False False (Some (maskEmail ''a@lab.org'')))"
    using checked by (simp add: login_password_def name found right login_demo_def Let_def)
  moreover have "turnstileRefusal (lw_turnstile login_demo) t ip act = Inr None" for t ip act
    by (simp add: turnstileRefusal_def turnstileConfigProblem_def turnstileSiteKey_def login_demo_def trimmed text_of_def)
  ultimately show ?thesis by (cases "login_password login_demo login_request ?body login_store")
      (simp add: handleLogin_def login_body_def login_request_def lab_request_fields)
qed

theorem login_gate_witness:
  "\<exists>u. findUserByEmail (ss_accounts login_store) (trim (toLowerCase ''a@lab.org'')) = Some u \<and> password_right (sw_auth lab_world) (Some u) ''pw''"
proof -
  have "distinct_keys us_id (ac_users (ss_accounts login_store))" by (simp add: login_store_def demo_accounts_def)
  from login_gate [OF login_demo_answer this] show ?thesis
    by (auto simp: login_request_def lab_request_fields login_demo_def)
qed

end
