(* ===== verification/Spec2Isabelle.thy ===== *)
theory Spec2Isabelle
  imports Web_Text Enrollment_Key Sessions Billing Hub_Access Hub_Config Remote_Control Login
begin

text \<open>
  LabKiosk is a platform for computer labs: workstations boot into a locked-down browser and are run
  from a control plane, a Cloudflare Worker with a SQL database and two kinds of Durable Objects. This
  development models the logic of that control plane (TypeScript, \<open>src/cloudflare-control/src\<close>) and proves
  what makes it correct.

  \<^bold>\<open>The parts and how they work together.\<close> A request arrives at the Worker (\<open>index.ts\<close>). The guard
  (\<open>guard.ts\<close>) decides which organization it is about, from the host, and whether its session or
  workstation token may act there. Sessions, tokens and throttling are rows of the database (\<open>db.ts\<close>).
  A sign-in comes from a password (\<open>index.ts\<close>) or from Google or Microsoft (\<open>sso.ts\<close>), passes a second
  factor where the account has one (\<open>two_factor.ts\<close>, \<open>webauthn.ts\<close>) and is handed to the console's host
  (\<open>session_handoff.ts\<close>). What an organization may run follows from its licence (\<open>license.ts\<close>, \<open>plans.ts\<close>,
  \<open>plan_sync.ts\<close>) and its payments (\<open>billing.ts\<close>). Power schedules, exams, printers and releases
  (\<open>power.ts\<close>, \<open>exams.ts\<close>, \<open>printing.ts\<close>, \<open>releases.ts\<close>, \<open>lan_sharing.ts\<close>) are stored per organization; the
  organization's hub (\<open>org_hub.ts\<close>), one Durable Object each, turns them into the configuration of every
  connected workstation, queues commands for it and keeps the seats of Remote Control, whose sessions run
  through a relay (\<open>remote_relay.ts\<close>) that tells the hub when they end.

  \<^bold>\<open>Theories, in the order they build on each other\<close> (source files under \<open>src/cloudflare-control/src\<close>).

  \<^item> \<open>Prelude\<close>: JavaScript values and strings, sorting with a comparator, SQL tables as lists of rows, and
    two contracts as locales: \<open>row_map\<close> (a keyed table is a finite map) and \<open>step_system\<close> (a step function
    that keeps an invariant keeps it along a run).
  \<^item> \<open>Web_Text\<close> (\<open>escape.ts\<close>), \<open>Auth\<close> and \<open>Enrollment_Key\<close> (\<open>auth.ts\<close>), \<open>Calendar\<close> (\<open>Date\<close> in UTC).
  \<^item> \<open>Store\<close> (\<open>types.ts\<close>, \<open>db.ts\<close>, \<open>notifications.ts\<close>): the rows, one record per table, and the statements
    several components run. \<open>Sessions\<close> (\<open>db.ts\<close>): sessions, login attempts, rate limits, device tokens.
  \<^item> \<open>Guard\<close> (\<open>guard.ts\<close>, \<open>demo.ts\<close>), \<open>Portal_Url\<close> (\<open>portal_url.ts\<close>, \<open>link_rules.ts\<close>, \<open>addresses.ts\<close>).
  \<^item> \<open>License\<close>, \<open>Licensing\<close>, \<open>Billing\<close> (\<open>license.ts\<close>, \<open>plans.ts\<close>, \<open>plan_sync.ts\<close>, \<open>billing.ts\<close>).
  \<^item> \<open>Power_Schedules\<close>, \<open>Exams\<close>, \<open>Printing\<close> with their routes of \<open>index.ts\<close>; \<open>Releases\<close> and \<open>Release_Ops\<close>
    (\<open>releases.ts\<close>); \<open>Lan_Sharing\<close> (\<open>lan_sharing.ts\<close>).
  \<^item> The hub (\<open>org_hub.ts\<close>): \<open>Hub_Model\<close> (state and configuration), \<open>Hub_Ops\<close> (connections, queue, seats,
    exams, write-back), \<open>Hub_Handlers\<close> (every route, socket event, alarm and eviction as an event of
    \<open>hub_step\<close>), \<open>Hub_Relations\<close> (what every operation does to the state, in the locales \<open>hub_base\<close>,
    \<open>hub_relation\<close> and \<open>hub_fine\<close>), \<open>Hub_Queue\<close>, \<open>Hub_Access\<close> and \<open>Hub_Config\<close> (their interpretations and
    what follows).
  \<^item> \<open>Remote_Relay\<close> (\<open>remote_relay.ts\<close>) and \<open>Remote_Control\<close> (the routes of \<open>index.ts\<close>, the relay and the hub
    together).
  \<^item> \<open>Webauthn\<close> (\<open>webauthn.ts\<close>), \<open>Session_Handoff\<close> (\<open>session_handoff.ts\<close>), \<open>Two_Factor\<close>, \<open>Sign_In\<close>,
    \<open>Two_Factor_Settings\<close> and \<open>Sign_In_Runs\<close> (\<open>two_factor.ts\<close>): codes and rows, the sign-in, the settings, and
    runs of all of them.
  \<^item> \<open>Id_Token\<close> and \<open>Single_Sign_On\<close> (\<open>sso.ts\<close>, \<open>canonicalHost\<close> of \<open>seo.ts\<close>); \<open>Login\<close> (the password route
    of \<open>index.ts\<close>, \<open>turnstile.ts\<close>).

  \<^bold>\<open>How code becomes definitions.\<close> A definition has the name of the function it models, or names a part of
  one. A row or object is a record, a union a datatype, a table the list of its rows, a statement the list
  operation it denotes, with \<open>UNIQUE\<close> and conditional updates written out. An answer of \<open>jsonError\<close> is its
  message and status; a thrown error is a value of a sum type. A handler takes the state and returns it
  changed. A request carries what the code draws or reads while it runs: the time, identifiers, random
  bytes, the outcome of sending a mail.

  \<^bold>\<open>Parameters.\<close> What is not in the source is an argument: SHA-256, HMAC, PBKDF2, AES-GCM and signature
  verification of Web Crypto; the URL parser and the host of a URL; \<open>localeCompare\<close>; \<open>JSON.parse\<close> of text and
  arithmetic on numbers that are not integers; the bucket of releases, the payment provider, the identity
  providers, Turnstile and the mail service. Where a result needs a law of one of them (a digest that
  tells the tokens of the run apart, a cipher that decrypts what it encrypted) the law is a hypothesis of
  that theorem, and its witness instantiates it.

  \<^bold>\<open>Time and interleaving.\<close> A handler runs at one instant and, by default, without another in between. Where
  the order of requests decides, it is written out: a run is a list of events (\<open>hub_step\<close>, \<open>relay_step\<close>,
  \<open>auth_step\<close>, \<open>sso_step\<close>, \<open>exam_step\<close>, \<open>power_step\<close>, \<open>release_step\<close>, \<open>serve\<close>), and a handler that others can
  overtake is cut after its reads (\<open>handoff_read\<close> and \<open>handoff_write\<close>, \<open>settle_answer\<close>, \<open>spend_step\<close>, the
  relay's notice to the hub).

  \<^bold>\<open>Bounds.\<close> Integers are unbounded where the code's doubles hold them exactly; bytes and the shifts of base32
  are words of 8 and 32 bits. Every definition is total: the CBOR reader ends by a measure on input and
  depth (at most 16 levels, as the code has it), the paced loops of releases and reminders by the list
  they walk. There is no fuel. A \<open>char\<close> is a code unit below 256; decoded text is a list of code points.

  \<^bold>\<open>What is shown.\<close>

  \<^item> Access: a request acts only in its own organization (\<open>Guard\<close>), a removed workstation is refused at once
    by the hub and after the cache's lifetime by the Worker, a hub serves one organization.
  \<^item> Signing in: what a password, an identity provider, a passkey, a code or a handoff must have proved
    before there is a session (\<open>Login\<close>, \<open>Single_Sign_On\<close>, \<open>Id_Token\<close>, \<open>Webauthn\<close>, \<open>Sign_In_Runs\<close>,
    \<open>Session_Handoff\<close>, \<open>Sessions\<close>), that each is spent once, how often one may guess, and where requests sent
    together get around the count.
  \<^item> Money and limits: a payment is recorded once, licensed workstations fit the plan, Remote Control keeps to
    its seats and a relay to its two parties.
  \<^item> Devices: commands are handed out once, an exam locks its workstations, schedules never share a day and
    are the week the workstation runs, an update settles and a major one needs consent, reminders end, and
    a hub with work to do always has an alarm.
  \<^item> Text and data: escaping is safe, CBOR and stored settings are read back as written.

  \<^bold>\<open>Not modelled.\<close> The pages (\<open>ui_*.ts\<close>), static content and metadata are text. Registration, plan changes and
  most other routes of \<open>index.ts\<close>, \<open>signup.ts\<close> and \<open>plan_routes.ts\<close> string together operations modelled here
  with mail and page output. The inbox, mail parsing, status and usage reports, custom host names and phone
  verification are around the core or drive third-party services. The database adapters and the stand-in
  for Durable Objects replace the platform. The workstation image is Python, shell and a browser
  extension. Log lines and metrics change no state and are left out throughout.
\<close>

end
